(* ===== verification/Prelude.thy ===== *)
theory Prelude
  imports
    Main
    "HOL-Library.Multiset"
    "HOL-Library.List_Lexorder"
    "HOL-Library.Char_ord"
    "HOL-Library.Product_Lexorder"
begin

text \<open>
  Shared base of the development: the exceptions the Python code raises, the
  monad of stateful computations that may raise, the two calculi used to
  reason about it (relational frames and triples with an exceptional
  postcondition), and generic facts on lists used by several components.

  A Python function with effects is a function from the state to a result and
  the state left behind: \<open>Inl e\<close> when it raised \<open>e\<close>, \<open>Inr a\<close> when it
  returned \<open>a\<close>. A raise does not undo the effects before it, so the state is
  returned in both cases; undoing is what the unit of work's rollback does.
\<close>

section \<open>Exceptions\<close>

text \<open>
  The exception classes the modelled code raises or catches. Messages are kept
  only where the code stores them: the ledger invariant text and the reason a
  mark price is missing become reconciliation details.
\<close>

datatype exn =
    ValueError
  | TypeError
  | KeyError
  | InvalidOrderTransitionError
  | InvalidBrokerOrderTransitionError
  | LedgerInvariantError string
  | BrokerTransportError
  | BrokerQueryError
  | BrokerConflictError
  | BrokerOrderIdentityConflictError
  | PersistenceInvariantError
  | DatabaseError
  | UnitOfWorkStateError
  | ExecutionStateError
  | BrokerMirrorMismatchError
  | ExecutionPausedError
  | ControlPersistenceError
  | TradeUpdateError
  | ControlPlaneError
  | ResumeBlockedError
  | MarkPriceUnavailableError string
  | OverflowError
  | StaleLeaseError
  | IllegalTransitionError
  | RecordLineageError
  | InMemorySecurityMasterError
  | InMemoryConcurrentTransitionError
  | SecurityMasterServiceError
  | SourceLineageError
  | IdentityClosureError
  | MarketClockUnavailableError
  | InvalidOperation
  | DecimalOverflow

type_synonym 'a outcome = "exn + 'a"

text \<open>Sequencing of pure code that may raise, and a validator's \<open>if not b: raise ValueError\<close>.\<close>

definition bindO :: "'a outcome \<Rightarrow> ('a \<Rightarrow> 'b outcome) \<Rightarrow> 'b outcome" where
  "bindO r f = (case r of Inl e \<Rightarrow> Inl e | Inr a \<Rightarrow> f a)"

definition require :: "bool \<Rightarrow> unit outcome" where
  "require b = (if b then Inr () else Inl ValueError)"

lemma bindO_simps [simp]: "bindO (Inl e) f = Inl e" "bindO (Inr a) f = f a"
  by (simp_all add: bindO_def)

lemma bindO_eq_Inr: "bindO r f = Inr b \<longleftrightarrow> (\<exists>a. r = Inr a \<and> f a = Inr b)"
  by (cases r) auto

lemma require_eq_Inr [simp]: "require b = Inr u \<longleftrightarrow> b"
  by (simp add: require_def)

lemma require_True [simp]: "require True = Inr ()"
  by (simp add: require_def)

lemma require_False [simp]: "require False = Inl ValueError"
  by (simp add: require_def)

text \<open>A check with an error of its own, and a check of every element of a sequence.\<close>

definition demand :: "exn \<Rightarrow> bool \<Rightarrow> unit outcome" where
  "demand e b = (if b then Inr () else Inl e)"

lemma demand_eq_Inr [simp]: "demand e b = Inr u \<longleftrightarrow> b"
  by (simp add: demand_def)

fun eachO :: "('a \<Rightarrow> unit outcome) \<Rightarrow> 'a list \<Rightarrow> unit outcome" where
  "eachO f [] = Inr ()"
| "eachO f (x # xs) = bindO (f x) (\<lambda>_. eachO f xs)"

lemma eachO_eq_Inr: "eachO f xs = Inr u \<longleftrightarrow> list_all (\<lambda>x. f x = Inr ()) xs"
  by (induction xs) (auto simp: bindO_eq_Inr)

text \<open>A comprehension whose body may raise.\<close>

fun mapO :: "('a \<Rightarrow> 'b outcome) \<Rightarrow> 'a list \<Rightarrow> 'b list outcome" where
  "mapO f [] = Inr []"
| "mapO f (x # xs) = bindO (f x) (\<lambda>y. bindO (mapO f xs) (\<lambda>ys. Inr (y # ys)))"

lemma mapO_member: "mapO f xs = Inr ys \<Longrightarrow> x \<in> set xs \<Longrightarrow> \<exists>y\<in>set ys. f x = Inr y"
  by (induction xs arbitrary: ys) (auto simp: bindO_eq_Inr)

lemma mapO_map: "list_all (\<lambda>x. f x = Inr (g x)) xs \<Longrightarrow> mapO f xs = Inr (map g xs)"
  by (induction xs) auto

lemma mapO_eq: "(\<And>x y. f x = Inr y \<Longrightarrow> y = g x) \<Longrightarrow> mapO f xs = Inr ys \<Longrightarrow> ys = map g xs"
  by (induction xs arbitrary: ys) (auto simp: bindO_eq_Inr)

lemma mapO_iff: "mapO f xs = Inr ys \<longleftrightarrow> list_all2 (\<lambda>x y. f x = Inr y) xs ys"
  by (induction xs arbitrary: ys) (auto simp: bindO_eq_Inr list_all2_Cons1)

text \<open>\<open>itertools.pairwise\<close>.\<close>

fun pairs :: "'a list \<Rightarrow> ('a \<times> 'a) list" where
  "pairs (x # y # xs) = (x, y) # pairs (y # xs)"
| "pairs xs = []"

lemma pairs_successively: "list_all (\<lambda>p. P (fst p) (snd p)) (pairs xs) \<longleftrightarrow> successively P xs"
  by (induction xs rule: pairs.induct) auto

section \<open>Computations with state and exceptions\<close>

type_synonym ('s, 'a) comp = "'s \<Rightarrow> (exn + 'a) \<times> 's"

definition returnM :: "'a \<Rightarrow> ('s, 'a) comp" where
  "returnM a = (\<lambda>s. (Inr a, s))"

definition raiseM :: "exn \<Rightarrow> ('s, 'a) comp" where
  "raiseM e = (\<lambda>s. (Inl e, s))"

definition bindM :: "('s, 'a) comp \<Rightarrow> ('a \<Rightarrow> ('s, 'b) comp) \<Rightarrow> ('s, 'b) comp" where
  "bindM m f = (\<lambda>s. case m s of (Inl e, t) \<Rightarrow> (Inl e, t) | (Inr a, t) \<Rightarrow> f a t)"

text \<open>\<open>try: m / except e: h e\<close>; a handler that does not match re-raises.\<close>

definition catchM :: "('s, 'a) comp \<Rightarrow> (exn \<Rightarrow> ('s, 'a) comp) \<Rightarrow> ('s, 'a) comp" where
  "catchM m h = (\<lambda>s. case m s of (Inl e, t) \<Rightarrow> h e t | (Inr a, t) \<Rightarrow> (Inr a, t))"

text \<open>A \<open>try\<close> whose outcome is inspected: the exception or the value, nothing raised.\<close>

definition attemptM :: "('s, 'a) comp \<Rightarrow> ('s, exn + 'a) comp" where
  "attemptM m = (\<lambda>s. case m s of (r, t) \<Rightarrow> (Inr r, t))"

text \<open>\<open>with contextlib.suppress(Exception): m\<close>.\<close>

definition suppressM :: "('s, 'a) comp \<Rightarrow> ('s, unit) comp" where
  "suppressM m = catchM (bindM m (\<lambda>_. returnM ())) (\<lambda>_. returnM ())"

definition getsM :: "('s \<Rightarrow> 'a) \<Rightarrow> ('s, 'a) comp" where
  "getsM f = (\<lambda>s. (Inr (f s), s))"

definition modifyM :: "('s \<Rightarrow> 's) \<Rightarrow> ('s, unit) comp" where
  "modifyM f = (\<lambda>s. (Inr (), f s))"

text \<open>A pure function that may raise, run inside a computation.\<close>

definition liftM :: "'a outcome \<Rightarrow> ('s, 'a) comp" where
  "liftM r = (\<lambda>s. (r, s))"

text \<open>\<open>for x in xs: acc = f acc x\<close>, stopping at the first raise.\<close>

primrec foldM :: "('b \<Rightarrow> 'a \<Rightarrow> ('s, 'b) comp) \<Rightarrow> 'b \<Rightarrow> 'a list \<Rightarrow> ('s, 'b) comp" where
  "foldM f acc [] = returnM acc"
| "foldM f acc (x # xs) = bindM (f acc x) (\<lambda>acc'. foldM f acc' xs)"

named_theorems run_simps "running the constructs of the monad on a state"

lemma bindM_apply [run_simps]:
  "bindM m f s = (case m s of (Inl e, t) \<Rightarrow> (Inl e, t) | (Inr a, t) \<Rightarrow> f a t)"
  by (simp add: bindM_def)

lemma catchM_apply [run_simps]:
  "catchM m h s = (case m s of (Inl e, t) \<Rightarrow> h e t | (Inr a, t) \<Rightarrow> (Inr a, t))"
  by (simp add: catchM_def)

lemma bindM_Inr [simp]: "m s = (Inr a, t) \<Longrightarrow> bindM m f s = f a t"
  by (simp add: bindM_def)

lemma bindM_Inl [simp]: "m s = (Inl e, t) \<Longrightarrow> bindM m f s = (Inl e, t)"
  by (simp add: bindM_def)

lemma catchM_Inr [simp]: "m s = (Inr a, t) \<Longrightarrow> catchM m h s = (Inr a, t)"
  by (simp add: catchM_def)

lemma catchM_Inl [simp]: "m s = (Inl e, t) \<Longrightarrow> catchM m h s = h e t"
  by (simp add: catchM_def)

lemma returnM_apply [run_simps]: "returnM a s = (Inr a, s)"
  by (simp add: returnM_def)

lemma raiseM_apply [run_simps]: "raiseM e s = (Inl e, s)"
  by (simp add: raiseM_def)

lemma getsM_apply [run_simps]: "getsM f s = (Inr (f s), s)"
  by (simp add: getsM_def)

lemma modifyM_apply [run_simps]: "modifyM f s = (Inr (), f s)"
  by (simp add: modifyM_def)

lemma liftM_apply [run_simps]: "liftM r s = (r, s)"
  by (simp add: liftM_def)

lemma bindM_returnM [simp]: "bindM (returnM a) f = f a"
  by (rule ext) (simp add: run_simps)

lemma bindM_raiseM [simp]: "bindM (raiseM e) f = raiseM e"
  by (rule ext) (simp add: run_simps)

lemma bindM_assoc: "bindM (bindM m f) g = bindM m (\<lambda>a. bindM (f a) g)"
  by (rule ext) (simp add: bindM_def split: prod.split sum.split)

lemma bindM_cases:
  assumes "bindM m f s = (r, u)"
  obtains (raised) e where "m s = (Inl e, u)" "r = Inl e"
        | (returned) a t where "m s = (Inr a, t)" "f a t = (r, u)"
  using assms by (auto simp: bindM_def split: prod.splits sum.splits)

lemma suppressM_returns: "\<exists>t. suppressM m s = (Inr (), t)"
  by (cases "m s") (auto simp: suppressM_def run_simps split: sum.splits)

lemma suppressM_state: "snd (suppressM m s) = snd (m s)"
  by (cases "m s") (auto simp: suppressM_def run_simps split: sum.splits)

text \<open>Assignment to a key of an insertion-ordered dict.\<close>

fun dict_set :: "'k \<Rightarrow> 'v \<Rightarrow> ('k \<times> 'v) list \<Rightarrow> ('k \<times> 'v) list" where
  "dict_set k v [] = [(k, v)]"
| "dict_set k v (p # ps) = (if fst p = k then (k, v) # ps else p # dict_set k v ps)"

lemma map_of_dict_set [simp]: "map_of (dict_set k v ps) = (map_of ps)(k \<mapsto> v)"
  by (induction ps) (auto simp: fun_upd_twist)

lemma dict_set_new: "k \<notin> fst ` set d \<Longrightarrow> dict_set k v d = d @ [(k, v)]"
  by (induction d) auto

lemma dict_set_map_fst: "map fst (dict_set k v d) = (if k \<in> fst ` set d then map fst d else map fst d @ [k])"
  by (induction d) auto

lemma dict_set_keys: "fst ` set (dict_set k v d) = insert k (fst ` set d)"
  by (induction d) auto

lemma dict_set_distinct: "distinct (map fst d) \<Longrightarrow> distinct (map fst (dict_set k v d))"
  by (induction d) (auto simp: dict_set_keys)

lemma dict_set_set: "distinct (map fst d) \<Longrightarrow> set (dict_set k v d) = insert (k, v) {p \<in> set d. fst p \<noteq> k}"
  by (induction d) (auto simp: rev_image_eqI)

lemma map_of_fresh: "map_of d k = None \<longleftrightarrow> k \<notin> fst ` set d"
  by (simp add: map_of_eq_None_iff)

section \<open>Relational frames: what every outcome of a computation keeps\<close>

text \<open>
  \<open>keeps R m\<close>: whatever \<open>m\<close> does, return or raise, the state it leaves is
  related to the state it started in. For a reflexive and transitive \<open>R\<close> this
  composes through every construct, so a whole operation keeps \<open>R\<close> as soon as
  its primitive steps do.
\<close>

definition keeps :: "('s \<Rightarrow> 's \<Rightarrow> bool) \<Rightarrow> ('s, 'a) comp \<Rightarrow> bool" where
  "keeps R m \<longleftrightarrow> (\<forall>s. R s (snd (m s)))"

lemma keepsD: "keeps R m \<Longrightarrow> m s = (r, t) \<Longrightarrow> R s t"
  unfolding keeps_def by (metis snd_conv)

lemma keeps_mono: "keeps R m \<Longrightarrow> (\<And>s t. R s t \<Longrightarrow> S s t) \<Longrightarrow> keeps S m"
  by (auto simp: keeps_def)

locale effect_frame =
  fixes R :: "'s \<Rightarrow> 's \<Rightarrow> bool"
  assumes frame_refl: "R s s"
    and frame_trans: "R s t \<Longrightarrow> R t u \<Longrightarrow> R s u"
begin

lemma keeps_return: "keeps R (returnM a)"
  by (simp add: keeps_def frame_refl run_simps)

lemma keeps_raise: "keeps R (raiseM e)"
  by (simp add: keeps_def frame_refl run_simps)

lemma keeps_gets: "keeps R (getsM f)"
  by (simp add: keeps_def frame_refl run_simps)

lemma keeps_lift: "keeps R (liftM r)"
  by (simp add: keeps_def frame_refl run_simps)

lemma keeps_bind:
  assumes "keeps R m" and "\<And>a. keeps R (f a)"
  shows "keeps R (bindM m f)"
  unfolding keeps_def
proof
  fix s
  show "R s (snd (bindM m f s))"
  proof (cases "m s")
    case (Pair r t)
    with assms(1) have "R s t" by (rule keepsD)
    moreover have "R t (snd (f a t))" for a
      using assms(2) by (simp add: keeps_def)
    ultimately show ?thesis
      using Pair by (auto simp: bindM_def split: sum.split intro: frame_trans)
  qed
qed

lemma keeps_catch:
  assumes "keeps R m" and "\<And>e. keeps R (h e)"
  shows "keeps R (catchM m h)"
  unfolding keeps_def
proof
  fix s
  show "R s (snd (catchM m h s))"
  proof (cases "m s")
    case (Pair r t)
    with assms(1) have "R s t" by (rule keepsD)
    moreover have "R t (snd (h e t))" for e
      using assms(2) by (simp add: keeps_def)
    ultimately show ?thesis
      using Pair by (auto simp: catchM_def split: sum.split intro: frame_trans)
  qed
qed

lemma keeps_attempt: "keeps R m \<Longrightarrow> keeps R (attemptM m)"
  by (auto simp: keeps_def attemptM_def split: prod.split) (metis snd_conv)

lemma keeps_suppress: "keeps R m \<Longrightarrow> keeps R (suppressM m)"
  unfolding suppressM_def by (intro keeps_catch keeps_bind keeps_return)

lemma keeps_if: "(b \<Longrightarrow> keeps R m) \<Longrightarrow> (\<not> b \<Longrightarrow> keeps R n) \<Longrightarrow> keeps R (if b then m else n)"
  by simp

lemma keeps_case_option:
  "(x = None \<Longrightarrow> keeps R m) \<Longrightarrow> (\<And>a. x = Some a \<Longrightarrow> keeps R (f a)) \<Longrightarrow>
   keeps R (case x of None \<Rightarrow> m | Some a \<Rightarrow> f a)"
  by (cases x) auto

lemma keeps_case_sum:
  "(\<And>a. x = Inl a \<Longrightarrow> keeps R (f a)) \<Longrightarrow> (\<And>a. x = Inr a \<Longrightarrow> keeps R (g a)) \<Longrightarrow>
   keeps R (case x of Inl a \<Rightarrow> f a | Inr a \<Rightarrow> g a)"
  by (cases x) auto

lemma keeps_let: "keeps R (f x) \<Longrightarrow> keeps R (let y = x in f y)"
  by simp

lemma keeps_case_prod: "(\<And>a b. x = (a, b) \<Longrightarrow> keeps R (f a b)) \<Longrightarrow> keeps R (case x of (a, b) \<Rightarrow> f a b)"
  by (cases x) auto

lemma keeps_fold:
  assumes "\<And>acc x. keeps R (f acc x)"
  shows "keeps R (foldM f acc xs)"
proof (induction xs arbitrary: acc)
  case Nil
  show ?case by (simp add: keeps_return)
next
  case (Cons x xs)
  with assms show ?case by (simp add: keeps_bind)
qed

lemmas keeps_rules = keeps_return keeps_raise keeps_gets keeps_lift keeps_bind keeps_catch
  keeps_attempt keeps_suppress keeps_if keeps_case_option keeps_case_sum keeps_case_prod keeps_let keeps_fold

end

section \<open>Triples with a normal and an exceptional postcondition\<close>

definition triple :: "('s \<Rightarrow> bool) \<Rightarrow> ('s, 'a) comp \<Rightarrow> ('a \<Rightarrow> 's \<Rightarrow> bool) \<Rightarrow> (exn \<Rightarrow> 's \<Rightarrow> bool) \<Rightarrow> bool"
  where "triple P m Q E \<longleftrightarrow>
    (\<forall>s. P s \<longrightarrow> (case m s of (Inr a, t) \<Rightarrow> Q a t | (Inl e, t) \<Rightarrow> E e t))"

lemma tripleI:
  assumes "\<And>s a t. P s \<Longrightarrow> m s = (Inr a, t) \<Longrightarrow> Q a t"
    and "\<And>s e t. P s \<Longrightarrow> m s = (Inl e, t) \<Longrightarrow> E e t"
  shows "triple P m Q E"
  using assms by (auto simp: triple_def split: prod.split sum.split)

lemma triple_returned: "triple P m Q E \<Longrightarrow> P s \<Longrightarrow> m s = (Inr a, t) \<Longrightarrow> Q a t"
  by (auto simp: triple_def)

lemma triple_raised: "triple P m Q E \<Longrightarrow> P s \<Longrightarrow> m s = (Inl e, t) \<Longrightarrow> E e t"
  by (auto simp: triple_def)

lemma keeps_triple:
  assumes "keeps R m" "\<And>s t. P s \<Longrightarrow> R s t \<Longrightarrow> Q t"
  shows "triple P m (\<lambda>_. Q) (\<lambda>_. Q)"
  using assms by (auto simp: triple_def keeps_def split: prod.split sum.split) (metis snd_conv)+

lemma triple_return: "triple (Q a) (returnM a) Q E"
  by (simp add: triple_def run_simps)

lemma triple_raise: "triple (E e) (raiseM e) Q E"
  by (simp add: triple_def run_simps)

lemma triple_gets: "triple (\<lambda>s. Q (f s) s) (getsM f) Q E"
  by (simp add: triple_def run_simps)

lemma triple_modify: "triple (\<lambda>s. Q () (f s)) (modifyM f) Q E"
  by (simp add: triple_def run_simps)

lemma triple_lift:
  "triple (\<lambda>s. case r of Inr a \<Rightarrow> Q a s | Inl e \<Rightarrow> E e s) (liftM r) Q E"
  by (simp add: triple_def run_simps split: sum.splits)

lemma triple_bind:
  "triple P m R E \<Longrightarrow> (\<And>a. triple (R a) (f a) Q E) \<Longrightarrow> triple P (bindM m f) Q E"
  by (fastforce simp: triple_def bindM_def split: prod.splits sum.splits)

lemma triple_catch:
  "triple P m Q F \<Longrightarrow> (\<And>e. triple (F e) (h e) Q E) \<Longrightarrow> triple P (catchM m h) Q E"
  by (fastforce simp: triple_def catchM_def split: prod.splits sum.splits)

lemma triple_attempt:
  assumes "triple P m (\<lambda>a. Q (Inr a)) (\<lambda>e. Q (Inl e))"
  shows "triple P (attemptM m) Q E"
proof (rule tripleI)
  fix s r t
  assume P: "P s" and "attemptM m s = (Inr r, t)"
  then have "m s = (r, t)" by (auto simp: attemptM_def split: prod.splits)
  with assms P show "Q r t" by (cases r) (auto intro: triple_returned triple_raised)
qed (auto simp: attemptM_def split: prod.splits)

lemma triple_if:
  "(b \<Longrightarrow> triple P m Q E) \<Longrightarrow> (\<not> b \<Longrightarrow> triple P n Q E) \<Longrightarrow> triple P (if b then m else n) Q E"
  by simp

lemma triple_case_option:
  "(x = None \<Longrightarrow> triple P m Q E) \<Longrightarrow> (\<And>a. x = Some a \<Longrightarrow> triple P (f a) Q E) \<Longrightarrow>
   triple P (case x of None \<Rightarrow> m | Some a \<Rightarrow> f a) Q E"
  by (cases x) auto

lemma triple_let: "triple P (f x) Q E \<Longrightarrow> triple P (let y = x in f y) Q E"
  by simp

lemma triple_weaken:
  assumes "triple P' m Q' E'"
    and "\<And>s. P s \<Longrightarrow> P' s"
    and "\<And>a s. Q' a s \<Longrightarrow> Q a s"
    and "\<And>e s. E' e s \<Longrightarrow> E e s"
  shows "triple P m Q E"
  using assms by (fastforce simp: triple_def split: prod.splits sum.splits)

lemma triple_pre: "triple P' m Q E \<Longrightarrow> (\<And>s. P s \<Longrightarrow> P' s) \<Longrightarrow> triple P m Q E"
  by (rule triple_weaken)

lemma triple_conj:
  "triple P m Q E \<Longrightarrow> triple P m Q' E' \<Longrightarrow>
   triple P m (\<lambda>a s. Q a s \<and> Q' a s) (\<lambda>e s. E e s \<and> E' e s)"
  by (fastforce simp: triple_def split: prod.splits sum.splits)

lemma triple_suppress:
  assumes "triple P m (\<lambda>_. Q) (\<lambda>_. Q)"
  shows "triple P (suppressM m) (\<lambda>_. Q) E"
  unfolding suppressM_def
  by (rule triple_catch [where F = "\<lambda>_. Q"], rule triple_bind [OF assms]) (simp_all add: triple_def run_simps)

lemma triple_fold:
  assumes "\<And>acc x. x \<in> set xs \<Longrightarrow> triple (I acc) (f acc x) I E"
  shows "triple (I acc) (foldM f acc xs) I E"
  using assms
proof (induction xs arbitrary: acc)
  case Nil
  show ?case by (simp add: triple_return)
next
  case (Cons x xs)
  have "triple (I acc) (f acc x) I E" using Cons.prems by simp
  moreover have "triple (I acc') (foldM f acc' xs) I E" for acc'
    using Cons.prems by (intro Cons.IH) simp
  ultimately show ?case by (simp add: triple_bind)
qed

lemma triple_bind_attempt:
  assumes "triple P m Q R" "\<And>a. triple (Q a) (f (Inr a)) S E" "\<And>x. triple (R x) (f (Inl x)) S E"
  shows "triple P (bindM (attemptM m) f) S E"
proof (rule triple_bind [where R = "\<lambda>r. case r of Inl x \<Rightarrow> R x | Inr a \<Rightarrow> Q a"])
  show "triple P (attemptM m) (\<lambda>r. case r of Inl x \<Rightarrow> R x | Inr a \<Rightarrow> Q a) E"
    by (rule triple_attempt) (simp add: assms(1))
  show "triple (case r of Inl x \<Rightarrow> R x | Inr a \<Rightarrow> Q a) (f r) S E" for r
    using assms(2,3) by (cases r) simp_all
qed

lemma triple_ex:
  assumes "\<And>x. triple (P x) m Q E"
  shows "triple (\<lambda>s. \<exists>x. P x s) m Q E"
  by (rule tripleI) (use assms in \<open>blast dest: triple_returned triple_raised\<close>)+

lemma triple_pure: "(b \<Longrightarrow> triple P m Q E) \<Longrightarrow> triple (\<lambda>s. P s \<and> b) m Q E"
  by (cases b) (simp_all add: triple_def)

lemma triple_False [simp]: "triple (\<lambda>_. False) m Q E"
  by (simp add: triple_def)

lemma triple_total: "triple P m Q (\<lambda>_ _. False) \<Longrightarrow> P s \<Longrightarrow> \<exists>a t. m s = (Inr a, t) \<and> Q a t"
  by (cases "m s"; cases "fst (m s)") (auto simp: triple_def)

text \<open>Sequencing and loops under one invariant.\<close>

lemma inv_bind:
  "triple I m (\<lambda>_. I) E \<Longrightarrow> (\<And>a. triple I (f a) (\<lambda>_. I) E) \<Longrightarrow> triple I (bindM m f) (\<lambda>_. I) E"
  by (rule triple_bind)

lemma inv_fold:
  "(\<And>acc x. triple I (f acc x) (\<lambda>_. I) E) \<Longrightarrow> triple I (foldM f acc xs) (\<lambda>_. I) E"
  by (rule triple_fold [where I = "\<lambda>_. I"])

lemmas triple_rules = triple_return triple_raise triple_gets triple_modify triple_lift

end
