(* ===== verification/Text_Patterns.thy ===== *)
theory Text_Patterns
  imports Prelude
begin

text \<open>
  Text as the code uses it: the regular expressions behind the identifiers
  (\<open>re.fullmatch\<close>), decimal numbers in f-strings and zero padding.

  A Python string is a list of characters. A pattern is a tree of character
  classes, sequences and bounded repetitions; \<open>rests\<close> runs it by listing every
  rest of the input a match can leave, which is what backtracking explores, and
  \<open>lang\<close> is its meaning as a set of strings. \<open>fullmatch_iff\<close> says the run and
  the meaning agree.
\<close>

section \<open>Character classes\<close>

definition is_lower :: "char \<Rightarrow> bool" where
  "is_lower c \<longleftrightarrow> 97 \<le> (of_char c :: nat) \<and> (of_char c :: nat) \<le> 122"

definition is_upper :: "char \<Rightarrow> bool" where
  "is_upper c \<longleftrightarrow> 65 \<le> (of_char c :: nat) \<and> (of_char c :: nat) \<le> 90"

definition is_digit :: "char \<Rightarrow> bool" where
  "is_digit c \<longleftrightarrow> 48 \<le> (of_char c :: nat) \<and> (of_char c :: nat) \<le> 57"

definition is_hex :: "char \<Rightarrow> bool" where
  "is_hex c \<longleftrightarrow> is_digit c \<or> c \<in> set ''abcdef''"

text \<open>\<open>str.strip\<close> as the validators use it: is anything but white space left?\<close>

definition is_space :: "char \<Rightarrow> bool" where
  "is_space c \<longleftrightarrow> (let n = (of_char c :: nat) in n = 32 \<or> (9 \<le> n \<and> n \<le> 13) \<or> (28 \<le> n \<and> n \<le> 31)
     \<or> n = 133 \<or> n = 160)"

definition blank :: "string \<Rightarrow> bool" where
  "blank s \<longleftrightarrow> list_all is_space s"

definition has_nul :: "string \<Rightarrow> bool" where
  "has_nul s \<longleftrightarrow> list_ex (\<lambda>c. (of_char c :: nat) = 0) s"

section \<open>Regular expressions with bounded repetition\<close>

datatype rx =
    Cls "char \<Rightarrow> bool"
  | Lit string
  | Seq rx rx
  | Alt rx rx
  | Rep nat nat rx

fun rep_rests :: "(string \<Rightarrow> string list) \<Rightarrow> nat \<Rightarrow> nat \<Rightarrow> string \<Rightarrow> string list" where
  "rep_rests f m 0 s = (if m = 0 then [s] else [])"
| "rep_rests f m (Suc n) s =
     (if m = 0 then [s] else []) @ concat (map (rep_rests f (m - 1) n) (f s))"

fun strip_prefix :: "string \<Rightarrow> string \<Rightarrow> string list" where
  "strip_prefix [] s = [s]"
| "strip_prefix (c # cs) [] = []"
| "strip_prefix (c # cs) (d # ds) = (if c = d then strip_prefix cs ds else [])"

primrec rests :: "rx \<Rightarrow> string \<Rightarrow> string list" where
  "rests (Cls P) = (\<lambda>s. case s of [] \<Rightarrow> [] | c # cs \<Rightarrow> if P c then [cs] else [])"
| "rests (Lit l) = strip_prefix l"
| "rests (Seq r q) = (\<lambda>s. concat (map (rests q) (rests r s)))"
| "rests (Alt r q) = (\<lambda>s. rests r s @ rests q s)"
| "rests (Rep m n r) = rep_rests (rests r) m n"

definition fullmatch :: "rx \<Rightarrow> string \<Rightarrow> bool" where
  "fullmatch r s \<longleftrightarrow> [] \<in> set (rests r s)"

fun rep_lang :: "string set \<Rightarrow> nat \<Rightarrow> nat \<Rightarrow> string set" where
  "rep_lang L m 0 = (if m = 0 then {[]} else {})"
| "rep_lang L m (Suc n) =
     (if m = 0 then {[]} else {}) \<union> {a @ b | a b. a \<in> L \<and> b \<in> rep_lang L (m - 1) n}"

primrec lang :: "rx \<Rightarrow> string set" where
  "lang (Cls P) = {[c] | c. P c}"
| "lang (Lit l) = {l}"
| "lang (Seq r q) = {a @ b | a b. a \<in> lang r \<and> b \<in> lang q}"
| "lang (Alt r q) = lang r \<union> lang q"
| "lang (Rep m n r) = rep_lang (lang r) m n"

text \<open>The sequence of several patterns, as it is written in the source.\<close>

fun seqs :: "rx list \<Rightarrow> rx" where
  "seqs [] = Lit []"
| "seqs [r] = r"
| "seqs (r # rs) = Seq r (seqs rs)"

lemma strip_prefix_iff: "t \<in> set (strip_prefix l s) \<longleftrightarrow> s = l @ t"
  by (induction l s rule: strip_prefix.induct) auto

lemma rep_rests_iff:
  assumes "\<And>s t. t \<in> set (f s) \<longleftrightarrow> (\<exists>p. p \<in> L \<and> s = p @ t)"
  shows "t \<in> set (rep_rests f m n s) \<longleftrightarrow> (\<exists>p. p \<in> rep_lang L m n \<and> s = p @ t)"
proof (induction n arbitrary: m s)
  case 0
  show ?case by auto
next
  case (Suc n)
  have "t \<in> set (rep_rests f m (Suc n) s) \<longleftrightarrow>
      (m = 0 \<and> s = t) \<or> (\<exists>u a. a \<in> L \<and> s = a @ u \<and> t \<in> set (rep_rests f (m - 1) n u))"
    by (auto simp: assms)
  also have "\<dots> \<longleftrightarrow> (m = 0 \<and> s = t) \<or>
      (\<exists>a b. a \<in> L \<and> b \<in> rep_lang L (m - 1) n \<and> s = a @ b @ t)"
    by (auto simp: Suc.IH)
  also have "\<dots> \<longleftrightarrow> (\<exists>p. p \<in> rep_lang L m (Suc n) \<and> s = p @ t)" (is "?l \<longleftrightarrow> ?r")
  proof
    assume ?l
    then show ?r
    proof
      assume "m = 0 \<and> s = t"
      then show ?r by (intro exI [of _ "[]"]) simp
    next
      assume "\<exists>a b. a \<in> L \<and> b \<in> rep_lang L (m - 1) n \<and> s = a @ b @ t"
      then obtain a b where "a \<in> L" "b \<in> rep_lang L (m - 1) n" "s = (a @ b) @ t" by auto
      then show ?r by (intro exI [of _ "a @ b"]) auto
    qed
  next
    assume ?r
    then show ?l by (auto split: if_splits)
  qed
  finally show ?case .
qed

lemma rests_iff: "t \<in> set (rests r s) \<longleftrightarrow> (\<exists>p. p \<in> lang r \<and> s = p @ t)"
proof (induction r arbitrary: s t)
  case (Cls P)
  show ?case by (cases s) auto
next
  case (Lit l)
  show ?case by (simp add: strip_prefix_iff)
next
  case (Seq r q)
  have "t \<in> set (rests (Seq r q) s) \<longleftrightarrow> (\<exists>u. u \<in> set (rests r s) \<and> t \<in> set (rests q u))"
    by auto
  also have "\<dots> \<longleftrightarrow> (\<exists>a b. a \<in> lang r \<and> b \<in> lang q \<and> s = a @ b @ t)"
    unfolding Seq.IH by blast
  also have "\<dots> \<longleftrightarrow> (\<exists>p. p \<in> lang (Seq r q) \<and> s = p @ t)"
    by (simp, metis append_assoc)
  finally show ?case .
next
  case (Alt r q)
  then show ?case by auto
next
  case (Rep m n r)
  then show ?case by (simp add: rep_rests_iff)
qed

lemma fullmatch_iff: "fullmatch r s \<longleftrightarrow> s \<in> lang r"
  by (simp add: fullmatch_def rests_iff)

lemma single_append_eq:
  "{a @ b | a b. a \<in> {[c] | c. P c} \<and> b \<in> B} = {c # b | c b. P c \<and> b \<in> B}" (is "?l = ?r")
proof
  show "?l \<subseteq> ?r" by auto
  show "?r \<subseteq> ?l"
  proof
    fix s assume "s \<in> ?r"
    then obtain c b where "s = [c] @ b" "P c" "b \<in> B" by auto
    then show "s \<in> ?l" by blast
  qed
qed

lemma rep_lang_Cls:
  "s \<in> rep_lang {[c] | c. P c} m n \<longleftrightarrow> m \<le> length s \<and> length s \<le> n \<and> list_all P s"
proof (induction n arbitrary: m s)
  case 0
  show ?case by auto
next
  case (Suc n)
  show ?case
    unfolding rep_lang.simps(2) single_append_eq
    by (cases s) (auto simp: Suc.IH)
qed

lemma lang_Rep_Cls [simp]:
  "s \<in> lang (Rep m n (Cls P)) \<longleftrightarrow> m \<le> length s \<and> length s \<le> n \<and> list_all P s"
  by (simp add: rep_lang_Cls del: rep_lang.simps)

lemma lang_SeqI: "a \<in> lang r \<Longrightarrow> b \<in> lang q \<Longrightarrow> a @ b \<in> lang (Seq r q)"
  by auto

text \<open>A head character of one class and a bounded tail of another: every short identifier.\<close>

definition head_tail :: "(char \<Rightarrow> bool) \<Rightarrow> (char \<Rightarrow> bool) \<Rightarrow> nat \<Rightarrow> rx" where
  "head_tail P Q n = Seq (Cls P) (Rep 0 n (Cls Q))"

lemma lang_head_tail:
  "s \<in> lang (head_tail P Q n) \<longleftrightarrow>
     s \<noteq> [] \<and> P (hd s) \<and> list_all Q (tl s) \<and> length s \<le> Suc n"
proof -
  have "s \<in> lang (head_tail P Q n) \<longleftrightarrow>
      (\<exists>c cs. s = c # cs \<and> P c \<and> cs \<in> lang (Rep 0 n (Cls Q)))"
    unfolding head_tail_def lang.simps(1,3) single_append_eq by auto
  then show ?thesis by (cases s) (auto simp del: lang.simps)
qed

section \<open>Decimal numbers\<close>

definition digit_char :: "nat \<Rightarrow> char" where
  "digit_char d = char_of (48 + d)"

fun show_nat :: "nat \<Rightarrow> string" where
  "show_nat n = (if n < 10 then [digit_char n] else show_nat (n div 10) @ [digit_char (n mod 10)])"

declare show_nat.simps [simp del]

text \<open>\<open>sep.join(xs)\<close>.\<close>

fun join :: "string \<Rightarrow> string list \<Rightarrow> string" where
  "join sep [] = []"
| "join sep [x] = x"
| "join sep (x # y # xs) = x @ sep @ join sep (y # xs)"

text \<open>\<open>str\<close> of an integer, and \<open>str.strip\<close>.\<close>

definition show_int :: "int \<Rightarrow> string" where
  "show_int n = (if n < 0 then ''-'' @ show_nat (nat (- n)) else show_nat (nat n))"

definition py_strip :: "string \<Rightarrow> string" where
  "py_strip s = rev (dropWhile is_space (rev (dropWhile is_space s)))"

definition digit_value :: "char \<Rightarrow> nat" where
  "digit_value c = of_char c - 48"

definition read_nat :: "string \<Rightarrow> nat" where
  "read_nat s = foldl (\<lambda>a c. 10 * a + digit_value c) 0 s"

text \<open>\<open>f"{n:0w}"\<close> on a non-negative number.\<close>

definition zfill :: "nat \<Rightarrow> string \<Rightarrow> string" where
  "zfill w s = replicate (w - length s) (CHR ''0'') @ s"

lemma of_digit_char: "d < 10 \<Longrightarrow> (of_char (digit_char d) :: nat) = 48 + d"
  by (simp add: digit_char_def)

lemma digit_value_digit_char [simp]: "d < 10 \<Longrightarrow> digit_value (digit_char d) = d"
  by (simp add: digit_value_def of_digit_char)

lemma is_digit_digit_char [simp]: "d < 10 \<Longrightarrow> is_digit (digit_char d)"
  by (simp add: is_digit_def of_digit_char)

lemma digit_char_digit_value: "is_digit c \<Longrightarrow> digit_char (digit_value c) = c"
  by (simp add: is_digit_def digit_char_def digit_value_def)

lemma read_nat_snoc: "read_nat (s @ [c]) = 10 * read_nat s + digit_value c"
  by (simp add: read_nat_def)

lemma read_show_nat [simp]: "read_nat (show_nat n) = n"
proof (induction n rule: show_nat.induct)
  case (1 n)
  show ?case
  proof (cases "n < 10")
    case True
    then show ?thesis by (simp add: show_nat.simps [of n] read_nat_def)
  next
    case False
    with "1.IH" have "read_nat (show_nat (n div 10)) = n div 10" by simp
    with False show ?thesis by (simp add: show_nat.simps [of n] read_nat_snoc)
  qed
qed

lemma show_nat_inject [simp]: "show_nat m = show_nat n \<longleftrightarrow> m = n"
  by (metis read_show_nat)

lemma show_nat_nonempty [simp]: "show_nat n \<noteq> []"
  by (simp add: show_nat.simps [of n])

lemma show_nat_digits [simp]: "list_all is_digit (show_nat n)"
proof (induction n rule: show_nat.induct)
  case (1 n)
  then show ?case by (cases "n < 10") (simp_all add: show_nat.simps [of n])
qed

lemma show_nat_length: "n < 10 ^ k \<Longrightarrow> 0 < k \<Longrightarrow> length (show_nat n) \<le> k"
proof (induction n arbitrary: k rule: show_nat.induct)
  case (1 n)
  show ?case
  proof (cases "n < 10")
    case True
    with "1.prems" show ?thesis by (simp add: show_nat.simps [of n])
  next
    case False
    obtain j where j: "k = Suc j" using "1.prems" by (cases k) auto
    with False "1.prems" have "0 < j" by (cases j) auto
    moreover from "1.prems" j have "n div 10 < 10 ^ j" by (simp add: less_mult_imp_div_less mult.commute)
    ultimately have "length (show_nat (n div 10)) \<le> j" using False by (intro "1.IH")
    with False j show ?thesis by (simp add: show_nat.simps [of n])
  qed
qed

lemma show_nat_length_lower: "10 ^ k \<le> n \<Longrightarrow> Suc k \<le> length (show_nat n)"
proof (induction n arbitrary: k rule: show_nat.induct)
  case (1 n)
  show ?case
  proof (cases k)
    case 0
    then show ?thesis by (simp add: Suc_le_eq)
  next
    case (Suc j)
    have "(10::nat) \<le> 10 ^ k" using Suc by simp
    with "1.prems" have big: "\<not> n < 10" by linarith
    have "10 ^ j \<le> n div 10"
      using "1.prems" Suc by (simp add: less_eq_div_iff_mult_less_eq mult.commute)
    with big have "Suc j \<le> length (show_nat (n div 10))" by (intro "1.IH")
    with big Suc show ?thesis by (simp add: show_nat.simps [of n])
  qed
qed

lemma show_nat_head: "0 < n \<Longrightarrow> is_digit (hd (show_nat n)) \<and> hd (show_nat n) \<noteq> CHR ''0''"
proof (induction n rule: show_nat.induct)
  case (1 n)
  show ?case
  proof (cases "n < 10")
    case True
    then have "digit_char n \<noteq> CHR ''0''"
      using "1.prems" of_digit_char [of n] by auto
    with True show ?thesis by (simp add: show_nat.simps [of n])
  next
    case False
    then have "0 < n div 10" by simp
    with False "1.IH" show ?thesis by (simp add: show_nat.simps [of n])
  qed
qed

lemma length_zfill: "length (zfill w s) = max w (length s)"
  by (simp add: zfill_def)

lemma read_nat_zeros: "read_nat (replicate k (CHR ''0'') @ s) = read_nat s"
  by (induction k) (simp_all add: read_nat_def digit_value_def)

lemma read_zfill [simp]: "read_nat (zfill w (show_nat n)) = n"
  by (simp add: zfill_def read_nat_zeros)

lemma zfill_digits: "list_all is_digit s \<Longrightarrow> list_all is_digit (zfill w s)"
  by (auto simp: zfill_def list_all_iff is_digit_def)

end
