(* ===== verification/Value_Objects.thy ===== *)
theory Value_Objects
  imports Text_Patterns
begin

text \<open>
  The value objects of \<open>domain/value_objects.py\<close>. A frozen dataclass with a
  validating \<open>__post_init__\<close> is a constructor function that returns the value
  or raises \<open>ValueError\<close>.

  A UUID is its 128-bit integer. A UTC timestamp is a number of microseconds since
  the first instant of year 1, the smallest \<open>datetime\<close>; its time-zone checks are
  met by the representation. A calendar date is its
  year, month and day, with the range check of Python's \<open>datetime.date\<close>.
\<close>

type_synonym uuid = nat
type_synonym utc = int

section \<open>Run identifiers\<close>

definition RunId :: "uuid \<Rightarrow> uuid outcome" where
  "RunId v = (if v = 0 then Inl ValueError else Inr v)"

section \<open>Trading dates\<close>

record pydate =
  year :: nat
  month :: nat
  day :: nat

definition leap_year :: "nat \<Rightarrow> bool" where
  "leap_year y \<longleftrightarrow> y mod 4 = 0 \<and> (y mod 100 \<noteq> 0 \<or> y mod 400 = 0)"

definition days_in_month :: "nat \<Rightarrow> nat \<Rightarrow> nat" where
  "days_in_month y m =
     (if m = 2 then (if leap_year y then 29 else 28)
      else if m \<in> {4, 6, 9, 11} then 30 else 31)"

definition valid_date :: "pydate \<Rightarrow> bool" where
  "valid_date d \<longleftrightarrow> 1 \<le> year d \<and> year d \<le> 9999 \<and> 1 \<le> month d \<and> month d \<le> 12
     \<and> 1 \<le> day d \<and> day d \<le> days_in_month (year d) (month d)"

text \<open>\<open>date.toordinal\<close>, and \<open>datetime.combine(d, time.min, tzinfo=UTC)\<close>.\<close>

definition days_before_year :: "nat \<Rightarrow> nat" where
  "days_before_year y = (let p = y - 1 in p * 365 + p div 4 - p div 100 + p div 400)"

definition toordinal :: "pydate \<Rightarrow> nat" where
  "toordinal d = days_before_year (year d) + sum_list (map (days_in_month (year d)) [1..<month d]) + day d"

definition DAY_MICROSECONDS :: int where "DAY_MICROSECONDS = 86400000000"

definition midnight :: "pydate \<Rightarrow> utc" where
  "midnight d = (int (toordinal d) - 1) * DAY_MICROSECONDS"

definition isoformat :: "pydate \<Rightarrow> string" where
  "isoformat d = zfill 4 (show_nat (year d)) @ ''-'' @ zfill 2 (show_nat (month d))
     @ ''-'' @ zfill 2 (show_nat (day d))"

definition digits_rx :: "nat \<Rightarrow> rx" where
  "digits_rx n = Rep n n (Cls is_digit)"

definition TRADING_DATE_PATTERN :: rx where
  "TRADING_DATE_PATTERN = seqs [digits_rx 4, Lit ''-'', digits_rx 2, Lit ''-'', digits_rx 2]"

definition trading_date_from_isoformat :: "string \<Rightarrow> pydate outcome" where
  "trading_date_from_isoformat value =
     (if \<not> fullmatch TRADING_DATE_PATTERN value then Inl ValueError
      else let d = \<lparr>year = read_nat (take 4 value), month = read_nat (take 2 (drop 5 value)),
                    day = read_nat (drop 8 value)\<rparr>
           in if valid_date d then Inr d else Inl ValueError)"

section \<open>Schema versions\<close>

definition SCHEMA_VERSION_COMPONENT :: rx where
  "SCHEMA_VERSION_COMPONENT =
     Alt (Lit ''0'') (Seq (Cls (\<lambda>c. is_digit c \<and> c \<noteq> CHR ''0'')) (Rep 0 3 (Cls is_digit)))"

definition SCHEMA_VERSION_PATTERN :: rx where
  "SCHEMA_VERSION_PATTERN = seqs [SCHEMA_VERSION_COMPONENT, Lit ''.'', SCHEMA_VERSION_COMPONENT,
     Lit ''.'', SCHEMA_VERSION_COMPONENT]"

definition SchemaVersion :: "string \<Rightarrow> string outcome" where
  "SchemaVersion value = (if fullmatch SCHEMA_VERSION_PATTERN value then Inr value else Inl ValueError)"

text \<open>\<open>str.split\<close> on a one-character separator.\<close>

fun split_on :: "char \<Rightarrow> string \<Rightarrow> string list" where
  "split_on c [] = [[]]"
| "split_on c (x # xs) = (if x = c then [] # split_on c xs
     else case split_on c xs of [] \<Rightarrow> [[x]] | w # ws \<Rightarrow> (x # w) # ws)"

definition schema_component :: "nat \<Rightarrow> string \<Rightarrow> nat" where
  "schema_component i value = read_nat (split_on (CHR ''.'') value ! i)"

section \<open>Lemmas\<close>

lemma read_nat_less: "list_all is_digit s \<Longrightarrow> read_nat s < 10 ^ length s"
proof (induction s rule: rev_induct)
  case Nil
  show ?case by (simp add: read_nat_def)
next
  case (snoc c s)
  then have "digit_value c < 10" and "read_nat s < 10 ^ length s"
    by (auto simp: digit_value_def is_digit_def)
  then show ?case by (simp add: read_nat_snoc)
qed

lemma read_nat_inj:
  assumes "length s = length t" "list_all is_digit s" "list_all is_digit t" "read_nat s = read_nat t"
  shows "s = t"
  using assms
proof (induction s arbitrary: t rule: rev_induct)
  case Nil
  then show ?case by simp
next
  case (snoc c s)
  then obtain d u where t: "t = u @ [d]" by (cases t rule: rev_cases) auto
  have lt: "digit_value c < 10" "digit_value d < 10"
    using snoc.prems t by (auto simp: digit_value_def is_digit_def)
  have "10 * read_nat s + digit_value c = 10 * read_nat u + digit_value d"
    using snoc.prems(4) t by (simp add: read_nat_snoc)
  with lt have "read_nat s = read_nat u" "digit_value c = digit_value d" by presburger+
  moreover have "is_digit c" "is_digit d" using snoc.prems t by simp_all
  ultimately have "read_nat s = read_nat u" "c = d" by (metis digit_char_digit_value)+
  then show ?case using snoc t by simp
qed

lemma zfill_show_read:
  assumes "list_all is_digit s" and "length s = w" and "0 < w"
  shows "zfill w (show_nat (read_nat s)) = s"
proof (rule read_nat_inj)
  have "length (show_nat (read_nat s)) \<le> w"
    using assms read_nat_less [of s] by (intro show_nat_length) auto
  then show "length (zfill w (show_nat (read_nat s))) = length s"
    using assms by (simp add: length_zfill)
qed (use assms in \<open>simp_all add: zfill_digits\<close>)

lemma lang_digits_rx: "s \<in> lang (digits_rx n) \<longleftrightarrow> length s = n \<and> list_all is_digit s"
  unfolding digits_rx_def lang_Rep_Cls by auto

lemma zfill_show_length: "n < 10 ^ w \<Longrightarrow> 0 < w \<Longrightarrow> length (zfill w (show_nat n)) = w"
  by (simp add: length_zfill max_absorb1 show_nat_length)

lemma trading_date_pattern_iff:
  "fullmatch TRADING_DATE_PATTERN s \<longleftrightarrow>
     (\<exists>y m d. s = y @ ''-'' @ m @ ''-'' @ d \<and> length y = 4 \<and> length m = 2 \<and> length d = 2
       \<and> list_all is_digit y \<and> list_all is_digit m \<and> list_all is_digit d)"
 (is "_ \<longleftrightarrow> ?r")
proof
  assume "fullmatch TRADING_DATE_PATTERN s"
  then show ?r
    unfolding fullmatch_iff TRADING_DATE_PATTERN_def seqs.simps lang.simps(2,3)
    by (auto simp: lang_digits_rx)
next
  assume ?r
  then obtain y m d where s: "s = y @ ''-'' @ m @ ''-'' @ d"
    and "y \<in> lang (digits_rx 4)" "m \<in> lang (digits_rx 2)" "d \<in> lang (digits_rx 2)"
    by (auto simp: lang_digits_rx)
  then show "fullmatch TRADING_DATE_PATTERN s"
    unfolding fullmatch_iff TRADING_DATE_PATTERN_def seqs.simps s
    by (intro lang_SeqI) simp_all
qed

lemma valid_date_isoformat_pattern:
  assumes "valid_date d"
  shows "fullmatch TRADING_DATE_PATTERN (isoformat d)"
proof -
  have "year d < 10 ^ 4" "month d < 10 ^ 2" "day d < 10 ^ 2"
    using assms by (auto simp: valid_date_def days_in_month_def split: if_splits)
  then show ?thesis
    unfolding fullmatch_iff TRADING_DATE_PATTERN_def seqs.simps isoformat_def
    by (intro lang_SeqI) (simp_all add: lang_digits_rx zfill_show_length zfill_digits)
qed

lemma isoformat_length: "valid_date d \<Longrightarrow> length (isoformat d) = 10"
  using valid_date_isoformat_pattern [of d] by (auto simp: trading_date_pattern_iff)

lemma isoformat_parts:
  assumes "valid_date d"
  shows "take 4 (isoformat d) = zfill 4 (show_nat (year d))"
    and "take 2 (drop 5 (isoformat d)) = zfill 2 (show_nat (month d))"
    and "drop 8 (isoformat d) = zfill 2 (show_nat (day d))"
proof -
  have "year d < 10 ^ 4" "month d < 10 ^ 2"
    using assms by (auto simp: valid_date_def)
  then have "length (zfill 4 (show_nat (year d))) = 4" "length (zfill 2 (show_nat (month d))) = 2"
    by (intro zfill_show_length; simp)+
  then show "take 4 (isoformat d) = zfill 4 (show_nat (year d))"
    "take 2 (drop 5 (isoformat d)) = zfill 2 (show_nat (month d))"
    "drop 8 (isoformat d) = zfill 2 (show_nat (day d))"
    by (simp_all add: isoformat_def)
qed

lemma isoformat_inject:
  assumes "valid_date d" "valid_date e" "isoformat d = isoformat e"
  shows "d = e"
proof -
  have "read_nat (zfill 4 (show_nat (year d))) = read_nat (zfill 4 (show_nat (year e)))"
    "read_nat (zfill 2 (show_nat (month d))) = read_nat (zfill 2 (show_nat (month e)))"
    "read_nat (zfill 2 (show_nat (day d))) = read_nat (zfill 2 (show_nat (day e)))"
    using isoformat_parts [OF assms(1)] isoformat_parts [OF assms(2)] assms(3) by metis+
  then show ?thesis by simp
qed

lemma trading_date_prints:
  assumes "valid_date d"
  shows "trading_date_from_isoformat (isoformat d) = Inr d"
proof -
  have "valid_date \<lparr>year = year d, month = month d, day = day d\<rparr>" using assms by (simp add: valid_date_def)
  with assms show ?thesis
    by (simp add: trading_date_from_isoformat_def valid_date_isoformat_pattern isoformat_parts Let_def)
qed

lemma trading_date_parses:
  assumes parsed: "trading_date_from_isoformat s = Inr d"
  shows "isoformat d = s \<and> valid_date d"
proof
  from parsed have "fullmatch TRADING_DATE_PATTERN s"
    by (auto simp: trading_date_from_isoformat_def split: if_splits)
  then obtain y m n where s: "s = y @ ''-'' @ m @ ''-'' @ n"
    and len: "length y = 4" "length m = 2" "length n = 2"
    and dig: "list_all is_digit y" "list_all is_digit m" "list_all is_digit n"
    unfolding trading_date_pattern_iff by blast
  have "d = \<lparr>year = read_nat y, month = read_nat m, day = read_nat n\<rparr>"
    using parsed s len by (auto simp: trading_date_from_isoformat_def Let_def split: if_splits)
  then show "isoformat d = s"
    using len dig by (simp add: isoformat_def s zfill_show_read)
  show "valid_date d"
    using parsed by (auto simp: trading_date_from_isoformat_def Let_def split: if_splits)
qed

end
