(* ===== verification/Order_Status.thy ===== *)
theory Order_Status
  imports Value_Objects
begin

text \<open>
  The status enumerations and closed lifecycle maps of \<open>execution/orders.py\<close>, and
  the SQL guard functions of migrations 0007 and 0015 that the database runs
  over the same status names. The closed maps are interpreted as status
  machines: an interface with closed states that only an escape state can
  follow, proved once and used for order intents and for broker mirrors.
\<close>

section \<open>Enumerations\<close>

datatype order_side = BUY | SELL

datatype order_intent_type = REBALANCE | RISK_EXIT

datatype order_status =
    CREATED | RISK_APPROVED | OUTBOX_PENDING | SUBMITTING | ACKNOWLEDGED | PARTIALLY_FILLED
  | FILLED | CANCEL_PENDING | CANCELED | REJECTED | EXPIRED | UNKNOWN | REVIEW_REQUIRED

datatype broker_order_status =
    B_RECEIVED | B_ACCEPTED | B_ACCEPTED_FOR_BIDDING | B_PARTIALLY_FILLED | B_FILLED
  | B_PENDING_CANCEL | B_CANCELED | B_EXPIRED | B_REJECTED | B_DONE_FOR_DAY | B_REPLACED
  | B_PENDING_REPLACE | B_STOPPED | B_SUSPENDED | B_CALCULATED

instantiation order_status :: enum
begin

definition enum_order_status :: "order_status list" where
  "enum_order_status = [CREATED, RISK_APPROVED, OUTBOX_PENDING, SUBMITTING, ACKNOWLEDGED,
     PARTIALLY_FILLED, FILLED, CANCEL_PENDING, CANCELED, REJECTED, EXPIRED, UNKNOWN,
     REVIEW_REQUIRED]"

definition enum_all_order_status :: "(order_status \<Rightarrow> bool) \<Rightarrow> bool" where
  "enum_all_order_status P \<longleftrightarrow> list_all P enum_class.enum"

definition enum_ex_order_status :: "(order_status \<Rightarrow> bool) \<Rightarrow> bool" where
  "enum_ex_order_status P \<longleftrightarrow> list_ex P enum_class.enum"

instance
proof
  have all: "x \<in> set (enum_class.enum :: order_status list)" for x
    by (cases x) (simp_all add: enum_order_status_def)
  then show univ: "(UNIV :: order_status set) = set enum_class.enum" by auto
  show "distinct (enum_class.enum :: order_status list)"
    by (simp add: enum_order_status_def)
  show "enum_class.enum_all P = Ball UNIV P" for P :: "order_status \<Rightarrow> bool"
    by (auto simp: enum_all_order_status_def list_all_iff all)
  show "enum_class.enum_ex P = Bex UNIV P" for P :: "order_status \<Rightarrow> bool"
    by (auto simp: enum_ex_order_status_def list_ex_iff all)
qed

end

instantiation broker_order_status :: enum
begin

definition enum_broker_order_status :: "broker_order_status list" where
  "enum_broker_order_status = [B_RECEIVED, B_ACCEPTED, B_ACCEPTED_FOR_BIDDING, B_PARTIALLY_FILLED,
     B_FILLED, B_PENDING_CANCEL, B_CANCELED, B_EXPIRED, B_REJECTED, B_DONE_FOR_DAY, B_REPLACED,
     B_PENDING_REPLACE, B_STOPPED, B_SUSPENDED, B_CALCULATED]"

definition enum_all_broker_order_status :: "(broker_order_status \<Rightarrow> bool) \<Rightarrow> bool" where
  "enum_all_broker_order_status P \<longleftrightarrow> list_all P enum_class.enum"

definition enum_ex_broker_order_status :: "(broker_order_status \<Rightarrow> bool) \<Rightarrow> bool" where
  "enum_ex_broker_order_status P \<longleftrightarrow> list_ex P enum_class.enum"

instance
proof
  have all: "x \<in> set (enum_class.enum :: broker_order_status list)" for x
    by (cases x) (simp_all add: enum_broker_order_status_def)
  then show univ: "(UNIV :: broker_order_status set) = set enum_class.enum" by auto
  show "distinct (enum_class.enum :: broker_order_status list)"
    by (simp add: enum_broker_order_status_def)
  show "enum_class.enum_all P = Ball UNIV P" for P :: "broker_order_status \<Rightarrow> bool"
    by (auto simp: enum_all_broker_order_status_def list_all_iff all)
  show "enum_class.enum_ex P = Bex UNIV P" for P :: "broker_order_status \<Rightarrow> bool"
    by (auto simp: enum_ex_broker_order_status_def list_ex_iff all)
qed

end

section \<open>Order lifecycle\<close>

definition TERMINAL_ORDER_STATUSES :: "order_status list" where
  "TERMINAL_ORDER_STATUSES = [FILLED, CANCELED, REJECTED, EXPIRED]"

fun ORDER_STATUS_TRANSITIONS :: "order_status \<Rightarrow> order_status list" where
  "ORDER_STATUS_TRANSITIONS CREATED = [RISK_APPROVED, REJECTED, EXPIRED]"
| "ORDER_STATUS_TRANSITIONS RISK_APPROVED = [OUTBOX_PENDING, EXPIRED]"
| "ORDER_STATUS_TRANSITIONS OUTBOX_PENDING = [SUBMITTING, EXPIRED]"
| "ORDER_STATUS_TRANSITIONS SUBMITTING =
     [ACKNOWLEDGED, PARTIALLY_FILLED, FILLED, REJECTED, EXPIRED, UNKNOWN, CANCEL_PENDING,
      CANCELED, REVIEW_REQUIRED]"
| "ORDER_STATUS_TRANSITIONS ACKNOWLEDGED =
     [PARTIALLY_FILLED, FILLED, CANCEL_PENDING, EXPIRED, REVIEW_REQUIRED]"
| "ORDER_STATUS_TRANSITIONS PARTIALLY_FILLED =
     [PARTIALLY_FILLED, FILLED, CANCEL_PENDING, EXPIRED, REVIEW_REQUIRED]"
| "ORDER_STATUS_TRANSITIONS CANCEL_PENDING =
     [PARTIALLY_FILLED, FILLED, CANCELED, EXPIRED, REVIEW_REQUIRED]"
| "ORDER_STATUS_TRANSITIONS UNKNOWN =
     [ACKNOWLEDGED, PARTIALLY_FILLED, FILLED, CANCEL_PENDING, CANCELED, REJECTED, EXPIRED,
      REVIEW_REQUIRED]"
| "ORDER_STATUS_TRANSITIONS FILLED = [REVIEW_REQUIRED]"
| "ORDER_STATUS_TRANSITIONS CANCELED = [REVIEW_REQUIRED]"
| "ORDER_STATUS_TRANSITIONS REJECTED = [REVIEW_REQUIRED]"
| "ORDER_STATUS_TRANSITIONS EXPIRED = [REVIEW_REQUIRED]"
| "ORDER_STATUS_TRANSITIONS REVIEW_REQUIRED = []"

definition order_transition_allowed :: "order_status \<Rightarrow> order_status \<Rightarrow> bool" where
  "order_transition_allowed current target \<longleftrightarrow> target \<in> set (ORDER_STATUS_TRANSITIONS current)"

definition assert_order_transition :: "order_status \<Rightarrow> order_status \<Rightarrow> unit outcome" where
  "assert_order_transition current target =
     (if order_transition_allowed current target then Inr () else Inl InvalidOrderTransitionError)"

text \<open>The enum values, and the guard function the database runs on them (migration 0015).\<close>

fun order_status_value :: "order_status \<Rightarrow> string" where
  "order_status_value CREATED = ''CREATED''"
| "order_status_value RISK_APPROVED = ''RISK_APPROVED''"
| "order_status_value OUTBOX_PENDING = ''OUTBOX_PENDING''"
| "order_status_value SUBMITTING = ''SUBMITTING''"
| "order_status_value ACKNOWLEDGED = ''ACKNOWLEDGED''"
| "order_status_value PARTIALLY_FILLED = ''PARTIALLY_FILLED''"
| "order_status_value FILLED = ''FILLED''"
| "order_status_value CANCEL_PENDING = ''CANCEL_PENDING''"
| "order_status_value CANCELED = ''CANCELED''"
| "order_status_value REJECTED = ''REJECTED''"
| "order_status_value EXPIRED = ''EXPIRED''"
| "order_status_value UNKNOWN = ''UNKNOWN''"
| "order_status_value REVIEW_REQUIRED = ''REVIEW_REQUIRED''"

definition sql_order_status_map :: "(string \<times> string list) list" where
  "sql_order_status_map =
    [(''CREATED'', [''RISK_APPROVED'', ''REJECTED'', ''EXPIRED'']),
     (''RISK_APPROVED'', [''OUTBOX_PENDING'', ''EXPIRED'']),
     (''OUTBOX_PENDING'', [''SUBMITTING'', ''EXPIRED'']),
     (''SUBMITTING'', [''ACKNOWLEDGED'', ''PARTIALLY_FILLED'', ''FILLED'', ''REJECTED'', ''EXPIRED'',
        ''UNKNOWN'', ''CANCEL_PENDING'', ''CANCELED'', ''REVIEW_REQUIRED'']),
     (''ACKNOWLEDGED'', [''PARTIALLY_FILLED'', ''FILLED'', ''CANCEL_PENDING'', ''EXPIRED'',
        ''REVIEW_REQUIRED'']),
     (''PARTIALLY_FILLED'', [''PARTIALLY_FILLED'', ''FILLED'', ''CANCEL_PENDING'', ''EXPIRED'',
        ''REVIEW_REQUIRED'']),
     (''CANCEL_PENDING'', [''PARTIALLY_FILLED'', ''FILLED'', ''CANCELED'', ''EXPIRED'',
        ''REVIEW_REQUIRED'']),
     (''FILLED'', [''REVIEW_REQUIRED'']),
     (''CANCELED'', [''REVIEW_REQUIRED'']),
     (''REJECTED'', [''REVIEW_REQUIRED'']),
     (''EXPIRED'', [''REVIEW_REQUIRED'']),
     (''UNKNOWN'', [''ACKNOWLEDGED'', ''PARTIALLY_FILLED'', ''FILLED'', ''CANCEL_PENDING'',
        ''CANCELED'', ''REJECTED'', ''EXPIRED'', ''REVIEW_REQUIRED''])]"

definition order_status_transition_is_valid :: "string \<Rightarrow> string \<Rightarrow> bool" where
  "order_status_transition_is_valid p_current p_target \<longleftrightarrow>
     (case map_of sql_order_status_map p_current of
        None \<Rightarrow> False | Some targets \<Rightarrow> p_target \<in> set targets)"

section \<open>Broker order lifecycle\<close>

definition TERMINAL_BROKER_ORDER_STATUSES :: "broker_order_status list" where
  "TERMINAL_BROKER_ORDER_STATUSES = [B_FILLED, B_CANCELED, B_EXPIRED, B_REJECTED]"

definition REVIEW_BROKER_ORDER_STATUSES :: "broker_order_status list" where
  "REVIEW_BROKER_ORDER_STATUSES =
     [B_DONE_FOR_DAY, B_REPLACED, B_PENDING_REPLACE, B_STOPPED, B_SUSPENDED, B_CALCULATED]"

fun BROKER_ORDER_STATUS_TRANSITIONS :: "broker_order_status \<Rightarrow> broker_order_status list" where
  "BROKER_ORDER_STATUS_TRANSITIONS B_RECEIVED =
     [B_ACCEPTED, B_ACCEPTED_FOR_BIDDING, B_PARTIALLY_FILLED, B_FILLED, B_PENDING_CANCEL, B_CANCELED,
      B_EXPIRED, B_REJECTED] @ REVIEW_BROKER_ORDER_STATUSES"
| "BROKER_ORDER_STATUS_TRANSITIONS B_ACCEPTED =
     [B_PARTIALLY_FILLED, B_FILLED, B_PENDING_CANCEL, B_CANCELED, B_EXPIRED, B_REJECTED]
     @ REVIEW_BROKER_ORDER_STATUSES"
| "BROKER_ORDER_STATUS_TRANSITIONS B_ACCEPTED_FOR_BIDDING =
     [B_PARTIALLY_FILLED, B_FILLED, B_PENDING_CANCEL, B_CANCELED, B_EXPIRED, B_REJECTED]
     @ REVIEW_BROKER_ORDER_STATUSES"
| "BROKER_ORDER_STATUS_TRANSITIONS B_PARTIALLY_FILLED =
     [B_PARTIALLY_FILLED, B_FILLED, B_PENDING_CANCEL, B_CANCELED, B_EXPIRED, B_REJECTED]
     @ REVIEW_BROKER_ORDER_STATUSES"
| "BROKER_ORDER_STATUS_TRANSITIONS B_PENDING_CANCEL =
     [B_PENDING_CANCEL, B_PARTIALLY_FILLED, B_FILLED, B_CANCELED, B_EXPIRED, B_REJECTED]
     @ REVIEW_BROKER_ORDER_STATUSES"
| "BROKER_ORDER_STATUS_TRANSITIONS _ = []"

definition broker_order_transition_allowed :: "broker_order_status \<Rightarrow> broker_order_status \<Rightarrow> bool" where
  "broker_order_transition_allowed current target \<longleftrightarrow>
     target \<in> set (BROKER_ORDER_STATUS_TRANSITIONS current)"

definition assert_broker_order_transition ::
  "broker_order_status \<Rightarrow> broker_order_status \<Rightarrow> unit outcome" where
  "assert_broker_order_transition current target =
     (if broker_order_transition_allowed current target then Inr ()
      else Inl InvalidBrokerOrderTransitionError)"

fun broker_order_status_value :: "broker_order_status \<Rightarrow> string" where
  "broker_order_status_value B_RECEIVED = ''RECEIVED''"
| "broker_order_status_value B_ACCEPTED = ''ACCEPTED''"
| "broker_order_status_value B_ACCEPTED_FOR_BIDDING = ''ACCEPTED_FOR_BIDDING''"
| "broker_order_status_value B_PARTIALLY_FILLED = ''PARTIALLY_FILLED''"
| "broker_order_status_value B_FILLED = ''FILLED''"
| "broker_order_status_value B_PENDING_CANCEL = ''PENDING_CANCEL''"
| "broker_order_status_value B_CANCELED = ''CANCELED''"
| "broker_order_status_value B_EXPIRED = ''EXPIRED''"
| "broker_order_status_value B_REJECTED = ''REJECTED''"
| "broker_order_status_value B_DONE_FOR_DAY = ''DONE_FOR_DAY''"
| "broker_order_status_value B_REPLACED = ''REPLACED''"
| "broker_order_status_value B_PENDING_REPLACE = ''PENDING_REPLACE''"
| "broker_order_status_value B_STOPPED = ''STOPPED''"
| "broker_order_status_value B_SUSPENDED = ''SUSPENDED''"
| "broker_order_status_value B_CALCULATED = ''CALCULATED''"

definition sql_broker_status_map :: "(string \<times> string list) list" where
  "sql_broker_status_map =
    [(''RECEIVED'', [''ACCEPTED'', ''ACCEPTED_FOR_BIDDING'', ''PARTIALLY_FILLED'', ''FILLED'',
        ''PENDING_CANCEL'', ''CANCELED'', ''EXPIRED'', ''REJECTED'',
        ''DONE_FOR_DAY'', ''REPLACED'', ''PENDING_REPLACE'', ''STOPPED'', ''SUSPENDED'', ''CALCULATED'']),
     (''ACCEPTED'', [''PARTIALLY_FILLED'', ''FILLED'', ''PENDING_CANCEL'', ''CANCELED'', ''EXPIRED'',
        ''REJECTED'', ''DONE_FOR_DAY'', ''REPLACED'', ''PENDING_REPLACE'', ''STOPPED'', ''SUSPENDED'',
        ''CALCULATED'']),
     (''ACCEPTED_FOR_BIDDING'', [''PARTIALLY_FILLED'', ''FILLED'', ''PENDING_CANCEL'', ''CANCELED'',
        ''EXPIRED'', ''REJECTED'', ''DONE_FOR_DAY'', ''REPLACED'', ''PENDING_REPLACE'', ''STOPPED'',
        ''SUSPENDED'', ''CALCULATED'']),
     (''PARTIALLY_FILLED'', [''PARTIALLY_FILLED'', ''FILLED'', ''PENDING_CANCEL'', ''CANCELED'',
        ''EXPIRED'', ''REJECTED'', ''DONE_FOR_DAY'', ''REPLACED'', ''PENDING_REPLACE'', ''STOPPED'',
        ''SUSPENDED'', ''CALCULATED'']),
     (''PENDING_CANCEL'', [''PENDING_CANCEL'', ''PARTIALLY_FILLED'', ''FILLED'', ''CANCELED'',
        ''EXPIRED'', ''REJECTED'', ''DONE_FOR_DAY'', ''REPLACED'', ''PENDING_REPLACE'', ''STOPPED'',
        ''SUSPENDED'', ''CALCULATED''])]"

definition broker_order_status_transition_is_valid :: "string \<Rightarrow> string \<Rightarrow> bool" where
  "broker_order_status_transition_is_valid p_current p_target \<longleftrightarrow>
     (case map_of sql_broker_status_map p_current of
        None \<Rightarrow> False | Some targets \<Rightarrow> p_target \<in> set targets)"

section \<open>Status machines\<close>

text \<open>
  \<open>allowed\<close> is the closed transition map, \<open>closed_state\<close> the states in which the
  life of an order has ended, \<open>escape\<close> the states from which nothing follows.
\<close>

locale status_machine =
  fixes allowed :: "'s \<Rightarrow> 's \<Rightarrow> bool"
    and closed_state :: "'s \<Rightarrow> bool"
    and escape :: "'s \<Rightarrow> bool"
    and rank :: "'s \<Rightarrow> nat"
  assumes closed_step: "closed_state s \<Longrightarrow> allowed s t \<Longrightarrow> escape t"
    and escape_final: "escape s \<Longrightarrow> \<not> allowed s t"
    and rank_mono: "allowed s t \<Longrightarrow> rank s \<le> rank t"
begin

lemma escape_path: "allowed\<^sup>*\<^sup>* s t \<Longrightarrow> escape s \<Longrightarrow> t = s"
  by (induction rule: converse_rtranclp_induct) (auto dest: escape_final)

lemma closed_path: "allowed\<^sup>*\<^sup>* s t \<Longrightarrow> closed_state s \<Longrightarrow> t = s \<or> escape t"
proof (induction rule: converse_rtranclp_induct)
  case base
  show ?case by simp
next
  case (step s u)
  then have "escape u" by (blast intro: closed_step)
  with step.hyps have "t = u" by (blast intro: escape_path)
  with \<open>escape u\<close> show ?case by simp
qed

lemma rank_path: "allowed\<^sup>*\<^sup>* s t \<Longrightarrow> rank s \<le> rank t"
  by (induction rule: rtranclp_induct) (auto dest: rank_mono)

end

text \<open>Where a status stands in the life of an intent; the two live states share a rank.\<close>

fun order_rank :: "order_status \<Rightarrow> nat" where
  "order_rank CREATED = 0"
| "order_rank RISK_APPROVED = 1"
| "order_rank OUTBOX_PENDING = 2"
| "order_rank SUBMITTING = 3"
| "order_rank UNKNOWN = 4"
| "order_rank ACKNOWLEDGED = 5"
| "order_rank PARTIALLY_FILLED = 6"
| "order_rank CANCEL_PENDING = 6"
| "order_rank FILLED = 7"
| "order_rank CANCELED = 7"
| "order_rank REJECTED = 7"
| "order_rank EXPIRED = 7"
| "order_rank REVIEW_REQUIRED = 8"

fun broker_rank :: "broker_order_status \<Rightarrow> nat" where
  "broker_rank B_RECEIVED = 0"
| "broker_rank B_ACCEPTED = 1"
| "broker_rank B_ACCEPTED_FOR_BIDDING = 1"
| "broker_rank B_PARTIALLY_FILLED = 2"
| "broker_rank B_PENDING_CANCEL = 2"
| "broker_rank _ = 3"

definition closed_broker_status :: "broker_order_status \<Rightarrow> bool" where
  "closed_broker_status s \<longleftrightarrow>
     s \<in> set TERMINAL_BROKER_ORDER_STATUSES \<or> s \<in> set REVIEW_BROKER_ORDER_STATUSES"

lemmas status_defs = order_transition_allowed_def TERMINAL_ORDER_STATUSES_def
  broker_order_transition_allowed_def TERMINAL_BROKER_ORDER_STATUSES_def
  REVIEW_BROKER_ORDER_STATUSES_def closed_broker_status_def

interpretation ol: status_machine order_transition_allowed
  "\<lambda>s. s \<in> set TERMINAL_ORDER_STATUSES" "\<lambda>s. s = REVIEW_REQUIRED" order_rank
proof unfold_locales
  fix s t
  show "s \<in> set TERMINAL_ORDER_STATUSES \<Longrightarrow> order_transition_allowed s t \<Longrightarrow> t = REVIEW_REQUIRED"
    by (cases s) (simp_all add: status_defs)
  show "s = REVIEW_REQUIRED \<Longrightarrow> \<not> order_transition_allowed s t"
    by (simp add: status_defs)
  show "order_transition_allowed s t \<Longrightarrow> order_rank s \<le> order_rank t"
    by (cases s) (auto simp: status_defs)
qed

interpretation bl: status_machine broker_order_transition_allowed
  closed_broker_status "\<lambda>s. False" broker_rank
proof unfold_locales
  fix s t
  show "closed_broker_status s \<Longrightarrow> broker_order_transition_allowed s t \<Longrightarrow> False"
    by (cases s) (simp_all add: status_defs)
  show "False \<Longrightarrow> \<not> broker_order_transition_allowed s t" by simp
  show "broker_order_transition_allowed s t \<Longrightarrow> broker_rank s \<le> broker_rank t"
    by (cases s) (auto simp: status_defs)
qed

lemma order_guard_eq:
  "order_status_transition_is_valid (order_status_value a) (order_status_value b)
     = order_transition_allowed a b"
proof -
  have "\<forall>a b. order_status_transition_is_valid (order_status_value a) (order_status_value b)
      = order_transition_allowed a b"
    by code_simp
  then show ?thesis by blast
qed

lemma broker_guard_eq:
  "broker_order_status_transition_is_valid (broker_order_status_value c) (broker_order_status_value d)
     = broker_order_transition_allowed c d"
proof -
  have "\<forall>c d. broker_order_status_transition_is_valid (broker_order_status_value c)
      (broker_order_status_value d) = broker_order_transition_allowed c d"
    by code_simp
  then show ?thesis by blast
qed

text \<open>
  C21. The two authorities over the lifecycle agree: for every pair of order
  statuses the guard function of the database accepts the change exactly when
  the Python map does, and likewise for broker order statuses.
\<close>

theorem sql_guards_match_domain_maps:
  "order_status_transition_is_valid (order_status_value a) (order_status_value b)
     = order_transition_allowed a b
   \<and> broker_order_status_transition_is_valid (broker_order_status_value c) (broker_order_status_value d)
     = broker_order_transition_allowed c d"
  by (simp add: order_guard_eq broker_guard_eq)

text \<open>
  The lifecycle holds no blind resubmit path and no way back: once an
  intent has left \<open>SUBMITTING\<close> no sequence of permitted transitions makes it
  submit-capable again, a terminal intent can only be escalated to
  \<open>REVIEW_REQUIRED\<close>, and nothing follows \<open>REVIEW_REQUIRED\<close>.
\<close>

lemma lifecycle_never_resubmits:
  "(order_transition_allowed\<^sup>+\<^sup>+ SUBMITTING t \<longrightarrow>
      t \<notin> {CREATED, RISK_APPROVED, OUTBOX_PENDING, SUBMITTING})
   \<and> (order_transition_allowed\<^sup>*\<^sup>* s t \<longrightarrow> s \<in> set TERMINAL_ORDER_STATUSES \<longrightarrow>
      t = s \<or> t = REVIEW_REQUIRED)
   \<and> (order_transition_allowed\<^sup>*\<^sup>* REVIEW_REQUIRED t \<longrightarrow> t = REVIEW_REQUIRED)"
proof (intro conjI impI)
  assume "order_transition_allowed\<^sup>+\<^sup>+ SUBMITTING t"
  then obtain u where u: "order_transition_allowed SUBMITTING u" "order_transition_allowed\<^sup>*\<^sup>* u t"
    by (auto dest: tranclpD)
  then have "4 \<le> order_rank u" by (auto simp: status_defs)
  with ol.rank_path [OF u(2)] have "4 \<le> order_rank t" by linarith
  then show "t \<notin> {CREATED, RISK_APPROVED, OUTBOX_PENDING, SUBMITTING}" by auto
next
  assume "order_transition_allowed\<^sup>*\<^sup>* s t" "s \<in> set TERMINAL_ORDER_STATUSES"
  then show "t = s \<or> t = REVIEW_REQUIRED" by (rule ol.closed_path)
next
  assume "order_transition_allowed\<^sup>*\<^sup>* REVIEW_REQUIRED t"
  then show "t = REVIEW_REQUIRED" by (simp add: ol.escape_path)
qed

lemma lifecycle_never_resubmits_witness:
  "order_transition_allowed\<^sup>+\<^sup>+ SUBMITTING UNKNOWN
   \<and> UNKNOWN \<notin> {CREATED, RISK_APPROVED, OUTBOX_PENDING, SUBMITTING}"
proof -
  have step: "order_transition_allowed\<^sup>+\<^sup>+ SUBMITTING UNKNOWN"
    by (rule tranclp.r_into_trancl) (simp add: status_defs)
  with lifecycle_never_resubmits [of UNKNOWN] show ?thesis by blast
qed

end
