(* ===== verification/Orders.thy ===== *)
theory Orders
  imports Order_Status
begin

text \<open>
  \<open>execution/orders.py\<close>, the values and records: symbols, quantities, prices and
  amounts in cents, the price collar, the deterministic client order id, the
  order intent, the broker order mirror and the fill. Each constructor is the
  dataclass's \<open>__post_init__\<close>: it returns the value or raises \<open>ValueError\<close>.

  Prices and amounts are whole cents: the constructors accept only finite
  Decimals with exactly two places, and every arithmetic step of the collar is
  exact at Python's 28-digit context precision (ten digits of cents times five
  digits of the basis-point factor), so integer division states its rounding.
\<close>

section \<open>Symbols, quantities, prices and amounts\<close>

definition symbol_rx :: rx where
  "symbol_rx = head_tail is_upper (\<lambda>c. is_upper c \<or> is_digit c \<or> c = CHR ''.'' \<or> c = CHR ''-'') 9"

definition ident_rx :: "nat \<Rightarrow> rx" where
  "ident_rx n = head_tail (\<lambda>c. is_lower c \<or> is_digit c)
     (\<lambda>c. is_lower c \<or> is_digit c \<or> c = CHR ''_'' \<or> c = CHR ''-'') n"

definition STRATEGY_PATTERN :: rx where "STRATEGY_PATTERN = ident_rx 31"
definition WINDOW_PATTERN :: rx where "WINDOW_PATTERN = ident_rx 63"

definition Symbol :: "string \<Rightarrow> string outcome" where
  "Symbol value = (if fullmatch symbol_rx value then Inr value else Inl ValueError)"

definition OrderQuantity :: "int \<Rightarrow> int outcome" where
  "OrderQuantity value = (if value < 1 then Inl ValueError else Inr value)"

text \<open>A Decimal: sign and coefficient in one integer, and the exponent; or NaN/infinity.\<close>

datatype decimal = Dec int int | DecNonFinite

definition PRICE_MAX_CENTS :: int where "PRICE_MAX_CENTS = 1000000000"
definition USD_MAX_CENTS :: int where "USD_MAX_CENTS = 1000000000000"

fun Price :: "decimal \<Rightarrow> int outcome" where
  "Price DecNonFinite = Inl ValueError"
| "Price (Dec coefficient exponent) =
     (if exponent \<noteq> -2 then Inl ValueError
      else if coefficient \<le> 0 \<or> coefficient > PRICE_MAX_CENTS then Inl ValueError
      else Inr coefficient)"

definition price_from_cents :: "int \<Rightarrow> int outcome" where
  "price_from_cents cents =
     (if cents < 1 \<or> cents > 1000000000 then Inl ValueError else Price (Dec cents (-2)))"

fun UsdAmount :: "decimal \<Rightarrow> int outcome" where
  "UsdAmount DecNonFinite = Inl ValueError"
| "UsdAmount (Dec coefficient exponent) =
     (if exponent \<noteq> -2 then Inl ValueError
      else if coefficient < 0 \<or> coefficient > USD_MAX_CENTS then Inl ValueError
      else Inr coefficient)"

definition usd_from_cents :: "int \<Rightarrow> int outcome" where
  "usd_from_cents cents =
     (if cents < 0 \<or> cents > 1000000000000 then Inl ValueError else UsdAmount (Dec cents (-2)))"

section \<open>Price collar\<close>

definition COLLAR_OFFSET_BPS_MIN :: int where "COLLAR_OFFSET_BPS_MIN = 1"
definition COLLAR_OFFSET_BPS_MAX :: int where "COLLAR_OFFSET_BPS_MAX = 500"

record price_collar =
  pc_reference :: int
  pc_offset_bps :: int

definition PriceCollar :: "int \<Rightarrow> int \<Rightarrow> price_collar outcome" where
  "PriceCollar reference offset_bps =
     (if offset_bps < COLLAR_OFFSET_BPS_MIN \<or> offset_bps > COLLAR_OFFSET_BPS_MAX
      then Inl ValueError else Inr \<lparr>pc_reference = reference, pc_offset_bps = offset_bps\<rparr>)"

text \<open>\<open>_bps_factor\<close> in ten-thousandths.\<close>

definition bps_factor :: "int \<Rightarrow> int" where
  "bps_factor bps = 10000 + bps"

text \<open>\<open>quantize(_CENTS, ROUND_FLOOR)\<close> and \<open>ROUND_CEILING\<close> of a product of cents and a factor.\<close>

definition quantize_floor :: "int \<Rightarrow> int" where "quantize_floor x = x div 10000"
definition quantize_ceiling :: "int \<Rightarrow> int" where "quantize_ceiling x = - ((- x) div 10000)"

definition lower_limit :: "price_collar \<Rightarrow> int outcome" where
  "lower_limit c =
     (let floor = quantize_floor (pc_reference c * bps_factor (- pc_offset_bps c))
      in Price (Dec (max floor 1) (-2)))"

definition upper_limit :: "price_collar \<Rightarrow> int outcome" where
  "upper_limit c =
     (let ceiling = quantize_ceiling (pc_reference c * bps_factor (pc_offset_bps c))
      in Price (Dec ceiling (-2)))"

text \<open>The chained comparison evaluates the upper limit only when the lower one holds.\<close>

definition collar_contains :: "price_collar \<Rightarrow> int \<Rightarrow> bool outcome" where
  "collar_contains c price =
     bindO (lower_limit c) (\<lambda>lo.
       if lo \<le> price then bindO (upper_limit c) (\<lambda>hi. Inr (price \<le> hi)) else Inr False)"

section \<open>Client order ids\<close>

definition CLIENT_ORDER_ID_PATTERN :: rx where
  "CLIENT_ORDER_ID_PATTERN = seqs
     [Lit ''slv1-'', ident_rx 31, Lit ''-'', digits_rx 4, Lit ''-'', digits_rx 2, Lit ''-'', digits_rx 2,
      Lit ''-'', ident_rx 63, Lit ''-t'',
      head_tail (\<lambda>c. is_digit c \<and> c \<noteq> CHR ''0'') is_digit 9, Lit ''-'', symbol_rx, Lit ''-'',
      Alt (Lit ''buy'') (Lit ''sell'')]"

definition CLIENT_ORDER_ID_MAX_LENGTH :: nat where "CLIENT_ORDER_ID_MAX_LENGTH = 128"
definition MAX_TARGET_VERSION :: int where "MAX_TARGET_VERSION = 10000000000"

definition ClientOrderId :: "string \<Rightarrow> string outcome" where
  "ClientOrderId value =
     (if length value > CLIENT_ORDER_ID_MAX_LENGTH \<or> \<not> fullmatch CLIENT_ORDER_ID_PATTERN value
      then Inl ValueError else Inr value)"

fun side_lower :: "order_side \<Rightarrow> string" where
  "side_lower BUY = ''buy''"
| "side_lower SELL = ''sell''"

definition compose_text ::
  "string \<Rightarrow> pydate \<Rightarrow> string \<Rightarrow> int \<Rightarrow> string \<Rightarrow> order_side \<Rightarrow> string" where
  "compose_text strategy trading_date window target_version symbol side =
     ''slv1-'' @ strategy @ ''-'' @ isoformat trading_date @ ''-'' @ window @ ''-t''
     @ show_nat (nat target_version) @ ''-'' @ symbol @ ''-'' @ side_lower side"

definition compose ::
  "string \<Rightarrow> pydate \<Rightarrow> string \<Rightarrow> int \<Rightarrow> string \<Rightarrow> order_side \<Rightarrow> string outcome" where
  "compose strategy trading_date window target_version symbol side =
     (if \<not> fullmatch STRATEGY_PATTERN strategy then Inl ValueError
      else if \<not> fullmatch WINDOW_PATTERN window then Inl ValueError
      else if target_version < 1 \<or> target_version > MAX_TARGET_VERSION then Inl ValueError
      else ClientOrderId (compose_text strategy trading_date window target_version symbol side))"

section \<open>Order intents\<close>

record order_intent =
  oi_intent_id :: uuid
  oi_client_order_id :: string
  oi_strategy :: string
  oi_trading_date :: pydate
  oi_window :: string
  oi_target_version :: int
  oi_symbol :: string
  oi_side :: order_side
  oi_quantity :: int
  oi_intent_type :: order_intent_type
  oi_limit_price :: int
  oi_collar :: price_collar
  oi_earliest_submit_at :: utc
  oi_cancel_at :: utc
  oi_status :: order_status
  oi_run_id :: uuid
  oi_created_at :: utc

text \<open>
  The checks of \<open>OrderIntent.__post_init__\<close> that are not met by the types; the
  parts (symbol, quantity, price, collar, run id) were checked by their own
  constructors before.
\<close>

definition order_intent_post_init :: "order_intent \<Rightarrow> order_intent outcome" where
  "order_intent_post_init i =
     bindO (require (oi_intent_id i \<noteq> 0)) (\<lambda>_.
     bindO (require (fullmatch STRATEGY_PATTERN (oi_strategy i))) (\<lambda>_.
     bindO (require (fullmatch WINDOW_PATTERN (oi_window i))) (\<lambda>_.
     bindO (require (1 \<le> oi_target_version i \<and> oi_target_version i \<le> MAX_TARGET_VERSION)) (\<lambda>_.
     bindO (require (oi_earliest_submit_at i < oi_cancel_at i)) (\<lambda>_.
     bindO (collar_contains (oi_collar i) (oi_limit_price i)) (\<lambda>inside.
     bindO (require inside) (\<lambda>_.
     bindO (compose (oi_strategy i) (oi_trading_date i) (oi_window i) (oi_target_version i)
              (oi_symbol i) (oi_side i)) (\<lambda>expected.
     bindO (require (oi_client_order_id i = expected)) (\<lambda>_. Inr i)))))))))"

definition create_intent ::
  "string \<Rightarrow> pydate \<Rightarrow> string \<Rightarrow> int \<Rightarrow> string \<Rightarrow> order_side \<Rightarrow> int \<Rightarrow> order_intent_type \<Rightarrow> int \<Rightarrow>
   price_collar \<Rightarrow> utc \<Rightarrow> utc \<Rightarrow> uuid \<Rightarrow> utc \<Rightarrow> uuid \<Rightarrow> order_intent outcome" where
  "create_intent strategy trading_date window target_version symbol side quantity intent_type
     limit_price collar earliest_submit_at cancel_at run_id created_at intent_id =
     bindO (compose strategy trading_date window target_version symbol side) (\<lambda>cid.
     order_intent_post_init
       \<lparr>oi_intent_id = intent_id, oi_client_order_id = cid, oi_strategy = strategy,
        oi_trading_date = trading_date, oi_window = window, oi_target_version = target_version,
        oi_symbol = symbol, oi_side = side, oi_quantity = quantity, oi_intent_type = intent_type,
        oi_limit_price = limit_price, oi_collar = collar, oi_earliest_submit_at = earliest_submit_at,
        oi_cancel_at = cancel_at, oi_status = CREATED, oi_run_id = run_id,
        oi_created_at = created_at\<rparr>)"

definition transition_to :: "order_intent \<Rightarrow> order_status \<Rightarrow> order_intent outcome" where
  "transition_to i target =
     bindO (assert_order_transition (oi_status i) target) (\<lambda>_.
       order_intent_post_init (i\<lparr>oi_status := target\<rparr>))"

section \<open>Broker orders and fills\<close>

record broker_order =
  bo_broker_order_id :: string
  bo_client_order_id :: string
  bo_symbol :: string
  bo_side :: order_side
  bo_quantity :: int
  bo_filled_quantity :: int
  bo_limit_price :: int
  bo_status :: broker_order_status
  bo_submitted_at :: utc
  bo_updated_at :: utc

text \<open>Non-empty text of at most \<open>n\<close> characters without NUL.\<close>

definition bounded_text :: "nat \<Rightarrow> string \<Rightarrow> bool" where
  "bounded_text n s \<longleftrightarrow> \<not> blank s \<and> length s \<le> n \<and> \<not> has_nul s"

definition broker_order_post_init :: "broker_order \<Rightarrow> broker_order outcome" where
  "broker_order_post_init b =
     bindO (require (bounded_text 100 (bo_broker_order_id b))) (\<lambda>_.
     bindO (require (0 \<le> bo_filled_quantity b \<and> bo_filled_quantity b \<le> bo_quantity b)) (\<lambda>_.
     Inr b))"

definition is_open :: "broker_order \<Rightarrow> bool" where
  "is_open b \<longleftrightarrow> bo_status b \<notin> set TERMINAL_BROKER_ORDER_STATUSES
     \<and> bo_status b \<notin> set REVIEW_BROKER_ORDER_STATUSES"

record fill =
  fl_execution_id :: string
  fl_broker_order_id :: string
  fl_quantity :: int
  fl_price :: int
  fl_occurred_at :: utc

definition fill_post_init :: "fill \<Rightarrow> fill outcome" where
  "fill_post_init f =
     bindO (require (bounded_text 100 (fl_execution_id f))) (\<lambda>_.
     bindO (require (bounded_text 100 (fl_broker_order_id f))) (\<lambda>_. Inr f))"

text \<open>The values that exist at run time: every part passed its constructor.\<close>

definition wf_price :: "int \<Rightarrow> bool" where
  "wf_price p \<longleftrightarrow> 0 < p \<and> p \<le> PRICE_MAX_CENTS"

definition wf_collar :: "price_collar \<Rightarrow> bool" where
  "wf_collar c \<longleftrightarrow> wf_price (pc_reference c)
     \<and> COLLAR_OFFSET_BPS_MIN \<le> pc_offset_bps c \<and> pc_offset_bps c \<le> COLLAR_OFFSET_BPS_MAX"

definition wf_intent :: "order_intent \<Rightarrow> bool" where
  "wf_intent i \<longleftrightarrow> fullmatch symbol_rx (oi_symbol i) \<and> 1 \<le> oi_quantity i \<and> wf_price (oi_limit_price i)
     \<and> wf_collar (oi_collar i) \<and> valid_date (oi_trading_date i) \<and> oi_run_id i \<noteq> 0
     \<and> order_intent_post_init i = Inr i"

definition wf_broker_order :: "broker_order \<Rightarrow> bool" where
  "wf_broker_order b \<longleftrightarrow> fullmatch symbol_rx (bo_symbol b) \<and> 1 \<le> bo_quantity b
     \<and> wf_price (bo_limit_price b) \<and> broker_order_post_init b = Inr b"

definition wf_fill :: "fill \<Rightarrow> bool" where
  "wf_fill f \<longleftrightarrow> 1 \<le> fl_quantity f \<and> wf_price (fl_price f) \<and> fill_post_init f = Inr f"

section \<open>Collar lemmas\<close>

lemmas collar_defs = wf_collar_def wf_price_def COLLAR_OFFSET_BPS_MIN_def COLLAR_OFFSET_BPS_MAX_def
  PRICE_MAX_CENTS_def bps_factor_def quantize_floor_def quantize_ceiling_def

lemma lower_limit_eq:
  assumes "wf_collar c"
  shows "lower_limit c = Inr (max (pc_reference c * (10000 - pc_offset_bps c) div 10000) 1)"
proof -
  have "pc_reference c * (10000 - pc_offset_bps c) \<le> pc_reference c * 10000"
    using assms by (intro mult_left_mono) (auto simp: collar_defs)
  then have "pc_reference c * (10000 - pc_offset_bps c) div 10000 \<le> pc_reference c"
    by linarith
  then have "max (pc_reference c * (10000 - pc_offset_bps c) div 10000) 1 \<le> PRICE_MAX_CENTS"
    using assms by (simp add: collar_defs)
  then show ?thesis
    by (simp add: lower_limit_def bps_factor_def quantize_floor_def Let_def not_less)
qed

lemma upper_limit_eq:
  assumes "wf_collar c"
  shows "upper_limit c =
    (let hi = - (- (pc_reference c * (10000 + pc_offset_bps c)) div 10000)
     in if hi > PRICE_MAX_CENTS then Inl ValueError else Inr hi)"
proof -
  have "0 < pc_reference c * (10000 + pc_offset_bps c)"
    using assms by (intro mult_pos_pos) (auto simp: collar_defs)
  then have "0 < - (- (pc_reference c * (10000 + pc_offset_bps c)) div 10000)" by linarith
  then show ?thesis
    by (simp add: upper_limit_def Let_def bps_factor_def quantize_ceiling_def)
qed

lemma collar_contains_eq:
  assumes "wf_collar c"
  shows "collar_contains c p =
    (if p < max (pc_reference c * (10000 - pc_offset_bps c) div 10000) 1 then Inr False
     else if - (- (pc_reference c * (10000 + pc_offset_bps c)) div 10000) > PRICE_MAX_CENTS
       then Inl ValueError
     else Inr (p \<le> - (- (pc_reference c * (10000 + pc_offset_bps c)) div 10000)))"
  unfolding collar_contains_def lower_limit_eq [OF assms] upper_limit_eq [OF assms]
  by (auto simp: Let_def not_le less_max_iff_disj)

text \<open>
  C22. A price the collar accepts is never farther from the reference than the
  offset plus the rounding of one cent, in either direction; and every price
  within the exact basis-point band is accepted as long as the upper limit is
  itself a representable price. Above that the check raises, it never accepts.
\<close>

theorem collar_bounds_price:
  assumes c: "wf_collar c" and p: "wf_price p"
  shows "(collar_contains c p = Inr True \<longrightarrow>
      pc_reference c * (10000 - pc_offset_bps c) < 10000 * p + 10000
      \<and> 10000 * p < pc_reference c * (10000 + pc_offset_bps c) + 10000)
    \<and> (pc_reference c * (10000 - pc_offset_bps c) \<le> 10000 * p \<longrightarrow>
       10000 * p \<le> pc_reference c * (10000 + pc_offset_bps c) \<longrightarrow>
       collar_contains c p = (if upper_limit c = Inl ValueError then Inl ValueError else Inr True))"
proof -
  define lo where "lo = pc_reference c * (10000 - pc_offset_bps c)"
  define hi where "hi = pc_reference c * (10000 + pc_offset_bps c)"
  have eq: "collar_contains c p = (if p < max (lo div 10000) 1 then Inr False
      else if - (- hi div 10000) > PRICE_MAX_CENTS then Inl ValueError
      else Inr (p \<le> - (- hi div 10000)))"
    using collar_contains_eq [OF c] by (simp add: lo_def hi_def)
  have up: "upper_limit c = (if - (- hi div 10000) > PRICE_MAX_CENTS then Inl ValueError
      else Inr (- (- hi div 10000)))"
    using upper_limit_eq [OF c] by (simp add: hi_def Let_def)
  have "0 < p" using p by (simp add: wf_price_def)
  have "collar_contains c p = Inr True \<longrightarrow> lo < 10000 * p + 10000 \<and> 10000 * p < hi + 10000"
  proof
    assume "collar_contains c p = Inr True"
    then have "max (lo div 10000) 1 \<le> p" "p \<le> - (- hi div 10000)"
      by (auto simp: eq split: if_splits)
    then show "lo < 10000 * p + 10000 \<and> 10000 * p < hi + 10000" by linarith
  qed
  moreover have "collar_contains c p = (if upper_limit c = Inl ValueError then Inl ValueError
      else Inr True)" if "lo \<le> 10000 * p" "10000 * p \<le> hi"
  proof -
    from that \<open>0 < p\<close> have "max (lo div 10000) 1 \<le> p" "p \<le> - (- hi div 10000)"
      by linarith+
    then show ?thesis by (simp add: eq up not_less)
  qed
  ultimately show ?thesis by (simp add: lo_def hi_def)
qed

theorem collar_bounds_price_witness:
  "wf_collar \<lparr>pc_reference = 10000, pc_offset_bps = 100\<rparr> \<and> wf_price 10100
   \<and> collar_contains \<lparr>pc_reference = 10000, pc_offset_bps = 100\<rparr> 10100 = Inr True"
proof -
  have c: "wf_collar \<lparr>pc_reference = 10000, pc_offset_bps = 100\<rparr>" and p: "wf_price 10100"
    by (simp_all add: collar_defs)
  have "upper_limit \<lparr>pc_reference = 10000, pc_offset_bps = 100\<rparr> = Inr 10100"
    by (simp add: upper_limit_eq [OF c] collar_defs)
  with c p collar_bounds_price [OF c p] show ?thesis by simp
qed

section \<open>Client order id lemmas\<close>

text \<open>The text before the symbol holds no capital letter, the symbol starts with one.\<close>

lemma prefix_before_upper:
  assumes "xs @ ys = us @ vs"
    and "list_all (\<lambda>c. \<not> is_upper c) xs" "list_all (\<lambda>c. \<not> is_upper c) us"
    and "ys \<noteq> []" "is_upper (hd ys)" "vs \<noteq> []" "is_upper (hd vs)"
  shows "xs = us \<and> ys = vs"
proof -
  have tw: "takeWhile (\<lambda>c. \<not> is_upper c) (as @ bs) = as"
    if "list_all (\<lambda>c. \<not> is_upper c) as" "bs \<noteq> []" "is_upper (hd bs)" for as bs
    using that by (cases bs) (auto simp: list_all_iff takeWhile_append2)
  have "xs = us" using tw [OF assms(2,4,5)] tw [OF assms(3,6,7)] assms(1) by metis
  with assms(1) show ?thesis by simp
qed

text \<open>The version digits are the longest digit run before the dash that ends the prefix.\<close>

lemma version_before_dash:
  assumes "w @ ''-t'' @ ds @ ''-'' = w' @ ''-t'' @ ds' @ ''-''"
    and "list_all is_digit ds" "list_all is_digit ds'"
  shows "w = w' \<and> ds = ds'"
proof -
  have tw: "takeWhile is_digit (rev es @ CHR ''t'' # zs) = rev es" if "list_all is_digit es" for es zs
  proof -
    have "\<not> is_digit (CHR ''t'')" by (simp add: is_digit_def)
    moreover have "takeWhile is_digit (rev es @ CHR ''t'' # zs)
        = rev es @ takeWhile is_digit (CHR ''t'' # zs)"
      using that by (intro takeWhile_append2) (simp add: list_all_iff)
    ultimately show ?thesis by simp
  qed
  have "rev ds @ CHR ''t'' # CHR ''-'' # rev w = rev ds' @ CHR ''t'' # CHR ''-'' # rev w'"
    using arg_cong [OF assms(1), of rev] by simp
  then have "rev ds = rev ds'" using tw [OF assms(2)] tw [OF assms(3)] by metis
  with assms(1) show ?thesis by simp
qed

lemma side_suffix:
  assumes "s @ ''-'' @ side_lower x = s' @ ''-'' @ side_lower y"
  shows "s = s' \<and> x = y"
proof -
  have "last (side_lower x) = last (side_lower y)"
    using arg_cong [OF assms, of last] by (cases x; cases y) simp_all
  then have "x = y" by (cases x; cases y) simp_all
  with assms show ?thesis by simp
qed

lemma ident_not_upper:
  assumes "fullmatch (ident_rx n) w"
  shows "list_all (\<lambda>c. \<not> is_upper c) w"
proof -
  have "w \<noteq> []" "is_lower (hd w) \<or> is_digit (hd w)"
    and "list_all (\<lambda>c. is_lower c \<or> is_digit c \<or> c = CHR ''_'' \<or> c = CHR ''-'') (tl w)"
    using assms unfolding fullmatch_iff ident_rx_def lang_head_tail by auto
  then show ?thesis
    by (cases w) (auto simp: list_all_iff is_lower_def is_digit_def is_upper_def)
qed

lemma digits_not_upper: "list_all is_digit ds \<Longrightarrow> list_all (\<lambda>c. \<not> is_upper c) ds"
  by (auto simp: list_all_iff is_digit_def is_upper_def)

lemma symbol_head_upper:
  assumes "fullmatch symbol_rx s"
  shows "s \<noteq> []" "is_upper (hd s)"
  using assms unfolding fullmatch_iff symbol_rx_def lang_head_tail by auto

lemma compose_tail_unique:
  assumes eq: "w @ ''-t'' @ ds @ ''-'' @ s @ ''-'' @ side_lower x
      = w' @ ''-t'' @ ds' @ ''-'' @ s' @ ''-'' @ side_lower x'"
    and w: "fullmatch (ident_rx n) w" "fullmatch (ident_rx n) w'"
    and ds: "list_all is_digit ds" "list_all is_digit ds'"
    and s: "fullmatch symbol_rx s" "fullmatch symbol_rx s'"
  shows "w = w' \<and> ds = ds' \<and> s = s' \<and> x = x'"
proof -
  have "(w @ ''-t'' @ ds @ ''-'') @ (s @ ''-'' @ side_lower x)
      = (w' @ ''-t'' @ ds' @ ''-'') @ (s' @ ''-'' @ side_lower x')"
    using eq by simp
  then have "w @ ''-t'' @ ds @ ''-'' = w' @ ''-t'' @ ds' @ ''-''
      \<and> s @ ''-'' @ side_lower x = s' @ ''-'' @ side_lower x'"
    by (rule prefix_before_upper)
      (use symbol_head_upper [OF s(1)] symbol_head_upper [OF s(2)] ident_not_upper [OF w(1)]
        ident_not_upper [OF w(2)] digits_not_upper [OF ds(1)] digits_not_upper [OF ds(2)]
       in \<open>simp_all add: is_upper_def\<close>)
  then show ?thesis
    using version_before_dash [OF _ ds] side_suffix by blast
qed

lemma compose_eq_Inr:
  "compose strategy d window v s x = Inr cid \<longleftrightarrow>
     fullmatch STRATEGY_PATTERN strategy \<and> fullmatch WINDOW_PATTERN window
     \<and> 1 \<le> v \<and> v \<le> MAX_TARGET_VERSION
     \<and> length cid \<le> 128 \<and> fullmatch CLIENT_ORDER_ID_PATTERN cid
     \<and> cid = compose_text strategy d window v s x"
  by (auto simp: compose_def ClientOrderId_def CLIENT_ORDER_ID_MAX_LENGTH_def)

text \<open>
  C23. Within one strategy the client order id is an injective idempotency key:
  two compositions with the same strategy that give the same id were made from
  the same trading date, window, target version, symbol and side.
\<close>

theorem client_order_id_injective:
  assumes "compose strategy d window v s x = Inr cid"
    and "compose strategy d' window' v' s' x' = Inr cid"
    and "valid_date d" "valid_date d'" "fullmatch symbol_rx s" "fullmatch symbol_rx s'"
  shows "d = d' \<and> window = window' \<and> v = v' \<and> s = s' \<and> x = x'"
proof -
  have eq: "compose_text strategy d window v s x = compose_text strategy d' window' v' s' x'"
    and pos: "1 \<le> v" "1 \<le> v'"
    and win: "fullmatch (ident_rx 63) window" "fullmatch (ident_rx 63) window'"
    using assms(1,2) by (auto simp: compose_eq_Inr WINDOW_PATTERN_def)
  from eq have "isoformat d @ ''-'' @ window @ ''-t'' @ show_nat (nat v) @ ''-'' @ s @ ''-'' @ side_lower x
      = isoformat d' @ ''-'' @ window' @ ''-t'' @ show_nat (nat v') @ ''-'' @ s' @ ''-'' @ side_lower x'"
    by (simp add: compose_text_def)
  moreover have "length (isoformat d) = length (isoformat d')"
    using assms(3,4) by (simp add: isoformat_length)
  ultimately have "isoformat d = isoformat d'"
    and tail: "window @ ''-t'' @ show_nat (nat v) @ ''-'' @ s @ ''-'' @ side_lower x
      = window' @ ''-t'' @ show_nat (nat v') @ ''-'' @ s' @ ''-'' @ side_lower x'"
    by (auto simp: append_eq_append_conv)
  then have "d = d'" using assms(3,4) by (blast intro: isoformat_inject)
  moreover have "window = window' \<and> show_nat (nat v) = show_nat (nat v') \<and> s = s' \<and> x = x'"
    by (rule compose_tail_unique [OF tail win _ _ assms(5,6)]) simp_all
  ultimately show ?thesis using pos by (simp add: eq_nat_nat_iff)
qed

theorem client_order_id_injective_witness:
  "compose ''core'' \<lparr>year = 2026, month = 1, day = 2\<rparr> ''open'' 7 ''BRK.B'' BUY
     = Inr ''slv1-core-2026-01-02-open-t7-BRK.B-buy''
   \<and> compose ''core'' \<lparr>year = 2026, month = 1, day = 2\<rparr> ''open'' 8 ''BRK.B'' BUY
     \<noteq> Inr ''slv1-core-2026-01-02-open-t7-BRK.B-buy''"
proof -
  have c: "compose ''core'' \<lparr>year = 2026, month = 1, day = 2\<rparr> ''open'' 7 ''BRK.B'' BUY
     = Inr ''slv1-core-2026-01-02-open-t7-BRK.B-buy''"
    by code_simp
  have dv: "valid_date \<lparr>year = 2026, month = 1, day = 2\<rparr>" and sv: "fullmatch symbol_rx ''BRK.B''"
    by code_simp+
  have "compose ''core'' \<lparr>year = 2026, month = 1, day = 2\<rparr> ''open'' 8 ''BRK.B'' BUY
     \<noteq> Inr ''slv1-core-2026-01-02-open-t7-BRK.B-buy''" (is "?c \<noteq> ?r")
  proof
    assume "?c = ?r"
    from client_order_id_injective [OF c this dv dv sv sv] show False by simp
  qed
  with c show ?thesis by (rule conjI)
qed

end
