(* ===== verification/Contracts.thy ===== *)
theory Contracts
  imports Orders
begin

text \<open>
  The record types shared by the services and the store: the operator commands
  and control state of \<open>execution/control.py\<close>, and the reconciliation results of
  \<open>execution/reconciliation.py\<close>, each with its validating constructor.
\<close>

section \<open>Control plane contracts\<close>

definition MAX_REASON_LENGTH :: nat where "MAX_REASON_LENGTH = 200"
definition MAX_ACTOR_LENGTH :: nat where "MAX_ACTOR_LENGTH = 100"

datatype control_command = PAUSE_ENTRIES | RESUME_ENTRIES | CANCEL_OPEN_ORDERS | FLATTEN_PAPER

record control_command_record =
  cc_command_id :: uuid
  cc_command :: control_command
  cc_reason :: string
  cc_actor :: string
  cc_run_id :: "uuid option"
  cc_requested_at :: utc
  cc_applied_at :: "utc option"

definition control_command_post_init :: "control_command_record \<Rightarrow> control_command_record outcome" where
  "control_command_post_init c =
     bindO (require (cc_command_id c \<noteq> 0)) (\<lambda>_.
     bindO (require (bounded_text MAX_REASON_LENGTH (cc_reason c))) (\<lambda>_.
     bindO (require (bounded_text MAX_ACTOR_LENGTH (cc_actor c))) (\<lambda>_.
     bindO (require (case cc_applied_at c of None \<Rightarrow> True | Some t \<Rightarrow> \<not> t < cc_requested_at c)) (\<lambda>_.
     Inr c))))"

record control_state =
  cs_entries_paused :: bool
  cs_paused_reason :: "string option"
  cs_updated_at :: utc
  cs_flatten_generation :: int

definition control_state_post_init :: "control_state \<Rightarrow> control_state outcome" where
  "control_state_post_init s =
     bindO (require (case cs_paused_reason s of None \<Rightarrow> True
                     | Some r \<Rightarrow> \<not> blank r \<and> length r \<le> MAX_REASON_LENGTH)) (\<lambda>_.
     bindO (require (\<not> (cs_entries_paused s \<and> cs_paused_reason s = None
                        \<or> \<not> cs_entries_paused s \<and> cs_paused_reason s \<noteq> None))) (\<lambda>_.
     bindO (require (cs_flatten_generation s \<ge> 0)) (\<lambda>_. Inr s)))"

section \<open>Reconciliation contracts\<close>

definition MAX_MISMATCHES :: nat where "MAX_MISMATCHES = 10000"
definition MAX_DETAIL_LENGTH :: nat where "MAX_DETAIL_LENGTH = 200"

datatype reconciliation_status = CLEAN | MISMATCH
datatype reconciliation_scope = PARTIAL | FULL

datatype mismatch_kind =
    NON_PAPER_ACCOUNT
  | UNKNOWN_BROKER_ORDER
  | MISSING_BROKER_ORDER
  | PARAMETER_MISMATCH
  | STATUS_MISMATCH
  | INTENT_STATUS_MISMATCH
  | BROKER_QUERY_FAILURE
  | MISSING_LOCAL_FILL
  | POSITION_QUANTITY_MISMATCH
  | POSITION_SYMBOL_MISMATCH
  | LOCAL_LEDGER_INVARIANT
  | ACCOUNT_ID_MISMATCH
  | CASH_MISMATCH
  | NAV_MISMATCH
  | BUYING_POWER_MISMATCH
  | ACCOUNT_RECONCILIATION_UNAVAILABLE

record reconciliation_mismatch =
  rm_kind :: mismatch_kind
  rm_detail :: string

definition ReconciliationMismatch :: "mismatch_kind \<Rightarrow> string \<Rightarrow> reconciliation_mismatch outcome" where
  "ReconciliationMismatch kind detail =
     bindO (require (detail \<noteq> [] \<and> length detail \<le> MAX_DETAIL_LENGTH \<and> \<not> has_nul detail)) (\<lambda>_.
       Inr \<lparr>rm_kind = kind, rm_detail = detail\<rparr>)"

record reconciliation_result =
  rr_run_id :: uuid
  rr_trading_date :: pydate
  rr_status :: reconciliation_status
  rr_mismatches :: "reconciliation_mismatch list"
  rr_checked_orders :: int
  rr_checked_fills :: int
  rr_observed_at :: utc
  rr_scope :: reconciliation_scope

definition reconciliation_result_post_init :: "reconciliation_result \<Rightarrow> reconciliation_result outcome" where
  "reconciliation_result_post_init r =
     bindO (require (rr_run_id r \<noteq> 0)) (\<lambda>_.
     bindO (require (length (rr_mismatches r) \<le> MAX_MISMATCHES)) (\<lambda>_.
     bindO (require (rr_checked_orders r \<ge> 0)) (\<lambda>_.
     bindO (require (rr_checked_fills r \<ge> 0)) (\<lambda>_.
     bindO (require ((rr_status r = CLEAN) \<noteq> (rr_mismatches r \<noteq> []))) (\<lambda>_. Inr r)))))"

definition is_resume_safe :: "reconciliation_result \<Rightarrow> bool" where
  "is_resume_safe r \<longleftrightarrow> rr_status r = CLEAN \<and> rr_scope r = FULL"

text \<open>\<open>create\<close>: the status is derived from the mismatches, never passed in.\<close>

definition create_result ::
  "pydate \<Rightarrow> reconciliation_mismatch list \<Rightarrow> int \<Rightarrow> int \<Rightarrow> utc \<Rightarrow> uuid \<Rightarrow> reconciliation_scope \<Rightarrow>
   reconciliation_result outcome" where
  "create_result trading_date mismatches checked_orders checked_fills observed_at run_id scope =
     reconciliation_result_post_init
       \<lparr>rr_run_id = run_id, rr_trading_date = trading_date,
        rr_status = (if mismatches = [] then CLEAN else MISMATCH), rr_mismatches = mismatches,
        rr_checked_orders = checked_orders, rr_checked_fills = checked_fills,
        rr_observed_at = observed_at, rr_scope = scope\<rparr>"

section \<open>Lemmas\<close>

lemma control_command_post_init_eq:
  "control_command_post_init c = Inr d \<Longrightarrow> d = c"
  by (simp add: control_command_post_init_def bindO_eq_Inr)

lemma control_state_post_init_eq: "control_state_post_init s = Inr t \<Longrightarrow> t = s"
  by (simp add: control_state_post_init_def bindO_eq_Inr)

lemma reconciliation_result_post_init_eq: "reconciliation_result_post_init r = Inr q \<Longrightarrow> q = r"
  by (simp add: reconciliation_result_post_init_def bindO_eq_Inr)

lemma ReconciliationMismatch_kind:
  "ReconciliationMismatch k d = Inr m \<Longrightarrow> rm_kind m = k \<and> rm_detail m = d"
  by (auto simp: ReconciliationMismatch_def bindO_eq_Inr)

lemma create_result_fields:
  assumes "create_result d ms co cf t rid sc = Inr r"
  shows "rr_mismatches r = ms \<and> rr_scope r = sc \<and> rr_observed_at r = t \<and> rr_trading_date r = d
    \<and> (rr_status r = CLEAN \<longleftrightarrow> ms = [])"
  using reconciliation_result_post_init_eq [OF assms [unfolded create_result_def]] by simp

end
