(* ===== verification/Jobs.thy ===== *)
theory Jobs
  imports Orders
begin

text \<open>
  \<open>domain/jobs.py\<close> and the audit envelope of \<open>domain/events.py\<close>: the identity of a
  scheduled job, leases and grants, and the record that accompanies a status change.
\<close>

section \<open>Jobs and leases\<close>

definition JOB_COMPONENT_PATTERN :: rx where
  "JOB_COMPONENT_PATTERN = head_tail (\<lambda>c. is_lower c \<or> is_digit c)
     (\<lambda>c. is_lower c \<or> is_digit c \<or> c = CHR ''_'' \<or> c = CHR ''-'') 63"

definition LEASE_OWNER_PATTERN :: rx where
  "LEASE_OWNER_PATTERN = head_tail (\<lambda>c. is_upper c \<or> is_lower c \<or> is_digit c)
     (\<lambda>c. is_upper c \<or> is_lower c \<or> is_digit c \<or> c \<in> set ''._:@/-'') 199"

datatype job_status = PLANNED | RUNNING | COMPLETE | FAILED | JOB_EXPIRED

record job_spec =
  js_trading_date :: pydate
  js_job_type :: string
  js_window :: string

definition JobSpec :: "pydate \<Rightarrow> string \<Rightarrow> string \<Rightarrow> job_spec outcome" where
  "JobSpec trading_date job_type window =
     (if \<not> fullmatch JOB_COMPONENT_PATTERN job_type then Inl ValueError
      else if \<not> fullmatch JOB_COMPONENT_PATTERN window then Inl ValueError
      else Inr \<lparr>js_trading_date = trading_date, js_job_type = job_type, js_window = window\<rparr>)"

definition job_key :: "job_spec \<Rightarrow> string" where
  "job_key s = isoformat (js_trading_date s) @ ''/'' @ js_job_type s @ ''/'' @ js_window s"

definition LeaseDuration :: "int \<Rightarrow> int outcome" where
  "LeaseDuration value = (if value \<le> 0 \<or> value > DAY_MICROSECONDS then Inl ValueError else Inr value)"

definition validate_lease_owner :: "string \<Rightarrow> string outcome" where
  "validate_lease_owner value = (if fullmatch LEASE_OWNER_PATTERN value then Inr value else Inl ValueError)"

record lease_grant =
  lg_job_key :: string
  lg_lease_owner :: string
  lg_leased_until :: utc
  lg_fencing_token :: int
  lg_attempt_count :: int
  lg_database_time :: utc

definition lease_grant_post_init :: "lease_grant \<Rightarrow> lease_grant outcome" where
  "lease_grant_post_init g =
     bindO (require (lg_job_key g \<noteq> [])) (\<lambda>_.
     bindO (validate_lease_owner (lg_lease_owner g)) (\<lambda>_.
     bindO (require (lg_fencing_token g \<ge> 1)) (\<lambda>_.
     bindO (require (lg_attempt_count g \<ge> 1)) (\<lambda>_.
     bindO (require (\<not> lg_leased_until g \<le> lg_database_time g)) (\<lambda>_. Inr g)))))"

record job_instance =
  ji_spec :: job_spec
  ji_status :: job_status
  ji_lease_owner :: "string option"
  ji_leased_until :: "utc option"
  ji_fencing_token :: int
  ji_attempt_count :: int
  ji_created_at :: utc
  ji_updated_at :: utc

text \<open>A row of \<open>job_leases\<close>, the history of grants.\<close>

record lease_row =
  lr_job_key :: string
  lr_owner :: string
  lr_fencing_token :: int
  lr_acquired_at :: utc
  lr_last_renewed_at :: utc
  lr_leased_until :: utc
  lr_released_at :: "utc option"
  lr_release_reason :: "string option"

section \<open>Audit events\<close>

datatype job_transition_reason = SCHEDULED | RECOVERY | FAILURE | EXPIRY

record job_status_transition_payload =
  tp_target_status :: job_status
  tp_reason_code :: job_transition_reason

record audit_event =
  ae_audit_id :: uuid
  ae_event_type :: string
  ae_run_id :: "uuid option"
  ae_correlation_id :: uuid
  ae_causation_id :: "uuid option"
  ae_occurred_at :: utc
  ae_payload :: job_status_transition_payload
  ae_producer_version :: string

text \<open>
  The closed payload holds two enumeration members under the keys \<open>target_status\<close> and
  \<open>reason_code\<close>, none of which the redactor touches, so its check always passes.
\<close>

definition audit_event_post_init :: "audit_event \<Rightarrow> audit_event outcome" where
  "audit_event_post_init e =
     bindO (require (ae_audit_id e \<noteq> 0)) (\<lambda>_.
     bindO (require (ae_correlation_id e \<noteq> 0)) (\<lambda>_.
     bindO (require (ae_causation_id e \<noteq> Some 0)) (\<lambda>_.
     bindO (require (bounded_text 200 (ae_event_type e))) (\<lambda>_.
     bindO (require (bounded_text 200 (ae_producer_version e))) (\<lambda>_.
     bindO (require (ae_event_type e = ''job.status_changed'')) (\<lambda>_. Inr e))))))"

definition create_audit_event ::
  "uuid option \<Rightarrow> uuid \<Rightarrow> uuid option \<Rightarrow> utc \<Rightarrow> job_status_transition_payload \<Rightarrow> string \<Rightarrow> uuid \<Rightarrow> audit_event outcome" where
  "create_audit_event run_id correlation_id causation_id occurred_at payload producer_version audit_id =
     audit_event_post_init
       \<lparr>ae_audit_id = audit_id, ae_event_type = ''job.status_changed'', ae_run_id = run_id,
        ae_correlation_id = correlation_id, ae_causation_id = causation_id, ae_occurred_at = occurred_at,
        ae_payload = payload, ae_producer_version = producer_version\<rparr>"

section \<open>Identity\<close>

lemma component_no_slash: "fullmatch JOB_COMPONENT_PATTERN s \<Longrightarrow> CHR ''/'' \<notin> set s"
proof
  assume s: "fullmatch JOB_COMPONENT_PATTERN s" and slash: "CHR ''/'' \<in> set s"
  have "\<not> is_lower (CHR ''/'')" "\<not> is_digit (CHR ''/'')" by code_simp+
  with s slash show False
    by (cases s) (auto simp: fullmatch_iff JOB_COMPONENT_PATTERN_def lang_head_tail list_all_iff)
qed

lemma split_unique:
  assumes "a @ c # b = a' @ c # b'" "c \<notin> set a" "c \<notin> set a'"
  shows "a = a' \<and> b = b'"
  using assms
proof (induction a arbitrary: a')
  case Nil
  then show ?case by (cases a') auto
next
  case (Cons x a)
  then show ?case by (cases a') auto
qed

lemma isoformat_no_slash: "CHR ''/'' \<notin> set (isoformat d)"
proof -
  have "\<not> is_digit (CHR ''/'')" by code_simp
  moreover have "list_all is_digit (zfill n (show_nat k))" for n k by (simp add: zfill_digits)
  ultimately show ?thesis unfolding isoformat_def list_all_iff by auto
qed

lemma job_key_inject:
  assumes "JobSpec d t w = Inr s" "JobSpec d' t' w' = Inr s'" "valid_date d" "valid_date d'" "job_key s = job_key s'"
  shows "s = s'"
proof -
  have fields: "s = \<lparr>js_trading_date = d, js_job_type = t, js_window = w\<rparr>" "CHR ''/'' \<notin> set t" "CHR ''/'' \<notin> set w"
    "s' = \<lparr>js_trading_date = d', js_job_type = t', js_window = w'\<rparr>" "CHR ''/'' \<notin> set t'" "CHR ''/'' \<notin> set w'"
    using assms(1,2) component_no_slash by (auto simp: JobSpec_def split: if_splits)
  then have "isoformat d = isoformat d' \<and> t @ CHR ''/'' # w = t' @ CHR ''/'' # w'"
    using split_unique [of "isoformat d" "CHR ''/''" "t @ CHR ''/'' # w" "isoformat d'" "t' @ CHR ''/'' # w'"]
      isoformat_no_slash assms(5) by (simp add: job_key_def)
  moreover from this fields have "t = t' \<and> w = w'"
    using split_unique [of t "CHR ''/''" w t' w'] by simp
  ultimately show ?thesis using isoformat_inject [OF assms(3,4)] fields by simp
qed

end
