(* ===== verification/Database.thy ===== *)
theory Database
  imports Contracts Jobs
begin

text \<open>
  The relational state behind \<open>infrastructure/postgres.py\<close> and the SQL statements
  its repositories run, with the constraints and triggers of the migrations
  (0001 to 0003, 0005 to 0009, 0014, 0015, 0019). A table is the list of its rows in
  insertion order. A statement takes the statement timestamp and the database
  and either fails (constraint, trigger or range error) or returns its rows and
  the new database.

  Text columns are ordered by code point. A reconciliation run is stored with
  its mismatch rows in one value, and the control state row that migration 0005
  inserts always exists.
\<close>

section \<open>Tables\<close>

record broker_row =
  br_order :: broker_order
  br_watermark :: "utc option"

record account_baseline =
  ab_account_id :: string
  ab_opening_cash_cents :: int
  ab_effective_at :: utc
  ab_created_at :: utc
  ab_updated_at :: utc
  ab_revision_id :: "uuid option"
  ab_cutoff_occurred_at :: "utc option"
  ab_cutoff_execution_id :: "string option"
  ab_reason :: "string option"
  ab_actor :: "string option"

record db =
  db_intents :: "order_intent list"
  db_broker_orders :: "broker_row list"
  db_fills :: "fill list"
  db_control :: control_state
  db_commands :: "control_command_record list"
  db_runs :: "(utc \<times> reconciliation_result) list"
  db_baselines :: "account_baseline list"
  db_revisions :: "account_baseline list"
  db_jobs :: "job_instance list"
  db_leases :: "lease_row list"
  db_audits :: "(utc \<times> audit_event) list"

type_synonym 'a statement = "utc \<Rightarrow> db \<Rightarrow> exn + 'a \<times> db"

definition BIGINT_MAX :: int where "BIGINT_MAX = 9223372036854775807"

text \<open>\<open>length(btrim(s)) > 0\<close>: some character is not a blank.\<close>

definition btrim_nonempty :: "string \<Rightarrow> bool" where
  "btrim_nonempty s \<longleftrightarrow> list_ex (\<lambda>c. c \<noteq> CHR '' '') s"

definition find_intent :: "string \<Rightarrow> db \<Rightarrow> order_intent option" where
  "find_intent cid d = find (\<lambda>i. oi_client_order_id i = cid) (db_intents d)"

definition find_row_by_id :: "string \<Rightarrow> db \<Rightarrow> broker_row option" where
  "find_row_by_id bid d = find (\<lambda>r. bo_broker_order_id (br_order r) = bid) (db_broker_orders d)"

definition find_row_by_client :: "string \<Rightarrow> db \<Rightarrow> broker_row option" where
  "find_row_by_client cid d = find (\<lambda>r. bo_client_order_id (br_order r) = cid) (db_broker_orders d)"

definition find_fill :: "string \<Rightarrow> db \<Rightarrow> fill option" where
  "find_fill eid d = find (\<lambda>f. fl_execution_id f = eid) (db_fills d)"

text \<open>\<open>_broker_order\<close>: a NULL watermark reads as the submission time, a lower bound.\<close>

definition broker_order_of_row :: "broker_row \<Rightarrow> broker_order" where
  "broker_order_of_row r = (br_order r)\<lparr>bo_updated_at :=
     (case br_watermark r of None \<Rightarrow> bo_submitted_at (br_order r) | Some t \<Rightarrow> t)\<rparr>"

section \<open>Order intents\<close>

definition sql_insert_intent :: "order_intent \<Rightarrow> order_intent option statement" where
  "sql_insert_intent i now d =
     (if oi_quantity i > BIGINT_MAX then Inl DatabaseError
      else if find_intent (oi_client_order_id i) d \<noteq> None then Inr (None, d)
      else if oi_intent_id i \<in> oi_intent_id ` set (db_intents d) then Inl DatabaseError
      else let row = i\<lparr>oi_created_at := now\<rparr>
           in Inr (Some row, d\<lparr>db_intents := db_intents d @ [row]\<rparr>))"

definition set_intent_status :: "string \<Rightarrow> order_status \<Rightarrow> db \<Rightarrow> db" where
  "set_intent_status cid target d =
     d\<lparr>db_intents := map (\<lambda>i. if oi_client_order_id i = cid then i\<lparr>oi_status := target\<rparr> else i)
         (db_intents d)\<rparr>"

text \<open>\<open>UPDATE order_intents SET status\<close> under the trigger \<open>guard_order_intent_write\<close>.\<close>

definition sql_update_intent_status :: "string \<Rightarrow> order_status \<Rightarrow> order_intent option statement" where
  "sql_update_intent_status cid target now d =
     (case find_intent cid d of
        None \<Rightarrow> Inr (None, d)
      | Some i \<Rightarrow>
          if oi_status i \<noteq> target
             \<and> \<not> order_status_transition_is_valid (order_status_value (oi_status i)) (order_status_value target)
          then Inl DatabaseError
          else Inr (Some (i\<lparr>oi_status := target\<rparr>), set_intent_status cid target d))"

definition sql_intents_by_status :: "order_status \<Rightarrow> db \<Rightarrow> order_intent list" where
  "sql_intents_by_status st d =
     sort_key oi_client_order_id (filter (\<lambda>i. oi_status i = st) (db_intents d))"

section \<open>Broker order mirrors and fills\<close>

text \<open>\<open>guard_broker_order_insert\<close> (0007), the range of BIGINT and the foreign key.\<close>

definition sql_insert_broker_order :: "broker_order \<Rightarrow> broker_row option statement" where
  "sql_insert_broker_order b now d =
     (if bo_quantity b > BIGINT_MAX then Inl DatabaseError
      else if bo_status b = B_FILLED \<and> bo_filled_quantity b \<noteq> bo_quantity b then Inl DatabaseError
      else if find_row_by_id (bo_broker_order_id b) d \<noteq> None
              \<or> find_row_by_client (bo_client_order_id b) d \<noteq> None then Inr (None, d)
      else if find_intent (bo_client_order_id b) d = None then Inl DatabaseError
      else let row = \<lparr>br_order = b, br_watermark = Some (bo_updated_at b)\<rparr>
           in Inr (Some row, d\<lparr>db_broker_orders := db_broker_orders d @ [row]\<rparr>))"

text \<open>
  \<open>UPDATE broker_orders\<close> under \<open>guard_broker_order_write\<close> and
  \<open>guard_broker_updated_at\<close>; \<open>observed = None\<close> leaves the watermark column out of
  the SET list.
\<close>

definition broker_update_rejected ::
  "broker_row \<Rightarrow> broker_order_status \<Rightarrow> int \<Rightarrow> utc option \<Rightarrow> bool" where
  "broker_update_rejected r st filled observed \<longleftrightarrow>
     (let old = br_order r in
       (bo_status old \<noteq> st
        \<and> \<not> broker_order_status_transition_is_valid (broker_order_status_value (bo_status old))
              (broker_order_status_value st))
       \<or> filled < bo_filled_quantity old
       \<or> (st = B_FILLED \<and> filled \<noteq> bo_quantity old)
       \<or> \<not> (0 \<le> filled \<and> filled \<le> bo_quantity old)
       \<or> (case (br_watermark r, observed) of (Some old_at, Some new_at) \<Rightarrow> new_at < old_at | _ \<Rightarrow> False))"

definition updated_row :: "broker_row \<Rightarrow> broker_order_status \<Rightarrow> int \<Rightarrow> utc option \<Rightarrow> broker_row" where
  "updated_row r st filled observed =
     r\<lparr>br_order := (br_order r)\<lparr>bo_status := st, bo_filled_quantity := filled\<rparr>,
       br_watermark := (case observed of None \<Rightarrow> br_watermark r | Some t \<Rightarrow> Some t)\<rparr>"

definition sql_update_broker_order ::
  "string \<Rightarrow> broker_order_status \<Rightarrow> int \<Rightarrow> utc option \<Rightarrow> broker_row option statement" where
  "sql_update_broker_order bid st filled observed now d =
     (case find_row_by_id bid d of
        None \<Rightarrow> Inr (None, d)
      | Some r \<Rightarrow>
          if broker_update_rejected r st filled observed then Inl DatabaseError
          else Inr (Some (updated_row r st filled observed),
                 d\<lparr>db_broker_orders := map (\<lambda>q. if bo_broker_order_id (br_order q) = bid
                     then updated_row r st filled observed else q) (db_broker_orders d)\<rparr>))"

definition sql_insert_fill :: "fill \<Rightarrow> bool statement" where
  "sql_insert_fill f now d =
     (if fl_quantity f > BIGINT_MAX then Inl DatabaseError
      else if find_fill (fl_execution_id f) d \<noteq> None then Inr (False, d)
      else if find_row_by_id (fl_broker_order_id f) d = None then Inl DatabaseError
      else Inr (True, d\<lparr>db_fills := db_fills d @ [f]\<rparr>))"

section \<open>Control state, commands and reconciliation runs\<close>

definition latest_run :: "db \<Rightarrow> reconciliation_result option" where
  "latest_run d = (case db_runs d of [] \<Rightarrow> None
     | _ \<Rightarrow> Some (snd (last (sort_key (\<lambda>(at, r). (at, rr_run_id r)) (db_runs d)))))"

definition unresolved :: "order_status \<Rightarrow> bool" where
  "unresolved st \<longleftrightarrow> st = UNKNOWN \<or> st = REVIEW_REQUIRED"

definition has_unresolved :: "db \<Rightarrow> bool" where
  "has_unresolved d \<longleftrightarrow> list_ex (\<lambda>i. unresolved (oi_status i)) (db_intents d)"

definition sql_pause_entries :: "string option \<Rightarrow> control_state statement" where
  "sql_pause_entries reason now d =
     (case reason of
        None \<Rightarrow> Inl DatabaseError
      | Some r \<Rightarrow>
          if \<not> btrim_nonempty r \<or> length r > 200 then Inl DatabaseError
          else let s = (db_control d)\<lparr>cs_entries_paused := True, cs_paused_reason := Some r,
                         cs_updated_at := now\<rparr>
               in Inr (s, d\<lparr>db_control := s\<rparr>))"

definition sql_resume_entries :: "control_state statement" where
  "sql_resume_entries now d =
     (case latest_run d of
        None \<Rightarrow> Inl DatabaseError
      | Some r \<Rightarrow>
          if rr_status r \<noteq> CLEAN \<or> rr_scope r \<noteq> FULL then Inl DatabaseError
          else if has_unresolved d then Inl DatabaseError
          else let s = (db_control d)\<lparr>cs_entries_paused := False, cs_paused_reason := None,
                         cs_updated_at := now\<rparr>
               in Inr (s, d\<lparr>db_control := s\<rparr>))"

definition sql_bump_flatten_generation :: "int statement" where
  "sql_bump_flatten_generation now d =
     (let g = cs_flatten_generation (db_control d) + 1
      in if g > BIGINT_MAX then Inl DatabaseError
         else Inr (g, d\<lparr>db_control := (db_control d)\<lparr>cs_flatten_generation := g, cs_updated_at := now\<rparr>\<rparr>))"

definition sql_insert_command :: "control_command_record \<Rightarrow> control_command_record option statement" where
  "sql_insert_command c now d =
     (if \<not> btrim_nonempty (cc_reason c) \<or> \<not> btrim_nonempty (cc_actor c) then Inl DatabaseError
      else if cc_command_id c \<in> cc_command_id ` set (db_commands d) then Inr (None, d)
      else Inr (Some c, d\<lparr>db_commands := db_commands d @ [c]\<rparr>))"

definition sql_insert_run :: "reconciliation_result \<Rightarrow> utc statement" where
  "sql_insert_run r now d =
     (if rr_run_id r \<in> (rr_run_id \<circ> snd) ` set (db_runs d) then Inl DatabaseError
      else if \<not> list_all (\<lambda>m. btrim_nonempty (rm_detail m)) (rr_mismatches r) then Inl DatabaseError
      else Inr (now, d\<lparr>db_runs := db_runs d @ [(now, r)]\<rparr>))"

section \<open>Account baselines\<close>

definition sql_insert_baseline :: "account_baseline \<Rightarrow> account_baseline statement" where
  "sql_insert_baseline b now d =
     (if ab_account_id b \<in> ab_account_id ` set (db_baselines d) then Inl DatabaseError
      else let row = b\<lparr>ab_created_at := now, ab_updated_at := now\<rparr>
           in Inr (row, d\<lparr>db_baselines := db_baselines d @ [row]\<rparr>))"

definition sql_insert_revision :: "account_baseline \<Rightarrow> account_baseline statement" where
  "sql_insert_revision b now d =
     (if ab_effective_at b > now \<or> ab_revision_id b \<in> ab_revision_id ` set (db_revisions d)
      then Inl DatabaseError
      else let row = b\<lparr>ab_created_at := now, ab_updated_at := now\<rparr>
           in Inr (row, d\<lparr>db_revisions := db_revisions d @ [row]\<rparr>))"

section \<open>Lookup lemmas\<close>

lemma find_append: "find P (xs @ ys) = (case find P xs of None \<Rightarrow> find P ys | Some x \<Rightarrow> Some x)"
  by (induction xs) auto

lemma find_map_key:
  assumes "\<And>x. P (f x) = P x"
  shows "find P (map f xs) = map_option f (find P xs)"
  using assms by (induction xs) auto

lemma find_Some_key: "find P xs = Some x \<Longrightarrow> P x \<and> x \<in> set xs"
  by (induction xs) (auto split: if_splits)

lemma find_intent_key: "find_intent cid d = Some i \<Longrightarrow> oi_client_order_id i = cid \<and> i \<in> set (db_intents d)"
  by (auto simp: find_intent_def dest: find_Some_key)

lemma find_row_key:
  "find_row_by_id bid d = Some r \<Longrightarrow> bo_broker_order_id (br_order r) = bid \<and> r \<in> set (db_broker_orders d)"
  by (auto simp: find_row_by_id_def dest: find_Some_key)

lemma find_intent_set_status:
  "find_intent c (set_intent_status cid target d) =
     map_option (\<lambda>i. if c = cid then i\<lparr>oi_status := target\<rparr> else i) (find_intent c d)"
proof -
  have "find_intent c (set_intent_status cid target d) =
      map_option (\<lambda>i. if oi_client_order_id i = cid then i\<lparr>oi_status := target\<rparr> else i) (find_intent c d)"
    by (auto simp: find_intent_def set_intent_status_def intro: find_map_key)
  then show ?thesis by (cases "find_intent c d") (auto dest: find_intent_key)
qed

section \<open>What can happen to durable rows\<close>

text \<open>
  \<open>evolves d d'\<close>: no row of \<open>d\<close> is lost, the identity columns keep their values,
  statuses only move along the closed maps, filled quantities and watermarks
  never move backwards, and the append-only tables only grow at their end.
\<close>

definition intent_progress :: "order_intent \<Rightarrow> order_intent \<Rightarrow> bool" where
  "intent_progress i i' \<longleftrightarrow>
     (\<exists>st. i' = i\<lparr>oi_status := st\<rparr> \<and> order_transition_allowed\<^sup>*\<^sup>* (oi_status i) st)"

definition row_progress :: "broker_row \<Rightarrow> broker_row \<Rightarrow> bool" where
  "row_progress r r' \<longleftrightarrow>
     (\<exists>st filled. br_order r' = (br_order r)\<lparr>bo_status := st, bo_filled_quantity := filled\<rparr>
        \<and> broker_order_transition_allowed\<^sup>*\<^sup>* (bo_status (br_order r)) st
        \<and> bo_filled_quantity (br_order r) \<le> filled)
     \<and> (\<forall>t. br_watermark r = Some t \<longrightarrow> (\<exists>t'. br_watermark r' = Some t' \<and> t \<le> t'))"

definition grows :: "'a list \<Rightarrow> 'a list \<Rightarrow> bool" where
  "grows xs ys \<longleftrightarrow> (\<exists>zs. ys = xs @ zs)"

text \<open>
  A job keeps its identity, its fencing token and attempts only grow; a lease row keeps
  job, owner, token and acquisition, and once released it is final.
\<close>

definition find_job :: "string \<Rightarrow> db \<Rightarrow> job_instance option" where
  "find_job key d = find (\<lambda>j. job_key (ji_spec j) = key) (db_jobs d)"

definition job_progress :: "job_instance \<Rightarrow> job_instance \<Rightarrow> bool" where
  "job_progress j j' \<longleftrightarrow> ji_spec j' = ji_spec j \<and> ji_created_at j' = ji_created_at j
     \<and> ji_fencing_token j \<le> ji_fencing_token j' \<and> ji_attempt_count j \<le> ji_attempt_count j'"

definition lease_progress :: "lease_row \<Rightarrow> lease_row \<Rightarrow> bool" where
  "lease_progress l l' \<longleftrightarrow> lr_job_key l' = lr_job_key l \<and> lr_owner l' = lr_owner l
     \<and> lr_fencing_token l' = lr_fencing_token l \<and> lr_acquired_at l' = lr_acquired_at l
     \<and> (lr_released_at l \<noteq> None \<longrightarrow> l' = l)"

definition jobs_evolve :: "db \<Rightarrow> db \<Rightarrow> bool" where
  "jobs_evolve d d' \<longleftrightarrow>
     (\<forall>key j. find_job key d = Some j \<longrightarrow> (\<exists>j'. find_job key d' = Some j' \<and> job_progress j j'))
     \<and> (\<exists>ls. list_all2 lease_progress (db_leases d) ls \<and> grows ls (db_leases d'))
     \<and> grows (db_audits d) (db_audits d')"

definition evolves :: "db \<Rightarrow> db \<Rightarrow> bool" where
  "evolves d d' \<longleftrightarrow>
     (\<forall>cid i. find_intent cid d = Some i \<longrightarrow> (\<exists>i'. find_intent cid d' = Some i' \<and> intent_progress i i'))
     \<and> (\<forall>bid r. find_row_by_id bid d = Some r \<longrightarrow>
          (\<exists>r'. find_row_by_id bid d' = Some r' \<and> row_progress r r'))
     \<and> grows (db_fills d) (db_fills d')
     \<and> grows (db_commands d) (db_commands d')
     \<and> grows (db_runs d) (db_runs d')
     \<and> grows (db_baselines d) (db_baselines d')
     \<and> grows (db_revisions d) (db_revisions d')
     \<and> cs_flatten_generation (db_control d) \<le> cs_flatten_generation (db_control d')
     \<and> jobs_evolve d d'"

named_theorems evolve_intros "statements that keep every durable row"

lemma intent_progress_refl [simp]: "intent_progress i i"
  unfolding intent_progress_def by (rule exI [of _ "oi_status i"]) simp

lemma intent_progress_trans: "intent_progress i j \<Longrightarrow> intent_progress j k \<Longrightarrow> intent_progress i k"
  by (auto simp: intent_progress_def)

lemma row_progress_refl [simp]: "row_progress r r"
  unfolding row_progress_def
  by (auto intro!: exI [of _ "bo_status (br_order r)"] exI [of _ "bo_filled_quantity (br_order r)"])

lemma row_progress_trans: "row_progress r s \<Longrightarrow> row_progress s t \<Longrightarrow> row_progress r t"
  unfolding row_progress_def by fastforce

lemma grows_refl [simp]: "grows xs xs"
  by (simp add: grows_def)

lemma grows_snoc [simp]: "grows xs (xs @ ys)"
  by (simp add: grows_def)

lemma grows_trans: "grows xs ys \<Longrightarrow> grows ys zs \<Longrightarrow> grows xs zs"
  by (auto simp: grows_def)

lemma job_progress_refl [simp]: "job_progress j j"
  by (simp add: job_progress_def)

lemma lease_progress_refl [simp]: "lease_progress l l"
  by (simp add: lease_progress_def)

lemma lease_progress_trans: "lease_progress l m \<Longrightarrow> lease_progress m n \<Longrightarrow> lease_progress l n"
  by (auto simp: lease_progress_def)

lemma jobs_unchanged [simp]:
  "db_jobs d' = db_jobs d \<Longrightarrow> db_leases d' = db_leases d \<Longrightarrow> db_audits d' = db_audits d \<Longrightarrow> jobs_evolve d d'"
  unfolding jobs_evolve_def by (auto simp: find_job_def list.rel_refl intro: exI [of _ "db_leases d"])

lemma jobs_evolve_control [simp]:
  "jobs_evolve (d\<lparr>db_control := s\<rparr>) e = jobs_evolve d e" "jobs_evolve d (e\<lparr>db_control := s\<rparr>) = jobs_evolve d e"
  by (simp_all add: jobs_evolve_def find_job_def)

lemma jobs_evolve_trans:
  assumes "jobs_evolve d e" "jobs_evolve e f"
  shows "jobs_evolve d f"
proof -
  have "\<exists>j'. find_job key f = Some j' \<and> job_progress j j'" if found: "find_job key d = Some j" for key j
  proof -
    obtain j1 where j1: "find_job key e = Some j1" "job_progress j j1" using assms(1) found unfolding jobs_evolve_def by blast
    then obtain j2 where "find_job key f = Some j2" "job_progress j1 j2"
      using assms(2) unfolding jobs_evolve_def by blast
    with j1 show ?thesis by (auto simp: job_progress_def)
  qed
  moreover obtain ls ms where ls: "list_all2 lease_progress (db_leases d) ls" "grows ls (db_leases e)"
    and ms: "list_all2 lease_progress (db_leases e) ms" "grows ms (db_leases f)"
    using assms by (auto simp: jobs_evolve_def)
  from ls(2) obtain zs where zs: "db_leases e = ls @ zs" by (auto simp: grows_def)
  then obtain ls' zs' where ms': "ms = ls' @ zs'" and ls': "list_all2 lease_progress ls ls'"
    using ms(1) by (auto simp: list_all2_append1)
  have "list_all2 lease_progress (db_leases d) ls'"
    by (rule list_all2_trans [OF _ ls(1) ls']) (rule lease_progress_trans)
  moreover have "grows ls' (db_leases f)" using ms(2) ms' by (auto simp: grows_def)
  moreover have "grows (db_audits d) (db_audits f)" using assms by (auto simp: jobs_evolve_def intro: grows_trans)
  ultimately show ?thesis unfolding jobs_evolve_def by blast
qed

lemma evolves_refl [simp]: "evolves d d"
  by (simp add: evolves_def)

lemma evolves_trans:
  assumes "evolves d e" "evolves e f"
  shows "evolves d f"
  unfolding evolves_def
proof (intro conjI allI impI)
  fix cid i
  assume "find_intent cid d = Some i"
  then show "\<exists>i'. find_intent cid f = Some i' \<and> intent_progress i i'"
    using assms unfolding evolves_def by (meson intent_progress_trans)
next
  fix bid r
  assume "find_row_by_id bid d = Some r"
  then show "\<exists>r'. find_row_by_id bid f = Some r' \<and> row_progress r r'"
    using assms unfolding evolves_def by (meson row_progress_trans)
qed (use assms in \<open>auto simp: evolves_def intro: grows_trans jobs_evolve_trans\<close>)

lemma insert_intent_evolves [evolve_intros]:
  "sql_insert_intent i now d = Inr (a, d') \<Longrightarrow> evolves d d'"
  by (auto simp: sql_insert_intent_def evolves_def Let_def find_intent_def find_row_by_id_def find_append
      split: if_splits)

lemma update_intent_evolves [evolve_intros]:
  assumes "sql_update_intent_status cid target now d = Inr (a, d')"
  shows "evolves d d'"
proof (cases "find_intent cid d")
  case None
  with assms show ?thesis by (simp add: sql_update_intent_status_def)
next
  case (Some i)
  with assms have d': "d' = set_intent_status cid target d"
    and ok: "order_transition_allowed\<^sup>*\<^sup>* (oi_status i) target"
    by (auto simp: sql_update_intent_status_def order_guard_eq split: if_splits)
  have "\<exists>i'. find_intent c d' = Some i' \<and> intent_progress j i'" if "find_intent c d = Some j" for c j
    using that ok Some unfolding d' find_intent_set_status
    by (cases "c = cid") (auto simp: intent_progress_def [of j "j\<lparr>oi_status := target\<rparr>"])
  then show ?thesis
    by (auto simp: evolves_def d' set_intent_status_def find_row_by_id_def)
qed

lemma insert_broker_order_evolves [evolve_intros]:
  "sql_insert_broker_order b now d = Inr (a, d') \<Longrightarrow> evolves d d'"
  by (auto simp: sql_insert_broker_order_def evolves_def Let_def find_intent_def find_row_by_id_def
      find_append split: if_splits)

lemma updated_row_progress:
  assumes "\<not> broker_update_rejected r st filled observed"
  shows "row_progress r (updated_row r st filled observed)"
  using assms
  by (fastforce simp: broker_update_rejected_def row_progress_def updated_row_def Let_def broker_guard_eq
      not_less split: option.splits)

lemma updated_row_id [simp]:
  "bo_broker_order_id (br_order (updated_row r st filled observed)) = bo_broker_order_id (br_order r)"
  "bo_client_order_id (br_order (updated_row r st filled observed)) = bo_client_order_id (br_order r)"
  by (simp_all add: updated_row_def)

lemma find_row_update:
  assumes "find_row_by_id bid d = Some r"
  shows "find_row_by_id b (d\<lparr>db_broker_orders := map (\<lambda>q. if bo_broker_order_id (br_order q) = bid
        then updated_row r st filled observed else q) (db_broker_orders d)\<rparr>)
    = (if b = bid then Some (updated_row r st filled observed) else find_row_by_id b d)"
proof -
  have id: "bo_broker_order_id (br_order r) = bid" using find_row_key [OF assms] by simp
  have "find (\<lambda>q. bo_broker_order_id (br_order q) = b) (map (\<lambda>q. if bo_broker_order_id (br_order q) = bid
        then updated_row r st filled observed else q) xs)
      = map_option (\<lambda>q. if bo_broker_order_id (br_order q) = bid then updated_row r st filled observed else q)
          (find (\<lambda>q. bo_broker_order_id (br_order q) = b) xs)" for xs
    by (rule find_map_key) (simp add: id)
  with assms show ?thesis
    by (cases "find_row_by_id b d") (auto simp: find_row_by_id_def dest: find_Some_key)
qed

lemma update_broker_order_evolves [evolve_intros]:
  assumes "sql_update_broker_order bid st filled observed now d = Inr (a, d')"
  shows "evolves d d'"
proof (cases "find_row_by_id bid d")
  case None
  with assms show ?thesis by (simp add: sql_update_broker_order_def)
next
  case (Some r)
  with assms have d': "d' = d\<lparr>db_broker_orders := map (\<lambda>q. if bo_broker_order_id (br_order q) = bid
        then updated_row r st filled observed else q) (db_broker_orders d)\<rparr>"
    and ok: "\<not> broker_update_rejected r st filled observed"
    by (auto simp: sql_update_broker_order_def split: if_splits)
  have "\<exists>r'. find_row_by_id b d' = Some r' \<and> row_progress q r'" if "find_row_by_id b d = Some q" for b q
    using that Some updated_row_progress [OF ok] unfolding d' find_row_update [OF Some] by auto
  then show ?thesis by (auto simp: evolves_def d' find_intent_def)
qed

lemma insert_fill_evolves [evolve_intros]:
  "sql_insert_fill f now d = Inr (a, d') \<Longrightarrow> evolves d d'"
  by (auto simp: sql_insert_fill_def evolves_def find_intent_def find_row_by_id_def split: if_splits)

lemma pause_evolves [evolve_intros]: "sql_pause_entries r now d = Inr (a, d') \<Longrightarrow> evolves d d'"
  by (auto simp: sql_pause_entries_def evolves_def find_intent_def find_row_by_id_def Let_def
      split: option.splits if_splits)

lemma resume_evolves [evolve_intros]: "sql_resume_entries now d = Inr (a, d') \<Longrightarrow> evolves d d'"
  by (auto simp: sql_resume_entries_def evolves_def find_intent_def find_row_by_id_def Let_def
      split: option.splits if_splits)

lemma bump_evolves [evolve_intros]: "sql_bump_flatten_generation now d = Inr (a, d') \<Longrightarrow> evolves d d'"
  by (auto simp: sql_bump_flatten_generation_def evolves_def find_intent_def find_row_by_id_def Let_def
      split: if_splits)

lemma insert_command_evolves [evolve_intros]: "sql_insert_command c now d = Inr (a, d') \<Longrightarrow> evolves d d'"
  by (auto simp: sql_insert_command_def evolves_def find_intent_def find_row_by_id_def split: if_splits)

lemma insert_run_evolves [evolve_intros]: "sql_insert_run r now d = Inr (a, d') \<Longrightarrow> evolves d d'"
  by (auto simp: sql_insert_run_def evolves_def find_intent_def find_row_by_id_def split: if_splits)

lemma insert_baseline_evolves [evolve_intros]: "sql_insert_baseline b now d = Inr (a, d') \<Longrightarrow> evolves d d'"
  by (auto simp: sql_insert_baseline_def evolves_def find_intent_def find_row_by_id_def Let_def
      split: if_splits)

lemma insert_revision_evolves [evolve_intros]: "sql_insert_revision b now d = Inr (a, d') \<Longrightarrow> evolves d d'"
  by (auto simp: sql_insert_revision_def evolves_def find_intent_def find_row_by_id_def Let_def
      split: if_splits)

section \<open>Well-formed databases\<close>

definition row_ok :: "broker_row \<Rightarrow> bool" where
  "row_ok r \<longleftrightarrow> wf_broker_order (broker_order_of_row r)
     \<and> (bo_status (br_order r) = B_FILLED \<longrightarrow> bo_filled_quantity (br_order r) = bo_quantity (br_order r))"

definition db_ok :: "db \<Rightarrow> bool" where
  "db_ok d \<longleftrightarrow>
     distinct (map oi_client_order_id (db_intents d)) \<and> distinct (map oi_intent_id (db_intents d))
     \<and> list_all wf_intent (db_intents d)
     \<and> distinct (map (bo_broker_order_id \<circ> br_order) (db_broker_orders d))
     \<and> distinct (map (bo_client_order_id \<circ> br_order) (db_broker_orders d))
     \<and> list_all (\<lambda>r. row_ok r \<and> find_intent (bo_client_order_id (br_order r)) d \<noteq> None) (db_broker_orders d)
     \<and> distinct (map fl_execution_id (db_fills d))
     \<and> list_all (\<lambda>f. wf_fill f \<and> find_row_by_id (fl_broker_order_id f) d \<noteq> None) (db_fills d)
     \<and> control_state_post_init (db_control d) = Inr (db_control d)
     \<and> distinct (map cc_command_id (db_commands d))"

named_theorems ok_intros "statements that keep the database well formed"

lemma post_init_status:
  "order_intent_post_init (i\<lparr>oi_status := st\<rparr>) = Inr (i\<lparr>oi_status := st\<rparr>)
     \<longleftrightarrow> order_intent_post_init i = Inr i"
  "order_intent_post_init (i\<lparr>oi_created_at := t\<rparr>) = Inr (i\<lparr>oi_created_at := t\<rparr>)
     \<longleftrightarrow> order_intent_post_init i = Inr i"
  by (simp_all add: order_intent_post_init_def bindO_eq_Inr)

lemma wf_intent_update [simp]:
  "wf_intent (i\<lparr>oi_status := st\<rparr>) = wf_intent i" "wf_intent (i\<lparr>oi_created_at := t\<rparr>) = wf_intent i"
  by (simp_all add: wf_intent_def post_init_status)

lemma find_absent:
  "find_intent c d = None \<longleftrightarrow> c \<notin> set (map oi_client_order_id (db_intents d))"
  "find_row_by_id b d = None \<longleftrightarrow> b \<notin> set (map (bo_broker_order_id \<circ> br_order) (db_broker_orders d))"
  "find_row_by_client c d = None \<longleftrightarrow> c \<notin> set (map (bo_client_order_id \<circ> br_order) (db_broker_orders d))"
  "find_fill e d = None \<longleftrightarrow> e \<notin> set (map fl_execution_id (db_fills d))"
  by (auto simp: find_intent_def find_row_by_id_def find_row_by_client_def find_fill_def find_None_iff)

lemma map_status_keys:
  "map oi_client_order_id (db_intents (set_intent_status cid st d)) = map oi_client_order_id (db_intents d)"
  "map oi_intent_id (db_intents (set_intent_status cid st d)) = map oi_intent_id (db_intents d)"
  by (simp_all add: set_intent_status_def)

lemma insert_intent_ok [ok_intros]:
  assumes "sql_insert_intent i now d = Inr (a, d')" "db_ok d" "wf_intent i"
  shows "db_ok d'"
  using assms by (auto simp: sql_insert_intent_def db_ok_def Let_def find_absent list_all_iff split: if_splits)

lemma update_intent_ok [ok_intros]:
  assumes "sql_update_intent_status cid target now d = Inr (a, d')" "db_ok d"
  shows "db_ok d'"
proof (cases "find_intent cid d")
  case None
  with assms show ?thesis by (simp add: sql_update_intent_status_def)
next
  case (Some i)
  with assms have d': "d' = set_intent_status cid target d"
    by (auto simp: sql_update_intent_status_def split: if_splits)
  have "list_all wf_intent (db_intents d')"
    using assms(2) by (auto simp: db_ok_def d' set_intent_status_def list_all_iff)
  moreover have "find_intent c d' \<noteq> None \<longleftrightarrow> find_intent c d \<noteq> None" for c
    by (simp add: d' find_intent_set_status)
  moreover have "find_row_by_id b d' = find_row_by_id b d" for b
    by (simp add: d' find_row_by_id_def set_intent_status_def)
  ultimately show ?thesis
    using assms(2) unfolding db_ok_def d' map_status_keys by (simp add: set_intent_status_def)
qed

lemma insert_broker_order_ok [ok_intros]:
  assumes "sql_insert_broker_order b now d = Inr (a, d')" "db_ok d" "wf_broker_order b"
  shows "db_ok d'"
proof -
  have new: "row_ok \<lparr>br_order = b, br_watermark = Some (bo_updated_at b)\<rparr>"
    if "bo_status b = B_FILLED \<longrightarrow> bo_filled_quantity b = bo_quantity b"
    using assms(3) that by (simp add: row_ok_def broker_order_of_row_def)
  show ?thesis
    using assms(1,2) new
    by (auto simp: sql_insert_broker_order_def db_ok_def Let_def find_absent list_all_iff split: if_splits)
qed

lemma updated_row_ok:
  assumes "row_ok r" "\<not> broker_update_rejected r st filled observed"
  shows "row_ok (updated_row r st filled observed)"
  using assms
  by (auto simp: row_ok_def updated_row_def broker_update_rejected_def Let_def wf_broker_order_def
      broker_order_of_row_def broker_order_post_init_def bindO_eq_Inr)

lemma update_broker_order_ok [ok_intros]:
  assumes "sql_update_broker_order bid st filled observed now d = Inr (a, d')" "db_ok d"
  shows "db_ok d'"
proof (cases "find_row_by_id bid d")
  case None
  with assms show ?thesis by (simp add: sql_update_broker_order_def)
next
  case (Some r)
  let ?f = "\<lambda>q. if bo_broker_order_id (br_order q) = bid then updated_row r st filled observed else q"
  from Some assms have d': "d' = d\<lparr>db_broker_orders := map ?f (db_broker_orders d)\<rparr>"
    and ok: "\<not> broker_update_rejected r st filled observed"
    by (auto simp: sql_update_broker_order_def split: if_splits)
  have r: "bo_broker_order_id (br_order r) = bid" "r \<in> set (db_broker_orders d)"
    using find_row_key [OF Some] by auto
  have same: "q = r" if "q \<in> set (db_broker_orders d)" "bo_broker_order_id (br_order q) = bid" for q
    using assms(2) r that by (auto simp: db_ok_def distinct_map inj_on_def)
  have keys: "map (bo_broker_order_id \<circ> br_order) (db_broker_orders d') = map (bo_broker_order_id \<circ> br_order) (db_broker_orders d)"
    "map (bo_client_order_id \<circ> br_order) (db_broker_orders d') = map (bo_client_order_id \<circ> br_order) (db_broker_orders d)"
    using same r by (auto simp: d')
  have rows: "list_all (\<lambda>q. row_ok q \<and> find_intent (bo_client_order_id (br_order q)) d \<noteq> None) (db_broker_orders d')"
    using assms(2) r updated_row_ok [OF _ ok] by (auto simp: db_ok_def d' list_all_iff)
  have "find_row_by_id b d' \<noteq> None \<longleftrightarrow> find_row_by_id b d \<noteq> None" for b
    unfolding d' find_row_update [OF Some] using Some by simp
  then have "list_all (\<lambda>f. wf_fill f \<and> find_row_by_id (fl_broker_order_id f) d' \<noteq> None) (db_fills d)"
    using assms(2) by (simp add: db_ok_def)
  with assms(2) rows show ?thesis
    unfolding db_ok_def keys by (simp add: d' find_intent_def)
qed

lemma insert_fill_ok [ok_intros]:
  assumes "sql_insert_fill f now d = Inr (a, d')" "db_ok d" "wf_fill f"
  shows "db_ok d'"
  using assms by (auto simp: sql_insert_fill_def db_ok_def find_absent list_all_iff split: if_splits)

lemma pause_ok [ok_intros]:
  assumes "sql_pause_entries (Some r) now d = Inr (a, d')" "db_ok d" "\<not> blank r"
  shows "db_ok d'"
  using assms
  by (auto simp: sql_pause_entries_def Let_def db_ok_def find_absent control_state_post_init_def
      bindO_eq_Inr MAX_REASON_LENGTH_def split: if_splits)

lemma resume_ok [ok_intros]:
  assumes "sql_resume_entries now d = Inr (a, d')" "db_ok d"
  shows "db_ok d'"
  using assms
  by (auto simp: sql_resume_entries_def Let_def db_ok_def find_absent control_state_post_init_def
      bindO_eq_Inr split: if_splits option.splits)

lemma bump_ok [ok_intros]:
  assumes "sql_bump_flatten_generation now d = Inr (a, d')" "db_ok d"
  shows "db_ok d'"
  using assms
  by (auto simp: sql_bump_flatten_generation_def Let_def db_ok_def find_absent control_state_post_init_def
      bindO_eq_Inr split: if_splits)

lemma insert_command_ok [ok_intros]:
  assumes "sql_insert_command c now d = Inr (a, d')" "db_ok d"
  shows "db_ok d'"
  using assms by (auto simp: sql_insert_command_def db_ok_def find_absent split: if_splits)

lemma insert_run_ok [ok_intros]:
  assumes "sql_insert_run r now d = Inr (a, d')" "db_ok d"
  shows "db_ok d'"
  using assms by (auto simp: sql_insert_run_def db_ok_def find_absent split: if_splits)

lemma insert_baseline_ok [ok_intros]:
  assumes "sql_insert_baseline b now d = Inr (a, d')" "db_ok d"
  shows "db_ok d'"
  using assms by (auto simp: sql_insert_baseline_def Let_def db_ok_def find_absent split: if_splits)

lemma insert_revision_ok [ok_intros]:
  assumes "sql_insert_revision b now d = Inr (a, d')" "db_ok d"
  shows "db_ok d'"
  using assms by (auto simp: sql_insert_revision_def Let_def db_ok_def find_absent split: if_splits)

end
