(* ===== verification/Ledger.thy ===== *)
theory Ledger
  imports Orders
begin

text \<open>
  \<open>execution/ledger.py\<close>: the projection of cash and FIFO lots from the fills.
  The first part translates the module; the second relates it to an abstract
  account (signed sums over the fills and a queue of shares per symbol) and
  characterises exactly when the replay fails.
\<close>

section \<open>The module\<close>

definition MAX_ABS_CENTS :: int where "MAX_ABS_CENTS = 1000000000000"

record open_lot =
  lot_symbol :: string
  lot_quantity :: int
  lot_price :: int
  lot_opened_at :: utc

definition OpenLot :: "string \<Rightarrow> int \<Rightarrow> int \<Rightarrow> utc \<Rightarrow> open_lot outcome" where
  "OpenLot symbol quantity price opened_at =
     bindO (require (quantity \<ge> 1)) (\<lambda>_.
       Inr \<lparr>lot_symbol = symbol, lot_quantity = quantity, lot_price = price,
            lot_opened_at = opened_at\<rparr>)"

record ledger_projection =
  cash_delta_cents :: int
  proj_lots :: "open_lot list"

definition LedgerProjection :: "int \<Rightarrow> open_lot list \<Rightarrow> ledger_projection outcome" where
  "LedgerProjection cash lots =
     bindO (require (\<bar>cash\<bar> \<le> MAX_ABS_CENTS)) (\<lambda>_.
       Inr \<lparr>cash_delta_cents = cash, proj_lots = lots\<rparr>)"

fun positions_loop :: "open_lot list \<Rightarrow> (string \<rightharpoonup> int) \<Rightarrow> (string \<rightharpoonup> int)" where
  "positions_loop [] quantities = quantities"
| "positions_loop (lot # lots) quantities =
     positions_loop lots (quantities(lot_symbol lot \<mapsto>
       (case quantities (lot_symbol lot) of None \<Rightarrow> 0 | Some n \<Rightarrow> n) + lot_quantity lot))"

definition positions :: "ledger_projection \<Rightarrow> (string \<rightharpoonup> int)" where
  "positions p = positions_loop (proj_lots p) Map.empty"

fun market_value_loop :: "(string \<rightharpoonup> int) \<Rightarrow> open_lot list \<Rightarrow> int \<Rightarrow> int outcome" where
  "market_value_loop prices [] acc = Inr acc"
| "market_value_loop prices (lot # lots) acc =
     (case prices (lot_symbol lot) of
        None \<Rightarrow> Inl ValueError
      | Some price \<Rightarrow> market_value_loop prices lots (acc + lot_quantity lot * price))"

definition account_valuation ::
  "ledger_projection \<Rightarrow> int \<Rightarrow> (string \<rightharpoonup> int) \<Rightarrow> int outcome" where
  "account_valuation projection opening_cash_cents prices =
     bindO (require (opening_cash_cents \<ge> 0)) (\<lambda>_.
     bindO (market_value_loop prices (proj_lots projection) 0) (\<lambda>market_value.
       let total = opening_cash_cents + cash_delta_cents projection + market_value
       in if \<bar>total\<bar> > MAX_ABS_CENTS then Inl ValueError else Inr total))"

definition account_equity_from_cash_and_positions ::
  "int \<Rightarrow> open_lot list \<Rightarrow> (string \<rightharpoonup> int) \<Rightarrow> int outcome" where
  "account_equity_from_cash_and_positions expected_cash_cents lots prices =
     bindO (require (\<bar>expected_cash_cents\<bar> \<le> MAX_ABS_CENTS)) (\<lambda>_.
     bindO (market_value_loop prices lots 0) (\<lambda>market_value.
       let total = expected_cash_cents + market_value
       in if \<bar>total\<bar> > MAX_ABS_CENTS then Inl ValueError else Inr total))"

text \<open>The inner loop of a sell: \<open>remaining\<close>, \<open>cash_cents\<close> and the list of kept lots.\<close>

fun consume_lots ::
  "string \<Rightarrow> int \<Rightarrow> open_lot list \<Rightarrow> int \<Rightarrow> int \<Rightarrow> open_lot list \<Rightarrow> (int \<times> int \<times> open_lot list) outcome"
where
  "consume_lots symbol price [] remaining cash consumed = Inr (remaining, cash, consumed)"
| "consume_lots symbol price (lot # lots) remaining cash consumed =
     (if remaining = 0 then consume_lots symbol price lots remaining cash (consumed @ [lot])
      else if lot_symbol lot \<noteq> symbol then
        consume_lots symbol price lots remaining cash (consumed @ [lot])
      else if lot_quantity lot \<le> remaining then
        consume_lots symbol price lots (remaining - lot_quantity lot)
          (cash + lot_quantity lot * price) consumed
      else
        bindO (OpenLot (lot_symbol lot) (lot_quantity lot - remaining) (lot_price lot)
                 (lot_opened_at lot)) (\<lambda>rest.
          consume_lots symbol price lots 0 (cash + remaining * price) (consumed @ [rest])))"

record ledger_state =
  ls_cash :: int
  ls_lots :: "open_lot list"
  ls_seen :: "string list"
  ls_filled :: "string \<rightharpoonup> int"

definition ledger_step ::
  "(string \<rightharpoonup> broker_order) \<Rightarrow> ledger_state \<Rightarrow> fill \<Rightarrow> ledger_state outcome" where
  "ledger_step broker_orders st f =
     (if fl_execution_id f \<in> set (ls_seen st)
      then Inl (LedgerInvariantError ''duplicate execution id in fill ledger'')
      else case broker_orders (fl_broker_order_id f) of
        None \<Rightarrow> Inl (LedgerInvariantError ''fill references an unknown broker order'')
      | Some order \<Rightarrow>
        let cumulative = (case ls_filled st (fl_broker_order_id f) of None \<Rightarrow> 0 | Some n \<Rightarrow> n)
              + fl_quantity f
        in if cumulative > bo_quantity order
           then Inl (LedgerInvariantError ''fill quantity exceeds the recorded order quantity'')
           else
             let st = st\<lparr>ls_seen := fl_execution_id f # ls_seen st,
                         ls_filled := (ls_filled st)(fl_broker_order_id f \<mapsto> cumulative)\<rparr>
             in if bo_side order = BUY then
                  let cash = ls_cash st - fl_quantity f * fl_price f
                  in if \<bar>cash\<bar> > MAX_ABS_CENTS
                     then Inl (LedgerInvariantError ''projected cash delta exceeds the allowed range'')
                     else bindO (OpenLot (bo_symbol order) (fl_quantity f) (fl_price f) (fl_occurred_at f))
                       (\<lambda>lot. Inr (st\<lparr>ls_cash := cash, ls_lots := ls_lots st @ [lot]\<rparr>))
                else
                  bindO (consume_lots (bo_symbol order) (fl_price f) (ls_lots st) (fl_quantity f)
                           (ls_cash st) []) (\<lambda>(remaining, cash, consumed).
                    if remaining \<noteq> 0
                    then Inl (LedgerInvariantError ''sell fill exceeds the projected position'')
                    else Inr (st\<lparr>ls_cash := cash, ls_lots := consumed\<rparr>)))"

fun ledger_loop ::
  "(string \<rightharpoonup> broker_order) \<Rightarrow> ledger_state \<Rightarrow> fill list \<Rightarrow> ledger_state outcome" where
  "ledger_loop broker_orders st [] = Inr st"
| "ledger_loop broker_orders st (f # fs) =
     bindO (ledger_step broker_orders st f) (\<lambda>st'. ledger_loop broker_orders st' fs)"

definition canonical_fills :: "fill list \<Rightarrow> fill list" where
  "canonical_fills fills = sort_key (\<lambda>f. (fl_occurred_at f, fl_execution_id f)) fills"

definition project_ledger ::
  "fill list \<Rightarrow> (string \<rightharpoonup> broker_order) \<Rightarrow> ledger_projection outcome" where
  "project_ledger fills broker_orders =
     bindO (ledger_loop broker_orders
              \<lparr>ls_cash = 0, ls_lots = [], ls_seen = [], ls_filled = Map.empty\<rparr>
              (canonical_fills fills)) (\<lambda>st.
       if \<bar>ls_cash st\<bar> > MAX_ABS_CENTS
       then Inl (LedgerInvariantError ''projected cash delta exceeds the allowed range'')
       else LedgerProjection (ls_cash st)
              (sort_key (\<lambda>lot. (lot_symbol lot, lot_opened_at lot)) (ls_lots st)))"

section \<open>The abstract account\<close>

text \<open>
  What the fills say on their own: shares bought and sold per symbol, the cash
  they moved, and per symbol the queue of bought shares, of which sells take
  from the front.
\<close>

definition is_trade :: "(string \<rightharpoonup> broker_order) \<Rightarrow> order_side \<Rightarrow> string \<Rightarrow> fill \<Rightarrow> bool" where
  "is_trade m side symbol f \<longleftrightarrow>
     (case m (fl_broker_order_id f) of None \<Rightarrow> False
      | Some b \<Rightarrow> bo_side b = side \<and> bo_symbol b = symbol)"

definition traded :: "(string \<rightharpoonup> broker_order) \<Rightarrow> order_side \<Rightarrow> string \<Rightarrow> fill list \<Rightarrow> int" where
  "traded m side symbol fs = sum_list (map fl_quantity (filter (is_trade m side symbol) fs))"

definition order_total :: "string \<Rightarrow> fill list \<Rightarrow> int" where
  "order_total oid fs = sum_list (map fl_quantity (filter (\<lambda>f. fl_broker_order_id f = oid) fs))"

definition cash_effect :: "(string \<rightharpoonup> broker_order) \<Rightarrow> fill \<Rightarrow> int" where
  "cash_effect m f =
     (case m (fl_broker_order_id f) of None \<Rightarrow> 0
      | Some b \<Rightarrow> (if bo_side b = BUY then - (fl_quantity f * fl_price f) else fl_quantity f * fl_price f))"

definition net_cash :: "(string \<rightharpoonup> broker_order) \<Rightarrow> fill list \<Rightarrow> int" where
  "net_cash m fs = sum_list (map (cash_effect m) fs)"

definition bought_lots :: "(string \<rightharpoonup> broker_order) \<Rightarrow> string \<Rightarrow> fill list \<Rightarrow> open_lot list" where
  "bought_lots m symbol fs =
     map (\<lambda>f. \<lparr>lot_symbol = symbol, lot_quantity = fl_quantity f, lot_price = fl_price f,
               lot_opened_at = fl_occurred_at f\<rparr>) (filter (is_trade m BUY symbol) fs)"

definition shares :: "open_lot list \<Rightarrow> int" where
  "shares lots = sum_list (map lot_quantity lots)"

definition lots_of :: "string \<Rightarrow> open_lot list \<Rightarrow> open_lot list" where
  "lots_of symbol lots = filter (\<lambda>l. lot_symbol l = symbol) lots"

fun drop_shares :: "int \<Rightarrow> open_lot list \<Rightarrow> open_lot list" where
  "drop_shares n [] = []"
| "drop_shares n (l # ls) =
     (if n \<le> 0 then l # ls
      else if lot_quantity l \<le> n then drop_shares (n - lot_quantity l) ls
      else l\<lparr>lot_quantity := lot_quantity l - n\<rparr> # ls)"

text \<open>When the next fill can be booked after those of \<open>past\<close>.\<close>

definition bookable :: "(string \<rightharpoonup> broker_order) \<Rightarrow> fill list \<Rightarrow> fill \<Rightarrow> bool" where
  "bookable m past f \<longleftrightarrow>
     fl_execution_id f \<notin> fl_execution_id ` set past
     \<and> (case m (fl_broker_order_id f) of None \<Rightarrow> False
        | Some b \<Rightarrow> order_total (fl_broker_order_id f) past + fl_quantity f \<le> bo_quantity b
          \<and> (if bo_side b = BUY then \<bar>net_cash m (past @ [f])\<bar> \<le> MAX_ABS_CENTS
             else fl_quantity f \<le> traded m BUY (bo_symbol b) past - traded m SELL (bo_symbol b) past))"

fun replayable :: "(string \<rightharpoonup> broker_order) \<Rightarrow> fill list \<Rightarrow> fill list \<Rightarrow> bool" where
  "replayable m past [] = True"
| "replayable m past (f # fs) \<longleftrightarrow> bookable m past f \<and> replayable m (past @ [f]) fs"

section \<open>Lots\<close>

lemma shares_simps [simp]:
  "shares [] = 0" "shares (l # ls) = lot_quantity l + shares ls"
  "shares (ls @ ks) = shares ls + shares ks"
  by (simp_all add: shares_def)

lemma shares_nonneg: "\<forall>l\<in>set ls. 1 \<le> lot_quantity l \<Longrightarrow> 0 \<le> shares ls"
  by (induction ls) auto

lemma shares_pos: "ls \<noteq> [] \<Longrightarrow> \<forall>l\<in>set ls. 1 \<le> lot_quantity l \<Longrightarrow> 0 < shares ls"
  using shares_nonneg [of "tl ls"] by (cases ls) auto

lemma lots_of_simps [simp]:
  "lots_of s [] = []"
  "lots_of s (l # ls) = (if lot_symbol l = s then l # lots_of s ls else lots_of s ls)"
  "lots_of s (ls @ ks) = lots_of s ls @ lots_of s ks"
  by (simp_all add: lots_of_def)

lemma set_lots_of: "set (lots_of s ls) \<subseteq> set ls"
  by (auto simp: lots_of_def)

lemma drop_shares_0 [simp]: "drop_shares 0 ls = ls"
  by (cases ls) auto

lemma drop_shares_append:
  assumes "n \<le> shares ls" "\<forall>l\<in>set ls. 1 \<le> lot_quantity l"
  shows "drop_shares n (ls @ ks) = drop_shares n ls @ ks"
  using assms by (induction ls arbitrary: n) (auto simp: not_le, cases ks, auto)

lemma drop_shares_add:
  assumes "0 \<le> a" "0 \<le> b" "\<forall>l\<in>set ls. 1 \<le> lot_quantity l"
  shows "drop_shares b (drop_shares a ls) = drop_shares (a + b) ls"
  using assms
proof (induction ls arbitrary: a)
  case (Cons l ls)
  show ?case
  proof (cases "0 < a \<and> lot_quantity l \<le> a")
    case True
    with Cons show ?thesis by (auto simp: algebra_simps)
  next
    case False
    with Cons.prems show ?thesis
      by (cases "a = 0") (auto simp: algebra_simps)
  qed
qed simp

lemma shares_drop:
  assumes "0 \<le> n" "n \<le> shares ls" "\<forall>l\<in>set ls. 1 \<le> lot_quantity l"
  shows "shares (drop_shares n ls) = shares ls - n"
  using assms by (induction ls arbitrary: n) auto

text \<open>What a sell of \<open>n\<close> shares leaves of the whole list of lots.\<close>

fun take_out :: "string \<Rightarrow> int \<Rightarrow> open_lot list \<Rightarrow> open_lot list" where
  "take_out s n [] = []"
| "take_out s n (l # ls) =
     (if n = 0 \<or> lot_symbol l \<noteq> s then l # take_out s n ls
      else if lot_quantity l \<le> n then take_out s (n - lot_quantity l) ls
      else l\<lparr>lot_quantity := lot_quantity l - n\<rparr> # ls)"

lemma take_out_0 [simp]: "take_out s 0 ls = ls"
  by (induction ls) auto

lemma lots_of_take_out:
  assumes "0 \<le> n" "\<forall>l\<in>set ls. 1 \<le> lot_quantity l"
  shows "lots_of t (take_out s n ls) = (if t = s then drop_shares n (lots_of s ls) else lots_of t ls)"
  using assms by (induction ls arbitrary: n) auto

lemma take_out_positive:
  assumes "0 \<le> n" "\<forall>l\<in>set ls. 1 \<le> lot_quantity l"
  shows "\<forall>l\<in>set (take_out s n ls). 1 \<le> lot_quantity l"
  using assms
proof (induction ls arbitrary: n)
  case (Cons l ls)
  then have "lot_quantity l \<le> n \<Longrightarrow> \<forall>k\<in>set (take_out s (n - lot_quantity l) ls). 1 \<le> lot_quantity k"
    by (intro Cons.IH) auto
  with Cons show ?case by auto
qed simp

lemma consume_lots_none: "consume_lots s p ls 0 cash acc = Inr (0, cash, acc @ ls)"
  by (induction ls arbitrary: acc) auto

lemma consume_lots_eq:
  assumes "0 \<le> n" "\<forall>l\<in>set ls. 1 \<le> lot_quantity l"
  shows "consume_lots s p ls n cash acc =
    Inr (n - min n (shares (lots_of s ls)), cash + min n (shares (lots_of s ls)) * p,
         acc @ take_out s n ls)"
  using assms
proof (induction ls arbitrary: n cash acc)
  case (Cons l ls)
  have pos: "0 \<le> shares (lots_of s ls)"
    using Cons.prems set_lots_of [of s ls] by (intro shares_nonneg) auto
  show ?case
  proof (cases "n = 0 \<or> lot_symbol l \<noteq> s")
    case True
    with Cons show ?thesis by (auto simp: consume_lots_none min_absorb1 add_nonneg_nonneg pos)
  next
    case False
    show ?thesis
    proof (cases "lot_quantity l \<le> n")
      case True
      have "min n (lot_quantity l + shares (lots_of s ls))
          = lot_quantity l + min (n - lot_quantity l) (shares (lots_of s ls))"
        using True by (simp add: min_def)
      with True False Cons show ?thesis by (simp add: algebra_simps)
    next
      case less: False
      then have "min n (lot_quantity l + shares (lots_of s ls)) = n" using pos by simp
      with False less Cons.prems show ?thesis
        by (simp add: OpenLot_def consume_lots_none)
    qed
  qed
qed simp

section \<open>The replay implements the abstract account\<close>

definition books :: "(string \<rightharpoonup> broker_order) \<Rightarrow> fill list \<Rightarrow> ledger_state \<Rightarrow> bool" where
  "books m past st \<longleftrightarrow>
     set (ls_seen st) = fl_execution_id ` set past
     \<and> (\<forall>oid. (case ls_filled st oid of None \<Rightarrow> 0 | Some n \<Rightarrow> n) = order_total oid past)
     \<and> ls_cash st = net_cash m past
     \<and> (\<forall>l\<in>set (ls_lots st). 1 \<le> lot_quantity l)
     \<and> (\<forall>s. lots_of s (ls_lots st) = drop_shares (traded m SELL s past) (bought_lots m s past)
          \<and> 0 \<le> traded m SELL s past \<and> traded m SELL s past \<le> traded m BUY s past)"

lemma books_cash: "books m past st \<Longrightarrow> ls_cash st = net_cash m past"
  by (simp add: books_def)

lemma account_snoc [simp]:
  "traded m side s (fs @ [f]) = traded m side s fs + (if is_trade m side s f then fl_quantity f else 0)"
  "order_total oid (fs @ [f]) = order_total oid fs + (if fl_broker_order_id f = oid then fl_quantity f else 0)"
  "net_cash m (fs @ [f]) = net_cash m fs + cash_effect m f"
  "bought_lots m s (fs @ [f]) = bought_lots m s fs @
     (if is_trade m BUY s f then [\<lparr>lot_symbol = s, lot_quantity = fl_quantity f,
        lot_price = fl_price f, lot_opened_at = fl_occurred_at f\<rparr>] else [])"
  by (simp_all add: traded_def order_total_def net_cash_def bought_lots_def)

lemma shares_bought: "shares (bought_lots m s fs) = traded m BUY s fs"
  by (simp add: shares_def bought_lots_def traded_def o_def)

lemma bought_positive:
  "\<forall>f\<in>set fs. 1 \<le> fl_quantity f \<Longrightarrow> \<forall>l\<in>set (bought_lots m s fs). 1 \<le> lot_quantity l"
  by (auto simp: bought_lots_def)

lemma books_shares:
  assumes "books m past st" "\<forall>f\<in>set past. 1 \<le> fl_quantity f"
  shows "shares (lots_of s (ls_lots st)) = traded m BUY s past - traded m SELL s past"
  using assms by (simp add: books_def shares_drop shares_bought bought_positive)

lemma ledger_step_rejects:
  assumes "books m past st" "\<forall>g\<in>set past. 1 \<le> fl_quantity g" "1 \<le> fl_quantity f"
    and "\<not> bookable m past f"
  shows "\<exists>msg. ledger_step m st f = Inl (LedgerInvariantError msg)"
proof (cases "m (fl_broker_order_id f)")
  case None
  then show ?thesis by (simp add: ledger_step_def)
next
  case (Some b)
  have lots: "\<forall>l\<in>set (ls_lots st). 1 \<le> lot_quantity l" and cash: "ls_cash st = net_cash m past"
    and filled: "(case ls_filled st (fl_broker_order_id f) of None \<Rightarrow> 0 | Some n \<Rightarrow> n)
      = order_total (fl_broker_order_id f) past"
    and seen: "set (ls_seen st) = fl_execution_id ` set past"
    using assms(1) by (simp_all add: books_def)
  show ?thesis
    using assms(3,4) Some
    by (auto simp: ledger_step_def Let_def consume_lots_eq [OF _ lots] seen filled cash bookable_def
        books_shares [OF assms(1,2)] cash_effect_def not_le split: if_splits)
qed

lemma ledger_step_books:
  assumes b: "books m past st" and past: "\<forall>g\<in>set past. 1 \<le> fl_quantity g" and q: "1 \<le> fl_quantity f"
    and ok: "bookable m past f"
  shows "\<exists>st'. ledger_step m st f = Inr st' \<and> books m (past @ [f]) st'"
proof -
  from ok obtain b where m: "m (fl_broker_order_id f) = Some b"
    by (auto simp: bookable_def split: option.splits)
  have lots: "\<forall>l\<in>set (ls_lots st). 1 \<le> lot_quantity l" and cash: "ls_cash st = net_cash m past"
    and filled: "(case ls_filled st oid of None \<Rightarrow> 0 | Some n \<Rightarrow> n) = order_total oid past"
    and seen: "set (ls_seen st) = fl_execution_id ` set past"
    and queue: "lots_of s (ls_lots st) = drop_shares (traded m SELL s past) (bought_lots m s past)"
    and sells: "0 \<le> traded m SELL s past" "traded m SELL s past \<le> traded m BUY s past" for oid s
    using b by (simp_all add: books_def)
  have app: "drop_shares (traded m SELL s past) (bought_lots m s past @ ks)
      = drop_shares (traded m SELL s past) (bought_lots m s past) @ ks" for s ks
    by (rule drop_shares_append [OF _ bought_positive [OF past]]) (simp add: shares_bought sells)
  have sum: "drop_shares (fl_quantity f) (drop_shares (traded m SELL s past) (bought_lots m s past))
      = drop_shares (traded m SELL s past + fl_quantity f) (bought_lots m s past)" for s
    using q by (intro drop_shares_add bought_positive [OF past]) (simp_all add: sells)
  show ?thesis
  proof (cases "bo_side b")
    case BUY
    with ok m q show ?thesis
      by (auto simp: ledger_step_def Let_def OpenLot_def seen filled cash bookable_def books_def
          cash_effect_def is_trade_def lots queue sells app intro: order_trans [OF sells(2)]
          split: option.splits)
  next
    case SELL
    with ok m have "fl_quantity f \<le> shares (lots_of (bo_symbol b) (ls_lots st))"
      by (simp add: bookable_def books_shares [OF b past])
    then have "consume_lots (bo_symbol b) (fl_price f) (ls_lots st) (fl_quantity f) (net_cash m past) []
        = Inr (0, net_cash m past + fl_quantity f * fl_price f,
            take_out (bo_symbol b) (fl_quantity f) (ls_lots st))"
      using q by (simp add: consume_lots_eq [OF _ lots])
    moreover have "\<forall>l\<in>set (take_out (bo_symbol b) (fl_quantity f) (ls_lots st)). 1 \<le> lot_quantity l"
      using q by (intro take_out_positive [OF _ lots]) simp
    ultimately show ?thesis
      using SELL ok m q sells
      by (auto simp: ledger_step_def Let_def seen filled cash bookable_def books_def cash_effect_def
          is_trade_def sum queue lots_of_take_out [OF _ lots] split: option.splits)
  qed
qed

lemma ledger_loop_replays:
  assumes "books m past st" "\<forall>g\<in>set past. 1 \<le> fl_quantity g" "\<forall>f\<in>set fs. 1 \<le> fl_quantity f"
  shows "if replayable m past fs then \<exists>st'. ledger_loop m st fs = Inr st' \<and> books m (past @ fs) st'
    else \<exists>msg. ledger_loop m st fs = Inl (LedgerInvariantError msg)"
  using assms
proof (induction fs arbitrary: past st)
  case (Cons f fs)
  show ?case
  proof (cases "bookable m past f")
    case True
    with Cons.prems obtain st' where step: "ledger_step m st f = Inr st'" "books m (past @ [f]) st'"
      using ledger_step_books by fastforce
    have "if replayable m (past @ [f]) fs
        then \<exists>st''. ledger_loop m st' fs = Inr st'' \<and> books m ((past @ [f]) @ fs) st''
        else \<exists>msg. ledger_loop m st' fs = Inl (LedgerInvariantError msg)"
      by (rule Cons.IH [OF step(2)]) (use Cons.prems in auto)
    with step(1) True show ?thesis by (auto split: if_splits)
  next
    case False
    with Cons.prems show ?thesis using ledger_step_rejects [of m past st f] by auto
  qed
qed simp

lemma books_init:
  "books m [] \<lparr>ls_cash = 0, ls_lots = [], ls_seen = [], ls_filled = Map.empty\<rparr>"
  by (simp add: books_def traded_def order_total_def net_cash_def bought_lots_def)

lemma set_canonical [simp]: "set (canonical_fills fs) = set fs"
  by (simp add: canonical_fills_def)

text \<open>The result of a replay that succeeds, and the shape of every failure.\<close>

lemma project_ledger_cases:
  assumes "\<forall>f\<in>set fs. 1 \<le> fl_quantity f"
  shows "if replayable m [] (canonical_fills fs) \<and> \<bar>net_cash m (canonical_fills fs)\<bar> \<le> MAX_ABS_CENTS
    then \<exists>st. books m (canonical_fills fs) st \<and> project_ledger fs m = Inr
      \<lparr>cash_delta_cents = ls_cash st,
       proj_lots = sort_key (\<lambda>lot. (lot_symbol lot, lot_opened_at lot)) (ls_lots st)\<rparr>
    else \<exists>msg. project_ledger fs m = Inl (LedgerInvariantError msg)"
proof -
  have "\<forall>f\<in>set (canonical_fills fs). 1 \<le> fl_quantity f" using assms by simp
  note loop = ledger_loop_replays [OF books_init _ this, of m, simplified]
  show ?thesis
  proof (cases "replayable m [] (canonical_fills fs)")
    case True
    with loop obtain st where "ledger_loop m
        \<lparr>ls_cash = 0, ls_lots = [], ls_seen = [], ls_filled = Map.empty\<rparr> (canonical_fills fs) = Inr st"
      and st: "books m (canonical_fills fs) st" by auto
    with True books_cash [OF st] st show ?thesis
      by (auto simp: project_ledger_def LedgerProjection_def simp flip: not_less)
  next
    case False
    with loop show ?thesis by (auto simp: project_ledger_def)
  qed
qed

section \<open>Independence of arrival order\<close>

lemma account_perm:
  assumes "mset fs = mset gs"
  shows "traded m side s fs = traded m side s gs" "net_cash m fs = net_cash m gs"
    "order_total oid fs = order_total oid gs"
proof -
  have sum: "sum_list (map h (filter P fs)) = sum_list (map h (filter P gs))" for h :: "fill \<Rightarrow> int" and P
    by (metis assms mset_filter mset_map sum_mset_sum_list)
  show "traded m side s fs = traded m side s gs" "order_total oid fs = order_total oid gs"
    by (simp_all add: traded_def order_total_def sum)
  show "net_cash m fs = net_cash m gs"
    using sum [of "cash_effect m" "\<lambda>_. True"] by (simp add: net_cash_def)
qed

lemma mset_canonical [simp]: "mset (canonical_fills fs) = mset fs"
  by (simp add: canonical_fills_def)

lemma replayable_distinct:
  assumes "replayable m past fs" "distinct (map fl_execution_id past)"
  shows "distinct (map fl_execution_id (past @ fs))"
  using assms
proof (induction fs arbitrary: past)
  case (Cons f fs)
  from Cons.IH [of "past @ [f]"] Cons.prems show ?case by (auto simp: bookable_def)
qed simp

lemma project_ledger_distinct:
  assumes "\<forall>f\<in>set fs. 1 \<le> fl_quantity f" "project_ledger fs m = Inr p"
  shows "distinct (map fl_execution_id fs)"
proof -
  have "replayable m [] (canonical_fills fs)"
    using project_ledger_cases [OF assms(1), of m] assms(2) by (auto split: if_splits)
  then have "distinct (map fl_execution_id (canonical_fills fs))"
    using replayable_distinct by fastforce
  moreover have "mset (map fl_execution_id (canonical_fills fs)) = mset (map fl_execution_id fs)"
    by simp
  ultimately show ?thesis by (metis mset_eq_imp_distinct_iff)
qed

lemma canonical_unique:
  assumes "mset fs = mset gs" "distinct (map fl_execution_id fs)"
  shows "canonical_fills fs = canonical_fills gs"
proof -
  define key where "key = (\<lambda>f :: fill. (fl_occurred_at f, fl_execution_id f))"
  have "distinct (map fl_execution_id (canonical_fills hs))"
    if "mset hs = mset fs" for hs
    using assms(2) that by (metis mset_canonical mset_eq_imp_distinct_iff mset_map)
  then have "distinct (map key (canonical_fills hs)) \<and> inj_on key (set hs)"
    if "mset hs = mset fs" for hs
    using that by (fastforce simp: distinct_map inj_on_def key_def)
  moreover have "sorted (map key (canonical_fills hs))" for hs
    by (simp add: canonical_fills_def key_def)
  moreover have "set fs = set gs" using assms(1) by (rule mset_eq_setD)
  ultimately show ?thesis using assms(1)
    by (intro map_sorted_distinct_set_unique [of key]) auto
qed

text \<open>
  C19. The projection does not depend on the order in which fills arrive: two
  arrangements of the same fills give the same projection, or both fail; and
  with distinct execution ids even the failure is the same.
\<close>

theorem project_ledger_order_independent:
  assumes "mset fs = mset gs" and "\<forall>f\<in>set fs. wf_fill f"
  shows "(distinct (map fl_execution_id fs) \<longrightarrow> project_ledger fs m = project_ledger gs m)
    \<and> (\<forall>p. project_ledger fs m = Inr p \<longleftrightarrow> project_ledger gs m = Inr p)"
proof -
  have pos: "\<forall>f\<in>set fs. 1 \<le> fl_quantity f" "\<forall>f\<in>set gs. 1 \<le> fl_quantity f"
    using assms mset_eq_setD [OF assms(1)] by (auto simp: wf_fill_def)
  have same: "project_ledger fs m = project_ledger gs m" if "distinct (map fl_execution_id fs)"
    using canonical_unique [OF assms(1) that] by (simp add: project_ledger_def)
  have "distinct (map fl_execution_id fs) \<longleftrightarrow> distinct (map fl_execution_id gs)"
    using assms(1) by (metis mset_eq_imp_distinct_iff mset_map)
  then show ?thesis
    using same project_ledger_distinct [OF pos(1)] project_ledger_distinct [OF pos(2)] by metis
qed

section \<open>What the projection holds\<close>

lemma positions_loop_eq:
  "positions_loop lots q s = (if lots_of s lots = [] then q s
     else Some ((case q s of None \<Rightarrow> 0 | Some n \<Rightarrow> n) + shares (lots_of s lots)))"
  by (induction lots arbitrary: q) auto

lemma drop_shares_sorted:
  "sorted (map lot_opened_at ls) \<Longrightarrow> sorted (map lot_opened_at (drop_shares n ls))"
  by (induction ls arbitrary: n) auto

lemma bought_lots_sorted: "sorted (map lot_opened_at (bought_lots m s (canonical_fills fs)))"
proof -
  have "sorted (map fl_occurred_at (canonical_fills fs))"
  proof -
    have "sorted (map (\<lambda>f. (fl_occurred_at f, fl_execution_id f)) (canonical_fills fs))"
      by (simp add: canonical_fills_def)
    then show ?thesis
      by (auto simp: sorted_wrt_map less_eq_prod_def elim: sorted_wrt_mono_rel [rotated])
  qed
  then show ?thesis
    by (simp add: bought_lots_def o_def sorted_filter)
qed

lemma lots_of_final:
  assumes "books m (canonical_fills fs) st"
  shows "lots_of s (sort_key (\<lambda>lot. (lot_symbol lot, lot_opened_at lot)) (ls_lots st))
    = drop_shares (traded m SELL s fs) (bought_lots m s (canonical_fills fs))"
proof -
  let ?ls = "lots_of s (ls_lots st)"
  have eq: "?ls = drop_shares (traded m SELL s fs) (bought_lots m s (canonical_fills fs))"
    using assms by (simp add: books_def account_perm [OF mset_canonical])
  have "sorted (map lot_opened_at ?ls)" unfolding eq by (intro drop_shares_sorted bought_lots_sorted)
  moreover have "\<forall>l\<in>set ?ls. lot_symbol l = s" by (simp add: lots_of_def)
  ultimately have "sorted (map (\<lambda>lot. (lot_symbol lot, lot_opened_at lot)) ?ls)"
    by (auto simp: sorted_wrt_map less_eq_prod_def elim!: sorted_wrt_mono_rel [rotated])
  then have "sort_key (\<lambda>lot. (lot_symbol lot, lot_opened_at lot)) ?ls = ?ls"
    by (rule sort_key_id_if_sorted)
  then show ?thesis by (simp add: lots_of_def filter_sort eq [unfolded lots_of_def])
qed

text \<open>
  C2. A successful projection conserves shares and cash and is first-in
  first-out: the cash delta is the signed sum over the fills, every position is
  bought minus sold, no symbol is ever listed with a zero position, and the
  open lots of a symbol are its purchases in execution order with exactly the
  sold shares taken from the oldest.
\<close>

theorem project_ledger_conserves:
  assumes "project_ledger fs m = Inr p" and "\<forall>f\<in>set fs. wf_fill f"
  shows "cash_delta_cents p = net_cash m fs
    \<and> (\<forall>s. lots_of s (proj_lots p) =
          drop_shares (traded m SELL s fs) (bought_lots m s (canonical_fills fs)))
    \<and> (\<forall>s. positions p s = (let n = traded m BUY s fs - traded m SELL s fs
                           in if n = 0 then None else Some n))
    \<and> (\<forall>s. traded m SELL s fs \<le> traded m BUY s fs)
    \<and> list_all (\<lambda>l. 1 \<le> lot_quantity l) (proj_lots p)"
proof -
  have pos: "\<forall>f\<in>set fs. 1 \<le> fl_quantity f" using assms(2) by (auto simp: wf_fill_def)
  from project_ledger_cases [OF pos, of m] assms(1) obtain st
    where st: "books m (canonical_fills fs) st"
      and p: "p = \<lparr>cash_delta_cents = ls_cash st,
       proj_lots = sort_key (\<lambda>lot. (lot_symbol lot, lot_opened_at lot)) (ls_lots st)\<rparr>"
    by (auto split: if_splits)
  note perm = account_perm [OF mset_canonical]
  have lots: "lots_of s (proj_lots p)
      = drop_shares (traded m SELL s fs) (bought_lots m s (canonical_fills fs))" for s
    using lots_of_final [OF st] p by simp
  have le: "0 \<le> traded m SELL s fs" "traded m SELL s fs \<le> traded m BUY s fs" for s
    using st by (simp_all add: books_def perm)
  have all: "\<forall>l\<in>set (proj_lots p). 1 \<le> lot_quantity l" using st p by (simp add: books_def)
  have sh: "shares (lots_of s (proj_lots p)) = traded m BUY s fs - traded m SELL s fs" for s
    unfolding lots
    by (subst shares_drop [OF le(1) _ bought_positive]) (simp_all add: shares_bought perm le pos)
  have "lots_of s (proj_lots p) = [] \<longleftrightarrow> traded m BUY s fs = traded m SELL s fs" for s
    using sh [of s] all set_lots_of [of s "proj_lots p"]
    by (cases "lots_of s (proj_lots p) = []") (auto dest!: shares_pos)
  then have "positions p s = (let n = traded m BUY s fs - traded m SELL s fs
      in if n = 0 then None else Some n)" for s
    by (simp add: positions_def positions_loop_eq sh)
  then show ?thesis
    using st lots le all p by (simp add: books_cash [OF st] perm list_all_iff)
qed

text \<open>A worked ledger: two purchases of one order, then a sell that spans both lots.\<close>

definition sample_order :: "string \<Rightarrow> order_side \<Rightarrow> int \<Rightarrow> broker_order" where
  "sample_order oid side quantity =
     \<lparr>bo_broker_order_id = oid, bo_client_order_id = ''c-'' @ oid, bo_symbol = ''AAPL'', bo_side = side,
      bo_quantity = quantity, bo_filled_quantity = 0, bo_limit_price = 11000, bo_status = B_ACCEPTED,
      bo_submitted_at = 0, bo_updated_at = 0\<rparr>"

definition sample_orders :: "string \<rightharpoonup> broker_order" where
  "sample_orders = [''b1'' \<mapsto> sample_order ''b1'' BUY 10, ''s1'' \<mapsto> sample_order ''s1'' SELL 7]"

definition sample_fill :: "string \<Rightarrow> string \<Rightarrow> int \<Rightarrow> int \<Rightarrow> utc \<Rightarrow> fill" where
  "sample_fill e b q p t = \<lparr>fl_execution_id = e, fl_broker_order_id = b, fl_quantity = q, fl_price = p,
     fl_occurred_at = t\<rparr>"

definition sample_fills :: "fill list" where
  "sample_fills = [sample_fill ''e3'' ''s1'' 7 11000 30, sample_fill ''e2'' ''b1'' 4 10100 20,
     sample_fill ''e1'' ''b1'' 6 10000 20]"

lemma sample_wf: "\<forall>f\<in>set sample_fills. wf_fill f"
  by code_simp

lemma sample_projection:
  "project_ledger sample_fills sample_orders = Inr \<lparr>cash_delta_cents = -23400,
     proj_lots = [\<lparr>lot_symbol = ''AAPL'', lot_quantity = 3, lot_price = 10100, lot_opened_at = 20\<rparr>]\<rparr>"
  by code_simp

theorem project_ledger_order_independent_witness:
  "mset sample_fills = mset (rev sample_fills)
   \<and> project_ledger sample_fills sample_orders = project_ledger (rev sample_fills) sample_orders"
proof -
  have m: "mset sample_fills = mset (rev sample_fills)" by simp
  have "distinct (map fl_execution_id sample_fills)" by code_simp
  with m project_ledger_order_independent [OF m sample_wf, of sample_orders] show ?thesis by simp
qed

theorem project_ledger_conserves_witness:
  "net_cash sample_orders sample_fills = -23400
   \<and> traded sample_orders BUY ''AAPL'' sample_fills - traded sample_orders SELL ''AAPL'' sample_fills = 3
   \<and> positions \<lparr>cash_delta_cents = -23400,
        proj_lots = [\<lparr>lot_symbol = ''AAPL'', lot_quantity = 3, lot_price = 10100, lot_opened_at = 20\<rparr>]\<rparr>
      ''AAPL'' = Some 3"
proof -
  have "traded sample_orders BUY ''AAPL'' sample_fills - traded sample_orders SELL ''AAPL'' sample_fills = 3"
    by code_simp
  with project_ledger_conserves [OF sample_projection sample_wf] show ?thesis by simp
qed

text \<open>
  C24. The replay succeeds exactly when every fill, in canonical order, can be
  booked after the ones before it (new execution id, known order, cumulative
  quantity within the order, cash in range at a purchase, enough shares at a
  sale) and the final cash is in range. Otherwise it raises the ledger
  invariant error: it never clamps, skips or crashes in another way.
\<close>

theorem project_ledger_fails_closed:
  assumes "\<forall>f\<in>set fs. wf_fill f"
  shows "if replayable m [] (canonical_fills fs) \<and> \<bar>net_cash m fs\<bar> \<le> MAX_ABS_CENTS
    then \<exists>p. project_ledger fs m = Inr p
    else \<exists>msg. project_ledger fs m = Inl (LedgerInvariantError msg)"
  using project_ledger_cases [of fs m] assms
  by (auto simp: wf_fill_def account_perm(2) [OF mset_canonical] split: if_splits)

theorem project_ledger_fails_closed_witness:
  "\<not> replayable sample_orders [] (canonical_fills [sample_fill ''e3'' ''s1'' 7 11000 30])
   \<and> (\<exists>msg. project_ledger [sample_fill ''e3'' ''s1'' 7 11000 30] sample_orders
         = Inl (LedgerInvariantError msg))"
proof -
  have wf: "\<forall>f\<in>set [sample_fill ''e3'' ''s1'' 7 11000 30]. wf_fill f" by code_simp
  have "\<not> replayable sample_orders [] (canonical_fills [sample_fill ''e3'' ''s1'' 7 11000 30])"
    by code_simp
  with project_ledger_fails_closed [OF wf, of sample_orders] show ?thesis by simp
qed

end
