(* ===== verification/Unit_Of_Work.thy ===== *)
theory Unit_Of_Work
  imports Database Ledger
begin

text \<open>
  \<open>PostgresUnitOfWork\<close> and the repositories of \<open>infrastructure/postgres.py\<close>.

  The world holds the committed database, the view of the open transaction, the
  connection state and the oracles for everything the program does not decide:
  the clock, fresh identifiers, faults of the connection at any statement,
  commit or rollback, and pauses committed by other processes between our
  statements. A failed statement aborts the transaction, and a commit of an
  aborted transaction silently rolls back, as PostgreSQL does. The row lock on
  the control state, held from a locking read or a control write to the end of
  the transaction, keeps other processes' pauses out.

  Transactions are READ COMMITTED: a read sees the own writes over what is committed by
  then. The reconciler alone asks for REPEATABLE READ; its theory says what that changes.
  The other processes are narrower than in a deployment, where they may also resume
  entries and write rows of their own: the claims on a pause that stays and on tables
  nobody else writes are about operations during which they do not. The claims on entries
  that leave for the broker need no such reading, as an entry is submitted under the row
  lock.
\<close>

section \<open>The world\<close>

text \<open>
  A fault of one round trip: the statement fails, the connection is lost before or
  after the server acted, or a commit or rollback succeeds and the \<open>SET LOCAL TIME
  ZONE\<close> that follows it in the same call fails.
\<close>

datatype fault = NoFault | TransientFault | FaultAfter | LostBefore | LostAfter

text \<open>A submission that reached the broker, with the database committed at that moment.\<close>

datatype event = EvSubmit order_intent db

record 'b world =
  w_committed :: db
  w_working :: db
  w_aborted :: bool
  w_dead :: bool
  w_locked :: bool
  w_dirty :: bool
  w_tick :: nat
  w_faults :: "nat \<Rightarrow> fault"
  w_clock :: "nat \<Rightarrow> utc"
  w_uuids :: "nat \<Rightarrow> uuid"
  w_env :: "nat \<Rightarrow> string option"
  w_broker :: 'b
  w_trace :: "event list"

text \<open>Time passes; another process may commit a pause unless we hold the row.\<close>

definition env_step :: "'b world \<Rightarrow> 'b world" where
  "env_step w0 =
     (let w = w0\<lparr>w_tick := Suc (w_tick w0)\<rparr> in
      case w_env w (w_tick w) of
        None \<Rightarrow> w
      | Some r \<Rightarrow>
          if w_locked w then w
          else case sql_pause_entries (Some r) (w_clock w (w_tick w)) (w_committed w) of
                 Inl e \<Rightarrow> w
               | Inr (s, d) \<Rightarrow> w\<lparr>w_committed := d, w_working := (w_working w)\<lparr>db_control := s\<rparr>\<rparr>)"

definition lose_connection :: "'b world \<Rightarrow> 'b world" where
  "lose_connection w = w\<lparr>w_dead := True, w_working := w_committed w, w_locked := False\<rparr>"

definition statement :: "'a statement \<Rightarrow> ('b world, 'a) comp" where
  "statement f w0 =
     (let w = env_step w0 in
      if w_dead w \<or> w_aborted w then (Inl DatabaseError, w)
      else case w_faults w (w_tick w) of
             NoFault \<Rightarrow>
               (case f (w_clock w (w_tick w)) (w_working w) of
                  Inl e \<Rightarrow> (Inl e, w\<lparr>w_aborted := True\<rparr>)
                | Inr (a, d) \<Rightarrow> (Inr a, w\<lparr>w_working := d\<rparr>))
           | TransientFault \<Rightarrow> (Inl DatabaseError, w\<lparr>w_aborted := True\<rparr>)
           | FaultAfter \<Rightarrow> (Inl DatabaseError, w\<lparr>w_aborted := True\<rparr>)
           | _ \<Rightarrow> (Inl DatabaseError, lose_connection w))"

definition query :: "(db \<Rightarrow> 'a) \<Rightarrow> ('b world, 'a) comp" where
  "query g = statement (\<lambda>now d. Inr (g d, d))"

definition take_lock :: "('b world, unit) comp" where
  "take_lock = modifyM (\<lambda>w. w\<lparr>w_locked := True\<rparr>)"

definition mark_write :: "('b world, unit) comp" where
  "mark_write = modifyM (\<lambda>w. w\<lparr>w_dirty := True\<rparr>)"

text \<open>\<open>self._clock()\<close> and \<open>uuid4()\<close>.\<close>

definition read_clock :: "('b world, utc) comp" where
  "read_clock w = (Inr (w_clock w (Suc (w_tick w))), w\<lparr>w_tick := Suc (w_tick w)\<rparr>)"

definition fresh_uuid :: "('b world, uuid) comp" where
  "fresh_uuid w = (Inr (w_uuids w (Suc (w_tick w))), w\<lparr>w_tick := Suc (w_tick w)\<rparr>)"

section \<open>Unit of work\<close>

definition discard_work :: "'b world \<Rightarrow> 'b world" where
  "discard_work w = w\<lparr>w_working := w_committed w, w_aborted := False, w_locked := False, w_dirty := False\<rparr>"

definition uow_commit :: "('b world, unit) comp" where
  "uow_commit w0 =
     (let w = env_step w0 in
      if w_dead w then (Inl DatabaseError, w)
      else case w_faults w (w_tick w) of
             NoFault \<Rightarrow>
               if w_aborted w then (Inr (), discard_work w)
               else (Inr (), w\<lparr>w_committed := w_working w, w_locked := False, w_dirty := False\<rparr>)
           | TransientFault \<Rightarrow>
               (Inl DatabaseError, w\<lparr>w_working := w_committed w, w_aborted := False, w_locked := False\<rparr>)
           | FaultAfter \<Rightarrow>
               (Inl DatabaseError,
                (if w_aborted w then w\<lparr>w_working := w_committed w\<rparr> else w\<lparr>w_committed := w_working w\<rparr>)
                  \<lparr>w_aborted := True, w_locked := False\<rparr>)
           | LostBefore \<Rightarrow> (Inl DatabaseError, lose_connection w)
           | LostAfter \<Rightarrow>
               (Inl DatabaseError,
                lose_connection (if w_aborted w then w else w\<lparr>w_committed := w_working w\<rparr>)))"

definition uow_rollback :: "('b world, unit) comp" where
  "uow_rollback w0 =
     (let w = env_step w0 in
      if w_dead w then (Inl DatabaseError, w)
      else case w_faults w (w_tick w) of
             NoFault \<Rightarrow> (Inr (), discard_work w)
           | FaultAfter \<Rightarrow> (Inl DatabaseError, (discard_work w)\<lparr>w_aborted := True, w_dirty := w_dirty w\<rparr>)
           | _ \<Rightarrow> (Inl DatabaseError, lose_connection w))"

definition begin_reconciliation_snapshot :: "('b world, unit) comp" where
  "begin_reconciliation_snapshot =
     bindM (getsM w_dirty) (\<lambda>dirty.
       if dirty then raiseM UnitOfWorkStateError
       else bindM uow_rollback (\<lambda>_. query (\<lambda>d. ())))"

text \<open>Leaving the unit of work closes the connection; the next one opens another.\<close>

definition uow_close :: "'b world \<Rightarrow> 'b world" where
  "uow_close w = w\<lparr>w_working := w_committed w, w_aborted := False, w_dead := False, w_locked := False, w_dirty := False\<rparr>"

section \<open>Rows read back as domain objects\<close>

text \<open>\<open>_order_intent\<close>, \<open>_broker_order\<close>, \<open>_fill\<close>: every constructor validates again.\<close>

definition load_intent :: "order_intent \<Rightarrow> order_intent outcome" where
  "load_intent i =
     bindO (ClientOrderId (oi_client_order_id i)) (\<lambda>_.
     bindO (Symbol (oi_symbol i)) (\<lambda>_.
     bindO (OrderQuantity (oi_quantity i)) (\<lambda>_.
     bindO (Price (Dec (oi_limit_price i) (-2))) (\<lambda>_.
     bindO (Price (Dec (pc_reference (oi_collar i)) (-2))) (\<lambda>_.
     bindO (PriceCollar (pc_reference (oi_collar i)) (pc_offset_bps (oi_collar i))) (\<lambda>_.
     bindO (RunId (oi_run_id i)) (\<lambda>_.
     order_intent_post_init i)))))))"

definition load_broker_order :: "broker_row \<Rightarrow> broker_order outcome" where
  "load_broker_order r =
     (let b = broker_order_of_row r in
      bindO (ClientOrderId (bo_client_order_id b)) (\<lambda>_.
      bindO (Symbol (bo_symbol b)) (\<lambda>_.
      bindO (OrderQuantity (bo_quantity b)) (\<lambda>_.
      bindO (Price (Dec (bo_limit_price b) (-2))) (\<lambda>_.
      broker_order_post_init b)))))"

definition load_fill :: "fill \<Rightarrow> fill outcome" where
  "load_fill f =
     bindO (OrderQuantity (fl_quantity f)) (\<lambda>_.
     bindO (Price (Dec (fl_price f) (-2))) (\<lambda>_.
     fill_post_init f))"

definition optionO :: "('a \<Rightarrow> 'b outcome) \<Rightarrow> 'a option \<Rightarrow> 'b option outcome" where
  "optionO f x = (case x of None \<Rightarrow> Inr None | Some a \<Rightarrow> bindO (f a) (\<lambda>b. Inr (Some b)))"

section \<open>Order repository\<close>

definition orders_get :: "string \<Rightarrow> ('b world, order_intent option) comp" where
  "orders_get cid = bindM (query (find_intent cid)) (\<lambda>row. liftM (optionO load_intent row))"

definition orders_add :: "order_intent \<Rightarrow> ('b world, order_intent) comp" where
  "orders_add i =
     bindM (statement (sql_insert_intent i)) (\<lambda>row.
       case row of
         Some r \<Rightarrow> bindM mark_write (\<lambda>_. liftM (load_intent r))
       | None \<Rightarrow>
           bindM (orders_get (oi_client_order_id i)) (\<lambda>existing.
             case existing of
               None \<Rightarrow> raiseM PersistenceInvariantError
             | Some e \<Rightarrow> if oi_intent_id e \<noteq> oi_intent_id i then raiseM PersistenceInvariantError
                         else returnM e))"

definition list_by_status :: "order_status \<Rightarrow> ('b world, order_intent list) comp" where
  "list_by_status st = bindM (query (sql_intents_by_status st)) (\<lambda>rows. liftM (mapO load_intent rows))"

definition transition_status :: "string \<Rightarrow> order_status \<Rightarrow> ('b world, order_intent) comp" where
  "transition_status cid target =
     bindM (statement (sql_update_intent_status cid target)) (\<lambda>row.
       case row of
         None \<Rightarrow> raiseM PersistenceInvariantError
       | Some r \<Rightarrow> bindM mark_write (\<lambda>_. liftM (load_intent r)))"

definition same_identity :: "broker_order \<Rightarrow> broker_order \<Rightarrow> bool" where
  "same_identity e b \<longleftrightarrow> bo_client_order_id e = bo_client_order_id b \<and> bo_symbol e = bo_symbol b
     \<and> bo_side e = bo_side b \<and> bo_quantity e = bo_quantity b \<and> bo_limit_price e = bo_limit_price b
     \<and> bo_submitted_at e = bo_submitted_at b"

definition record_broker_order :: "broker_order \<Rightarrow> ('b world, broker_order) comp" where
  "record_broker_order b =
     bindM (statement (sql_insert_broker_order b)) (\<lambda>row.
       case row of
         Some r \<Rightarrow> bindM mark_write (\<lambda>_. liftM (load_broker_order r))
       | None \<Rightarrow>
           bindM (query (find_row_by_id (bo_broker_order_id b))) (\<lambda>by_id.
             case by_id of
               None \<Rightarrow>
                 bindM (query (find_row_by_client (bo_client_order_id b))) (\<lambda>by_client.
                   if by_client \<noteq> None then raiseM BrokerOrderIdentityConflictError
                   else raiseM PersistenceInvariantError)
             | Some r \<Rightarrow>
                 bindM (liftM (load_broker_order r)) (\<lambda>existing.
                   if \<not> same_identity existing b then raiseM BrokerOrderIdentityConflictError
                   else
                     bindM (statement (sql_update_broker_order (bo_broker_order_id b) (bo_status b)
                              (bo_filled_quantity b) (Some (bo_updated_at b)))) (\<lambda>updated.
                       case updated of
                         None \<Rightarrow> raiseM PersistenceInvariantError
                       | Some u \<Rightarrow> bindM mark_write (\<lambda>_. liftM (load_broker_order u))))))"

definition get_broker_order :: "string \<Rightarrow> ('b world, broker_order option) comp" where
  "get_broker_order cid =
     bindM (query (find_row_by_client cid)) (\<lambda>row. liftM (optionO load_broker_order row))"

definition get_broker_order_by_id :: "string \<Rightarrow> ('b world, broker_order option) comp" where
  "get_broker_order_by_id bid =
     bindM (query (find_row_by_id bid)) (\<lambda>row. liftM (optionO load_broker_order row))"

definition update_broker_order_status ::
  "string \<Rightarrow> broker_order_status \<Rightarrow> int \<Rightarrow> utc option \<Rightarrow> ('b world, broker_order) comp" where
  "update_broker_order_status bid st filled broker_observed_at =
     bindM (statement (sql_update_broker_order bid st filled broker_observed_at)) (\<lambda>row.
       case row of
         None \<Rightarrow> raiseM PersistenceInvariantError
       | Some r \<Rightarrow> bindM mark_write (\<lambda>_. liftM (load_broker_order r)))"

definition add_fill :: "fill \<Rightarrow> ('b world, bool) comp" where
  "add_fill f =
     bindM (statement (sql_insert_fill f)) (\<lambda>inserted.
       if inserted then bindM mark_write (\<lambda>_. returnM True) else returnM False)"

definition get_fill_by_execution_id :: "string \<Rightarrow> ('b world, fill option) comp" where
  "get_fill_by_execution_id eid =
     bindM (query (find_fill eid)) (\<lambda>row. liftM (optionO load_fill row))"

definition list_fills :: "string \<Rightarrow> ('b world, fill list) comp" where
  "list_fills bid =
     bindM (query (\<lambda>d. filter (\<lambda>f. fl_broker_order_id f = bid) (db_fills d)))
       (\<lambda>rows. liftM (mapO load_fill rows))"

definition row_key :: "broker_row \<Rightarrow> string" where
  "row_key r = bo_broker_order_id (br_order r)"

definition list_open_broker_orders :: "('b world, broker_order list) comp" where
  "list_open_broker_orders =
     bindM (query (\<lambda>d. sort_key row_key
              (filter (\<lambda>r. bo_status (br_order r) \<notin> {B_FILLED, B_CANCELED, B_EXPIRED, B_REJECTED})
                (db_broker_orders d))))
       (\<lambda>rows. liftM (mapO load_broker_order rows))"

definition list_all_broker_orders :: "('b world, broker_order list) comp" where
  "list_all_broker_orders =
     bindM (query (\<lambda>d. sort_key row_key (db_broker_orders d)))
       (\<lambda>rows. liftM (mapO load_broker_order rows))"

definition list_all_fills :: "('b world, fill list) comp" where
  "list_all_fills = bindM (query db_fills) (\<lambda>rows. liftM (mapO load_fill rows))"

section \<open>Reconciliation repository\<close>

definition reconciliations_add :: "reconciliation_result \<Rightarrow> ('b world, utc) comp" where
  "reconciliations_add r =
     bindM (statement (sql_insert_run r)) (\<lambda>recorded_at. bindM mark_write (\<lambda>_. returnM recorded_at))"

text \<open>The stored mismatches are read back through their constructors.\<close>

definition load_result :: "reconciliation_result \<Rightarrow> reconciliation_result outcome" where
  "load_result r =
     bindO (mapO (\<lambda>m. ReconciliationMismatch (rm_kind m) (rm_detail m)) (rr_mismatches r)) (\<lambda>_.
       if (rr_status r = CLEAN) = (rr_mismatches r \<noteq> []) then Inl PersistenceInvariantError
       else reconciliation_result_post_init r)"

definition reconciliations_latest :: "('b world, reconciliation_result option) comp" where
  "reconciliations_latest = bindM (query latest_run) (\<lambda>row. liftM (optionO load_result row))"

section \<open>Control repository\<close>

definition control_read :: "('b world, control_state) comp" where
  "control_read = bindM (query db_control) (\<lambda>s. liftM (control_state_post_init s))"

text \<open>
  \<open>submission_guard\<close>: lock the row, run the body of the \<open>with\<close> block on the
  snapshot, roll back and re-raise when it raises, commit when it returns.
\<close>

definition submission_guard :: "(control_state \<Rightarrow> ('b world, 'a) comp) \<Rightarrow> ('b world, 'a) comp" where
  "submission_guard body =
     bindM (query db_control) (\<lambda>s.
     bindM take_lock (\<lambda>_.
     bindM (catchM (bindM (liftM (control_state_post_init s)) body)
              (\<lambda>e. bindM uow_rollback (\<lambda>_. raiseM e))) (\<lambda>a.
     bindM uow_commit (\<lambda>_. returnM a))))"

definition bump_flatten_generation :: "('b world, int) comp" where
  "bump_flatten_generation =
     bindM (statement sql_bump_flatten_generation) (\<lambda>g.
     bindM take_lock (\<lambda>_. bindM mark_write (\<lambda>_. returnM g)))"

definition set_entries_paused :: "bool \<Rightarrow> string option \<Rightarrow> ('b world, control_state) comp" where
  "set_entries_paused paused reason =
     (if \<not> paused \<and> reason \<noteq> None then raiseM PersistenceInvariantError
      else
        bindM (statement (if paused then sql_pause_entries reason else sql_resume_entries)) (\<lambda>s.
        bindM take_lock (\<lambda>_.
        bindM mark_write (\<lambda>_. liftM (control_state_post_init s)))))"

definition add_command :: "control_command_record \<Rightarrow> ('b world, utc option) comp" where
  "add_command c =
     bindM (statement (sql_insert_command c)) (\<lambda>row.
       case row of
         Some r \<Rightarrow> bindM mark_write (\<lambda>_. returnM (cc_applied_at r))
       | None \<Rightarrow>
           bindM (query (\<lambda>d. find (\<lambda>r. cc_command_id r = cc_command_id c) (db_commands d))) (\<lambda>existing.
             case existing of
               None \<Rightarrow> raiseM PersistenceInvariantError
             | Some e \<Rightarrow>
                 if cc_command e \<noteq> cc_command c \<or> cc_reason e \<noteq> cc_reason c \<or> cc_actor e \<noteq> cc_actor c
                    \<or> cc_run_id e \<noteq> cc_run_id c
                 then raiseM PersistenceInvariantError
                 else returnM (cc_applied_at e)))"

text \<open>
  \<open>persist_safety_pause\<close>: a fresh connection that writes only the pause. It would
  wait for a row lock of the caller's own transaction and never get it; callers
  have rolled back before, and the model raises in that case.
\<close>

definition persist_safety_pause :: "string \<Rightarrow> ('b world, unit) comp" where
  "persist_safety_pause reason w0 =
     (let w = env_step w0 in
      if w_locked w \<or> w_faults w (w_tick w) \<noteq> NoFault then (Inl DatabaseError, w)
      else case bindM (set_entries_paused True (Some reason)) (\<lambda>_. uow_commit)
                  (w\<lparr>w_working := w_committed w, w_aborted := False, w_dead := False, w_locked := False,
                     w_dirty := False\<rparr>) of
             (r, v) \<Rightarrow>
               (r, v\<lparr>w_working := (w_working w)\<lparr>db_control := db_control (w_committed v)\<rparr>,
                     w_aborted := w_aborted w, w_dead := w_dead w, w_locked := False,
                     w_dirty := w_dirty w\<rparr>))"

section \<open>Account baseline repository\<close>

definition MAX_OPENING_CASH_CENTS :: int where "MAX_OPENING_CASH_CENTS = 100000000000"

definition validate_opening_cash_cents :: "int \<Rightarrow> unit outcome" where
  "validate_opening_cash_cents v = require (0 \<le> v \<and> v \<le> MAX_OPENING_CASH_CENTS)"

definition text_ok :: "nat \<Rightarrow> string \<Rightarrow> bool" where
  "text_ok n s \<longleftrightarrow> \<not> blank s \<and> length s \<le> n"

definition account_baseline_post_init :: "account_baseline \<Rightarrow> account_baseline outcome" where
  "account_baseline_post_init b =
     bindO (require (text_ok 100 (ab_account_id b))) (\<lambda>_.
     bindO (validate_opening_cash_cents (ab_opening_cash_cents b)) (\<lambda>_.
     bindO (require (case ab_cutoff_execution_id b of None \<Rightarrow> True | Some e \<Rightarrow> text_ok 100 e)) (\<lambda>_.
     bindO (require (case ab_reason b of None \<Rightarrow> True | Some r \<Rightarrow> text_ok 200 r)) (\<lambda>_.
     bindO (require (case ab_actor b of None \<Rightarrow> True | Some a \<Rightarrow> text_ok 100 a)) (\<lambda>_. Inr b)))))"

definition set_baseline :: "string \<Rightarrow> int \<Rightarrow> utc \<Rightarrow> ('b world, account_baseline) comp" where
  "set_baseline account_id opening_cash_cents effective_at =
     bindM (liftM (require (text_ok 100 account_id))) (\<lambda>_.
     bindM (liftM (validate_opening_cash_cents opening_cash_cents)) (\<lambda>_.
     bindM (query (\<lambda>d. db_fills d \<noteq> [])) (\<lambda>has_fills.
     if has_fills then raiseM ValueError
     else
       let b = \<lparr>ab_account_id = account_id, ab_opening_cash_cents = opening_cash_cents,
                ab_effective_at = effective_at, ab_created_at = 0, ab_updated_at = 0,
                ab_revision_id = None, ab_cutoff_occurred_at = None, ab_cutoff_execution_id = None,
                ab_reason = None, ab_actor = None\<rparr>
       in bindM (statement (sql_insert_baseline b)) (\<lambda>row.
          bindM fresh_uuid (\<lambda>rid.
          bindM (statement (sql_insert_revision (b\<lparr>ab_revision_id := Some rid,
                   ab_reason := Some ''genesis'', ab_actor := Some ''system''\<rparr>))) (\<lambda>_.
          bindM mark_write (\<lambda>_. liftM (account_baseline_post_init row))))))))"

definition add_revision ::
  "string \<Rightarrow> int \<Rightarrow> utc \<Rightarrow> utc option \<Rightarrow> string option \<Rightarrow> string \<Rightarrow> string \<Rightarrow>
   ('b world, account_baseline) comp" where
  "add_revision account_id opening_cash_cents effective_at cutoff_occurred_at cutoff_execution_id
     reason actor =
     bindM (liftM (require (text_ok 100 account_id))) (\<lambda>_.
     bindM (liftM (validate_opening_cash_cents opening_cash_cents)) (\<lambda>_.
     bindM (liftM (require (case cutoff_execution_id of None \<Rightarrow> True | Some e \<Rightarrow> text_ok 100 e))) (\<lambda>_.
     bindM (liftM (require (text_ok 200 reason))) (\<lambda>_.
     bindM (liftM (require (text_ok 100 actor))) (\<lambda>_.
     bindM (liftM (require ((cutoff_occurred_at = None) = (cutoff_execution_id = None)))) (\<lambda>_.
     bindM (query (\<lambda>d. db_fills d \<noteq> [])) (\<lambda>has_fills.
     if has_fills \<and> cutoff_occurred_at = None then raiseM ValueError
     else
       bindM (case (cutoff_occurred_at, cutoff_execution_id) of
                (Some at, Some e) \<Rightarrow>
                  bindM (query (\<lambda>d. list_ex (\<lambda>f. fl_execution_id f = e \<and> fl_occurred_at f = at) (db_fills d)))
                    (\<lambda>found. if found then returnM () else raiseM ValueError)
              | _ \<Rightarrow> returnM ()) (\<lambda>_.
       bindM fresh_uuid (\<lambda>rid.
       bindM (statement (sql_insert_revision
                \<lparr>ab_account_id = account_id, ab_opening_cash_cents = opening_cash_cents,
                 ab_effective_at = effective_at, ab_created_at = 0, ab_updated_at = 0,
                 ab_revision_id = Some rid, ab_cutoff_occurred_at = cutoff_occurred_at,
                 ab_cutoff_execution_id = cutoff_execution_id, ab_reason = Some reason,
                 ab_actor = Some actor\<rparr>)) (\<lambda>row.
       bindM mark_write (\<lambda>_. liftM (account_baseline_post_init row)))))))))))) "

definition latest_revision :: "string \<Rightarrow> db \<Rightarrow> account_baseline option" where
  "latest_revision account_id d =
     (case filter (\<lambda>b. ab_account_id b = account_id) (db_revisions d) of
        [] \<Rightarrow> None
      | bs \<Rightarrow> Some (last (sort_key (\<lambda>b. (ab_effective_at b, ab_created_at b)) bs)))"

definition get_baseline :: "string \<Rightarrow> ('b world, account_baseline option) comp" where
  "get_baseline account_id =
     bindM (liftM (require (\<not> blank account_id))) (\<lambda>_.
     bindM (query (latest_revision account_id)) (\<lambda>row.
       case row of
         Some b \<Rightarrow> liftM (optionO account_baseline_post_init (Some b))
       | None \<Rightarrow>
           bindM (query (\<lambda>d. find (\<lambda>b. ab_account_id b = account_id) (db_baselines d))) (\<lambda>genesis.
             liftM (optionO account_baseline_post_init genesis))))"

definition list_baselines :: "('b world, account_baseline list) comp" where
  "list_baselines =
     bindM (query (\<lambda>d. List.map_filter (\<lambda>a. latest_revision a d)
              (sort (remdups (map ab_account_id (db_revisions d)))))) (\<lambda>rows.
       if rows \<noteq> [] then liftM (mapO account_baseline_post_init rows)
       else bindM (query (\<lambda>d. sort_key ab_account_id (db_baselines d))) (\<lambda>rows.
         liftM (mapO account_baseline_post_init rows)))"

section \<open>What every store operation keeps\<close>

text \<open>
  \<open>tracks D\<close>: the open transaction stays a \<open>D\<close>-successor of the committed database,
  the committed database only moves along \<open>D\<close>, neither the broker nor the trace is
  touched, time does not run backwards, and a connection without faults stays up. The locale derives it for every statement, commit and
  rollback from what \<open>D\<close> says of single statements.
\<close>

definition alive :: "'b world \<Rightarrow> bool" where
  "alive w \<longleftrightarrow> \<not> w_dead w \<and> (\<forall>n. w_faults w n = NoFault)"

definition tracks :: "(db \<Rightarrow> db \<Rightarrow> bool) \<Rightarrow> 'b world \<Rightarrow> 'b world \<Rightarrow> bool" where
  "tracks D w w' \<longleftrightarrow> (D (w_committed w) (w_working w) \<longrightarrow>
     D (w_committed w') (w_working w') \<and> D (w_committed w) (w_committed w'))
     \<and> w_trace w' = w_trace w \<and> w_broker w' = w_broker w
     \<and> w_clock w' = w_clock w \<and> w_tick w \<le> w_tick w' \<and> (alive w \<longrightarrow> alive w')"

lemma alive_env_step [simp]: "alive (env_step w) = alive w"
  by (simp add: alive_def env_step_def Let_def split: option.split sum.split)

lemma alive_update [simp]:
  "alive (w\<lparr>w_committed := d\<rparr>) = alive w" "alive (w\<lparr>w_working := d\<rparr>) = alive w" "alive (w\<lparr>w_aborted := b\<rparr>) = alive w"
  "alive (w\<lparr>w_locked := b\<rparr>) = alive w" "alive (w\<lparr>w_dirty := b\<rparr>) = alive w" "alive (w\<lparr>w_tick := n\<rparr>) = alive w"
  by (simp_all add: alive_def)

lemma alive_faults: "alive w \<Longrightarrow> w_faults w n = NoFault" "alive w \<Longrightarrow> \<not> w_dead w"
  by (simp_all add: alive_def)

lemma alive_lost [dest]:
  "w_faults w n = LostBefore \<Longrightarrow> \<not> alive w" "w_faults w n = LostAfter \<Longrightarrow> \<not> alive w"
  "w_faults w n = TransientFault \<Longrightarrow> \<not> alive w"
  by (auto simp: alive_def)

lemma alive_revive: "alive (w\<lparr>w_dead := b\<rparr>) \<longleftrightarrow> \<not> b \<and> (\<forall>n. w_faults w n = NoFault)"
  by (simp add: alive_def)

lemma sql_pause_db: "sql_pause_entries r now d = Inr (s, d') \<Longrightarrow>
    d' = d\<lparr>db_control := s\<rparr> \<and> cs_entries_paused s \<and> cs_flatten_generation s = cs_flatten_generation (db_control d)"
  by (auto simp: sql_pause_entries_def Let_def split: option.splits if_splits)

locale db_frame =
  fixes D :: "db \<Rightarrow> db \<Rightarrow> bool"
  assumes d_refl: "D d d"
    and d_trans: "D c d \<Longrightarrow> D d e \<Longrightarrow> D c e"
    and d_pause: "sql_pause_entries r now c = Inr (s, c') \<Longrightarrow> D c c'"
    and d_control: "cs_entries_paused s \<Longrightarrow> D c d \<Longrightarrow> D (c\<lparr>db_control := s\<rparr>) (d\<lparr>db_control := s\<rparr>)"
begin

sublocale tf: effect_frame "tracks D"
  by unfold_locales (auto simp: tracks_def d_refl intro: d_trans)

lemma tracks_env_step: "tracks D w (env_step w)"
proof -
  have "tracks D w (w\<lparr>w_tick := Suc (w_tick w), w_committed := c', w_working := (w_working w)\<lparr>db_control := s\<rparr>\<rparr>)"
    if "sql_pause_entries r now (w_committed w) = Inr (s, c')" for r now s c'
    using d_pause [OF that] sql_pause_db [OF that] d_control [of s "w_committed w"] by (simp add: tracks_def)
  moreover have "tracks D w (w\<lparr>w_tick := Suc (w_tick w)\<rparr>)" by (simp add: tracks_def d_refl)
  ultimately show ?thesis by (auto simp: env_step_def Let_def split: option.splits sum.splits)
qed

lemma tracks_lost: "\<not> alive w \<Longrightarrow> tracks D w (lose_connection w)"
  by (simp add: tracks_def d_refl lose_connection_def)

lemma tracks_statement:
  assumes "\<And>now d a d'. f now d = Inr (a, d') \<Longrightarrow> D d d'"
  shows "keeps (tracks D) (statement f)"
  unfolding keeps_def
proof
  fix w0 :: "'c world"
  define w where "w = env_step w0"
  have "tracks D w (w\<lparr>w_working := d'\<rparr>)" if "f now (w_working w) = Inr (a, d')" for now a d'
    using assms [OF that] by (auto simp: tracks_def d_refl intro: d_trans)
  moreover have "tracks D w (w\<lparr>w_aborted := True\<rparr>)"
    by (simp add: tracks_def d_refl)
  ultimately have "tracks D w (snd (statement f w0))"
    using tf.frame_refl [of w]
    by (auto intro!: tracks_lost simp: statement_def Let_def w_def [symmetric] split: fault.splits sum.splits)
  then show "tracks D w0 (snd (statement f w0))"
    using tracks_env_step [of w0] tf.frame_trans unfolding w_def by blast
qed

lemma tracks_query: "keeps (tracks D) (query g)"
  unfolding query_def by (rule tracks_statement) (simp add: d_refl)

lemma tracks_flags:
  "keeps (tracks D) take_lock" "keeps (tracks D) mark_write"
  "keeps (tracks D) read_clock" "keeps (tracks D) fresh_uuid"
  by (simp_all add: keeps_def take_lock_def mark_write_def read_clock_def fresh_uuid_def run_simps
      tracks_def d_refl)

lemma tracks_end_states:
  "tracks D (env_step w) (snd (uow_commit w))" "tracks D (env_step w) (snd (uow_rollback w))"
  using alive_lost [of "env_step w" "w_tick (env_step w)"]
  by (auto simp: uow_commit_def uow_rollback_def Let_def discard_work_def lose_connection_def tracks_def d_refl
      split: fault.splits)

lemma tracks_ends: "keeps (tracks D) uow_commit" "keeps (tracks D) uow_rollback"
  unfolding keeps_def
  by (rule allI, rule tf.frame_trans [OF tracks_env_step], rule tracks_end_states)+

lemmas tracks_rules = tracks_query tracks_flags tracks_ends tf.keeps_rules

lemma tracks_reads:
  "keeps (tracks D) (orders_get cid)" "keeps (tracks D) (list_by_status st)"
  "keeps (tracks D) (get_broker_order cid)" "keeps (tracks D) (get_broker_order_by_id bid)"
  "keeps (tracks D) (get_fill_by_execution_id eid)" "keeps (tracks D) (list_fills bid)"
  "keeps (tracks D) list_open_broker_orders" "keeps (tracks D) list_all_broker_orders"
  "keeps (tracks D) list_all_fills" "keeps (tracks D) reconciliations_latest"
  "keeps (tracks D) control_read" "keeps (tracks D) begin_reconciliation_snapshot"
  "keeps (tracks D) (get_baseline acc)" "keeps (tracks D) list_baselines"
  unfolding orders_get_def list_by_status_def get_broker_order_def get_broker_order_by_id_def
    get_fill_by_execution_id_def list_fills_def list_open_broker_orders_def list_all_broker_orders_def
    list_all_fills_def reconciliations_latest_def control_read_def begin_reconciliation_snapshot_def
    get_baseline_def list_baselines_def
  by (intro tracks_rules)+

lemma tracks_pause: "keeps (tracks D) (set_entries_paused True r)"
  unfolding set_entries_paused_def by (simp, intro tracks_rules tracks_statement, erule d_pause)

end

text \<open>The relation of the durable rows.\<close>

definition evolving :: "'b world \<Rightarrow> 'b world \<Rightarrow> bool" where
  "evolving w w' \<longleftrightarrow> (evolves (w_committed w) (w_working w) \<longrightarrow>
     evolves (w_committed w') (w_working w') \<and> evolves (w_committed w) (w_committed w'))"

abbreviation store_frame :: "'b world \<Rightarrow> 'b world \<Rightarrow> bool" where
  "store_frame \<equiv> tracks evolves"

lemma store_frame_def:
  "store_frame w w' \<longleftrightarrow> evolving w w' \<and> w_trace w' = w_trace w \<and> w_broker w' = w_broker w
     \<and> w_clock w' = w_clock w \<and> w_tick w \<le> w_tick w' \<and> (alive w \<longrightarrow> alive w')"
  by (simp add: tracks_def evolving_def)

interpretation ev: effect_frame evolving
  by unfold_locales (auto simp: evolving_def intro: evolves_trans)

lemma evolves_control: "evolves c d \<Longrightarrow> evolves (c\<lparr>db_control := s\<rparr>) (d\<lparr>db_control := s\<rparr>)"
  by (simp add: evolves_def find_intent_def find_row_by_id_def)

interpretation sf: db_frame evolves
  by unfold_locales (auto intro: evolves_trans pause_evolves evolves_control)

named_theorems store_intros "store operations keep the store frame"

lemmas env_step_frame = sf.tracks_env_step

lemmas store_basic [store_intros] = sf.tracks_statement sf.tracks_query sf.tracks_flags sf.tracks_ends
  sf.tracks_reads

lemma store_writes [store_intros]:
  "keeps store_frame (transition_status cid st)"
  "keeps store_frame (update_broker_order_status bid bst q t)"
  "keeps store_frame (add_fill f)"
  "keeps store_frame (reconciliations_add r)"
  "keeps store_frame bump_flatten_generation"
  "keeps store_frame (add_command c)"
  unfolding transition_status_def update_broker_order_status_def add_fill_def reconciliations_add_def bump_flatten_generation_def add_command_def
  by (intro store_intros sf.tf.keeps_rules; erule evolve_intros)+

lemma store_add [store_intros]: "keeps store_frame (orders_add i)"
  unfolding orders_add_def by (intro store_intros sf.tf.keeps_rules; erule evolve_intros)

lemma store_record [store_intros]: "keeps store_frame (record_broker_order b)"
  unfolding record_broker_order_def by (intro store_intros sf.tf.keeps_rules; erule evolve_intros)

lemma store_pause [store_intros]: "keeps store_frame (set_entries_paused p r)"
  unfolding set_entries_paused_def
  by (intro store_intros sf.tf.keeps_rules) (auto split: if_splits intro: evolve_intros)

lemma store_guard [store_intros]:
  "(\<And>s. keeps store_frame (body s)) \<Longrightarrow> keeps store_frame (submission_guard body)"
  unfolding submission_guard_def by (intro store_intros sf.tf.keeps_rules)

lemma store_baseline_writes [store_intros]:
  "keeps store_frame (set_baseline acc cash at)"
  "keeps store_frame (add_revision acc cash at cat cid reason actor)"
  unfolding set_baseline_def add_revision_def
  by (intro store_intros sf.tf.keeps_rules; erule evolve_intros)+

text \<open>A pause touches nothing but the control row.\<close>

definition control_only :: "db \<Rightarrow> db \<Rightarrow> bool" where
  "control_only d d' \<longleftrightarrow> (\<exists>s. d' = d\<lparr>db_control := s\<rparr>)"

lemma control_only_simps [simp]: "control_only d d" "control_only d (d\<lparr>db_control := s\<rparr>)"
  by (auto simp: control_only_def intro: exI [of _ "db_control d"])

lemma control_only_trans: "control_only c d \<Longrightarrow> control_only d e \<Longrightarrow> control_only c e"
  by (auto simp: control_only_def)

lemma control_only_update:
  "control_only c d \<Longrightarrow> control_only c (d\<lparr>db_control := t\<rparr>)"
  "control_only c d \<Longrightarrow> control_only (c\<lparr>db_control := s\<rparr>) (d\<lparr>db_control := t\<rparr>)"
  by (auto simp: control_only_def intro: exI [of _ t])

interpretation cf: db_frame control_only
  by unfold_locales (auto intro: control_only_trans control_only_update dest: sql_pause_db)

lemma store_safety_pause [store_intros]: "keeps store_frame (persist_safety_pause reason)"
  unfolding keeps_def
proof
  fix w0 :: "'c world"
  define w where "w = env_step w0"
  define u where "u = w\<lparr>w_working := w_committed w, w_aborted := False, w_dead := False,
    w_locked := False, w_dirty := False\<rparr>"
  define m where "m = bindM (set_entries_paused True (Some reason)) (\<lambda>_. uow_commit :: ('c world, unit) comp)"
  define v where "v = snd (m u)"
  have "keeps store_frame m" "keeps (tracks control_only) m"
    unfolding m_def by (intro store_intros sf.tf.keeps_rules cf.tracks_rules cf.tracks_pause)+
  then have sf: "store_frame u v" and "tracks control_only u v" by (simp_all add: keeps_def v_def)
  then obtain s where s: "w_committed v = (w_committed w)\<lparr>db_control := s\<rparr>"
    by (auto simp: tracks_def u_def control_only_def)
  have "store_frame w (v\<lparr>w_working := (w_working w)\<lparr>db_control := db_control (w_committed v)\<rparr>,
      w_aborted := w_aborted w, w_dead := w_dead w, w_locked := False, w_dirty := w_dirty w\<rparr>)"
    using sf by (auto simp: store_frame_def evolving_def u_def s evolves_control alive_revive alive_faults)
  then have "store_frame w (snd (persist_safety_pause reason w0))"
    using sf.tf.frame_refl [of w]
    by (simp add: persist_safety_pause_def Let_def w_def [symmetric] u_def [symmetric] m_def [symmetric]
        v_def case_prod_beta)
  then show "store_frame w0 (snd (persist_safety_pause reason w0))"
    using env_step_frame [of w0] sf.tf.frame_trans unfolding w_def by blast
qed

section \<open>Settled transactions\<close>

text \<open>Nothing uncommitted: the view of the open transaction is the committed database.\<close>

definition settled :: "'b world \<Rightarrow> bool" where
  "settled w \<longleftrightarrow> w_working w = w_committed w \<and> \<not> w_aborted w \<and> \<not> w_locked w"

lemma uow_close_simps [simp]:
  "settled (uow_close w)" "w_trace (uow_close w) = w_trace w" "w_committed (uow_close w) = w_committed w"
  "w_broker (uow_close w) = w_broker w" "w_working (uow_close w) = w_committed w"
  by (simp_all add: uow_close_def settled_def)

text \<open>Statements, commits and rollbacks that return, whatever the faults.\<close>

abbreviation returns :: "('s \<Rightarrow> bool) \<Rightarrow> ('s, 'a) comp \<Rightarrow> ('a \<Rightarrow> 's \<Rightarrow> bool) \<Rightarrow> bool" where
  "returns P m Q \<equiv> triple P m Q (\<lambda>_ _. True)"

lemma env_step_world [simp]:
  "w_aborted (env_step w) = w_aborted w" "w_dead (env_step w) = w_dead w"
  "w_locked (env_step w) = w_locked w" "w_dirty (env_step w) = w_dirty w"
  "w_broker (env_step w) = w_broker w" "w_trace (env_step w) = w_trace w"
  "w_tick (env_step w) = Suc (w_tick w)"
  by (simp_all add: env_step_def Let_def split: option.split sum.split)

lemma env_step_tables [simp]:
  "db_intents (w_committed (env_step w)) = db_intents (w_committed w)"
  "db_intents (w_working (env_step w)) = db_intents (w_working w)"
  "db_broker_orders (w_committed (env_step w)) = db_broker_orders (w_committed w)"
  "db_broker_orders (w_working (env_step w)) = db_broker_orders (w_working w)"
  "db_fills (w_committed (env_step w)) = db_fills (w_committed w)"
  "db_fills (w_working (env_step w)) = db_fills (w_working w)"
  "db_runs (w_working (env_step w)) = db_runs (w_working w)"
  by (auto simp: env_step_def Let_def dest!: sql_pause_db split: option.split sum.split)

lemma env_step_paused:
  "cs_entries_paused (db_control (w_committed w)) \<Longrightarrow> cs_entries_paused (db_control (w_committed (env_step w)))"
  "cs_entries_paused (db_control (w_working w)) \<Longrightarrow> cs_entries_paused (db_control (w_working (env_step w)))"
  by (auto simp: env_step_def Let_def dest!: sql_pause_db split: option.split sum.split)

lemma env_step_locked [simp]:
  "w_locked w \<Longrightarrow> w_committed (env_step w) = w_committed w"
  "w_locked w \<Longrightarrow> w_working (env_step w) = w_working w"
  by (auto simp: env_step_def Let_def split: option.split)

lemma env_step_settled: "w_working w = w_committed w \<Longrightarrow> w_working (env_step w) = w_committed (env_step w)"
  by (auto simp: env_step_def Let_def dest!: sql_pause_db split: option.split sum.split)

lemma find_env_step [simp]:
  "find_intent c (w_committed (env_step w)) = find_intent c (w_committed w)"
  "find_intent c (w_working (env_step w)) = find_intent c (w_working w)"
  by (simp_all add: find_intent_def)

lemma ret_statement:
  assumes "\<And>w now a d. P w \<Longrightarrow> \<not> w_aborted w \<Longrightarrow> f now (w_working (env_step w)) = Inr (a, d) \<Longrightarrow>
    Q a ((env_step w)\<lparr>w_working := d\<rparr>)"
  shows "returns P (statement f) Q"
  using assms by (auto simp: triple_def statement_def Let_def split: fault.split sum.split)

lemma ret_query:
  assumes "\<And>w. P w \<Longrightarrow> \<not> w_aborted w \<Longrightarrow> Q (g (w_working (env_step w))) (env_step w)"
  shows "returns P (query g) Q"
  unfolding query_def using assms by (intro ret_statement) auto

lemma ret_commit:
  assumes "\<And>w v. P w \<Longrightarrow> settled v \<Longrightarrow> w_trace v = w_trace w \<Longrightarrow> w_broker v = w_broker w \<Longrightarrow>
    (\<not> w_aborted w \<Longrightarrow> w_committed v = w_working (env_step w)) \<Longrightarrow> Q () v"
  shows "returns P uow_commit Q"
  using assms by (fastforce simp: triple_def uow_commit_def Let_def settled_def discard_work_def
      split: fault.split)

lemma ret_rollback:
  assumes "\<And>w v. P w \<Longrightarrow> settled v \<Longrightarrow> w_trace v = w_trace w \<Longrightarrow> w_committed v = w_committed (env_step w) \<Longrightarrow>
    Q () v"
  shows "returns P uow_rollback Q"
  using assms by (fastforce simp: triple_def uow_rollback_def Let_def settled_def discard_work_def
      split: fault.split)

lemma load_intent_eq: "load_intent i = Inr j \<Longrightarrow> j = i"
  by (auto simp: load_intent_def order_intent_post_init_def bindO_eq_Inr)

lemma load_broker_order_eq: "load_broker_order r = Inr b \<Longrightarrow> b = broker_order_of_row r"
  by (auto simp: load_broker_order_def broker_order_post_init_def bindO_eq_Inr Let_def)

lemma load_fill_eq: "load_fill f = Inr g \<Longrightarrow> g = f"
  by (auto simp: load_fill_def fill_post_init_def bindO_eq_Inr)

lemma optionO_eq: "(\<And>x y. f x = Inr y \<Longrightarrow> y = g x) \<Longrightarrow> optionO f x = Inr y \<Longrightarrow> y = map_option g x"
  by (cases x) (auto simp: optionO_def bindO_eq_Inr)

lemma ret_lift: "(\<And>w a. P w \<Longrightarrow> r = Inr a \<Longrightarrow> Q a w) \<Longrightarrow> returns P (liftM r) Q"
  by (auto simp: triple_def run_simps split: sum.split)

lemma ret_orders_get:
  assumes "\<And>w. P w \<Longrightarrow> \<not> w_aborted w \<Longrightarrow> Q (find_intent cid (w_working w)) (env_step w)"
  shows "returns P (orders_get cid) Q"
  unfolding orders_get_def
proof (rule triple_bind)
  show "returns P (query (find_intent cid)) (\<lambda>row v. \<exists>w. P w \<and> \<not> w_aborted w \<and> v = env_step w
      \<and> row = find_intent cid (w_working w))"
    by (rule ret_query) auto
next
  fix row
  show "returns (\<lambda>v. \<exists>w. P w \<and> \<not> w_aborted w \<and> v = env_step w \<and> row = find_intent cid (w_working w))
      (liftM (optionO load_intent row)) Q"
  proof (rule ret_lift)
    fix v a
    assume "\<exists>w. P w \<and> \<not> w_aborted w \<and> v = env_step w \<and> row = find_intent cid (w_working w)"
      and "optionO load_intent row = Inr a"
    moreover from this(2) have "a = row"
      using optionO_eq [of load_intent "\<lambda>x. x" row a] load_intent_eq by (simp add: option.map_ident)
    ultimately show "Q a v" using assms by auto
  qed
qed

lemma ret_read:
  assumes "\<And>x y. load x = Inr y \<Longrightarrow> y = h x"
    and "\<And>w. P w \<Longrightarrow> \<not> w_aborted w \<Longrightarrow> Q (map_option h (g (w_working (env_step w)))) (env_step w)"
  shows "returns P (bindM (query g) (\<lambda>row. liftM (optionO load row))) Q"
proof (rule triple_bind)
  let ?R = "\<lambda>row v. \<exists>w. P w \<and> \<not> w_aborted w \<and> v = env_step w \<and> row = g (w_working (env_step w))"
  show "returns P (query g) ?R" by (rule ret_query) auto
  show "returns (?R row) (liftM (optionO load row)) Q" for row
  proof (rule ret_lift)
    fix v a
    assume "?R row v" and "optionO load row = Inr a"
    moreover from this(2) have "a = map_option h row" using optionO_eq [of load h row a] assms(1) by blast
    ultimately show "Q a v" using assms(2) by auto
  qed
qed

lemma find_row_env_step [simp]:
  "find_row_by_id b (w_committed (env_step w)) = find_row_by_id b (w_committed w)"
  "find_row_by_id b (w_working (env_step w)) = find_row_by_id b (w_working w)"
  "find_row_by_client c (w_working (env_step w)) = find_row_by_client c (w_working w)"
  "find_fill e (w_committed (env_step w)) = find_fill e (w_committed w)"
  "find_fill e (w_working (env_step w)) = find_fill e (w_working w)"
  by (simp_all add: find_row_by_id_def find_row_by_client_def find_fill_def)

lemma ret_mirror_by_id:
  "(\<And>w. P w \<Longrightarrow> \<not> w_aborted w \<Longrightarrow>
     Q (map_option broker_order_of_row (find_row_by_id bid (w_working w))) (env_step w)) \<Longrightarrow>
   returns P (get_broker_order_by_id bid) Q"
  unfolding get_broker_order_by_id_def by (rule ret_read [OF load_broker_order_eq]) auto

lemma ret_mirror:
  "(\<And>w. P w \<Longrightarrow> \<not> w_aborted w \<Longrightarrow>
     Q (map_option broker_order_of_row (find_row_by_client cid (w_working w))) (env_step w)) \<Longrightarrow>
   returns P (get_broker_order cid) Q"
  unfolding get_broker_order_def by (rule ret_read [OF load_broker_order_eq]) auto

lemma ret_fill:
  "(\<And>w. P w \<Longrightarrow> \<not> w_aborted w \<Longrightarrow> Q (find_fill eid (w_working w)) (env_step w)) \<Longrightarrow>
   returns P (get_fill_by_execution_id eid) Q"
  unfolding get_fill_by_execution_id_def
  by (rule ret_read [where h = "\<lambda>x. x"]) (auto dest: load_fill_eq simp: option.map_ident)

end
