(* ===== verification/Broker_Port.thy ===== *)
theory Broker_Port
  imports Unit_Of_Work
begin

text \<open>
  \<open>application/ports/broker.py\<close>: the values of the Paper broker port and the port
  itself. A broker is a record of its operations on a state of its own; each
  may return or raise, and may change that state even when it raises (an order
  accepted behind a timeout). The engine, the reconciler and the control plane
  take such a record as an argument, so their theorems hold for every broker;
  what the documentation of the port promises is the locale \<open>paper_port\<close>.
\<close>

section \<open>Values of the port\<close>

datatype broker_environment = PAPER

datatype rejection_reason =
    INSUFFICIENT_CASH | SYMBOL_NOT_TRADEABLE | OUTSIDE_TRADING_WINDOW | ORDER_PARAMETERS_REJECTED

datatype asset_class = US_EQUITY | US_OPTION | CRYPTO | FUTURE
datatype asset_status = ACTIVE | INACTIVE

record paper_asset =
  pa_symbol :: string
  pa_asset_class :: asset_class
  pa_status :: asset_status
  pa_tradable :: bool
  pa_exchange :: string

definition paper_asset_post_init :: "paper_asset \<Rightarrow> paper_asset outcome" where
  "paper_asset_post_init a = bindO (require (bounded_text 20 (pa_exchange a))) (\<lambda>_. Inr a)"

record paper_account =
  ac_account_id :: string
  ac_environment :: broker_environment
  ac_cash :: int
  ac_equity :: int
  ac_buying_power :: int

definition paper_account_post_init :: "paper_account \<Rightarrow> paper_account outcome" where
  "paper_account_post_init a =
     bindO (require (\<not> blank (ac_account_id a) \<and> length (ac_account_id a) \<le> 100)) (\<lambda>_.
     bindO (require (ac_environment a = PAPER)) (\<lambda>_. Inr a))"

record paper_position =
  pp_symbol :: string
  pp_quantity :: int
  pp_average_entry_price :: int

definition paper_position_post_init :: "paper_position \<Rightarrow> paper_position outcome" where
  "paper_position_post_init p = bindO (require (pp_quantity p \<ge> 1)) (\<lambda>_. Inr p)"

datatype submit_result = SubmitAccepted broker_order | SubmitRejected rejection_reason

text \<open>The gate the engine and the control plane share: an active, tradable US equity.\<close>

definition asset_tradable :: "paper_asset option \<Rightarrow> bool" where
  "asset_tradable asset \<longleftrightarrow> (case asset of None \<Rightarrow> False
     | Some a \<Rightarrow> pa_status a = ACTIVE \<and> pa_tradable a \<and> pa_asset_class a = US_EQUITY)"

section \<open>The port\<close>

record 'b broker_ops =
  op_account :: "('b, paper_account) comp"
  op_submit_order :: "order_intent \<Rightarrow> ('b, submit_result) comp"
  op_get_order :: "string \<Rightarrow> ('b, broker_order option) comp"
  op_list_recent_orders :: "utc \<Rightarrow> ('b, broker_order list) comp"
  op_list_open_orders :: "('b, broker_order list) comp"
  op_list_positions :: "('b, paper_position list) comp"
  op_list_fills :: "string \<Rightarrow> ('b, fill list) comp"
  op_get_asset :: "string \<Rightarrow> ('b, paper_asset option) comp"
  op_cancel_order :: "string \<Rightarrow> ('b, bool) comp"

text \<open>A call to the broker from the program: other processes may act meanwhile.\<close>

definition broker_call :: "('b, 'a) comp \<Rightarrow> ('b world, 'a) comp" where
  "broker_call op w0 = (let w = env_step w0 in case op (w_broker w) of (r, b) \<Rightarrow> (r, w\<lparr>w_broker := b\<rparr>))"

definition note_submission :: "order_intent \<Rightarrow> ('b world, unit) comp" where
  "note_submission i = modifyM (\<lambda>w. w\<lparr>w_trace := w_trace w @ [EvSubmit i (w_committed w)]\<rparr>)"

text \<open>A submission is recorded in the trace with the database committed when it left.\<close>

definition broker_submit :: "'b broker_ops \<Rightarrow> order_intent \<Rightarrow> ('b world, submit_result) comp" where
  "broker_submit ops i = bindM (note_submission i) (\<lambda>_. broker_call (op_submit_order ops i))"

section \<open>What broker calls keep\<close>

definition quiet :: "'b world \<Rightarrow> 'b world \<Rightarrow> bool" where
  "quiet w w' \<longleftrightarrow> evolving w w' \<and> w_trace w' = w_trace w"

interpretation qf: effect_frame quiet
  by unfold_locales (auto simp: quiet_def intro: ev.frame_refl ev.frame_trans)

lemma store_quiet: "keeps store_frame m \<Longrightarrow> keeps quiet m"
  by (erule keeps_mono) (simp add: store_frame_def quiet_def)

lemma store_evolving: "keeps store_frame m \<Longrightarrow> keeps evolving m"
  by (erule keeps_mono) (simp add: store_frame_def)

lemma quiet_evolving: "keeps quiet m \<Longrightarrow> keeps evolving m"
  by (erule keeps_mono) (simp add: quiet_def)

lemma broker_call_quiet: "keeps quiet (broker_call op)"
  unfolding keeps_def
proof
  fix w0 :: "'a world"
  have "evolving (env_step w0) (snd (broker_call op w0))"
    by (auto simp: broker_call_def Let_def evolving_def split: prod.split)
  moreover have "w_trace (snd (broker_call op w0)) = w_trace w0"
    by (simp add: broker_call_def Let_def split: prod.split)
  moreover have "evolving w0 (env_step w0)" using env_step_frame by (auto simp: store_frame_def)
  ultimately show "quiet w0 (snd (broker_call op w0))"
    by (auto simp: quiet_def intro: ev.frame_trans)
qed

lemma submit_evolving: "keeps evolving (broker_submit ops i)"
proof -
  have "keeps evolving (note_submission i)"
    by (simp add: note_submission_def keeps_def run_simps evolving_def)
  then show ?thesis
    unfolding broker_submit_def by (rule ev.keeps_bind) (rule quiet_evolving, rule broker_call_quiet)
qed

lemma quiet_store:
  "keeps quiet (orders_get cid)" "keeps quiet (list_by_status st)" "keeps quiet (get_broker_order cid)"
  "keeps quiet (get_broker_order_by_id bid)" "keeps quiet (get_fill_by_execution_id eid)"
  "keeps quiet (list_fills bid)" "keeps quiet list_open_broker_orders" "keeps quiet list_all_broker_orders"
  "keeps quiet list_all_fills" "keeps quiet reconciliations_latest" "keeps quiet control_read"
  "keeps quiet begin_reconciliation_snapshot" "keeps quiet (get_baseline acc)"
  "keeps quiet (transition_status cid st)" "keeps quiet (update_broker_order_status bid bst q t)"
  "keeps quiet (add_fill f)" "keeps quiet (reconciliations_add r)" "keeps quiet bump_flatten_generation"
  "keeps quiet (add_command c)" "keeps quiet (orders_add i)" "keeps quiet (record_broker_order b)"
  "keeps quiet (set_entries_paused p reason)" "keeps quiet (persist_safety_pause text)"
  "keeps quiet uow_commit" "keeps quiet uow_rollback" "keeps quiet take_lock" "keeps quiet read_clock"
  "keeps quiet fresh_uuid" "keeps quiet (query g)"
  by (rule store_quiet, rule store_intros)+

lemmas quiet_rules = quiet_store broker_call_quiet qf.keeps_rules

lemmas evolving_rules = quiet_store [THEN quiet_evolving] broker_call_quiet [THEN quiet_evolving]
  submit_evolving ev.keeps_rules

lemma evolving_guard:
  "(\<And>s. keeps evolving (body s)) \<Longrightarrow> keeps evolving (submission_guard body)"
  unfolding submission_guard_def
  by (intro evolving_rules)

lemma ret_broker_call:
  assumes "\<And>w a b. P w \<Longrightarrow> Q a ((env_step w)\<lparr>w_broker := b\<rparr>)"
  shows "returns P (broker_call op) Q"
  using assms by (auto simp: triple_def broker_call_def Let_def split: prod.split sum.split)

section \<open>The documented contract of a Paper broker\<close>

text \<open>
  \<open>book b\<close> is the list of orders the broker has accepted. A submission adds at most
  one order, under the client id and parameters of the intent, and only when no
  order has that client id yet; no operation of the port removes an order or
  changes what it is bound to.
\<close>

definition same_order :: "broker_order \<Rightarrow> broker_order \<Rightarrow> bool" where
  "same_order a b \<longleftrightarrow> bo_broker_order_id a = bo_broker_order_id b
     \<and> bo_client_order_id a = bo_client_order_id b \<and> bo_symbol a = bo_symbol b
     \<and> bo_side a = bo_side b \<and> bo_quantity a = bo_quantity b \<and> bo_limit_price a = bo_limit_price b"

definition carries :: "order_intent \<Rightarrow> broker_order \<Rightarrow> bool" where
  "carries i b \<longleftrightarrow> bo_client_order_id b = oi_client_order_id i \<and> bo_symbol b = oi_symbol i
     \<and> bo_side b = oi_side i \<and> bo_quantity b = oi_quantity i \<and> bo_limit_price b = oi_limit_price i"

definition one_order_each :: "broker_order list \<Rightarrow> bool" where
  "one_order_each os \<longleftrightarrow> distinct (map bo_client_order_id os) \<and> distinct (map bo_broker_order_id os)"

lemma same_order_refl [simp]: "same_order a a"
  by (simp add: same_order_def)

lemma same_order_trans: "same_order a b \<Longrightarrow> same_order b c \<Longrightarrow> same_order a c"
  by (simp add: same_order_def)

lemma same_orders_trans:
  "list_all2 same_order as bs \<Longrightarrow> list_all2 same_order bs cs \<Longrightarrow> list_all2 same_order as cs"
  using list_all2_trans [of same_order same_order same_order] same_order_trans by blast

lemma same_orders_keys:
  assumes "list_all2 same_order os ps"
  shows "map bo_client_order_id os = map bo_client_order_id ps
    \<and> map bo_broker_order_id os = map bo_broker_order_id ps"
  using assms by (induction rule: list_all2_induct) (auto simp: same_order_def)

text \<open>What a submission of an intent may do to the book.\<close>

definition accepts :: "order_intent \<Rightarrow> broker_order list \<Rightarrow> broker_order list \<Rightarrow> bool" where
  "accepts i os os' \<longleftrightarrow> list_all2 same_order os os'
     \<or> oi_client_order_id i \<notin> bo_client_order_id ` set os
       \<and> (\<exists>new. carries i new \<and> list_all2 same_order (os @ [new]) os')"

definition keeps_book :: "('b \<Rightarrow> bool) \<Rightarrow> ('b \<Rightarrow> broker_order list) \<Rightarrow> 'b \<Rightarrow> 'b \<Rightarrow> bool" where
  "keeps_book ok book b b' \<longleftrightarrow> (ok b \<longrightarrow> ok b' \<and> list_all2 same_order (book b) (book b'))"

locale paper_port =
  fixes ops :: "'b broker_ops"
    and ok :: "'b \<Rightarrow> bool"
    and book :: "'b \<Rightarrow> broker_order list"
  assumes one_each: "ok b \<Longrightarrow> one_order_each (book b)"
    and submit: "ok b \<Longrightarrow> op_submit_order ops i b = (r, b') \<Longrightarrow> ok b' \<and> accepts i (book b) (book b')"
    and submitted: "ok b \<Longrightarrow> op_submit_order ops i b = (Inr (SubmitAccepted new), b') \<Longrightarrow>
          carries i new \<and> new \<in> set (book b')"
    and found: "ok b \<Longrightarrow> op_get_order ops cid b = (Inr (Some old), b') \<Longrightarrow>
          bo_client_order_id old = cid \<and> old \<in> set (book b')"
    and get_order: "keeps (keeps_book ok book) (op_get_order ops cid)"
    and get_asset: "keeps (keeps_book ok book) (op_get_asset ops symbol)"
    and fills: "keeps (keeps_book ok book) (op_list_fills ops bid)"
    and cancel: "keeps (keeps_book ok book) (op_cancel_order ops bid)"
    and account: "keeps (keeps_book ok book) (op_account ops)"
    and recent: "keeps (keeps_book ok book) (op_list_recent_orders ops since)"
    and live: "keeps (keeps_book ok book) (op_list_open_orders ops)"
    and positions: "keeps (keeps_book ok book) (op_list_positions ops)"
begin

text \<open>Every order at the broker was asked for by a recorded submission.\<close>

definition explained :: "'b world \<Rightarrow> bool" where
  "explained w \<longleftrightarrow> ok (w_broker w)
     \<and> (\<forall>b\<in>set (book (w_broker w)). \<exists>i d. EvSubmit i d \<in> set (w_trace w) \<and> carries i b)"

definition port :: "'b world \<Rightarrow> 'b world \<Rightarrow> bool" where
  "port w w' \<longleftrightarrow> (explained w \<longrightarrow> explained w')"

sublocale pt: effect_frame port
  by unfold_locales (auto simp: port_def)

lemma explained_same:
  assumes "explained w" "keeps_book ok book (w_broker w) b"
    "set (w_trace w) \<subseteq> set (w_trace v)" "w_broker v = b"
  shows "explained v"
proof -
  have rel: "ok b" "list_all2 same_order (book (w_broker w)) (book b)"
    using assms(1,2) by (auto simp: explained_def keeps_book_def)
  have "\<exists>i d. EvSubmit i d \<in> set (w_trace v) \<and> carries i y" if "y \<in> set (book b)" for y
  proof -
    obtain x where "x \<in> set (book (w_broker w))" "same_order x y"
      using rel(2) \<open>y \<in> set (book b)\<close> by (metis in_set_conv_nth list_all2_conv_all_nth)
    with assms(1,3) show ?thesis by (fastforce simp: explained_def same_order_def carries_def)
  qed
  with rel(1) assms(4) show ?thesis by (simp add: explained_def)
qed

lemma store_port: "keeps store_frame m \<Longrightarrow> keeps port m"
  by (erule keeps_mono) (auto simp: store_frame_def port_def explained_def)

lemma port_broker_call:
  assumes "keeps (keeps_book ok book) op"
  shows "keeps port (broker_call op)"
  unfolding keeps_def port_def
proof (intro allI impI)
  fix w :: "'b world"
  assume w: "explained w"
  obtain r b where op: "op (w_broker w) = (r, b)" by (cases "op (w_broker w)")
  with assms have "keeps_book ok book (w_broker w) b" by (rule keepsD)
  from explained_same [OF w this] show "explained (snd (broker_call op w))"
    by (simp add: broker_call_def Let_def op)
qed

lemma port_submit: "keeps port (broker_submit ops i)"
  unfolding keeps_def port_def
proof (intro allI impI)
  fix w :: "'b world"
  assume w: "explained w"
  let ?t = "w_trace w @ [EvSubmit i (w_committed w)]"
  obtain r b where op: "op_submit_order ops i (w_broker w) = (r, b)" by (cases "op_submit_order ops i (w_broker w)")
  let ?v = "snd (broker_submit ops i w)"
  have v: "w_broker ?v = b" "w_trace ?v = ?t"
    by (simp_all add: broker_submit_def note_submission_def broker_call_def Let_def run_simps op)
  have ok: "ok b" "accepts i (book (w_broker w)) (book b)"
    using submit [OF _ op] w by (simp_all add: explained_def)
  have old: "\<exists>i d. EvSubmit i d \<in> set ?t \<and> carries i y" if "y \<in> set (book (w_broker w))" for y
    using w that by (auto simp: explained_def)
  have same: "\<exists>i d. EvSubmit i d \<in> set ?t \<and> carries i y" if "same_order x y"
    and "\<exists>i d. EvSubmit i d \<in> set ?t \<and> carries i x" for x y
    using that by (fastforce simp: same_order_def carries_def)
  have "\<exists>i d. EvSubmit i d \<in> set ?t \<and> carries i y" if y: "y \<in> set (book b)" for y
  proof -
    obtain os where "list_all2 same_order os (book b)"
        "\<forall>x\<in>set os. \<exists>i d. EvSubmit i d \<in> set ?t \<and> carries i x"
    proof -
      consider "list_all2 same_order (book (w_broker w)) (book b)"
        | new where "carries i new" "list_all2 same_order (book (w_broker w) @ [new]) (book b)"
        using ok(2) by (auto simp: accepts_def)
      then show ?thesis
      proof cases
        case 1
        then show ?thesis by (rule that) (use old in blast)
      next
        case 2
        show ?thesis by (rule that [OF 2(2)]) (use old 2(1) in auto)
      qed
    qed
    then show ?thesis using same y by (metis in_set_conv_nth list_all2_conv_all_nth)
  qed
  with ok(1) show "explained ?v" by (simp add: explained_def v)
qed

end

end
