(* ===== verification/Engine.thy ===== *)
theory Engine
  imports Broker_Port
begin

text \<open>
  \<open>application/execution_service.py\<close>: the execution engine. Every method is a
  computation on the world; \<open>with\<close> blocks are higher-order functions over their
  body, \<open>try\<close> blocks are \<open>catchM\<close> and \<open>attemptM\<close>, and the loops of the sweeps are
  folds over the rows read before them. The unit of work always carries a
  control repository, as \<open>PostgresUnitOfWork\<close> does.
\<close>

section \<open>Configuration and maps\<close>

text \<open>
  The control source given at construction: absent, the repository of the same
  unit of work, or one backed by a unit of work of its own, which sees committed
  state only. \<open>eng_uuid5\<close> is \<open>uuid5\<close> in the engine's namespace.
\<close>

datatype control_source = NoControl | SharedControl | DedicatedControl

record 'b engine =
  eng_broker :: "'b broker_ops"
  eng_control :: control_source
  eng_uuid5 :: "string \<Rightarrow> uuid"

fun INTENT_STATUS_BY_BROKER_STATUS :: "broker_order_status \<Rightarrow> order_status" where
  "INTENT_STATUS_BY_BROKER_STATUS B_RECEIVED = ACKNOWLEDGED"
| "INTENT_STATUS_BY_BROKER_STATUS B_ACCEPTED = ACKNOWLEDGED"
| "INTENT_STATUS_BY_BROKER_STATUS B_ACCEPTED_FOR_BIDDING = ACKNOWLEDGED"
| "INTENT_STATUS_BY_BROKER_STATUS B_PARTIALLY_FILLED = PARTIALLY_FILLED"
| "INTENT_STATUS_BY_BROKER_STATUS B_FILLED = FILLED"
| "INTENT_STATUS_BY_BROKER_STATUS B_PENDING_CANCEL = CANCEL_PENDING"
| "INTENT_STATUS_BY_BROKER_STATUS B_CANCELED = CANCELED"
| "INTENT_STATUS_BY_BROKER_STATUS B_EXPIRED = EXPIRED"
| "INTENT_STATUS_BY_BROKER_STATUS B_REJECTED = REJECTED"
| "INTENT_STATUS_BY_BROKER_STATUS B_DONE_FOR_DAY = REVIEW_REQUIRED"
| "INTENT_STATUS_BY_BROKER_STATUS B_REPLACED = REVIEW_REQUIRED"
| "INTENT_STATUS_BY_BROKER_STATUS B_PENDING_REPLACE = REVIEW_REQUIRED"
| "INTENT_STATUS_BY_BROKER_STATUS B_STOPPED = REVIEW_REQUIRED"
| "INTENT_STATUS_BY_BROKER_STATUS B_SUSPENDED = REVIEW_REQUIRED"
| "INTENT_STATUS_BY_BROKER_STATUS B_CALCULATED = REVIEW_REQUIRED"

definition execution_conflict_command_id :: "'b engine \<Rightarrow> string \<Rightarrow> string \<Rightarrow> uuid" where
  "execution_conflict_command_id eng cid conflict = eng_uuid5 eng (cid @ [char_of (31 :: nat)] @ conflict)"

section \<open>Durable pause and review marker\<close>

text \<open>\<open>except Exception: with suppress(Exception): rollback(); raise err\<close>.\<close>

definition rollback_and_raise :: "exn \<Rightarrow> ('b world, 'a) comp" where
  "rollback_and_raise err = bindM (suppressM uow_rollback) (\<lambda>_. raiseM err)"

definition pause_for_reconciliation_required ::
  "'b engine \<Rightarrow> order_intent \<Rightarrow> string \<Rightarrow> ('b world, unit) comp" where
  "pause_for_reconciliation_required eng intent conflict =
     (if oi_intent_type intent = RISK_EXIT then returnM ()
      else
        bindM (catchM (bindM (set_entries_paused True (Some (''reconciliation required; '' @ conflict)))
                         (\<lambda>_. uow_commit))
                 (\<lambda>_. rollback_and_raise ControlPersistenceError)) (\<lambda>_.
        bindM (catchM
                 (bindM read_clock (\<lambda>now.
                  bindM (liftM (control_command_post_init
                           \<lparr>cc_command_id = execution_conflict_command_id eng (oi_client_order_id intent) conflict,
                            cc_command = PAUSE_ENTRIES, cc_reason = ''automatic pause on '' @ conflict,
                            cc_actor = ''execution_engine'', cc_run_id = None, cc_requested_at = now,
                            cc_applied_at = Some now\<rparr>)) (\<lambda>c.
                  bindM (add_command c) (\<lambda>_. returnM ()))))
                 (\<lambda>_. rollback_and_raise ControlPersistenceError)) (\<lambda>_.
        catchM uow_commit (\<lambda>_. rollback_and_raise ControlPersistenceError))))"

definition persist_review_and_pause ::
  "'b engine \<Rightarrow> order_intent \<Rightarrow> string \<Rightarrow> ('b world, order_intent) comp" where
  "persist_review_and_pause eng intent conflict =
     bindM (orders_get (oi_client_order_id intent)) (\<lambda>found.
       case found of
         None \<Rightarrow> raiseM ControlPersistenceError
       | Some current \<Rightarrow>
           bindM (if oi_status current \<noteq> REVIEW_REQUIRED
                  then catchM (bindM (transition_status (oi_client_order_id intent) REVIEW_REQUIRED) (\<lambda>c.
                                bindM uow_commit (\<lambda>_. returnM c)))
                         (\<lambda>_. rollback_and_raise ControlPersistenceError)
                  else returnM current) (\<lambda>current.
           bindM (pause_for_reconciliation_required eng current conflict) (\<lambda>_. returnM current)))"

definition mirror_conflict :: "'b engine \<Rightarrow> order_intent \<Rightarrow> string \<Rightarrow> ('b world, 'a) comp" where
  "mirror_conflict eng intent conflict =
     bindM (persist_review_and_pause eng intent conflict) (\<lambda>_. raiseM BrokerMirrorMismatchError)"

definition parameters_differ :: "order_intent \<Rightarrow> broker_order \<Rightarrow> bool" where
  "parameters_differ intent order \<longleftrightarrow> bo_client_order_id order \<noteq> oi_client_order_id intent
     \<or> bo_symbol order \<noteq> oi_symbol intent \<or> bo_side order \<noteq> oi_side intent
     \<or> bo_quantity order \<noteq> oi_quantity intent \<or> bo_limit_price order \<noteq> oi_limit_price intent"

definition assert_mirror_matches :: "'b engine \<Rightarrow> order_intent \<Rightarrow> broker_order \<Rightarrow> ('b world, unit) comp" where
  "assert_mirror_matches eng intent order =
     bindM (get_broker_order (oi_client_order_id intent)) (\<lambda>local_mirror.
     bindM (get_broker_order_by_id (bo_broker_order_id order)) (\<lambda>local_by_broker_id.
       if parameters_differ intent order
          \<or> (case local_mirror of None \<Rightarrow> False
              | Some m \<Rightarrow> bo_broker_order_id m \<noteq> bo_broker_order_id order)
          \<or> (case local_by_broker_id of None \<Rightarrow> False
              | Some m \<Rightarrow> bo_client_order_id m \<noteq> oi_client_order_id intent)
       then mirror_conflict eng intent ''broker mirror mismatch''
       else returnM ()))"

section \<open>Absorbing the broker's view of an order\<close>

text \<open>The first pass over the response: a conflicting execution id stops before any write.\<close>

definition check_fill ::
  "'b engine \<Rightarrow> order_intent \<Rightarrow> broker_order \<Rightarrow> (string \<rightharpoonup> fill) \<Rightarrow> fill \<Rightarrow> ('b world, string \<rightharpoonup> fill) comp" where
  "check_fill eng intent order seen_by_execution_id f =
     (case seen_by_execution_id (fl_execution_id f) of
        Some seen \<Rightarrow>
          if seen \<noteq> f then mirror_conflict eng intent ''conflicting fill''
          else returnM seen_by_execution_id
      | None \<Rightarrow>
          if fl_broker_order_id f \<noteq> bo_broker_order_id order
          then mirror_conflict eng intent ''conflicting fill''
          else
            bindM (get_fill_by_execution_id (fl_execution_id f)) (\<lambda>existing.
              if existing \<noteq> None \<and> existing \<noteq> Some f
              then mirror_conflict eng intent ''conflicting fill''
              else returnM (seen_by_execution_id(fl_execution_id f \<mapsto> f))))"

definition absorb_fill :: "'b engine \<Rightarrow> order_intent \<Rightarrow> fill \<Rightarrow> ('b world, unit) comp" where
  "absorb_fill eng intent f =
     bindM (add_fill f) (\<lambda>inserted.
       if inserted then returnM ()
       else
         bindM (get_fill_by_execution_id (fl_execution_id f)) (\<lambda>existing.
           if existing \<noteq> Some f then mirror_conflict eng intent ''conflicting fill'' else returnM ()))"

definition refresh_target :: "order_intent \<Rightarrow> broker_order \<Rightarrow> order_status" where
  "refresh_target intent order =
     (let target = INTENT_STATUS_BY_BROKER_STATUS (bo_status order)
      in if target = ACKNOWLEDGED \<and> oi_status intent \<in> {PARTIALLY_FILLED, CANCEL_PENDING}
         then oi_status intent else target)"

definition mirror_order :: "'b engine \<Rightarrow> order_intent \<Rightarrow> broker_order \<Rightarrow> ('b world, unit) comp" where
  "mirror_order eng intent order =
     catchM (bindM (record_broker_order order) (\<lambda>_. returnM ()))
       (\<lambda>e. if e = BrokerOrderIdentityConflictError
             then bindM (suppressM uow_rollback) (\<lambda>_.
                    mirror_conflict eng intent ''broker order identity conflict'')
             else raiseM e)"

definition advance_intent :: "order_intent \<Rightarrow> broker_order \<Rightarrow> ('b world, order_intent) comp" where
  "advance_intent intent order =
     (let target = refresh_target intent order in
      if target \<noteq> oi_status intent then
        if \<not> order_transition_allowed (oi_status intent) target then raiseM ExecutionStateError
        else
          bindM (transition_status (oi_client_order_id intent) target) (\<lambda>refreshed.
          bindM uow_commit (\<lambda>_. returnM refreshed))
      else bindM uow_commit (\<lambda>_. returnM intent))"

definition refresh_from_broker_order ::
  "'b engine \<Rightarrow> order_intent \<Rightarrow> broker_order \<Rightarrow> ('b world, order_intent) comp" where
  "refresh_from_broker_order eng intent order =
     bindM (broker_call (op_list_fills (eng_broker eng) (bo_broker_order_id order))) (\<lambda>fills.
     bindM (foldM (check_fill eng intent order) Map.empty fills) (\<lambda>_.
     bindM (mirror_order eng intent order) (\<lambda>_.
     bindM (foldM (\<lambda>_. absorb_fill eng intent) () fills) (\<lambda>_.
     advance_intent intent order))))"

definition record_accepted :: "'b engine \<Rightarrow> order_intent \<Rightarrow> broker_order \<Rightarrow> ('b world, order_intent) comp" where
  "record_accepted eng intent order =
     bindM (assert_mirror_matches eng intent order) (\<lambda>_. refresh_from_broker_order eng intent order)"

section \<open>Submission\<close>

text \<open>The branches on what the broker answered.\<close>

definition settle_submission ::
  "'b engine \<Rightarrow> order_intent \<Rightarrow> exn + submit_result \<Rightarrow> ('b world, order_intent) comp" where
  "settle_submission eng submitting outcome =
     (case outcome of
        Inl e \<Rightarrow>
          if e = BrokerTransportError then
            bindM (transition_status (oi_client_order_id submitting) UNKNOWN) (\<lambda>unknown.
            bindM uow_commit (\<lambda>_.
            bindM (pause_for_reconciliation_required eng submitting ''ambiguous broker outcome'') (\<lambda>_.
            returnM unknown)))
          else if e = BrokerConflictError then
            bindM (transition_status (oi_client_order_id submitting) UNKNOWN) (\<lambda>_.
            bindM uow_commit (\<lambda>_.
            bindM (pause_for_reconciliation_required eng submitting ''ambiguous broker outcome'') (\<lambda>_.
            raiseM BrokerMirrorMismatchError)))
          else raiseM e
      | Inr (SubmitRejected reason) \<Rightarrow>
          bindM (transition_status (oi_client_order_id submitting) REJECTED) (\<lambda>rejected.
          bindM uow_commit (\<lambda>_. returnM rejected))
      | Inr (SubmitAccepted order) \<Rightarrow> record_accepted eng submitting order)"

definition submit_while_guarded :: "'b engine \<Rightarrow> order_intent \<Rightarrow> ('b world, order_intent) comp" where
  "submit_while_guarded eng submitting =
     bindM (attemptM (broker_submit (eng_broker eng) submitting)) (settle_submission eng submitting)"

definition has_unresolved_intents :: "('b world, bool) comp" where
  "has_unresolved_intents =
     bindM (list_by_status UNKNOWN) (\<lambda>unknown.
       if unknown \<noteq> [] then returnM True
       else bindM (list_by_status REVIEW_REQUIRED) (\<lambda>review. returnM (review \<noteq> [])))"

definition entry_submission_guard :: "order_intent \<Rightarrow> ('b world, 'a) comp \<Rightarrow> ('b world, 'a) comp" where
  "entry_submission_guard intent body =
     (if oi_intent_type intent = RISK_EXIT then body
      else submission_guard (\<lambda>state.
        if cs_entries_paused state then raiseM ExecutionPausedError
        else bindM has_unresolved_intents (\<lambda>blocked.
          if blocked then raiseM ExecutionPausedError else body)))"

definition complete_submission :: "'b engine \<Rightarrow> order_intent \<Rightarrow> ('b world, order_intent) comp" where
  "complete_submission eng submitting =
     catchM (entry_submission_guard submitting (submit_while_guarded eng submitting))
       (\<lambda>e. if e = ExecutionPausedError then
              if oi_status submitting = SUBMITTING then
                bindM (transition_status (oi_client_order_id submitting) UNKNOWN) (\<lambda>unknown.
                bindM uow_commit (\<lambda>_.
                bindM (pause_for_reconciliation_required eng unknown ''ambiguous broker outcome'') (\<lambda>_.
                returnM unknown)))
              else returnM submitting
            else raiseM e)"

definition require_intent :: "string \<Rightarrow> ('b world, order_intent) comp" where
  "require_intent cid =
     bindM (orders_get cid) (\<lambda>found. case found of None \<Rightarrow> raiseM ExecutionStateError | Some i \<Rightarrow> returnM i)"

text \<open>\<open>self._control.state()\<close>; a dedicated unit of work reads what is committed.\<close>

definition engine_control_state :: "'b engine \<Rightarrow> ('b world, control_state) comp" where
  "engine_control_state eng =
     (if eng_control eng = DedicatedControl then
        (\<lambda>w0. let w = env_step w0 in
          if w_faults w (w_tick w) \<noteq> NoFault then (Inl DatabaseError, w)
          else (control_state_post_init (db_control (w_committed w)), w))
      else control_read)"

definition assert_entries_allowed :: "'b engine \<Rightarrow> order_intent \<Rightarrow> ('b world, unit) comp" where
  "assert_entries_allowed eng intent =
     (if eng_control eng = NoControl then returnM ()
      else bindM (engine_control_state eng) (\<lambda>state.
        if \<not> cs_entries_paused state then returnM ()
        else if oi_intent_type intent = RISK_EXIT then returnM ()
        else raiseM ExecutionPausedError))"

definition assert_asset_tradable :: "'b engine \<Rightarrow> order_intent \<Rightarrow> ('b world, unit) comp" where
  "assert_asset_tradable eng intent =
     bindM (broker_call (op_get_asset (eng_broker eng) (oi_symbol intent))) (\<lambda>asset.
       if asset_tradable asset then returnM () else raiseM ExecutionStateError)"

section \<open>Operations\<close>

definition submit_from_outbox :: "'b engine \<Rightarrow> string \<Rightarrow> ('b world, order_intent) comp" where
  "submit_from_outbox eng cid =
     bindM (require_intent cid) (\<lambda>intent.
       if oi_status intent \<noteq> OUTBOX_PENDING then returnM intent
       else
         bindM (assert_entries_allowed eng intent) (\<lambda>_.
         bindM (assert_asset_tradable eng intent) (\<lambda>_.
         bindM (assert_entries_allowed eng intent) (\<lambda>_.
         bindM (transition_status cid SUBMITTING) (\<lambda>submitting.
         bindM uow_commit (\<lambda>_. complete_submission eng submitting))))))"

definition resolve :: "'b engine \<Rightarrow> string \<Rightarrow> ('b world, order_intent) comp" where
  "resolve eng cid =
     bindM (require_intent cid) (\<lambda>intent.
       if oi_status intent \<notin> {SUBMITTING, UNKNOWN} then returnM intent
       else
         bindM (broker_call (op_get_order (eng_broker eng) cid)) (\<lambda>found.
           case found of
             None \<Rightarrow>
               bindM read_clock (\<lambda>now.
                 if now \<ge> oi_cancel_at intent then
                   bindM (if oi_status intent = SUBMITTING then transition_status cid UNKNOWN
                          else returnM intent) (\<lambda>unknown.
                   bindM uow_commit (\<lambda>_. returnM unknown))
                 else complete_submission eng intent)
           | Some order \<Rightarrow>
               bindM (assert_mirror_matches eng intent order) (\<lambda>_. record_accepted eng intent order)))"

definition refresh_known_order :: "'b engine \<Rightarrow> order_intent \<Rightarrow> ('b world, order_intent) comp" where
  "refresh_known_order eng intent =
     bindM (broker_call (op_get_order (eng_broker eng) (oi_client_order_id intent))) (\<lambda>found.
       case found of
         None \<Rightarrow> raiseM BrokerMirrorMismatchError
       | Some order \<Rightarrow>
           bindM (assert_mirror_matches eng intent order) (\<lambda>_. refresh_from_broker_order eng intent order))"

definition apply_fills :: "'b engine \<Rightarrow> string \<Rightarrow> ('b world, order_intent) comp" where
  "apply_fills eng cid =
     bindM (require_intent cid) (\<lambda>intent.
       if oi_status intent \<notin> {ACKNOWLEDGED, PARTIALLY_FILLED, CANCEL_PENDING} then returnM intent
       else
         bindM (get_broker_order cid) (\<lambda>mirror.
           if mirror = None then raiseM ExecutionStateError else refresh_known_order eng intent))"

definition request_cancel :: "'b engine \<Rightarrow> string \<Rightarrow> ('b world, order_intent) comp" where
  "request_cancel eng cid =
     bindM (require_intent cid) (\<lambda>intent.
     bindM (if oi_status intent = CANCEL_PENDING then returnM intent
            else if oi_status intent \<in> {ACKNOWLEDGED, PARTIALLY_FILLED} then
              bindM (transition_status cid CANCEL_PENDING) (\<lambda>i. bindM uow_commit (\<lambda>_. returnM i))
            else raiseM ExecutionStateError) (\<lambda>intent.
     bindM (get_broker_order cid) (\<lambda>mirror.
       case mirror of
         None \<Rightarrow> raiseM ExecutionStateError
       | Some m \<Rightarrow>
           bindM (broker_call (op_cancel_order (eng_broker eng) (bo_broker_order_id m))) (\<lambda>_.
             refresh_known_order eng intent))))"

type_synonym intent_dict = "(string \<times> order_intent) list"

definition keep_intent :: "intent_dict \<Rightarrow> order_intent \<Rightarrow> intent_dict" where
  "keep_intent closed_by_id i = dict_set (oi_client_order_id i) i closed_by_id"

definition expire_ambiguous :: "'b engine \<Rightarrow> utc \<Rightarrow> intent_dict \<Rightarrow> ('b world, intent_dict) comp" where
  "expire_ambiguous eng now closed =
     foldM (\<lambda>closed st.
       bindM (list_by_status st) (\<lambda>intents.
         foldM (\<lambda>closed intent.
           if oi_cancel_at intent \<le> now
           then bindM (resolve eng (oi_client_order_id intent)) (\<lambda>r. returnM (keep_intent closed r))
           else returnM closed) closed intents)) closed [SUBMITTING, UNKNOWN]"

definition expire_unsent :: "utc \<Rightarrow> intent_dict \<Rightarrow> ('b world, intent_dict) comp" where
  "expire_unsent now closed =
     foldM (\<lambda>closed st.
       bindM (list_by_status st) (\<lambda>intents.
         foldM (\<lambda>closed intent.
           if oi_cancel_at intent \<le> now
           then bindM (transition_status (oi_client_order_id intent) EXPIRED) (\<lambda>r.
                  returnM (keep_intent closed r))
           else returnM closed) closed intents)) closed [CREATED, RISK_APPROVED, OUTBOX_PENDING]"

definition expire_live_intent ::
  "'b engine \<Rightarrow> utc \<Rightarrow> intent_dict \<times> string list \<Rightarrow> order_intent \<Rightarrow>
   ('b world, intent_dict \<times> string list) comp" where
  "expire_live_intent eng now acc intent =
     (case acc of (closed, handled) \<Rightarrow>
        if oi_client_order_id intent \<in> set handled then returnM (closed, handled)
        else
          let handled = oi_client_order_id intent # handled in
          if oi_cancel_at intent \<le> now then
            bindM (attemptM (request_cancel eng (oi_client_order_id intent))) (\<lambda>outcome.
              case outcome of
                Inl e \<Rightarrow>
                  if e \<in> {BrokerTransportError, ExecutionStateError, BrokerMirrorMismatchError}
                  then returnM (closed, handled) else raiseM e
              | Inr result \<Rightarrow> returnM (keep_intent closed result, handled))
          else returnM (closed, handled))"

definition expire_live :: "'b engine \<Rightarrow> utc \<Rightarrow> intent_dict \<Rightarrow> ('b world, intent_dict) comp" where
  "expire_live eng now closed =
     bindM (foldM (\<lambda>acc st.
              bindM (list_by_status st) (\<lambda>intents. foldM (expire_live_intent eng now) acc intents))
            (closed, []) [ACKNOWLEDGED, PARTIALLY_FILLED, CANCEL_PENDING]) (\<lambda>(closed, handled).
       returnM closed)"

definition expire_overdue :: "'b engine \<Rightarrow> ('b world, order_intent list) comp" where
  "expire_overdue eng =
     bindM read_clock (\<lambda>now.
     bindM (expire_ambiguous eng now []) (\<lambda>closed.
     bindM (expire_unsent now closed) (\<lambda>closed.
     bindM (expire_live eng now closed) (\<lambda>closed.
     bindM (if closed \<noteq> [] then uow_commit else returnM ()) (\<lambda>_.
     returnM (map snd closed))))))"

definition recover :: "'b engine \<Rightarrow> ('b world, order_intent list) comp" where
  "recover eng =
     bindM (foldM (\<lambda>by_id st.
              bindM (list_by_status st) (\<lambda>intents. returnM (foldl keep_intent by_id intents)))
            [] [SUBMITTING, UNKNOWN]) (\<lambda>by_id.
     foldM (\<lambda>resolved intent.
       bindM (resolve eng (oi_client_order_id intent)) (\<lambda>r. returnM (resolved @ [r])))
       [] (map snd by_id))"

section \<open>Frames of the engine\<close>

text \<open>
  What the store operations and the broker calls of the engine keep, every
  operation of the engine keeps. The first locale covers the parts that submit
  nothing, the second adds the submission.
\<close>

locale engine_steps = effect_frame R for R :: "'b world \<Rightarrow> 'b world \<Rightarrow> bool" +
  fixes eng :: "'b engine"
  assumes e_env: "R w (env_step w)"
    and e_get: "keeps R (orders_get cid)"
    and e_list: "keeps R (list_by_status st)"
    and e_mirror: "keeps R (get_broker_order cid)"
    and e_mirror_by_id: "keeps R (get_broker_order_by_id bid)"
    and e_fill: "keeps R (get_fill_by_execution_id eid)"
    and e_control: "keeps R control_read"
    and e_control_row: "keeps R (query db_control)"
    and e_lock: "keeps R take_lock"
    and e_transition: "keeps R (transition_status cid st)"
    and e_add_fill: "keeps R (add_fill f)"
    and e_command: "keeps R (add_command c)"
    and e_record: "keeps R (record_broker_order b)"
    and e_pause: "keeps R (set_entries_paused True reason)"
    and e_commit: "keeps R uow_commit"
    and e_rollback: "keeps R uow_rollback"
    and e_clock: "keeps R read_clock"
    and e_get_order: "keeps R (broker_call (op_get_order (eng_broker eng) cid))"
    and e_get_asset: "keeps R (broker_call (op_get_asset (eng_broker eng) symbol))"
    and e_list_fills: "keeps R (broker_call (op_list_fills (eng_broker eng) bid))"
    and e_cancel: "keeps R (broker_call (op_cancel_order (eng_broker eng) bid))"
begin

lemmas step_rules = e_get e_list e_mirror e_mirror_by_id e_fill e_control e_control_row e_lock e_transition
  e_add_fill e_command e_record e_pause e_commit e_rollback e_clock e_get_order e_get_asset e_list_fills
  e_cancel keeps_rules

lemma frame_rollback_and_raise: "keeps R (rollback_and_raise e)"
  unfolding rollback_and_raise_def by (intro step_rules)

lemma frame_pause: "keeps R (pause_for_reconciliation_required eng i c)"
  unfolding pause_for_reconciliation_required_def by (intro step_rules frame_rollback_and_raise)

lemma frame_review: "keeps R (persist_review_and_pause eng i c)"
  unfolding persist_review_and_pause_def by (intro step_rules frame_rollback_and_raise frame_pause)

lemma frame_conflict: "keeps R (mirror_conflict eng i c)"
  unfolding mirror_conflict_def by (intro step_rules frame_review)

lemma frame_mirror:
  "keeps R (assert_mirror_matches eng i b)" "keeps R (check_fill eng i b seen f)"
  "keeps R (absorb_fill eng i f)" "keeps R (mirror_order eng i b)" "keeps R (advance_intent i b)"
  unfolding assert_mirror_matches_def check_fill_def absorb_fill_def mirror_order_def advance_intent_def
  by (intro step_rules frame_conflict)+

lemma frame_refresh:
  "keeps R (refresh_from_broker_order eng i b)" "keeps R (record_accepted eng i b)"
  "keeps R (refresh_known_order eng i)"
  unfolding refresh_from_broker_order_def record_accepted_def refresh_known_order_def
  by (intro step_rules frame_mirror)+

lemma frame_settle: "keeps R (settle_submission eng i r)"
  unfolding settle_submission_def
  by (auto intro!: step_rules frame_pause frame_refresh split: sum.split submit_result.split)

lemma frame_control_state: "keeps R (engine_control_state eng)"
proof -
  have "keeps R (\<lambda>w0. let w = env_step w0 in
      if w_faults w (w_tick w) \<noteq> NoFault then (Inl DatabaseError, w)
      else (control_state_post_init (db_control (w_committed w)), w))"
    using e_env by (simp add: keeps_def Let_def)
  then show ?thesis unfolding engine_control_state_def by (intro step_rules)
qed

lemma frame_gates:
  "keeps R (require_intent cid)" "keeps R has_unresolved_intents"
  "keeps R (assert_entries_allowed eng i)" "keeps R (assert_asset_tradable eng i)"
  unfolding require_intent_def has_unresolved_intents_def assert_entries_allowed_def assert_asset_tradable_def
  by (intro step_rules frame_control_state)+

lemma frame_cancel: "keeps R (apply_fills eng cid)" "keeps R (request_cancel eng cid)"
  unfolding apply_fills_def request_cancel_def by (intro step_rules frame_gates frame_refresh)+

lemma frame_expire:
  "keeps R (expire_unsent now closed)" "keeps R (expire_live_intent eng now acc i)"
  "keeps R (expire_live eng now closed)"
  unfolding expire_unsent_def expire_live_intent_def expire_live_def
  by (intro step_rules frame_cancel)+

end

locale engine_frame = engine_steps R eng for R :: "'b world \<Rightarrow> 'b world \<Rightarrow> bool" and eng :: "'b engine" +
  assumes e_submit: "keeps R (broker_submit (eng_broker eng) i)"
begin

lemma frame_submit: "keeps R (submit_while_guarded eng i)"
  unfolding submit_while_guarded_def by (intro step_rules e_submit frame_settle)

lemma frame_complete: "keeps R (complete_submission eng i)"
proof -
  have "keeps R (entry_submission_guard i (submit_while_guarded eng i))"
    unfolding entry_submission_guard_def submission_guard_def
    by (intro step_rules frame_gates frame_submit)
  then show ?thesis
    unfolding complete_submission_def by (intro step_rules frame_pause)
qed

lemma frame_operations: "keeps R (submit_from_outbox eng cid)" "keeps R (resolve eng cid)"
  unfolding submit_from_outbox_def resolve_def
  by (intro step_rules frame_gates frame_complete frame_mirror frame_refresh)+

lemma frame_sweeps: "keeps R (expire_overdue eng)" "keeps R (recover eng)"
  unfolding expire_overdue_def expire_ambiguous_def recover_def
  by (intro step_rules frame_operations frame_expire)+

end

interpretation qs: engine_steps quiet eng for eng :: "'b engine"
proof
  show "quiet w (env_step w)" for w :: "'b world"
    using env_step_frame [of w] by (simp add: store_frame_def quiet_def)
qed (intro quiet_rules)+

interpretation es: engine_frame evolving eng for eng :: "'b engine"
proof
  show "evolving w (env_step w)" for w :: "'b world"
    using env_step_frame [of w] by (simp add: store_frame_def)
qed (intro evolving_rules)+

lemmas engine_quiet = qs.frame_rollback_and_raise qs.frame_pause qs.frame_review qs.frame_conflict qs.frame_mirror
  qs.frame_refresh qs.frame_settle qs.frame_control_state qs.frame_gates qs.frame_cancel qs.frame_expire

section \<open>Frames of the database\<close>

text \<open>
  Two facts about the database that no engine operation changes: the set of
  intents with their deadlines, and a pause once it is committed.
\<close>

definition deadlines :: "db \<Rightarrow> (string \<times> utc) list" where
  "deadlines d = map (\<lambda>i. (oi_client_order_id i, oi_cancel_at i)) (db_intents d)"

definition same_deadlines :: "db \<Rightarrow> db \<Rightarrow> bool" where
  "same_deadlines d d' \<longleftrightarrow> deadlines d' = deadlines d"

definition stays_paused :: "db \<Rightarrow> db \<Rightarrow> bool" where
  "stays_paused d d' \<longleftrightarrow> (cs_entries_paused (db_control d) \<longrightarrow> cs_entries_paused (db_control d'))"

definition engine_write :: "db \<Rightarrow> db \<Rightarrow> bool" where
  "engine_write d d' \<longleftrightarrow> same_deadlines d d' \<and> stays_paused d d'"

interpretation ew: db_frame engine_write
proof
  show "sql_pause_entries r now c = Inr (s, c') \<Longrightarrow> engine_write c c'" for r now c s c'
    using sql_pause_db [of r now c s c'] by (simp add: engine_write_def same_deadlines_def deadlines_def stays_paused_def)
qed (auto simp: engine_write_def same_deadlines_def deadlines_def stays_paused_def)

lemma engine_writes:
  "sql_update_intent_status cid st now d = Inr (a1, d') \<Longrightarrow> engine_write d d'"
  "sql_insert_broker_order b now d = Inr (a2, d') \<Longrightarrow> engine_write d d'"
  "sql_update_broker_order bid bst q t now d = Inr (a3, d') \<Longrightarrow> engine_write d d'"
  "sql_insert_fill f now d = Inr (a4, d') \<Longrightarrow> engine_write d d'"
  "sql_insert_command c now d = Inr (a5, d') \<Longrightarrow> engine_write d d'"
  by (auto simp: sql_update_intent_status_def sql_insert_broker_order_def sql_update_broker_order_def
      sql_insert_fill_def sql_insert_command_def Let_def engine_write_def same_deadlines_def deadlines_def
      stays_paused_def set_intent_status_def split: if_splits option.splits)

lemma write_frame:
  "keeps (tracks engine_write) (transition_status cid st)" "keeps (tracks engine_write) (add_fill f)"
  "keeps (tracks engine_write) (add_command c)" "keeps (tracks engine_write) (record_broker_order b)"
  unfolding transition_status_def add_fill_def add_command_def record_broker_order_def
  by (intro ew.tracks_rules ew.tracks_statement; erule engine_writes)+

text \<open>The same with the broker calls, which move the broker and the trace only.\<close>

definition writes :: "'b world \<Rightarrow> 'b world \<Rightarrow> bool" where
  "writes w w' \<longleftrightarrow> (engine_write (w_committed w) (w_working w) \<longrightarrow>
     engine_write (w_committed w') (w_working w') \<and> engine_write (w_committed w) (w_committed w'))
     \<and> w_clock w' = w_clock w \<and> w_tick w \<le> w_tick w'"

interpretation wf: effect_frame writes
  by unfold_locales (auto simp: writes_def ew.d_refl intro: ew.d_trans)

lemma tracks_writes: "tracks engine_write w w' \<Longrightarrow> writes w w'"
  by (simp add: tracks_def writes_def)

lemma writes_broker_call: "keeps writes (broker_call op)"
  unfolding keeps_def
proof
  fix w :: "'a world"
  have "writes w (env_step w)" by (rule tracks_writes) (rule ew.tracks_env_step)
  then show "writes w (snd (broker_call op w))"
    by (auto simp: broker_call_def Let_def writes_def split: prod.split)
qed

lemma writes_submit: "keeps writes (broker_submit ops i)"
proof -
  have "keeps writes (note_submission i)"
    by (simp add: note_submission_def keeps_def run_simps writes_def ew.d_refl)
  then show ?thesis unfolding broker_submit_def by (intro wf.keeps_bind writes_broker_call)
qed

lemmas writes_store = ew.tracks_reads ew.tracks_query ew.tracks_flags ew.tracks_ends write_frame ew.tracks_pause

interpretation ws: engine_frame writes eng for eng :: "'b engine"
proof
  show "writes w (env_step w)" for w :: "'b world"
    by (rule tracks_writes) (rule ew.tracks_env_step)
qed (rule writes_submit writes_broker_call writes_store [THEN keeps_mono, OF tracks_writes], assumption?)+

end
