(* ===== verification/Engine_Safety.thy ===== *)
theory Engine_Safety
  imports Engine
begin

text \<open>
  The safety contract of the execution engine: what is committed whenever a
  submission reaches the broker, for every broker, every fault of the database
  connection, every clock and every pause committed by another process, through
  single operations, the recovery and expiry sweeps, and any sequence of them
  interleaved with other processes.
\<close>

section \<open>Submission safety\<close>

text \<open>
  What must be committed when a submission leaves: the row of exactly this intent
  in \<open>SUBMITTING\<close>, or \<open>UNKNOWN\<close> for a risk exit; and for a new entry, entries not
  paused and no unresolved intent anywhere.
\<close>

fun safe_submission :: "event \<Rightarrow> bool" where
  "safe_submission (EvSubmit i d) \<longleftrightarrow>
     find_intent (oi_client_order_id i) d = Some i
     \<and> (oi_status i = SUBMITTING \<or> oi_status i = UNKNOWN \<and> oi_intent_type i = RISK_EXIT)
     \<and> (oi_intent_type i = RISK_EXIT \<or> \<not> cs_entries_paused (db_control d) \<and> \<not> has_unresolved d)"

definition safe_trace :: "'b world \<Rightarrow> bool" where
  "safe_trace w \<longleftrightarrow> list_all safe_submission (w_trace w)"

definition holds_intent :: "order_intent \<Rightarrow> 'b world \<Rightarrow> bool" where
  "holds_intent i w \<longleftrightarrow> settled w \<and> find_intent (oi_client_order_id i) (w_committed w) = Some i"

lemma safe_trace_env [simp]: "safe_trace (env_step w) = safe_trace w"
  by (simp add: safe_trace_def)

lemma safe_quiet: "keeps quiet m \<Longrightarrow> triple safe_trace m (\<lambda>_. safe_trace) (\<lambda>_. safe_trace)"
  by (erule keeps_triple) (simp add: quiet_def safe_trace_def)

lemma quiet_returns:
  assumes "keeps quiet m" "returns P m Q" "\<And>w. P w \<Longrightarrow> safe_trace w"
  shows "triple P m (\<lambda>a w. Q a w \<and> safe_trace w) (\<lambda>_. safe_trace)"
proof -
  have "triple P m (\<lambda>_. safe_trace) (\<lambda>_. safe_trace)"
    by (rule triple_pre [OF safe_quiet [OF assms(1)]]) (rule assms(3))
  from triple_conj [OF assms(2) this] show ?thesis by (rule triple_weaken) auto
qed

lemma broker_submit_safe:
  "triple (\<lambda>w. safe_trace w \<and> safe_submission (EvSubmit i (w_committed w)))
     (broker_submit ops i) (\<lambda>_. safe_trace) (\<lambda>_. safe_trace)"
  unfolding broker_submit_def
proof (rule triple_bind)
  show "triple (\<lambda>w. safe_trace w \<and> safe_submission (EvSubmit i (w_committed w))) (note_submission i)
      (\<lambda>_. safe_trace) (\<lambda>_. safe_trace)"
    by (simp add: note_submission_def triple_def run_simps safe_trace_def)
  show "triple safe_trace (broker_call (op_submit_order ops i)) (\<lambda>_. safe_trace) (\<lambda>_. safe_trace)"
    by (rule safe_quiet [OF broker_call_quiet])
qed

lemma submit_safe:
  "triple (\<lambda>w. safe_trace w \<and> safe_submission (EvSubmit i (w_committed w)))
     (submit_while_guarded eng i) (\<lambda>_. safe_trace) (\<lambda>_. safe_trace)"
  unfolding submit_while_guarded_def
  by (rule triple_bind, rule triple_attempt, rule broker_submit_safe, rule safe_quiet, rule engine_quiet)

lemma ret_list_by_status:
  assumes "\<And>w. P w \<Longrightarrow> \<not> w_aborted w \<Longrightarrow> Q (sql_intents_by_status st (w_working w)) (env_step w)"
  shows "returns P (list_by_status st) Q"
  unfolding list_by_status_def
proof (rule triple_bind)
  show "returns P (query (sql_intents_by_status st)) (\<lambda>rows v. \<exists>w. P w \<and> \<not> w_aborted w
      \<and> v = env_step w \<and> rows = sql_intents_by_status st (w_working w))"
    by (rule ret_query) (auto simp: sql_intents_by_status_def)
  show "returns (\<lambda>v. \<exists>w. P w \<and> \<not> w_aborted w \<and> v = env_step w
      \<and> rows = sql_intents_by_status st (w_working w)) (liftM (mapO load_intent rows)) Q" for rows
    using assms mapO_eq [of load_intent "\<lambda>x. x", OF load_intent_eq] by (intro ret_lift) auto
qed

lemma has_unresolved_iff:
  "has_unresolved d \<longleftrightarrow> sql_intents_by_status UNKNOWN d \<noteq> [] \<or> sql_intents_by_status REVIEW_REQUIRED d \<noteq> []"
  by (auto simp: has_unresolved_def unresolved_def sql_intents_by_status_def list_ex_iff filter_empty_conv
      simp flip: set_empty)

text \<open>Under the row lock nothing moves between the check and the submission.\<close>

definition guarded :: "order_intent \<Rightarrow> control_state \<Rightarrow> 'b world \<Rightarrow> bool" where
  "guarded i s w \<longleftrightarrow> w_locked w \<and> w_working w = w_committed w \<and> db_control (w_committed w) = s
     \<and> find_intent (oi_client_order_id i) (w_committed w) = Some i \<and> safe_trace w"

lemma guarded_env_step: "guarded i s w \<Longrightarrow> guarded i s (env_step w)"
  by (simp add: guarded_def safe_trace_def)

lemma unresolved_check:
  "triple (guarded i s) has_unresolved_intents
     (\<lambda>blocked w. guarded i s w \<and> (\<not> blocked \<longrightarrow> \<not> has_unresolved (w_committed w))) (\<lambda>_. safe_trace)"
proof -
  have "returns (guarded i s) has_unresolved_intents
      (\<lambda>blocked w. guarded i s w \<and> (\<not> blocked \<longrightarrow> \<not> has_unresolved (w_committed w)))"
    unfolding has_unresolved_intents_def
  proof (rule triple_bind)
    show "returns (guarded i s) (list_by_status UNKNOWN)
        (\<lambda>u w. guarded i s w \<and> u = sql_intents_by_status UNKNOWN (w_committed w))"
      by (rule ret_list_by_status) (auto intro: guarded_env_step simp: guarded_def sql_intents_by_status_def)
    fix u
    show "returns (\<lambda>w. guarded i s w \<and> u = sql_intents_by_status UNKNOWN (w_committed w))
        (if u \<noteq> [] then returnM True
         else bindM (list_by_status REVIEW_REQUIRED) (\<lambda>review. returnM (review \<noteq> [])))
        (\<lambda>blocked w. guarded i s w \<and> (\<not> blocked \<longrightarrow> \<not> has_unresolved (w_committed w)))"
    proof (rule triple_if)
      assume "\<not> u \<noteq> []"
      show "returns (\<lambda>w. guarded i s w \<and> u = sql_intents_by_status UNKNOWN (w_committed w))
          (bindM (list_by_status REVIEW_REQUIRED) (\<lambda>review. returnM (review \<noteq> [])))
          (\<lambda>blocked w. guarded i s w \<and> (\<not> blocked \<longrightarrow> \<not> has_unresolved (w_committed w)))"
        by (rule triple_bind, rule ret_list_by_status [where Q = "\<lambda>r w. guarded i s w
              \<and> sql_intents_by_status UNKNOWN (w_committed w) = []
              \<and> r = sql_intents_by_status REVIEW_REQUIRED (w_committed w)"])
          (use \<open>\<not> u \<noteq> []\<close> in \<open>auto intro: guarded_env_step simp: guarded_def sql_intents_by_status_def
              has_unresolved_iff triple_def run_simps\<close>)
    qed (simp add: triple_def run_simps)
  qed
  from quiet_returns [OF _ this] show ?thesis
    by (rule triple_weaken) (auto intro: engine_quiet simp: guarded_def)
qed

lemma guard_body_safe:
  assumes "oi_status i \<in> {SUBMITTING, UNKNOWN}"
  shows "triple (guarded i s)
    (bindM (liftM (control_state_post_init s)) (\<lambda>state.
       if cs_entries_paused state then raiseM ExecutionPausedError
       else bindM has_unresolved_intents (\<lambda>blocked.
         if blocked then raiseM ExecutionPausedError else submit_while_guarded eng i)))
    (\<lambda>_. safe_trace) (\<lambda>_. safe_trace)"
proof (rule triple_bind)
  show "triple (guarded i s) (liftM (control_state_post_init s)) (\<lambda>state w. guarded i s w \<and> state = s)
      (\<lambda>_. safe_trace)"
    by (auto simp: triple_def run_simps guarded_def dest: control_state_post_init_eq split: sum.split)
next
  fix state
  have body: "triple (\<lambda>w. guarded i s w \<and> \<not> cs_entries_paused s \<and> \<not> has_unresolved (w_committed w))
      (submit_while_guarded eng i) (\<lambda>_. safe_trace) (\<lambda>_. safe_trace)"
  proof (rule triple_pre [OF submit_safe])
    fix w :: "'a world"
    assume w: "guarded i s w \<and> \<not> cs_entries_paused s \<and> \<not> has_unresolved (w_committed w)"
    then have "\<not> unresolved (oi_status i)"
      using find_intent_key [of "oi_client_order_id i" "w_committed w" i]
      by (auto simp: guarded_def has_unresolved_def list_ex_iff)
    with w assms show "safe_trace w \<and> safe_submission (EvSubmit i (w_committed w))"
      by (auto simp: guarded_def unresolved_def)
  qed
  show "triple (\<lambda>w. guarded i s w \<and> state = s)
      (if cs_entries_paused state then raiseM ExecutionPausedError
       else bindM has_unresolved_intents (\<lambda>blocked.
         if blocked then raiseM ExecutionPausedError else submit_while_guarded eng i))
      (\<lambda>_. safe_trace) (\<lambda>_. safe_trace)"
  proof (rule triple_if)
    assume np: "\<not> cs_entries_paused state"
    show "triple (\<lambda>w. guarded i s w \<and> state = s) (bindM has_unresolved_intents (\<lambda>blocked.
         if blocked then raiseM ExecutionPausedError else submit_while_guarded eng i))
        (\<lambda>_. safe_trace) (\<lambda>_. safe_trace)"
    proof (cases "state = s")
      case True
      show ?thesis
      proof (rule triple_bind [where R = "\<lambda>blocked w. guarded i s w \<and> (\<not> blocked \<longrightarrow> \<not> has_unresolved (w_committed w))"])
        show "triple (\<lambda>w. guarded i s w \<and> state = s) has_unresolved_intents
            (\<lambda>blocked w. guarded i s w \<and> (\<not> blocked \<longrightarrow> \<not> has_unresolved (w_committed w))) (\<lambda>_. safe_trace)"
          by (rule triple_pre [OF unresolved_check]) simp
        show "triple (\<lambda>w. guarded i s w \<and> (\<not> blocked \<longrightarrow> \<not> has_unresolved (w_committed w)))
            (if blocked then raiseM ExecutionPausedError else submit_while_guarded eng i)
            (\<lambda>_. safe_trace) (\<lambda>_. safe_trace)" for blocked
          using np True
          by (intro triple_if triple_pre [OF body]) (auto simp: triple_def run_simps guarded_def)
      qed
    qed (simp add: triple_def)
  qed (auto simp: triple_def run_simps guarded_def)
qed

lemma safe_env_pre: "holds_intent i w \<Longrightarrow> holds_intent i (env_step w)"
  by (simp add: holds_intent_def settled_def env_step_settled)

lemma guard_safe:
  assumes "oi_status i \<in> {SUBMITTING, UNKNOWN}"
  shows "triple (\<lambda>w. holds_intent i w \<and> safe_trace w)
    (entry_submission_guard i (submit_while_guarded eng i)) (\<lambda>_. safe_trace) (\<lambda>_. safe_trace)"
  unfolding entry_submission_guard_def
proof (rule triple_if)
  assume "oi_intent_type i = RISK_EXIT"
  with assms show "triple (\<lambda>w. holds_intent i w \<and> safe_trace w) (submit_while_guarded eng i)
      (\<lambda>_. safe_trace) (\<lambda>_. safe_trace)"
    by (intro triple_pre [OF submit_safe]) (auto simp: holds_intent_def)
next
  let ?body = "\<lambda>state. if cs_entries_paused state then raiseM ExecutionPausedError
       else bindM has_unresolved_intents (\<lambda>blocked.
         if blocked then raiseM ExecutionPausedError else submit_while_guarded eng i)"
  have q: "triple (\<lambda>w. holds_intent i w \<and> safe_trace w) (query db_control)
      (\<lambda>s w. (holds_intent i w \<and> db_control (w_committed w) = s) \<and> safe_trace w) (\<lambda>_. safe_trace)"
    by (rule quiet_returns [OF quiet_store(29)], rule ret_query)
      (auto simp: safe_env_pre, auto simp: holds_intent_def settled_def env_step_settled)
  have l: "triple (\<lambda>w. (holds_intent i w \<and> db_control (w_committed w) = s) \<and> safe_trace w) take_lock
      (\<lambda>_. guarded i s) (\<lambda>_. safe_trace)" for s
    by (auto simp: triple_def take_lock_def run_simps guarded_def holds_intent_def settled_def safe_trace_def)
  have c: "triple (guarded i s) (catchM (bindM (liftM (control_state_post_init s)) ?body)
      (\<lambda>e. bindM uow_rollback (\<lambda>_. raiseM e))) (\<lambda>_. safe_trace) (\<lambda>_. safe_trace)" for s
    by (rule triple_catch [OF guard_body_safe [OF assms]], rule safe_quiet) (intro quiet_rules)
  have e: "triple safe_trace (bindM uow_commit (\<lambda>_. returnM a)) (\<lambda>_. safe_trace) (\<lambda>_. safe_trace)" for a
    by (rule safe_quiet) (intro quiet_rules)
  show "triple (\<lambda>w. holds_intent i w \<and> safe_trace w) (submission_guard ?body) (\<lambda>_. safe_trace) (\<lambda>_. safe_trace)"
    unfolding submission_guard_def by (rule triple_bind [OF q], rule triple_bind [OF l], rule triple_bind [OF c], rule e)
qed

lemma complete_safe:
  assumes "oi_status i \<in> {SUBMITTING, UNKNOWN}"
  shows "triple (\<lambda>w. holds_intent i w \<and> safe_trace w) (complete_submission eng i)
    (\<lambda>_. safe_trace) (\<lambda>_. safe_trace)"
  unfolding complete_submission_def
  by (rule triple_catch [OF guard_safe [OF assms]], rule safe_quiet) (intro quiet_rules engine_quiet)

section \<open>Settled after every normal return\<close>

text \<open>
  \<open>avoids m\<close>: \<open>m\<close> never raises the pause error itself, so the handler of
  \<open>complete_submission\<close> only sees it from the guard or from the broker.
\<close>

abbreviation avoids :: "('s, 'a) comp \<Rightarrow> bool" where
  "avoids m \<equiv> triple (\<lambda>_. True) m (\<lambda>_ _. True) (\<lambda>e _. e \<noteq> ExecutionPausedError)"

lemma bindO_eq_Inl: "bindO r f = Inl e \<longleftrightarrow> r = Inl e \<or> (\<exists>a. r = Inr a \<and> f a = Inl e)"
  by (cases r) auto

lemma require_eq_Inl: "require b = Inl e \<longleftrightarrow> \<not> b \<and> e = ValueError"
  by (auto simp: require_def)

lemma compose_error: "compose a b c d e f = Inl x \<Longrightarrow> x = ValueError"
  by (auto simp: compose_def ClientOrderId_def split: if_splits)

lemma price_error: "Price (Dec c x) = Inl e \<Longrightarrow> e = ValueError"
  by (auto split: if_splits)

lemma collar_error: "collar_contains c p = Inl e \<Longrightarrow> e = ValueError"
  by (auto simp: collar_contains_def lower_limit_def upper_limit_def Let_def bindO_eq_Inl
      dest!: price_error split: if_splits)

lemma load_errors:
  "load_intent i = Inl e \<Longrightarrow> e = ValueError"
  "load_broker_order r = Inl e \<Longrightarrow> e = ValueError"
  "load_fill f = Inl e \<Longrightarrow> e = ValueError"
  "control_state_post_init s = Inl e \<Longrightarrow> e = ValueError"
  "control_command_post_init c = Inl e \<Longrightarrow> e = ValueError"
  by (auto simp: load_intent_def load_broker_order_def load_fill_def order_intent_post_init_def
      broker_order_post_init_def fill_post_init_def control_state_post_init_def control_command_post_init_def
      bindO_eq_Inl require_eq_Inl Let_def ClientOrderId_def Symbol_def OrderQuantity_def PriceCollar_def
      RunId_def dest: compose_error collar_error price_error split: if_splits)

lemma mapO_error: "mapO f xs = Inl e \<Longrightarrow> \<exists>x. f x = Inl e"
  by (induction xs) (auto simp: bindO_eq_Inl)

lemma optionO_error: "optionO f x = Inl e \<Longrightarrow> \<exists>y. f y = Inl e"
  by (cases x) (auto simp: optionO_def bindO_eq_Inl)

lemma avoids_return: "avoids (returnM a)" by (simp add: triple_def run_simps)
lemma avoids_raise: "e \<noteq> ExecutionPausedError \<Longrightarrow> avoids (raiseM e)" by (simp add: triple_def run_simps)
lemma avoids_bind: "avoids m \<Longrightarrow> (\<And>a. avoids (f a)) \<Longrightarrow> avoids (bindM m f)" by (rule triple_bind)

lemma avoids_catch: "(\<And>e. avoids (h e)) \<Longrightarrow> avoids (catchM m h)"
  by (rule triple_catch [where F = "\<lambda>_ _. True"]) (auto simp: triple_def split: prod.split sum.split)

lemma avoids_suppress: "avoids (suppressM m)"
  unfolding suppressM_def by (intro avoids_catch avoids_return)

lemma avoids_lift: "(\<And>e. r = Inl e \<Longrightarrow> e \<noteq> ExecutionPausedError) \<Longrightarrow> avoids (liftM r)"
  by (auto simp: triple_def run_simps split: sum.split)

lemma avoids_fold: "(\<And>acc x. avoids (f acc x)) \<Longrightarrow> avoids (foldM f acc xs)"
  by (rule triple_fold [where I = "\<lambda>_ _. True"])

lemma avoids_statement: "(\<And>now d. f now d \<noteq> Inl ExecutionPausedError) \<Longrightarrow> avoids (statement f)"
  by (auto simp: triple_def statement_def Let_def split: fault.splits sum.splits)

lemma avoids_query: "avoids (query g)"
  unfolding query_def by (rule avoids_statement) simp

lemma avoids_flags: "avoids take_lock" "avoids mark_write" "avoids read_clock" "avoids uow_commit" "avoids uow_rollback"
  by (auto simp: triple_def take_lock_def mark_write_def read_clock_def uow_commit_def uow_rollback_def
      run_simps Let_def split: fault.splits)

lemmas avoids_rules = avoids_return avoids_raise avoids_bind avoids_catch avoids_suppress avoids_fold
  avoids_query avoids_flags triple_if triple_case_option triple_let

lemma avoids_reads:
  "avoids (orders_get cid)" "avoids (get_broker_order cid)" "avoids (get_broker_order_by_id bid)"
  "avoids (get_fill_by_execution_id eid)" "avoids (list_by_status st)"
  unfolding orders_get_def get_broker_order_def get_broker_order_by_id_def get_fill_by_execution_id_def
    list_by_status_def
  by (intro avoids_rules avoids_lift; auto dest!: optionO_error mapO_error load_errors)+

lemma sql_errors:
  "sql_update_intent_status cid st now d = Inl e \<Longrightarrow> e = DatabaseError"
  "sql_insert_broker_order b now d = Inl e \<Longrightarrow> e = DatabaseError"
  "sql_update_broker_order bid bst q t now d = Inl e \<Longrightarrow> e = DatabaseError"
  "sql_insert_fill f now d = Inl e \<Longrightarrow> e = DatabaseError"
  "sql_pause_entries r now d = Inl e \<Longrightarrow> e = DatabaseError"
  "sql_insert_command c now d = Inl e \<Longrightarrow> e = DatabaseError"
  by (auto simp: sql_update_intent_status_def sql_insert_broker_order_def sql_update_broker_order_def
      sql_insert_fill_def sql_pause_entries_def sql_insert_command_def Let_def
      split: if_splits option.splits)

lemma avoids_writes:
  "avoids (transition_status cid st)" "avoids (add_fill f)" "avoids (add_command c)"
  "avoids (record_broker_order b)"
  unfolding transition_status_def add_fill_def add_command_def record_broker_order_def
  by (intro avoids_rules avoids_lift avoids_statement; auto dest: sql_errors load_errors)+

lemma avoids_pause: "avoids (set_entries_paused True r)"
  unfolding set_entries_paused_def
  by (intro avoids_rules avoids_lift avoids_statement; auto dest: sql_errors load_errors)

lemma avoids_rollback_and_raise: "avoids (rollback_and_raise ControlPersistenceError)"
  unfolding rollback_and_raise_def by (intro avoids_rules) simp

lemma avoids_pause_required: "avoids (pause_for_reconciliation_required eng i c)"
  unfolding pause_for_reconciliation_required_def
  by (intro avoids_rules avoids_rollback_and_raise)

lemma avoids_review: "avoids (persist_review_and_pause eng i c)"
  unfolding persist_review_and_pause_def
  by (intro avoids_rules avoids_reads avoids_rollback_and_raise avoids_pause_required) simp

lemma avoids_conflict: "avoids (mirror_conflict eng i c)"
  unfolding mirror_conflict_def by (intro avoids_rules avoids_review) simp

lemma avoids_mirror:
  "avoids (assert_mirror_matches eng i b)" "avoids (check_fill eng i b seen f)" "avoids (absorb_fill eng i f)"
  unfolding assert_mirror_matches_def check_fill_def absorb_fill_def
  by (intro avoids_rules avoids_reads avoids_writes avoids_conflict)+

text \<open>Post-condition of a raise: a pause error leaves nothing uncommitted.\<close>

definition pause_settled :: "exn \<Rightarrow> 'b world \<Rightarrow> bool" where
  "pause_settled e w \<longleftrightarrow> (e = ExecutionPausedError \<longrightarrow> settled w)"

lemma avoids_returns:
  assumes "avoids m" "returns P m Q"
  shows "triple P m Q pause_settled"
proof -
  have "triple P m (\<lambda>_ _. True) (\<lambda>e _. e \<noteq> ExecutionPausedError)"
    using assms(1) by (rule triple_pre) simp
  from triple_conj [OF assms(2) this] show ?thesis
    by (rule triple_weaken) (auto simp: pause_settled_def)
qed

lemma returns_any: "returns P m (\<lambda>_ _. True)"
  by (auto simp: triple_def split: prod.split sum.split)

lemma returns_commit: "returns P (bindM uow_commit (\<lambda>_. returnM a)) (\<lambda>_. settled)"
  by (rule triple_bind [where R = "\<lambda>_. settled"], rule ret_commit) (auto simp: triple_def run_simps)

lemma returns_pause_required:
  "returns settled (pause_for_reconciliation_required eng i c) (\<lambda>_. settled)"
proof -
  have commit: "returns P (catchM uow_commit (\<lambda>_. rollback_and_raise ControlPersistenceError)) (\<lambda>_. settled)" for P
    by (rule triple_catch [where F = "\<lambda>_ _. True"], rule ret_commit)
      (auto simp: rollback_and_raise_def triple_def run_simps split: prod.split sum.split)
  show ?thesis
    unfolding pause_for_reconciliation_required_def
    by (rule triple_if, simp add: triple_def run_simps)
      (rule triple_bind [OF returns_any], rule triple_bind [OF returns_any], rule commit)
qed

lemma settled_env_step: "settled w \<Longrightarrow> settled (env_step w)"
  by (simp add: settled_def env_step_settled)

lemma settled_broker [simp]: "settled (w\<lparr>w_broker := b\<rparr>) = settled w" "settled (w\<lparr>w_trace := t\<rparr>) = settled w"
  "settled (w\<lparr>w_tick := n\<rparr>) = settled w"
  by (simp_all add: settled_def)

lemma settled_broker_call: "triple settled (broker_call op) (\<lambda>_. settled) (\<lambda>_. settled)"
  by (auto simp: triple_def broker_call_def Let_def settled_env_step split: prod.split sum.split)

lemma ret_query_settled: "returns settled (query g) (\<lambda>_. settled)"
  by (rule ret_query) (rule settled_env_step)

lemma settled_reads:
  "returns settled (orders_get cid) (\<lambda>_. settled)" "returns settled (get_broker_order cid) (\<lambda>_. settled)"
  "returns settled (get_broker_order_by_id bid) (\<lambda>_. settled)"
  unfolding orders_get_def get_broker_order_def get_broker_order_by_id_def
  by (rule triple_bind [OF ret_query_settled], rule ret_lift, assumption)+

lemma settled_mirror: "returns settled (assert_mirror_matches eng i b) (\<lambda>_. settled)"
  unfolding assert_mirror_matches_def
proof (rule triple_bind [OF settled_reads(2)], rule triple_bind [OF settled_reads(3)], rule triple_if)
  show "returns settled (mirror_conflict eng i c) (\<lambda>_. settled)" for c
    unfolding mirror_conflict_def by (rule triple_bind [OF returns_any]) (simp add: triple_def run_simps)
qed (simp add: triple_def run_simps)

lemma avoids_mirror_order: "avoids (mirror_order eng i b)"
  unfolding mirror_order_def
proof (rule triple_catch)
  show "avoids (bindM (record_broker_order b) (\<lambda>_. returnM ()))"
    by (intro avoids_rules avoids_writes)
next
  fix e
  show "triple (\<lambda>_. e \<noteq> ExecutionPausedError)
      (if e = BrokerOrderIdentityConflictError
       then bindM (suppressM uow_rollback) (\<lambda>_. mirror_conflict eng i ''broker order identity conflict'')
       else raiseM e) (\<lambda>_ _. True) (\<lambda>e _. e \<noteq> ExecutionPausedError)"
    by (rule triple_if, rule triple_pre [where P' = "\<lambda>_. True"])
      (intro avoids_rules avoids_conflict, simp, simp add: triple_def run_simps)
qed

lemma avoids_advance: "avoids (advance_intent i b)"
  unfolding advance_intent_def by (intro avoids_rules avoids_writes) simp

lemma returns_advance: "returns P (advance_intent i b) (\<lambda>_. settled)"
  unfolding advance_intent_def Let_def
  by (intro triple_if triple_bind [OF returns_any] returns_commit) (simp add: triple_def run_simps)

lemma settled_refresh:
  "triple settled (refresh_from_broker_order eng i b) (\<lambda>_. settled) pause_settled"
  unfolding refresh_from_broker_order_def
proof (rule triple_bind)
  show "triple settled (broker_call (op_list_fills (eng_broker eng) (bo_broker_order_id b)))
      (\<lambda>_ _. True) pause_settled"
    by (rule triple_weaken [OF settled_broker_call]) (auto simp: pause_settled_def)
next
  fix fills
  show "triple (\<lambda>_. True) (bindM (foldM (check_fill eng i b) Map.empty fills) (\<lambda>_.
      bindM (mirror_order eng i b) (\<lambda>_.
      bindM (foldM (\<lambda>_. absorb_fill eng i) () fills) (\<lambda>_. advance_intent i b)))) (\<lambda>_. settled) pause_settled"
    by (rule avoids_returns)
      (intro avoids_rules avoids_mirror avoids_mirror_order avoids_advance,
       intro triple_bind [OF returns_any] returns_advance)
qed

lemma settled_record: "triple settled (record_accepted eng i b) (\<lambda>_. settled) pause_settled"
  unfolding record_accepted_def
  by (rule triple_bind [OF avoids_returns [OF avoids_mirror(1) settled_mirror]], rule settled_refresh)

text \<open>Mark UNKNOWN, commit, pause: the common tail of the ambiguous outcomes.\<close>

lemma settled_mark:
  assumes "\<And>u. returns settled (f u) (\<lambda>_. settled)" "\<And>u. avoids (f u)"
  shows "triple settled (bindM (transition_status cid UNKNOWN) (\<lambda>u. bindM uow_commit (\<lambda>_.
      bindM (pause_for_reconciliation_required eng (h u) c) (\<lambda>_. f u)))) (\<lambda>_. settled) pause_settled"
proof (rule avoids_returns)
  show "avoids (bindM (transition_status cid UNKNOWN) (\<lambda>u. bindM uow_commit (\<lambda>_.
      bindM (pause_for_reconciliation_required eng (h u) c) (\<lambda>_. f u))))"
    by (intro avoids_rules avoids_writes avoids_pause_required assms(2))
  show "returns settled (bindM (transition_status cid UNKNOWN) (\<lambda>u. bindM uow_commit (\<lambda>_.
      bindM (pause_for_reconciliation_required eng (h u) c) (\<lambda>_. f u)))) (\<lambda>_. settled)"
    by (rule triple_bind [OF returns_any], rule triple_bind, rule ret_commit [where Q = "\<lambda>_. settled"], assumption,
        rule triple_bind [OF returns_pause_required], rule assms(1))
qed

lemma returns_const: "returns settled (returnM a) (\<lambda>_. settled)" "returns settled (raiseM e) (\<lambda>_. settled)"
  by (simp_all add: triple_def run_simps)

lemma settled_settle: "triple settled (settle_submission eng i r) (\<lambda>_. settled) pause_settled"
proof (cases r)
  case (Inl e)
  have "avoids (raiseM BrokerMirrorMismatchError)" by (rule avoids_raise) simp
  moreover have "triple settled (raiseM e) (\<lambda>_. settled) pause_settled"
    by (simp add: triple_def run_simps pause_settled_def)
  ultimately show ?thesis
    unfolding settle_submission_def Inl sum.case
    by (intro triple_if settled_mark returns_const avoids_return)
next
  case (Inr x)
  then show ?thesis
    unfolding settle_submission_def
    by (cases x) (auto intro!: settled_record avoids_returns avoids_rules avoids_writes
        triple_bind [OF returns_any] returns_commit)
qed

lemma settled_submit: "triple settled (submit_while_guarded eng i) (\<lambda>_. settled) pause_settled"
  unfolding submit_while_guarded_def
proof (rule triple_bind)
  have "triple settled (broker_submit (eng_broker eng) i) (\<lambda>_. settled) (\<lambda>_. settled)"
    unfolding broker_submit_def
    by (rule triple_bind [OF _ settled_broker_call]) (simp add: note_submission_def triple_def run_simps)
  then show "triple settled (attemptM (broker_submit (eng_broker eng) i)) (\<lambda>_. settled) pause_settled"
    by (rule triple_attempt)
qed (rule settled_settle)

lemma settled_guard:
  "triple settled (entry_submission_guard i (submit_while_guarded eng i)) (\<lambda>_. settled) pause_settled"
  unfolding entry_submission_guard_def
proof (rule triple_if [OF settled_submit])
  let ?body = "\<lambda>state. if cs_entries_paused state then raiseM ExecutionPausedError
       else bindM has_unresolved_intents (\<lambda>blocked.
         if blocked then raiseM ExecutionPausedError else submit_while_guarded eng i)"
  have avoid: "triple P m (\<lambda>_ _. True) pause_settled" if "avoids m" for P and m :: "('a world, 'c) comp"
    using that by (rule triple_weaken) (auto simp: pause_settled_def)
  have undo: "triple P (bindM uow_rollback (\<lambda>_. raiseM e)) (\<lambda>_ _. True) pause_settled" for P e
  proof (rule triple_bind)
    show "triple P uow_rollback (\<lambda>_. settled) pause_settled"
      by (rule avoids_returns) (rule avoids_rules, rule ret_rollback)
  qed (simp add: triple_def run_simps pause_settled_def)
  have commit: "triple P (bindM uow_commit (\<lambda>_. returnM a)) (\<lambda>_. settled) pause_settled" for P a
    by (rule avoids_returns) (intro avoids_rules, rule returns_commit)
  show "triple settled (submission_guard ?body) (\<lambda>_. settled) pause_settled"
    unfolding submission_guard_def
    by (rule triple_bind [OF avoid [OF avoids_query]], rule triple_bind [OF avoid [OF avoids_flags(1)]],
        rule triple_bind [OF triple_catch [OF returns_any undo] commit])
qed

lemma settled_complete: "returns settled (complete_submission eng i) (\<lambda>_. settled)"
  unfolding complete_submission_def
proof (rule triple_catch [OF settled_guard])
  fix e
  have mark: "returns settled (bindM (transition_status (oi_client_order_id i) UNKNOWN) (\<lambda>u.
      bindM uow_commit (\<lambda>_. bindM (pause_for_reconciliation_required eng u c) (\<lambda>_. returnM u)))) (\<lambda>_. settled)" for c
    by (rule triple_weaken [OF settled_mark [where h = "\<lambda>u. u" and f = returnM, OF returns_const(1) avoids_return]]) auto
  show "returns (pause_settled e)
      (if e = ExecutionPausedError then
         if oi_status i = SUBMITTING then
           bindM (transition_status (oi_client_order_id i) UNKNOWN) (\<lambda>unknown.
           bindM uow_commit (\<lambda>_.
           bindM (pause_for_reconciliation_required eng unknown ''ambiguous broker outcome'') (\<lambda>_.
           returnM unknown)))
         else returnM i
       else raiseM e) (\<lambda>_. settled)"
    by (intro triple_if triple_pre [OF mark])
      (simp_all add: pause_settled_def triple_def run_simps)
qed

section \<open>The operations\<close>

lemma safe_and_settled:
  assumes "triple P m (\<lambda>_. safe_trace) (\<lambda>_. safe_trace)" "returns P m (\<lambda>_. settled)"
  shows "triple P m (\<lambda>_ w. settled w \<and> safe_trace w) (\<lambda>_. safe_trace)"
  using triple_conj [OF assms] by (rule triple_weaken) auto

lemma holds_world [simp]: "holds_intent i (w\<lparr>w_broker := b\<rparr>) = holds_intent i w"
  "holds_intent i (w\<lparr>w_tick := n\<rparr>) = holds_intent i w"
  "safe_trace (w\<lparr>w_broker := b\<rparr>) = safe_trace w" "safe_trace (w\<lparr>w_tick := n\<rparr>) = safe_trace w"
  by (simp_all add: holds_intent_def safe_trace_def)

lemma holds_broker_call:
  "triple (\<lambda>w. holds_intent i w \<and> safe_trace w) (broker_call op)
     (\<lambda>_ w. holds_intent i w \<and> safe_trace w) (\<lambda>_. safe_trace)"
  by (auto simp: triple_def broker_call_def Let_def safe_env_pre split: prod.split sum.split)

lemma holds_read_clock:
  "triple (\<lambda>w. holds_intent i w \<and> safe_trace w) read_clock
     (\<lambda>_ w. holds_intent i w \<and> safe_trace w) (\<lambda>_. safe_trace)"
  by (simp add: triple_def read_clock_def)

lemma require_holds:
  "triple (\<lambda>w. settled w \<and> safe_trace w) (require_intent cid)
     (\<lambda>i w. (holds_intent i w \<and> oi_client_order_id i = cid) \<and> safe_trace w) (\<lambda>_. safe_trace)"
proof (rule quiet_returns [OF qs.frame_gates(1)])
  show "returns (\<lambda>w. settled w \<and> safe_trace w) (require_intent cid)
      (\<lambda>i w. holds_intent i w \<and> oi_client_order_id i = cid)"
    unfolding require_intent_def
  proof (rule triple_bind)
    show "returns (\<lambda>w. settled w \<and> safe_trace w) (orders_get cid)
        (\<lambda>f w. settled w \<and> f = find_intent cid (w_committed w))"
      by (rule ret_orders_get) (auto simp: settled_env_step, simp add: settled_def)
    show "returns (\<lambda>w. settled w \<and> f = find_intent cid (w_committed w))
        (case f of None \<Rightarrow> raiseM ExecutionStateError | Some i \<Rightarrow> returnM i)
        (\<lambda>i w. holds_intent i w \<and> oi_client_order_id i = cid)" for f
      by (cases f) (auto simp: triple_def run_simps holds_intent_def dest: sym find_intent_key)
  qed
qed simp

lemma require_settled: "returns settled (require_intent cid) (\<lambda>_. settled)"
  unfolding require_intent_def
  by (rule triple_bind [OF settled_reads(1)]) (auto intro!: triple_case_option returns_const)

lemma safe_quiet_pre:
  "keeps quiet m \<Longrightarrow> (\<And>w. P w \<Longrightarrow> safe_trace w) \<Longrightarrow> triple P m (\<lambda>_. safe_trace) (\<lambda>_. safe_trace)"
  by (rule triple_pre [OF safe_quiet])

lemma resolve_safe:
  "triple (\<lambda>w. settled w \<and> safe_trace w) (resolve eng cid) (\<lambda>_. safe_trace) (\<lambda>_. safe_trace)"
  unfolding resolve_def
proof (rule triple_bind [OF require_holds], rule triple_if)
  fix i
  show "triple (\<lambda>w. (holds_intent i w \<and> oi_client_order_id i = cid) \<and> safe_trace w) (returnM i)
      (\<lambda>_. safe_trace) (\<lambda>_. safe_trace)"
    by (simp add: triple_def run_simps)
  assume st: "\<not> oi_status i \<notin> {SUBMITTING, UNKNOWN}"
  have none: "triple (\<lambda>w. holds_intent i w \<and> safe_trace w)
      (bindM read_clock (\<lambda>now. if now \<ge> oi_cancel_at i then
         bindM (if oi_status i = SUBMITTING then transition_status cid UNKNOWN else returnM i)
           (\<lambda>unknown. bindM uow_commit (\<lambda>_. returnM unknown))
         else complete_submission eng i)) (\<lambda>_. safe_trace) (\<lambda>_. safe_trace)"
    using st by (intro triple_bind [OF holds_read_clock] triple_if complete_safe safe_quiet_pre quiet_rules) auto
  have some: "triple (\<lambda>w. holds_intent i w \<and> safe_trace w)
      (bindM (assert_mirror_matches eng i b) (\<lambda>_. record_accepted eng i b)) (\<lambda>_. safe_trace) (\<lambda>_. safe_trace)" for b
    by (intro safe_quiet_pre quiet_rules engine_quiet) simp
  show "triple (\<lambda>w. (holds_intent i w \<and> oi_client_order_id i = cid) \<and> safe_trace w)
      (bindM (broker_call (op_get_order (eng_broker eng) cid)) (\<lambda>found. case found of
         None \<Rightarrow> bindM read_clock (\<lambda>now. if now \<ge> oi_cancel_at i then
           bindM (if oi_status i = SUBMITTING then transition_status cid UNKNOWN else returnM i)
             (\<lambda>unknown. bindM uow_commit (\<lambda>_. returnM unknown))
           else complete_submission eng i)
       | Some b \<Rightarrow> bindM (assert_mirror_matches eng i b) (\<lambda>_. record_accepted eng i b)))
      (\<lambda>_. safe_trace) (\<lambda>_. safe_trace)"
    by (rule triple_pre [where P' = "\<lambda>w. holds_intent i w \<and> safe_trace w"])
      (intro triple_bind [OF holds_broker_call] triple_case_option none some, simp)
qed

lemma read_clock_settled: "returns settled read_clock (\<lambda>_. settled)"
  by (simp add: triple_def read_clock_def)

lemma returns_settled: "triple settled m (\<lambda>_. settled) E \<Longrightarrow> returns settled m (\<lambda>_. settled)"
  by (erule triple_weaken) auto

lemma resolve_settled: "returns settled (resolve eng cid) (\<lambda>_. settled)"
  unfolding resolve_def
  by (intro triple_bind [OF require_settled] triple_if returns_const triple_case_option
      triple_bind [OF returns_settled [OF settled_broker_call]] triple_bind [OF read_clock_settled]
      triple_bind [OF settled_mirror] returns_settled [OF settled_record] settled_complete
      triple_bind [OF returns_any] returns_commit)

lemma ret_transition:
  assumes "\<And>w i. P w \<Longrightarrow> \<not> w_aborted w \<Longrightarrow> find_intent cid (w_working w) = Some i \<Longrightarrow>
    oi_status i = target \<or> order_transition_allowed (oi_status i) target \<Longrightarrow>
    Q (i\<lparr>oi_status := target\<rparr>) ((env_step w)\<lparr>w_working := set_intent_status cid target (w_working (env_step w)),
      w_dirty := True\<rparr>)"
  shows "returns P (transition_status cid target) Q"
  unfolding transition_status_def
proof (rule triple_bind)
  show "returns P (statement (sql_update_intent_status cid target))
      (\<lambda>row v. case row of None \<Rightarrow> True | Some r \<Rightarrow> Q r (v\<lparr>w_dirty := True\<rparr>))"
    using assms by (intro ret_statement)
      (auto simp: sql_update_intent_status_def order_guard_eq split: option.splits if_splits)
  show "returns (\<lambda>v. case row of None \<Rightarrow> True | Some r \<Rightarrow> Q r (v\<lparr>w_dirty := True\<rparr>))
      (case row of None \<Rightarrow> raiseM PersistenceInvariantError
       | Some r \<Rightarrow> bindM mark_write (\<lambda>_. liftM (load_intent r))) Q" for row
    by (cases row) (auto simp: triple_def run_simps mark_write_def dest: load_intent_eq split: sum.splits)
qed

text \<open>After the transition and the commit the committed row is the one that was returned.\<close>

lemma reserve_holds:
  "returns P (bindM (transition_status cid target) (\<lambda>i. bindM uow_commit (\<lambda>_. returnM i)))
     (\<lambda>i w. holds_intent i w \<and> oi_status i = target)"
proof (rule triple_bind)
  show "returns P (transition_status cid target) (\<lambda>i w. \<not> w_aborted w \<and> oi_status i = target
      \<and> find_intent (oi_client_order_id i) (w_working w) = Some i)"
    by (rule ret_transition) (auto simp: find_intent_set_status dest: find_intent_key)
  show "returns (\<lambda>w. \<not> w_aborted w \<and> oi_status i = target
      \<and> find_intent (oi_client_order_id i) (w_working w) = Some i)
      (bindM uow_commit (\<lambda>_. returnM i)) (\<lambda>i w. holds_intent i w \<and> oi_status i = target)" for i
  proof (rule triple_bind)
    show "returns (\<lambda>w. \<not> w_aborted w \<and> oi_status i = target
        \<and> find_intent (oi_client_order_id i) (w_working w) = Some i) uow_commit
        (\<lambda>_ w. holds_intent i w \<and> oi_status i = target)"
      by (rule ret_commit) (simp add: holds_intent_def)
  qed (simp add: triple_def run_simps)
qed

lemma settled_gates:
  "returns settled (assert_entries_allowed eng i) (\<lambda>_. settled)"
  "returns settled (assert_asset_tradable eng i) (\<lambda>_. settled)"
proof -
  have "returns settled control_read (\<lambda>_. settled)"
    unfolding control_read_def by (rule triple_bind [OF ret_query_settled], rule ret_lift, assumption)
  then have "returns settled (engine_control_state eng) (\<lambda>_. settled)"
    unfolding engine_control_state_def
    by (intro triple_if) (auto simp: triple_def Let_def settled_env_step split: sum.split)
  then show "returns settled (assert_entries_allowed eng i) (\<lambda>_. settled)"
    unfolding assert_entries_allowed_def by (intro triple_if inv_bind returns_const)
  show "returns settled (assert_asset_tradable eng i) (\<lambda>_. settled)"
    unfolding assert_asset_tradable_def
    by (intro triple_bind [OF returns_settled [OF settled_broker_call]] triple_if returns_const)
qed

lemma both_gates:
  assumes "keeps quiet m" "returns settled m (\<lambda>_. settled)"
  shows "triple (\<lambda>w. settled w \<and> safe_trace w) m (\<lambda>_ w. settled w \<and> safe_trace w) (\<lambda>_. safe_trace)"
  by (rule safe_and_settled) (auto intro: safe_quiet_pre [OF assms(1)] triple_pre [OF assms(2)])

lemma reserve_safe:
  "triple safe_trace
     (bindM (transition_status cid SUBMITTING) (\<lambda>i. bindM uow_commit (\<lambda>_. complete_submission eng i)))
     (\<lambda>_ w. settled w \<and> safe_trace w) (\<lambda>_. safe_trace)"
proof -
  let ?reserve = "bindM (transition_status cid SUBMITTING) (\<lambda>i. bindM uow_commit (\<lambda>_. returnM i))
    :: ('a world, order_intent) comp"
  have r: "triple safe_trace ?reserve
      (\<lambda>i w. (holds_intent i w \<and> oi_status i = SUBMITTING) \<and> safe_trace w) (\<lambda>_. safe_trace)"
    by (rule quiet_returns) (intro quiet_rules, rule reserve_holds, auto)
  have c: "triple (\<lambda>w. (holds_intent i w \<and> oi_status i = SUBMITTING) \<and> safe_trace w) (complete_submission eng i)
      (\<lambda>_ w. settled w \<and> safe_trace w) (\<lambda>_. safe_trace)" for i
  proof (cases "oi_status i = SUBMITTING")
    case True
    then show ?thesis
      by (intro safe_and_settled triple_pre [OF complete_safe] triple_pre [OF settled_complete])
        (auto simp: holds_intent_def)
  qed (simp add: triple_def)
  have "bindM (transition_status cid SUBMITTING) (\<lambda>i. bindM uow_commit (\<lambda>_. complete_submission eng i))
      = bindM ?reserve (complete_submission eng)"
    by (simp add: bindM_assoc)
  with triple_bind [OF r c] show ?thesis by simp
qed

lemma submit_from_outbox_safe:
  "triple (\<lambda>w. settled w \<and> safe_trace w) (submit_from_outbox eng cid)
     (\<lambda>_ w. settled w \<and> safe_trace w) (\<lambda>_. safe_trace)"
  unfolding submit_from_outbox_def
  by (intro triple_bind [OF both_gates [OF qs.frame_gates(1) require_settled]] triple_if
      triple_bind [OF both_gates [OF qs.frame_gates(3) settled_gates(1)]]
      triple_bind [OF both_gates [OF qs.frame_gates(4) settled_gates(2)]] reserve_safe [THEN triple_pre])
    (auto simp: triple_def run_simps)

text \<open>A submission from an open transaction is as safe: it commits its reservation first.\<close>

lemma submit_unsettled_safe:
  "triple safe_trace (submit_from_outbox eng cid) (\<lambda>_. safe_trace) (\<lambda>_. safe_trace)"
proof -
  have reserve: "triple safe_trace
      (bindM (transition_status cid SUBMITTING) (\<lambda>i. bindM uow_commit (\<lambda>_. complete_submission eng i)))
      (\<lambda>_. safe_trace) (\<lambda>_. safe_trace)"
    by (rule triple_weaken [OF reserve_safe]) auto
  show ?thesis
    unfolding submit_from_outbox_def
    by (intro triple_bind [OF safe_quiet] triple_if reserve qs.frame_gates) (simp add: triple_def run_simps)
qed

lemma resolve_both:
  "triple (\<lambda>w. settled w \<and> safe_trace w) (resolve eng cid) (\<lambda>_ w. settled w \<and> safe_trace w) (\<lambda>_. safe_trace)"
  by (rule safe_and_settled [OF resolve_safe], rule triple_pre [OF resolve_settled]) simp

lemma list_settled: "returns settled (list_by_status st) (\<lambda>_. settled)"
  by (rule ret_list_by_status) (rule settled_env_step)

lemma list_both:
  "triple (\<lambda>w. settled w \<and> safe_trace w) (list_by_status st) (\<lambda>_ w. settled w \<and> safe_trace w) (\<lambda>_. safe_trace)"
  by (rule both_gates [OF quiet_store(2) list_settled])

lemma both_return:
  "triple (\<lambda>w. settled w \<and> safe_trace w) (returnM a) (\<lambda>_ w. settled w \<and> safe_trace w) (\<lambda>_. safe_trace)"
  by (simp add: triple_def run_simps)

lemma recover_safe:
  "triple (\<lambda>w. settled w \<and> safe_trace w) (recover eng) (\<lambda>_ w. settled w \<and> safe_trace w) (\<lambda>_. safe_trace)"
  unfolding recover_def
  by (intro inv_bind inv_fold list_both resolve_both both_return)

lemma expire_ambiguous_safe:
  "triple (\<lambda>w. settled w \<and> safe_trace w) (expire_ambiguous eng now closed)
     (\<lambda>_ w. settled w \<and> safe_trace w) (\<lambda>_. safe_trace)"
  unfolding expire_ambiguous_def
  by (intro inv_fold inv_bind triple_if list_both resolve_both both_return)

lemma expire_overdue_safe:
  "triple (\<lambda>w. settled w \<and> safe_trace w) (expire_overdue eng) (\<lambda>_. safe_trace) (\<lambda>_. safe_trace)"
  unfolding expire_overdue_def
proof (rule triple_bind)
  show "triple (\<lambda>w. settled w \<and> safe_trace w) read_clock (\<lambda>_ w. settled w \<and> safe_trace w) (\<lambda>_. safe_trace)"
    by (rule both_gates [OF quiet_store(27) read_clock_settled])
  show "triple (\<lambda>w. settled w \<and> safe_trace w)
      (bindM (expire_ambiguous eng now []) (\<lambda>closed. bindM (expire_unsent now closed) (\<lambda>closed.
       bindM (expire_live eng now closed) (\<lambda>closed. bindM (if closed \<noteq> [] then uow_commit else returnM ())
       (\<lambda>_. returnM (map snd closed)))))) (\<lambda>_. safe_trace) (\<lambda>_. safe_trace)" for now
    by (rule triple_bind [OF expire_ambiguous_safe], rule safe_quiet_pre) (intro quiet_rules engine_quiet, simp)
qed

end
