(* ===== verification/Fake_Broker.thy ===== *)
theory Fake_Broker
  imports Broker_Port
begin

text \<open>
  \<open>execution/fake_broker.py\<close>: the deterministic in-memory Paper broker. Its state is
  a record of the attributes of \<open>FakePaperBroker\<close> that its methods read; dicts are
  insertion-ordered association lists. The mutable \<open>_OrderState\<close> objects live in the
  \<open>_orders\<close> dict only, so updating one is updating its entry.
\<close>

section \<open>Scripts\<close>

datatype fake_submit_outcome = ACKNOWLEDGE | REJECT | TIMEOUT_BEFORE_ACCEPT | TIMEOUT_AFTER_ACCEPT
datatype fake_cancel_mode = IMMEDIATE | PENDING | TIMEOUT

record fake_fill_step =
  ff_quantity :: int
  ff_price :: int

record fake_submit_plan =
  fp_outcome :: fake_submit_outcome
  fp_first_fill :: "fake_fill_step option"
  fp_rejection_reason :: "rejection_reason option"

definition fake_submit_plan_post_init :: "fake_submit_plan \<Rightarrow> fake_submit_plan outcome" where
  "fake_submit_plan_post_init p =
     (if fp_outcome p = REJECT then
        bindO (require (fp_rejection_reason p \<noteq> None)) (\<lambda>_.
        bindO (require (fp_first_fill p = None)) (\<lambda>_. Inr p))
      else bindO (require (fp_rejection_reason p = None)) (\<lambda>_. Inr p))"

record order_state =
  os_order :: broker_order
  os_fills :: "fill list"

type_synonym submit_params = "string \<times> order_side \<times> int \<times> int"

record fake_broker =
  fb_clock :: "nat \<Rightarrow> utc"
  fb_ticks :: nat
  fb_plans :: "(string \<times> fake_submit_plan) list"
  fb_default_plan :: fake_submit_plan
  fb_cash :: int
  fb_equity :: int
  fb_buying_power :: int
  fb_account_id :: string
  fb_cancel_mode :: fake_cancel_mode
  fb_hidden_client_ids :: "string list"
  fb_assets :: "(string \<times> paper_asset) list"
  fb_unknown_assets :: "string list"
  fb_orders :: "(string \<times> order_state) list"
  fb_by_client :: "(string \<times> string) list"
  fb_submit_params :: "(string \<times> submit_params) list"
  fb_results :: "(string \<times> submit_result) list"
  fb_sequence :: nat

section \<open>Order state\<close>

definition fb_now :: "(fake_broker, utc) comp" where
  "fb_now b = (Inr (fb_clock b (fb_ticks b)), b\<lparr>fb_ticks := Suc (fb_ticks b)\<rparr>)"

definition order_state_of :: "string \<Rightarrow> (fake_broker, order_state) comp" where
  "order_state_of bid b =
     (case map_of (fb_orders b) bid of None \<Rightarrow> (Inl KeyError, b) | Some s \<Rightarrow> (Inr s, b))"

definition put_order :: "string \<Rightarrow> order_state \<Rightarrow> (fake_broker, unit) comp" where
  "put_order bid s = modifyM (\<lambda>b. b\<lparr>fb_orders := dict_set bid s (fb_orders b)\<rparr>)"

definition next_sequence :: "(fake_broker, nat) comp" where
  "next_sequence b = (Inr (Suc (fb_sequence b)), b\<lparr>fb_sequence := Suc (fb_sequence b)\<rparr>)"

definition fb_transition :: "string \<Rightarrow> broker_order_status \<Rightarrow> (fake_broker, unit) comp" where
  "fb_transition bid target =
     bindM (order_state_of bid) (\<lambda>s.
     bindM (liftM (assert_broker_order_transition (bo_status (os_order s)) target)) (\<lambda>_.
     bindM fb_now (\<lambda>now.
     put_order bid (s\<lparr>os_order := (os_order s)\<lparr>bo_status := target, bo_updated_at := now\<rparr>\<rparr>))))"

definition apply_fill_step :: "string \<Rightarrow> fake_fill_step \<Rightarrow> (fake_broker, fill) comp" where
  "apply_fill_step bid step =
     bindM (order_state_of bid) (\<lambda>s.
       let order = os_order s; new_filled = bo_filled_quantity order + ff_quantity step in
       if new_filled > bo_quantity order then raiseM ValueError
       else
         bindM next_sequence (\<lambda>n.
         bindM fb_now (\<lambda>now.
         bindM (liftM (fill_post_init
                  \<lparr>fl_execution_id = ''fake-exec-'' @ zfill 6 (show_nat n),
                   fl_broker_order_id = bo_broker_order_id order, fl_quantity = ff_quantity step,
                   fl_price = ff_price step, fl_occurred_at = now\<rparr>)) (\<lambda>f.
         bindM (fb_transition bid (if new_filled = bo_quantity order then B_FILLED else B_PARTIALLY_FILLED)) (\<lambda>_.
         bindM (order_state_of bid) (\<lambda>s.
         bindM (put_order bid (s\<lparr>os_order := (os_order s)\<lparr>bo_filled_quantity := new_filled\<rparr>,
                                os_fills := os_fills s @ [f]\<rparr>)) (\<lambda>_.
         returnM f)))))))"

definition record_accepted_order :: "order_intent \<Rightarrow> fake_submit_plan \<Rightarrow> (fake_broker, order_state) comp" where
  "record_accepted_order intent plan =
     bindM next_sequence (\<lambda>n.
       let bid = ''fake-order-'' @ zfill 6 (show_nat n) in
       bindM fb_now (\<lambda>now.
       bindM (liftM (broker_order_post_init
                \<lparr>bo_broker_order_id = bid, bo_client_order_id = oi_client_order_id intent,
                 bo_symbol = oi_symbol intent, bo_side = oi_side intent, bo_quantity = oi_quantity intent,
                 bo_filled_quantity = 0, bo_limit_price = oi_limit_price intent,
                 bo_status = (if fp_outcome plan = TIMEOUT_AFTER_ACCEPT then B_RECEIVED else B_ACCEPTED),
                 bo_submitted_at = now, bo_updated_at = now\<rparr>)) (\<lambda>order.
       bindM (put_order bid \<lparr>os_order = order, os_fills = []\<rparr>) (\<lambda>_.
       bindM (modifyM (\<lambda>b. b\<lparr>fb_by_client := dict_set (oi_client_order_id intent) bid (fb_by_client b)\<rparr>)) (\<lambda>_.
       bindM (case fp_first_fill plan of None \<Rightarrow> returnM ()
              | Some step \<Rightarrow> bindM (apply_fill_step bid step) (\<lambda>_. returnM ())) (\<lambda>_.
       order_state_of bid))))))"

section \<open>The port operations\<close>

definition fb_account :: "(fake_broker, paper_account) comp" where
  "fb_account b =
     (paper_account_post_init
        \<lparr>ac_account_id = fb_account_id b, ac_environment = PAPER, ac_cash = fb_cash b,
         ac_equity = fb_equity b, ac_buying_power = fb_buying_power b\<rparr>, b)"

definition params_of :: "order_intent \<Rightarrow> submit_params" where
  "params_of i = (oi_symbol i, oi_side i, oi_quantity i, oi_limit_price i)"

definition pop_plan :: "string \<Rightarrow> (fake_broker, fake_submit_plan) comp" where
  "pop_plan cid b =
     (case map_of (fb_plans b) cid of
        None \<Rightarrow> (Inr (fb_default_plan b), b)
      | Some p \<Rightarrow> (Inr p, b\<lparr>fb_plans := filter (\<lambda>e. fst e \<noteq> cid) (fb_plans b)\<rparr>))"

definition resubmit :: "string \<Rightarrow> (fake_broker, submit_result) comp" where
  "resubmit cid =
     bindM (getsM (\<lambda>b. map_of (fb_results b) cid)) (\<lambda>result.
       case result of
         Some (SubmitRejected reason) \<Rightarrow> returnM (SubmitRejected reason)
       | _ \<Rightarrow>
           bindM (getsM (\<lambda>b. map_of (fb_by_client b) cid)) (\<lambda>found.
             case found of
               None \<Rightarrow> raiseM BrokerTransportError
             | Some bid \<Rightarrow> bindM (order_state_of bid) (\<lambda>s. returnM (SubmitAccepted (os_order s)))))"

definition first_submit :: "order_intent \<Rightarrow> (fake_broker, submit_result) comp" where
  "first_submit intent =
     (let cid = oi_client_order_id intent in
      bindM (pop_plan cid) (\<lambda>plan.
        if fp_outcome plan = TIMEOUT_BEFORE_ACCEPT then raiseM BrokerTransportError
        else
          bindM (modifyM (\<lambda>b. b\<lparr>fb_submit_params := dict_set cid (params_of intent) (fb_submit_params b)\<rparr>)) (\<lambda>_.
          if fp_outcome plan = REJECT then
            (case fp_rejection_reason plan of
               None \<Rightarrow> raiseM TypeError
             | Some reason \<Rightarrow>
                 bindM (modifyM (\<lambda>b. b\<lparr>fb_results := dict_set cid (SubmitRejected reason) (fb_results b)\<rparr>)) (\<lambda>_.
                 returnM (SubmitRejected reason)))
          else
            bindM (record_accepted_order intent plan) (\<lambda>s.
              if fp_outcome plan = TIMEOUT_AFTER_ACCEPT then raiseM BrokerTransportError
              else
                bindM (modifyM (\<lambda>b. b\<lparr>fb_results := dict_set cid (SubmitAccepted (os_order s)) (fb_results b)\<rparr>)) (\<lambda>_.
                returnM (SubmitAccepted (os_order s)))))))"

definition fb_submit_order :: "order_intent \<Rightarrow> (fake_broker, submit_result) comp" where
  "fb_submit_order intent =
     bindM (getsM (\<lambda>b. map_of (fb_submit_params b) (oi_client_order_id intent))) (\<lambda>previous.
       case previous of
         Some params \<Rightarrow>
           if params \<noteq> params_of intent then raiseM BrokerConflictError
           else resubmit (oi_client_order_id intent)
       | None \<Rightarrow> first_submit intent)"

definition fb_get_order :: "string \<Rightarrow> (fake_broker, broker_order option) comp" where
  "fb_get_order cid =
     bindM (getsM (\<lambda>b. cid \<in> set (fb_hidden_client_ids b))) (\<lambda>hidden.
       if hidden then returnM None
       else
         bindM (getsM (\<lambda>b. map_of (fb_by_client b) cid)) (\<lambda>found.
           case found of
             None \<Rightarrow> returnM None
           | Some bid \<Rightarrow> bindM (order_state_of bid) (\<lambda>s. returnM (Some (os_order s)))))"

definition sorted_orders :: "fake_broker \<Rightarrow> broker_order list" where
  "sorted_orders b = map (os_order \<circ> snd) (sort_key fst (fb_orders b))"

definition fb_list_recent_orders :: "utc \<Rightarrow> (fake_broker, broker_order list) comp" where
  "fb_list_recent_orders since = getsM (\<lambda>b. filter (\<lambda>o'. bo_updated_at o' \<ge> since) (sorted_orders b))"

definition fb_list_open_orders :: "(fake_broker, broker_order list) comp" where
  "fb_list_open_orders = getsM (\<lambda>b. filter is_open (sorted_orders b))"

definition fb_get_asset :: "string \<Rightarrow> (fake_broker, paper_asset option) comp" where
  "fb_get_asset symbol =
     bindM (getsM (\<lambda>b. symbol \<in> set (fb_unknown_assets b))) (\<lambda>unknown.
       if unknown then returnM None
       else
         bindM (getsM (\<lambda>b. map_of (fb_assets b) symbol)) (\<lambda>existing.
           case existing of
             Some a \<Rightarrow> returnM (Some a)
           | None \<Rightarrow>
               bindM (liftM (paper_asset_post_init
                        \<lparr>pa_symbol = symbol, pa_asset_class = US_EQUITY, pa_status = ACTIVE,
                         pa_tradable = True, pa_exchange = ''ARCA''\<rparr>)) (\<lambda>a. returnM (Some a))))"

text \<open>The position view: quantity and cost per symbol over the fills in order-id order.\<close>

type_synonym holdings = "(string \<times> int \<times> int) list"

definition hold :: "broker_order \<Rightarrow> fill \<Rightarrow> holdings \<Rightarrow> holdings outcome" where
  "hold order f hs =
     (let symbol = bo_symbol order;
          (quantity, cost) = (case map_of hs symbol of None \<Rightarrow> (0, 0) | Some qc \<Rightarrow> qc)
      in if bo_side order = BUY then
           Inr (dict_set symbol (quantity + fl_quantity f, cost + fl_quantity f * fl_price f) hs)
         else if fl_quantity f > quantity then Inl BrokerConflictError
         else let average = (if quantity \<noteq> 0 then cost div quantity else 0)
              in Inr (dict_set symbol (quantity - fl_quantity f, cost - average * fl_quantity f) hs))"

fun hold_all :: "(broker_order \<times> fill) list \<Rightarrow> holdings \<Rightarrow> holdings outcome" where
  "hold_all [] hs = Inr hs"
| "hold_all ((order, f) # rest) hs = bindO (hold order f hs) (hold_all rest)"

definition position_of :: "string \<times> int \<times> int \<Rightarrow> paper_position outcome" where
  "position_of h =
     (case h of (symbol, quantity, invested) \<Rightarrow>
        bindO (Symbol symbol) (\<lambda>_.
        bindO (price_from_cents (max (invested div quantity) 1)) (\<lambda>price.
        paper_position_post_init
          \<lparr>pp_symbol = symbol, pp_quantity = quantity, pp_average_entry_price = price\<rparr>)))"

definition fb_list_positions :: "(fake_broker, paper_position list) comp" where
  "fb_list_positions b =
     (bindO (hold_all (concat (map (\<lambda>(bid, s). map (Pair (os_order s)) (os_fills s))
               (sort_key fst (fb_orders b)))) [])
        (\<lambda>hs. mapO position_of (filter (\<lambda>h. \<not> fst (snd h) < 1) (sort_key fst hs))), b)"

definition fb_list_fills :: "string \<Rightarrow> (fake_broker, fill list) comp" where
  "fb_list_fills bid = getsM (\<lambda>b. case map_of (fb_orders b) bid of None \<Rightarrow> [] | Some s \<Rightarrow> os_fills s)"

definition fb_cancel_order :: "string \<Rightarrow> (fake_broker, bool) comp" where
  "fb_cancel_order bid =
     bindM (getsM (\<lambda>b. (map_of (fb_orders b) bid, fb_cancel_mode b))) (\<lambda>(found, mode).
       case found of
         None \<Rightarrow> returnM False
       | Some s \<Rightarrow>
           if \<not> is_open (os_order s) then returnM False
           else if mode = TIMEOUT then raiseM BrokerTransportError
           else if mode = PENDING then bindM (fb_transition bid B_PENDING_CANCEL) (\<lambda>_. returnM True)
           else bindM (fb_transition bid B_CANCELED) (\<lambda>_. returnM True))"

definition fake_ops :: "fake_broker broker_ops" where
  "fake_ops =
     \<lparr>op_account = fb_account, op_submit_order = fb_submit_order, op_get_order = fb_get_order,
      op_list_recent_orders = fb_list_recent_orders, op_list_open_orders = fb_list_open_orders,
      op_list_positions = fb_list_positions, op_list_fills = fb_list_fills,
      op_get_asset = fb_get_asset, op_cancel_order = fb_cancel_order\<rparr>"

section \<open>Scripted broker events\<close>

definition reveal_order :: "string \<Rightarrow> (fake_broker, unit) comp" where
  "reveal_order cid =
     modifyM (\<lambda>b. b\<lparr>fb_hidden_client_ids := filter (\<lambda>c. c \<noteq> cid) (fb_hidden_client_ids b)\<rparr>)"

definition resolve_pending_cancel :: "string \<Rightarrow> (fake_broker, unit) comp" where
  "resolve_pending_cancel bid =
     bindM (getsM (\<lambda>b. map_of (fb_orders b) bid)) (\<lambda>found.
       case found of
         None \<Rightarrow> raiseM ValueError
       | Some s \<Rightarrow> if bo_status (os_order s) \<noteq> B_PENDING_CANCEL then raiseM ValueError
                   else fb_transition bid B_CANCELED)"

definition fb_apply_fill :: "string \<Rightarrow> fake_fill_step \<Rightarrow> (fake_broker, fill) comp" where
  "fb_apply_fill bid step =
     bindM (getsM (\<lambda>b. map_of (fb_orders b) bid)) (\<lambda>found.
       case found of
         None \<Rightarrow> raiseM ValueError
       | Some s \<Rightarrow> if \<not> is_open (os_order s) then raiseM ValueError else apply_fill_step bid step)"

definition expire_order :: "string \<Rightarrow> (fake_broker, bool) comp" where
  "expire_order bid =
     bindM (getsM (\<lambda>b. map_of (fb_orders b) bid)) (\<lambda>found.
       case found of
         None \<Rightarrow> returnM False
       | Some s \<Rightarrow> if \<not> is_open (os_order s) then returnM False
                   else bindM (fb_transition bid B_EXPIRED) (\<lambda>_. returnM True))"

definition force_status :: "string \<Rightarrow> broker_order_status \<Rightarrow> (fake_broker, unit) comp" where
  "force_status cid st =
     bindM (getsM (\<lambda>b. map_of (fb_by_client b) cid)) (\<lambda>found.
       case found of None \<Rightarrow> raiseM ValueError | Some bid \<Rightarrow> fb_transition bid st)"

section \<open>Consistency of the broker's books\<close>

definition fake_bid :: "nat \<Rightarrow> string" where
  "fake_bid n = ''fake-order-'' @ zfill 6 (show_nat n)"

definition fake_book :: "fake_broker \<Rightarrow> broker_order list" where
  "fake_book b = map (os_order \<circ> snd) (fb_orders b)"

definition order_params :: "broker_order \<Rightarrow> submit_params" where
  "order_params o' = (bo_symbol o', bo_side o', bo_quantity o', bo_limit_price o')"

definition fake_agree ::
  "(string \<rightharpoonup> order_state) \<Rightarrow> (string \<rightharpoonup> string) \<Rightarrow> (string \<rightharpoonup> submit_params) \<Rightarrow> nat \<Rightarrow> bool" where
  "fake_agree om cm pm n \<longleftrightarrow>
     (\<forall>k s. om k = Some s \<longrightarrow> bo_broker_order_id (os_order s) = k
        \<and> cm (bo_client_order_id (os_order s)) = Some k \<and> (\<exists>m \<le> n. k = fake_bid m))
     \<and> (\<forall>c k. cm c = Some k \<longrightarrow> (\<exists>s. om k = Some s \<and> bo_client_order_id (os_order s) = c
        \<and> pm c = Some (order_params (os_order s))))"

definition fake_inv :: "fake_broker \<Rightarrow> bool" where
  "fake_inv b \<longleftrightarrow> distinct (map fst (fb_orders b))
     \<and> fake_agree (map_of (fb_orders b)) (map_of (fb_by_client b)) (map_of (fb_submit_params b)) (fb_sequence b)"

definition fake_frame :: "fake_broker \<Rightarrow> fake_broker \<Rightarrow> bool" where
  "fake_frame b b' \<longleftrightarrow> (fake_inv b \<longrightarrow> fake_inv b' \<and> list_all2 same_order (fake_book b) (fake_book b')
     \<and> fb_by_client b' = fb_by_client b \<and> fb_submit_params b' = fb_submit_params b)"

lemma fake_bid_inject: "fake_bid m = fake_bid n \<Longrightarrow> m = n"
proof -
  assume "fake_bid m = fake_bid n"
  then have "read_nat (zfill 6 (show_nat m)) = read_nat (zfill 6 (show_nat n))"
    by (simp add: fake_bid_def)
  then show "m = n" by simp
qed

lemma dict_set_rel:
  assumes "map_of xs k = Some u" "R u v" "\<And>x. R x x"
  shows "list_all2 (\<lambda>p q. R (snd p) (snd q)) xs (dict_set k v xs)"
  using assms by (induction xs) (auto simp: list_all2_refl split: if_splits)

interpretation ff: effect_frame fake_frame
proof
  fix b c d :: fake_broker
  show "fake_frame b b" by (simp add: fake_frame_def list_all2_refl)
  show "fake_frame b c \<Longrightarrow> fake_frame c d \<Longrightarrow> fake_frame b d"
    by (auto simp: fake_frame_def intro: same_orders_trans)
qed

text \<open>Replacing an order by one with the same identity.\<close>

lemma agree_order:
  "fake_agree om cm pm n \<Longrightarrow> om k = Some s \<Longrightarrow> bo_broker_order_id (os_order s) = k
     \<and> cm (bo_client_order_id (os_order s)) = Some k \<and> (\<exists>m \<le> n. k = fake_bid m)"
  by (simp add: fake_agree_def)

lemma agree_client:
  "fake_agree om cm pm n \<Longrightarrow> cm c = Some k \<Longrightarrow> \<exists>s. om k = Some s \<and> bo_client_order_id (os_order s) = c
     \<and> pm c = Some (order_params (os_order s))"
  by (simp add: fake_agree_def)

lemma agreeI:
  assumes "\<And>k s. om k = Some s \<Longrightarrow> bo_broker_order_id (os_order s) = k
      \<and> cm (bo_client_order_id (os_order s)) = Some k \<and> (\<exists>m \<le> n. k = fake_bid m)"
    and "\<And>c k. cm c = Some k \<Longrightarrow> \<exists>s. om k = Some s \<and> bo_client_order_id (os_order s) = c
      \<and> pm c = Some (order_params (os_order s))"
  shows "fake_agree om cm pm n"
  using assms by (simp add: fake_agree_def)

lemma agree_same:
  assumes "fake_agree om cm pm n" "om k = Some s" "same_order (os_order s) (os_order t)"
  shows "fake_agree (om(k \<mapsto> t)) cm pm n"
proof (rule agreeI)
  have same: "bo_client_order_id (os_order t) = bo_client_order_id (os_order s)"
    "bo_broker_order_id (os_order t) = bo_broker_order_id (os_order s)"
    "order_params (os_order t) = order_params (os_order s)"
    using assms(3) by (simp_all add: same_order_def order_params_def)
  show "bo_broker_order_id (os_order u) = k' \<and> cm (bo_client_order_id (os_order u)) = Some k' \<and> (\<exists>m \<le> n. k' = fake_bid m)"
    if "(om(k \<mapsto> t)) k' = Some u" for k' u
    using agree_order [OF assms(1), of k'] assms(2) that same by (cases "k' = k") auto
  show "\<exists>u. (om(k \<mapsto> t)) k' = Some u \<and> bo_client_order_id (os_order u) = c \<and> pm c = Some (order_params (os_order u))"
    if "cm c = Some k'" for c k'
    using agree_client [OF assms(1) that] assms(2) same by (cases "k' = k") auto
qed

lemma agree_later: "fake_agree om cm pm n \<Longrightarrow> fake_agree om cm pm (Suc n)"
  unfolding fake_agree_def by (meson le_SucI)

lemma put_same:
  assumes "map_of (fb_orders b) k = Some s" "same_order (os_order s) (os_order t)"
  shows "fake_frame b (b\<lparr>fb_ticks := n, fb_orders := dict_set k t (fb_orders b)\<rparr>)"
proof -
  have "list_all2 (\<lambda>p q. same_order (os_order (snd p)) (os_order (snd q)))
      (fb_orders b) (dict_set k t (fb_orders b))"
    by (rule dict_set_rel [OF assms(1), where R = "\<lambda>x y. same_order (os_order x) (os_order y)"])
      (simp_all add: assms(2))
  then have book: "list_all2 same_order (fake_book b)
      (fake_book (b\<lparr>fb_ticks := n, fb_orders := dict_set k t (fb_orders b)\<rparr>))"
    by (simp add: fake_book_def list_all2_map1 list_all2_map2 o_def)
  have key: "k \<in> fst ` set (fb_orders b)" using assms(1) by (force dest: map_of_SomeD)
  show ?thesis
    using book agree_same [where om = "map_of (fb_orders b)", OF _ assms] key by (simp add: fake_frame_def fake_inv_def dict_set_map_fst)
qed

lemma fake_primitives:
  "keeps fake_frame fb_now" "keeps fake_frame next_sequence" "keeps fake_frame (order_state_of bid)"
  by (auto simp: keeps_def fb_now_def next_sequence_def order_state_of_def fake_frame_def fake_inv_def
      fake_book_def list_all2_refl agree_later split: option.split)

lemma fake_transition: "keeps fake_frame (fb_transition bid st)"
proof -
  have "fake_frame b (snd (fb_transition bid st b))" for b
  proof (cases "map_of (fb_orders b) bid")
    case None
    then show ?thesis by (simp add: fb_transition_def run_simps order_state_of_def ff.frame_refl)
  next
    case (Some s)
    have "same_order (os_order s) (os_order (s\<lparr>os_order := (os_order s)\<lparr>bo_status := st, bo_updated_at := t\<rparr>\<rparr>))" for t
      by (simp add: same_order_def)
    from put_same [OF Some this] Some show ?thesis
      by (simp add: fb_transition_def run_simps order_state_of_def fb_now_def put_order_def ff.frame_refl
          split: sum.split)
  qed
  then show ?thesis by (simp add: keeps_def)
qed

lemma fake_book_fill:
  "keeps fake_frame (bindM (order_state_of bid) (\<lambda>s.
     bindM (put_order bid (s\<lparr>os_order := (os_order s)\<lparr>bo_filled_quantity := q\<rparr>, os_fills := os_fills s @ [f]\<rparr>))
       (\<lambda>_. returnM f)))"
proof -
  have "fake_frame b (snd (bindM (order_state_of bid) (\<lambda>s.
     bindM (put_order bid (s\<lparr>os_order := (os_order s)\<lparr>bo_filled_quantity := q\<rparr>, os_fills := os_fills s @ [f]\<rparr>))
       (\<lambda>_. returnM f)) b))" for b
  proof (cases "map_of (fb_orders b) bid")
    case None
    then show ?thesis by (simp add: run_simps order_state_of_def ff.frame_refl)
  next
    case (Some s)
    have "same_order (os_order s)
        (os_order (s\<lparr>os_order := (os_order s)\<lparr>bo_filled_quantity := q\<rparr>, os_fills := os_fills s @ [f]\<rparr>))"
      by (simp add: same_order_def)
    from put_same [OF Some this, of "fb_ticks b"] Some show ?thesis
      by (simp add: run_simps order_state_of_def put_order_def)
  qed
  then show ?thesis by (simp add: keeps_def)
qed

lemma fake_fill_step: "keeps fake_frame (apply_fill_step bid step)"
  unfolding apply_fill_step_def
  by (intro ff.keeps_rules fake_primitives fake_transition fake_book_fill)

lemma fake_scripts:
  "keeps fake_frame (fb_apply_fill bid step)" "keeps fake_frame (expire_order bid)"
  "keeps fake_frame (resolve_pending_cancel bid)" "keeps fake_frame (force_status cid st)"
  unfolding fb_apply_fill_def expire_order_def resolve_pending_cancel_def force_status_def
  by (intro ff.keeps_rules fake_transition fake_fill_step)+

lemma fake_inv_hidden [simp]: "fake_inv (b\<lparr>fb_hidden_client_ids := h\<rparr>) = fake_inv b"
  "fake_inv (b\<lparr>fb_plans := p\<rparr>) = fake_inv b" "fake_inv (b\<lparr>fb_results := r\<rparr>) = fake_inv b"
  "fake_book (b\<lparr>fb_hidden_client_ids := h\<rparr>) = fake_book b"
  "fake_book (b\<lparr>fb_plans := p\<rparr>) = fake_book b" "fake_book (b\<lparr>fb_results := r\<rparr>) = fake_book b"
  by (simp_all add: fake_inv_def fake_book_def)

lemma fake_reveal: "keeps fake_frame (reveal_order cid)"
  by (simp add: keeps_def reveal_order_def run_simps fake_frame_def list_all2_refl)

lemma fake_reads:
  "keeps fake_frame fb_account" "keeps fake_frame (fb_get_order cid)" "keeps fake_frame (fb_list_recent_orders t)"
  "keeps fake_frame fb_list_open_orders" "keeps fake_frame (fb_get_asset symbol)" "keeps fake_frame fb_list_positions"
  "keeps fake_frame (fb_list_fills bid)" "keeps fake_frame (fb_cancel_order bid)" "keeps fake_frame (resubmit cid)"
proof -
  show "keeps fake_frame fb_account" "keeps fake_frame fb_list_positions"
    by (simp_all add: keeps_def fb_account_def fb_list_positions_def ff.frame_refl)
  show "keeps fake_frame (resubmit cid)"
    unfolding resubmit_def
    by (rule ff.keeps_bind)
      (auto intro!: ff.keeps_rules fake_primitives split: option.split submit_result.split)
qed (unfold fb_get_order_def fb_list_recent_orders_def fb_list_open_orders_def fb_get_asset_def
      fb_list_fills_def fb_cancel_order_def, (intro ff.keeps_rules fake_primitives fake_transition)+)

section \<open>Submissions\<close>

lemma agree_params:
  assumes "fake_agree om cm pm n" "cm c = None"
  shows "fake_agree om cm (pm(c \<mapsto> p)) n"
proof (rule agreeI)
  show "\<exists>s. om k = Some s \<and> bo_client_order_id (os_order s) = c' \<and> (pm(c \<mapsto> p)) c' = Some (order_params (os_order s))"
    if "cm c' = Some k" for c' k
    using agree_client [OF assms(1) that] assms(2) that by (cases "c' = c") auto
qed (rule agree_order [OF assms(1)])

lemma agree_fresh:
  assumes "fake_agree om cm pm n"
  shows "om (fake_bid (Suc n)) = None"
proof (cases "om (fake_bid (Suc n))")
  case (Some s)
  then obtain m where "m \<le> n" "fake_bid (Suc n) = fake_bid m" using agree_order [OF assms Some] by blast
  then show ?thesis using fake_bid_inject [of "Suc n" m] by simp
qed

lemma agree_new:
  assumes "fake_agree om cm pm n" "cm (bo_client_order_id (os_order s)) = None"
    "pm (bo_client_order_id (os_order s)) = Some (order_params (os_order s))"
    "bo_broker_order_id (os_order s) = fake_bid (Suc n)"
  shows "fake_agree (om(fake_bid (Suc n) \<mapsto> s)) (cm(bo_client_order_id (os_order s) \<mapsto> fake_bid (Suc n))) pm (Suc n)"
    (is "fake_agree ?om ?cm pm _")
proof (rule agreeI)
  note agree = agree_later [OF assms(1)]
  show "bo_broker_order_id (os_order t) = k \<and> ?cm (bo_client_order_id (os_order t)) = Some k \<and> (\<exists>m \<le> Suc n. k = fake_bid m)"
    if "?om k = Some t" for k t
    using agree_order [OF agree, of k t] that assms(2,4) by (cases "k = fake_bid (Suc n)") auto
  show "\<exists>t. ?om k = Some t \<and> bo_client_order_id (os_order t) = c \<and> pm c = Some (order_params (os_order t))"
    if "?cm c = Some k" for c k
    using agree_client [OF agree, of c k] agree_fresh [OF assms(1)] that assms(3)
    by (cases "c = bo_client_order_id (os_order s)") auto
qed

text \<open>\<open>accepted i b b'\<close>: the broker took the intent on, exactly once.\<close>

definition submit_ready :: "order_intent \<Rightarrow> fake_broker \<Rightarrow> bool" where
  "submit_ready i b \<longleftrightarrow> fake_inv b \<and> map_of (fb_by_client b) (oi_client_order_id i) = None
     \<and> map_of (fb_submit_params b) (oi_client_order_id i) = Some (params_of i)"

lemma fake_frame_same: "fake_inv b \<Longrightarrow> fake_frame b b' \<Longrightarrow> fake_inv b' \<and> list_all2 same_order (fake_book b) (fake_book b')"
  by (simp add: fake_frame_def)

lemma submit_ready_book:
  assumes "submit_ready i b"
  shows "oi_client_order_id i \<notin> bo_client_order_id ` set (fake_book b)"
proof
  assume "oi_client_order_id i \<in> bo_client_order_id ` set (fake_book b)"
  then obtain k s where "(k, s) \<in> set (fb_orders b)" "bo_client_order_id (os_order s) = oi_client_order_id i"
    by (auto simp: fake_book_def)
  moreover have "fake_agree (map_of (fb_orders b)) (map_of (fb_by_client b)) (map_of (fb_submit_params b)) (fb_sequence b)"
    "distinct (map fst (fb_orders b))"
    using assms by (simp_all add: submit_ready_def fake_inv_def)
  ultimately show False
    using agree_order [of "map_of (fb_orders b)"] assms by (metis map_of_is_SomeI option.distinct(1) submit_ready_def)
qed

text \<open>The broker after the new order is entered, before its first fill.\<close>

definition enter_order :: "string \<Rightarrow> broker_order \<Rightarrow> fake_broker \<Rightarrow> fake_broker" where
  "enter_order cid order b =
     b\<lparr>fb_sequence := Suc (fb_sequence b), fb_ticks := Suc (fb_ticks b),
       fb_orders := dict_set (fake_bid (Suc (fb_sequence b))) \<lparr>os_order = order, os_fills = []\<rparr> (fb_orders b),
       fb_by_client := dict_set cid (fake_bid (Suc (fb_sequence b))) (fb_by_client b)\<rparr>"

lemma enter_order_book:
  assumes "submit_ready i b" "carries i order" "bo_broker_order_id order = fake_bid (Suc (fb_sequence b))"
  shows "fake_inv (enter_order (oi_client_order_id i) order b)
    \<and> fake_book (enter_order (oi_client_order_id i) order b) = fake_book b @ [order]"
proof -
  let ?k = "fake_bid (Suc (fb_sequence b))"
  have inv: "fake_agree (map_of (fb_orders b)) (map_of (fb_by_client b)) (map_of (fb_submit_params b)) (fb_sequence b)"
    "distinct (map fst (fb_orders b))"
    using assms(1) by (simp_all add: submit_ready_def fake_inv_def)
  have new: "?k \<notin> fst ` set (fb_orders b)"
    using agree_fresh [OF inv(1)] by (simp add: map_of_eq_None_iff)
  have "order_params order = params_of i" "bo_client_order_id order = oi_client_order_id i"
    using assms(2) by (simp_all add: carries_def order_params_def params_of_def)
  then have "fake_agree ((map_of (fb_orders b))(?k \<mapsto> \<lparr>os_order = order, os_fills = []\<rparr>))
      ((map_of (fb_by_client b))(oi_client_order_id i \<mapsto> ?k)) (map_of (fb_submit_params b)) (Suc (fb_sequence b))"
    using agree_new [OF inv(1), of "\<lparr>os_order = order, os_fills = []\<rparr>"] assms(1,3) by (simp add: submit_ready_def)
  then have "fake_inv (enter_order (oi_client_order_id i) order b)"
    using inv(2) new by (simp add: fake_inv_def enter_order_def dict_set_map_fst)
  then show ?thesis
    using new by (simp add: enter_order_def fake_book_def dict_set_new)
qed

text \<open>The order found under a client id, whatever happened to it since.\<close>

lemma by_client_order:
  assumes "fake_inv b" "map_of (fb_by_client b) (oi_client_order_id i) = Some k"
    "map_of (fb_submit_params b) (oi_client_order_id i) = Some (params_of i)"
    "map_of (fb_orders b) k = Some s"
  shows "carries i (os_order s) \<and> os_order s \<in> set (fake_book b)"
proof -
  have "fake_agree (map_of (fb_orders b)) (map_of (fb_by_client b)) (map_of (fb_submit_params b)) (fb_sequence b)"
    using assms(1) by (simp add: fake_inv_def)
  from agree_client [OF this assms(2)] assms(3,4) have "carries i (os_order s)"
    by (auto simp: order_params_def params_of_def carries_def)
  moreover have "os_order s \<in> set (fake_book b)"
    using map_of_SomeD [OF assms(4)] by (force simp: fake_book_def)
  ultimately show ?thesis ..
qed

definition first_fill :: "string \<Rightarrow> fake_submit_plan \<Rightarrow> (fake_broker, unit) comp" where
  "first_fill bid plan = (case fp_first_fill plan of None \<Rightarrow> returnM ()
     | Some step \<Rightarrow> bindM (apply_fill_step bid step) (\<lambda>_. returnM ()))"

lemma first_fill_frame: "keeps fake_frame (bindM (first_fill bid plan) (\<lambda>_. order_state_of bid))"
  unfolding first_fill_def by (intro ff.keeps_rules fake_fill_step fake_primitives)

lemma accepts_same: "list_all2 same_order os os' \<Longrightarrow> accepts i os os'"
  by (simp add: accepts_def)

lemma order_post_init_eq: "broker_order_post_init b = Inr b' \<Longrightarrow> b' = b"
  by (auto simp: broker_order_post_init_def bindO_eq_Inr)

definition new_order :: "order_intent \<Rightarrow> fake_submit_plan \<Rightarrow> fake_broker \<Rightarrow> broker_order" where
  "new_order i plan b =
     \<lparr>bo_broker_order_id = fake_bid (Suc (fb_sequence b)), bo_client_order_id = oi_client_order_id i,
      bo_symbol = oi_symbol i, bo_side = oi_side i, bo_quantity = oi_quantity i, bo_filled_quantity = 0,
      bo_limit_price = oi_limit_price i,
      bo_status = (if fp_outcome plan = TIMEOUT_AFTER_ACCEPT then B_RECEIVED else B_ACCEPTED),
      bo_submitted_at = fb_clock b (fb_ticks b), bo_updated_at = fb_clock b (fb_ticks b)\<rparr>"

lemma record_unfold:
  "record_accepted_order i plan b =
     (case broker_order_post_init (new_order i plan b) of
        Inl e \<Rightarrow> (Inl e, b\<lparr>fb_sequence := Suc (fb_sequence b), fb_ticks := Suc (fb_ticks b)\<rparr>)
      | Inr order \<Rightarrow> bindM (first_fill (fake_bid (Suc (fb_sequence b))) plan)
          (\<lambda>_. order_state_of (fake_bid (Suc (fb_sequence b)))) (enter_order (oi_client_order_id i) order b))"
  unfolding record_accepted_order_def fake_bid_def [symmetric] Let_def first_fill_def [symmetric]
  by (cases "broker_order_post_init (new_order i plan b)")
    (simp_all add: run_simps next_sequence_def fb_now_def put_order_def new_order_def enter_order_def)

lemma state_of_found: "bindM m (\<lambda>_. order_state_of k) b = (Inr s, b') \<Longrightarrow> map_of (fb_orders b') k = Some s"
  by (auto simp: bindM_def order_state_of_def split: prod.splits sum.splits option.splits)

lemma record_law:
  assumes ready: "submit_ready i b" and run: "record_accepted_order i plan b = (r, b')"
  shows "fake_inv b' \<and> accepts i (fake_book b) (fake_book b')
    \<and> (\<forall>s. r = Inr s \<longrightarrow> carries i (os_order s) \<and> os_order s \<in> set (fake_book b'))"
proof (cases "broker_order_post_init (new_order i plan b)")
  case (Inl e)
  with run ready show ?thesis
    by (auto simp: record_unfold submit_ready_def fake_inv_def agree_later fake_book_def accepts_def list_all2_refl)
next
  case (Inr order)
  let ?k = "fake_bid (Suc (fb_sequence b))"
  let ?e = "enter_order (oi_client_order_id i) order b"
  have order: "order = new_order i plan b" using Inr by (rule order_post_init_eq)
  have carried: "carries i order" by (simp add: order new_order_def carries_def)
  have entered: "fake_inv ?e \<and> fake_book ?e = fake_book b @ [order]"
    by (rule enter_order_book [OF ready carried]) (simp add: order new_order_def)
  have step: "bindM (first_fill ?k plan) (\<lambda>_. order_state_of ?k) ?e = (r, b')"
    using run Inr by (simp add: record_unfold)
  then have frame: "fake_frame ?e b'" by (rule keepsD [OF first_fill_frame])
  then have kept: "fake_inv b'" "list_all2 same_order (fake_book b @ [order]) (fake_book b')"
    "fb_by_client b' = fb_by_client ?e" "fb_submit_params b' = fb_submit_params ?e"
    using entered by (simp_all add: fake_frame_def)
  have "accepts i (fake_book b) (fake_book b')"
    using kept(2) submit_ready_book [OF ready] carried by (auto simp: accepts_def)
  moreover have "carries i (os_order s) \<and> os_order s \<in> set (fake_book b')" if "r = Inr s" for s
  proof (rule by_client_order [OF kept(1)])
    show "map_of (fb_by_client b') (oi_client_order_id i) = Some ?k" by (simp add: kept(3) enter_order_def)
    show "map_of (fb_submit_params b') (oi_client_order_id i) = Some (params_of i)"
      using ready by (simp add: kept(4) enter_order_def submit_ready_def)
    show "map_of (fb_orders b') ?k = Some s" using step that by (auto dest: state_of_found)
  qed
  ultimately show ?thesis using kept(1) by blast
qed

text \<open>What one submission promises, whatever it returns.\<close>

definition submit_law :: "order_intent \<Rightarrow> fake_broker \<Rightarrow> exn + submit_result \<Rightarrow> fake_broker \<Rightarrow> bool" where
  "submit_law i b r b' \<longleftrightarrow> fake_inv b' \<and> accepts i (fake_book b) (fake_book b')
     \<and> (\<forall>new. r = Inr (SubmitAccepted new) \<longrightarrow> carries i new \<and> new \<in> set (fake_book b'))"

lemma pop_plan_state:
  "\<exists>plans. snd (pop_plan cid b) = b\<lparr>fb_plans := plans\<rparr>" "\<exists>p. fst (pop_plan cid b) = Inr p"
  by (auto simp: pop_plan_def split: option.split intro: exI [of _ "fb_plans b"])

lemma law_unchanged:
  assumes "fake_inv b'" "fake_book b' = fake_book b" "\<And>new. r \<noteq> Inr (SubmitAccepted new)"
  shows "submit_law i b r b'"
  using assms by (simp add: submit_law_def accepts_def list_all2_refl)

lemma inv_params:
  assumes "fake_inv b" "map_of (fb_submit_params b) c = None"
  shows "fake_inv (b\<lparr>fb_submit_params := dict_set c p (fb_submit_params b)\<rparr>)"
    "map_of (fb_by_client b) c = None"
proof -
  have agree: "fake_agree (map_of (fb_orders b)) (map_of (fb_by_client b)) (map_of (fb_submit_params b)) (fb_sequence b)"
    using assms(1) by (simp add: fake_inv_def)
  show none: "map_of (fb_by_client b) c = None"
    using agree_client [OF agree, of c] assms(2) by (cases "map_of (fb_by_client b) c") auto
  show "fake_inv (b\<lparr>fb_submit_params := dict_set c p (fb_submit_params b)\<rparr>)"
    using assms(1) agree_params [OF agree none] by (simp add: fake_inv_def)
qed

lemma first_submit_law:
  assumes inv: "fake_inv b" and new: "map_of (fb_submit_params b) (oi_client_order_id i) = None"
    and run: "first_submit i b = (r, b')"
  shows "submit_law i b r b'"
proof -
  let ?c = "oi_client_order_id i"
  obtain plans plan where pop: "pop_plan ?c b = (Inr plan, b\<lparr>fb_plans := plans\<rparr>)"
    using pop_plan_state [of ?c b] by (metis prod.collapse)
  define b1 where "b1 = b\<lparr>fb_plans := plans, fb_submit_params := dict_set ?c (params_of i) (fb_submit_params b)\<rparr>"
  have b1: "fake_inv b1" "fake_book b1 = fake_book b"
    using inv_params(1) [OF inv new] by (simp_all add: b1_def fake_inv_def fake_book_def)
  have ready: "submit_ready i b1"
    using inv_params(2) [OF inv new] b1(1) by (simp add: submit_ready_def b1_def)
  show ?thesis
  proof (cases "fp_outcome plan")
    case ACKNOWLEDGE
    obtain q b2 where rec: "record_accepted_order i plan b1 = (q, b2)" by (cases "record_accepted_order i plan b1")
    note law = record_law [OF ready rec]
    from run pop ACKNOWLEDGE rec have "case q of Inl e \<Rightarrow> r = Inl e \<and> b' = b2
        | Inr s \<Rightarrow> r = Inr (SubmitAccepted (os_order s)) \<and> (\<exists>rs. b' = b2\<lparr>fb_results := rs\<rparr>)"
      by (auto simp: first_submit_def Let_def run_simps b1_def [symmetric] split: sum.splits)
    with law b1(2) show ?thesis by (auto simp: submit_law_def split: sum.splits)
  next
    case REJECT
    with run pop b1 show ?thesis
      by (intro law_unchanged) (auto simp: first_submit_def Let_def run_simps b1_def split: option.splits)
  next
    case TIMEOUT_BEFORE_ACCEPT
    with run pop inv show ?thesis by (intro law_unchanged) (auto simp: first_submit_def Let_def run_simps)
  next
    case TIMEOUT_AFTER_ACCEPT
    obtain q b2 where rec: "record_accepted_order i plan b1 = (q, b2)" by (cases "record_accepted_order i plan b1")
    note law = record_law [OF ready rec]
    from run pop TIMEOUT_AFTER_ACCEPT rec have "b' = b2 \<and> (\<exists>e. r = Inl e)"
      by (auto simp: first_submit_def Let_def run_simps b1_def [symmetric] split: sum.splits)
    with law b1(2) show ?thesis by (auto simp: submit_law_def)
  qed
qed

lemma resubmit_law:
  assumes inv: "fake_inv b" and old: "map_of (fb_submit_params b) (oi_client_order_id i) = Some (params_of i)"
    and run: "resubmit (oi_client_order_id i) b = (r, b')"
  shows "submit_law i b r b'"
proof -
  have same: "b' = b" and
    res: "r = Inr (SubmitAccepted new) \<Longrightarrow> \<exists>k s. map_of (fb_by_client b) (oi_client_order_id i) = Some k
       \<and> map_of (fb_orders b) k = Some s \<and> new = os_order s" for new
    using run by (auto simp: resubmit_def run_simps order_state_of_def split: option.splits submit_result.splits)
  show ?thesis
    unfolding submit_law_def same
    using inv res by_client_order [OF inv _ old] by (auto simp: accepts_def list_all2_refl)
qed

lemma submit_order_law:
  assumes inv: "fake_inv b" and run: "fb_submit_order i b = (r, b')"
  shows "submit_law i b r b'"
proof (cases "map_of (fb_submit_params b) (oi_client_order_id i)")
  case None
  with run show ?thesis by (intro first_submit_law [OF inv None]) (simp add: fb_submit_order_def run_simps)
next
  case (Some p)
  show ?thesis
  proof (cases "p = params_of i")
    case True
    with Some run show ?thesis
      by (intro resubmit_law [OF inv]) (simp_all add: fb_submit_order_def run_simps)
  next
    case False
    with Some run inv show ?thesis by (intro law_unchanged) (auto simp: fb_submit_order_def run_simps)
  qed
qed

section \<open>The fake broker keeps the documented contract\<close>

lemma fake_one_each:
  assumes "fake_inv b"
  shows "one_order_each (fake_book b)"
proof -
  have agree: "fake_agree (map_of (fb_orders b)) (map_of (fb_by_client b)) (map_of (fb_submit_params b)) (fb_sequence b)"
    and dist: "distinct (map fst (fb_orders b))"
    using assms by (simp_all add: fake_inv_def)
  have key: "bo_broker_order_id (os_order s) = k \<and> map_of (fb_by_client b) (bo_client_order_id (os_order s)) = Some k"
    if "(k, s) \<in> set (fb_orders b)" for k s
    using agree_order [OF agree map_of_is_SomeI [OF dist that]] by blast
  then have keys: "map bo_broker_order_id (fake_book b) = map fst (fb_orders b)"
    by (auto simp: fake_book_def)
  have "map (map_of (fb_by_client b)) (map bo_client_order_id (fake_book b)) = map (Some \<circ> fst) (fb_orders b)"
    using key by (auto simp: fake_book_def)
  moreover have "distinct (map (Some \<circ> fst) (fb_orders b))"
    using dist by (simp add: distinct_map inj_on_def flip: map_map)
  ultimately have "distinct (map bo_client_order_id (fake_book b))"
    using distinct_map by metis
  then show ?thesis using keys dist by (simp add: one_order_each_def)
qed

lemma fake_frame_book: "keeps fake_frame m \<Longrightarrow> keeps (keeps_book fake_inv fake_book) m"
  by (erule keeps_mono) (simp add: fake_frame_def keeps_book_def)

lemma fake_get_order_found:
  assumes "fake_inv b" "fb_get_order cid b = (Inr (Some old), b')"
  shows "bo_client_order_id old = cid \<and> old \<in> set (fake_book b')"
proof -
  obtain k s where found: "map_of (fb_by_client b) cid = Some k" "map_of (fb_orders b) k = Some s"
      "old = os_order s" "b' = b"
  proof (cases "map_of (fb_by_client b) cid")
    case None
    with assms(2) show ?thesis by (simp add: fb_get_order_def run_simps split: if_splits)
  next
    case (Some k)
    show ?thesis
    proof (cases "map_of (fb_orders b) k")
      case None
      with Some assms(2) show ?thesis
        by (simp add: fb_get_order_def run_simps order_state_of_def split: if_splits)
    next
      case (Some s)
      with \<open>map_of (fb_by_client b) cid = Some k\<close> assms(2) have "old = os_order s" "b' = b"
        by (simp_all add: fb_get_order_def run_simps order_state_of_def split: if_splits)
      then show ?thesis by (rule that [OF \<open>map_of (fb_by_client b) cid = Some k\<close> Some])
    qed
  qed
  have "fake_agree (map_of (fb_orders b)) (map_of (fb_by_client b)) (map_of (fb_submit_params b)) (fb_sequence b)"
    using assms(1) by (simp add: fake_inv_def)
  from agree_client [OF this found(1)] have "bo_client_order_id old = cid" using found(2,3) by auto
  moreover have "os_order s \<in> (os_order \<circ> snd) ` set (fb_orders b)"
    using imageI [OF map_of_SomeD [OF found(2)], of "os_order \<circ> snd"] by simp
  ultimately show ?thesis using found(3,4) by (simp add: fake_book_def)
qed

interpretation fb: paper_port fake_ops fake_inv fake_book
proof
  fix b b' :: fake_broker and i r new cid old
  show "fake_inv b \<Longrightarrow> one_order_each (fake_book b)" by (rule fake_one_each)
  show "fake_inv b \<Longrightarrow> op_submit_order fake_ops i b = (r, b') \<Longrightarrow> fake_inv b' \<and> accepts i (fake_book b) (fake_book b')"
    using submit_order_law [of b i r b'] by (simp add: fake_ops_def submit_law_def)
  show "fake_inv b \<Longrightarrow> op_submit_order fake_ops i b = (Inr (SubmitAccepted new), b') \<Longrightarrow>
      carries i new \<and> new \<in> set (fake_book b')"
    using submit_order_law [of b i _ b'] by (simp add: fake_ops_def submit_law_def)
  show "fake_inv b \<Longrightarrow> op_get_order fake_ops cid b = (Inr (Some old), b') \<Longrightarrow>
      bo_client_order_id old = cid \<and> old \<in> set (fake_book b')"
    using fake_get_order_found by (simp add: fake_ops_def)
qed (simp_all add: fake_ops_def fake_reads [THEN fake_frame_book])

end
