(* ===== verification/Engine_Runs.thy ===== *)
theory Engine_Runs
  imports Engine_Safety Fake_Broker
begin

text \<open>
  Runs of the execution engine: any sequence of its operations, each in a unit of
  work of its own that is closed afterwards, interleaved with steps of other
  processes and of the market. The first section puts the engine on a broker
  that keeps the documented contract.
\<close>

section \<open>The engine over a documented broker\<close>

locale paper_engine = paper_port ops ok book
  for ops :: "'b broker_ops" and ok :: "'b \<Rightarrow> bool" and book :: "'b \<Rightarrow> broker_order list" +
  fixes eng :: "'b engine"
  assumes broker: "eng_broker eng = ops"
begin

sublocale pe: engine_frame port eng
proof
  show "port w (env_step w)" for w
    using env_step_frame [of w] by (auto simp: store_frame_def port_def explained_def)
  show "keeps port (broker_submit (eng_broker eng) i)" for i unfolding broker by (rule port_submit)
qed (unfold broker, (rule port_broker_call [OF get_order] port_broker_call [OF get_asset]
      port_broker_call [OF fills] port_broker_call [OF cancel] | rule store_port, rule store_intros)+)

end

interpretation fe: paper_engine fake_ops fake_inv fake_book "eng\<lparr>eng_broker := fake_ops\<rparr>" for eng :: "fake_broker engine"
  by unfold_locales simp

section \<open>Operations and runs\<close>

datatype engine_op =
    SubmitFromOutbox string | Resolve string | ApplyFills string | RequestCancel string
  | ExpireOverdue | Recover

definition single :: "('s, 'a) comp \<Rightarrow> ('s, 'a list) comp" where
  "single m = bindM m (\<lambda>a. returnM [a])"

fun run_op :: "'b engine \<Rightarrow> engine_op \<Rightarrow> ('b world, order_intent list) comp" where
  "run_op eng (SubmitFromOutbox cid) = single (submit_from_outbox eng cid)"
| "run_op eng (Resolve cid) = single (resolve eng cid)"
| "run_op eng (ApplyFills cid) = single (apply_fills eng cid)"
| "run_op eng (RequestCancel cid) = single (request_cancel eng cid)"
| "run_op eng ExpireOverdue = expire_overdue eng"
| "run_op eng Recover = recover eng"

text \<open>
  Between operations anything may happen to the database that respects the
  durable rows, the broker moves as \<open>market\<close> says, and the oracles for faults,
  time, identifiers and concurrent pauses are arbitrary.
\<close>

inductive engine_run :: "'b engine \<Rightarrow> ('b \<Rightarrow> 'b \<Rightarrow> bool) \<Rightarrow> 'b world \<Rightarrow> 'b world \<Rightarrow> bool"
  for eng market w where
  start: "engine_run eng market w w"
| operation: "engine_run eng market w v \<Longrightarrow> run_op eng op v = (r, u) \<Longrightarrow> engine_run eng market w (uow_close u)"
| elsewhere: "engine_run eng market w v \<Longrightarrow> evolves (w_committed v) d \<Longrightarrow> market (w_broker v) b \<Longrightarrow>
    engine_run eng market w (v\<lparr>w_committed := d, w_working := d, w_broker := b, w_tick := n, w_faults := fs,
      w_clock := cl, w_uuids := us, w_env := en\<rparr>)"

lemma engine_run_settled: "engine_run eng market w v \<Longrightarrow> settled w \<Longrightarrow> settled v"
  by (induction rule: engine_run.induct) (simp_all add: settled_def uow_close_def)

lemma frame_single: "effect_frame R \<Longrightarrow> keeps R m \<Longrightarrow> keeps R (single m)"
  unfolding single_def by (simp add: effect_frame.keeps_bind effect_frame.keeps_return)

text \<open>Every operation keeps what the engine's steps keep.\<close>

context engine_frame
begin

lemma frame_run_op: "keeps R (run_op eng op)"
  by (cases op) (simp_all add: frame_single [OF effect_frame_axioms] frame_operations frame_cancel frame_sweeps)

end

lemma run_op_safe:
  "triple (\<lambda>w. settled w \<and> safe_trace w) (run_op eng op) (\<lambda>_. safe_trace) (\<lambda>_. safe_trace)"
proof -
  have single: "triple P (single m) (\<lambda>_. safe_trace) (\<lambda>_. safe_trace)"
    if "triple P m (\<lambda>_. safe_trace) (\<lambda>_. safe_trace)" for P and m :: "('a world, order_intent) comp"
    unfolding single_def by (rule triple_bind [OF that]) (simp add: triple_def run_simps)
  have quiet: "triple (\<lambda>w. settled w \<and> safe_trace w) m (\<lambda>_. safe_trace) (\<lambda>_. safe_trace)"
    if "keeps quiet m" for m :: "('a world, 'c) comp"
    by (rule safe_quiet_pre [OF that]) simp
  show ?thesis
  proof (cases op)
    case (SubmitFromOutbox cid)
    show ?thesis unfolding SubmitFromOutbox run_op.simps
      by (rule single, rule triple_weaken [OF submit_from_outbox_safe]) auto
  next
    case Recover
    show ?thesis unfolding Recover run_op.simps by (rule triple_weaken [OF recover_safe]) auto
  next
    case (Resolve cid)
    show ?thesis unfolding Resolve run_op.simps by (rule single) (rule resolve_safe)
  next
    case (ApplyFills cid)
    show ?thesis unfolding ApplyFills run_op.simps by (intro single quiet engine_quiet)
  next
    case (RequestCancel cid)
    show ?thesis unfolding RequestCancel run_op.simps by (intro single quiet engine_quiet)
  next
    case ExpireOverdue
    show ?thesis unfolding ExpireOverdue run_op.simps by (rule expire_overdue_safe)
  qed
qed

lemma engine_run_safe:
  assumes "engine_run eng market w v" "settled w" "safe_trace w"
  shows "safe_trace v"
  using assms
proof (induction rule: engine_run.induct)
  case (operation v op r u)
  then have "settled v \<and> safe_trace v" using engine_run_settled by blast
  with operation(2) have "safe_trace u"
    using triple_returned [OF run_op_safe] triple_raised [OF run_op_safe] by (cases r) blast+
  then show ?case by (simp add: safe_trace_def)
qed (simp_all add: safe_trace_def)

lemma engine_run_evolves:
  assumes "engine_run eng market w v" "settled w"
  shows "evolves (w_committed w) (w_committed v)"
  using assms
proof (induction rule: engine_run.induct)
  case (operation v op r u)
  have "evolving v u" using keepsD [OF es.frame_run_op operation(2)] .
  with engine_run_settled [OF operation(1,4)] have "evolves (w_committed v) (w_committed u)"
    by (simp add: evolving_def settled_def)
  with operation(3) [OF operation(4)] show ?case by (auto intro: evolves_trans)
qed (auto intro: evolves_trans)

section \<open>Runs over the fake broker\<close>

text \<open>The market moves the fake broker through its scripted events.\<close>

inductive fake_event :: "fake_broker \<Rightarrow> fake_broker \<Rightarrow> bool" where
  idle: "fake_event b b"
| filled: "fake_event b (snd (fb_apply_fill bid step b))"
| expired: "fake_event b (snd (expire_order bid b))"
| cancelled: "fake_event b (snd (resolve_pending_cancel bid b))"
| forced: "fake_event b (snd (force_status cid st b))"
| revealed: "fake_event b (snd (reveal_order cid b))"

lemma fake_event_book: "fake_event b b' \<Longrightarrow> keeps_book fake_inv fake_book b b'"
proof (induction rule: fake_event.induct)
  case (idle b)
  show ?case by (simp add: keeps_book_def list_all2_refl)
qed (use fake_scripts [THEN fake_frame_book] fake_reveal [THEN fake_frame_book] in \<open>auto simp: keeps_def\<close>)

lemma fake_run_explained:
  assumes "engine_run (eng\<lparr>eng_broker := fake_ops\<rparr>) fake_event w v" "fb.explained w"
  shows "fb.explained v"
  using assms
proof (induction rule: engine_run.induct)
  case (operation v op r u)
  have "fb.port v u" using keepsD [OF fe.pe.frame_run_op operation(2)] .
  then have "fb.explained u" using operation(3,4) by (simp add: fb.port_def)
  then show ?case by (simp add: fb.explained_def)
next
  case (elsewhere v d b n fs cl us en)
  show ?case
    by (rule fb.explained_same [OF elsewhere(4) [OF elsewhere(5)] fake_event_book [OF elsewhere(3)]]) simp_all
qed

lemma fresh_broker:
  assumes "fb_orders b = []" "fb_by_client b = []"
  shows "fake_inv b" "fake_book b = []"
  using assms by (simp_all add: fake_inv_def fake_agree_def fake_book_def)

end
