(* ===== verification/Engine_Outcome.thy ===== *)
theory Engine_Outcome
  imports Engine_Runs
begin

text \<open>
  What a submission leaves behind when it returns: the committed row is the row it
  returned, and an ambiguous outcome of a new entry leaves a committed pause.
\<close>

section \<open>Frames used below\<close>

text \<open>The intents and a pause both stay: what the pause steps keep.\<close>

definition pause_write :: "db \<Rightarrow> db \<Rightarrow> bool" where
  "pause_write d d' \<longleftrightarrow> db_intents d' = db_intents d \<and> stays_paused d d'"

interpretation pw: db_frame pause_write
proof
  show "sql_pause_entries r now c = Inr (s, c') \<Longrightarrow> pause_write c c'" for r now c s c'
    using sql_pause_db [of r now c s c'] by (simp add: pause_write_def stays_paused_def)
qed (auto simp: pause_write_def stays_paused_def)

lemma pause_write_command: "keeps (tracks pause_write) (add_command c)"
proof -
  have "sql_insert_command c now d = Inr (a, d') \<Longrightarrow> pause_write d d'" for now d a d'
    by (auto simp: sql_insert_command_def pause_write_def stays_paused_def split: if_splits)
  then show ?thesis unfolding add_command_def by (intro pw.tracks_rules pw.tracks_statement)
qed

lemma pause_write_required: "keeps (tracks pause_write) (pause_for_reconciliation_required eng i c)"
  unfolding pause_for_reconciliation_required_def rollback_and_raise_def
  by (intro pw.tracks_rules pw.tracks_pause pause_write_command)

definition paused :: "'b world \<Rightarrow> bool" where
  "paused w \<longleftrightarrow> cs_entries_paused (db_control (w_committed w))"

definition committed_row :: "order_intent \<Rightarrow> 'b world \<Rightarrow> bool" where
  "committed_row i w \<longleftrightarrow> find_intent (oi_client_order_id i) (w_committed w) = Some i"

lemma pause_write_keeps:
  assumes "keeps (tracks pause_write) m"
  shows "returns (\<lambda>w. settled w \<and> committed_row i w) m (\<lambda>_. committed_row i)"
    and "returns (\<lambda>w. settled w \<and> paused w) m (\<lambda>_. paused)"
  using assms
  by (auto simp: triple_def keeps_def tracks_def settled_def committed_row_def paused_def pause_write_def
      stays_paused_def find_intent_def split: prod.split sum.split) (metis snd_conv)+

lemma pause_and_commit:
  "returns P (bindM (set_entries_paused True (Some r)) (\<lambda>_. uow_commit)) (\<lambda>_ w. settled w \<and> paused w)"
proof (rule triple_bind)
  have stmt: "returns P (statement (sql_pause_entries (Some r)))
      (\<lambda>s w. \<not> w_aborted w \<and> cs_entries_paused (db_control (w_working w)))"
    by (rule ret_statement) (auto dest: sql_pause_db)
  show "returns P (set_entries_paused True (Some r))
      (\<lambda>_ w. \<not> w_aborted w \<and> cs_entries_paused (db_control (w_working w)))"
    unfolding set_entries_paused_def
    by (simp, rule triple_bind [OF stmt]) (auto simp: triple_def run_simps take_lock_def mark_write_def split: sum.split)
  show "returns (\<lambda>w. \<not> w_aborted w \<and> cs_entries_paused (db_control (w_working w))) uow_commit
      (\<lambda>_ w. settled w \<and> paused w)"
    by (rule ret_commit) (simp add: paused_def env_step_paused)
qed

lemma never_returns: "returns P (rollback_and_raise e) Q"
  by (auto simp: rollback_and_raise_def triple_def run_simps split: prod.split sum.split)

lemma pause_required_paused:
  assumes "oi_intent_type i \<noteq> RISK_EXIT"
  shows "returns P (pause_for_reconciliation_required eng i c) (\<lambda>_. paused)"
  unfolding pause_for_reconciliation_required_def if_not_P [OF assms]
proof (rule triple_bind)
  let ?r = "''reconciliation required; '' @ c"
  show "returns P (catchM (bindM (set_entries_paused True (Some ?r)) (\<lambda>_. uow_commit))
      (\<lambda>_. rollback_and_raise ControlPersistenceError)) (\<lambda>_ w. settled w \<and> paused w)"
    by (rule triple_catch [OF pause_and_commit never_returns])
qed (rule pause_write_keeps(2), unfold rollback_and_raise_def, intro pw.tracks_rules pause_write_command)

section \<open>The type of an intent never changes\<close>

definition typed :: "string \<Rightarrow> order_intent_type \<Rightarrow> 'b world \<Rightarrow> bool" where
  "typed cid ty w \<longleftrightarrow> evolves (w_committed w) (w_working w)
     \<and> (\<exists>i. find_intent cid (w_committed w) = Some i \<and> oi_intent_type i = ty)"

lemma evolves_type:
  "evolves d d' \<Longrightarrow> find_intent cid d = Some i \<Longrightarrow>
     \<exists>i'. find_intent cid d' = Some i' \<and> intent_progress i i' \<and> oi_intent_type i' = oi_intent_type i"
  by (fastforce simp: evolves_def intent_progress_def)

lemma typed_working: "typed cid ty w \<Longrightarrow> find_intent cid (w_working w) = Some i \<Longrightarrow> oi_intent_type i = ty"
  by (auto simp: typed_def dest: evolves_type)

lemma typed_evolving: "typed cid ty w \<Longrightarrow> evolving w v \<Longrightarrow> typed cid ty v"
  by (auto simp: typed_def evolving_def dest: evolves_type)

lemma typed_keeps: "keeps evolving m \<Longrightarrow> triple (typed cid ty) m (\<lambda>_. typed cid ty) (\<lambda>_. typed cid ty)"
  by (erule keeps_triple) (rule typed_evolving)

section \<open>Outcomes of a submission\<close>

definition reported :: "string \<Rightarrow> order_intent \<Rightarrow> 'b world \<Rightarrow> bool" where
  "reported cid u w \<longleftrightarrow> settled w \<and> find_intent cid (w_committed w) = Some u
     \<and> oi_status u \<notin> {OUTBOX_PENDING, SUBMITTING}
     \<and> (oi_status u = UNKNOWN \<and> oi_intent_type u \<noteq> RISK_EXIT \<longrightarrow> paused w)"

lemma settled_pause_keep:
  assumes "keeps (tracks pause_write) m" "returns (reported cid u) m (\<lambda>_. settled)"
  shows "returns (reported cid u) m (\<lambda>_. reported cid u)"
proof (rule tripleI)
  fix w a v
  assume w: "reported cid u w" and run: "m w = (Inr a, v)"
  have "settled v" using triple_returned [OF assms(2) w run] .
  moreover have "tracks pause_write w v" using assms(1) run by (rule keepsD)
  ultimately show "reported cid u v"
    using w by (auto simp: reported_def tracks_def settled_def pause_write_def stays_paused_def paused_def find_intent_def)
qed simp

lemma report_commit: "returns (reported cid u) (bindM uow_commit (\<lambda>_. returnM u)) (\<lambda>r. reported cid r)"
proof (rule triple_bind)
  show "returns (reported cid u) uow_commit (\<lambda>_. reported cid u)"
    by (rule settled_pause_keep [OF pw.tracks_ends(1)], rule ret_commit)
qed (simp add: triple_def run_simps)

lemma report_transition:
  assumes "target \<notin> {OUTBOX_PENDING, SUBMITTING, UNKNOWN}"
  shows "returns P (bindM (transition_status cid target) (\<lambda>i. bindM uow_commit (\<lambda>_. returnM i))) (reported cid)"
proof (rule triple_bind)
  show "returns P (transition_status cid target) (\<lambda>i w. \<not> w_aborted w \<and> oi_status i = target
      \<and> find_intent cid (w_working w) = Some i)"
    by (rule ret_transition) (auto simp: find_intent_set_status)
  show "returns (\<lambda>w. \<not> w_aborted w \<and> oi_status i = target \<and> find_intent cid (w_working w) = Some i)
      (bindM uow_commit (\<lambda>_. returnM i)) (reported cid)" for i
    by (rule triple_bind [where R = "\<lambda>_. reported cid i"], rule ret_commit)
      (use assms in \<open>auto simp: reported_def triple_def run_simps\<close>)
qed

text \<open>Mark \<open>UNKNOWN\<close>, commit and pause.\<close>

lemma report_unknown:
  assumes "\<And>u. oi_intent_type u = ty \<Longrightarrow> oi_intent_type (h u) = ty"
  shows "returns (typed cid ty) (bindM (transition_status cid UNKNOWN) (\<lambda>u. bindM uow_commit (\<lambda>_.
      bindM (pause_for_reconciliation_required eng (h u) c) (\<lambda>_. returnM u)))) (reported cid)"
proof (rule triple_bind)
  show "returns (typed cid ty) (transition_status cid UNKNOWN) (\<lambda>u w. \<not> w_aborted w \<and> oi_status u = UNKNOWN
      \<and> oi_intent_type u = ty \<and> find_intent cid (w_working w) = Some u)"
    by (rule ret_transition) (auto simp: find_intent_set_status dest: typed_working)
  fix u
  let ?row = "\<lambda>w. settled w \<and> oi_status u = UNKNOWN \<and> oi_intent_type u = ty \<and> find_intent cid (w_committed w) = Some u"
  have commit: "returns (\<lambda>w. \<not> w_aborted w \<and> oi_status u = UNKNOWN \<and> oi_intent_type u = ty
      \<and> find_intent cid (w_working w) = Some u) uow_commit (\<lambda>_. ?row)"
    by (rule ret_commit) simp
  have pause: "returns ?row (pause_for_reconciliation_required eng (h u) c) (\<lambda>_. reported cid u)"
  proof (rule tripleI)
    fix w a v
    assume w: "?row w" and run: "pause_for_reconciliation_required eng (h u) c w = (Inr a, v)"
    have "settled v" using triple_returned [OF returns_pause_required _ run] w by blast
    moreover have "tracks pause_write w v" using pause_write_required run by (rule keepsD)
    moreover have "oi_intent_type u \<noteq> RISK_EXIT \<Longrightarrow> paused v"
      using assms [of u] w by (intro triple_returned [OF pause_required_paused _ run]) auto
    ultimately show "reported cid u v"
      using w by (auto simp: reported_def tracks_def settled_def pause_write_def stays_paused_def find_intent_def)
  qed simp
  show "returns (\<lambda>w. \<not> w_aborted w \<and> oi_status u = UNKNOWN \<and> oi_intent_type u = ty
      \<and> find_intent cid (w_working w) = Some u)
      (bindM uow_commit (\<lambda>_. bindM (pause_for_reconciliation_required eng (h u) c) (\<lambda>_. returnM u))) (reported cid)"
    by (rule triple_bind [OF commit], rule triple_bind [OF pause], rule triple_return)
qed

lemma settle_reported:
  assumes i: "oi_status i = SUBMITTING" "oi_client_order_id i = cid" "oi_intent_type i = ty"
  shows "returns (typed cid ty) (settle_submission eng i r) (reported cid)"
proof (cases r)
  case (Inl e)
  have unknown: "returns (typed cid ty) (bindM (transition_status cid UNKNOWN) (\<lambda>u. bindM uow_commit (\<lambda>_.
      bindM (pause_for_reconciliation_required eng i c) (\<lambda>_. returnM u)))) (reported cid)" for c
    by (rule report_unknown) (simp add: i)
  have raised: "returns (typed cid ty) (bindM m (\<lambda>_. bindM n (\<lambda>_. bindM k (\<lambda>_. raiseM x)))) (reported cid)"
    for m :: "('a world, 'c) comp" and n :: "('a world, 'd) comp" and k :: "('a world, 'e) comp" and x
    by (intro triple_bind [OF returns_any]) (simp add: triple_def run_simps)
  show ?thesis
    unfolding settle_submission_def Inl sum.case i(2)
    by (intro triple_if unknown raised) (simp add: triple_def run_simps)
next
  case (Inr x)
  have never: "returns P (bindM m (\<lambda>_. n)) Q" if "\<And>P. returns P n Q" for P Q
      and m :: "('a world, 'c) comp" and n :: "('a world, 'd) comp"
    by (rule triple_bind [OF returns_any that])
  have "refresh_target i b \<noteq> oi_status i \<and> refresh_target i b \<notin> {OUTBOX_PENDING, SUBMITTING, UNKNOWN}" for b
    using i(1) by (cases "bo_status b") (auto simp: refresh_target_def)
  then have advance: "returns P (advance_intent i b) (reported cid)" for P b
    unfolding advance_intent_def Let_def i(2)
    by (intro triple_if report_transition) (auto simp: triple_def run_simps)
  show ?thesis
  proof (cases x)
    case (SubmitAccepted b)
    show ?thesis
      unfolding settle_submission_def Inr SubmitAccepted sum.case submit_result.case record_accepted_def
        refresh_from_broker_order_def
      by (intro never triple_bind [OF returns_any] advance)
  next
    case (SubmitRejected reason)
    show ?thesis
      unfolding settle_submission_def Inr SubmitRejected sum.case submit_result.case i(2)
      by (rule report_transition) simp
  qed
qed

lemma submit_reported:
  assumes "oi_status i = SUBMITTING" "oi_client_order_id i = cid" "oi_intent_type i = ty"
  shows "returns (typed cid ty) (submit_while_guarded eng i) (reported cid)"
  unfolding submit_while_guarded_def
  by (rule triple_bind [OF typed_keeps [THEN triple_weaken] settle_reported [OF assms]])
    (auto intro: ev.keeps_attempt submit_evolving)

lemma guard_reported:
  assumes i: "oi_status i = SUBMITTING" "oi_client_order_id i = cid" "oi_intent_type i = ty"
  shows "returns (typed cid ty) (entry_submission_guard i (submit_while_guarded eng i)) (reported cid)"
  unfolding entry_submission_guard_def
proof (rule triple_if [OF submit_reported [OF i]])
  let ?body = "\<lambda>state. if cs_entries_paused state then raiseM ExecutionPausedError
       else bindM has_unresolved_intents (\<lambda>blocked.
         if blocked then raiseM ExecutionPausedError else submit_while_guarded eng i)"
  have step: "returns (typed cid ty) m (\<lambda>_. typed cid ty)" if "keeps evolving m" for m :: "('a world, 'c) comp"
    by (rule triple_weaken [OF typed_keeps [OF that]]) auto
  have raise: "returns P (raiseM e) (reported cid)" for P and e by (simp add: triple_def run_simps)
  have body: "returns (typed cid ty) (bindM (liftM (control_state_post_init s)) ?body) (reported cid)" for s
    by (intro triple_bind [OF step] triple_if raise submit_reported [OF i] evolving_rules
        engine_quiet [THEN quiet_evolving])
  have undo: "returns P (bindM uow_rollback (\<lambda>_. raiseM e)) (reported cid)" for P e
    by (rule triple_bind [OF returns_any raise])
  show "returns (typed cid ty) (submission_guard ?body) (reported cid)"
    unfolding submission_guard_def
    by (intro triple_bind [OF step] evolving_rules triple_bind [OF triple_catch [OF body undo] report_commit])
qed

lemma complete_reported:
  assumes i: "oi_status i = SUBMITTING" "oi_client_order_id i = cid" "oi_intent_type i = ty"
  shows "returns (typed cid ty) (complete_submission eng i) (reported cid)"
  unfolding complete_submission_def
proof (rule triple_catch)
  have "keeps evolving (entry_submission_guard i (submit_while_guarded eng i))"
    unfolding entry_submission_guard_def submission_guard_def
    by (intro evolving_rules engine_quiet [THEN quiet_evolving] es.frame_submit)
  from triple_conj [OF guard_reported [OF i] typed_keeps [OF this]]
  show "triple (typed cid ty) (entry_submission_guard i (submit_while_guarded eng i)) (reported cid) (\<lambda>_. typed cid ty)"
    by (rule triple_weaken) auto
  fix e
  have "returns (typed cid ty) (bindM (transition_status cid UNKNOWN) (\<lambda>u. bindM uow_commit (\<lambda>_.
      bindM (pause_for_reconciliation_required eng u c) (\<lambda>_. returnM u)))) (reported cid)" for c
    by (rule report_unknown)
  then show "returns (typed cid ty) (if e = ExecutionPausedError then
        if oi_status i = SUBMITTING then
          bindM (transition_status (oi_client_order_id i) UNKNOWN) (\<lambda>unknown.
          bindM uow_commit (\<lambda>_.
          bindM (pause_for_reconciliation_required eng unknown ''ambiguous broker outcome'') (\<lambda>_.
          returnM unknown)))
        else returnM i
      else raiseM e) (reported cid)"
    by (simp add: i) (simp add: triple_def run_simps)
qed

lemma reserve_key:
  "returns P (bindM (transition_status cid target) (\<lambda>s. bindM uow_commit (\<lambda>_. returnM s)))
     (\<lambda>s _. oi_client_order_id s = cid)"
proof (rule triple_bind)
  show "returns P (transition_status cid target) (\<lambda>s _. oi_client_order_id s = cid)"
    by (rule ret_transition) (auto dest: find_intent_key)
qed (auto simp: triple_def run_simps split: prod.split sum.split)

lemma outbox_reported:
  assumes "oi_status i = OUTBOX_PENDING"
  shows "returns (\<lambda>w. settled w \<and> find_intent cid (w_committed w) = Some i) (submit_from_outbox eng cid) (reported cid)"
  unfolding submit_from_outbox_def
proof (rule triple_bind)
  let ?ty = "oi_intent_type i"
  show "returns (\<lambda>w. settled w \<and> find_intent cid (w_committed w) = Some i) (require_intent cid)
      (\<lambda>j w. j = i \<and> typed cid ?ty w)"
    unfolding require_intent_def
  proof (rule triple_bind)
    show "returns (\<lambda>w. settled w \<and> find_intent cid (w_committed w) = Some i) (orders_get cid)
        (\<lambda>f w. f = Some i \<and> typed cid ?ty w)"
      by (rule ret_orders_get) (auto simp: typed_def settled_def env_step_settled)
  qed (auto simp: triple_def run_simps)
  fix j
  have step: "returns (typed cid ?ty) m (\<lambda>_. typed cid ?ty)" if "keeps evolving m" for m :: "('a world, 'c) comp"
    by (rule triple_weaken [OF typed_keeps [OF that]]) auto
  have reserve: "returns (typed cid ?ty) (bindM (transition_status cid SUBMITTING) (\<lambda>s. bindM uow_commit (\<lambda>_. returnM s)))
      (\<lambda>s w. typed cid ?ty w \<and> oi_status s = SUBMITTING \<and> oi_client_order_id s = cid \<and> oi_intent_type s = ?ty)"
  proof (rule triple_weaken [OF triple_conj [OF triple_conj [OF reserve_holds reserve_key] typed_keeps]])
    show "keeps evolving (bindM (transition_status cid SUBMITTING) (\<lambda>s. bindM uow_commit (\<lambda>_. returnM s)))"
      by (intro evolving_rules)
  qed (auto simp: holds_intent_def typed_def)
  show "returns (\<lambda>w. j = i \<and> typed cid ?ty w)
      (if oi_status j \<noteq> OUTBOX_PENDING then returnM j
       else bindM (assert_entries_allowed eng j) (\<lambda>_. bindM (assert_asset_tradable eng j) (\<lambda>_.
         bindM (assert_entries_allowed eng j) (\<lambda>_. bindM (transition_status cid SUBMITTING) (\<lambda>submitting.
         bindM uow_commit (\<lambda>_. complete_submission eng submitting)))))) (reported cid)"
  proof (cases "j = i")
    case True
    have "returns (\<lambda>w. typed cid ?ty w \<and> oi_status s = SUBMITTING \<and> oi_client_order_id s = cid
        \<and> oi_intent_type s = ?ty) (complete_submission eng s) (reported cid)" for s
      using complete_reported [of s cid ?ty eng] by (auto simp: triple_def)
    note submit = triple_bind [OF reserve this, unfolded bindM_assoc bindM_returnM]
    show ?thesis
      unfolding True using assms
      by (simp, intro triple_bind [OF step] submit engine_quiet [THEN quiet_evolving])
  qed (simp add: triple_def)
qed

lemma require_committed:
  "returns (\<lambda>w. settled w \<and> find_intent cid (w_committed w) = f) (require_intent cid)
     (\<lambda>j w. f = Some j \<and> find_intent cid (w_committed w) = Some j)"
  unfolding require_intent_def
proof (rule triple_bind)
  show "returns (\<lambda>w. settled w \<and> find_intent cid (w_committed w) = f) (orders_get cid)
      (\<lambda>g w. g = f \<and> find_intent cid (w_committed w) = f)"
    by (rule ret_orders_get) (auto simp: settled_def)
qed (auto simp: triple_def run_simps split: option.split)

lemma idle_submit:
  assumes "settled w" "oi_status i \<noteq> OUTBOX_PENDING" "find_intent cid (w_committed w) = Some i"
    "submit_from_outbox eng cid w = (Inr u, v)"
  shows "u = i \<and> find_intent cid (w_committed v) = Some i \<and> w_trace v = w_trace w \<and> w_broker v = w_broker w"
proof -
  obtain j x where j: "require_intent cid w = (Inr j, x)"
    using assms(4) by (auto simp: submit_from_outbox_def elim: bindM_cases)
  have "j = i" "find_intent cid (w_committed x) = Some i"
    using triple_returned [OF require_committed _ j] assms(1,3) by auto
  moreover have "keeps store_frame (require_intent cid :: ('a world, order_intent) comp)"
    unfolding require_intent_def by (intro store_intros sf.tf.keeps_rules)
  then have "store_frame w x" using j by (rule keepsD)
  ultimately show ?thesis
    using assms(2,4) j by (simp add: submit_from_outbox_def run_simps tracks_def)
qed

lemma submit_outcome:
  assumes "settled w" "submit_from_outbox eng cid w = (Inr u, v)"
  shows "\<exists>i. find_intent cid (w_committed w) = Some i \<and> intent_progress i u
    \<and> find_intent cid (w_committed v) = Some u
    \<and> (if oi_status i \<noteq> OUTBOX_PENDING then u = i \<and> w_trace v = w_trace w \<and> w_broker v = w_broker w
       else oi_status u \<notin> {OUTBOX_PENDING, SUBMITTING}
         \<and> (oi_status u = UNKNOWN \<and> oi_intent_type u \<noteq> RISK_EXIT \<longrightarrow> paused v))"
proof -
  have "evolving w v" using keepsD [OF es.frame_operations(1) assms(2)] .
  then have forward: "evolves (w_committed w) (w_committed v)" using assms(1) by (simp add: evolving_def settled_def)
  obtain j x where "require_intent cid w = (Inr j, x)"
    using assms(2) by (auto simp: submit_from_outbox_def elim: bindM_cases)
  then obtain i where i: "find_intent cid (w_committed w) = Some i"
    using triple_returned [OF require_committed] assms(1) by blast
  show ?thesis
  proof (cases "oi_status i = OUTBOX_PENDING")
    case True
    then have "reported cid u v" using triple_returned [OF outbox_reported _ assms(2)] assms(1) i by blast
    with True i evolves_type [OF forward i] show ?thesis by (auto simp: reported_def)
  next
    case False
    with i idle_submit [OF assms(1) False i assms(2)] show ?thesis
      using evolves_type [OF forward i] by auto
  qed
qed

section \<open>The expiry sweep sends nothing\<close>

text \<open>
  \<open>ds\<close> are the intents with their deadlines, \<open>t\<close> the submissions made so far, and the
  clock reads at least \<open>now\<close> from here on.
\<close>

definition sweeping :: "(string \<times> utc) list \<Rightarrow> event list \<Rightarrow> utc \<Rightarrow> 'b world \<Rightarrow> bool" where
  "sweeping ds t now w \<longleftrightarrow> engine_write (w_committed w) (w_working w) \<and> deadlines (w_committed w) = ds
     \<and> w_trace w = t \<and> (\<forall>n \<ge> w_tick w. now \<le> w_clock w n)"

lemma sweeping_keeps:
  assumes "keeps quiet m" "keeps writes m"
  shows "triple (sweeping ds t now) m (\<lambda>_. sweeping ds t now) (\<lambda>_. sweeping ds t now)"
proof (rule keeps_triple)
  show "keeps (\<lambda>w v. quiet w v \<and> writes w v) m" using assms by (simp add: keeps_def)
  show "sweeping ds t now v" if "sweeping ds t now w" "quiet w v \<and> writes w v" for w v
    using that by (auto simp: sweeping_def quiet_def writes_def engine_write_def same_deadlines_def)
qed

lemma sweeping_deadline:
  assumes "sweeping ds t now w" "i \<in> set (db_intents (w_working w))"
  shows "(oi_client_order_id i, oi_cancel_at i) \<in> set ds"
proof -
  have "deadlines (w_working w) = ds" using assms(1) by (simp add: sweeping_def engine_write_def same_deadlines_def)
  with assms(2) show ?thesis by (force simp: deadlines_def)
qed

lemma sweeping_returns:
  assumes "keeps quiet m" "keeps writes m" "returns (sweeping ds t now) m Q"
  shows "triple (sweeping ds t now) m (\<lambda>a w. Q a w \<and> sweeping ds t now w) (\<lambda>_. sweeping ds t now)"
  using triple_conj [OF assms(3) sweeping_keeps [OF assms(1,2)]] by (rule triple_weaken) auto

lemmas writes_list = writes_store(2) [THEN keeps_mono, OF tracks_writes]

lemma sweeping_require:
  "triple (sweeping ds t now) (require_intent cid)
     (\<lambda>i w. (cid, oi_cancel_at i) \<in> set ds \<and> sweeping ds t now w) (\<lambda>_. sweeping ds t now)"
proof (rule sweeping_returns [OF qs.frame_gates(1) ws.frame_gates(1)])
  show "returns (sweeping ds t now) (require_intent cid) (\<lambda>i w. (cid, oi_cancel_at i) \<in> set ds)"
    unfolding require_intent_def
  proof (rule triple_bind)
    show "returns (sweeping ds t now) (orders_get cid)
        (\<lambda>f w. \<forall>i. f = Some i \<longrightarrow> (cid, oi_cancel_at i) \<in> set ds)"
    proof (rule ret_orders_get)
      fix w
      assume w: "sweeping ds t now w"
      show "\<forall>i. find_intent cid (w_working w) = Some i \<longrightarrow> (cid, oi_cancel_at i) \<in> set ds"
        using sweeping_deadline [OF w] find_intent_key by blast
    qed
  qed (auto simp: triple_def run_simps split: option.split)
qed

lemma sweeping_list:
  "triple (sweeping ds t now) (list_by_status st)
     (\<lambda>is w. (\<forall>i\<in>set is. (oi_client_order_id i, oi_cancel_at i) \<in> set ds) \<and> sweeping ds t now w)
     (\<lambda>_. sweeping ds t now)"
proof (rule sweeping_returns [OF quiet_store(2) writes_list])
  show "returns (sweeping ds t now) (list_by_status st)
      (\<lambda>is w. \<forall>i\<in>set is. (oi_client_order_id i, oi_cancel_at i) \<in> set ds)"
    by (rule ret_list_by_status) (auto simp: sql_intents_by_status_def dest: sweeping_deadline)
qed

lemma sweeping_resolve:
  assumes "distinct (map fst ds)" "(cid, at) \<in> set ds" "at \<le> now"
  shows "triple (sweeping ds t now) (resolve eng cid) (\<lambda>_. sweeping ds t now) (\<lambda>_. sweeping ds t now)"
  unfolding resolve_def
proof (rule triple_bind [OF sweeping_require])
  fix i :: order_intent
  let ?P = "\<lambda>w. (cid, oi_cancel_at i) \<in> set ds \<and> sweeping ds t now w"
  have call: "triple (sweeping ds t now) (broker_call op) (\<lambda>_. sweeping ds t now) (\<lambda>_. sweeping ds t now)"
    for op :: "('a, 'c) comp"
    by (rule sweeping_keeps [OF broker_call_quiet writes_broker_call])
  have clock: "triple (sweeping ds t now) read_clock (\<lambda>now' w. now \<le> now' \<and> sweeping ds t now w) (\<lambda>_. sweeping ds t now)"
    by (auto simp: triple_def read_clock_def sweeping_def)
  have mark: "triple (sweeping ds t now) (bindM (if b then transition_status cid UNKNOWN else returnM i)
      (\<lambda>u. bindM uow_commit (\<lambda>_. returnM u))) (\<lambda>_. sweeping ds t now) (\<lambda>_. sweeping ds t now)" for b
    by (rule sweeping_keeps) (intro quiet_rules, intro wf.keeps_rules ws.e_transition ws.e_commit)
  have late: "triple (\<lambda>w. now \<le> now' \<and> sweeping ds t now w)
      (if now' \<ge> oi_cancel_at i then bindM (if oi_status i = SUBMITTING then transition_status cid UNKNOWN else returnM i)
         (\<lambda>u. bindM uow_commit (\<lambda>_. returnM u)) else complete_submission eng i)
      (\<lambda>_. sweeping ds t now) (\<lambda>_. sweeping ds t now)" if "oi_cancel_at i = at" for now'
  proof (cases "now \<le> now'")
    case True
    then have "oi_cancel_at i \<le> now'" using that assms(3) by simp
    then show ?thesis by (simp only: if_True, intro triple_pre [OF mark]) simp
  qed (simp add: triple_def)
  have found: "triple (sweeping ds t now) (bindM (assert_mirror_matches eng i b) (\<lambda>_. record_accepted eng i b))
      (\<lambda>_. sweeping ds t now) (\<lambda>_. sweeping ds t now)" for b
    by (rule sweeping_keeps) (intro quiet_rules engine_quiet, intro wf.keeps_rules ws.frame_mirror ws.frame_refresh)
  show "triple ?P (if oi_status i \<notin> {SUBMITTING, UNKNOWN} then returnM i
      else bindM (broker_call (op_get_order (eng_broker eng) cid)) (\<lambda>found. case found of
        None \<Rightarrow> bindM read_clock (\<lambda>now'. if now' \<ge> oi_cancel_at i then
          bindM (if oi_status i = SUBMITTING then transition_status cid UNKNOWN else returnM i)
            (\<lambda>u. bindM uow_commit (\<lambda>_. returnM u))
          else complete_submission eng i)
      | Some b \<Rightarrow> bindM (assert_mirror_matches eng i b) (\<lambda>_. record_accepted eng i b)))
      (\<lambda>_. sweeping ds t now) (\<lambda>_. sweeping ds t now)"
  proof (cases "(cid, oi_cancel_at i) \<in> set ds")
    case True
    then have "oi_cancel_at i = at" using assms(1,2) by (metis eq_key_imp_eq_value)
    then show ?thesis
      by (intro triple_pre [of "sweeping ds t now" _ _ _ ?P] triple_if triple_bind [OF call] triple_case_option
          triple_bind [OF clock] late found) (simp_all add: triple_def run_simps)
  qed (simp add: triple_def)
qed

lemma sweeping_expire:
  assumes "distinct (map fst ds)"
  shows "triple (sweeping ds t now) (expire_ambiguous eng now closed) (\<lambda>_. sweeping ds t now) (\<lambda>_. sweeping ds t now)"
  unfolding expire_ambiguous_def
proof (rule inv_fold, rule triple_bind [OF sweeping_list])
  fix closed :: intent_dict and intents :: "order_intent list"
  let ?body = "\<lambda>closed intent. if oi_cancel_at intent \<le> now
      then bindM (resolve eng (oi_client_order_id intent)) (\<lambda>r. returnM (keep_intent closed r))
      else returnM closed"
  have body: "triple (sweeping ds t now) (?body acc i) (\<lambda>_. sweeping ds t now) (\<lambda>_. sweeping ds t now)"
    if "(oi_client_order_id i, oi_cancel_at i) \<in> set ds" for acc i
    using sweeping_resolve [OF assms that]
    by (intro triple_if inv_bind) (simp_all add: triple_def run_simps)
  show "triple (\<lambda>w. (\<forall>i\<in>set intents. (oi_client_order_id i, oi_cancel_at i) \<in> set ds) \<and> sweeping ds t now w)
      (foldM ?body closed intents) (\<lambda>_. sweeping ds t now) (\<lambda>_. sweeping ds t now)"
  proof (cases "\<forall>i\<in>set intents. (oi_client_order_id i, oi_cancel_at i) \<in> set ds")
    case True
    then have "triple (sweeping ds t now) (foldM ?body closed intents) (\<lambda>_. sweeping ds t now) (\<lambda>_. sweeping ds t now)"
      by (intro triple_fold [where I = "\<lambda>_. sweeping ds t now"] body) simp
    then show ?thesis by (rule triple_pre) simp
  next
    case False
    then show ?thesis by (auto simp: triple_def)
  qed
qed

lemma sweeping_overdue:
  assumes "distinct (map fst ds)"
  shows "triple (sweeping ds t now)
    (bindM (expire_ambiguous eng now []) (\<lambda>closed. bindM (expire_unsent now closed) (\<lambda>closed.
     bindM (expire_live eng now closed) (\<lambda>closed. bindM (if closed \<noteq> [] then uow_commit else returnM ())
     (\<lambda>_. returnM (map snd closed)))))) (\<lambda>_. sweeping ds t now) (\<lambda>_. sweeping ds t now)"
proof (rule triple_bind [OF sweeping_expire [OF assms]], rule sweeping_keeps)
  fix closed
  show "keeps quiet (bindM (expire_unsent now closed) (\<lambda>closed. bindM (expire_live eng now closed)
      (\<lambda>closed. bindM (if closed \<noteq> [] then uow_commit else returnM ()) (\<lambda>_. returnM (map snd closed)))))"
    by (intro quiet_rules engine_quiet)
  show "keeps writes (bindM (expire_unsent now closed) (\<lambda>closed. bindM (expire_live eng now closed)
      (\<lambda>closed. bindM (if closed \<noteq> [] then uow_commit else returnM ()) (\<lambda>_. returnM (map snd closed)))))"
    by (intro wf.keeps_rules ws.frame_expire ws.e_commit)
qed

lemma expire_overdue_sends_nothing:
  assumes "settled w" "distinct (map oi_client_order_id (db_intents (w_committed w)))"
    "\<And>m n. m \<le> n \<Longrightarrow> w_clock w m \<le> w_clock w n" "expire_overdue eng w = (r, v)"
  shows "w_trace v = w_trace w"
proof -
  let ?now = "w_clock w (Suc (w_tick w))"
  let ?ds = "deadlines (w_committed w)"
  let ?w = "w\<lparr>w_tick := Suc (w_tick w)\<rparr>"
  let ?m = "bindM (expire_ambiguous eng ?now []) (\<lambda>closed. bindM (expire_unsent ?now closed) (\<lambda>closed.
     bindM (expire_live eng ?now closed) (\<lambda>closed. bindM (if closed \<noteq> [] then uow_commit else returnM ())
     (\<lambda>_. returnM (map snd closed)))))"
  have run: "?m ?w = (r, v)" using assms(4) by (simp add: expire_overdue_def read_clock_def)
  have "sweeping ?ds (w_trace w) ?now ?w"
    using assms(1,3) by (simp add: sweeping_def settled_def ew.d_refl)
  moreover have "distinct (map fst ?ds)" using assms(2) by (simp add: deadlines_def o_def)
  ultimately have "sweeping ?ds (w_trace w) ?now v"
    using sweeping_overdue [of ?ds "w_trace w" ?now eng] run
    by (cases r) (auto dest: triple_returned triple_raised)
  then show ?thesis by (simp add: sweeping_def)
qed

end
