(* ===== verification/Broker_Conversation.thy ===== *)
theory Broker_Conversation
  imports Broker_Port
begin

text \<open>
  What a broker said. Each call of the port leaves one answer, a raised error included,
  and moves the broker; a conversation is the list of answers along the states one call
  after the other reached. The claims that compare the program's tables with the broker
  name the conversation from the broker at the start of an operation to the broker at its
  end, so that they are about the answers that operation received.
\<close>

section \<open>Answers\<close>

datatype broker_answer =
    AccountIs paper_account
  | OrderIs string "broker_order option"
  | RecentOrdersAre utc "broker_order list"
  | OpenOrdersAre "broker_order list"
  | PositionsAre "paper_position list"
  | FillsAre string "fill list"
  | AssetIs string "paper_asset option"
  | SubmitIs order_intent submit_result
  | CancelIs string bool
  | Raised exn

definition said :: "('a \<Rightarrow> broker_answer) \<Rightarrow> exn + 'a \<Rightarrow> broker_answer" where
  "said k r = (case r of Inl e \<Rightarrow> Raised e | Inr a \<Rightarrow> k a)"

lemma said_simps [simp]: "said k (Inr a) = k a" "said k (Inl e) = Raised e"
  by (simp_all add: said_def)

inductive replies :: "'b broker_ops \<Rightarrow> 'b \<Rightarrow> broker_answer \<Rightarrow> 'b \<Rightarrow> bool" for ops where
  account: "op_account ops b = (r, c) \<Longrightarrow> replies ops b (said AccountIs r) c"
| order: "op_get_order ops cid b = (r1, c) \<Longrightarrow> replies ops b (said (OrderIs cid) r1) c"
| recent: "op_list_recent_orders ops since b = (r2, c) \<Longrightarrow> replies ops b (said (RecentOrdersAre since) r2) c"
| live: "op_list_open_orders ops b = (r3, c) \<Longrightarrow> replies ops b (said OpenOrdersAre r3) c"
| positions: "op_list_positions ops b = (r4, c) \<Longrightarrow> replies ops b (said PositionsAre r4) c"
| fills: "op_list_fills ops bid b = (r5, c) \<Longrightarrow> replies ops b (said (FillsAre bid) r5) c"
| asset: "op_get_asset ops symbol b = (r6, c) \<Longrightarrow> replies ops b (said (AssetIs symbol) r6) c"
| submit: "op_submit_order ops i b = (r7, c) \<Longrightarrow> replies ops b (said (SubmitIs i) r7) c"
| cancel: "op_cancel_order ops bid b = (r8, c) \<Longrightarrow> replies ops b (said (CancelIs bid) r8) c"

inductive conversation :: "'b broker_ops \<Rightarrow> 'b \<Rightarrow> broker_answer list \<Rightarrow> 'b \<Rightarrow> bool" for ops b where
  silence: "conversation ops b [] b"
| speaks: "conversation ops b es c \<Longrightarrow> replies ops c e d \<Longrightarrow> conversation ops b (es @ [e]) d"

text \<open>Answers to the reading calls of the port.\<close>

fun reading :: "broker_answer \<Rightarrow> bool" where
  "reading (SubmitIs i r) = False"
| "reading (CancelIs bid b) = False"
| "reading (Raised e) = False"
| "reading _ = True"

lemma conversation_append:
  assumes "conversation ops c fs d" "conversation ops b es c"
  shows "conversation ops b (es @ fs) d"
  using assms
proof (induction rule: conversation.induct)
  case (speaks fs c' e d)
  then show ?case using conversation.speaks [of ops b "es @ fs" c' e d] by simp
qed simp

text \<open>A broker whose reading calls leave it as it is gives every answer in one state.\<close>

lemma still_conversation:
  assumes "conversation ops b es c" "list_all reading es"
    and still: "\<And>x e y. replies ops x e y \<Longrightarrow> reading e \<Longrightarrow> y = x"
  shows "c = b \<and> (\<forall>e\<in>set es. replies ops b e b)"
  using assms(1,2)
proof (induction rule: conversation.induct)
  case (speaks es c e d)
  then show ?case using still by auto
qed simp

section \<open>Conversations of a computation\<close>

definition talks :: "'b broker_ops \<Rightarrow> 'b world \<Rightarrow> 'b world \<Rightarrow> bool" where
  "talks ops w w' \<longleftrightarrow> (\<exists>es. conversation ops (w_broker w) es (w_broker w'))"

interpretation tk: effect_frame "talks ops" for ops :: "'b broker_ops"
proof
  show "talks ops w w" for w :: "'b world"
    by (auto simp: talks_def intro: conversation.silence)
  show "talks ops s t \<Longrightarrow> talks ops t u \<Longrightarrow> talks ops s u" for s t u :: "'b world"
    by (auto simp: talks_def intro: conversation_append)
qed

lemma talks_env_step: "talks ops w (env_step w)"
  by (auto simp: talks_def intro: conversation.silence)

lemma store_talks: "keeps store_frame m \<Longrightarrow> keeps (talks ops) m"
  by (erule keeps_mono) (auto simp: store_frame_def talks_def intro: conversation.silence)

lemma call_talks:
  assumes "\<And>b r c. op b = (r, c) \<Longrightarrow> \<exists>e. replies ops b e c"
  shows "keeps (talks ops) (broker_call op)"
  unfolding keeps_def
proof
  fix w :: "'a world"
  obtain r c where op: "op (w_broker w) = (r, c)" by (cases "op (w_broker w)")
  then obtain e where "replies ops (w_broker w) e c" using assms by blast
  then have "conversation ops (w_broker w) ([] @ [e]) c"
    by (rule conversation.speaks [OF conversation.silence])
  with op show "talks ops w (snd (broker_call op w))"
    unfolding talks_def by (auto simp: broker_call_def Let_def)
qed

lemma port_talks:
  "keeps (talks ops) (broker_call (op_get_order ops cid))"
  "keeps (talks ops) (broker_call (op_get_asset ops symbol))"
  "keeps (talks ops) (broker_call (op_list_fills ops bid))"
  "keeps (talks ops) (broker_call (op_cancel_order ops bid))"
  "keeps (talks ops) (broker_call (op_list_positions ops))"
  by (rule call_talks, blast intro: replies.intros)+

lemma submit_talks: "keeps (talks ops) (broker_submit ops i)"
proof -
  have "keeps (talks ops) (note_submission i)"
    by (auto simp: note_submission_def keeps_def run_simps talks_def intro: conversation.silence)
  moreover have "keeps (talks ops) (broker_call (op_submit_order ops i))"
    by (rule call_talks, blast intro: replies.intros)
  ultimately show ?thesis unfolding broker_submit_def by (intro tk.keeps_bind)
qed

section \<open>Answers gathered so far\<close>

text \<open>\<open>heard ops b A c\<close>: between \<open>b\<close> and \<open>c\<close> the reading calls gave the answers \<open>A\<close>.\<close>

definition heard :: "'b broker_ops \<Rightarrow> 'b \<Rightarrow> broker_answer set \<Rightarrow> 'b \<Rightarrow> bool" where
  "heard ops b A c \<longleftrightarrow> (\<exists>es. conversation ops b es c \<and> list_all reading es \<and> set es = A)"

lemma heard_nothing: "heard ops b {} b"
  by (auto simp: heard_def intro: conversation.silence exI [of _ "[]"])

lemma heard_more:
  assumes "heard ops b A c" "replies ops c e d" "reading e"
  shows "heard ops b (insert e A) d"
proof -
  obtain es where "conversation ops b es c" "list_all reading es" "set es = A"
    using assms(1) by (auto simp: heard_def)
  with conversation.speaks [OF this(1) assms(2)] assms(3) show ?thesis
    unfolding heard_def by (intro exI [of _ "es @ [e]"]) auto
qed

end
