(* ===== verification/Reconciler.thy ===== *)
theory Reconciler
  imports Engine_Outcome Broker_Conversation
begin

text \<open>
  \<open>application/reconciliation_service.py\<close>: the comparison of the broker's account,
  order, fill and position views with the local tables. \<open>collect\<close> reads one snapshot
  and reports, \<open>run\<close> persists the report and pauses on any mismatch.

  The snapshot is a REPEATABLE READ transaction. Its only writes to a row that another
  process can touch are the pause and the audit command at the end, where a serialization
  failure is one of the faults a statement may meet; nothing before them reads the
  control row, so a concurrent pause is not observed earlier either.
\<close>

section \<open>Policy and configuration\<close>

record account_policy =
  ap_expected_account_id :: string
  ap_cash_tolerance_cents :: int
  ap_nav_tolerance_cents :: int

definition AccountReconciliationPolicy :: "string \<Rightarrow> int \<Rightarrow> int \<Rightarrow> account_policy outcome" where
  "AccountReconciliationPolicy expected_account_id cash_tolerance_cents nav_tolerance_cents =
     bindO (require (text_ok 100 expected_account_id)) (\<lambda>_.
     bindO (require (0 \<le> cash_tolerance_cents)) (\<lambda>_.
     bindO (require (0 \<le> nav_tolerance_cents)) (\<lambda>_.
     Inr \<lparr>ap_expected_account_id = expected_account_id, ap_cash_tolerance_cents = cash_tolerance_cents,
          ap_nav_tolerance_cents = nav_tolerance_cents\<rparr>)))"

text \<open>
  The price provider is a seam of the deployment: for each symbol a price in cents, or
  what it raises. One run asks each symbol once.
\<close>

record 'b reconciler =
  rec_broker :: "'b broker_ops"
  rec_policy :: "account_policy option"
  rec_prices :: "(string \<Rightarrow> int outcome) option"

definition HISTORY_OVERLAP :: int where "HISTORY_OVERLAP = DAY_MICROSECONDS"

definition history_horizon :: "pydate \<Rightarrow> ('b world, utc) comp" where
  "history_horizon trading_date =
     bindM reconciliations_latest (\<lambda>latest.
       let horizon = (case latest of Some r \<Rightarrow> rr_observed_at r | None \<Rightarrow> midnight trading_date) - HISTORY_OVERLAP
       in if horizon < 0 then raiseM OverflowError else returnM horizon)"

section \<open>The report under construction\<close>

record tally =
  ta_mismatches :: "reconciliation_mismatch list"
  ta_orders :: int
  ta_fills :: int

definition mismatch :: "mismatch_kind \<Rightarrow> string \<Rightarrow> tally \<Rightarrow> ('b world, tally) comp" where
  "mismatch kind detail t =
     bindM (liftM (ReconciliationMismatch kind detail)) (\<lambda>m. returnM (t\<lparr>ta_mismatches := ta_mismatches t @ [m]\<rparr>))"

definition mismatch_if :: "bool \<Rightarrow> mismatch_kind \<Rightarrow> string \<Rightarrow> tally \<Rightarrow> ('b world, tally) comp" where
  "mismatch_if b kind detail t = (if b then mismatch kind detail t else returnM t)"

definition count_order :: "tally \<Rightarrow> tally" where
  "count_order t = t\<lparr>ta_orders := ta_orders t + 1\<rparr>"

definition count_fill :: "tally \<Rightarrow> tally" where
  "count_fill t = t\<lparr>ta_fills := ta_fills t + 1\<rparr>"

section \<open>Order passes\<close>

text \<open>The two loops over intents whose broker truth is unresolved.\<close>

definition check_intents :: "order_status \<Rightarrow> tally \<Rightarrow> ('b world, tally) comp" where
  "check_intents st t =
     bindM (list_by_status st) (\<lambda>intents.
       foldM (\<lambda>t i. mismatch INTENT_STATUS_MISMATCH (oi_client_order_id i) t) t intents)"

text \<open>The broker's fills of one order against the local execution ids.\<close>

definition check_fills :: "'b reconciler \<Rightarrow> string \<Rightarrow> string \<Rightarrow> tally \<Rightarrow> ('b world, tally) comp" where
  "check_fills rec local_id broker_id t =
     bindM (list_fills local_id) (\<lambda>known.
     bindM (broker_call (op_list_fills (rec_broker rec) broker_id)) (\<lambda>fills.
       foldM (\<lambda>t f. mismatch_if (fl_execution_id f \<notin> set (map fl_execution_id known)) MISSING_LOCAL_FILL
                (fl_execution_id f) (count_fill t)) t fills))"

definition TERMINAL_INTENT_STATUSES :: "order_status list" where
  "TERMINAL_INTENT_STATUSES = [FILLED, CANCELED, EXPIRED, REJECTED]"

definition intent_parameters_differ :: "order_intent \<Rightarrow> broker_order \<Rightarrow> bool" where
  "intent_parameters_differ i b \<longleftrightarrow> bo_symbol b \<noteq> oi_symbol i \<or> bo_side b \<noteq> oi_side i
     \<or> bo_quantity b \<noteq> oi_quantity i \<or> bo_limit_price b \<noteq> oi_limit_price i"

definition check_open_mirror :: "'b reconciler \<Rightarrow> tally \<Rightarrow> broker_order \<Rightarrow> ('b world, tally) comp" where
  "check_open_mirror rec t0 mirror =
     (let t = count_order t0 in
      bindM (broker_call (op_get_order (rec_broker rec) (bo_client_order_id mirror))) (\<lambda>found.
        case found of
          None \<Rightarrow> mismatch MISSING_BROKER_ORDER (bo_broker_order_id mirror) t
        | Some b \<Rightarrow>
            bindM (orders_get (bo_client_order_id mirror)) (\<lambda>intent.
            bindM (mismatch_if (case intent of None \<Rightarrow> False | Some i \<Rightarrow> intent_parameters_differ i b)
                     PARAMETER_MISMATCH (bo_broker_order_id mirror) t) (\<lambda>t.
            bindM (mismatch_if (case intent of None \<Rightarrow> False
                                | Some i \<Rightarrow> oi_status i \<in> set TERMINAL_INTENT_STATUSES \<and> is_open b)
                     INTENT_STATUS_MISMATCH (bo_broker_order_id mirror) t) (\<lambda>t.
            bindM (mismatch_if (bo_status b \<noteq> bo_status mirror) STATUS_MISMATCH (bo_broker_order_id mirror) t) (\<lambda>t.
            check_fills rec (bo_broker_order_id mirror) (bo_broker_order_id mirror) t))))))"

definition check_closed_mirror :: "'b reconciler \<Rightarrow> string list \<Rightarrow> tally \<Rightarrow> broker_order \<Rightarrow> ('b world, tally) comp" where
  "check_closed_mirror rec checked t mirror =
     (if bo_broker_order_id mirror \<in> set checked then returnM t
      else
        bindM (broker_call (op_get_order (rec_broker rec) (bo_client_order_id mirror))) (\<lambda>found.
          case found of
            None \<Rightarrow> returnM t
          | Some b \<Rightarrow>
              if \<not> is_open b then returnM t
              else mismatch STATUS_MISMATCH (bo_broker_order_id mirror) (count_order t)))"

type_synonym reported = "string \<rightharpoonup> broker_order"

definition check_open_order :: "string list \<Rightarrow> tally \<times> reported \<Rightarrow> broker_order \<Rightarrow> ('b world, tally \<times> reported) comp" where
  "check_open_order known acc b =
     (case acc of (t, seen) \<Rightarrow>
        bindM (mismatch_if (bo_client_order_id b \<notin> set known) UNKNOWN_BROKER_ORDER (bo_broker_order_id b)
                 (count_order t)) (\<lambda>t.
        returnM (t, seen(bo_broker_order_id b \<mapsto> b))))"

definition superseded :: "broker_order option \<Rightarrow> broker_order \<Rightarrow> bool" where
  "superseded open_snapshot b \<longleftrightarrow> (case open_snapshot of None \<Rightarrow> False
     | Some s \<Rightarrow> bo_updated_at b < bo_updated_at s \<or> bo_updated_at b = bo_updated_at s \<and> bo_status b = bo_status s)"

definition check_recent_order ::
  "'b reconciler \<Rightarrow> tally \<times> reported \<Rightarrow> broker_order \<Rightarrow> ('b world, tally \<times> reported) comp" where
  "check_recent_order rec acc b =
     (case acc of (t, seen) \<Rightarrow>
        if superseded (seen (bo_broker_order_id b)) b \<or> is_open b then returnM (t, seen)
        else
          let seen = seen(bo_broker_order_id b \<mapsto> b); t = count_order t in
          bindM (get_broker_order (bo_client_order_id b)) (\<lambda>closed.
            case closed of
              None \<Rightarrow> bindM (mismatch UNKNOWN_BROKER_ORDER (bo_broker_order_id b) t) (\<lambda>t. returnM (t, seen))
            | Some m \<Rightarrow>
                bindM (mismatch_if (bo_status b \<noteq> bo_status m) STATUS_MISMATCH (bo_broker_order_id m) t) (\<lambda>t.
                bindM (check_fills rec (bo_broker_order_id m) (bo_broker_order_id b) t) (\<lambda>t.
                returnM (t, seen)))))"

definition check_orders :: "'b reconciler \<Rightarrow> pydate \<Rightarrow> tally \<Rightarrow> ('b world, tally) comp" where
  "check_orders rec trading_date t =
     bindM list_open_broker_orders (\<lambda>local_mirrors.
     bindM (foldM (check_open_mirror rec) t local_mirrors) (\<lambda>t.
     bindM list_all_broker_orders (\<lambda>mirrors.
     bindM (foldM (check_closed_mirror rec (map bo_broker_order_id local_mirrors)) t mirrors) (\<lambda>t.
     bindM list_all_broker_orders (\<lambda>mirrors.
     bindM (broker_call (op_list_open_orders (rec_broker rec))) (\<lambda>open_orders.
     bindM (foldM (check_open_order (map bo_client_order_id mirrors)) (t, Map.empty) open_orders) (\<lambda>acc.
     bindM (history_horizon trading_date) (\<lambda>horizon.
     bindM (broker_call (op_list_recent_orders (rec_broker rec) horizon)) (\<lambda>recent.
     bindM (foldM (check_recent_order rec) acc recent) (\<lambda>(t, seen). returnM t))))))))))"

section \<open>Positions and account\<close>

definition orders_by_id :: "broker_order list \<Rightarrow> (string \<rightharpoonup> broker_order)" where
  "orders_by_id orders = map_of (rev (map (\<lambda>b. (bo_broker_order_id b, b)) orders))"

definition broker_quantities :: "paper_position list \<Rightarrow> (string \<rightharpoonup> int)" where
  "broker_quantities ps = map_of (rev (map (\<lambda>p. (pp_symbol p, pp_quantity p)) ps))"

definition position_symbols :: "ledger_projection \<Rightarrow> paper_position list \<Rightarrow> string list" where
  "position_symbols projection ps = sort (remdups (map lot_symbol (proj_lots projection) @ map pp_symbol ps))"

definition check_position ::
  "(string \<rightharpoonup> int) \<Rightarrow> (string \<rightharpoonup> int) \<Rightarrow> tally \<Rightarrow> string \<Rightarrow> ('b world, tally) comp" where
  "check_position projected held t symbol =
     (if (projected symbol = None) \<noteq> (held symbol = None) then mismatch POSITION_SYMBOL_MISMATCH symbol t
      else mismatch_if (projected symbol \<noteq> held symbol) POSITION_QUANTITY_MISMATCH symbol t)"

definition check_positions :: "'b reconciler \<Rightarrow> ledger_projection \<Rightarrow> tally \<Rightarrow> ('b world, tally) comp" where
  "check_positions rec projection t =
     bindM (broker_call (op_list_positions (rec_broker rec))) (\<lambda>ps.
       foldM (check_position (positions projection) (broker_quantities ps)) t (position_symbols projection ps))"

text \<open>Only fills after the baseline count toward the expected cash.\<close>

definition post_baseline :: "account_baseline \<Rightarrow> fill \<Rightarrow> bool" where
  "post_baseline b f \<longleftrightarrow>
     (case (ab_cutoff_occurred_at b, ab_cutoff_execution_id b) of
        (Some at, Some eid) \<Rightarrow> fl_occurred_at f > at \<or> fl_occurred_at f = at \<and> fl_execution_id f > eid
      | (Some at, None) \<Rightarrow> fl_occurred_at f > at
      | (None, _) \<Rightarrow> fl_occurred_at f \<ge> ab_effective_at b)"

fun cash_delta :: "(string \<rightharpoonup> broker_order) \<Rightarrow> int \<Rightarrow> fill list \<Rightarrow> int outcome" where
  "cash_delta orders cash [] = Inr cash"
| "cash_delta orders cash (f # fs) =
     (case orders (fl_broker_order_id f) of
        None \<Rightarrow> Inl (LedgerInvariantError ''fill references an unknown broker order'')
      | Some b \<Rightarrow>
          let cash = (if bo_side b = BUY then cash - fl_quantity f * fl_price f else cash + fl_quantity f * fl_price f)
          in if \<bar>cash\<bar> > 1000000000000
             then Inl (LedgerInvariantError ''projected cash delta exceeds the allowed range'')
             else cash_delta orders cash fs)"

definition expected_got :: "int \<Rightarrow> int \<Rightarrow> string" where
  "expected_got expected got = ''expected '' @ show_int expected @ '' got '' @ show_int got"

text \<open>The keys of a dict in insertion order.\<close>

definition first_keys :: "'a list \<Rightarrow> 'a list" where
  "first_keys xs = rev (remdups (rev xs))"

definition mark_positions :: "(string \<Rightarrow> int outcome) \<Rightarrow> ledger_projection \<Rightarrow> (string \<rightharpoonup> int) outcome" where
  "mark_positions provider projection =
     bindO (mapO (\<lambda>s. bindO (provider s) (\<lambda>p. Inr (s, p))) (first_keys (map lot_symbol (proj_lots projection))))
       (\<lambda>marks. Inr (map_of marks))"

definition check_nav ::
  "'b reconciler \<Rightarrow> account_policy \<Rightarrow> paper_account \<Rightarrow> ledger_projection \<Rightarrow> int \<Rightarrow> tally \<Rightarrow> ('b world, tally) comp" where
  "check_nav rec policy account projection expected_cash t =
     catchM
       (case rec_prices rec of
          None \<Rightarrow>
            if proj_lots projection \<noteq> []
            then mismatch ACCOUNT_RECONCILIATION_UNAVAILABLE ''missing mark price provider'' t
            else mismatch_if (\<bar>ac_equity account - expected_cash\<bar> > ap_nav_tolerance_cents policy) NAV_MISMATCH
                   (expected_got expected_cash (ac_equity account)) t
        | Some provider \<Rightarrow>
            bindM (liftM (mark_positions provider projection)) (\<lambda>prices.
            bindM (liftM (account_equity_from_cash_and_positions expected_cash (proj_lots projection) prices)) (\<lambda>nav.
            mismatch_if (\<bar>ac_equity account - nav\<bar> > ap_nav_tolerance_cents policy) NAV_MISMATCH
              (expected_got nav (ac_equity account)) t)))
       (\<lambda>e. case e of
              MarkPriceUnavailableError text \<Rightarrow>
                mismatch ACCOUNT_RECONCILIATION_UNAVAILABLE
                  (if \<not> blank text then take 200 text else ''mark price unavailable'') t
            | _ \<Rightarrow> raiseM e)"

definition check_cash ::
  "'b reconciler \<Rightarrow> account_policy \<Rightarrow> paper_account \<Rightarrow> ledger_projection \<Rightarrow> account_baseline \<Rightarrow> tally \<Rightarrow>
   ('b world, tally) comp" where
  "check_cash rec policy account projection baseline t =
     bindM list_all_fills (\<lambda>all_fills.
     bindM list_all_broker_orders (\<lambda>orders.
     if ab_opening_cash_cents baseline < 0 then raiseM TypeError
     else
       bindM (liftM (cash_delta (orders_by_id orders) 0 (filter (post_baseline baseline) all_fills))) (\<lambda>delta.
       let expected_cash = ab_opening_cash_cents baseline + delta in
       bindM (mismatch_if (\<bar>ac_cash account - expected_cash\<bar> > ap_cash_tolerance_cents policy) CASH_MISMATCH
                (expected_got expected_cash (ac_cash account)) t) (\<lambda>t.
       check_nav rec policy account projection expected_cash t))))"

definition check_account ::
  "'b reconciler \<Rightarrow> account_policy \<Rightarrow> paper_account \<Rightarrow> ledger_projection \<Rightarrow> tally \<Rightarrow> ('b world, tally) comp" where
  "check_account rec policy account projection t =
     bindM (mismatch_if (ac_account_id account \<noteq> ap_expected_account_id policy) ACCOUNT_ID_MISMATCH
              (take 100 (ac_account_id account)) t) (\<lambda>t.
     bindM (mismatch_if (ac_buying_power account < 0) BUYING_POWER_MISMATCH
              (take 200 (show_int (ac_buying_power account))) t) (\<lambda>t.
     bindM (get_baseline (ac_account_id account)) (\<lambda>baseline.
       case baseline of
         None \<Rightarrow> mismatch ACCOUNT_RECONCILIATION_UNAVAILABLE ''missing opening cash baseline'' t
       | Some b \<Rightarrow> check_cash rec policy account projection b t)))"

section \<open>Collect and run\<close>

definition collect :: "'b reconciler \<Rightarrow> pydate \<Rightarrow> ('b world, reconciliation_result) comp" where
  "collect rec trading_date =
     bindM begin_reconciliation_snapshot (\<lambda>_.
     bindM (broker_call (op_account (rec_broker rec))) (\<lambda>account.
     bindM (mismatch_if (ac_environment account \<noteq> PAPER) NON_PAPER_ACCOUNT ''broker account does not assert PAPER''
              \<lparr>ta_mismatches = [], ta_orders = 0, ta_fills = 0\<rparr>) (\<lambda>t.
     bindM (check_intents REVIEW_REQUIRED t) (\<lambda>t.
     bindM (check_intents UNKNOWN t) (\<lambda>t.
     bindM (check_orders rec trading_date t) (\<lambda>t.
     bindM list_all_fills (\<lambda>fills.
     bindM list_all_broker_orders (\<lambda>orders.
     bindM (liftM (project_ledger fills (orders_by_id orders))) (\<lambda>projection.
     bindM (check_positions rec projection t) (\<lambda>t.
     bindM (case rec_policy rec of None \<Rightarrow> returnM t
            | Some policy \<Rightarrow> check_account rec policy account projection t) (\<lambda>t.
     bindM read_clock (\<lambda>now.
     bindM fresh_uuid (\<lambda>run_id.
     liftM (create_result trading_date (ta_mismatches t) (ta_orders t) (ta_fills t) now run_id
              (if rec_policy rec \<noteq> None then FULL else PARTIAL)))))))))))))))"

definition failed_run :: "pydate \<Rightarrow> mismatch_kind \<Rightarrow> string \<Rightarrow> ('b world, reconciliation_result) comp" where
  "failed_run trading_date kind detail =
     bindM (liftM (ReconciliationMismatch kind detail)) (\<lambda>m.
     bindM read_clock (\<lambda>now.
     bindM fresh_uuid (\<lambda>run_id.
     liftM (create_result trading_date [m] 0 0 now run_id PARTIAL))))"

definition ledger_failure_detail :: "string \<Rightarrow> string" where
  "ledger_failure_detail text =
     (let detail = (if \<not> blank text then take 200 text else ''ledger invariant failure'');
          detail = py_strip (take 200 (filter (\<lambda>c. c \<noteq> char_of (0 :: nat)) detail))
      in if detail \<noteq> [] then detail else ''ledger invariant failure'')"

definition collect_or_report :: "'b reconciler \<Rightarrow> pydate \<Rightarrow> ('b world, reconciliation_result) comp" where
  "collect_or_report rec trading_date =
     catchM (collect rec trading_date) (\<lambda>e.
       case e of
         BrokerTransportError \<Rightarrow>
           failed_run trading_date BROKER_QUERY_FAILURE ''broker query failed during reconciliation''
       | LedgerInvariantError text \<Rightarrow> failed_run trading_date LOCAL_LEDGER_INVARIANT (ledger_failure_detail text)
       | _ \<Rightarrow> raiseM e)"

definition pause_on_mismatch :: "('b world, unit) comp" where
  "pause_on_mismatch =
     bindM (set_entries_paused True (Some ''reconciliation mismatch'')) (\<lambda>_.
     bindM read_clock (\<lambda>now.
     bindM fresh_uuid (\<lambda>command_id.
     bindM (liftM (control_command_post_init
              \<lparr>cc_command_id = command_id, cc_command = PAUSE_ENTRIES,
               cc_reason = ''automatic pause on reconciliation mismatch'', cc_actor = ''reconciler'',
               cc_run_id = None, cc_requested_at = now, cc_applied_at = Some now\<rparr>)) (\<lambda>c.
     bindM (add_command c) (\<lambda>_. returnM ())))))"

definition run_reconciliation :: "'b reconciler \<Rightarrow> pydate \<Rightarrow> ('b world, reconciliation_result) comp" where
  "run_reconciliation rec trading_date =
     bindM (collect_or_report rec trading_date) (\<lambda>result.
     bindM (reconciliations_add result) (\<lambda>_.
     bindM (if rr_status result = MISMATCH then pause_on_mismatch else returnM ()) (\<lambda>_.
     bindM uow_commit (\<lambda>_. returnM result))))"

section \<open>Report, never repair\<close>

text \<open>
  \<open>moves D\<close>: as \<open>tracks D\<close>, but broker calls may move the broker. The locale gives it
  for everything that keeps \<open>tracks D\<close> and for every call of the broker.
\<close>

definition moves :: "(db \<Rightarrow> db \<Rightarrow> bool) \<Rightarrow> 'b world \<Rightarrow> 'b world \<Rightarrow> bool" where
  "moves D w w' \<longleftrightarrow> (D (w_committed w) (w_working w) \<longrightarrow>
     D (w_committed w') (w_working w') \<and> D (w_committed w) (w_committed w')) \<and> w_trace w' = w_trace w"

context db_frame
begin

sublocale mf: effect_frame "moves D"
  by unfold_locales (auto simp: moves_def intro: d_trans d_refl)

lemma tracks_moves: "keeps (tracks D) m \<Longrightarrow> keeps (moves D) m"
  by (erule keeps_mono) (simp add: tracks_def moves_def)

lemma moves_broker_call: "keeps (moves D) (broker_call op)"
  unfolding keeps_def
proof
  fix w :: "'a world"
  have "moves D w (env_step w)"
    using tracks_env_step [of w] by (simp add: tracks_def moves_def)
  then show "moves D w (snd (broker_call op w))"
    by (simp add: broker_call_def Let_def moves_def split: prod.split)
qed

lemmas moves_rules = moves_broker_call tracks_reads [THEN tracks_moves] tracks_flags [THEN tracks_moves]
  tracks_ends [THEN tracks_moves] mf.keeps_rules

end

text \<open>
  \<open>reports rs cs d d'\<close>: \<open>d'\<close> is \<open>d\<close> but for what a report adds, where \<open>rs\<close> and \<open>cs\<close> say
  which run and which command may have been added, once each, and for a control row that
  is unchanged or paused.
\<close>

definition adds :: "('a \<Rightarrow> 'k) \<Rightarrow> ('r \<Rightarrow> 'a) \<Rightarrow> 'a option \<Rightarrow> 'r list \<Rightarrow> 'r list \<Rightarrow> bool" where
  "adds key row new xs ys \<longleftrightarrow> ys = xs
     \<or> (\<exists>x y. new = Some x \<and> row y = x \<and> ys = xs @ [y] \<and> key x \<notin> (key \<circ> row) ` set xs)"

lemma adds_refl [simp]: "adds key row new xs xs"
  by (simp add: adds_def)

lemma adds_trans: "adds key row new xs ys \<Longrightarrow> adds key row new ys zs \<Longrightarrow> adds key row new xs zs"
  by (auto simp: adds_def)

lemma adds_mono: "adds key row None xs ys \<Longrightarrow> adds key row new xs ys"
  by (simp add: adds_def)

definition other_tables where
  "other_tables d = (db_intents d, db_broker_orders d, db_fills d, db_baselines d, db_revisions d, db_jobs d,
     db_leases d, db_audits d)"

definition reports :: "reconciliation_result option \<Rightarrow> control_command_record option \<Rightarrow> db \<Rightarrow> db \<Rightarrow> bool" where
  "reports run command d d' \<longleftrightarrow>
     other_tables d' = other_tables d
     \<and> (db_control d' = db_control d \<or> cs_entries_paused (db_control d'))
     \<and> cs_flatten_generation (db_control d') = cs_flatten_generation (db_control d)
     \<and> adds rr_run_id snd run (db_runs d) (db_runs d')
     \<and> adds cc_command_id (\<lambda>c. c) command (db_commands d) (db_commands d')"

lemma reports_trans: "reports run command c d \<Longrightarrow> reports run command d e \<Longrightarrow> reports run command c e"
  unfolding reports_def by (elim conjE, intro conjI) (auto elim: adds_trans)

lemma reports_mono:
  "reports None None d d' \<Longrightarrow> reports run None d d'" "reports run None d d' \<Longrightarrow> reports run command d d'"
  by (auto simp: reports_def intro: adds_mono)

interpretation rp: db_frame "reports run command" for run command
proof
  show "sql_pause_entries r now c = Inr (s, c') \<Longrightarrow> reports run command c c'" for r now c s c'
    using sql_pause_db [of r now c s c'] by (simp add: reports_def other_tables_def)
  show "reports run command d d" for d by (simp add: reports_def)
  show "reports run command c d \<Longrightarrow> reports run command d e \<Longrightarrow> reports run command c e" for c d e by (rule reports_trans)
qed (simp add: reports_def other_tables_def)

lemma report_writes:
  "keeps (tracks (reports run (Some c))) (add_command c)" "keeps (tracks (reports (Some r) command)) (reconciliations_add r)"
proof -
  have "sql_insert_command c now d = Inr (a, d') \<Longrightarrow> reports run (Some c) d d'" for now d a d'
    by (auto simp: sql_insert_command_def reports_def other_tables_def adds_def split: if_splits)
  then show "keeps (tracks (reports run (Some c))) (add_command c)"
    unfolding add_command_def by (intro rp.tracks_rules rp.tracks_statement)
  have "sql_insert_run r now d = Inr (a, d') \<Longrightarrow> reports (Some r) command d d'" for now d a d'
    by (auto simp: sql_insert_run_def reports_def other_tables_def adds_def split: if_splits)
  then show "keeps (tracks (reports (Some r) command)) (reconciliations_add r)"
    unfolding reconciliations_add_def by (intro rp.tracks_rules rp.tracks_statement)
qed

abbreviation unreported :: "'b world \<Rightarrow> 'b world \<Rightarrow> bool" where
  "unreported \<equiv> moves (reports None None)"

lemmas report_rules = rp.moves_rules

lemma report_checks:
  "keeps unreported (mismatch k dt t)" "keeps unreported (mismatch_if b k dt t)"
  "keeps unreported (check_fills rec l bid t)"
  unfolding check_fills_def mismatch_if_def mismatch_def by (intro report_rules)+

lemma report_orders:
  "keeps unreported (check_intents st t)" "keeps unreported (check_open_mirror rec t m)"
  "keeps unreported (check_closed_mirror rec checked t m)" "keeps unreported (check_open_order known acc b)"
  "keeps unreported (check_recent_order rec acc b)" "keeps unreported (history_horizon td)"
  unfolding check_intents_def check_open_mirror_def check_closed_mirror_def check_open_order_def
    check_recent_order_def history_horizon_def Let_def
  by (intro report_rules report_checks)+

lemma report_account:
  "keeps unreported (check_nav rec pol acc p cash t)" "keeps unreported (check_positions rec p t)"
proof -
  show "keeps unreported (check_nav rec pol acc p cash t)"
    unfolding check_nav_def
    by (intro rp.mf.keeps_catch, intro report_rules report_checks) (auto intro!: report_rules report_checks split: exn.split)
qed (unfold check_positions_def check_position_def, intro report_rules report_checks)

lemma report_collect: "keeps unreported (collect rec td)"
  unfolding collect_def check_orders_def check_account_def check_cash_def Let_def
  by (intro report_rules report_checks report_orders report_account)

lemma report_failed: "keeps unreported (failed_run td k dt)"
  unfolding failed_run_def by (intro report_rules)

lemma report_collected: "keeps unreported (collect_or_report rec td)"
  unfolding collect_or_report_def
  by (intro rp.mf.keeps_catch report_collect) (auto intro!: report_rules report_failed split: exn.split)

text \<open>From a settled start: what may have been added so far.\<close>

definition stage :: "'b world \<Rightarrow> reconciliation_result option \<Rightarrow> control_command_record option \<Rightarrow> 'b world \<Rightarrow> bool" where
  "stage w0 run command w \<longleftrightarrow> reports run command (w_committed w0) (w_committed w)
     \<and> reports run command (w_committed w) (w_working w) \<and> w_trace w = w_trace w0"

lemma stage_start: "settled w \<Longrightarrow> stage w None None w"
  by (simp add: stage_def settled_def rp.d_refl)

lemma stage_mono:
  "stage w0 None None w \<Longrightarrow> stage w0 run None w" "stage w0 run None w \<Longrightarrow> stage w0 run command w"
  by (auto simp: stage_def intro: reports_mono)

lemma stage_keeps:
  assumes "keeps (moves (reports run command)) m"
  shows "triple (stage w0 run command) m (\<lambda>_. stage w0 run command) (\<lambda>_. stage w0 run command)"
  using assms by (rule keeps_triple) (auto simp: stage_def moves_def intro: reports_trans)

definition audited :: "'b world \<Rightarrow> reconciliation_result option \<Rightarrow> 'b world \<Rightarrow> bool" where
  "audited w0 run w \<longleftrightarrow> (\<exists>command. (\<forall>c. command = Some c \<longrightarrow> cc_command c = PAUSE_ENTRIES \<and> cc_actor c = ''reconciler'')
     \<and> stage w0 run command w)"

lemma audited_stage: "stage w0 run None w \<Longrightarrow> audited w0 run w"
  by (auto simp: audited_def)

lemma audited_keeps:
  assumes "\<And>command. keeps (moves (reports run command)) m"
  shows "triple (audited w0 run) m (\<lambda>_. audited w0 run) (\<lambda>_. audited w0 run)"
  unfolding audited_def
proof (rule triple_ex)
  fix command :: "control_command_record option"
  let ?shape = "\<forall>c. command = Some c \<longrightarrow> cc_command c = PAUSE_ENTRIES \<and> cc_actor c = ''reconciler''"
  show "triple (\<lambda>w. ?shape \<and> stage w0 run command w) m
      (\<lambda>_ w. \<exists>command. (\<forall>c. command = Some c \<longrightarrow> cc_command c = PAUSE_ENTRIES \<and> cc_actor c = ''reconciler'') \<and> stage w0 run command w)
      (\<lambda>_ w. \<exists>command. (\<forall>c. command = Some c \<longrightarrow> cc_command c = PAUSE_ENTRIES \<and> cc_actor c = ''reconciler'') \<and> stage w0 run command w)"
  proof (cases ?shape)
    case True
    show ?thesis by (rule triple_weaken [OF stage_keeps [OF assms]]) (use True in auto)
  qed (auto simp: triple_def)
qed

lemma pause_audited:
  "triple (stage w0 run None) pause_on_mismatch (\<lambda>_. audited w0 run) (\<lambda>_. audited w0 run)"
proof -
  have keep: "triple (stage w0 run None) m (\<lambda>_. stage w0 run None) (\<lambda>_. audited w0 run)"
    if "keeps (moves (reports run None)) m" for m :: "('a world, 'x) comp"
    by (rule triple_weaken [OF stage_keeps [OF that]]) (auto intro: audited_stage)
  have command: "triple (stage w0 run None) (bindM (liftM (control_command_post_init
        \<lparr>cc_command_id = cid, cc_command = PAUSE_ENTRIES, cc_reason = reason, cc_actor = ''reconciler'',
         cc_run_id = None, cc_requested_at = now, cc_applied_at = Some now\<rparr>)) (\<lambda>c. bindM (add_command c) (\<lambda>_. returnM ())))
      (\<lambda>_. audited w0 run) (\<lambda>_. audited w0 run)" (is "triple _ (bindM (liftM (control_command_post_init ?c)) _) _ _") for cid reason now
  proof (rule triple_bind)
    show "triple (stage w0 run None) (liftM (control_command_post_init ?c)) (\<lambda>c w. stage w0 run None w \<and> c = ?c) (\<lambda>_. audited w0 run)"
      by (auto simp: triple_def run_simps control_command_post_init_def bindO_eq_Inr audited_stage split: sum.split)
    have "triple (\<lambda>w. stage w0 run None w) (bindM (add_command ?c) (\<lambda>_. returnM ())) (\<lambda>_. audited w0 run) (\<lambda>_. audited w0 run)"
      by (rule triple_weaken [OF stage_keeps [where command = "Some ?c"]],
          intro report_rules report_writes [THEN rp.tracks_moves])
        (auto simp: audited_def intro: stage_mono exI [of _ "Some ?c"])
    then show "triple (\<lambda>w. stage w0 run None w \<and> c = ?c) (bindM (add_command c) (\<lambda>_. returnM ())) (\<lambda>_. audited w0 run) (\<lambda>_. audited w0 run)" for c
      by (cases "c = ?c") (simp_all add: triple_def)
  qed
  show ?thesis
    unfolding pause_on_mismatch_def
    by (rule triple_bind [OF keep [OF rp.tracks_pause [THEN rp.tracks_moves]]],
        rule triple_bind [OF keep [OF rp.tracks_flags(3) [THEN rp.tracks_moves]]],
        rule triple_bind [OF keep [OF rp.tracks_flags(4) [THEN rp.tracks_moves]]], rule command)
qed

lemma run_audited:
  "triple (stage w0 None None) (run_reconciliation rec td) (\<lambda>r. audited w0 (Some r)) (\<lambda>_ w. \<exists>run. audited w0 run w)"
proof -
  have collected: "triple (stage w0 None None) (collect_or_report rec td) (\<lambda>_. stage w0 None None) (\<lambda>_ w. \<exists>run. audited w0 run w)"
    by (rule triple_weaken [OF stage_keeps [OF report_collected]]) (auto intro: audited_stage)
  have added: "triple (stage w0 None None) (reconciliations_add r) (\<lambda>_. stage w0 (Some r) None) (\<lambda>_ w. \<exists>run. audited w0 run w)" for r
    by (rule triple_weaken [OF stage_keeps [OF report_writes(2) [THEN rp.tracks_moves]]]) (auto intro: audited_stage stage_mono)
  have paused: "triple (stage w0 (Some r) None) (if rr_status r = MISMATCH then pause_on_mismatch else returnM ())
      (\<lambda>_. audited w0 (Some r)) (\<lambda>_ w. \<exists>run. audited w0 run w)" for r
    by (rule triple_if, rule triple_weaken [OF pause_audited]) (auto simp: triple_def run_simps intro: audited_stage)
  have commit: "triple (audited w0 (Some r)) uow_commit (\<lambda>_. audited w0 (Some r)) (\<lambda>_ w. \<exists>run. audited w0 run w)" for r
    by (rule triple_weaken [OF audited_keeps], rule report_rules) auto
  show ?thesis
    unfolding run_reconciliation_def
    by (rule triple_bind [OF collected], rule triple_bind [OF added], rule triple_bind [OF paused],
        rule triple_bind [OF commit]) (simp add: triple_def run_simps)
qed

text \<open>A run that returns was new: its identifier was on no committed run before.\<close>

lemma added_run_is_new:
  "returns (stage w0 None None) (run_reconciliation rec td)
     (\<lambda>r _. rr_run_id r \<notin> (rr_run_id \<circ> snd) ` set (db_runs (w_committed w0)))"
proof -
  let ?new = "\<lambda>r. rr_run_id r \<notin> (rr_run_id \<circ> snd) ` set (db_runs (w_committed w0))"
  have "db_runs (w_working (env_step w)) = db_runs (w_committed w0)" if "stage w0 None None w" for w :: "'a world"
    using that by (simp add: stage_def reports_def adds_def)
  then have "returns (stage w0 None None) (statement (sql_insert_run r)) (\<lambda>_ _. ?new r)" for r
    by (intro ret_statement) (auto simp: sql_insert_run_def split: if_splits)
  then have added: "returns (stage w0 None None) (reconciliations_add r) (\<lambda>_ _. ?new r)" for r
    unfolding reconciliations_add_def by (rule triple_bind) (auto simp: triple_def run_simps mark_write_def)
  have rest: "returns (\<lambda>_. ?new r) m (\<lambda>_ _. ?new r)" for r and m :: "('a world, 'y) comp"
    by (auto simp: triple_def split: prod.split sum.split)
  have collected: "returns (stage w0 None None) (collect_or_report rec td) (\<lambda>_. stage w0 None None)"
    by (rule triple_weaken [OF stage_keeps [OF report_collected]]) auto
  show ?thesis
    unfolding run_reconciliation_def
    by (rule triple_bind [OF collected], rule triple_bind [OF added], rule triple_bind [OF rest], rule triple_bind [OF rest])
      (simp add: triple_def run_simps)
qed

lemma reports_stays: "reports run command d d' \<Longrightarrow> stays_paused d d'"
  by (auto simp: reports_def stays_paused_def)

lemma report_holds:
  assumes "settled w" "run_reconciliation rec td w = (r, v)"
  shows "stays_paused (w_committed w) (w_committed v) \<and> stays_paused (w_committed v) (w_working v)"
proof -
  have "\<exists>run. audited w run v"
    using triple_returned [OF run_audited stage_start [OF assms(1)]] triple_raised [OF run_audited stage_start [OF assms(1)]]
      assms(2) by (cases r) blast+
  then show ?thesis by (auto simp: audited_def stage_def dest: reports_stays)
qed

section \<open>The run is durable\<close>

definition recorded :: "reconciliation_result \<Rightarrow> db \<Rightarrow> bool" where
  "recorded r d \<longleftrightarrow> r \<in> snd ` set (db_runs d)"

lemma recorded_env_step [simp]: "recorded r (w_working (env_step w)) = recorded r (w_working w)"
  by (simp add: recorded_def)

lemma ret_record_run: "returns P (reconciliations_add r) (\<lambda>_ w. \<not> w_aborted w \<and> recorded r (w_working w))"
  unfolding reconciliations_add_def
proof (rule triple_bind)
  show "returns P (statement (sql_insert_run r)) (\<lambda>_ w. \<not> w_aborted w \<and> recorded r (w_working w))"
    by (rule ret_statement) (auto simp: sql_insert_run_def recorded_def split: if_splits)
qed (simp add: triple_def run_simps mark_write_def)

lemma ret_pause_on_mismatch:
  "returns (\<lambda>w. recorded r (w_working w)) pause_on_mismatch
     (\<lambda>_ w. \<not> w_aborted w \<and> recorded r (w_working w) \<and> cs_entries_paused (db_control (w_working w)))"
proof -
  let ?R = "\<lambda>_ w. \<not> w_aborted w \<and> recorded r (w_working w) \<and> cs_entries_paused (db_control (w_working w))"
  have pause: "returns (\<lambda>w. recorded r (w_working w)) (set_entries_paused True (Some reason)) ?R" for reason
    unfolding set_entries_paused_def
  proof (simp, rule triple_bind)
    show "returns (\<lambda>w. recorded r (w_working w)) (statement (sql_pause_entries (Some reason))) ?R"
      by (rule ret_statement) (auto simp: recorded_def dest!: sql_pause_db)
  qed (auto simp: triple_def run_simps take_lock_def mark_write_def split: sum.split)
  have stmt: "returns (?R x) (statement (sql_insert_command c)) (\<lambda>_. ?R x)" for c x
    by (rule ret_statement) (auto simp: sql_insert_command_def recorded_def env_step_paused split: if_splits)
  have query: "returns (?R x) (query g) (\<lambda>_. ?R x)" for x and g :: "db \<Rightarrow> control_command_record option"
    by (rule ret_query) (simp add: env_step_paused)
  have cmd: "returns (?R x) (add_command c) (\<lambda>_. ?R x)" for c x
    unfolding add_command_def
    by (rule triple_bind [OF stmt], rule triple_case_option, rule triple_bind [OF query])
      (auto simp: triple_def run_simps mark_write_def split: option.split)
  have step: "returns (?R x) m (\<lambda>_. ?R x)"
    if "keeps (\<lambda>w w'. w_working w' = w_working w \<and> w_aborted w' = w_aborted w) m" for x and m :: "('b world, 'd) comp"
    by (rule triple_weaken [OF keeps_triple [OF that, of "?R x" "?R x"]]) auto
  show ?thesis
    unfolding pause_on_mismatch_def
    by (rule triple_bind [OF pause], rule triple_bind [OF step], simp add: keeps_def read_clock_def,
        rule triple_bind [OF step], simp add: keeps_def fresh_uuid_def, rule triple_bind [OF step],
        simp add: keeps_def run_simps, rule triple_bind [OF cmd])
      (simp add: triple_def run_simps)
qed

lemma run_durable:
  "returns P (run_reconciliation rec td)
     (\<lambda>r w. settled w \<and> recorded r (w_committed w) \<and> (rr_status r = MISMATCH \<longrightarrow> paused w))"
proof -
  let ?Q = "\<lambda>r w. \<not> w_aborted w \<and> recorded r (w_working w)
    \<and> (rr_status r = MISMATCH \<longrightarrow> cs_entries_paused (db_control (w_working w)))"
  have pause: "returns (\<lambda>w. \<not> w_aborted w \<and> recorded r (w_working w))
      (if rr_status r = MISMATCH then pause_on_mismatch else returnM ()) (\<lambda>_. ?Q r)" for r
    by (rule triple_if, rule triple_weaken [OF ret_pause_on_mismatch]) (auto simp: triple_def run_simps)
  have commit: "returns (?Q r) uow_commit (\<lambda>_ w. settled w \<and> recorded r (w_committed w) \<and> (rr_status r = MISMATCH \<longrightarrow> paused w))" for r
    by (rule ret_commit) (auto simp: paused_def env_step_paused)
  have tail: "returns (\<lambda>w. \<not> w_aborted w \<and> recorded r (w_working w))
      (bindM (if rr_status r = MISMATCH then pause_on_mismatch else returnM ()) (\<lambda>_. bindM uow_commit (\<lambda>_. returnM r)))
      (\<lambda>r w. settled w \<and> recorded r (w_committed w) \<and> (rr_status r = MISMATCH \<longrightarrow> paused w))" for r
    by (rule triple_bind [OF pause], rule triple_bind [OF commit]) (simp add: triple_def run_simps)
  show ?thesis
    unfolding run_reconciliation_def
    by (rule triple_bind [OF returns_any], rule triple_bind [OF ret_record_run], rule tail)
qed

section \<open>What a clean report means\<close>

text \<open>
  \<open>at d\<close>: the snapshot has the tables of \<open>d\<close>. \<open>hears ops b d A\<close>: besides, the broker went from
  \<open>b\<close> to its present state by reading calls that gave the answers \<open>A\<close>. \<open>finds g h m t F\<close>: when
  \<open>m\<close> returns, having heard the answers \<open>B\<close>, the report it extends \<open>t\<close> to (projected by \<open>g\<close>)
  can only be free of mismatches when \<open>F B\<close> holds, also with any answers to come, and \<open>t\<close> was
  free of them.
\<close>

definition same_tables :: "db \<Rightarrow> db \<Rightarrow> bool" where
  "same_tables d d' \<longleftrightarrow> db_intents d' = db_intents d \<and> db_broker_orders d' = db_broker_orders d
     \<and> db_fills d' = db_fills d \<and> db_baselines d' = db_baselines d \<and> db_revisions d' = db_revisions d"

definition at :: "db \<Rightarrow> 'b world \<Rightarrow> bool" where
  "at d w \<longleftrightarrow> same_tables d (w_working w)"

definition hears :: "'b broker_ops \<Rightarrow> 'b \<Rightarrow> db \<Rightarrow> broker_answer set \<Rightarrow> 'b world \<Rightarrow> bool" where
  "hears ops b d A w \<longleftrightarrow> at d w \<and> heard ops b A (w_broker w)"

definition finds ::
  "('r \<Rightarrow> tally) \<Rightarrow> (broker_answer set \<Rightarrow> 'b world \<Rightarrow> bool) \<Rightarrow> ('b world, 'r) comp \<Rightarrow> tally \<Rightarrow>
   (broker_answer set \<Rightarrow> bool) \<Rightarrow> bool" where
  "finds g h m t F \<longleftrightarrow> (\<forall>A. returns (h A) m (\<lambda>r w. \<exists>B. A \<subseteq> B \<and> h B w
     \<and> (ta_mismatches (g r) = [] \<longrightarrow> ta_mismatches t = [] \<and> (\<forall>C. B \<subseteq> C \<longrightarrow> F C))))"

lemma at_env_step: "at d w \<Longrightarrow> at d (env_step w)"
proof -
  have "db_baselines (w_working (env_step w)) = db_baselines (w_working w)"
    "db_revisions (w_working (env_step w)) = db_revisions (w_working w)"
    by (auto simp: env_step_def Let_def dest!: sql_pause_db split: option.split sum.split)
  then show "at d w \<Longrightarrow> at d (env_step w)" by (simp add: at_def same_tables_def)
qed

lemma at_read:
  assumes "\<And>d'. same_tables d d' \<Longrightarrow> Q (g d')"
  shows "returns (at d) (query g) (\<lambda>a w. at d w \<and> Q a)"
proof (rule ret_query)
  show "at d (env_step w) \<and> Q (g (w_working (env_step w)))" if "at d w" for w :: "'b world"
    using at_env_step [OF that] assms by (auto simp: at_def)
qed

lemma hears_call:
  assumes "\<And>b r c. op b = (r, c) \<Longrightarrow> replies ops b (said k r) c" "\<And>a. reading (k a)"
  shows "returns (hears ops b d A) (broker_call op) (\<lambda>a w. hears ops b d (insert (k a) A) w)"
  unfolding triple_def
proof (intro allI impI)
  fix w
  assume w: "hears ops b d A w"
  obtain r c where op: "op (w_broker w) = (r, c)" by (cases "op (w_broker w)")
  have "at d (env_step w)" using w by (simp add: hears_def at_env_step)
  moreover have "heard ops b (insert (k a) A) c" if "r = Inr a" for a
    using heard_more [of ops b A "w_broker w" "k a" c] assms(1) [OF op] assms(2) w that by (simp add: hears_def)
  ultimately show "case broker_call op w of (Inl e, t) \<Rightarrow> True | (Inr a, t) \<Rightarrow> hears ops b d (insert (k a) A) t"
    by (auto simp: broker_call_def Let_def op hears_def at_def split: sum.split)
qed

lemma hears_calls:
  "returns (hears ops b d A) (broker_call (op_account ops)) (\<lambda>a w. hears ops b d (insert (AccountIs a) A) w)"
  "returns (hears ops b d A) (broker_call (op_get_order ops cid)) (\<lambda>a w. hears ops b d (insert (OrderIs cid a) A) w)"
  "returns (hears ops b d A) (broker_call (op_list_fills ops bid)) (\<lambda>a w. hears ops b d (insert (FillsAre bid a) A) w)"
  "returns (hears ops b d A) (broker_call (op_list_open_orders ops)) (\<lambda>a w. hears ops b d (insert (OpenOrdersAre a) A) w)"
  "returns (hears ops b d A) (broker_call (op_list_recent_orders ops since))
     (\<lambda>a w. hears ops b d (insert (RecentOrdersAre since a) A) w)"
  "returns (hears ops b d A) (broker_call (op_list_positions ops)) (\<lambda>a w. hears ops b d (insert (PositionsAre a) A) w)"
  by (rule hears_call, erule replies.intros, simp)+

text \<open>Reads of the store leave the broker alone.\<close>

lemma hears_read:
  assumes "returns (at d) m (\<lambda>a w. at d w \<and> Q a)" "keeps store_frame m"
  shows "returns (hears ops b d A) m (\<lambda>a w. hears ops b d A w \<and> Q a)"
proof -
  have "triple (\<lambda>w. heard ops b A (w_broker w)) m (\<lambda>_ w. heard ops b A (w_broker w)) (\<lambda>_ w. heard ops b A (w_broker w))"
    using assms(2) by (rule keeps_triple) (simp add: store_frame_def)
  from triple_conj [OF triple_pre [OF assms(1), of "hears ops b d A"] triple_pre [OF this, of "hears ops b d A"]] show ?thesis
    by (auto simp: hears_def elim: triple_weaken)
qed

lemma at_rows:
  assumes "\<And>d'. same_tables d d' \<Longrightarrow> g d' = g d" "\<And>x y. load x = Inr y \<Longrightarrow> y = h x"
  shows "returns (at d) (bindM (query g) (\<lambda>rows. liftM (mapO load rows))) (\<lambda>ys w. at d w \<and> ys = map h (g d))"
proof (rule triple_bind)
  show "returns (at d) (query g) (\<lambda>rows w. at d w \<and> rows = g d)"
    by (rule at_read) (rule assms(1))
  show "returns (\<lambda>w. at d w \<and> rows = g d) (liftM (mapO load rows)) (\<lambda>ys w. at d w \<and> ys = map h (g d))" for rows
    by (rule ret_lift) (use mapO_eq [of load h] assms(2) in auto)
qed

lemma at_lists:
  "returns (at d) (list_by_status st) (\<lambda>is w. at d w \<and> is = sql_intents_by_status st d)"
  "returns (at d) (list_fills bid) (\<lambda>fs w. at d w \<and> fs = filter (\<lambda>f. fl_broker_order_id f = bid) (db_fills d))"
  "returns (at d) list_all_fills (\<lambda>fs w. at d w \<and> fs = db_fills d)"
  using at_rows [where h = "\<lambda>x. x" and load = load_intent and g = "sql_intents_by_status st" and d = d]
    at_rows [where h = "\<lambda>x. x" and load = load_fill and g = "\<lambda>d. filter (\<lambda>f. fl_broker_order_id f = bid) (db_fills d)" and d = d]
    at_rows [where h = "\<lambda>x. x" and load = load_fill and g = db_fills and d = d]
  by (auto simp: list_by_status_def list_fills_def list_all_fills_def same_tables_def sql_intents_by_status_def
      dest: load_intent_eq load_fill_eq)

definition open_mirrors :: "db \<Rightarrow> broker_order list" where
  "open_mirrors d = map broker_order_of_row (sort_key row_key
     (filter (\<lambda>r. bo_status (br_order r) \<notin> {B_FILLED, B_CANCELED, B_EXPIRED, B_REJECTED}) (db_broker_orders d)))"

definition all_mirrors :: "db \<Rightarrow> broker_order list" where
  "all_mirrors d = map broker_order_of_row (sort_key row_key (db_broker_orders d))"

lemma at_mirrors:
  "returns (at d) list_open_broker_orders (\<lambda>bs w. at d w \<and> bs = open_mirrors d)"
  "returns (at d) list_all_broker_orders (\<lambda>bs w. at d w \<and> bs = all_mirrors d)"
  unfolding list_open_broker_orders_def list_all_broker_orders_def open_mirrors_def all_mirrors_def
  by (rule at_rows [OF _ load_broker_order_eq]; simp add: same_tables_def)+

lemma at_intent: "returns (at d) (orders_get cid) (\<lambda>i w. at d w \<and> i = find_intent cid d)"
proof (rule ret_orders_get)
  show "at d (env_step w) \<and> find_intent cid (w_working w) = find_intent cid d" if "at d w" for w :: "'a world"
    using at_env_step [OF that] that by (simp add: at_def same_tables_def find_intent_def)
qed

lemma hears_store:
  "returns (hears ops b d A) (list_by_status st) (\<lambda>is w. hears ops b d A w \<and> is = sql_intents_by_status st d)"
  "returns (hears ops b d A) (list_fills bid)
     (\<lambda>fs w. hears ops b d A w \<and> fs = filter (\<lambda>f. fl_broker_order_id f = bid) (db_fills d))"
  "returns (hears ops b d A) list_all_fills (\<lambda>fs w. hears ops b d A w \<and> fs = db_fills d)"
  "returns (hears ops b d A) list_open_broker_orders (\<lambda>bs w. hears ops b d A w \<and> bs = open_mirrors d)"
  "returns (hears ops b d A) list_all_broker_orders (\<lambda>bs w. hears ops b d A w \<and> bs = all_mirrors d)"
  "returns (hears ops b d A) (orders_get cid) (\<lambda>i w. hears ops b d A w \<and> i = find_intent cid d)"
  by (rule hears_read, rule at_lists at_mirrors at_intent, rule store_intros)+

lemma finds_bind:
  assumes "finds g h m t F" "\<And>r. finds k h (f r) (g r) G"
  shows "finds k h (bindM m f) t (\<lambda>C. F C \<and> G C)"
  unfolding finds_def
proof (rule allI, rule triple_bind)
  fix A
  show "returns (h A) m (\<lambda>r w. \<exists>B. h B w \<and> (A \<subseteq> B \<and> (ta_mismatches (g r) = [] \<longrightarrow> ta_mismatches t = [] \<and> (\<forall>C. B \<subseteq> C \<longrightarrow> F C))))"
    by (rule triple_weaken [OF assms(1) [unfolded finds_def, rule_format]]) auto
  show "returns (\<lambda>w. \<exists>B. h B w \<and> (A \<subseteq> B \<and> (ta_mismatches (g r) = [] \<longrightarrow> ta_mismatches t = [] \<and> (\<forall>C. B \<subseteq> C \<longrightarrow> F C)))) (f r)
      (\<lambda>r w. \<exists>B. A \<subseteq> B \<and> h B w \<and> (ta_mismatches (k r) = [] \<longrightarrow> ta_mismatches t = [] \<and> (\<forall>C. B \<subseteq> C \<longrightarrow> F C \<and> G C)))" for r
    by (rule triple_ex, rule triple_pure, rule triple_weaken [OF assms(2) [unfolded finds_def, rule_format]])
      (assumption, elim exE conjE, intro exI conjI, erule (1) order_trans, assumption, metis order_trans, simp)
qed

lemma finds_read:
  assumes "\<And>A. returns (h A) m (\<lambda>a w. h A w \<and> Q a)" "\<And>a. Q a \<Longrightarrow> finds k h (f a) t (F a)"
  shows "finds k h (bindM m f) t (\<lambda>C. \<exists>a. Q a \<and> F a C)"
  unfolding finds_def
proof (rule allI, rule triple_bind [OF assms(1)], rule triple_pure)
  fix A a
  assume a: "Q a"
  show "returns (h A) (f a) (\<lambda>r w. \<exists>B. A \<subseteq> B \<and> h B w
      \<and> (ta_mismatches (k r) = [] \<longrightarrow> ta_mismatches t = [] \<and> (\<forall>C. B \<subseteq> C \<longrightarrow> (\<exists>a. Q a \<and> F a C))))"
    by (rule triple_weaken [OF assms(2) [OF a, unfolded finds_def, rule_format]]) (assumption, use a in metis, simp)
qed

lemma finds_ask:
  assumes "\<And>A. returns (h A) m (\<lambda>a w. h (insert (q a) A) w)" "\<And>a. finds k h (f a) t (F a)"
  shows "finds k h (bindM m f) t (\<lambda>C. \<exists>a. q a \<in> C \<and> F a C)"
  unfolding finds_def
proof (rule allI, rule triple_bind [OF assms(1)])
  fix A a
  show "returns (h (insert (q a) A)) (f a) (\<lambda>r w. \<exists>B. A \<subseteq> B \<and> h B w
      \<and> (ta_mismatches (k r) = [] \<longrightarrow> ta_mismatches t = [] \<and> (\<forall>C. B \<subseteq> C \<longrightarrow> (\<exists>a. q a \<in> C \<and> F a C))))"
    by (rule triple_weaken [OF assms(2) [unfolded finds_def, rule_format]]) (assumption, elim exE conjE, rule_tac x = B in exI, intro conjI impI allI, simp, assumption, simp, blast, simp)
qed

lemma finds_mono: "finds g h m t F \<Longrightarrow> (\<And>C. F C \<Longrightarrow> G C) \<Longrightarrow> ta_mismatches u = ta_mismatches t \<Longrightarrow> finds g h m u G"
  unfolding finds_def by (rule allI, drule spec, erule triple_weaken) (assumption, metis, simp)

lemma finds_return: "ta_mismatches (g r) = ta_mismatches t \<Longrightarrow> finds g h (returnM r) t (\<lambda>_. True)"
  by (auto simp: finds_def triple_def run_simps)

lemma finds_mismatch: "finds (\<lambda>t. t) h (mismatch k dt t) t F"
  by (auto simp: finds_def mismatch_def triple_def run_simps split: sum.split)

lemma finds_mismatch_if: "finds (\<lambda>t. t) h (mismatch_if b k dt t) t (\<lambda>_. \<not> b)"
  by (auto simp: mismatch_if_def intro: finds_mismatch finds_mono [OF finds_return])

lemma finds_fold:
  assumes "\<And>acc x. x \<in> set xs \<Longrightarrow> finds g h (f acc x) (g acc) (F x)"
  shows "finds g h (foldM f acc xs) (g acc) (\<lambda>C. \<forall>x\<in>set xs. F x C)"
  using assms
proof (induction xs arbitrary: acc)
  case Nil
  show ?case by (simp add: finds_return [THEN finds_mono])
next
  case (Cons x xs)
  have "finds g h (foldM f acc (x # xs)) (g acc) (\<lambda>C. F x C \<and> (\<forall>x\<in>set xs. F x C))"
    unfolding foldM.simps using Cons by (intro finds_bind [where g = g]) auto
  then show ?case by simp
qed

lemma finds_case_option:
  "(x = None \<Longrightarrow> finds g h m t F) \<Longrightarrow> (\<And>a. x = Some a \<Longrightarrow> finds g h (f a) t F) \<Longrightarrow>
   finds g h (case x of None \<Rightarrow> m | Some a \<Rightarrow> f a) t F"
  by (cases x) auto

lemma finds_if: "(b \<Longrightarrow> finds g h m t F) \<Longrightarrow> (\<not> b \<Longrightarrow> finds g h n t F) \<Longrightarrow> finds g h (if b then m else n) t F"
  by simp

text \<open>The order passes.\<close>

definition fills_known :: "broker_answer set \<Rightarrow> db \<Rightarrow> string \<Rightarrow> string \<Rightarrow> bool" where
  "fills_known C d l b \<longleftrightarrow> (\<exists>fs. FillsAre b fs \<in> C
     \<and> (\<forall>f\<in>set fs. fl_execution_id f \<in> fl_execution_id ` {g \<in> set (db_fills d). fl_broker_order_id g = l}))"

definition mirror_matches :: "broker_answer set \<Rightarrow> db \<Rightarrow> broker_order \<Rightarrow> bool" where
  "mirror_matches C d m \<longleftrightarrow> (\<exists>b. OrderIs (bo_client_order_id m) (Some b) \<in> C
     \<and> bo_status b = bo_status m
     \<and> (\<forall>i. find_intent (bo_client_order_id m) d = Some i \<longrightarrow> \<not> intent_parameters_differ i b)
     \<and> fills_known C d (bo_broker_order_id m) (bo_broker_order_id m))"

lemma finds_intents:
  "finds (\<lambda>t. t) (hears ops b d) (check_intents st t) t (\<lambda>_. sql_intents_by_status st d = [])"
  unfolding check_intents_def
  by (rule finds_mono [OF finds_read [OF hears_store(1) finds_fold [where F = "\<lambda>_ _. False"]]]) (auto intro: finds_mismatch)

lemma finds_fills:
  "finds (\<lambda>t. t) (hears (rec_broker rec) b d) (check_fills rec l bid t) t (\<lambda>C. fills_known C d l bid)"
  unfolding check_fills_def
  by (rule finds_mono [OF finds_read [OF hears_store(2) finds_ask [OF hears_calls(3) finds_fold
            [where F = "\<lambda>f _. fl_execution_id f \<in> fl_execution_id ` {g \<in> set (db_fills d). fl_broker_order_id g = l}"]]]])
    (auto simp: fills_known_def count_fill_def intro!: finds_mono [OF finds_mismatch_if])

lemma finds_open_mirror:
  "finds (\<lambda>t. t) (hears (rec_broker rec) b0 d) (check_open_mirror rec t m) t (\<lambda>C. mirror_matches C d m)"
proof -
  let ?b = "bo_broker_order_id m"
  have some: "finds (\<lambda>t. t) (hears (rec_broker rec) b0 d) (bindM (orders_get (bo_client_order_id m)) (\<lambda>intent.
      bindM (mismatch_if (case intent of None \<Rightarrow> False | Some i \<Rightarrow> intent_parameters_differ i b) PARAMETER_MISMATCH ?b t) (\<lambda>t.
      bindM (mismatch_if (X intent) INTENT_STATUS_MISMATCH ?b t) (\<lambda>t.
      bindM (mismatch_if (bo_status b \<noteq> bo_status m) STATUS_MISMATCH ?b t) (\<lambda>t. check_fills rec ?b ?b t))))) t
      (\<lambda>C. bo_status b = bo_status m \<and> fills_known C d ?b ?b
       \<and> (\<forall>i. find_intent (bo_client_order_id m) d = Some i \<longrightarrow> \<not> intent_parameters_differ i b))" for b t X
    by (rule finds_mono, rule finds_read [OF hears_store(6)], rule finds_bind, rule finds_mismatch_if,
        rule finds_bind, rule finds_mismatch_if, rule finds_bind, rule finds_mismatch_if, rule finds_fills) auto
  show ?thesis
    unfolding check_open_mirror_def Let_def
    by (rule finds_mono, rule finds_ask [OF hears_calls(2), where F = "\<lambda>found C. \<exists>b. found = Some b
          \<and> bo_status b = bo_status m \<and> fills_known C d ?b ?b
          \<and> (\<forall>i. find_intent (bo_client_order_id m) d = Some i \<longrightarrow> \<not> intent_parameters_differ i b)"],
        rule finds_case_option, rule finds_mismatch, rule finds_mono [OF some])
      (auto simp: mirror_matches_def count_order_def)
qed

definition mirror_not_reopened :: "broker_answer set \<Rightarrow> db \<Rightarrow> broker_order \<Rightarrow> bool" where
  "mirror_not_reopened C d m \<longleftrightarrow> bo_broker_order_id m \<in> bo_broker_order_id ` set (open_mirrors d)
     \<or> (\<exists>found. OrderIs (bo_client_order_id m) found \<in> C
          \<and> (\<forall>b. found = Some b \<longrightarrow> \<not> is_open b))"

lemma finds_closed_mirror:
  "finds (\<lambda>t. t) (hears (rec_broker rec) b0 d) (check_closed_mirror rec (map bo_broker_order_id (open_mirrors d)) t m) t
     (\<lambda>C. mirror_not_reopened C d m)"
proof -
  have none: "finds (\<lambda>t. t) (hears (rec_broker rec) b0 d) (returnM t) t F" if "\<And>C. F C" for F
    by (rule finds_mono [OF finds_return]) (use that in auto)
  show ?thesis
    unfolding check_closed_mirror_def
    by (rule finds_if, rule none, simp add: mirror_not_reopened_def,
        rule finds_mono, rule finds_ask [OF hears_calls(2), where F = "\<lambda>found _. \<forall>b. found = Some b \<longrightarrow> \<not> is_open b"],
        rule finds_case_option, rule none, simp, rule finds_if, rule none, simp, rule finds_mono [OF finds_mismatch])
      (auto simp: mirror_not_reopened_def count_order_def)
qed

lemma finds_open_order:
  "finds fst h (check_open_order known acc b) (fst acc) (\<lambda>_. bo_client_order_id b \<in> set known)"
proof (cases acc)
  case (Pair t seen)
  show ?thesis
    unfolding Pair check_open_order_def prod.case fst_conv
    by (rule finds_mono, rule finds_bind [where g = "\<lambda>t. t"], rule finds_mismatch_if, rule finds_return)
      (auto simp: count_order_def)
qed

lemma finds_recent_order:
  "finds fst (hears (rec_broker rec) b0 d) (check_recent_order rec acc b) (fst acc) (\<lambda>_. True)"
proof (cases acc)
  case (Pair t seen)
  let ?h = "hears (rec_broker rec) b0 d"
  have mirror: "returns (?h A) (get_broker_order (bo_client_order_id b)) (\<lambda>m w. ?h A w \<and> True)" for A
    by (rule hears_read, rule ret_mirror, use at_env_step in auto, rule store_intros)
  have kept: "finds fst ?h (returnM (t, s)) t (\<lambda>_. True)" for t and s :: reported by (rule finds_return) simp
  show ?thesis
    unfolding Pair check_recent_order_def prod.case fst_conv Let_def
    by (rule finds_if, rule kept, rule finds_mono, rule finds_read [OF mirror, where F = "\<lambda>_ _. True"], rule finds_case_option,
        rule finds_mono, rule finds_bind [OF finds_mismatch [where F = "\<lambda>_. True"] kept], simp, rule refl,
        rule finds_mono, rule finds_bind [OF finds_mismatch_if], rule finds_bind [OF finds_fills kept])
      (auto simp: count_order_def)
qed

definition orders_agree :: "broker_answer set \<Rightarrow> db \<Rightarrow> bool" where
  "orders_agree C d \<longleftrightarrow> (\<forall>m\<in>set (open_mirrors d). mirror_matches C d m)
     \<and> (\<forall>m\<in>set (all_mirrors d). mirror_not_reopened C d m)
     \<and> (\<exists>bs. OpenOrdersAre bs \<in> C
          \<and> bo_client_order_id ` set bs \<subseteq> bo_client_order_id ` set (all_mirrors d))"

lemma hears_horizon: "returns (hears ops b d A) (history_horizon td) (\<lambda>_ w. hears ops b d A w \<and> True)"
proof (rule hears_read)
  have "returns (at d) reconciliations_latest (\<lambda>_ w. at d w)"
    unfolding reconciliations_latest_def
    by (rule triple_bind [OF at_read [where Q = "\<lambda>_. True"]]) (auto simp: triple_def run_simps split: sum.split)
  then show "returns (at d) (history_horizon td) (\<lambda>_ w. at d w \<and> True)"
    unfolding history_horizon_def Let_def by (rule triple_bind) (simp add: triple_def run_simps)
  show "keeps store_frame (history_horizon td)"
    unfolding history_horizon_def Let_def by (intro store_intros sf.tracks_reads sf.tf.keeps_rules)
qed

lemma finds_orders:
  "finds (\<lambda>t. t) (hears (rec_broker rec) b0 d) (check_orders rec td t) t (\<lambda>C. orders_agree C d)"
proof -
  let ?h = "hears (rec_broker rec) b0 d"
  have recent: "finds (\<lambda>t. t) ?h (bindM (history_horizon td) (\<lambda>horizon.
      bindM (broker_call (op_list_recent_orders (rec_broker rec) horizon)) (\<lambda>recent.
      bindM (foldM (check_recent_order rec) acc recent) (\<lambda>(t, seen). returnM t)))) (fst acc) (\<lambda>_. True)" for acc
  proof (rule finds_mono, rule finds_read [OF hears_horizon], rule finds_ask [OF hears_calls(5)], rule finds_bind)
    show "finds fst ?h (foldM (check_recent_order rec) acc recent) (fst acc) (\<lambda>C. \<forall>x\<in>set recent. True)" for recent
      by (rule finds_fold) (rule finds_recent_order)
    show "finds (\<lambda>t. t) ?h (case r of (t, seen) \<Rightarrow> returnM t) (fst r) (\<lambda>_. True)" for r :: "tally \<times> reported"
      by (cases r) (simp add: finds_return)
  qed auto
  show ?thesis
    unfolding check_orders_def
    by (rule finds_mono, rule finds_read [OF hears_store(4)], simp only:, rule finds_bind, rule finds_fold,
        rule finds_open_mirror, rule finds_read [OF hears_store(5)], rule finds_bind, rule finds_fold,
        rule finds_closed_mirror, rule finds_read [OF hears_store(5)], rule finds_ask [OF hears_calls(4)],
        rule finds_bind [where g = fst], rule finds_fold [where g = fst, where acc = "(t, s)" for t s, simplified fst_conv],
        rule finds_open_order, rule recent)
      (auto simp: orders_agree_def)
qed

text \<open>Positions: outside the symbols that are compared, neither side holds anything.\<close>

lemma positions_outside: "s \<notin> set (map lot_symbol (proj_lots p)) \<Longrightarrow> positions p s = None"
  by (auto simp: positions_def positions_loop_eq lots_of_def filter_empty_conv)

lemma quantities_outside: "s \<notin> set (map pp_symbol ps) \<Longrightarrow> broker_quantities ps s = None"
  by (force simp: broker_quantities_def map_of_eq_None_iff)

lemma finds_positions:
  "finds (\<lambda>t. t) (hears (rec_broker rec) b0 d) (check_positions rec p t) t
     (\<lambda>C. \<exists>ps. PositionsAre ps \<in> C \<and> positions p = broker_quantities ps)"
proof -
  have one: "finds (\<lambda>t. t) h (check_position f g t s) t (\<lambda>_. f s = g s)" for h :: "broker_answer set \<Rightarrow> 'a world \<Rightarrow> bool" and f g t s
    unfolding check_position_def
    by (rule finds_if, rule finds_mismatch, rule finds_mono [OF finds_mismatch_if]) auto
  have all: "positions p = broker_quantities ps"
    if "\<forall>s\<in>set (position_symbols p ps). positions p s = broker_quantities ps s" for ps
  proof
    fix s
    show "positions p s = broker_quantities ps s"
      using that positions_outside [of s p] quantities_outside [of s ps]
      by (cases "s \<in> set (position_symbols p ps)") (auto simp: position_symbols_def)
  qed
  show ?thesis
    unfolding check_positions_def
    by (rule finds_mono, rule finds_ask [OF hears_calls(6)], rule finds_fold, rule one) (auto dest: all)
qed

definition find_baseline :: "string \<Rightarrow> db \<Rightarrow> account_baseline option" where
  "find_baseline acc d = (case latest_revision acc d of Some b \<Rightarrow> Some b
     | None \<Rightarrow> find (\<lambda>b. ab_account_id b = acc) (db_baselines d))"

lemma account_baseline_post_init_eq: "account_baseline_post_init b = Inr c \<Longrightarrow> c = b"
  by (auto simp: account_baseline_post_init_def bindO_eq_Inr)

lemma at_baseline: "returns (at d) (get_baseline acc) (\<lambda>b w. at d w \<and> b = find_baseline acc d)"
proof -
  have load: "returns (\<lambda>w. at d w \<and> r = x) (liftM (optionO account_baseline_post_init r)) (\<lambda>b w. at d w \<and> b = x)"
    for r x
  proof (rule ret_lift)
    fix w a
    assume "at d w \<and> r = x" "optionO account_baseline_post_init r = Inr a"
    then show "at d w \<and> a = x"
      using optionO_eq [of account_baseline_post_init "\<lambda>x. x" r a] account_baseline_post_init_eq
      by (simp add: option.map_ident)
  qed
  have revision: "returns (at d) (query (latest_revision acc)) (\<lambda>r w. at d w \<and> r = latest_revision acc d)"
    by (rule at_read) (simp add: same_tables_def latest_revision_def)
  have genesis: "returns (at d) (query (\<lambda>d. find (\<lambda>b. ab_account_id b = acc) (db_baselines d)))
      (\<lambda>r w. at d w \<and> r = find (\<lambda>b. ab_account_id b = acc) (db_baselines d))"
    by (rule at_read) (simp add: same_tables_def)
  have valid: "returns (at d) (liftM (require (\<not> blank acc))) (\<lambda>_. at d)"
    by (rule ret_lift) simp
  show ?thesis
    unfolding get_baseline_def
    by (rule triple_bind [OF valid], rule triple_bind [OF revision], rule triple_pure, rule triple_case_option,
        rule triple_bind [OF genesis], rule triple_weaken [OF load], simp, simp add: find_baseline_def, simp,
        rule triple_weaken [OF load])
      (auto simp: find_baseline_def split: option.split)
qed

definition nav_agrees :: "'b reconciler \<Rightarrow> account_policy \<Rightarrow> paper_account \<Rightarrow> ledger_projection \<Rightarrow> int \<Rightarrow> bool" where
  "nav_agrees rec policy account p cash \<longleftrightarrow>
     (case rec_prices rec of
        None \<Rightarrow> proj_lots p = [] \<and> \<bar>ac_equity account - cash\<bar> \<le> ap_nav_tolerance_cents policy
      | Some provider \<Rightarrow> \<exists>prices nav. mark_positions provider p = Inr prices
          \<and> account_equity_from_cash_and_positions cash (proj_lots p) prices = Inr nav
          \<and> \<bar>ac_equity account - nav\<bar> \<le> ap_nav_tolerance_cents policy)"

text \<open>Cash against the baseline and the fills after it, equity against the marked positions.\<close>

definition account_agrees :: "'b reconciler \<Rightarrow> account_policy \<Rightarrow> db \<Rightarrow> ledger_projection \<Rightarrow> paper_account \<Rightarrow> bool" where
  "account_agrees rec policy d p account \<longleftrightarrow> ac_account_id account = ap_expected_account_id policy
     \<and> (\<exists>base delta. find_baseline (ac_account_id account) d = Some base
          \<and> cash_delta (orders_by_id (all_mirrors d)) 0 (filter (post_baseline base) (db_fills d)) = Inr delta
          \<and> \<bar>ac_cash account - (ab_opening_cash_cents base + delta)\<bar> \<le> ap_cash_tolerance_cents policy
          \<and> nav_agrees rec policy account p (ab_opening_cash_cents base + delta))"

lemma hears_baseline: "returns (hears ops b d A) (get_baseline acc) (\<lambda>r w. hears ops b d A w \<and> r = find_baseline acc d)"
  by (rule hears_read, rule at_baseline, rule sf.tracks_reads)

lemma finds_lift:
  "(\<And>a. r = Inr a \<Longrightarrow> finds g h (f a) t (F a)) \<Longrightarrow> finds g h (bindM (liftM r) f) t (\<lambda>C. \<exists>a. r = Inr a \<and> F a C)"
  by (cases r) (auto simp: finds_def triple_def run_simps)

lemma finds_raise: "finds g h (raiseM e) t F"
  by (simp add: finds_def triple_def run_simps)

lemma finds_nav: "finds (\<lambda>t. t) h (check_nav rec pol acc p cash t) t (\<lambda>_. nav_agrees rec pol acc p cash)"
  by (auto simp: finds_def triple_def check_nav_def mismatch_if_def mismatch_def run_simps nav_agrees_def
      split: option.splits sum.splits exn.splits if_splits)

lemma finds_cash:
  assumes "find_baseline (ac_account_id acc) d = Some base"
  shows "finds (\<lambda>t. t) (hears ops b0 d) (check_cash rec pol acc p base t) t
    (\<lambda>_. ac_account_id acc = ap_expected_account_id pol \<longrightarrow> account_agrees rec pol d p acc)"
  unfolding check_cash_def Let_def
  by (rule finds_mono, rule finds_read [OF hears_store(3)], rule finds_read [OF hears_store(5)], rule finds_if,
      rule finds_raise, rule finds_lift, rule finds_bind, rule finds_mismatch_if, rule finds_nav)
    (use assms in \<open>auto simp: account_agrees_def\<close>)

lemma finds_account:
  "finds (\<lambda>t. t) (hears ops b0 d) (check_account rec pol acc p t) t (\<lambda>_. account_agrees rec pol d p acc)"
proof -
  let ?id = "ac_account_id acc = ap_expected_account_id pol"
  have rest: "finds (\<lambda>t. t) (hears ops b0 d) (bindM (get_baseline (ac_account_id acc)) (\<lambda>baseline.
      case baseline of None \<Rightarrow> mismatch ACCOUNT_RECONCILIATION_UNAVAILABLE ''missing opening cash baseline'' t
      | Some b \<Rightarrow> check_cash rec pol acc p b t)) t (\<lambda>_. ?id \<longrightarrow> account_agrees rec pol d p acc)" for t
    by (rule finds_mono, rule finds_read [OF hears_baseline], rule finds_case_option, rule finds_mismatch,
        rule finds_cash) auto
  show ?thesis
    unfolding check_account_def
    by (rule finds_mono, rule finds_bind, rule finds_mismatch_if, rule finds_bind, rule finds_mismatch_if, rule rest) auto
qed

text \<open>
  The answers \<open>C\<close> agree with the snapshot \<open>d\<close>: on the orders, on the positions the ledger
  projects, and on the account where there is a policy for it.
\<close>

definition snapshot_agrees :: "'b reconciler \<Rightarrow> broker_answer set \<Rightarrow> db \<Rightarrow> bool" where
  "snapshot_agrees rec C d \<longleftrightarrow> \<not> has_unresolved d \<and> orders_agree C d
     \<and> (\<exists>p ps. project_ledger (db_fills d) (orders_by_id (all_mirrors d)) = Inr p
          \<and> PositionsAre ps \<in> C \<and> positions p = broker_quantities ps
          \<and> (\<forall>policy. rec_policy rec = Some policy \<longrightarrow>
               (\<exists>account. AccountIs account \<in> C \<and> account_agrees rec policy d p account)))"

lemma finds_policy:
  "finds (\<lambda>t. t) (hears ops b0 d) (case rec_policy rec of None \<Rightarrow> returnM t | Some policy \<Rightarrow> check_account rec policy acc p t) t
     (\<lambda>_. \<forall>policy. rec_policy rec = Some policy \<longrightarrow> account_agrees rec policy d p acc)"
  by (rule finds_case_option, rule finds_mono [OF finds_return], simp, simp, rule refl,
      rule finds_mono [OF finds_account]) auto

text \<open>A report is clean only when everything compared agrees.\<close>

definition reported_clean :: "reconciliation_result \<Rightarrow> tally" where
  "reported_clean r = \<lparr>ta_mismatches = (if rr_status r = CLEAN then [] else rr_mismatches r), ta_orders = 0, ta_fills = 0\<rparr>"

lemma finds_result:
  "finds reported_clean (hears ops b0 d) (bindM read_clock (\<lambda>now. bindM fresh_uuid (\<lambda>run_id.
     liftM (create_result td (ta_mismatches t) o1 o2 now run_id sc)))) t (\<lambda>_. True)"
proof -
  have clock: "returns (hears ops b0 d A) read_clock (\<lambda>_ w. hears ops b0 d A w \<and> True)"
    "returns (hears ops b0 d A) fresh_uuid (\<lambda>_ w. hears ops b0 d A w \<and> True)" for A
    by (simp_all add: triple_def read_clock_def fresh_uuid_def at_def hears_def)
  have result: "finds reported_clean h (liftM (create_result td (ta_mismatches t) o1 o2 now run_id sc)) t (\<lambda>_. True)"
    for h :: "broker_answer set \<Rightarrow> 'a world \<Rightarrow> bool" and now run_id
    by (auto simp: finds_def triple_def run_simps reported_clean_def create_result_def reconciliation_result_post_init_def
        bindO_eq_Inr split: sum.splits if_splits)
  show ?thesis
    by (rule finds_mono, rule finds_read [OF clock(1)], rule finds_read [OF clock(2)], rule result) auto
qed

lemma snapshot_at: "returns (\<lambda>w. w = w0) begin_reconciliation_snapshot (\<lambda>_. hears ops (w_broker w0) (w_committed w0) {})"
proof -
  have tables: "same_tables (w_committed w) (w_committed (env_step w))" for w :: "'a world"
    by (auto simp: same_tables_def env_step_def Let_def dest!: sql_pause_db split: option.split sum.split)
  have dirty: "returns (\<lambda>w. w = w0) (getsM w_dirty) (\<lambda>_ w. w = w0)" by (simp add: triple_def run_simps)
  have undo: "returns (\<lambda>w. w = w0) uow_rollback (\<lambda>_. at (w_committed w0))"
    by (rule ret_rollback) (use tables [of w0] in \<open>auto simp: settled_def at_def\<close>)
  have read: "returns (at d) (query g) (\<lambda>_. at d)" for d :: db and g :: "db \<Rightarrow> 'x"
    by (rule triple_weaken [OF at_read [where Q = "\<lambda>_. True"]]) auto
  have "returns (\<lambda>w. w = w0) begin_reconciliation_snapshot (\<lambda>_. at (w_committed w0))"
    unfolding begin_reconciliation_snapshot_def
    by (rule triple_bind [OF dirty], rule triple_if, simp add: triple_def run_simps, rule triple_bind [OF undo read])
  moreover have "triple (\<lambda>w. w = w0) begin_reconciliation_snapshot (\<lambda>_ w. w_broker w = w_broker w0) (\<lambda>_ w. w_broker w = w_broker w0)"
    by (rule keeps_triple [OF sf.tracks_reads(12)]) (simp add: store_frame_def)
  ultimately have "triple (\<lambda>w. w = w0) begin_reconciliation_snapshot
      (\<lambda>_ w. at (w_committed w0) w \<and> w_broker w = w_broker w0) (\<lambda>_ w. True \<and> w_broker w = w_broker w0)"
    by (rule triple_conj)
  then show ?thesis by (rule triple_weaken) (auto simp: hears_def heard_nothing)
qed

text \<open>The run heard only answers that agree, all of them its own.\<close>

definition agreed :: "'b reconciler \<Rightarrow> 'b world \<Rightarrow> reconciliation_result \<Rightarrow> 'b world \<Rightarrow> bool" where
  "agreed rec w0 r w \<longleftrightarrow> (rr_status r = CLEAN \<longrightarrow>
     (\<exists>es. conversation (rec_broker rec) (w_broker w0) es (w_broker w) \<and> list_all reading es
        \<and> snapshot_agrees rec (set es) (w_committed w0)))"

lemma collect_agrees:
  "returns (\<lambda>w. w = w0) (collect rec td) (agreed rec w0)"
proof -
  let ?d = "w_committed w0" and ?h = "hears (rec_broker rec) (w_broker w0) (w_committed w0)"
  have body: "finds reported_clean ?h (bindM (broker_call (op_account (rec_broker rec))) (\<lambda>account.
     bindM (mismatch_if (ac_environment account \<noteq> PAPER) NON_PAPER_ACCOUNT x \<lparr>ta_mismatches = [], ta_orders = 0, ta_fills = 0\<rparr>) (\<lambda>t.
     bindM (check_intents REVIEW_REQUIRED t) (\<lambda>t.
     bindM (check_intents UNKNOWN t) (\<lambda>t.
     bindM (check_orders rec td t) (\<lambda>t.
     bindM list_all_fills (\<lambda>fills.
     bindM list_all_broker_orders (\<lambda>orders.
     bindM (liftM (project_ledger fills (orders_by_id orders))) (\<lambda>projection.
     bindM (check_positions rec projection t) (\<lambda>t.
     bindM (case rec_policy rec of None \<Rightarrow> returnM t
            | Some policy \<Rightarrow> check_account rec policy account projection t) (\<lambda>t.
     bindM read_clock (\<lambda>now.
     bindM fresh_uuid (\<lambda>run_id.
     liftM (create_result td (ta_mismatches t) (ta_orders t) (ta_fills t) now run_id sc))))))))))))))
     \<lparr>ta_mismatches = [], ta_orders = 0, ta_fills = 0\<rparr> (\<lambda>C. snapshot_agrees rec C ?d)" for x sc
    by (rule finds_mono, rule finds_ask [OF hears_calls(1)], rule finds_bind, rule finds_mismatch_if, rule finds_bind,
        rule finds_intents, rule finds_bind, rule finds_intents, rule finds_bind, rule finds_orders,
        rule finds_read [OF hears_store(3)], rule finds_read [OF hears_store(5)], rule finds_lift, rule finds_bind,
        rule finds_positions, rule finds_bind, rule finds_policy, rule finds_result)
      (auto simp: snapshot_agrees_def has_unresolved_iff)
  show ?thesis
    unfolding collect_def
    by (rule triple_bind [OF snapshot_at], rule triple_weaken [OF body [unfolded finds_def, rule_format]])
      (auto simp: reported_clean_def agreed_def hears_def heard_def)
qed

text \<open>Nothing after the answers moves the broker.\<close>

lemma agreed_keeps:
  assumes "keeps store_frame m"
  shows "returns (agreed rec w0 r) m (\<lambda>_. agreed rec w0 r)"
  by (rule triple_weaken [OF keeps_triple [OF assms, where P = "agreed rec w0 r" and Q = "agreed rec w0 r"]])
    (simp_all add: agreed_def store_frame_def)

lemma store_pause_on_mismatch: "keeps store_frame pause_on_mismatch"
  unfolding pause_on_mismatch_def by (intro store_intros sf.tf.keeps_rules)

lemma failed_mismatch:
  "returns P (failed_run td k dt) (\<lambda>r _. rr_status r = MISMATCH \<and> rr_scope r = PARTIAL \<and> map rm_kind (rr_mismatches r) = [k]
     \<and> rr_checked_orders r = 0 \<and> rr_checked_fills r = 0)"
  by (auto simp: failed_run_def triple_def run_simps ReconciliationMismatch_def read_clock_def fresh_uuid_def create_result_def
      reconciliation_result_post_init_def bindO_eq_Inr split: sum.splits prod.splits)

lemma run_agrees: "returns (\<lambda>w. w = w0) (run_reconciliation rec td) (agreed rec w0)"
proof -
  let ?Q = "agreed rec w0"
  have failed: "returns P (failed_run td k dt) ?Q" for P k dt
    by (rule triple_weaken [OF failed_mismatch]) (auto simp: agreed_def)
  have "returns (\<lambda>w. w = w0) (collect_or_report rec td) ?Q"
    unfolding collect_or_report_def
  proof (rule triple_catch [OF collect_agrees])
    fix e
    have raise: "returns P (raiseM x) ?Q" for P x by (simp add: triple_def run_simps)
    show "returns (\<lambda>_. True) (case e of
         BrokerTransportError \<Rightarrow>
           failed_run td BROKER_QUERY_FAILURE ''broker query failed during reconciliation''
       | LedgerInvariantError text \<Rightarrow> failed_run td LOCAL_LEDGER_INVARIANT (ledger_failure_detail text)
       | _ \<Rightarrow> raiseM e) ?Q"
      by (cases e) (simp_all only: exn.case failed raise)
  qed
  moreover have "returns (?Q r) (bindM (reconciliations_add r) (\<lambda>_.
      bindM (if rr_status r = MISMATCH then pause_on_mismatch else returnM ()) (\<lambda>_. bindM uow_commit (\<lambda>_. returnM r)))) ?Q" for r
    by (intro triple_bind [OF agreed_keeps] triple_if store_intros sf.tf.keeps_rules store_pause_on_mismatch)
      (simp add: triple_def run_simps)
  ultimately show ?thesis unfolding run_reconciliation_def by (rule triple_bind)
qed

text \<open>A run whose collecting failed is a partial mismatch of its own kind.\<close>

lemma collected_failure:
  assumes "fst (collect rec td w) = Inl BrokerTransportError \<and> kind = BROKER_QUERY_FAILURE
      \<or> fst (collect rec td w) = Inl (LedgerInvariantError message) \<and> kind = LOCAL_LEDGER_INVARIANT"
    and "run_reconciliation rec td w = (Inr r, v)"
  shows "rr_status r = MISMATCH \<and> rr_scope r = PARTIAL \<and> map rm_kind (rr_mismatches r) = [kind]
    \<and> rr_checked_orders r = 0 \<and> rr_checked_fills r = 0"
proof -
  obtain u dt where "collect_or_report rec td w = failed_run td kind dt u"
    using assms(1) by (cases "collect rec td w") (auto simp: collect_or_report_def catchM_def)
  moreover from this obtain u' where "failed_run td kind dt u = (Inr r, u')"
    using assms(2) by (auto simp: run_reconciliation_def run_simps split: prod.splits sum.splits if_splits)
  ultimately show ?thesis using triple_returned [OF failed_mismatch [of "\<lambda>_. True"]] by blast
qed

end
