(* ===== verification/Control_Plane.thy ===== *)
theory Control_Plane
  imports Reconciler
begin

text \<open>
  \<open>application/control_service.py\<close>: the operator's levers. Pause, resume, cancel and
  flatten are transactions with an append-only audit record; resume runs under the lock
  of the control row.
\<close>

section \<open>Audit records\<close>

definition record_command :: "control_command \<Rightarrow> string \<Rightarrow> string \<Rightarrow> bool \<Rightarrow> ('b world, unit) comp" where
  "record_command command reason actor applied =
     bindM read_clock (\<lambda>now.
     bindM fresh_uuid (\<lambda>command_id.
     bindM (liftM (control_command_post_init
              \<lparr>cc_command_id = command_id, cc_command = command, cc_reason = reason, cc_actor = actor,
               cc_run_id = None, cc_requested_at = now, cc_applied_at = (if applied then Some now else None)\<rparr>)) (\<lambda>c.
     bindM (add_command c) (\<lambda>_. returnM ()))))"

text \<open>\<open>type(error).__name__\<close>; a driver error goes by the name of its base class.\<close>

fun exn_name :: "exn \<Rightarrow> string" where
  "exn_name ValueError = ''ValueError''"
| "exn_name TypeError = ''TypeError''"
| "exn_name KeyError = ''KeyError''"
| "exn_name InvalidOrderTransitionError = ''InvalidOrderTransitionError''"
| "exn_name InvalidBrokerOrderTransitionError = ''InvalidBrokerOrderTransitionError''"
| "exn_name (LedgerInvariantError _) = ''LedgerInvariantError''"
| "exn_name BrokerTransportError = ''BrokerTransportError''"
| "exn_name BrokerQueryError = ''BrokerQueryError''"
| "exn_name BrokerConflictError = ''BrokerConflictError''"
| "exn_name BrokerOrderIdentityConflictError = ''BrokerOrderIdentityConflictError''"
| "exn_name PersistenceInvariantError = ''PersistenceInvariantError''"
| "exn_name DatabaseError = ''DatabaseError''"
| "exn_name UnitOfWorkStateError = ''UnitOfWorkStateError''"
| "exn_name ExecutionStateError = ''ExecutionStateError''"
| "exn_name BrokerMirrorMismatchError = ''BrokerMirrorMismatchError''"
| "exn_name ExecutionPausedError = ''ExecutionPausedError''"
| "exn_name ControlPersistenceError = ''ControlPersistenceError''"
| "exn_name TradeUpdateError = ''TradeUpdateError''"
| "exn_name ControlPlaneError = ''ControlPlaneError''"
| "exn_name ResumeBlockedError = ''ResumeBlockedError''"
| "exn_name (MarkPriceUnavailableError _) = ''MarkPriceUnavailableError''"
| "exn_name OverflowError = ''OverflowError''"
| "exn_name StaleLeaseError = ''StaleLeaseError''"
| "exn_name IllegalTransitionError = ''IllegalTransitionError''"
| "exn_name RecordLineageError = ''RecordLineageError''"
| "exn_name InMemorySecurityMasterError = ''InMemorySecurityMasterError''"
| "exn_name InMemoryConcurrentTransitionError = ''InMemoryConcurrentTransitionError''"
| "exn_name SecurityMasterServiceError = ''SecurityMasterServiceError''"
| "exn_name SourceLineageError = ''SourceLineageError''"
| "exn_name IdentityClosureError = ''IdentityClosureError''"
| "exn_name MarketClockUnavailableError = ''MarketClockUnavailableError''"
| "exn_name InvalidOperation = ''InvalidOperation''"
| "exn_name DecimalOverflow = ''Overflow''"

definition partial_failure_detail :: "nat \<Rightarrow> nat \<Rightarrow> exn \<Rightarrow> string list \<Rightarrow> string \<Rightarrow> string" where
  "partial_failure_detail completed total_count err completed_ids reason =
     (let ids = (if completed_ids \<noteq> [] then '' completed_ids='' @ join '','' completed_ids else [])
      in take 200 (''PARTIAL_FAILURE '' @ show_nat completed @ ''/'' @ show_nat total_count @ '' '' @ exn_name err @ ids
                   @ ''; '' @ py_strip reason))"

definition record_partial_failure ::
  "control_command \<Rightarrow> string \<Rightarrow> string \<Rightarrow> nat \<Rightarrow> nat \<Rightarrow> exn \<Rightarrow> string list \<Rightarrow> ('b world, unit) comp" where
  "record_partial_failure command reason actor completed total_count err completed_ids =
     record_command command (partial_failure_detail completed total_count err completed_ids reason) actor False"

text \<open>The shape of every \<open>except\<close> arm: audit, commit, raise the typed error.\<close>

definition fail_partially ::
  "control_command \<Rightarrow> string \<Rightarrow> string \<Rightarrow> nat \<Rightarrow> nat \<Rightarrow> exn \<Rightarrow> string list \<Rightarrow> ('b world, 'a) comp" where
  "fail_partially command reason actor completed total_count err completed_ids =
     bindM (record_partial_failure command reason actor completed total_count err completed_ids) (\<lambda>_.
     bindM uow_commit (\<lambda>_. raiseM ControlPlaneError))"

text \<open>A loop in a \<open>try\<close> block that counts what it completed: it stops at the first error.\<close>

primrec each_until :: "('a \<Rightarrow> ('s, 'r) comp) \<Rightarrow> 'r list \<Rightarrow> 'a list \<Rightarrow> ('s, exn option \<times> 'r list) comp" where
  "each_until f completed [] = returnM (None, completed)"
| "each_until f completed (x # xs) =
     bindM (attemptM (f x)) (\<lambda>outcome.
       case outcome of
         Inl e \<Rightarrow> returnM (Some e, completed)
       | Inr r \<Rightarrow> each_until f (completed @ [r]) xs)"

definition list_statuses :: "order_status list \<Rightarrow> ('b world, order_intent list) comp" where
  "list_statuses sts =
     foldM (\<lambda>acc st. bindM (list_by_status st) (\<lambda>intents. returnM (acc @ intents))) [] sts"

section \<open>Pause, resume, cancel\<close>

definition entries_allowed :: "('b world, bool) comp" where
  "entries_allowed = bindM control_read (\<lambda>s. returnM (\<not> cs_entries_paused s))"

definition assert_control_allows :: "('b world, unit) comp" where
  "assert_control_allows =
     bindM control_read (\<lambda>s. if cs_entries_paused s then raiseM ControlPlaneError else returnM ())"

definition pause_entries :: "string \<Rightarrow> string \<Rightarrow> ('b world, control_state) comp" where
  "pause_entries reason actor =
     bindM (set_entries_paused True (Some reason)) (\<lambda>snapshot.
     bindM (record_command PAUSE_ENTRIES reason actor True) (\<lambda>_.
     bindM uow_commit (\<lambda>_. returnM snapshot)))"

definition resume_body :: "string \<Rightarrow> ('b world, control_state) comp" where
  "resume_body actor =
     bindM reconciliations_latest (\<lambda>latest.
       if (case latest of None \<Rightarrow> True | Some r \<Rightarrow> \<not> is_resume_safe r) then raiseM ResumeBlockedError
       else
         bindM (foldM (\<lambda>_ st. bindM (list_by_status st) (\<lambda>intents.
                  if intents \<noteq> [] then raiseM ResumeBlockedError else returnM ())) () [UNKNOWN, REVIEW_REQUIRED]) (\<lambda>_.
         bindM (set_entries_paused False None) (\<lambda>snapshot.
         bindM (record_command RESUME_ENTRIES ''resume after full-scope CLEAN reconciliation'' actor True) (\<lambda>_.
         returnM snapshot))))"

definition resume_entries :: "string \<Rightarrow> ('b world, control_state) comp" where
  "resume_entries actor = submission_guard (\<lambda>_. resume_body actor)"

definition cancel_open_orders :: "'b engine \<Rightarrow> string \<Rightarrow> string \<Rightarrow> ('b world, order_intent list) comp" where
  "cancel_open_orders eng reason actor =
     bindM (list_statuses [ACKNOWLEDGED, PARTIALLY_FILLED, CANCEL_PENDING]) (\<lambda>candidates.
     bindM (each_until (\<lambda>i. request_cancel eng (oi_client_order_id i)) [] candidates) (\<lambda>(failed, canceled).
       case failed of
         Some e \<Rightarrow> fail_partially CANCEL_OPEN_ORDERS reason actor (length canceled) (length candidates) e
                     (map oi_client_order_id canceled)
       | None \<Rightarrow>
           bindM (record_command CANCEL_OPEN_ORDERS reason actor True) (\<lambda>_.
           bindM uow_commit (\<lambda>_. returnM canceled))))"

section \<open>Flatten\<close>

definition FLATTEN_STRATEGY :: string where "FLATTEN_STRATEGY = ''control-flatten''"
definition FLATTEN_WINDOW :: string where "FLATTEN_WINDOW = ''emergency''"
definition FLATTEN_CONFIRMATION :: string where "FLATTEN_CONFIRMATION = ''FLATTEN_PAPER''"
definition FLATTEN_COLLAR_BPS :: int where "FLATTEN_COLLAR_BPS = 500"
definition FLATTEN_CANCEL_HOURS :: int where "FLATTEN_CANCEL_HOURS = 4"

definition UNRESOLVED_FLATTEN_STATUSES :: "order_status list" where
  "UNRESOLVED_FLATTEN_STATUSES =
     [SUBMITTING, UNKNOWN, ACKNOWLEDGED, PARTIALLY_FILLED, CANCEL_PENDING, REVIEW_REQUIRED]"

text \<open>\<open>LedgerFlattenPriceProvider\<close>: the last local fill price of the symbol.\<close>

fun matching_fills :: "(string \<rightharpoonup> broker_order) \<Rightarrow> string \<Rightarrow> fill list \<Rightarrow> fill list outcome" where
  "matching_fills orders symbol [] = Inr []"
| "matching_fills orders symbol (f # fs) =
     (case orders (fl_broker_order_id f) of
        None \<Rightarrow> Inl ControlPlaneError
      | Some b \<Rightarrow> bindO (matching_fills orders symbol fs) (\<lambda>rest.
          Inr (if bo_symbol b = symbol then f # rest else rest)))"

definition ledger_price :: "string \<Rightarrow> ('b world, int) comp" where
  "ledger_price symbol =
     bindM list_all_broker_orders (\<lambda>orders.
     bindM list_all_fills (\<lambda>fills.
     bindM (liftM (matching_fills (orders_by_id orders) symbol fills)) (\<lambda>matching.
       if matching \<noteq> []
       then returnM (fl_price (last (sort_key (\<lambda>f. (fl_occurred_at f, fl_execution_id f)) matching)))
       else raiseM ControlPlaneError)))"

text \<open>The provider given at construction is a seam of the deployment; without one, the ledger's.\<close>

definition current_price :: "(string \<Rightarrow> int outcome) option \<Rightarrow> string \<Rightarrow> ('b world, int) comp" where
  "current_price prices symbol = (case prices of None \<Rightarrow> ledger_price symbol | Some p \<Rightarrow> liftM (p symbol))"

definition assert_positions_agree :: "'b engine \<Rightarrow> ledger_projection \<Rightarrow> ('b world, unit) comp" where
  "assert_positions_agree eng p =
     bindM (broker_call (op_list_positions (eng_broker eng))) (\<lambda>ps.
       let symbols = first_keys (map lot_symbol (proj_lots p)) in
       if set (map pp_symbol ps) \<noteq> set symbols
          \<or> list_ex (\<lambda>s. broker_quantities ps s \<noteq> positions p s) symbols
       then raiseM ControlPlaneError else returnM ())"

definition assert_flatten_assets_tradable :: "'b engine \<Rightarrow> ledger_projection \<Rightarrow> ('b world, unit) comp" where
  "assert_flatten_assets_tradable eng p =
     foldM (\<lambda>_ symbol.
       bindM (broker_call (op_get_asset (eng_broker eng) symbol)) (\<lambda>asset.
         if asset_tradable asset then returnM () else raiseM ControlPlaneError))
       () (first_keys (map lot_symbol (proj_lots p)))"

text \<open>\<open>sorted(projection.positions.items())\<close>.\<close>

definition sorted_positions :: "ledger_projection \<Rightarrow> (string \<times> int) list" where
  "sorted_positions p = map (\<lambda>s. (s, the (positions p s))) (sort (first_keys (map lot_symbol (proj_lots p))))"

type_synonym priced_position = "string \<times> int \<times> price_collar"

definition price_positions ::
  "(string \<Rightarrow> int outcome) option \<Rightarrow> (string \<times> int) list \<Rightarrow> ('b world, priced_position list) comp" where
  "price_positions prices ps =
     foldM (\<lambda>acc (symbol, quantity).
       bindM (current_price prices symbol) (\<lambda>reference.
       bindM (liftM (PriceCollar reference FLATTEN_COLLAR_BPS)) (\<lambda>collar.
       returnM (acc @ [(symbol, quantity, collar)])))) [] ps"

definition project_local :: "('b world, ledger_projection) comp" where
  "project_local =
     bindM list_all_broker_orders (\<lambda>mirrors.
     bindM list_all_fills (\<lambda>fills.
     liftM (project_ledger fills (orders_by_id mirrors))))"

text \<open>What the submission loop needs: the priced positions, the times and the generation.\<close>

definition flatten_preflight ::
  "'b engine \<Rightarrow> (string \<Rightarrow> int outcome) option \<Rightarrow> ledger_projection \<Rightarrow>
   ('b world, utc \<times> utc \<times> priced_position list \<times> int) comp" where
  "flatten_preflight eng prices p =
     bindM (assert_positions_agree eng p) (\<lambda>_.
     bindM (assert_flatten_assets_tradable eng p) (\<lambda>_.
     bindM read_clock (\<lambda>now.
     bindM (price_positions prices (sorted_positions p)) (\<lambda>priced.
     bindM bump_flatten_generation (\<lambda>generation.
     returnM (now, now + FLATTEN_CANCEL_HOURS * 3600000000, priced, generation))))))"

definition flatten_exit ::
  "'b engine \<Rightarrow> pydate \<Rightarrow> utc \<Rightarrow> utc \<Rightarrow> int \<Rightarrow> priced_position \<Rightarrow> ('b world, order_intent) comp" where
  "flatten_exit eng trading_date now cancel_at generation position =
     (case position of (symbol, quantity, collar) \<Rightarrow>
        bindM (liftM (OrderQuantity quantity)) (\<lambda>quantity.
        bindM (liftM (lower_limit collar)) (\<lambda>limit_price.
        bindM fresh_uuid (\<lambda>run_id.
        bindM (liftM (RunId run_id)) (\<lambda>run_id.
        bindM fresh_uuid (\<lambda>intent_id.
        bindM (liftM (create_intent FLATTEN_STRATEGY trading_date FLATTEN_WINDOW generation symbol SELL quantity RISK_EXIT
                 limit_price collar now cancel_at run_id now intent_id)) (\<lambda>intent.
        bindM (orders_add intent) (\<lambda>_.
        bindM (transition_status (oi_client_order_id intent) RISK_APPROVED) (\<lambda>_.
        bindM (transition_status (oi_client_order_id intent) OUTBOX_PENDING) (\<lambda>_.
        bindM (submit_from_outbox eng (oi_client_order_id intent)) (\<lambda>result.
          if oi_status result \<notin> {ACKNOWLEDGED, PARTIALLY_FILLED, FILLED} then raiseM ControlPlaneError
          else returnM result)))))))))))"

definition flatten_exits ::
  "'b engine \<Rightarrow> (string \<Rightarrow> int outcome) option \<Rightarrow> pydate \<Rightarrow> string \<Rightarrow> string \<Rightarrow> ('b world, order_intent list) comp" where
  "flatten_exits eng prices trading_date reason actor =
     bindM (attemptM project_local) (\<lambda>outcome.
       case outcome of
         Inl e \<Rightarrow> fail_partially FLATTEN_PAPER reason actor 0 0 e []
       | Inr p \<Rightarrow>
           let total_count = length (sorted_positions p) in
           bindM (attemptM (flatten_preflight eng prices p)) (\<lambda>outcome.
             case outcome of
               Inl e \<Rightarrow> fail_partially FLATTEN_PAPER reason actor 0 total_count e []
             | Inr (now, cancel_at, priced, generation) \<Rightarrow>
                 bindM (each_until (flatten_exit eng trading_date now cancel_at generation) [] priced) (\<lambda>(failed, submitted).
                   case failed of
                     Some e \<Rightarrow> fail_partially FLATTEN_PAPER reason actor (length submitted) total_count e
                                 (map oi_client_order_id submitted)
                   | None \<Rightarrow>
                       bindM (record_command FLATTEN_PAPER reason actor True) (\<lambda>_.
                       bindM uow_commit (\<lambda>_. returnM submitted)))))"

text \<open>One of the three loops over the intents that must converge first.\<close>

definition flatten_sweep ::
  "string \<Rightarrow> string \<Rightarrow> order_status list \<Rightarrow> (string \<Rightarrow> ('b world, order_intent) comp) \<Rightarrow> bool \<Rightarrow> ('b world, unit) comp" where
  "flatten_sweep reason actor sts op audit_ids =
     bindM (list_statuses sts) (\<lambda>candidates.
     bindM (each_until (\<lambda>i. bindM (op (oi_client_order_id i)) (\<lambda>_. returnM i)) [] candidates) (\<lambda>(failed, completed).
       case failed of
         Some e \<Rightarrow> fail_partially FLATTEN_PAPER reason actor (length completed) (length candidates) e
                     (if audit_ids then map oi_client_order_id completed else [])
       | None \<Rightarrow> returnM ()))"

definition flatten_paper ::
  "'b engine \<Rightarrow> (string \<Rightarrow> int outcome) option \<Rightarrow> pydate \<Rightarrow> string \<Rightarrow> string \<Rightarrow> string \<Rightarrow>
   ('b world, order_intent list) comp" where
  "flatten_paper eng prices trading_date reason actor confirmation =
     (if confirmation \<noteq> FLATTEN_CONFIRMATION then raiseM ControlPlaneError
      else
        bindM control_read (\<lambda>snapshot.
        if \<not> cs_entries_paused snapshot then raiseM ControlPlaneError
        else
          bindM (flatten_sweep reason actor [SUBMITTING, UNKNOWN] (resolve eng) False) (\<lambda>_.
          bindM (flatten_sweep reason actor [ACKNOWLEDGED, PARTIALLY_FILLED, CANCEL_PENDING] (request_cancel eng) True) (\<lambda>_.
          bindM (flatten_sweep reason actor [ACKNOWLEDGED, PARTIALLY_FILLED, CANCEL_PENDING] (apply_fills eng) False) (\<lambda>_.
          bindM (list_statuses UNRESOLVED_FLATTEN_STATUSES) (\<lambda>unresolved.
            if unresolved \<noteq> []
            then fail_partially FLATTEN_PAPER reason actor 0 (length unresolved) ControlPlaneError []
            else flatten_exits eng prices trading_date reason actor))))))"

section \<open>Frames\<close>

context effect_frame
begin

lemma keeps_each: "(\<And>x. keeps R (f x)) \<Longrightarrow> keeps R (each_until f completed xs)"
  by (induction xs arbitrary: completed) (auto intro!: keeps_rules split: sum.split)

end

text \<open>
  What the store and the engine keep, the control plane keeps. The first locale adds to the
  engine's steps the reads and the audit of the control plane, the second what flatten
  writes.
\<close>

locale control_steps = engine_steps R eng for R :: "'b world \<Rightarrow> 'b world \<Rightarrow> bool" and eng :: "'b engine" +
  assumes c_uuid: "keeps R fresh_uuid"
    and c_mirrors: "keeps R list_all_broker_orders"
    and c_fills: "keeps R list_all_fills"
    and c_positions: "keeps R (broker_call (op_list_positions (eng_broker eng)))"
begin

lemmas reading_rules = step_rules c_uuid c_mirrors c_fills c_positions keeps_each

lemma frame_record: "keeps R (record_command c reason actor applied)"
  unfolding record_command_def by (intro reading_rules)

lemma frame_fail: "keeps R (fail_partially c reason actor n m e ids)"
  unfolding fail_partially_def record_partial_failure_def by (intro reading_rules frame_record)

lemma frame_list: "keeps R (list_statuses sts)"
  unfolding list_statuses_def by (intro reading_rules)

lemma frame_pause_entries: "keeps R (pause_entries reason actor)"
  unfolding pause_entries_def by (intro reading_rules frame_record)

lemma frame_cancel_open: "keeps R (cancel_open_orders eng reason actor)"
  unfolding cancel_open_orders_def by (intro reading_rules frame_list frame_fail frame_record frame_cancel)

lemma frame_checks:
  "keeps R project_local" "keeps R (assert_positions_agree eng p)" "keeps R (assert_flatten_assets_tradable eng p)"
  "keeps R (price_positions prices ps)"
proof -
  have "keeps R (current_price prices symbol)" for symbol
    unfolding current_price_def ledger_price_def by (intro reading_rules)
  then show "keeps R (price_positions prices ps)"
    unfolding price_positions_def by (intro reading_rules)
qed (unfold project_local_def assert_positions_agree_def assert_flatten_assets_tradable_def Let_def, (intro reading_rules)+)

lemma frame_sweep: "(\<And>cid. keeps R (op cid)) \<Longrightarrow> keeps R (flatten_sweep reason actor sts op ids)"
  unfolding flatten_sweep_def by (intro reading_rules frame_list frame_fail)

end

locale control_frame = control_steps R eng + engine_frame R eng
  for R :: "'b world \<Rightarrow> 'b world \<Rightarrow> bool" and eng :: "'b engine" +
  assumes c_add: "keeps R (orders_add i)"
    and c_bump: "keeps R bump_flatten_generation"
begin

lemmas control_rules = reading_rules c_add c_bump

lemma frame_preflight: "keeps R (flatten_preflight eng prices p)"
  unfolding flatten_preflight_def by (intro control_rules frame_checks)

lemma frame_exit: "keeps R (flatten_exit eng td now until g position)"
  unfolding flatten_exit_def by (intro control_rules frame_operations)

lemma frame_exits: "keeps R (flatten_exits eng prices td reason actor)"
  unfolding flatten_exits_def Let_def by (intro control_rules frame_fail frame_checks frame_preflight frame_exit frame_record)

lemma frame_flatten: "keeps R (flatten_paper eng prices td reason actor confirmation)"
  unfolding flatten_paper_def
  by (intro control_rules frame_sweep frame_operations frame_cancel frame_list frame_fail frame_exits)

end

interpretation ce: control_frame evolving eng for eng :: "'b engine"
  by unfold_locales (rule evolving_rules)+

text \<open>The parts of the control plane that submit nothing.\<close>

lemmas control_quiet_rules = quiet_rules engine_quiet qf.keeps_each

lemma quiet_control:
  "keeps quiet (record_command c reason actor applied)" "keeps quiet (fail_partially c reason actor n m e ids)"
  "keeps quiet (list_statuses sts)"
  unfolding fail_partially_def record_partial_failure_def record_command_def list_statuses_def
  by (intro control_quiet_rules)+

lemma quiet_commands:
  "keeps quiet (pause_entries reason actor)" "keeps quiet (resume_entries actor)" "keeps quiet (cancel_open_orders eng reason actor)"
  unfolding pause_entries_def resume_entries_def resume_body_def submission_guard_def cancel_open_orders_def
  by (intro control_quiet_rules quiet_control)+

lemma quiet_preflight: "keeps quiet project_local" "keeps quiet (flatten_preflight eng prices p)"
proof -
  have "keeps quiet (current_price prices symbol)" for symbol
    unfolding current_price_def ledger_price_def by (intro control_quiet_rules)
  then show "keeps quiet (flatten_preflight eng prices p)"
    unfolding flatten_preflight_def assert_positions_agree_def assert_flatten_assets_tradable_def price_positions_def Let_def
    by (intro control_quiet_rules)
qed (unfold project_local_def, intro control_quiet_rules)

section \<open>Submission safety of the control plane\<close>

lemma each_until_triple:
  assumes "\<And>x. triple I (f x) (\<lambda>_. I) (\<lambda>_. J)"
  shows "triple I (each_until f completed xs) (\<lambda>(failed, _) s. if failed = None then I s else J s) E"
proof (induction xs arbitrary: completed)
  case Nil
  show ?case by (simp add: triple_def run_simps)
next
  case (Cons x xs)
  have "triple (case r of Inl e \<Rightarrow> J | Inr a \<Rightarrow> I) (case r of Inl e \<Rightarrow> returnM (Some e, completed) | Inr a \<Rightarrow> each_until f (completed @ [a]) xs)
      (\<lambda>(failed, _) s. if failed = None then I s else J s) E" for r
    using Cons by (cases r) (auto simp: triple_def run_simps)
  moreover have "triple I (attemptM (f x)) (\<lambda>r. case r of Inl e \<Rightarrow> J | Inr a \<Rightarrow> I) E"
    by (rule triple_attempt) (simp add: assms)
  ultimately show ?case by (simp add: triple_bind)
qed

abbreviation stays_safe :: "('b world, 'a) comp \<Rightarrow> bool" where
  "stays_safe m \<equiv> triple safe_trace m (\<lambda>_. safe_trace) (\<lambda>_. safe_trace)"

lemma stays_safe_each: "(\<And>x. stays_safe (f x)) \<Longrightarrow> stays_safe (each_until f completed xs)"
  by (rule triple_weaken [OF each_until_triple [where I = safe_trace and J = safe_trace]]) (auto split: if_splits)

lemma stays_safe_bind: "stays_safe m \<Longrightarrow> (\<And>a. stays_safe (f a)) \<Longrightarrow> stays_safe (bindM m f)"
  by (rule triple_bind)

lemma stays_safe_rules:
  "stays_safe (returnM a)" "stays_safe (raiseM e)" "stays_safe m \<Longrightarrow> stays_safe (attemptM m)"
  by (auto simp: triple_def run_simps attemptM_def split: prod.splits sum.splits)

lemma exit_safe: "stays_safe (flatten_exit eng td now until g position)"
proof (cases position)
  case (fields symbol quantity collar)
  show ?thesis
    unfolding fields flatten_exit_def prod.case
    by (intro stays_safe_bind safe_quiet quiet_rules submit_unsettled_safe triple_if stays_safe_rules)
qed

lemma exits_safe: "stays_safe (flatten_exits eng prices td reason actor)"
proof -
  have submit: "stays_safe (bindM (each_until (flatten_exit eng td now until g) [] priced) (\<lambda>(failed, submitted).
      case failed of
        Some e \<Rightarrow> fail_partially FLATTEN_PAPER reason actor (length submitted) n e (map oi_client_order_id submitted)
      | None \<Rightarrow> bindM (record_command FLATTEN_PAPER reason actor True) (\<lambda>_. bindM uow_commit (\<lambda>_. returnM submitted))))"
    for now until g priced n
    by (intro stays_safe_bind stays_safe_each exit_safe safe_quiet qf.keeps_rules quiet_control quiet_rules)
  show ?thesis
    unfolding flatten_exits_def Let_def
    by (intro stays_safe_bind safe_quiet [OF qf.keeps_attempt] quiet_preflight)
      (auto split: sum.split prod.split intro!: stays_safe_bind safe_quiet [OF qf.keeps_attempt] quiet_preflight
        safe_quiet [OF quiet_control(2)] submit)
qed

lemma sweep_safe: "triple (\<lambda>w. settled w \<and> safe_trace w) (flatten_sweep reason actor sts (resolve eng) ids)
   (\<lambda>_. safe_trace) (\<lambda>_. safe_trace)"
proof -
  have list: "triple (\<lambda>w. settled w \<and> safe_trace w) (list_statuses sts) (\<lambda>_ w. settled w \<and> safe_trace w) (\<lambda>_. safe_trace)"
    unfolding list_statuses_def by (intro inv_fold inv_bind list_both both_return)
  have op: "triple (\<lambda>w. settled w \<and> safe_trace w) (bindM (resolve eng cid) (\<lambda>_. returnM i))
      (\<lambda>_ w. settled w \<and> safe_trace w) (\<lambda>_. safe_trace)" for cid and i :: order_intent
    by (intro inv_bind resolve_both both_return)
  have each: "triple (\<lambda>w. settled w \<and> safe_trace w) (each_until (\<lambda>i. bindM (resolve eng (oi_client_order_id i)) (\<lambda>_. returnM i)) [] is)
      (\<lambda>_. safe_trace) (\<lambda>_. safe_trace)" for "is" :: "order_intent list"
    by (rule triple_weaken [OF each_until_triple [where I = "\<lambda>w. settled w \<and> safe_trace w" and J = safe_trace
          and E = "\<lambda>_ _. False"]], rule op) (auto split: if_splits)
  show ?thesis
    unfolding flatten_sweep_def
    by (rule triple_bind [OF list], rule triple_bind [OF each])
      (auto split: option.split intro!: safe_quiet [OF quiet_control(2)] stays_safe_rules)
qed

lemma sweep_quiet:
  assumes "\<And>cid. keeps quiet (op cid)"
  shows "stays_safe (flatten_sweep reason actor sts op ids)"
  by (rule safe_quiet) (unfold flatten_sweep_def, intro control_quiet_rules quiet_control assms)

lemma flatten_safe:
  "triple (\<lambda>w. settled w \<and> safe_trace w) (flatten_paper eng prices td reason actor confirmation)
     (\<lambda>_. safe_trace) (\<lambda>_. safe_trace)"
proof -
  have control: "returns settled control_read (\<lambda>_. settled)"
    unfolding control_read_def by (rule triple_bind [OF ret_query_settled], rule ret_lift, assumption)
  have rest: "stays_safe (bindM (flatten_sweep reason actor sts (request_cancel eng) b1) (\<lambda>_.
      bindM (flatten_sweep reason actor sts' (apply_fills eng) b2) (\<lambda>_.
      bindM (list_statuses us) (\<lambda>unresolved.
        if unresolved \<noteq> [] then fail_partially FLATTEN_PAPER reason actor 0 (length unresolved) ControlPlaneError []
        else flatten_exits eng prices td reason actor))))" for sts sts' b1 b2 us
    by (intro stays_safe_bind sweep_quiet engine_quiet triple_if exits_safe safe_quiet [OF quiet_control(2)]
        safe_quiet [OF quiet_control(3)])
  show ?thesis
    unfolding flatten_paper_def
    by (rule triple_if, simp add: triple_def run_simps, rule triple_bind [OF both_gates [OF quiet_store(11) control]],
        rule triple_if, simp add: triple_def run_simps, rule triple_bind [OF sweep_safe rest])
qed

section \<open>Who can clear a pause\<close>

interpretation sp: db_frame stays_paused
  by unfold_locales (auto simp: stays_paused_def dest!: sql_pause_db)

lemma stays_statements:
  "sql_insert_intent i now d = Inr (a1, d') \<Longrightarrow> stays_paused d d'"
  "sql_bump_flatten_generation now d = Inr (a2, d') \<Longrightarrow> stays_paused d d'"
  "sql_update_broker_order bid bst q t now d = Inr (a3, d') \<Longrightarrow> stays_paused d d'"
  by (auto simp: sql_insert_intent_def sql_bump_flatten_generation_def sql_update_broker_order_def Let_def stays_paused_def
      split: if_splits option.splits)

lemma engine_write_stays: "engine_write d d' \<Longrightarrow> stays_paused d d'"
  by (simp add: engine_write_def)

lemma stays_writes:
  "keeps (tracks stays_paused) (transition_status cid st)" "keeps (tracks stays_paused) (add_fill f)"
  "keeps (tracks stays_paused) (add_command c)" "keeps (tracks stays_paused) (record_broker_order b)"
  unfolding transition_status_def add_fill_def add_command_def record_broker_order_def
  by (intro sp.tracks_rules sp.tracks_statement; (rule engine_write_stays, erule engine_writes))+

lemma stays_control_writes:
  "keeps (tracks stays_paused) (orders_add i)" "keeps (tracks stays_paused) bump_flatten_generation"
  "keeps (tracks stays_paused) (update_broker_order_status bid bst q t)"
  unfolding orders_add_def bump_flatten_generation_def update_broker_order_status_def
  by (intro sp.tracks_rules sp.tracks_reads sp.tracks_statement; erule stays_statements)+

lemmas stays_store = sp.tracks_reads sp.tracks_query sp.tracks_flags sp.tracks_ends sp.tracks_pause stays_writes
  stays_control_writes

text \<open>The same with broker calls and submissions.\<close>

definition holds_pause :: "'b world \<Rightarrow> 'b world \<Rightarrow> bool" where
  "holds_pause w w' \<longleftrightarrow> (stays_paused (w_committed w) (w_working w) \<longrightarrow>
     stays_paused (w_committed w') (w_working w') \<and> stays_paused (w_committed w) (w_committed w'))"

interpretation hf: effect_frame holds_pause
  by unfold_locales (auto simp: holds_pause_def stays_paused_def)

lemma tracks_holds: "tracks stays_paused w w' \<Longrightarrow> holds_pause w w'"
  by (simp add: tracks_def holds_pause_def)

lemma holds_broker_calls: "keeps holds_pause (broker_call op)" "keeps holds_pause (broker_submit ops i)"
proof -
  have call: "keeps holds_pause (broker_call x)" for x :: "('x, 'y) comp"
    by (rule keeps_mono [OF sp.moves_broker_call]) (simp add: moves_def holds_pause_def)
  show "keeps holds_pause (broker_call op)" by (rule call)
  have "keeps holds_pause (note_submission i)"
    by (simp add: note_submission_def keeps_def run_simps holds_pause_def stays_paused_def)
  then show "keeps holds_pause (broker_submit ops i)"
    unfolding broker_submit_def by (intro hf.keeps_bind call)
qed

interpretation hp: control_frame holds_pause eng for eng :: "'b engine"
proof
  show "holds_pause w (env_step w)" for w :: "'b world"
    by (rule tracks_holds) (rule sp.tracks_env_step)
qed (rule holds_broker_calls stays_store [THEN keeps_mono, OF tracks_holds], assumption?)+

text \<open>\<open>resume_entries\<close> clears it only over a clean full run with nothing unresolved.\<close>

definition resumable :: "db \<Rightarrow> bool" where
  "resumable d \<longleftrightarrow> cs_entries_paused (db_control d)
     \<or> (\<exists>r. latest_run d = Some r \<and> rr_status r = CLEAN \<and> rr_scope r = FULL \<and> \<not> has_unresolved d)"

definition gated :: "db \<Rightarrow> db \<Rightarrow> bool" where
  "gated d d' \<longleftrightarrow> (resumable d \<longrightarrow> resumable d')"

interpretation gt: db_frame gated
  by unfold_locales (auto simp: gated_def resumable_def dest!: sql_pause_db)

lemma latest_run_update [simp]:
  "latest_run (d\<lparr>db_commands := cs\<rparr>) = latest_run d" "latest_run (d\<lparr>db_control := st\<rparr>) = latest_run d"
  "has_unresolved (d\<lparr>db_commands := cs\<rparr>) = has_unresolved d" "has_unresolved (d\<lparr>db_control := st\<rparr>) = has_unresolved d"
  by (simp_all add: latest_run_def has_unresolved_def split: list.split)

lemma gated_resume: "keeps (tracks gated) (resume_entries actor)"
proof -
  have "sql_resume_entries now d = Inr (a, d') \<Longrightarrow> gated d d'" for now d a d'
    by (auto simp: sql_resume_entries_def gated_def resumable_def Let_def
        split: option.splits if_splits)
  then have resume: "keeps (tracks gated) (set_entries_paused False None)"
    unfolding set_entries_paused_def by (simp, intro gt.tracks_rules gt.tracks_statement)
  have "sql_insert_command c now d = Inr (a, d') \<Longrightarrow> gated d d'" for c now d a d'
    by (auto simp: sql_insert_command_def gated_def resumable_def split: if_splits)
  then have "keeps (tracks gated) (add_command c)" for c
    unfolding add_command_def by (intro gt.tracks_rules gt.tracks_statement)
  with resume show ?thesis
    unfolding resume_entries_def resume_body_def submission_guard_def record_command_def
    by (intro gt.tracks_rules gt.tracks_reads)
qed

end
