(* ===== verification/Flatten.thy ===== *)
theory Flatten
  imports Control_Plane
begin

text \<open>
  What stands between an operator and an exit: \<open>flatten_paper\<close> creates no intent and takes
  no generation before it has read a pause, has found nothing unresolved, and has heard
  from the broker the positions the local ledger projects.

  The pause is read without a lock and not again, and a risk exit does not pass the entry
  guard, so another process may resume entries while a flatten runs; what is shown here
  does not rest on the pause lasting, it is one that was read at some moment of the flatten.
\<close>

section \<open>Every part keeps what it must\<close>

interpretation tc: control_frame "talks (eng_broker eng)" eng for eng :: "'b engine"
proof
  show "talks (eng_broker eng) w (env_step w)" for w by (rule talks_env_step)
qed (rule port_talks submit_talks store_talks; (rule store_intros)?)+

text \<open>The intents, by key, and the generation of flattens.\<close>

definition intent_keys :: "db \<Rightarrow> (string \<times> uuid) list" where
  "intent_keys d = map (\<lambda>i. (oi_client_order_id i, oi_intent_id i)) (db_intents d)"

definition unopened :: "db \<Rightarrow> db \<Rightarrow> bool" where
  "unopened d d' \<longleftrightarrow> intent_keys d' = intent_keys d
     \<and> cs_flatten_generation (db_control d') = cs_flatten_generation (db_control d)"

interpretation un: db_frame unopened
proof
  show "sql_pause_entries r now c = Inr (s, c') \<Longrightarrow> unopened c c'" for r now c s c'
    using sql_pause_db [of r now c s c'] by (simp add: unopened_def intent_keys_def)
qed (auto simp: unopened_def intent_keys_def)

lemma unopened_statements:
  "sql_update_intent_status cid st now d = Inr (a1, d') \<Longrightarrow> unopened d d'"
  "sql_insert_broker_order b now d = Inr (a2, d') \<Longrightarrow> unopened d d'"
  "sql_update_broker_order bid bst q t now d = Inr (a3, d') \<Longrightarrow> unopened d d'"
  "sql_insert_fill f now d = Inr (a4, d') \<Longrightarrow> unopened d d'"
  "sql_insert_command c now d = Inr (a5, d') \<Longrightarrow> unopened d d'"
  by (auto simp: sql_update_intent_status_def sql_insert_broker_order_def sql_update_broker_order_def
      sql_insert_fill_def sql_insert_command_def Let_def unopened_def intent_keys_def set_intent_status_def
      split: if_splits option.splits)

lemma unopened_writes:
  "keeps (tracks unopened) (transition_status cid st)" "keeps (tracks unopened) (add_fill f)"
  "keeps (tracks unopened) (add_command c)" "keeps (tracks unopened) (record_broker_order b)"
  unfolding transition_status_def add_fill_def add_command_def record_broker_order_def
  by (intro un.tracks_rules un.tracks_statement; erule unopened_statements)+

definition opens_nothing :: "'b world \<Rightarrow> 'b world \<Rightarrow> bool" where
  "opens_nothing w w' \<longleftrightarrow> (unopened (w_committed w) (w_working w) \<longrightarrow>
     unopened (w_committed w') (w_working w') \<and> unopened (w_committed w) (w_committed w'))"

interpretation op: effect_frame opens_nothing
  by unfold_locales (auto simp: opens_nothing_def intro: un.d_trans un.d_refl)

lemma tracks_opens: "tracks unopened w w' \<Longrightarrow> opens_nothing w w'"
  by (simp add: tracks_def opens_nothing_def)

lemma opens_broker:
  "keeps opens_nothing (broker_call x)" "keeps opens_nothing (broker_submit ops i)"
proof -
  have call: "keeps opens_nothing (broker_call y)" for y :: "('x, 'y) comp"
    by (rule keeps_mono [OF un.moves_broker_call]) (simp add: moves_def opens_nothing_def)
  show "keeps opens_nothing (broker_call x)" by (rule call)
  have "keeps opens_nothing (note_submission i)"
    by (simp add: note_submission_def keeps_def run_simps opens_nothing_def un.d_refl)
  then show "keeps opens_nothing (broker_submit ops i)"
    unfolding broker_submit_def by (intro op.keeps_bind call)
qed

lemmas opens_store = un.tracks_reads un.tracks_query un.tracks_flags un.tracks_ends un.tracks_pause unopened_writes

interpretation on: control_steps opens_nothing eng for eng :: "'b engine"
proof
  show "opens_nothing w (env_step w)" for w :: "'b world"
    by (rule tracks_opens) (rule un.tracks_env_step)
qed (rule opens_broker opens_store [THEN keeps_mono, OF tracks_opens], assumption?)+

interpretation oe: engine_frame opens_nothing eng for eng :: "'b engine"
  by unfold_locales (rule opens_broker)

section \<open>What had been read and heard\<close>

text \<open>
  Between the databases \<open>d0\<close> and \<open>d1\<close> and the brokers \<open>b0\<close> and \<open>b1\<close>: a pause was committed, then
  in a database \<open>d\<close> nothing was unresolved, the broker told the positions its ledger
  projects, and it told of each of their symbols that it can be traded.
\<close>

definition exits_agreed :: "'b broker_ops \<Rightarrow> db \<Rightarrow> 'b \<Rightarrow> db \<Rightarrow> 'b \<Rightarrow> bool" where
  "exits_agreed ops d0 b0 d1 b1 \<longleftrightarrow>
     (\<exists>dp d p ps es. evolves d0 dp \<and> cs_entries_paused (db_control dp) \<and> evolves dp d \<and> evolves d d1
        \<and> (\<forall>st\<in>set UNRESOLVED_FLATTEN_STATUSES. sql_intents_by_status st d = [])
        \<and> project_ledger (db_fills d) (orders_by_id (all_mirrors d)) = Inr p
        \<and> conversation ops b0 es b1 \<and> PositionsAre ps \<in> set es \<and> positions p = broker_quantities ps
        \<and> (\<forall>l\<in>set (proj_lots p). \<exists>asset. AssetIs (lot_symbol l) asset \<in> set es \<and> asset_tradable asset))"

text \<open>A flatten from \<open>w0\<close> that has opened nothing yet.\<close>

definition begun :: "'b broker_ops \<Rightarrow> 'b world \<Rightarrow> 'b world \<Rightarrow> bool" where
  "begun ops w0 w \<longleftrightarrow> evolves (w_committed w0) (w_committed w) \<and> evolves (w_committed w) (w_working w)
     \<and> unopened (w_committed w0) (w_committed w) \<and> unopened (w_committed w) (w_working w) \<and> talks ops w0 w"

lemma begun_start: "settled w \<Longrightarrow> begun ops w w"
  by (simp add: begun_def settled_def un.d_refl tk.frame_refl)

lemma begun_keeps:
  assumes "keeps evolving m" "keeps (talks ops) m" "keeps opens_nothing m"
  shows "triple (begun ops w0) m (\<lambda>_. begun ops w0) (\<lambda>_. begun ops w0)"
proof -
  have "keeps (\<lambda>s t. evolving s t \<and> talks ops s t \<and> opens_nothing s t) m"
    using assms by (simp add: keeps_def)
  then show ?thesis
    by (rule keeps_triple) (auto simp: begun_def evolving_def opens_nothing_def
        intro: evolves_trans un.d_trans tk.frame_trans)
qed

lemma begun_store:
  "keeps store_frame m \<Longrightarrow> keeps (tracks unopened) m \<Longrightarrow> triple (begun ops w0) m (\<lambda>_. begun ops w0) (\<lambda>_. begun ops w0)"
  by (intro begun_keeps store_evolving store_talks; (erule keeps_mono, rule tracks_opens)?)

text \<open>One that has read a pause, with nothing uncommitted.\<close>

definition ready :: "'b broker_ops \<Rightarrow> 'b world \<Rightarrow> 'b world \<Rightarrow> bool" where
  "ready ops w0 w \<longleftrightarrow> begun ops w0 w \<and> settled w
     \<and> (\<exists>dp. evolves (w_committed w0) dp \<and> cs_entries_paused (db_control dp) \<and> evolves dp (w_committed w))"

lemma ready_keeps:
  assumes "keeps evolving m" "keeps (talks ops) m" "keeps opens_nothing m" "returns settled m (\<lambda>_. settled)"
  shows "triple (ready ops w0) m (\<lambda>_. ready ops w0) (\<lambda>_. begun ops w0)"
proof (rule tripleI)
  fix s a t
  assume s: "ready ops w0 s" and run: "m s = (Inr a, t)"
  have "begun ops w0 t" using triple_returned [OF begun_keeps [OF assms(1-3)] _ run] s by (simp add: ready_def)
  moreover have "settled t" using triple_returned [OF assms(4) _ run] s by (simp add: ready_def)
  moreover have "evolves (w_committed s) (w_committed t)"
    using keepsD [OF assms(1) run] s by (simp add: evolving_def ready_def begun_def)
  ultimately show "ready ops w0 t" using s by (auto simp: ready_def intro: evolves_trans)
next
  fix s e t
  assume "ready ops w0 s" "m s = (Inl e, t)"
  then show "begun ops w0 t" using triple_raised [OF begun_keeps [OF assms(1-3)]] by (simp add: ready_def) blast
qed

lemma read_control_settled: "returns settled control_read (\<lambda>s w. settled w \<and> s = db_control (w_committed w))"
  unfolding control_read_def
proof (rule triple_bind)
  show "returns settled (query db_control) (\<lambda>s w. settled w \<and> s = db_control (w_committed w))"
    by (rule ret_query) (use settled_env_step in \<open>auto simp: settled_def\<close>)
  show "returns (\<lambda>w. settled w \<and> s = db_control (w_committed w)) (liftM (control_state_post_init s))
      (\<lambda>s w. settled w \<and> s = db_control (w_committed w))" for s
    by (rule ret_lift) (auto simp: control_state_post_init_def bindO_eq_Inr)
qed

lemma read_pause:
  assumes "settled w0"
  shows "triple (\<lambda>w. w = w0) control_read (\<lambda>s w. begun ops w0 w \<and> (cs_entries_paused s \<longrightarrow> ready ops w0 w)) (\<lambda>_. begun ops w0)"
proof -
  have keep: "triple (\<lambda>w. w = w0) control_read (\<lambda>_. begun ops w0) (\<lambda>_. begun ops w0)"
    by (rule triple_pre [OF begun_store [OF sf.tracks_reads(11) un.tracks_reads(11)]]) (simp add: begun_start assms)
  have "returns (\<lambda>w. w = w0) control_read (\<lambda>s w. settled w \<and> s = db_control (w_committed w))"
    by (rule triple_pre [OF read_control_settled]) (simp add: assms)
  from triple_conj [OF keep this] show ?thesis
    by (rule triple_weaken) (auto simp: ready_def begun_def)
qed

section \<open>The sweeps leave nothing uncommitted\<close>

lemma fail_never_returns: "returns P (fail_partially c reason actor n m e ids) Q"
  unfolding fail_partially_def
  by (rule triple_bind [OF returns_any], rule triple_bind [OF returns_any]) (simp add: triple_def run_simps)

lemma settled_refresh_known: "returns settled (refresh_known_order eng i) (\<lambda>_. settled)"
  unfolding refresh_known_order_def
  by (intro triple_bind [OF returns_settled [OF settled_broker_call]] triple_case_option returns_const
      triple_bind [OF settled_mirror] returns_settled [OF settled_refresh])

lemma settled_apply_fills: "returns settled (apply_fills eng cid) (\<lambda>_. settled)"
  unfolding apply_fills_def
  by (intro triple_bind [OF require_settled] triple_if returns_const triple_bind [OF settled_reads(2)] settled_refresh_known)

lemma settled_request_cancel: "returns settled (request_cancel eng cid) (\<lambda>_. settled)"
proof -
  have mark: "returns settled (if oi_status i = CANCEL_PENDING then returnM i
      else if oi_status i \<in> {ACKNOWLEDGED, PARTIALLY_FILLED} then
        bindM (transition_status cid CANCEL_PENDING) (\<lambda>i. bindM uow_commit (\<lambda>_. returnM i))
      else raiseM ExecutionStateError) (\<lambda>_. settled)" for i
    by (intro triple_if returns_const triple_bind [OF returns_any] returns_commit)
  show ?thesis
    unfolding request_cancel_def
    by (intro triple_bind [OF require_settled] triple_bind [OF mark] triple_bind [OF settled_reads(2)] triple_case_option returns_const
        triple_bind [OF returns_settled [OF settled_broker_call]] settled_refresh_known)
qed

lemma settled_list: "returns settled (list_statuses sts) (\<lambda>_. settled)"
  unfolding list_statuses_def by (intro inv_fold inv_bind list_settled returns_const)

lemma settled_each:
  assumes "\<And>x. returns settled (f x) (\<lambda>_. settled)"
  shows "returns settled (each_until f completed xs) (\<lambda>(failed, _) s. failed = None \<longrightarrow> settled s)"
  by (rule triple_weaken [OF each_until_triple [where I = settled and J = "\<lambda>_. True"]]) (auto intro: assms split: if_splits)

lemma settled_sweep:
  assumes "\<And>cid. returns settled (op cid) (\<lambda>_. settled)"
  shows "returns settled (flatten_sweep reason actor sts op ids) (\<lambda>_. settled)"
proof -
  have each: "returns settled (each_until (\<lambda>i. bindM (op (oi_client_order_id i)) (\<lambda>_. returnM i)) [] xs)
      (\<lambda>(failed, _) s. failed = None \<longrightarrow> settled s)" for xs :: "order_intent list"
    by (rule settled_each) (intro triple_bind [OF assms] returns_const)
  show ?thesis
    unfolding flatten_sweep_def
  proof (rule triple_bind [OF settled_list], rule triple_bind [OF each])
    fix outcome :: "exn option \<times> order_intent list"
    show "returns (case outcome of (failed, _) \<Rightarrow> \<lambda>s. failed = None \<longrightarrow> settled s) (case outcome of (failed, completed) \<Rightarrow>
        case failed of Some e \<Rightarrow> fail_partially FLATTEN_PAPER reason actor (length completed) (length candidates) e
             (if ids then map oi_client_order_id completed else [])
         | None \<Rightarrow> returnM ()) (\<lambda>_. settled)" for candidates :: "order_intent list"
      by (cases outcome; cases "fst outcome") (simp_all add: triple_return [where Q = "\<lambda>_. settled"] fail_never_returns)
  qed
qed

lemma ready_sweep:
  fixes eng :: "'b engine"
  assumes "\<And>cid. returns settled (op cid) (\<lambda>_. settled)" "\<And>cid. keeps evolving (op cid)"
    "\<And>cid. keeps (talks (eng_broker eng)) (op cid)" "\<And>cid. keeps opens_nothing (op cid)"
  shows "triple (ready (eng_broker eng) w0) (flatten_sweep reason actor sts op ids) (\<lambda>_. ready (eng_broker eng) w0)
    (\<lambda>_. begun (eng_broker eng) w0)"
  by (rule ready_keeps [OF ce.frame_sweep tc.frame_sweep on.frame_sweep settled_sweep]) (rule assms)+

section \<open>The last checks\<close>

text \<open>Nothing opened, in a database that has the tables of \<open>d\<close>, read after a pause.\<close>

definition vetting :: "'b broker_ops \<Rightarrow> 'b world \<Rightarrow> db \<Rightarrow> 'b world \<Rightarrow> bool" where
  "vetting ops w0 d w \<longleftrightarrow> begun ops w0 w \<and> at d w \<and> evolves d (w_committed w)
     \<and> (\<exists>dp. evolves (w_committed w0) dp \<and> cs_entries_paused (db_control dp) \<and> evolves dp d)"

lemma ready_vetting: "ready ops w0 w \<Longrightarrow> vetting ops w0 (w_committed w) w"
  by (auto simp: ready_def vetting_def at_def same_tables_def settled_def)

lemma vetting_begun: "vetting ops w0 d w \<Longrightarrow> begun ops w0 w"
  by (simp add: vetting_def)

lemma vetting_read:
  assumes "returns (at d) m (\<lambda>a w. at d w \<and> Q a)" "keeps evolving m" "keeps (talks ops) m" "keeps opens_nothing m"
  shows "triple (vetting ops w0 d) m (\<lambda>a w. vetting ops w0 d w \<and> Q a) (\<lambda>_. begun ops w0)"
proof (rule tripleI)
  fix s a t
  assume s: "vetting ops w0 d s" and run: "m s = (Inr a, t)"
  have "begun ops w0 t" using triple_returned [OF begun_keeps [OF assms(2-4)] _ run] s by (simp add: vetting_def)
  moreover have "at d t \<and> Q a" using triple_returned [OF assms(1) _ run] s by (simp add: vetting_def)
  moreover have "evolves (w_committed s) (w_committed t)"
    using keepsD [OF assms(2) run] s by (simp add: evolving_def vetting_def begun_def)
  ultimately show "vetting ops w0 d t \<and> Q a" using s by (auto simp: vetting_def intro: evolves_trans)
next
  fix s e t
  assume "vetting ops w0 d s" "m s = (Inl e, t)"
  then show "begun ops w0 t" using triple_raised [OF begun_keeps [OF assms(2-4)]] by (simp add: vetting_def) blast
qed

lemmas vetting_store = vetting_read [OF _ store_evolving store_talks keeps_mono [OF _ tracks_opens]]

lemma at_statuses: "returns (at d) (list_statuses sts) (\<lambda>us w. at d w \<and> (us = [] \<longrightarrow> (\<forall>st\<in>set sts. sql_intents_by_status st d = [])))"
proof -
  have "returns (\<lambda>w. at d w) (foldM (\<lambda>acc st. bindM (list_by_status st) (\<lambda>intents. returnM (acc @ intents))) acc sts)
      (\<lambda>us w. at d w \<and> us = acc @ concat (map (\<lambda>st. sql_intents_by_status st d) sts))" for acc
  proof (induction sts arbitrary: acc)
    case (Cons st sts)
    have step: "returns (at d) (bindM (list_by_status st) (\<lambda>intents. returnM (acc @ intents)))
        (\<lambda>r w. at d w \<and> r = acc @ sql_intents_by_status st d)"
      by (rule triple_bind [OF at_lists(1)]) (simp add: triple_def run_simps)
    show ?case
      unfolding foldM.simps
      by (rule triple_bind [OF step], rule triple_pure, simp only:, rule triple_weaken [OF Cons]) auto
  qed (simp add: triple_def run_simps)
  from this [of "[]"] show ?thesis
    unfolding list_statuses_def by (rule triple_weaken) auto
qed

lemma at_project: "returns (at d) project_local
   (\<lambda>p w. at d w \<and> project_ledger (db_fills d) (orders_by_id (all_mirrors d)) = Inr p)"
  unfolding project_local_def
  by (rule triple_bind [OF at_mirrors(2)], rule triple_pure, simp only:, rule triple_bind [OF at_lists(3)],
      rule triple_pure, simp only:, rule ret_lift) simp

text \<open>The same, having heard the answers \<open>X\<close>.\<close>

definition informed :: "'b broker_ops \<Rightarrow> 'b world \<Rightarrow> db \<Rightarrow> broker_answer set \<Rightarrow> 'b world \<Rightarrow> bool" where
  "informed ops w0 d X w \<longleftrightarrow> vetting ops w0 d w
     \<and> (\<exists>es. conversation ops (w_broker w0) es (w_broker w) \<and> X \<subseteq> set es)"

lemma vetting_informed: "vetting ops w0 d w \<Longrightarrow> informed ops w0 d {} w"
  by (auto simp: informed_def vetting_def begun_def talks_def)

lemma informed_call:
  assumes "\<And>b r c. x b = (r, c) \<Longrightarrow> replies ops b (said k r) c"
  shows "triple (informed ops w0 d X) (broker_call x) (\<lambda>a. informed ops w0 d (insert (k a) X)) (\<lambda>_. begun ops w0)"
proof -
  have call: "triple (vetting ops w0 d) (broker_call x) (\<lambda>_ w. vetting ops w0 d w \<and> True) (\<lambda>_. begun ops w0)"
  proof (rule vetting_read)
    show "returns (at d) (broker_call x) (\<lambda>_ w. at d w \<and> True)"
      using at_env_step by (intro ret_broker_call) (auto simp: at_def)
    show "keeps evolving (broker_call x)" by (rule quiet_evolving [OF broker_call_quiet])
    show "keeps (talks ops) (broker_call x)" by (rule call_talks) (use assms in blast)
  qed (rule opens_broker)
  show ?thesis
  proof (rule tripleI)
    fix s a t
    assume s: "informed ops w0 d X s" and run: "broker_call x s = (Inr a, t)"
    obtain es where es: "conversation ops (w_broker w0) es (w_broker s)" "X \<subseteq> set es" using s by (auto simp: informed_def)
    have "x (w_broker s) = (Inr a, w_broker t)"
      using run by (auto simp: broker_call_def Let_def split: prod.splits)
    from conversation.speaks [OF es(1) assms [OF this]] es(2) have
      "\<exists>es. conversation ops (w_broker w0) es (w_broker t) \<and> insert (k a) X \<subseteq> set es"
      by (intro exI [of _ "es @ [k a]"]) auto
    moreover have "vetting ops w0 d t" using triple_returned [OF call _ run] s by (simp add: informed_def)
    ultimately show "informed ops w0 d (insert (k a) X) t" by (simp add: informed_def)
  next
    fix s e t
    assume "informed ops w0 d X s" "broker_call x s = (Inl e, t)"
    then show "begun ops w0 t" using triple_raised [OF call] by (simp add: informed_def) blast
  qed
qed

lemma informed_begun: "informed ops w0 d X w \<Longrightarrow> begun ops w0 w"
  by (simp add: informed_def vetting_def)

lemma positions_heard:
  "triple (informed (eng_broker eng) w0 d {}) (assert_positions_agree eng p)
     (\<lambda>_ w. \<exists>ps. informed (eng_broker eng) w0 d {PositionsAre ps} w \<and> positions p = broker_quantities ps)
     (\<lambda>_. begun (eng_broker eng) w0)"
proof -
  have agree: "positions p = broker_quantities ps"
    if "set (map pp_symbol ps) = set (first_keys (map lot_symbol (proj_lots p)))"
      "\<not> list_ex (\<lambda>s. broker_quantities ps s \<noteq> positions p s) (first_keys (map lot_symbol (proj_lots p)))" for ps
  proof
    fix s
    have "set (first_keys (map lot_symbol (proj_lots p))) = set (map lot_symbol (proj_lots p))"
      by (simp add: first_keys_def)
    then show "positions p s = broker_quantities ps s"
      using that positions_outside [of s p] quantities_outside [of s ps]
      by (cases "s \<in> set (map lot_symbol (proj_lots p))") (auto simp: list_ex_iff)
  qed
  show ?thesis
    unfolding assert_positions_agree_def Let_def
    by (rule triple_bind [OF informed_call [where k = PositionsAre]], erule replies.positions,
        rule triple_if, simp add: triple_def run_simps informed_begun)
      (use agree in \<open>auto simp: triple_def run_simps\<close>)
qed

lemma assets_heard:
  "triple (informed (eng_broker eng) w0 d X) (assert_flatten_assets_tradable eng p)
     (\<lambda>_ w. \<exists>Y. X \<subseteq> Y \<and> informed (eng_broker eng) w0 d Y w
        \<and> (\<forall>l\<in>set (proj_lots p). \<exists>asset. AssetIs (lot_symbol l) asset \<in> Y \<and> asset_tradable asset))
     (\<lambda>_. begun (eng_broker eng) w0)"
proof -
  let ?I = "informed (eng_broker eng) w0 d" and ?E = "\<lambda>_. begun (eng_broker eng) w0"
  have one: "triple (?I Y) (bindM (broker_call (op_get_asset (eng_broker eng) symbol))
      (\<lambda>asset. if asset_tradable asset then returnM () else raiseM ControlPlaneError))
      (\<lambda>_ w. \<exists>asset. ?I (insert (AssetIs symbol asset) Y) w \<and> asset_tradable asset) ?E" for symbol Y
    by (rule triple_bind [OF informed_call [where k = "AssetIs symbol"]], erule replies.asset, rule triple_if)
      (auto simp: triple_def run_simps informed_begun)
  have "triple (?I Y) (foldM (\<lambda>_ symbol. bindM (broker_call (op_get_asset (eng_broker eng) symbol))
      (\<lambda>asset. if asset_tradable asset then returnM () else raiseM ControlPlaneError)) u symbols)
      (\<lambda>_ w. \<exists>Z. Y \<subseteq> Z \<and> ?I Z w \<and> (\<forall>s\<in>set symbols. \<exists>asset. AssetIs s asset \<in> Z \<and> asset_tradable asset)) ?E" for symbols Y u
  proof (induction symbols arbitrary: Y u)
    case (Cons s symbols)
    show ?case
      unfolding foldM.simps
      by (rule triple_bind [OF one], rule triple_ex, rule triple_pure, rule triple_weaken [OF Cons]) auto
  qed (auto simp: triple_def run_simps)
  from this [of X _ "first_keys (map lot_symbol (proj_lots p))"] show ?thesis
    unfolding assert_flatten_assets_tradable_def by (rule triple_weaken) (auto simp: first_keys_def)
qed

section \<open>No exit without agreement\<close>

definition agreed_exits :: "'b broker_ops \<Rightarrow> 'b world \<Rightarrow> 'b world \<Rightarrow> bool" where
  "agreed_exits ops w0 w \<longleftrightarrow> exits_agreed ops (w_committed w0) (w_broker w0) (w_committed w) (w_broker w)
     \<and> evolves (w_committed w) (w_working w)"

lemma exits_agreed_on:
  "exits_agreed ops d0 b0 d1 b1 \<Longrightarrow> evolves d1 d2 \<Longrightarrow> conversation ops b1 fs b2 \<Longrightarrow> exits_agreed ops d0 b0 d2 b2"
  unfolding exits_agreed_def
  by (elim exE conjE, intro exI conjI, assumption+, erule (1) evolves_trans, assumption+, erule (1) conversation_append) auto

lemma agreed_keeps_on:
  assumes "keeps evolving m" "keeps (talks ops) m"
  shows "triple (agreed_exits ops w0) m (\<lambda>_. agreed_exits ops w0) (\<lambda>_. agreed_exits ops w0)"
proof -
  have "keeps (\<lambda>s t. evolving s t \<and> talks ops s t) m" using assms by (simp add: keeps_def)
  then show ?thesis
    by (rule keeps_triple) (auto simp: agreed_exits_def evolving_def talks_def elim: exits_agreed_on)
qed

definition held_back :: "'b broker_ops \<Rightarrow> 'b world \<Rightarrow> 'b world \<Rightarrow> bool" where
  "held_back ops w0 w \<longleftrightarrow> begun ops w0 w \<or> agreed_exits ops w0 w"

lemma held_back_either:
  "triple (begun ops w0) m (\<lambda>_. begun ops w0) (\<lambda>_. begun ops w0) \<Longrightarrow>
   triple (agreed_exits ops w0) m (\<lambda>_. agreed_exits ops w0) (\<lambda>_. agreed_exits ops w0) \<Longrightarrow>
   triple (held_back ops w0) m (\<lambda>_. held_back ops w0) (\<lambda>_. held_back ops w0)"
  by (fastforce simp: triple_def held_back_def split: prod.splits sum.splits)

lemma fail_held_back:
  fixes eng :: "'b engine"
  shows "triple (held_back (eng_broker eng) w0) (fail_partially c reason actor n m e ids)
    (\<lambda>_. held_back (eng_broker eng) w0) (\<lambda>_. held_back (eng_broker eng) w0)"
  by (rule held_back_either [OF begun_keeps [OF ce.frame_fail tc.frame_fail on.frame_fail]
        agreed_keeps_on [OF ce.frame_fail tc.frame_fail]])

lemma preflight_agrees:
  fixes eng :: "'b engine"
  assumes "\<forall>st\<in>set UNRESOLVED_FLATTEN_STATUSES. sql_intents_by_status st d = []"
    and "project_ledger (db_fills d) (orders_by_id (all_mirrors d)) = Inr p"
  shows "triple (vetting (eng_broker eng) w0 d) (flatten_preflight eng prices p)
    (\<lambda>_. agreed_exits (eng_broker eng) w0) (\<lambda>_. held_back (eng_broker eng) w0)"
proof -
  let ?ops = "eng_broker eng"
  have agreed: "agreed_exits ?ops w0 w" if "PositionsAre ps \<in> Y" "informed ?ops w0 d Y w" "positions p = broker_quantities ps"
      "\<forall>l\<in>set (proj_lots p). \<exists>asset. AssetIs (lot_symbol l) asset \<in> Y \<and> asset_tradable asset" for ps Y w
    using that assms unfolding agreed_exits_def exits_agreed_def informed_def vetting_def begun_def by blast
  have raising: "triple P m Q (\<lambda>_. begun ?ops w0) \<Longrightarrow> triple P m Q (\<lambda>_. held_back ?ops w0)" for P Q and m :: "('b world, 'x) comp"
    by (erule triple_weaken) (auto simp: held_back_def)
  have positions: "triple (vetting ?ops w0 d) (assert_positions_agree eng p)
      (\<lambda>_ w. \<exists>ps. informed ?ops w0 d {PositionsAre ps} w \<and> positions p = broker_quantities ps) (\<lambda>_. held_back ?ops w0)"
    by (rule raising, rule triple_pre [OF positions_heard]) (rule vetting_informed)
  have assets: "triple (\<lambda>w. \<exists>ps. informed ?ops w0 d {PositionsAre ps} w \<and> positions p = broker_quantities ps)
      (assert_flatten_assets_tradable eng p) (\<lambda>_. agreed_exits ?ops w0) (\<lambda>_. held_back ?ops w0)"
    by (rule triple_ex, rule triple_pure, rule raising, rule triple_weaken [OF assets_heard]) (assumption, use agreed in auto)
  have rest: "triple (agreed_exits ?ops w0) m (\<lambda>_. agreed_exits ?ops w0) (\<lambda>_. held_back ?ops w0)"
    if "keeps evolving m" "keeps (talks ?ops) m" for m :: "('b world, 'x) comp"
    by (rule triple_weaken [OF agreed_keeps_on [OF that]]) (auto simp: held_back_def)
  show ?thesis
    unfolding flatten_preflight_def
    by (rule triple_bind [OF positions], rule triple_bind [OF assets], rule rest; intro ce.control_rules tc.control_rules
        ce.frame_checks tc.frame_checks)
qed

lemma exits_held_back:
  fixes eng :: "'b engine"
  assumes "\<forall>st\<in>set UNRESOLVED_FLATTEN_STATUSES. sql_intents_by_status st d = []"
  shows "triple (vetting (eng_broker eng) w0 d) (flatten_exits eng prices td reason actor)
    (\<lambda>_. held_back (eng_broker eng) w0) (\<lambda>_. held_back (eng_broker eng) w0)"
proof -
  let ?ops = "eng_broker eng" and ?H = "held_back (eng_broker eng) w0"
  have submit: "triple (agreed_exits ?ops w0) (bindM (each_until (flatten_exit eng td now until g) [] priced) (\<lambda>(failed, submitted).
      case failed of
        Some e \<Rightarrow> fail_partially FLATTEN_PAPER reason actor (length submitted) n e (map oi_client_order_id submitted)
      | None \<Rightarrow> bindM (record_command FLATTEN_PAPER reason actor True) (\<lambda>_. bindM uow_commit (\<lambda>_. returnM submitted))))
      (\<lambda>_. ?H) (\<lambda>_. ?H)" for now until g priced n
    by (rule triple_weaken [OF agreed_keeps_on [where ops = ?ops]], intro ce.control_rules ce.frame_fail ce.frame_exit ce.frame_record,
        intro tc.control_rules tc.frame_fail tc.frame_exit tc.frame_record) (auto simp: held_back_def)
  have project: "triple (vetting ?ops w0 d) project_local
      (\<lambda>p w. vetting ?ops w0 d w \<and> project_ledger (db_fills d) (orders_by_id (all_mirrors d)) = Inr p) (\<lambda>_. begun ?ops w0)"
    by (rule vetting_read [OF at_project ce.frame_checks(1) tc.frame_checks(1) on.frame_checks(1)])
  have preflight: "triple (vetting ?ops w0 d) (bindM (attemptM (flatten_preflight eng prices p)) (\<lambda>outcome.
      case outcome of
        Inl e \<Rightarrow> fail_partially FLATTEN_PAPER reason actor 0 (length (sorted_positions p)) e []
      | Inr (now, cancel_at, priced, generation) \<Rightarrow>
          bindM (each_until (flatten_exit eng td now cancel_at generation) [] priced) (\<lambda>(failed, submitted).
            case failed of
              Some e \<Rightarrow> fail_partially FLATTEN_PAPER reason actor (length submitted) (length (sorted_positions p)) e
                          (map oi_client_order_id submitted)
            | None \<Rightarrow> bindM (record_command FLATTEN_PAPER reason actor True) (\<lambda>_. bindM uow_commit (\<lambda>_. returnM submitted)))))
      (\<lambda>_. ?H) (\<lambda>_. ?H)"
    if "project_ledger (db_fills d) (orders_by_id (all_mirrors d)) = Inr p" for p
    by (rule triple_bind_attempt [OF preflight_agrees [OF assms that]])
      (auto split: prod.split simp: submit fail_held_back)
  show ?thesis
    unfolding flatten_exits_def Let_def
    by (rule triple_bind_attempt [OF project]; unfold sum.case; (rule triple_pure, rule preflight)?)
      (assumption, rule triple_pre [OF fail_held_back], simp add: held_back_def)
qed

lemma flatten_held_back:
  fixes eng :: "'b engine"
  assumes "settled w0"
  shows "triple (\<lambda>w. w = w0) (flatten_paper eng prices td reason actor confirmation)
    (\<lambda>_ w. held_back (eng_broker eng) w0 w) (\<lambda>_ w. held_back (eng_broker eng) w0 w)"
proof -
  let ?ops = "eng_broker eng" and ?H = "held_back (eng_broker eng) w0"
  have begun: "begun ?ops w0 w \<Longrightarrow> ?H w" for w by (simp add: held_back_def)
  have raising: "triple P m Q (\<lambda>_. begun ?ops w0) \<Longrightarrow> triple P m Q (\<lambda>_. ?H)" for P Q and m :: "('b world, 'x) comp"
    by (erule triple_weaken) (auto simp: held_back_def)
  note sweep = ready_sweep [THEN raising]
  have unresolved: "triple (ready ?ops w0) (bindM (list_statuses UNRESOLVED_FLATTEN_STATUSES) (\<lambda>unresolved.
      if unresolved \<noteq> []
      then fail_partially FLATTEN_PAPER reason actor 0 (length unresolved) ControlPlaneError []
      else flatten_exits eng prices td reason actor)) (\<lambda>_. ?H) (\<lambda>_. ?H)"
  proof (rule triple_pre [OF triple_ex])
    fix d
    show "triple (vetting ?ops w0 d) (bindM (list_statuses UNRESOLVED_FLATTEN_STATUSES) (\<lambda>unresolved.
        if unresolved \<noteq> []
        then fail_partially FLATTEN_PAPER reason actor 0 (length unresolved) ControlPlaneError []
        else flatten_exits eng prices td reason actor)) (\<lambda>_. ?H) (\<lambda>_. ?H)"
    proof (rule triple_bind [OF raising [OF vetting_read [OF at_statuses ce.frame_list tc.frame_list on.frame_list]]], rule triple_pure)
      fix us :: "order_intent list"
      assume us: "us = [] \<longrightarrow> (\<forall>st\<in>set UNRESOLVED_FLATTEN_STATUSES. sql_intents_by_status st d = [])"
      show "triple (vetting ?ops w0 d) (if us \<noteq> [] then fail_partially FLATTEN_PAPER reason actor 0 (length us) ControlPlaneError []
          else flatten_exits eng prices td reason actor) (\<lambda>_. ?H) (\<lambda>_. ?H)"
        by (rule triple_if, rule triple_pre [OF fail_held_back], simp add: held_back_def vetting_begun)
          (use us in \<open>simp add: exits_held_back\<close>)
    qed
  qed (auto dest: ready_vetting)
  show ?thesis
    unfolding flatten_paper_def
    by (rule triple_if, simp add: triple_def run_simps begun begun_start assms,
        rule triple_bind [OF raising [OF read_pause [OF assms]]], rule triple_if, simp add: triple_def run_simps begun,
        rule triple_pre [where P' = "ready ?ops w0"],
        rule triple_bind [OF sweep], rule resolve_settled, rule es.frame_operations, rule tc.frame_operations, rule oe.frame_operations,
        rule triple_bind [OF sweep], rule settled_request_cancel, rule es.frame_cancel, rule tc.frame_cancel, rule on.frame_cancel,
        rule triple_bind [OF sweep], rule settled_apply_fills, rule es.frame_cancel, rule tc.frame_cancel, rule on.frame_cancel,
        rule unresolved) simp
qed

end
