(* ===== verification/Trade_Updates.thy ===== *)
theory Trade_Updates
  imports Engine_Outcome
begin

text \<open>
  \<open>execution/trade_updates.py\<close>: the consumer of the broker's trade-update events.
  A fill is made durable before anything is derived from it; a conflict leaves an
  unresolved marker on the intent and a durable pause. \<open>uuid5\<close> in the consumer's
  namespace is the parameter \<open>u5\<close>.
\<close>

section \<open>Updates\<close>

datatype trade_update_outcome = APPLIED | DUPLICATE | STALE | UNKNOWN_ORDER

record order_status_update =
  ou_client_order_id :: string
  ou_broker_order_id :: string
  ou_status :: broker_order_status
  ou_filled_quantity :: int
  ou_observed_at :: utc

definition order_status_update_post_init :: "order_status_update \<Rightarrow> order_status_update outcome" where
  "order_status_update_post_init u =
     bindO (require (text_ok 100 (ou_broker_order_id u))) (\<lambda>_.
     bindO (require (0 \<le> ou_filled_quantity u)) (\<lambda>_. Inr u))"

datatype trade_update = StatusUpdate order_status_update | FillUpdate fill

definition fill_update :: "string \<Rightarrow> string \<Rightarrow> int \<Rightarrow> int \<Rightarrow> utc \<Rightarrow> trade_update outcome" where
  "fill_update execution_id broker_order_id quantity price_cents occurred_at =
     bindO (OrderQuantity quantity) (\<lambda>q.
     bindO (price_from_cents price_cents) (\<lambda>p.
     bindO (fill_post_init \<lparr>fl_execution_id = execution_id, fl_broker_order_id = broker_order_id,
              fl_quantity = q, fl_price = p, fl_occurred_at = occurred_at\<rparr>) (\<lambda>f.
     Inr (FillUpdate f))))"

section \<open>Durable conflict markers\<close>

definition conflict_pause_command_id :: "(string \<Rightarrow> uuid) \<Rightarrow> string \<Rightarrow> string \<Rightarrow> uuid" where
  "conflict_pause_command_id u5 cid conflict = u5 (cid @ [char_of (31 :: nat)] @ conflict)"

definition persist_conflict_marker :: "string \<Rightarrow> ('b world, unit) comp" where
  "persist_conflict_marker cid =
     bindM (orders_get cid) (\<lambda>found.
       case found of
         None \<Rightarrow> raiseM TradeUpdateError
       | Some intent \<Rightarrow>
           if oi_status intent \<in> {UNKNOWN, REVIEW_REQUIRED} then returnM ()
           else catchM (bindM (transition_status cid REVIEW_REQUIRED) (\<lambda>_. uow_commit))
                  (\<lambda>_. rollback_and_raise TradeUpdateError))"

definition persist_conflict_pause :: "(string \<Rightarrow> uuid) \<Rightarrow> string \<Rightarrow> string \<Rightarrow> ('b world, unit) comp" where
  "persist_conflict_pause u5 cid conflict =
     bindM (catchM (persist_conflict_marker cid) (\<lambda>marker_error.
              if marker_error = TradeUpdateError then
                bindM (catchM (persist_safety_pause (''reconciliation required; '' @ conflict))
                         (\<lambda>_. raiseM TradeUpdateError)) (\<lambda>_.
                raiseM TradeUpdateError)
              else raiseM marker_error)) (\<lambda>_.
     bindM (catchM (bindM (set_entries_paused True (Some (''reconciliation required; '' @ conflict)))
                      (\<lambda>_. uow_commit))
              (\<lambda>_. rollback_and_raise TradeUpdateError)) (\<lambda>_.
     bindM (catchM
              (bindM control_read (\<lambda>state.
               bindM (liftM (control_command_post_init
                        \<lparr>cc_command_id = conflict_pause_command_id u5 cid conflict,
                         cc_command = PAUSE_ENTRIES, cc_reason = ''automatic pause on '' @ conflict,
                         cc_actor = ''trade_update_consumer'', cc_run_id = None,
                         cc_requested_at = cs_updated_at state,
                         cc_applied_at = Some (cs_updated_at state)\<rparr>)) (\<lambda>c.
               bindM (add_command c) (\<lambda>_. returnM ()))))
              (\<lambda>_. rollback_and_raise TradeUpdateError)) (\<lambda>_.
     catchM uow_commit (\<lambda>_. rollback_and_raise TradeUpdateError))))"

text \<open>
  The \<open>except\<close> arms of both handlers: roll back, mark and pause, raise a typed
  error. The arm for \<open>TradeUpdateError\<close> re-raises it, the other wraps the
  exception in one.
\<close>

definition surface_conflict :: "(string \<Rightarrow> uuid) \<Rightarrow> string \<Rightarrow> string \<Rightarrow> ('b world, 'a) comp" where
  "surface_conflict u5 cid conflict =
     bindM (suppressM uow_rollback) (\<lambda>_.
     bindM (persist_conflict_pause u5 cid conflict) (\<lambda>_. raiseM TradeUpdateError))"

section \<open>Fill updates\<close>

definition fill_broker_target :: "broker_order \<Rightarrow> int \<Rightarrow> broker_order_status outcome" where
  "fill_broker_target mirror new_filled =
     (if bo_status mirror \<in> set TERMINAL_BROKER_ORDER_STATUSES \<or> bo_status mirror \<in> set REVIEW_BROKER_ORDER_STATUSES
      then Inr (bo_status mirror)
      else if bo_status mirror = B_PENDING_CANCEL then Inr B_PENDING_CANCEL
      else
        let candidate = (if new_filled = bo_quantity mirror then B_FILLED
                         else if new_filled > 0 then B_PARTIALLY_FILLED else bo_status mirror)
        in if candidate \<noteq> bo_status mirror
           then if \<not> broker_order_transition_allowed (bo_status mirror) candidate then Inl TradeUpdateError
                else Inr candidate
           else Inr (bo_status mirror))"

definition fill_intent_target :: "broker_order_status \<Rightarrow> order_status \<Rightarrow> order_status" where
  "fill_intent_target broker_target current =
     (if broker_target = B_FILLED then FILLED
      else if broker_target = B_PARTIALLY_FILLED then PARTIALLY_FILLED
      else if broker_target = B_PENDING_CANCEL then CANCEL_PENDING
      else current)"

definition fill_intent_step :: "string \<Rightarrow> broker_order_status \<Rightarrow> ('b world, unit) comp" where
  "fill_intent_step cid broker_target =
     bindM (orders_get cid) (\<lambda>found.
       case found of
         None \<Rightarrow> returnM ()
       | Some intent \<Rightarrow>
           let intent_target = fill_intent_target broker_target (oi_status intent) in
           if intent_target \<noteq> oi_status intent then
             if \<not> order_transition_allowed (oi_status intent) intent_target then raiseM TradeUpdateError
             else bindM (transition_status cid intent_target) (\<lambda>_. returnM ())
           else returnM ())"

text \<open>The body of the \<open>try\<close>: what follows from the fill once it is durable.\<close>

definition derive_from_fill :: "broker_order \<Rightarrow> fill \<Rightarrow> ('b world, trade_update_outcome) comp" where
  "derive_from_fill mirror f =
     bindM (list_fills (bo_broker_order_id mirror)) (\<lambda>fills.
       let total = sum_list (map fl_quantity fills);
           new_filled = (if bo_filled_quantity mirror > total then bo_filled_quantity mirror else total) in
       if new_filled > bo_quantity mirror then raiseM TradeUpdateError
       else
         let new_observed = (if fl_occurred_at f > bo_updated_at mirror then Some (fl_occurred_at f) else None) in
         bindM (liftM (fill_broker_target mirror new_filled)) (\<lambda>broker_target.
           if broker_target = bo_status mirror \<and> new_filled = bo_filled_quantity mirror \<and> new_observed = None
           then returnM APPLIED
           else
             bindM (update_broker_order_status (bo_broker_order_id mirror) broker_target new_filled new_observed) (\<lambda>_.
             bindM (fill_intent_step (bo_client_order_id mirror) broker_target) (\<lambda>_.
             bindM uow_commit (\<lambda>_. returnM APPLIED)))))"

definition apply_fill :: "(string \<Rightarrow> uuid) \<Rightarrow> fill \<Rightarrow> ('b world, trade_update_outcome) comp" where
  "apply_fill u5 f =
     bindM (get_broker_order_by_id (fl_broker_order_id f)) (\<lambda>found.
       case found of
         None \<Rightarrow> returnM UNKNOWN_ORDER
       | Some mirror \<Rightarrow>
           bindM (add_fill f) (\<lambda>inserted.
             if \<not> inserted then
               bindM (get_fill_by_execution_id (fl_execution_id f)) (\<lambda>existing.
                 if existing \<noteq> Some f then surface_conflict u5 (bo_client_order_id mirror) ''conflicting fill''
                 else bindM uow_commit (\<lambda>_. returnM DUPLICATE))
             else
               bindM uow_commit (\<lambda>_.
                 catchM (derive_from_fill mirror f)
                   (\<lambda>_. surface_conflict u5 (bo_client_order_id mirror) ''conflicting fill''))))"

section \<open>Status updates\<close>

text \<open>\<open>_transition_intent\<close>: a cancellation the engine did not ask for passes through \<open>CANCEL_PENDING\<close>.\<close>

definition transition_intent :: "string \<Rightarrow> order_status \<Rightarrow> order_status \<Rightarrow> ('b world, unit) comp" where
  "transition_intent cid current target =
     bindM (if \<not> order_transition_allowed current target then
              if target = CANCELED \<and> order_transition_allowed current CANCEL_PENDING
              then bindM (transition_status cid CANCEL_PENDING) (\<lambda>_. returnM ())
              else raiseM TradeUpdateError
            else returnM ()) (\<lambda>_.
     bindM (transition_status cid target) (\<lambda>_. returnM ()))"

definition status_intent_target :: "order_intent \<Rightarrow> broker_order_status \<Rightarrow> order_status" where
  "status_intent_target intent st =
     (let target = INTENT_STATUS_BY_BROKER_STATUS st
      in if target = ACKNOWLEDGED \<and> oi_status intent \<in> {PARTIALLY_FILLED, CANCEL_PENDING}
         then oi_status intent else target)"

text \<open>The re-check of the database guards before the write.\<close>

definition status_update_checks :: "broker_order \<Rightarrow> order_status_update \<Rightarrow> unit outcome" where
  "status_update_checks mirror u =
     (if ou_observed_at u = bo_updated_at mirror then Inl TradeUpdateError
      else if ou_filled_quantity u < bo_filled_quantity mirror then Inl TradeUpdateError
      else if ou_filled_quantity u > bo_quantity mirror then Inl TradeUpdateError
      else if ou_status u = B_FILLED \<and> ou_filled_quantity u \<noteq> bo_quantity mirror then Inl TradeUpdateError
      else if ou_status u \<noteq> bo_status mirror then assert_broker_order_transition (bo_status mirror) (ou_status u)
      else Inr ())"

definition write_status :: "order_intent \<Rightarrow> broker_order \<Rightarrow> order_status_update \<Rightarrow> ('b world, trade_update_outcome) comp" where
  "write_status intent mirror u =
     bindM (liftM (status_update_checks mirror u)) (\<lambda>_.
     bindM (update_broker_order_status (bo_broker_order_id mirror) (ou_status u) (ou_filled_quantity u)
              (Some (ou_observed_at u))) (\<lambda>_.
     let intent_target = status_intent_target intent (ou_status u) in
     bindM (if intent_target \<noteq> oi_status intent
            then transition_intent (ou_client_order_id u) (oi_status intent) intent_target
            else returnM ()) (\<lambda>_.
     bindM uow_commit (\<lambda>_. returnM APPLIED))))"

definition apply_status :: "(string \<Rightarrow> uuid) \<Rightarrow> order_status_update \<Rightarrow> ('b world, trade_update_outcome) comp" where
  "apply_status u5 u =
     bindM (orders_get (ou_client_order_id u)) (\<lambda>found.
       case found of
         None \<Rightarrow> returnM UNKNOWN_ORDER
       | Some intent \<Rightarrow>
           bindM (get_broker_order (ou_client_order_id u)) (\<lambda>found.
             case found of
               None \<Rightarrow> returnM UNKNOWN_ORDER
             | Some mirror \<Rightarrow>
                 if bo_broker_order_id mirror \<noteq> ou_broker_order_id u then returnM UNKNOWN_ORDER
                 else if ou_observed_at u < bo_updated_at mirror then returnM STALE
                 else if ou_status u = bo_status mirror \<and> ou_filled_quantity u = bo_filled_quantity mirror
                 then returnM DUPLICATE
                 else catchM (write_status intent mirror u)
                        (\<lambda>_. surface_conflict u5 (ou_client_order_id u) ''conflicting status'')))"

fun apply_update :: "(string \<Rightarrow> uuid) \<Rightarrow> trade_update \<Rightarrow> ('b world, trade_update_outcome) comp" where
  "apply_update u5 (FillUpdate f) = apply_fill u5 f"
| "apply_update u5 (StatusUpdate u) = apply_status u5 u"

section \<open>What every update keeps\<close>

lemmas consumer_rules = store_intros sf.tf.keeps_rules

lemma store_conflict [store_intros]:
  "keeps store_frame (persist_conflict_pause u5 cid c)" "keeps store_frame (surface_conflict u5 cid c)"
  unfolding surface_conflict_def persist_conflict_pause_def persist_conflict_marker_def rollback_and_raise_def
  by (intro consumer_rules; (erule evolve_intros)?)+

lemma store_fill [store_intros]: "keeps store_frame (derive_from_fill m f)"
  unfolding derive_from_fill_def fill_intent_step_def Let_def
  by (intro consumer_rules; (erule evolve_intros)?)

lemma store_status [store_intros]: "keeps store_frame (write_status i m u)"
  unfolding write_status_def transition_intent_def Let_def
  by (intro consumer_rules; (erule evolve_intros)?)

lemma store_update: "keeps store_frame (apply_update u5 u)"
proof (cases u)
  case (StatusUpdate x)
  show ?thesis unfolding StatusUpdate apply_update.simps apply_status_def
    by (intro store_conflict store_status consumer_rules)
next
  case (FillUpdate x)
  show ?thesis unfolding FillUpdate apply_update.simps apply_fill_def
    by (intro store_conflict store_fill consumer_rules)
qed

lemma surface_never_returns: "returns P (surface_conflict u5 cid c) Q"
  unfolding surface_conflict_def
  by (intro triple_bind [OF returns_any]) (simp add: triple_def run_simps)

section \<open>A fill, once known, stays known\<close>

definition fill_known :: "fill \<Rightarrow> db \<Rightarrow> bool" where
  "fill_known f d \<longleftrightarrow> find_fill (fl_execution_id f) d = Some f
     \<and> find_row_by_id (fl_broker_order_id f) d \<noteq> None"

lemma evolves_fill_known: "evolves d d' \<Longrightarrow> fill_known f d \<Longrightarrow> fill_known f d'"
  by (fastforce simp: evolves_def fill_known_def grows_def find_fill_def find_append)

lemma fill_known_env_step [simp]:
  "fill_known f (w_committed (env_step w)) = fill_known f (w_committed w)"
  "fill_known f (w_working (env_step w)) = fill_known f (w_working w)"
  by (simp_all add: fill_known_def)

lemma known_keeps:
  assumes "keeps store_frame m"
  shows "triple (\<lambda>w. settled w \<and> fill_known f (w_committed w)) m
    (\<lambda>_ w. fill_known f (w_committed w)) (\<lambda>_ w. fill_known f (w_committed w))"
  using assms by (rule keeps_triple)
    (auto simp: settled_def store_frame_def evolving_def intro: evolves_fill_known)

lemma ret_add_fill:
  assumes "\<And>w. P w \<Longrightarrow> find_row_by_id (fl_broker_order_id f) (w_working w) \<noteq> None"
  shows "returns P (add_fill f) (\<lambda>inserted w. \<not> w_aborted w \<and>
    find_row_by_id (fl_broker_order_id f) (w_working w) \<noteq> None
    \<and> (inserted \<longrightarrow> fill_known f (w_working w)))"
  unfolding add_fill_def
proof (rule triple_bind)
  let ?R = "\<lambda>inserted w. \<not> w_aborted w \<and> find_row_by_id (fl_broker_order_id f) (w_working w) \<noteq> None
    \<and> (inserted \<longrightarrow> fill_known f (w_working w))"
  show "returns P (statement (sql_insert_fill f)) ?R"
    by (rule ret_statement)
      (use assms in \<open>auto simp: sql_insert_fill_def fill_known_def find_fill_def find_append find_row_by_id_def
        split: if_splits\<close>)
  show "returns (?R inserted) (if inserted then bindM mark_write (\<lambda>_. returnM True) else returnM False) ?R" for inserted
    by (simp add: triple_def run_simps mark_write_def)
qed

lemma apply_fill_known:
  "returns settled (apply_fill u5 f) (\<lambda>r w. r \<noteq> UNKNOWN_ORDER \<longrightarrow> fill_known f (w_committed w))"
  unfolding apply_fill_def
proof (rule triple_bind)
  let ?row = "\<lambda>w. find_row_by_id (fl_broker_order_id f) (w_working w) \<noteq> None"
  let ?Q = "\<lambda>r w. r \<noteq> UNKNOWN_ORDER \<longrightarrow> fill_known f (w_committed w)"
  show "returns settled (get_broker_order_by_id (fl_broker_order_id f)) (\<lambda>found w. found \<noteq> None \<longrightarrow> ?row w)"
    by (rule ret_mirror_by_id) simp
  have dup: "returns (\<lambda>w. ?row w) (bindM (get_fill_by_execution_id (fl_execution_id f)) (\<lambda>existing.
      if existing \<noteq> Some f then surface_conflict u5 cid c else bindM uow_commit (\<lambda>_. returnM DUPLICATE))) ?Q" for cid c
  proof (rule triple_bind)
    let ?R = "\<lambda>existing w. \<not> w_aborted w \<and> (existing = Some f \<longrightarrow> fill_known f (w_working w))"
    show "returns (\<lambda>w. ?row w) (get_fill_by_execution_id (fl_execution_id f)) ?R"
      by (rule ret_fill) (simp add: fill_known_def)
    show "returns (?R existing) (if existing \<noteq> Some f then surface_conflict u5 cid c
        else bindM uow_commit (\<lambda>_. returnM DUPLICATE)) ?Q" for existing
      by (intro triple_if surface_never_returns triple_bind [where R = "\<lambda>_ w. fill_known f (w_committed w)"], rule ret_commit)
        (auto simp: triple_def run_simps)
  qed
  have new: "returns (\<lambda>w. \<not> w_aborted w \<and> fill_known f (w_working w)) (bindM uow_commit (\<lambda>_.
      catchM (derive_from_fill m f) (\<lambda>_. surface_conflict u5 cid c))) ?Q" for m cid c
  proof (rule triple_bind)
    show "returns (\<lambda>w. \<not> w_aborted w \<and> fill_known f (w_working w)) uow_commit
        (\<lambda>_ w. settled w \<and> fill_known f (w_committed w))"
      by (rule ret_commit) simp
    show "returns (\<lambda>w. settled w \<and> fill_known f (w_committed w))
        (catchM (derive_from_fill m f) (\<lambda>_. surface_conflict u5 cid c)) ?Q"
      by (rule triple_catch [OF triple_weaken [OF known_keeps [OF store_fill]] surface_never_returns]) auto
  qed
  show "returns (\<lambda>w. found \<noteq> None \<longrightarrow> ?row w) (case found of None \<Rightarrow> returnM UNKNOWN_ORDER
      | Some mirror \<Rightarrow> bindM (add_fill f) (\<lambda>inserted.
             if \<not> inserted then
               bindM (get_fill_by_execution_id (fl_execution_id f)) (\<lambda>existing.
                 if existing \<noteq> Some f then surface_conflict u5 (bo_client_order_id mirror) ''conflicting fill''
                 else bindM uow_commit (\<lambda>_. returnM DUPLICATE))
             else
               bindM uow_commit (\<lambda>_.
                 catchM (derive_from_fill mirror f)
                   (\<lambda>_. surface_conflict u5 (bo_client_order_id mirror) ''conflicting fill'')))) ?Q" for found
    by (intro triple_case_option triple_bind [OF ret_add_fill] triple_if dup [THEN triple_pre] new [THEN triple_pre])
      (auto simp: triple_def run_simps)
qed

section \<open>Redelivery\<close>

text \<open>Nothing but the control row differs from \<open>d0\<close>, committed or not.\<close>

definition pinned :: "db \<Rightarrow> db \<Rightarrow> db \<Rightarrow> bool" where
  "pinned d0 d d' \<longleftrightarrow> (control_only d0 d \<longrightarrow> control_only d0 d')"

definition unmoved :: "db \<Rightarrow> 'b world \<Rightarrow> bool" where
  "unmoved d0 w \<longleftrightarrow> control_only d0 (w_committed w) \<and> control_only d0 (w_working w)"

lemma control_only_keeps [simp]: "control_only d0 (d\<lparr>db_control := s\<rparr>) = control_only d0 d"
proof
  assume "control_only d0 (d\<lparr>db_control := s\<rparr>)"
  then have "control_only d0 (d\<lparr>db_control := s, db_control := db_control d\<rparr>)"
    by (rule control_only_update)
  then show "control_only d0 d" by simp
qed (rule control_only_update)

interpretation pn: db_frame "pinned d0" for d0
  by unfold_locales (auto simp: pinned_def dest!: sql_pause_db)

lemma unmoved_keeps: "keeps (tracks (pinned d0)) m \<Longrightarrow> triple (unmoved d0) m (\<lambda>_. unmoved d0) (\<lambda>_. unmoved d0)"
  by (erule keeps_triple) (auto simp: unmoved_def tracks_def pinned_def)

lemma unmoved_known: "unmoved d0 w \<Longrightarrow> fill_known f d0 \<Longrightarrow> fill_known f (w_working w)"
  by (auto simp: unmoved_def control_only_def fill_known_def find_fill_def find_row_by_id_def)

lemma unmoved_read:
  assumes "keeps (tracks (pinned d0)) m" "returns (unmoved d0) m (\<lambda>a _. Q a)"
  shows "triple (unmoved d0) m (\<lambda>a w. Q a \<and> unmoved d0 w) (\<lambda>_. unmoved d0)"
  by (rule triple_weaken [OF triple_conj [OF unmoved_keeps [OF assms(1)] assms(2)]]) auto

lemma redelivered_fill:
  assumes "fill_known f d0"
  shows "triple (unmoved d0) (apply_fill u5 f) (\<lambda>r w. r = DUPLICATE \<and> unmoved d0 w) (\<lambda>_. unmoved d0)"
proof -
  have known: "find_fill (fl_execution_id f) (w_working w) = Some f"
      "find_row_by_id (fl_broker_order_id f) (w_working w) \<noteq> None" if "unmoved d0 w" for w
    using unmoved_known [OF that assms] by (auto simp: fill_known_def)
  have insert: "sql_insert_fill f now d = Inr (a, d') \<Longrightarrow> control_only d0 d \<Longrightarrow> d' = d" for now d a d'
    using assms by (auto simp: sql_insert_fill_def fill_known_def control_only_def find_fill_def split: if_splits)
  have "keeps (tracks (pinned d0)) (statement (sql_insert_fill f))"
    by (rule pn.tracks_statement) (auto simp: pinned_def dest: insert)
  then have frame: "keeps (tracks (pinned d0)) (add_fill f)"
    unfolding add_fill_def by (intro pn.tracks_rules)
  have "returns (unmoved d0) (statement (sql_insert_fill f)) (\<lambda>inserted _. \<not> inserted)"
    by (rule ret_statement) (auto simp: sql_insert_fill_def known split: if_splits)
  then have "returns (unmoved d0) (add_fill f) (\<lambda>inserted _. \<not> inserted)"
    unfolding add_fill_def by (rule triple_bind) (auto simp: triple_def run_simps)
  note add = unmoved_read [OF frame this]
  have "returns (unmoved d0) (get_broker_order_by_id (fl_broker_order_id f)) (\<lambda>found _. found \<noteq> None)"
    by (rule ret_mirror_by_id) (simp add: known)
  note mirror = unmoved_read [OF pn.tracks_reads(4) this]
  have "returns (unmoved d0) (get_fill_by_execution_id (fl_execution_id f)) (\<lambda>found _. found = Some f)"
    by (rule ret_fill) (simp add: known)
  note found = unmoved_read [OF pn.tracks_reads(5) this]
  have commit: "triple (unmoved d0) (bindM uow_commit (\<lambda>_. returnM DUPLICATE))
      (\<lambda>r w. r = DUPLICATE \<and> unmoved d0 w) (\<lambda>_. unmoved d0)"
    by (rule triple_bind [OF unmoved_keeps [OF pn.tracks_ends(1)]]) (simp add: triple_def run_simps)
  show ?thesis
    unfolding apply_fill_def
    by (rule triple_bind [OF mirror], rule triple_case_option, simp, rule triple_bind, rule add [THEN triple_pre], simp,
        rule triple_if, rule triple_bind, rule found [THEN triple_pre], simp, rule triple_if, simp,
        rule triple_pre [OF commit], simp_all)
qed

section \<open>A raised conflict\<close>

text \<open>Code that never raises \<open>TradeUpdateError\<close> of its own.\<close>

definition plain :: "'a outcome \<Rightarrow> bool" where
  "plain r \<longleftrightarrow> r \<noteq> Inl TradeUpdateError"

lemma plain_rules:
  "plain (Inr a)" "plain (require b)" "(b \<Longrightarrow> plain r) \<Longrightarrow> (\<not> b \<Longrightarrow> plain s) \<Longrightarrow> plain (if b then r else s)"
  "plain q \<Longrightarrow> (\<And>a. plain (h a)) \<Longrightarrow> plain (bindO q h)"
  by (auto simp: plain_def require_def bindO_def split: sum.split)

lemma plain_raise: "plain (Inl ValueError)" "plain (Inl DatabaseError)" "plain (Inl PersistenceInvariantError)"
  by (simp_all add: plain_def)

lemma plain_values:
  "plain (ClientOrderId c)" "plain (Symbol c)" "plain (OrderQuantity q)" "plain (Price x)"
  unfolding ClientOrderId_def Symbol_def OrderQuantity_def
  by (intro plain_rules plain_raise)+ (cases x; simp add: plain_def)

lemma plain_loads: "plain (load_broker_order r)" "plain (load_fill f)"
  unfolding load_broker_order_def load_fill_def broker_order_post_init_def fill_post_init_def Let_def
  by (intro plain_rules plain_values)+

definition untyped :: "('s, 'a) comp \<Rightarrow> bool" where
  "untyped m \<longleftrightarrow> (\<forall>w. plain (fst (m w)))"

lemma untyped_rules:
  "untyped (returnM a)" "plain r \<Longrightarrow> untyped (liftM r)"
  "untyped m \<Longrightarrow> (\<And>a. untyped (h a)) \<Longrightarrow> untyped (bindM m h)"
  "(b \<Longrightarrow> untyped m) \<Longrightarrow> (\<not> b \<Longrightarrow> untyped n) \<Longrightarrow> untyped (if b then m else n)"
proof -
  show "untyped m \<Longrightarrow> (\<And>a. untyped (h a)) \<Longrightarrow> untyped (bindM m h)"
    unfolding untyped_def run_simps plain_def by (auto split: prod.split sum.split) (metis fst_conv)
qed (auto simp: untyped_def run_simps plain_def)

lemma untyped_statement: "(\<And>now d. f now d \<noteq> Inl TradeUpdateError) \<Longrightarrow> untyped (statement f)"
  by (auto simp: untyped_def plain_def statement_def Let_def split: fault.split sum.split)

lemma plain_option: "(\<And>a. plain (load a)) \<Longrightarrow> plain (optionO load x)"
  by (cases x) (auto simp: optionO_def intro: plain_rules)

lemma untyped_reads:
  "untyped (get_broker_order_by_id bid)" "untyped (get_fill_by_execution_id eid)" "untyped (get_broker_order cid)"
  unfolding get_broker_order_by_id_def get_fill_by_execution_id_def get_broker_order_def query_def
  by (intro untyped_rules untyped_statement plain_option plain_loads; simp)+

lemma untyped_writes: "untyped (add_fill f)" "untyped uow_commit"
proof -
  have "untyped (statement (sql_insert_fill f))"
    by (rule untyped_statement) (simp add: sql_insert_fill_def)
  moreover have "untyped mark_write" by (simp add: untyped_def mark_write_def run_simps plain_def)
  ultimately show "untyped (add_fill f)" unfolding add_fill_def by (intro untyped_rules)
  show "untyped uow_commit"
    by (auto simp: untyped_def plain_def uow_commit_def Let_def split: fault.split)
qed

text \<open>Postconditions for a \<open>TradeUpdateError\<close> only.\<close>

abbreviation conflicts :: "('s \<Rightarrow> bool) \<Rightarrow> ('s, 'a) comp \<Rightarrow> ('a \<Rightarrow> 's \<Rightarrow> bool) \<Rightarrow> ('s \<Rightarrow> bool) \<Rightarrow> bool" where
  "conflicts P m Q E \<equiv> triple P m Q (\<lambda>e w. e = TradeUpdateError \<longrightarrow> E w)"

lemma untyped_conflicts:
  assumes "untyped m" "returns P m Q"
  shows "conflicts P m Q E"
proof (rule tripleI)
  show "P s \<Longrightarrow> m s = (Inr a, t) \<Longrightarrow> Q a t" for s a t using assms(2) by (rule triple_returned)
  show "P s \<Longrightarrow> m s = (Inl e, t) \<Longrightarrow> e = TradeUpdateError \<longrightarrow> E t" for s e t
    using assms(1) by (auto simp: untyped_def plain_def) (metis fst_conv)
qed

text \<open>The fill is durable before anything can be derived from it.\<close>

lemma conflict_fill_durable:
  "conflicts (\<lambda>w. settled w \<and> find_fill (fl_execution_id f) (w_committed w) = None) (apply_fill u5 f)
     (\<lambda>_ _. True) (\<lambda>w. fill_known f (w_committed w))"
proof -
  let ?new = "\<lambda>w. find_fill (fl_execution_id f) (w_working w) = None"
  let ?row = "\<lambda>w. find_row_by_id (fl_broker_order_id f) (w_working w) \<noteq> None"
  let ?known = "\<lambda>w. fill_known f (w_committed w)"
  have mirror: "conflicts (\<lambda>w. settled w \<and> find_fill (fl_execution_id f) (w_committed w) = None)
      (get_broker_order_by_id (fl_broker_order_id f)) (\<lambda>found w. found \<noteq> None \<longrightarrow> ?new w \<and> ?row w) ?known"
    by (rule untyped_conflicts [OF untyped_reads(1)], rule ret_mirror_by_id) (simp add: settled_def)
  have add: "conflicts (\<lambda>w. ?new w \<and> ?row w) (add_fill f)
      (\<lambda>inserted w. inserted \<and> \<not> w_aborted w \<and> fill_known f (w_working w)) ?known"
  proof (rule untyped_conflicts [OF untyped_writes(1)])
    have "returns (\<lambda>w. ?new w \<and> ?row w) (statement (sql_insert_fill f)) (\<lambda>inserted w. inserted)"
      by (rule ret_statement) (auto simp: sql_insert_fill_def split: if_splits)
    then have "returns (\<lambda>w. ?new w \<and> ?row w) (add_fill f) (\<lambda>inserted w. inserted)"
      unfolding add_fill_def by (rule triple_bind) (simp add: triple_def run_simps mark_write_def)
    from triple_conj [OF this ret_add_fill]
    show "returns (\<lambda>w. ?new w \<and> ?row w) (add_fill f) (\<lambda>inserted w. inserted \<and> \<not> w_aborted w \<and> fill_known f (w_working w))"
      by (rule triple_weaken) auto
  qed
  have commit: "conflicts (\<lambda>w. \<not> w_aborted w \<and> fill_known f (w_working w)) uow_commit
      (\<lambda>_ w. settled w \<and> ?known w) ?known"
    by (rule untyped_conflicts [OF untyped_writes(2)], rule ret_commit) simp
  have derive: "conflicts (\<lambda>w. settled w \<and> ?known w)
      (catchM (derive_from_fill m f) (\<lambda>_. surface_conflict u5 cid c)) (\<lambda>_ _. True) ?known" for m cid c
    by (rule triple_weaken [OF known_keeps]) (intro sf.tf.keeps_rules store_fill store_conflict, auto)
  show ?thesis
    unfolding apply_fill_def
    by (rule triple_bind [OF mirror], rule triple_case_option, simp add: triple_def run_simps, rule triple_bind,
        rule add [THEN triple_pre], simp, rule triple_if, simp, rule triple_bind [OF commit [THEN triple_pre]], simp,
        rule derive)
qed

section \<open>Without faults a conflict always pauses\<close>

text \<open>A connection without faults, whatever is uncommitted on it.\<close>

definition sound :: "'b world \<Rightarrow> bool" where
  "sound w \<longleftrightarrow> alive w \<and> evolves (w_committed w) (w_working w) \<and> 0 \<le> cs_flatten_generation (db_control (w_committed w))"

lemma sound_store: "keeps store_frame m \<Longrightarrow> triple sound m (\<lambda>_. sound) (\<lambda>_. sound)"
  by (erule keeps_triple) (auto simp: sound_def store_frame_def evolving_def evolves_def)

lemma sound_env_step: "sound w \<Longrightarrow> sound (env_step w)"
  using env_step_frame [of w] by (auto simp: sound_def store_frame_def evolving_def evolves_def)

lemma sound_generation: "sound w \<Longrightarrow> 0 \<le> cs_flatten_generation (db_control (w_working w))"
  by (auto simp: sound_def evolves_def)

lemma alive_faults_env: "alive w \<Longrightarrow> w_faults (env_step w) n = NoFault"
  using alive_faults(1) [of "env_step w"] by simp

lemma set_paused_works:
  assumes r: "btrim_nonempty r" "length r \<le> 200" "\<not> blank r"
  shows "triple (\<lambda>w. sound w \<and> \<not> w_aborted w) (set_entries_paused True (Some r))
    (\<lambda>_ w. alive w \<and> \<not> w_aborted w \<and> w_locked w \<and> cs_entries_paused (db_control (w_working w))) (\<lambda>_ _. False)"
proof -
  have "control_state_post_init (s\<lparr>cs_entries_paused := True, cs_paused_reason := Some r, cs_updated_at := t\<rparr>)
      = Inr (s\<lparr>cs_entries_paused := True, cs_paused_reason := Some r, cs_updated_at := t\<rparr>)"
    if "0 \<le> cs_flatten_generation s" for s t
    using that r by (simp add: control_state_post_init_def MAX_REASON_LENGTH_def)
  note post = this
  show ?thesis
    unfolding triple_def
  proof (intro allI impI)
    fix w :: "'a world"
    assume w: "sound w \<and> \<not> w_aborted w"
    then have "alive w" "0 \<le> cs_flatten_generation (db_control (w_working (env_step w)))"
      using sound_env_step [of w] by (simp_all add: sound_generation) (simp add: sound_def)
    then show "case set_entries_paused True (Some r) w of
        (Inl e, t) \<Rightarrow> False
      | (Inr a, t) \<Rightarrow> alive t \<and> \<not> w_aborted t \<and> w_locked t \<and> cs_entries_paused (db_control (w_working t))"
      using w r post by (simp add: set_entries_paused_def run_simps statement_def Let_def sql_pause_entries_def
          alive_faults alive_faults_env take_lock_def mark_write_def)
  qed
qed

lemma pause_works:
  assumes "btrim_nonempty r" "length r \<le> 200" "\<not> blank r"
  shows "triple (\<lambda>w. sound w \<and> \<not> w_aborted w) (bindM (set_entries_paused True (Some r)) (\<lambda>_. uow_commit))
    (\<lambda>_ w. settled w \<and> paused w) (\<lambda>_ _. False)"
  by (rule triple_bind [OF set_paused_works [OF assms]])
    (auto simp: triple_def uow_commit_def Let_def settled_def paused_def alive_faults)

lemma safety_pause_works:
  assumes "btrim_nonempty r" "length r \<le> 200" "\<not> blank r"
  shows "triple (\<lambda>w. sound w \<and> \<not> w_locked w) (persist_safety_pause r) (\<lambda>_. paused) (\<lambda>_ _. False)"
  unfolding triple_def
proof (intro allI impI)
  fix w0 :: "'a world"
  assume "sound w0 \<and> \<not> w_locked w0"
  then have w: "sound (env_step w0)" "\<not> w_locked (env_step w0)" by (simp_all add: sound_env_step)
  define u where "u = (env_step w0)\<lparr>w_working := w_committed (env_step w0), w_aborted := False, w_dead := False,
    w_locked := False, w_dirty := False\<rparr>"
  have "sound u \<and> \<not> w_aborted u" using w(1) by (auto simp: sound_def u_def alive_revive alive_faults)
  then obtain v where
    "bindM (set_entries_paused True (Some r)) (\<lambda>_. uow_commit) u = (Inr (), v)" "paused v"
    using triple_total [OF pause_works [OF assms], of u] by auto
  moreover have "w_faults (env_step w0) n = NoFault" for n
    using w(1) by (simp add: sound_def alive_faults)
  ultimately show "case persist_safety_pause r w0 of (Inl e, t) \<Rightarrow> False | (Inr a, t) \<Rightarrow> paused t"
    using w by (simp add: persist_safety_pause_def Let_def u_def paused_def)
qed

lemma rollback_works: "triple sound (suppressM uow_rollback) (\<lambda>_ w. sound w \<and> settled w) E"
proof (rule triple_suppress)
  have "triple sound uow_rollback (\<lambda>_ w. settled w) (\<lambda>_ _. False)"
    by (auto simp: triple_def uow_rollback_def Let_def sound_def alive_faults alive_faults_env discard_work_def settled_def)
  from triple_conj [OF sound_store [OF sf.tracks_ends(2)] this]
  show "triple sound uow_rollback (\<lambda>_ w. sound w \<and> settled w) (\<lambda>_ w. sound w \<and> settled w)"
    by (rule triple_weaken) auto
qed

lemma plain_parts:
  "plain (PriceCollar r o_bps)" "plain (RunId v)" "plain (collar_contains c x)" "plain (compose st d wd tv sy sd)"
  unfolding PriceCollar_def RunId_def collar_contains_def compose_def lower_limit_def upper_limit_def Let_def
  by (intro plain_rules plain_values plain_raise)+

lemma plain_intent: "plain (load_intent i)"
  unfolding load_intent_def order_intent_post_init_def
  by (intro plain_rules plain_values plain_parts)

lemma untyped_get: "untyped (orders_get cid)"
  unfolding orders_get_def query_def by (intro untyped_rules untyped_statement plain_option plain_intent) simp

lemma untyped_sound: "untyped m \<Longrightarrow> keeps store_frame m \<Longrightarrow> conflicts sound m (\<lambda>_. sound) E"
  by (erule untyped_conflicts, drule sound_store, erule triple_weaken) auto

lemma marker_works:
  "conflicts (\<lambda>w. sound w \<and> settled w) (persist_conflict_marker cid) (\<lambda>_ w. sound w \<and> \<not> w_aborted w)
     (\<lambda>w. sound w \<and> \<not> w_locked w)"
proof -
  let ?E = "\<lambda>w. sound w \<and> \<not> w_locked w"
  have get: "conflicts (\<lambda>w. sound w \<and> settled w) (orders_get cid) (\<lambda>_ w. sound w \<and> \<not> w_aborted w \<and> \<not> w_locked w) ?E"
    by (rule untyped_conflicts [OF untyped_get], rule ret_orders_get) (auto simp: settled_def sound_env_step)
  have step: "triple sound (bindM (transition_status cid REVIEW_REQUIRED) (\<lambda>_. uow_commit))
      (\<lambda>_ w. sound w \<and> \<not> w_aborted w) (\<lambda>_. sound)"
  proof -
    have "returns sound (bindM (transition_status cid REVIEW_REQUIRED) (\<lambda>_. uow_commit)) (\<lambda>_ w. \<not> w_aborted w)"
      by (rule triple_bind [OF returns_any], rule ret_commit) (simp add: settled_def)
    from triple_conj [OF sound_store this] show ?thesis
      by (rule triple_weaken) (intro consumer_rules, auto)
  qed
  have undo: "conflicts sound (rollback_and_raise TradeUpdateError) (\<lambda>_ w. sound w \<and> \<not> w_aborted w) ?E"
    unfolding rollback_and_raise_def
    by (rule triple_bind [OF rollback_works]) (simp add: triple_def run_simps settled_def)
  show ?thesis
    unfolding persist_conflict_marker_def
    by (rule triple_bind [OF get], rule triple_case_option, simp add: triple_def run_simps, rule triple_if,
        simp add: triple_def run_simps, rule triple_catch [OF step [THEN triple_pre] undo], simp)
qed

lemma paused_keeps:
  assumes "keeps (tracks pause_write) m"
  shows "triple (\<lambda>w. settled w \<and> paused w) m (\<lambda>_. paused) (\<lambda>_. paused)"
  using assms by (rule keeps_triple) (auto simp: tracks_def settled_def paused_def pause_write_def stays_paused_def)

lemma conflict_pause_works:
  assumes r: "btrim_nonempty (''reconciliation required; '' @ c)" "length (''reconciliation required; '' @ c) \<le> 200"
    "\<not> blank (''reconciliation required; '' @ c)"
  shows "conflicts (\<lambda>w. sound w \<and> settled w) (persist_conflict_pause u5 cid c) (\<lambda>_. paused) paused"
proof -
  let ?r = "''reconciliation required; '' @ c"
  have fallback: "conflicts (\<lambda>w. e = TradeUpdateError \<longrightarrow> sound w \<and> \<not> w_locked w)
      (if e = TradeUpdateError then
         bindM (catchM (persist_safety_pause ?r) (\<lambda>_. raiseM TradeUpdateError)) (\<lambda>_. raiseM TradeUpdateError)
       else raiseM e) Q paused" for e and Q :: "unit \<Rightarrow> 'a world \<Rightarrow> bool"
  proof (rule triple_if)
    assume "e = TradeUpdateError"
    then show "conflicts (\<lambda>w. e = TradeUpdateError \<longrightarrow> sound w \<and> \<not> w_locked w)
        (bindM (catchM (persist_safety_pause ?r) (\<lambda>_. raiseM TradeUpdateError)) (\<lambda>_. raiseM TradeUpdateError)) Q paused"
      by (intro triple_bind [where R = "\<lambda>_. paused"] triple_catch [OF safety_pause_works [OF r, THEN triple_pre]])
        (auto simp: triple_def run_simps)
  qed (simp add: triple_def run_simps)
  have pause: "conflicts (\<lambda>w. sound w \<and> \<not> w_aborted w)
      (catchM (bindM (set_entries_paused True (Some ?r)) (\<lambda>_. uow_commit)) (\<lambda>_. rollback_and_raise TradeUpdateError))
      (\<lambda>_ w. settled w \<and> paused w) paused"
    by (rule triple_catch [OF pause_works [OF r]]) simp
  show ?thesis
    unfolding persist_conflict_pause_def
    by (rule triple_bind [OF triple_catch [OF marker_works fallback]], rule triple_bind [OF pause],
        rule triple_weaken [OF paused_keeps], unfold rollback_and_raise_def,
        intro pw.tracks_rules pw.tracks_reads pause_write_command) auto
qed

lemma surface_works:
  assumes "btrim_nonempty (''reconciliation required; '' @ c)" "length (''reconciliation required; '' @ c) \<le> 200"
    "\<not> blank (''reconciliation required; '' @ c)"
  shows "conflicts sound (surface_conflict u5 cid c) Q paused"
  unfolding surface_conflict_def
  by (rule triple_bind [OF rollback_works], rule triple_bind [OF conflict_pause_works [OF assms]])
    (simp add: triple_def run_simps)

lemma conflict_reasons:
  "conflicts sound (surface_conflict u5 cid ''conflicting fill'') Q paused"
  "conflicts sound (surface_conflict u5 cid ''conflicting status'') Q paused"
  by (rule surface_works; code_simp)+

lemma sound_conflicts: "conflicts sound (apply_update u5 u) (\<lambda>_ _. True) paused"
proof -
  have keep: "keeps store_frame m \<Longrightarrow> triple sound m (\<lambda>_ _. True) (\<lambda>_. sound)" for m :: "('a world, trade_update_outcome) comp"
    by (drule sound_store, erule triple_weaken) auto
  show ?thesis
  proof (cases u)
    case (FillUpdate f)
    show ?thesis
      unfolding FillUpdate apply_update.simps apply_fill_def
      by (intro triple_bind [OF untyped_sound] untyped_reads untyped_writes store_intros triple_case_option triple_if
          triple_catch [OF keep] conflict_reasons store_fill) (auto simp: triple_def run_simps)
  next
    case (StatusUpdate x)
    show ?thesis
      unfolding StatusUpdate apply_update.simps apply_status_def
      by (intro triple_bind [OF untyped_sound] untyped_reads untyped_get store_intros triple_case_option triple_if
          triple_catch [OF keep] conflict_reasons store_status) (auto simp: triple_def run_simps)
  qed
qed

section \<open>Outcomes of a status update\<close>

definition row_shows :: "order_status_update \<Rightarrow> db \<Rightarrow> bool" where
  "row_shows u d \<longleftrightarrow> (\<exists>r. find_row_by_id (ou_broker_order_id u) d = Some r \<and> bo_status (br_order r) = ou_status u
     \<and> bo_filled_quantity (br_order r) = ou_filled_quantity u \<and> br_watermark r = Some (ou_observed_at u))"

definition intent_at :: "string \<Rightarrow> order_intent \<Rightarrow> order_status \<Rightarrow> db \<Rightarrow> bool" where
  "intent_at cid i st d \<longleftrightarrow> find_intent cid d = Some (i\<lparr>oi_status := st\<rparr>)"

lemma shows_env_step [simp]:
  "row_shows u (w_working (env_step w)) = row_shows u (w_working w)"
  "intent_at cid i st (w_working (env_step w)) = intent_at cid i st (w_working w)"
  by (simp_all add: row_shows_def intent_at_def)

lemma find_row_set_status [simp]: "find_row_by_id b (set_intent_status cid st d) = find_row_by_id b d"
  by (simp add: find_row_by_id_def set_intent_status_def)

lemma shows_transition:
  "returns (\<lambda>w. row_shows u (w_working w) \<and> intent_at cid i st (w_working w)) (transition_status cid target)
     (\<lambda>_ w. \<not> w_aborted w \<and> row_shows u (w_working w) \<and> intent_at cid i target (w_working w))"
  by (rule ret_transition)
    (auto simp: row_shows_def intent_at_def find_intent_set_status)

lemma shows_transition_intent:
  "returns (\<lambda>w. row_shows u (w_working w) \<and> intent_at cid i (oi_status i) (w_working w))
     (transition_intent cid (oi_status i) target)
     (\<lambda>_ w. \<not> w_aborted w \<and> row_shows u (w_working w) \<and> intent_at cid i target (w_working w))"
  unfolding transition_intent_def
proof (rule triple_bind)
  let ?R = "\<lambda>_ w. \<exists>st. row_shows u (w_working w) \<and> intent_at cid i st (w_working w)"
  have step: "returns (\<lambda>w. row_shows u (w_working w) \<and> intent_at cid i st (w_working w))
      (bindM (transition_status cid CANCEL_PENDING) (\<lambda>_. returnM ())) ?R" for st
    by (rule triple_bind [OF shows_transition]) (auto simp: triple_def run_simps)
  show "returns (\<lambda>w. row_shows u (w_working w) \<and> intent_at cid i (oi_status i) (w_working w))
      (if \<not> order_transition_allowed (oi_status i) target then
         if target = CANCELED \<and> order_transition_allowed (oi_status i) CANCEL_PENDING
         then bindM (transition_status cid CANCEL_PENDING) (\<lambda>_. returnM ())
         else raiseM TradeUpdateError
       else returnM ()) ?R"
    by (intro triple_if step) (auto simp: triple_def run_simps)
  have "returns (?R x) (transition_status cid target)
      (\<lambda>_ w. \<not> w_aborted w \<and> row_shows u (w_working w) \<and> intent_at cid i target (w_working w))" for x :: unit
    by (rule triple_ex) (rule shows_transition)
  then show "returns (?R x) (bindM (transition_status cid target) (\<lambda>_. returnM ()))
      (\<lambda>_ w. \<not> w_aborted w \<and> row_shows u (w_working w) \<and> intent_at cid i target (w_working w))" for x :: unit
    by (rule triple_bind) (simp add: triple_def run_simps)
qed

lemma ret_update_mirror:
  "returns (\<lambda>w. intent_at cid i st (w_working w))
     (update_broker_order_status (ou_broker_order_id u) (ou_status u) (ou_filled_quantity u) (Some (ou_observed_at u)))
     (\<lambda>_ w. \<not> w_aborted w \<and> row_shows u (w_working w) \<and> intent_at cid i st (w_working w))"
  unfolding update_broker_order_status_def
proof (rule triple_bind)
  let ?R = "\<lambda>row w. row \<noteq> None \<longrightarrow> \<not> w_aborted w \<and> row_shows u (w_working w) \<and> intent_at cid i st (w_working w)"
  have "row_shows u d' \<and> find_intent c d' = find_intent c d" if "sql_update_broker_order (ou_broker_order_id u) (ou_status u)
      (ou_filled_quantity u) (Some (ou_observed_at u)) now d = Inr (Some r, d')" for now d r d' c
    using that by (auto simp: sql_update_broker_order_def row_shows_def find_row_update updated_row_def find_intent_def
        split: option.splits if_splits)
  then show "returns (\<lambda>w. intent_at cid i st (w_working w)) (statement (sql_update_broker_order (ou_broker_order_id u)
      (ou_status u) (ou_filled_quantity u) (Some (ou_observed_at u)))) ?R"
    by (intro ret_statement) (fastforce simp: intent_at_def)
  show "returns (?R row) (case row of None \<Rightarrow> raiseM PersistenceInvariantError
      | Some r \<Rightarrow> bindM mark_write (\<lambda>_. liftM (load_broker_order r)))
      (\<lambda>_ w. \<not> w_aborted w \<and> row_shows u (w_working w) \<and> intent_at cid i st (w_working w))" for row
    by (cases row) (auto simp: triple_def run_simps mark_write_def split: sum.split)
qed

lemma write_status_applied:
  assumes "bo_broker_order_id m = ou_broker_order_id u"
  shows "returns (\<lambda>w. find_intent (ou_client_order_id u) (w_working w) = Some i) (write_status i m u)
    (\<lambda>r w. r = APPLIED \<and> settled w \<and> row_shows u (w_committed w)
       \<and> intent_at (ou_client_order_id u) i (status_intent_target i (ou_status u)) (w_committed w))"
proof -
  let ?c = "ou_client_order_id u" and ?t = "status_intent_target i (ou_status u)"
  let ?S = "\<lambda>w. \<not> w_aborted w \<and> row_shows u (w_working w) \<and> intent_at ?c i ?t (w_working w)"
  have checks: "returns (\<lambda>w. find_intent ?c (w_working w) = Some i) (liftM r)
      (\<lambda>_ w. intent_at ?c i (oi_status i) (w_working w))" for r :: "unit outcome"
    by (rule ret_lift) (simp add: intent_at_def)
  have move: "returns (\<lambda>w. \<not> w_aborted w \<and> row_shows u (w_working w) \<and> intent_at ?c i (oi_status i) (w_working w))
      (if ?t \<noteq> oi_status i then transition_intent ?c (oi_status i) ?t else returnM ()) (\<lambda>_. ?S)"
    by (intro triple_if shows_transition_intent [THEN triple_pre]) (auto simp: triple_def run_simps)
  have commit: "returns ?S (bindM uow_commit (\<lambda>_. returnM APPLIED))
      (\<lambda>r w. r = APPLIED \<and> settled w \<and> row_shows u (w_committed w) \<and> intent_at ?c i ?t (w_committed w))"
    by (rule triple_bind [where R = "\<lambda>_ w. settled w \<and> row_shows u (w_committed w) \<and> intent_at ?c i ?t (w_committed w)"],
        rule ret_commit) (auto simp: triple_def run_simps)
  show ?thesis
    unfolding write_status_def Let_def assms
    by (rule triple_bind [OF checks], rule triple_bind [OF ret_update_mirror], rule triple_bind [OF move commit])
qed

text \<open>Every other outcome is decided by reads alone.\<close>

lemma apply_status_outcome:
  "returns (\<lambda>w. w = w0 \<and> settled w) (apply_status u5 u) (\<lambda>r w.
     if r = APPLIED then \<exists>i. find_intent (ou_client_order_id u) (w_committed w0) = Some i \<and> row_shows u (w_committed w)
       \<and> intent_at (ou_client_order_id u) i (status_intent_target i (ou_status u)) (w_committed w)
     else tracks control_only w0 w)"
proof -
  let ?c = "ou_client_order_id u"
  let ?I = "\<lambda>w. settled w0 \<and> tracks control_only w0 w"
  have still: "find_intent ?c (w_working w) = find_intent ?c (w_committed w0)" if "?I w" for w
  proof -
    have "control_only (w_committed w0) (w_working w)"
      using that by (auto simp: tracks_def settled_def intro: control_only_trans)
    then show ?thesis by (auto simp: control_only_def find_intent_def)
  qed
  have step: "?I w \<Longrightarrow> ?I (env_step w)" for w
    using cf.tracks_env_step cf.tf.frame_trans by blast
  have get: "returns (\<lambda>w. w = w0 \<and> settled w) (orders_get ?c)
      (\<lambda>found w. ?I w \<and> found = find_intent ?c (w_committed w0))"
    by (rule ret_orders_get) (auto simp: settled_def cf.tracks_env_step)
  have mirror: "returns ?I (get_broker_order ?c) (\<lambda>_. ?I)"
    by (rule ret_mirror) (rule step)
  let ?Q = "\<lambda>r w. if r = APPLIED then \<exists>i. find_intent ?c (w_committed w0) = Some i \<and> row_shows u (w_committed w)
       \<and> intent_at ?c i (status_intent_target i (ou_status u)) (w_committed w)
     else tracks control_only w0 w"
  have written: "returns ?I (catchM (write_status i m u) (\<lambda>_. surface_conflict u5 c conflict)) ?Q"
    if "Some i = find_intent ?c (w_committed w0)" "\<not> bo_broker_order_id m \<noteq> ou_broker_order_id u" for i m c conflict
    using that(2)
    by (intro triple_catch [OF triple_weaken [OF write_status_applied] surface_never_returns])
      (auto simp: still that(1) [symmetric])
  have read: "returns ?I (returnM r) ?Q" if "r \<noteq> APPLIED" for r
    using that by (simp add: triple_def run_simps)
  show ?thesis
    unfolding apply_status_def
    by (rule triple_bind [OF get], rule triple_pure, rule triple_case_option, rule read, simp,
        rule triple_bind [OF mirror], rule triple_case_option, rule read, simp, intro triple_if read written)
      simp_all
qed

end
