(* ===== verification/Job_Store.thy ===== *)
theory Job_Store
  imports Unit_Of_Work
begin

text \<open>
  The job tables: the lease functions of migration 0002 with the guard trigger and the
  constraints of migration 0001, and \<open>PostgresJobRepository\<close> and
  \<open>PostgresAuditEventRepository\<close> over them.

  Leases are decided by the database: its statement clock, the row lock taken by every
  lease function, and a fencing token that each acquisition increments. The statement
  clock is read before the row lock is granted, so the times of successive statements
  need not be ordered, and the lemmas below do not assume that they are.
\<close>

section \<open>Constraints and the guard trigger\<close>

definition INTEGER_MAX :: int where "INTEGER_MAX = 2147483647"

definition job_row_ok :: "job_instance \<Rightarrow> bool" where
  "job_row_ok j \<longleftrightarrow>
     fullmatch JOB_COMPONENT_PATTERN (js_job_type (ji_spec j))
     \<and> fullmatch JOB_COMPONENT_PATTERN (js_window (ji_spec j))
     \<and> (case ji_lease_owner j of
          None \<Rightarrow> ji_leased_until j = None
        | Some owner \<Rightarrow> fullmatch LEASE_OWNER_PATTERN owner \<and> ji_leased_until j \<noteq> None)
     \<and> 0 \<le> ji_fencing_token j \<and> ji_fencing_token j \<le> BIGINT_MAX
     \<and> 0 \<le> ji_attempt_count j \<and> ji_attempt_count j \<le> INTEGER_MAX"

text \<open>The session settings the trigger reads; a status write asserts its owner and token.\<close>

record job_settings =
  st_lease_owner :: "string option"
  st_fencing_token :: "int option"
  st_lease_mutation :: bool

definition lease_mutation :: job_settings where
  "lease_mutation = \<lparr>st_lease_owner = None, st_fencing_token = None, st_lease_mutation = True\<rparr>"

definition asserting :: "string \<Rightarrow> int \<Rightarrow> job_settings" where
  "asserting owner token = \<lparr>st_lease_owner = Some owner, st_fencing_token = Some token, st_lease_mutation = False\<rparr>"

definition guard_job_write :: "job_settings \<Rightarrow> utc \<Rightarrow> job_instance \<Rightarrow> job_instance \<Rightarrow> job_instance outcome" where
  "guard_job_write s now old new =
     (if ji_spec new \<noteq> ji_spec old then Inl DatabaseError
      else if ji_status new \<noteq> ji_status old
        \<and> (st_lease_owner s = None \<or> st_fencing_token s = None
           \<or> ji_lease_owner old = None
           \<or> (case ji_leased_until old of None \<Rightarrow> True | Some t \<Rightarrow> t \<le> now)
           \<or> ji_lease_owner old \<noteq> st_lease_owner s
           \<or> Some (ji_fencing_token old) \<noteq> st_fencing_token s)
      then Inl DatabaseError
      else if (ji_lease_owner new \<noteq> ji_lease_owner old \<or> ji_leased_until new \<noteq> ji_leased_until old
               \<or> ji_fencing_token new \<noteq> ji_fencing_token old \<or> ji_attempt_count new \<noteq> ji_attempt_count old)
              \<and> \<not> st_lease_mutation s
      then Inl DatabaseError
      else Inr (new\<lparr>ji_updated_at := now\<rparr>))"

definition put_job :: "job_instance \<Rightarrow> db \<Rightarrow> db" where
  "put_job j d = d\<lparr>db_jobs := map (\<lambda>i. if job_key (ji_spec i) = job_key (ji_spec j) then j else i) (db_jobs d)\<rparr>"

definition sql_update_job :: "job_settings \<Rightarrow> job_instance \<Rightarrow> job_instance \<Rightarrow> job_instance statement" where
  "sql_update_job s old new now d =
     bindO (guard_job_write s now old new) (\<lambda>row.
       if job_row_ok row then Inr (row, put_job row d) else Inl DatabaseError)"

section \<open>Lease functions\<close>

text \<open>The row a fenced statement selects: current owner and token, not expired.\<close>

definition fenced_job :: "string \<Rightarrow> string \<Rightarrow> int \<Rightarrow> utc \<Rightarrow> db \<Rightarrow> job_instance option" where
  "fenced_job key owner token now d =
     (case find_job key d of
        None \<Rightarrow> None
      | Some j \<Rightarrow>
          if ji_lease_owner j = Some owner \<and> ji_fencing_token j = token
             \<and> (case ji_leased_until j of None \<Rightarrow> False | Some t \<Rightarrow> t > now)
          then Some j else None)"

definition open_lease :: "string \<Rightarrow> string \<Rightarrow> int \<Rightarrow> lease_row \<Rightarrow> bool" where
  "open_lease key owner token l \<longleftrightarrow>
     lr_job_key l = key \<and> lr_owner l = owner \<and> lr_fencing_token l = token \<and> lr_released_at l = None"

definition update_leases :: "(lease_row \<Rightarrow> bool) \<Rightarrow> (lease_row \<Rightarrow> lease_row) \<Rightarrow> db \<Rightarrow> db" where
  "update_leases P f d = d\<lparr>db_leases := map (\<lambda>l. if P l then f l else l) (db_leases d)\<rparr>"

definition close_lease :: "utc \<Rightarrow> string \<Rightarrow> lease_row \<Rightarrow> lease_row" where
  "close_lease now reason l = l\<lparr>lr_released_at := Some now, lr_release_reason := Some reason\<rparr>"

definition sql_insert_lease :: "lease_row \<Rightarrow> unit statement" where
  "sql_insert_lease l now d =
     (if \<not> fullmatch LEASE_OWNER_PATTERN (lr_owner l) \<or> lr_fencing_token l \<le> 0 \<or> lr_leased_until l \<le> lr_acquired_at l
         \<or> list_ex (\<lambda>m. lr_job_key m = lr_job_key l \<and> lr_fencing_token m = lr_fencing_token l) (db_leases d)
         \<or> list_ex (\<lambda>m. lr_job_key m = lr_job_key l \<and> lr_released_at m = None) (db_leases d)
      then Inl DatabaseError
      else Inr ((), d\<lparr>db_leases := db_leases d @ [l]\<rparr>))"

definition lease_row_of :: "job_instance \<Rightarrow> utc \<Rightarrow> lease_row" where
  "lease_row_of j now =
     \<lparr>lr_job_key = job_key (ji_spec j), lr_owner = the (ji_lease_owner j), lr_fencing_token = ji_fencing_token j,
      lr_acquired_at = now, lr_last_renewed_at = now, lr_leased_until = the (ji_leased_until j),
      lr_released_at = None, lr_release_reason = None\<rparr>"

definition grant_of :: "job_instance \<Rightarrow> utc \<Rightarrow> lease_grant" where
  "grant_of j now =
     \<lparr>lg_job_key = job_key (ji_spec j), lg_lease_owner = the (ji_lease_owner j), lg_leased_until = the (ji_leased_until j),
      lg_fencing_token = ji_fencing_token j, lg_attempt_count = ji_attempt_count j, lg_database_time = now\<rparr>"

definition lease_request_ok :: "string \<Rightarrow> int \<Rightarrow> bool" where
  "lease_request_ok owner lease_for \<longleftrightarrow>
     0 < lease_for \<and> lease_for \<le> DAY_MICROSECONDS \<and> fullmatch LEASE_OWNER_PATTERN owner"

definition take_over :: "job_instance \<Rightarrow> utc \<Rightarrow> db \<Rightarrow> db outcome" where
  "take_over candidate now d =
     (case ji_lease_owner candidate of
        None \<Rightarrow> Inr d
      | Some owner \<Rightarrow>
          let current = open_lease (job_key (ji_spec candidate)) owner (ji_fencing_token candidate) in
          if length (filter current (db_leases d)) \<noteq> 1 then Inl DatabaseError
          else Inr (update_leases current (close_lease now ''EXPIRED_TAKEOVER'') d))"

definition acquire_job_lease :: "string \<Rightarrow> string \<Rightarrow> int \<Rightarrow> lease_grant option statement" where
  "acquire_job_lease key owner lease_for now d =
     (if \<not> lease_request_ok owner lease_for \<or> \<not> btrim_nonempty key then Inl DatabaseError
      else case find_job key d of
        None \<Rightarrow> Inr (None, d)
      | Some candidate \<Rightarrow>
          if (case ji_leased_until candidate of None \<Rightarrow> False | Some t \<Rightarrow> t > now) then Inr (None, d)
          else
            bindO (sql_update_job lease_mutation candidate
                     (candidate\<lparr>ji_lease_owner := Some owner, ji_leased_until := Some (now + lease_for),
                                ji_fencing_token := ji_fencing_token candidate + 1,
                                ji_attempt_count := ji_attempt_count candidate + 1\<rparr>) now d) (\<lambda>(claimed, d1).
            bindO (take_over candidate now d1) (\<lambda>d2.
            bindO (sql_insert_lease (lease_row_of claimed now) now d2) (\<lambda>(_, d3).
            Inr (Some (grant_of claimed now), d3)))))"

definition renew_job_lease :: "string \<Rightarrow> string \<Rightarrow> int \<Rightarrow> int \<Rightarrow> lease_grant option statement" where
  "renew_job_lease key owner token lease_for now d =
     (if \<not> lease_request_ok owner lease_for \<or> token < 1 then Inl DatabaseError
      else case fenced_job key owner token now d of
        None \<Rightarrow> Inr (None, d)
      | Some j \<Rightarrow>
          bindO (sql_update_job lease_mutation j (j\<lparr>ji_leased_until := Some (now + lease_for)\<rparr>) now d) (\<lambda>(renewed, d1).
            if \<not> list_ex (open_lease key owner token) (db_leases d1)
               \<or> list_ex (\<lambda>l. open_lease key owner token l \<and> now + lease_for \<le> lr_acquired_at l) (db_leases d1)
            then Inl DatabaseError
            else Inr (Some (grant_of renewed now),
                      update_leases (open_lease key owner token)
                        (\<lambda>l. l\<lparr>lr_leased_until := now + lease_for, lr_last_renewed_at := now\<rparr>) d1)))"

definition release_job_lease :: "string \<Rightarrow> string \<Rightarrow> int \<Rightarrow> string \<Rightarrow> bool statement" where
  "release_job_lease key owner token reason now d =
     (if \<not> fullmatch LEASE_OWNER_PATTERN owner \<or> token < 1 then Inl DatabaseError
      else case fenced_job key owner token now d of
        None \<Rightarrow> Inr (False, d)
      | Some j \<Rightarrow>
          bindO (sql_update_job lease_mutation j (j\<lparr>ji_lease_owner := None, ji_leased_until := None\<rparr>) now d) (\<lambda>(released, d1).
            if \<not> list_ex (open_lease key owner token) (db_leases d1) then Inl DatabaseError
            else Inr (True, update_leases (open_lease key owner token) (close_lease now reason) d1)))"

definition transition_job_status :: "string \<Rightarrow> string \<Rightarrow> int \<Rightarrow> job_status \<Rightarrow> job_instance option statement" where
  "transition_job_status key owner token status now d =
     (if \<not> fullmatch LEASE_OWNER_PATTERN owner \<or> token < 1 then Inl DatabaseError
      else case fenced_job key owner token now d of
        None \<Rightarrow> Inr (None, d)
      | Some j \<Rightarrow>
          bindO (sql_update_job (asserting owner token) j (j\<lparr>ji_status := status\<rparr>) now d) (\<lambda>(row, d1).
          Inr (Some row, d1)))"

section \<open>Job repository\<close>

definition load_job :: "job_instance \<Rightarrow> job_instance outcome" where
  "load_job j =
     bindO (JobSpec (js_trading_date (ji_spec j)) (js_job_type (ji_spec j)) (js_window (ji_spec j))) (\<lambda>_. Inr j)"

definition sql_insert_job :: "job_spec \<Rightarrow> job_instance option statement" where
  "sql_insert_job spec now d =
     (let row = \<lparr>ji_spec = spec, ji_status = PLANNED, ji_lease_owner = None, ji_leased_until = None,
                 ji_fencing_token = 0, ji_attempt_count = 0, ji_created_at = now, ji_updated_at = now\<rparr>
      in if \<not> job_row_ok row then Inl DatabaseError
         else if find_job (job_key spec) d \<noteq> None then Inr (None, d)
         else Inr (Some row, d\<lparr>db_jobs := db_jobs d @ [row]\<rparr>))"

definition jobs_get :: "string \<Rightarrow> ('b world, job_instance option) comp" where
  "jobs_get key = bindM (query (find_job key)) (\<lambda>row. liftM (optionO load_job row))"

definition jobs_add :: "job_spec \<Rightarrow> ('b world, job_instance) comp" where
  "jobs_add spec =
     bindM (statement (sql_insert_job spec)) (\<lambda>row.
       case row of
         Some r \<Rightarrow> bindM mark_write (\<lambda>_. liftM (load_job r))
       | None \<Rightarrow>
           bindM (jobs_get (job_key spec)) (\<lambda>existing.
             case existing of
               None \<Rightarrow> raiseM PersistenceInvariantError
             | Some j \<Rightarrow> if ji_spec j \<noteq> spec then raiseM PersistenceInvariantError else returnM j))"

definition jobs_acquire :: "string \<Rightarrow> string \<Rightarrow> int \<Rightarrow> ('b world, lease_grant option) comp" where
  "jobs_acquire key owner duration =
     bindM (statement (acquire_job_lease key owner duration)) (\<lambda>row.
       case row of
         None \<Rightarrow> returnM None
       | Some g \<Rightarrow> bindM mark_write (\<lambda>_. bindM (liftM (lease_grant_post_init g)) (\<lambda>g. returnM (Some g))))"

definition jobs_renew :: "lease_grant \<Rightarrow> int \<Rightarrow> ('b world, lease_grant option) comp" where
  "jobs_renew g duration =
     bindM (statement (renew_job_lease (lg_job_key g) (lg_lease_owner g) (lg_fencing_token g) duration)) (\<lambda>row.
       case row of
         None \<Rightarrow> returnM None
       | Some g \<Rightarrow> bindM mark_write (\<lambda>_. bindM (liftM (lease_grant_post_init g)) (\<lambda>g. returnM (Some g))))"

definition jobs_release :: "lease_grant \<Rightarrow> ('b world, bool) comp" where
  "jobs_release g =
     bindM (statement (release_job_lease (lg_job_key g) (lg_lease_owner g) (lg_fencing_token g) ''released_by_owner'')) (\<lambda>released.
       if released then bindM mark_write (\<lambda>_. returnM True) else returnM False)"

definition jobs_set_status :: "lease_grant \<Rightarrow> job_status \<Rightarrow> ('b world, job_instance option) comp" where
  "jobs_set_status g status =
     bindM (statement (transition_job_status (lg_job_key g) (lg_lease_owner g) (lg_fencing_token g) status)) (\<lambda>row.
       case row of
         None \<Rightarrow> returnM None
       | Some j \<Rightarrow> bindM mark_write (\<lambda>_. bindM (liftM (load_job j)) (\<lambda>j. returnM (Some j))))"

section \<open>Audit repository\<close>

text \<open>The typed payload satisfies the closed registry of migration 0002 by construction.\<close>

definition sql_insert_audit :: "audit_event \<Rightarrow> utc statement" where
  "sql_insert_audit e now d =
     (if ae_audit_id e \<in> (ae_audit_id \<circ> snd) ` set (db_audits d) then Inl DatabaseError
      else if ae_event_type e \<noteq> ''job.status_changed'' \<or> \<not> btrim_nonempty (ae_producer_version e) then Inl DatabaseError
      else Inr (now, d\<lparr>db_audits := db_audits d @ [(now, e)]\<rparr>))"

definition audit_events_add :: "audit_event \<Rightarrow> ('b world, utc \<times> audit_event) comp" where
  "audit_events_add e =
     bindM (statement (sql_insert_audit e)) (\<lambda>recorded_at.
     bindM mark_write (\<lambda>_. returnM (recorded_at, e)))"

end
