(* ===== verification/Job_Leases.thy ===== *)
theory Job_Leases
  imports Job_Store
begin

text \<open>
  The invariant of the job tables and that every lease function keeps it, the fence
  against stale grants, and that the durable rows of the job tables only move forward.
\<close>

section \<open>Shape of the statements\<close>

abbreviation key_of :: "job_instance \<Rightarrow> string" where
  "key_of j \<equiv> job_key (ji_spec j)"

lemma find_job_Some: "find_job key d = Some j \<Longrightarrow> j \<in> set (db_jobs d) \<and> key_of j = key"
  by (auto simp: find_job_def find_Some_iff)

lemma find_job_put:
  assumes "find_job key d = Some j"
  shows "find_job k (put_job i d) = (if key_of i = k \<and> find_job k d \<noteq> None then Some i else find_job k d)"
proof -
  have "find (\<lambda>x. key_of x = k) (map (\<lambda>x. if key_of x = key_of i then i else x) xs) =
      (if key_of i = k \<and> find (\<lambda>x. key_of x = k) xs \<noteq> None then Some i else find (\<lambda>x. key_of x = k) xs)" for xs
    by (induction xs) auto
  then show ?thesis by (simp add: find_job_def put_job_def)
qed

lemma put_job_tables [simp]:
  "db_leases (put_job j d) = db_leases d" "db_audits (put_job j d) = db_audits d"
  "db_jobs (update_leases P f d) = db_jobs d" "db_audits (update_leases P f d) = db_audits d"
  by (simp_all add: put_job_def update_leases_def)

lemma update_job_Inr:
  assumes "sql_update_job s old new now d = Inr (row, d')"
  shows "row = new\<lparr>ji_updated_at := now\<rparr> \<and> job_row_ok row \<and> d' = put_job row d \<and> ji_spec new = ji_spec old"
  using assms by (auto simp: sql_update_job_def guard_job_write_def bindO_eq_Inr split: if_splits)

lemma fenced_job_Some:
  "fenced_job key owner token now d = Some j \<Longrightarrow>
     find_job key d = Some j \<and> ji_lease_owner j = Some owner \<and> ji_fencing_token j = token
     \<and> (\<exists>t. ji_leased_until j = Some t \<and> now < t)"
  by (auto simp: fenced_job_def split: option.splits if_splits)

text \<open>Every lease function either leaves the database alone or changes one job and its history.\<close>

lemma renew_Inr:
  assumes "renew_job_lease key owner token lease_for now d = Inr (g, d')"
  obtains (stale) "g = None" "d' = d"
  | (renewed) j j' where "fenced_job key owner token now d = Some j"
      "j' = j\<lparr>ji_leased_until := Some (now + lease_for), ji_updated_at := now\<rparr>" "job_row_ok j'" "0 < lease_for"
      "g = Some (grant_of j' now)"
      "d' = update_leases (open_lease key owner token)
              (\<lambda>l. l\<lparr>lr_leased_until := now + lease_for, lr_last_renewed_at := now\<rparr>) (put_job j' d)"
proof (cases "fenced_job key owner token now d")
  case None
  then show ?thesis using assms stale by (auto simp: renew_job_lease_def split: if_splits)
next
  case (Some j)
  with assms obtain row d1 where
    "sql_update_job lease_mutation j (j\<lparr>ji_leased_until := Some (now + lease_for)\<rparr>) now d = Inr (row, d1)"
    "g = Some (grant_of row now)" "0 < lease_for"
    "d' = update_leases (open_lease key owner token)
            (\<lambda>l. l\<lparr>lr_leased_until := now + lease_for, lr_last_renewed_at := now\<rparr>) d1"
    by (auto simp: renew_job_lease_def bindO_eq_Inr lease_request_ok_def split: if_splits)
  with Some renewed show ?thesis by (auto dest!: update_job_Inr)
qed

lemma release_Inr:
  assumes "release_job_lease key owner token reason now d = Inr (b, d')"
  obtains (stale) "\<not> b" "d' = d"
  | (released) j j' where "fenced_job key owner token now d = Some j"
      "j' = j\<lparr>ji_lease_owner := None, ji_leased_until := None, ji_updated_at := now\<rparr>" "job_row_ok j'" "b"
      "d' = update_leases (open_lease key owner token) (close_lease now reason) (put_job j' d)"
proof (cases "fenced_job key owner token now d")
  case None
  then show ?thesis using assms stale by (auto simp: release_job_lease_def split: if_splits)
next
  case (Some j)
  with assms obtain row d1 where
    "sql_update_job lease_mutation j (j\<lparr>ji_lease_owner := None, ji_leased_until := None\<rparr>) now d = Inr (row, d1)" "b"
    "d' = update_leases (open_lease key owner token) (close_lease now reason) d1"
    by (auto simp: release_job_lease_def bindO_eq_Inr split: if_splits)
  with Some released show ?thesis by (auto dest!: update_job_Inr)
qed

lemma transition_Inr:
  assumes "transition_job_status key owner token status now d = Inr (r, d')"
  obtains (stale) "r = None" "d' = d"
  | (moved) j j' where "fenced_job key owner token now d = Some j"
      "j' = j\<lparr>ji_status := status, ji_updated_at := now\<rparr>" "job_row_ok j'" "r = Some j'" "d' = put_job j' d"
proof (cases "fenced_job key owner token now d")
  case None
  then show ?thesis using assms stale by (auto simp: transition_job_status_def split: if_splits)
next
  case (Some j)
  with assms obtain row where
    "sql_update_job (asserting owner token) j (j\<lparr>ji_status := status\<rparr>) now d = Inr (row, d')" "r = Some row"
    by (auto simp: transition_job_status_def bindO_eq_Inr split: if_splits)
  with Some moved show ?thesis by (auto dest!: update_job_Inr)
qed

definition overtake :: "job_instance \<Rightarrow> utc \<Rightarrow> db \<Rightarrow> db" where
  "overtake j now d =
     (case ji_lease_owner j of
        None \<Rightarrow> d
      | Some owner \<Rightarrow> update_leases (open_lease (key_of j) owner (ji_fencing_token j)) (close_lease now ''EXPIRED_TAKEOVER'') d)"

lemma acquire_Inr:
  assumes "acquire_job_lease key owner lease_for now d = Inr (g, d')"
  obtains (refused) "g = None" "d' = d"
  | (granted) j j' where "find_job key d = Some j" "\<And>t. ji_leased_until j = Some t \<Longrightarrow> t \<le> now"
      "j' = j\<lparr>ji_lease_owner := Some owner, ji_leased_until := Some (now + lease_for),
              ji_fencing_token := ji_fencing_token j + 1, ji_attempt_count := ji_attempt_count j + 1, ji_updated_at := now\<rparr>"
      "job_row_ok j'" "g = Some (grant_of j' now)"
      "d' = (overtake j now (put_job j' d))\<lparr>db_leases := db_leases (overtake j now (put_job j' d)) @ [lease_row_of j' now]\<rparr>"
proof (cases "find_job key d")
  case None
  then show ?thesis using assms refused by (auto simp: acquire_job_lease_def split: if_splits)
next
  case (Some j)
  show ?thesis
  proof (cases "case ji_leased_until j of None \<Rightarrow> False | Some t \<Rightarrow> t > now")
    case True
    then show ?thesis using assms Some refused by (auto simp: acquire_job_lease_def split: if_splits)
  next
    case False
    let ?new = "j\<lparr>ji_lease_owner := Some owner, ji_leased_until := Some (now + lease_for),
      ji_fencing_token := ji_fencing_token j + 1, ji_attempt_count := ji_attempt_count j + 1\<rparr>"
    from assms Some False obtain row d1 d2 where
      1: "sql_update_job lease_mutation j ?new now d = Inr (row, d1)" and
      2: "take_over j now d1 = Inr d2" and
      3: "sql_insert_lease (lease_row_of row now) now d2 = Inr ((), d')" "g = Some (grant_of row now)"
      by (auto simp: acquire_job_lease_def bindO_eq_Inr split: if_splits)
    have "d2 = overtake j now d1" using 2 by (auto simp: take_over_def overtake_def Let_def split: option.splits if_splits)
    moreover have "d' = d2\<lparr>db_leases := db_leases d2 @ [lease_row_of row now]\<rparr>"
      using 3 by (auto simp: sql_insert_lease_def split: if_splits)
    ultimately show ?thesis
      using granted [OF Some _ refl] update_job_Inr [OF 1] 3 False by (auto split: option.splits)
  qed
qed

section \<open>The invariant\<close>

definition held_by :: "job_instance \<Rightarrow> lease_row \<Rightarrow> bool" where
  "held_by j l \<longleftrightarrow> ji_lease_owner j = Some (lr_owner l) \<and> ji_fencing_token j = lr_fencing_token l
     \<and> ji_leased_until j = Some (lr_leased_until l)"

definition taken_over :: "lease_row \<Rightarrow> bool" where
  "taken_over l \<longleftrightarrow> lr_release_reason l = Some ''EXPIRED_TAKEOVER''"

definition lease_fits :: "job_instance \<Rightarrow> lease_row \<Rightarrow> bool" where
  "lease_fits j l \<longleftrightarrow> 1 \<le> lr_fencing_token l \<and> lr_fencing_token l \<le> ji_fencing_token j
     \<and> (lr_released_at l = None \<longrightarrow> held_by j l \<and> lr_release_reason l = None)
     \<and> (taken_over l \<longrightarrow> lr_fencing_token l < ji_fencing_token j)"

definition succession :: "lease_row set \<Rightarrow> bool" where
  "succession L \<longleftrightarrow> (\<forall>l\<in>L. \<forall>m\<in>L. lr_job_key m = lr_job_key l \<and> lr_fencing_token m = lr_fencing_token l + 1
     \<and> taken_over l \<longrightarrow> lr_leased_until l \<le> lr_acquired_at m)"

definition leases_ok :: "db \<Rightarrow> bool" where
  "leases_ok d \<longleftrightarrow>
     distinct (map key_of (db_jobs d))
     \<and> (\<forall>j\<in>set (db_jobs d). job_row_ok j)
     \<and> (\<forall>l\<in>set (db_leases d). \<exists>j\<in>set (db_jobs d). key_of j = lr_job_key l \<and> lease_fits j l)
     \<and> (\<forall>j\<in>set (db_jobs d). ji_lease_owner j \<noteq> None \<longrightarrow>
          (\<exists>l\<in>set (db_leases d). lr_job_key l = key_of j \<and> lr_released_at l = None \<and> held_by j l))
     \<and> distinct (map (\<lambda>l. (lr_job_key l, lr_fencing_token l)) (db_leases d))
     \<and> succession (set (db_leases d))"

lemma leases_okD:
  assumes "leases_ok d"
  shows "distinct (map key_of (db_jobs d))" "j \<in> set (db_jobs d) \<Longrightarrow> job_row_ok j"
    "l \<in> set (db_leases d) \<Longrightarrow> \<exists>j\<in>set (db_jobs d). key_of j = lr_job_key l \<and> lease_fits j l"
    "j \<in> set (db_jobs d) \<Longrightarrow> ji_lease_owner j \<noteq> None \<Longrightarrow>
       \<exists>l\<in>set (db_leases d). lr_job_key l = key_of j \<and> lr_released_at l = None \<and> held_by j l"
    "distinct (map (\<lambda>l. (lr_job_key l, lr_fencing_token l)) (db_leases d))" "succession (set (db_leases d))"
  using assms unfolding leases_ok_def by simp_all

lemma same_key_same_job:
  assumes "distinct (map key_of js)" "i \<in> set js" "j \<in> set js" "key_of i = key_of j"
  shows "i = j"
  using assms by (auto simp: distinct_map dest: inj_onD)

text \<open>Replacing one job by a row with the same key.\<close>

lemma put_job_set:
  assumes "distinct (map key_of (db_jobs d))" "j \<in> set (db_jobs d)" "key_of i = key_of j"
  shows "set (db_jobs (put_job i d)) = insert i (set (db_jobs d) - {j})"
    and "map key_of (db_jobs (put_job i d)) = map key_of (db_jobs d)"
proof -
  show "map key_of (db_jobs (put_job i d)) = map key_of (db_jobs d)"
    by (simp add: put_job_def)
  have "key_of x = key_of i \<longleftrightarrow> x = j" if "x \<in> set (db_jobs d)" for x
    using same_key_same_job [OF assms(1) that assms(2)] assms(3) by auto
  then show "set (db_jobs (put_job i d)) = insert i (set (db_jobs d) - {j})"
    using assms(2) unfolding put_job_def by (auto simp: image_iff)
qed

text \<open>
  The one step behind all four functions: a job changes, the rows of other jobs stay,
  and the rows of its own fit the new state of the job.
\<close>

lemma leases_ok_step:
  assumes ok: "leases_ok d" and j: "find_job key d = Some j" and spec: "ji_spec i = ji_spec j" and row: "job_row_ok i"
    and jobs: "db_jobs d' = db_jobs (put_job i d)"
    and others: "\<And>l. lr_job_key l \<noteq> key \<Longrightarrow> l \<in> set (db_leases d') \<longleftrightarrow> l \<in> set (db_leases d)"
    and own: "\<And>l. l \<in> set (db_leases d') \<Longrightarrow> lr_job_key l = key \<Longrightarrow> lease_fits i l"
    and held: "ji_lease_owner i \<noteq> None \<Longrightarrow> \<exists>l\<in>set (db_leases d'). lr_job_key l = key \<and> lr_released_at l = None \<and> held_by i l"
    and dist: "distinct (map (\<lambda>l. (lr_job_key l, lr_fencing_token l)) (db_leases d'))"
    and succ: "succession (set (db_leases d'))"
  shows "leases_ok d'"
proof -
  have mem: "j \<in> set (db_jobs d)" "key_of j = key" "key_of i = key"
    using find_job_Some [OF j] spec by auto
  have keys: "distinct (map key_of (db_jobs d))" using ok by (simp add: leases_ok_def)
  note put = put_job_set [OF keys mem(1), of i] mem
  have rest: "\<exists>x\<in>set (db_jobs d'). key_of x = lr_job_key l \<and> lease_fits x l" if l: "l \<in> set (db_leases d')" for l
  proof (cases "lr_job_key l = key")
    case True
    then show ?thesis using own [OF l] put jobs by auto
  next
    case False
    with l others obtain x where "x \<in> set (db_jobs d)" "key_of x = lr_job_key l" "lease_fits x l"
      using leases_okD(3) [OF ok] by blast
    then show ?thesis using False put jobs by auto
  qed
  have owners: "\<exists>l\<in>set (db_leases d'). lr_job_key l = key_of x \<and> lr_released_at l = None \<and> held_by x l"
    if x: "x \<in> set (db_jobs d')" "ji_lease_owner x \<noteq> None" for x
  proof (cases "x = i")
    case True
    then show ?thesis using held x(2) put by auto
  next
    case False
    then have mem_x: "x \<in> set (db_jobs d)" and "x \<noteq> j" using x(1) put jobs by auto
    then have other: "key_of x \<noteq> key"
      using same_key_same_job [OF keys mem_x mem(1)] unfolding mem(2) by blast
    obtain l where l: "l \<in> set (db_leases d)" "lr_job_key l = key_of x" "lr_released_at l = None" "held_by x l"
      using leases_okD(4) [OF ok mem_x x(2)] by blast
    with other others [of l] show ?thesis by metis
  qed
  have "job_row_ok x" if "x \<in> set (db_jobs d')" for x
    using that put jobs row leases_okD(2) [OF ok] by auto
  moreover have "distinct (map key_of (db_jobs d'))" using keys put(2) mem unfolding jobs by simp
  ultimately show ?thesis unfolding leases_ok_def using rest owners dist succ by blast
qed

section \<open>Every lease function keeps the invariant\<close>

lemma job_leases_fit:
  assumes "leases_ok d" "find_job key d = Some j" "l \<in> set (db_leases d)" "lr_job_key l = key"
  shows "lease_fits j l"
proof -
  obtain x where "x \<in> set (db_jobs d)" "key_of x = key" "lease_fits x l"
    using leases_okD(3) [OF assms(1,3)] assms(4) by blast
  moreover from this have "x = j"
    using same_key_same_job [OF leases_okD(1) [OF assms(1)]] find_job_Some [OF assms(2)] by blast
  ultimately show ?thesis by simp
qed

lemma open_is_current:
  assumes "leases_ok d" "find_job key d = Some j" "l \<in> set (db_leases d)" "lr_job_key l = key" "lr_released_at l = None"
  shows "ji_lease_owner j = Some (lr_owner l) \<and> ji_fencing_token j = lr_fencing_token l
    \<and> ji_leased_until j = Some (lr_leased_until l)"
  using job_leases_fit [OF assms(1-4)] assms(5) by (simp add: lease_fits_def held_by_def)

lemma update_leases_keys:
  assumes "\<And>l. lr_job_key (f l) = lr_job_key l" "\<And>l. lr_fencing_token (f l) = lr_fencing_token l"
  shows "map (\<lambda>l. (lr_job_key l, lr_fencing_token l)) (db_leases (update_leases P f d))
    = map (\<lambda>l. (lr_job_key l, lr_fencing_token l)) (db_leases d)"
  by (simp add: update_leases_def assms comp_def if_distrib cong: if_cong)

lemma update_leases_set:
  "set (db_leases (update_leases P f d)) = (\<lambda>l. if P l then f l else l) ` set (db_leases d)"
  by (simp add: update_leases_def)

lemma update_open_others:
  assumes "lr_job_key l \<noteq> key" "\<And>l. lr_job_key (f l) = lr_job_key l"
  shows "l \<in> set (db_leases (update_leases (open_lease key owner token) f d)) \<longleftrightarrow> l \<in> set (db_leases d)"
  using assms by (force simp: update_leases_set image_iff open_lease_def)

lemma succession_update:
  assumes "succession L"
    and "\<And>l. lr_job_key (g l) = lr_job_key l \<and> lr_fencing_token (g l) = lr_fencing_token l \<and> lr_acquired_at (g l) = lr_acquired_at l"
    and "\<And>l. l \<in> L \<Longrightarrow> taken_over (g l) \<Longrightarrow> g l = l"
  shows "succession (g ` L)"
  unfolding succession_def
proof (intro ballI impI)
  fix l m
  assume "l \<in> g ` L" "m \<in> g ` L" and hyp: "lr_job_key m = lr_job_key l
    \<and> lr_fencing_token m = lr_fencing_token l + 1 \<and> taken_over l"
  then obtain l0 m0 where l0: "l0 \<in> L" "l = g l0" and m0: "m0 \<in> L" "m = g m0" by blast
  then have "l = l0" using assms(3) [OF l0(1)] hyp by simp
  then show "lr_leased_until l \<le> lr_acquired_at m"
    using assms(1,2) hyp l0 m0 unfolding succession_def by simp
qed

lemma renew_keeps_ok:
  assumes "leases_ok d" "renew_job_lease key owner token lease_for now d = Inr (g, d')"
  shows "leases_ok d'"
  using assms(2)
proof (cases rule: renew_Inr)
  case (renewed j j')
  let ?P = "open_lease key owner token" and ?f = "\<lambda>l. l\<lparr>lr_leased_until := now + lease_for, lr_last_renewed_at := now\<rparr>"
  note f = fenced_job_Some [OF renewed(1)]
  have P: "?P l" if "l \<in> set (db_leases d)" "lr_job_key l = key" "lr_released_at l = None" for l
    using open_is_current [OF assms(1) conjunct1 [OF f] that] f that by (simp add: open_lease_def)
  show ?thesis
  proof (rule leases_ok_step [OF assms(1) conjunct1 [OF f], of j'])
    show "lease_fits j' l" if l: "l \<in> set (db_leases d')" "lr_job_key l = key" for l
    proof -
      obtain m where m: "m \<in> set (db_leases d)" "l = (if ?P m then ?f m else m)"
        using l(1) renewed by (auto simp: update_leases_set)
      then have "lr_job_key m = key" using l(2) by (auto split: if_splits)
      note fit = job_leases_fit [OF assms(1) conjunct1 [OF f] m(1) this]
      have same: "ji_fencing_token j' = ji_fencing_token j" "ji_lease_owner j' = ji_lease_owner j"
        "ji_leased_until j' = Some (now + lease_for)"
        by (simp_all add: renewed(2))
      show ?thesis
      proof (cases "?P m")
        case True
        with fit m(2) show ?thesis by (simp add: lease_fits_def held_by_def open_lease_def taken_over_def same)
      next
        case False
        then have "lr_released_at m \<noteq> None" using P [OF m(1) \<open>lr_job_key m = key\<close>] by blast
        with False fit m(2) show ?thesis by (auto simp: lease_fits_def same)
      qed
    qed
    obtain l where l: "l \<in> set (db_leases d)" "lr_job_key l = key" "lr_released_at l = None" "held_by j l"
      using leases_okD(4) [OF assms(1), of j] find_job_Some [OF conjunct1 [OF f]] f by auto
    show "\<exists>l\<in>set (db_leases d'). lr_job_key l = key \<and> lr_released_at l = None \<and> held_by j' l"
      using l P [OF l(1-3)] renewed by (intro bexI [of _ "?f l"]) (auto simp: update_leases_set held_by_def image_iff)
    show "succession (set (db_leases d'))"
      unfolding renewed(6) update_leases_set put_job_tables
      using leases_okD(6) [OF assms(1)]
    proof (rule succession_update)
      show "(if ?P l then ?f l else l) = l" if "l \<in> set (db_leases d)" "taken_over (if ?P l then ?f l else l)" for l
        using that job_leases_fit [OF assms(1) conjunct1 [OF f] that(1)]
        by (auto simp: open_lease_def lease_fits_def taken_over_def split: if_splits)
    qed auto
  qed (use renewed leases_okD(5) [OF assms(1)] in \<open>auto simp: update_leases_keys update_open_others\<close>)
qed (use assms in simp)

lemma close_lease_simps [simp]:
  "lr_job_key (close_lease now r l) = lr_job_key l" "lr_fencing_token (close_lease now r l) = lr_fencing_token l"
  "lr_acquired_at (close_lease now r l) = lr_acquired_at l" "lr_leased_until (close_lease now r l) = lr_leased_until l"
  "lr_released_at (close_lease now r l) = Some now" "lr_release_reason (close_lease now r l) = Some r"
  by (simp_all add: close_lease_def)

text \<open>After closing the open row of a job, none of its rows is open.\<close>

lemma closed_rows:
  assumes "leases_ok d" "find_job key d = Some j" "\<And>owner. ji_lease_owner j = Some owner \<Longrightarrow> P = open_lease key owner (ji_fencing_token j)"
    "l \<in> set (db_leases (update_leases P (close_lease now r) d))" "lr_job_key l = key" "ji_lease_owner j \<noteq> None"
  obtains m where "m \<in> set (db_leases d)" "lease_fits j m" "lr_job_key m = key" "lr_released_at l \<noteq> None"
    "l = m \<and> lr_released_at m \<noteq> None \<or> l = close_lease now r m \<and> held_by j m \<and> lr_released_at m = None"
proof -
  obtain owner where owner: "ji_lease_owner j = Some owner" using assms(6) by blast
  note P = assms(3) [OF owner]
  obtain m where m: "m \<in> set (db_leases d)" "l = (if P m then close_lease now r m else m)"
    using assms(4) by (auto simp: update_leases_set)
  then have key: "lr_job_key m = key" using assms(5) by (simp split: if_splits)
  note fit = job_leases_fit [OF assms(1,2) m(1) key]
  show ?thesis
  proof (cases "lr_released_at m")
    case None
    then have "P m" using open_is_current [OF assms(1,2) m(1) key] owner P key by (auto simp: open_lease_def)
    then show ?thesis using that [OF m(1) fit key] m(2) None fit by (simp add: lease_fits_def)
  next
    case (Some t)
    then have "\<not> P m" using P by (simp add: open_lease_def)
    then show ?thesis using that [OF m(1) fit key] m(2) Some by simp
  qed
qed

lemma release_keeps_ok:
  assumes "leases_ok d" "release_job_lease key owner token reason now d = Inr (b, d')" "reason \<noteq> ''EXPIRED_TAKEOVER''"
  shows "leases_ok d'"
  using assms(2)
proof (cases rule: release_Inr)
  case (released j j')
  let ?P = "open_lease key owner token"
  note f = fenced_job_Some [OF released(1)]
  show ?thesis
  proof (rule leases_ok_step [OF assms(1) conjunct1 [OF f], of j'])
    show "lease_fits j' l" if l: "l \<in> set (db_leases d')" "lr_job_key l = key" for l
    proof (rule closed_rows [OF assms(1) conjunct1 [OF f], of ?P l now reason])
      show "l \<in> set (db_leases (update_leases ?P (close_lease now reason) d))"
        using l(1) released by (simp add: update_leases_def)
      fix m
      assume "lease_fits j m" "lr_released_at l \<noteq> None"
        "l = m \<and> lr_released_at m \<noteq> None \<or> l = close_lease now reason m \<and> held_by j m \<and> lr_released_at m = None"
      then show "lease_fits j' l"
        using assms(3) released(2) by (auto simp: lease_fits_def taken_over_def)
    qed (use f l(2) in auto)
    show "succession (set (db_leases d'))"
      unfolding released(5) update_leases_set put_job_tables
      using leases_okD(6) [OF assms(1)]
      by (rule succession_update) (use assms(3) in \<open>auto simp: taken_over_def split: if_splits\<close>)
  qed (use released leases_okD(5) [OF assms(1)] in \<open>auto simp: update_leases_keys update_open_others\<close>)
qed (use assms in simp)

lemma transition_keeps_ok:
  assumes "leases_ok d" "transition_job_status key owner token status now d = Inr (r, d')"
  shows "leases_ok d'"
  using assms(2)
proof (cases rule: transition_Inr)
  case (moved j j')
  note f = fenced_job_Some [OF moved(1)]
  have same: "lease_fits j' = lease_fits j" "held_by j' = held_by j" "ji_lease_owner j' = ji_lease_owner j"
    by (simp_all add: moved(2) lease_fits_def held_by_def fun_eq_iff)
  show ?thesis
  proof (rule leases_ok_step [OF assms(1) conjunct1 [OF f], of j'])
    show "\<exists>l\<in>set (db_leases d'). lr_job_key l = key \<and> lr_released_at l = None \<and> held_by j' l"
      using leases_okD(4) [OF assms(1), of j] find_job_Some [OF conjunct1 [OF f]] f moved(5) same by auto
  qed (use moved same job_leases_fit [OF assms(1) conjunct1 [OF f]] leases_okD(5,6) [OF assms(1)] in auto)
qed (use assms in simp)

lemma overtaken_rows:
  assumes "leases_ok d" "find_job key d = Some j" "l \<in> set (db_leases (overtake j now d))" "lr_job_key l = key"
  obtains m where "m \<in> set (db_leases d)" "lease_fits j m" "lr_job_key m = key" "lr_released_at l \<noteq> None"
    "l = m \<and> lr_released_at m \<noteq> None \<or> l = close_lease now ''EXPIRED_TAKEOVER'' m \<and> held_by j m \<and> lr_released_at m = None"
proof (cases "ji_lease_owner j")
  case None
  then have l: "l \<in> set (db_leases d)" using assms(3) by (simp add: overtake_def)
  then have "lr_released_at l \<noteq> None" using open_is_current [OF assms(1,2) l assms(4)] None by auto
  with l show ?thesis using that [OF l job_leases_fit [OF assms(1,2) l assms(4)] assms(4)] by simp
next
  case (Some owner)
  show ?thesis
    by (rule closed_rows [OF assms(1,2), of "open_lease key owner (ji_fencing_token j)" l now "''EXPIRED_TAKEOVER''"])
      (use assms(3,4) Some find_job_Some [OF assms(2)] in \<open>auto simp: overtake_def intro: that\<close>)
qed

lemma overtake_keys:
  "map (\<lambda>l. (lr_job_key l, lr_fencing_token l)) (db_leases (overtake j now d))
     = map (\<lambda>l. (lr_job_key l, lr_fencing_token l)) (db_leases d)"
  by (simp add: overtake_def update_leases_keys split: option.split)

lemma overtake_others:
  "lr_job_key l \<noteq> key_of j \<Longrightarrow> l \<in> set (db_leases (overtake j now d)) \<longleftrightarrow> l \<in> set (db_leases d)"
  by (simp add: overtake_def update_open_others split: option.split)

lemma overtake_put [simp]: "db_leases (overtake j now (put_job i d)) = db_leases (overtake j now d)"
  "db_jobs (overtake j now d) = db_jobs d" "db_audits (overtake j now d) = db_audits d"
  by (simp_all add: overtake_def update_leases_def put_job_def split: option.split)

lemma succession_overtake:
  assumes "leases_ok d" "find_job key d = Some j" "\<And>t. ji_leased_until j = Some t \<Longrightarrow> t \<le> now"
    and new: "lr_job_key n = key" "lr_fencing_token n = ji_fencing_token j + 1" "lr_acquired_at n = now" "\<not> taken_over n"
  shows "succession (insert n (set (db_leases (overtake j now d))))"
  unfolding succession_def
proof (intro ballI impI)
  let ?L = "set (db_leases (overtake j now d))"
  fix l m
  assume lm: "l \<in> insert n ?L" "m \<in> insert n ?L" and hyp: "lr_job_key m = lr_job_key l
    \<and> lr_fencing_token m = lr_fencing_token l + 1 \<and> taken_over l"
  then have l: "l \<in> ?L" using new(4) by auto
  have old: "\<exists>x\<in>set (db_leases d). lr_job_key x = lr_job_key y \<and> lr_fencing_token x = lr_fencing_token y
      \<and> lr_acquired_at x = lr_acquired_at y \<and> lr_leased_until x = lr_leased_until y" if "y \<in> ?L" for y
    using that by (fastforce simp: overtake_def update_leases_set split: option.splits if_splits)
  show "lr_leased_until l \<le> lr_acquired_at m"
  proof (cases "lr_job_key l = key")
    case False
    then have "l \<in> set (db_leases d)" "m \<in> set (db_leases d)"
      using l lm(2) hyp new(1) overtake_others [of _ j now d] find_job_Some [OF assms(2)] by auto
    then show ?thesis using leases_okD(6) [OF assms(1)] hyp by (simp add: succession_def)
  next
    case True
    obtain x where x: "x \<in> set (db_leases d)" "lease_fits j x" "lr_job_key x = key"
      "l = x \<and> lr_released_at x \<noteq> None \<or> l = close_lease now ''EXPIRED_TAKEOVER'' x \<and> held_by j x \<and> lr_released_at x = None"
      using overtaken_rows [OF assms(1,2) l True] by metis
    from x(4) show ?thesis
    proof
      assume left: "l = x \<and> lr_released_at x \<noteq> None"
      then have "lr_fencing_token l < ji_fencing_token j" using x(2) hyp by (simp add: lease_fits_def)
      then have "m \<noteq> n" using hyp new(2) by auto
      then obtain y where "y \<in> set (db_leases d)" "lr_job_key y = lr_job_key m" "lr_fencing_token y = lr_fencing_token m"
        "lr_acquired_at y = lr_acquired_at m"
        using old [of m] lm(2) by auto
      then show ?thesis
        using leases_okD(6) [OF assms(1)] left x(1) hyp unfolding succession_def by metis
    next
      assume right: "l = close_lease now ''EXPIRED_TAKEOVER'' x \<and> held_by j x \<and> lr_released_at x = None"
      then have "lr_leased_until l \<le> now" "lr_fencing_token l = ji_fencing_token j"
        using assms(3) by (auto simp: held_by_def)
      moreover have "m = n"
      proof (rule ccontr)
        assume "m \<noteq> n"
        then obtain y where "y \<in> set (db_leases d)" "lr_job_key y = key" "lr_fencing_token y = ji_fencing_token j + 1"
          using old [of m] lm(2) hyp True calculation(2) by auto
        then show False using job_leases_fit [OF assms(1,2), of y] by (simp add: lease_fits_def)
      qed
      ultimately show ?thesis using new(3) by simp
    qed
  qed
qed

lemma acquire_keeps_ok:
  assumes "leases_ok d" "acquire_job_lease key owner lease_for now d = Inr (g, d')"
  shows "leases_ok d'"
  using assms(2)
proof (cases rule: acquire_Inr)
  case (granted j j')
  let ?n = "lease_row_of j' now"
  note key = find_job_Some [OF granted(1)]
  have leases: "db_leases d' = db_leases (overtake j now d) @ [?n]" and jobs: "db_jobs d' = db_jobs (put_job j' d)"
    by (simp_all add: granted(6))
  have row: "lr_job_key ?n = key" "lr_fencing_token ?n = ji_fencing_token j + 1" "lr_acquired_at ?n = now"
    "lr_released_at ?n = None" "held_by j' ?n" "lr_release_reason ?n = None" "\<not> taken_over ?n"
    using key by (simp_all add: granted(3) lease_row_of_def held_by_def taken_over_def)
  show ?thesis
  proof (rule leases_ok_step [OF assms(1) granted(1), of j'])
    show "lease_fits j' l" if l: "l \<in> set (db_leases d')" "lr_job_key l = key" for l
    proof (cases "l = ?n")
      case True
      have "0 \<le> ji_fencing_token j" using leases_okD(2) [OF assms(1)] key by (simp add: job_row_ok_def)
      with True row show ?thesis by (simp add: lease_fits_def granted(3))
    next
      case False
      then have "l \<in> set (db_leases (overtake j now d))" using l leases by auto
      then show ?thesis
      proof (rule overtaken_rows [OF assms(1) granted(1) _ l(2)])
        fix m
        assume "lease_fits j m" "lr_released_at l \<noteq> None" "l = m \<and> lr_released_at m \<noteq> None
          \<or> l = close_lease now ''EXPIRED_TAKEOVER'' m \<and> held_by j m \<and> lr_released_at m = None"
        then show ?thesis by (auto simp: lease_fits_def granted(3))
      qed
    qed
    have "(key, ji_fencing_token j + 1) \<notin> (\<lambda>l. (lr_job_key l, lr_fencing_token l)) ` set (db_leases d)"
      using job_leases_fit [OF assms(1) granted(1)] by (fastforce simp: lease_fits_def)
    then show "distinct (map (\<lambda>l. (lr_job_key l, lr_fencing_token l)) (db_leases d'))"
      using leases_okD(5) [OF assms(1)] row unfolding leases by (simp add: overtake_keys flip: set_map)
    show "succession (set (db_leases d'))"
      using succession_overtake [OF assms(1) granted(1,2) row(1-3,7)] unfolding leases by simp
    show "l \<in> set (db_leases d') \<longleftrightarrow> l \<in> set (db_leases d)" if "lr_job_key l \<noteq> key" for l
      using that row(1) key overtake_others [of l j now d] unfolding leases by auto
  qed (use granted row leases jobs in auto)
qed (use assms in simp)

lemma add_keeps_ok:
  assumes "leases_ok d" "sql_insert_job spec now d = Inr (r, d')"
  shows "leases_ok d'"
proof (cases r)
  case None
  with assms show ?thesis by (auto simp: sql_insert_job_def Let_def split: if_splits)
next
  case (Some row)
  then have new: "find_job (job_key spec) d = None" "db_jobs d' = db_jobs d @ [row]" "db_leases d' = db_leases d"
    "job_row_ok row" "ji_spec row = spec" "ji_lease_owner row = None"
    using assms(2) by (auto simp: sql_insert_job_def Let_def split: if_splits)
  then have "job_key spec \<notin> key_of ` set (db_jobs d)" by (auto simp: find_job_def find_None_iff)
  with assms(1) new show ?thesis unfolding leases_ok_def by (auto 0 3)
qed

section \<open>The job tables only move forward\<close>

definition others_same :: "db \<Rightarrow> db \<Rightarrow> bool" where
  "others_same d d' \<longleftrightarrow> d' = d\<lparr>db_jobs := db_jobs d', db_leases := db_leases d', db_audits := db_audits d'\<rparr>"

lemma others_same_evolves: "others_same d d' \<Longrightarrow> jobs_evolve d d' \<Longrightarrow> evolves d d'"
  unfolding others_same_def by (cases d') (simp add: evolves_def find_intent_def find_row_by_id_def)

lemma others_same_steps [simp]:
  "others_same d d" "others_same d (put_job j d)" "others_same d (update_leases P f (put_job j d))"
  "others_same d ((overtake i now (put_job j d))\<lparr>db_leases := ls\<rparr>)" "others_same d (d\<lparr>db_jobs := js\<rparr>)"
  "others_same d (d\<lparr>db_audits := as\<rparr>)"
  by (simp_all add: others_same_def put_job_def update_leases_def overtake_def split: option.split)

lemma jobs_evolve_step:
  assumes "find_job key d = Some j" "ji_spec i = ji_spec j" "ji_created_at i = ji_created_at j"
    "ji_fencing_token j \<le> ji_fencing_token i" "ji_attempt_count j \<le> ji_attempt_count i"
    and "db_jobs d' = db_jobs (put_job i d)" "db_audits d' = db_audits d"
    and "db_leases d' = map g (db_leases d) @ new" "\<And>l. lease_progress l (g l)"
  shows "jobs_evolve d d'"
  unfolding jobs_evolve_def
proof (intro conjI allI impI)
  fix k x
  assume x: "find_job k d = Some x"
  have "find_job k d' = find_job k (put_job i d)" using assms(6) by (simp add: find_job_def)
  also have "\<dots> = (if key_of i = k then Some i else Some x)" using find_job_put [OF assms(1)] x by simp
  finally show "\<exists>x'. find_job k d' = Some x' \<and> job_progress x x'"
    using assms(1-5) x find_job_Some [OF assms(1)] by (auto simp: job_progress_def)
next
  show "\<exists>ls. list_all2 lease_progress (db_leases d) ls \<and> grows ls (db_leases d')"
    using assms(8,9) by (intro exI [of _ "map g (db_leases d)"]) (simp add: list_all2_map2 list.rel_refl grows_def)
qed (simp add: assms(7))

lemma update_leases_map: "db_leases (update_leases P f d) = map (\<lambda>l. if P l then f l else l) (db_leases d)"
  by (simp add: update_leases_def)

lemma jobs_evolve_update:
  assumes "find_job key d = Some j" "ji_spec i = ji_spec j" "ji_created_at i = ji_created_at j"
    "ji_fencing_token j \<le> ji_fencing_token i" "ji_attempt_count j \<le> ji_attempt_count i"
    and "\<And>l. P l \<Longrightarrow> lease_progress l (f l)"
  shows "jobs_evolve d (update_leases P f (put_job i d))"
  by (rule jobs_evolve_step [OF assms(1-5), of _ "\<lambda>l. if P l then f l else l" "[]"])
    (simp_all add: update_leases_map assms(6))

lemma lease_statements_evolve [evolve_intros]:
  "acquire_job_lease key owner lease_for now d = Inr (r1, d') \<Longrightarrow> evolves d d'"
  "renew_job_lease key owner token lease_for now d = Inr (r2, d') \<Longrightarrow> evolves d d'"
  "release_job_lease key owner token reason now d = Inr (r3, d') \<Longrightarrow> evolves d d'"
  "transition_job_status key owner token status now d = Inr (r4, d') \<Longrightarrow> evolves d d'"
proof -
  let ?close = "\<lambda>j l. if (\<exists>owner. ji_lease_owner j = Some owner \<and> open_lease (key_of j) owner (ji_fencing_token j) l)
    then close_lease now ''EXPIRED_TAKEOVER'' l else l"
  have shut: "lease_progress l (close_lease t r l)" if "lr_released_at l = None" for l t r
    using that by (simp add: lease_progress_def close_lease_def)
  show "evolves d d'" if "acquire_job_lease key owner lease_for now d = Inr (r1, d')"
    using that
  proof (cases rule: acquire_Inr)
    case (granted j j')
    have "db_leases (overtake j now d) = map (?close j) (db_leases d)"
      by (auto simp: overtake_def update_leases_map split: option.split)
    then show ?thesis
      using granted shut
      by (intro others_same_evolves jobs_evolve_step [of key d j j' d' "?close j" "[lease_row_of j' now]"])
        (auto simp: open_lease_def)
  qed simp
  show "evolves d d'" if "renew_job_lease key owner token lease_for now d = Inr (r2, d')"
    using that
  proof (cases rule: renew_Inr)
    case (renewed j j')
    show ?thesis
      unfolding renewed(6)
      by (rule others_same_evolves, simp, rule jobs_evolve_update)
        (use fenced_job_Some [OF renewed(1)] renewed(2) in \<open>auto simp: open_lease_def lease_progress_def\<close>)
  qed simp
  show "evolves d d'" if "release_job_lease key owner token reason now d = Inr (r3, d')"
    using that
  proof (cases rule: release_Inr)
    case (released j j')
    show ?thesis
      unfolding released(5)
      by (rule others_same_evolves, simp, rule jobs_evolve_update)
        (use fenced_job_Some [OF released(1)] released(2) shut in \<open>auto simp: open_lease_def\<close>)
  qed simp
  show "evolves d d'" if "transition_job_status key owner token status now d = Inr (r4, d')"
    using that
  proof (cases rule: transition_Inr)
    case (moved j j')
    then show ?thesis
      using fenced_job_Some [OF moved(1)]
      by (intro others_same_evolves jobs_evolve_step [of key d j j' d' id "[]"]) auto
  qed simp
qed

lemma insert_job_evolves [evolve_intros]: "sql_insert_job spec now d = Inr (r, d') \<Longrightarrow> evolves d d'"
  by (rule others_same_evolves)
    (auto simp: sql_insert_job_def Let_def jobs_evolve_def find_job_def find_append list.rel_refl split: if_splits
      intro!: exI [of _ "db_leases d"])

lemma insert_audit_evolves [evolve_intros]: "sql_insert_audit e now d = Inr (r, d') \<Longrightarrow> evolves d d'"
  by (rule others_same_evolves)
    (auto simp: sql_insert_audit_def jobs_evolve_def find_job_def list.rel_refl split: if_splits
      intro!: exI [of _ "db_leases d"])

lemma store_jobs [store_intros]:
  "keeps store_frame (jobs_get key)" "keeps store_frame (jobs_acquire key owner duration)"
  "keeps store_frame (jobs_renew g duration)" "keeps store_frame (jobs_release g)"
  "keeps store_frame (jobs_set_status g status)" "keeps store_frame (audit_events_add e)"
  unfolding jobs_get_def jobs_acquire_def jobs_renew_def jobs_release_def jobs_set_status_def audit_events_add_def
  by (intro store_intros sf.tf.keeps_rules; erule evolve_intros)+

lemma store_add_job [store_intros]: "keeps store_frame (jobs_add spec)"
  unfolding jobs_add_def by (intro store_intros sf.tf.keeps_rules store_jobs; erule evolve_intros)

section \<open>The fence\<close>

text \<open>A grant whose token was overtaken selects no row, now and in every later database.\<close>

lemma stale_is_fenced:
  assumes "find_job key d = Some j" "token < ji_fencing_token j" "evolves d d'"
  shows "fenced_job key owner token now d' = None"
proof -
  obtain j' where "find_job key d' = Some j'" "ji_fencing_token j \<le> ji_fencing_token j'"
    using assms(1,3) unfolding evolves_def jobs_evolve_def job_progress_def by blast
  with assms(2) show ?thesis by (simp add: fenced_job_def)
qed

lemma acquire_raises_token:
  assumes "acquire_job_lease key owner lease_for now d = Inr (Some g, d')"
  shows "\<exists>j j'. find_job key d = Some j \<and> find_job key d' = Some j' \<and> lg_fencing_token g = ji_fencing_token j'
    \<and> ji_fencing_token j < ji_fencing_token j' \<and> lg_job_key g = key \<and> lg_lease_owner g = owner"
  using assms
proof (cases rule: acquire_Inr)
  case (granted j j')
  have "find_job key d' = find_job key (put_job j' d)" by (simp add: granted(6) find_job_def)
  also have "\<dots> = Some j'" using find_job_put [OF granted(1)] granted(1,3) find_job_Some [OF granted(1)] by simp
  finally show ?thesis using granted find_job_Some [OF granted(1)] by (auto simp: grant_of_def)
qed simp

end
