(* ===== verification/Job_Service.thy ===== *)
theory Job_Service
  imports Job_Leases
begin

text \<open>
  \<open>application/job_service.py\<close>: a fenced status change and its audit record in one
  transaction, with the outcome it reports to telemetry. The telemetry facade records
  best-effort and swallows its own failures, so what it does with a report is left out;
  which outcome is reported is part of the result here.
\<close>

section \<open>Telemetry context\<close>

definition TRACE_ID_PATTERN :: rx where "TRACE_ID_PATTERN = Rep 32 32 (Cls is_hex)"
definition SPAN_ID_PATTERN :: rx where "SPAN_ID_PATTERN = Rep 16 16 (Cls is_hex)"

text \<open>\<open>int(value, 16) == 0\<close> on hexadecimal digits.\<close>

definition hex_zero :: "string \<Rightarrow> bool" where
  "hex_zero s \<longleftrightarrow> list_all (\<lambda>c. c = CHR ''0'') s"

definition TraceId :: "string \<Rightarrow> string outcome" where
  "TraceId value = (if \<not> fullmatch TRACE_ID_PATTERN value \<or> hex_zero value then Inl ValueError else Inr value)"

definition SpanId :: "string \<Rightarrow> string outcome" where
  "SpanId value = (if \<not> fullmatch SPAN_ID_PATTERN value \<or> hex_zero value then Inl ValueError else Inr value)"

record telemetry_context =
  tc_run_id :: uuid
  tc_correlation_id :: uuid
  tc_trace_id :: string
  tc_span_id :: string
  tc_parent_span_id :: "string option"

definition validate_telemetry_context :: "telemetry_context \<Rightarrow> telemetry_context outcome" where
  "validate_telemetry_context c =
     bindO (require (tc_run_id c \<noteq> 0)) (\<lambda>_.
     bindO (require (tc_correlation_id c \<noteq> 0)) (\<lambda>_.
     bindO (TraceId (tc_trace_id c)) (\<lambda>_.
     bindO (SpanId (tc_span_id c)) (\<lambda>_.
     bindO (case tc_parent_span_id c of
              None \<Rightarrow> Inr ()
            | Some p \<Rightarrow> bindO (SpanId p) (\<lambda>_. require (p \<noteq> tc_span_id c))) (\<lambda>_. Inr c)))))"

text \<open>\<open>TelemetryContext.child\<close>.\<close>

definition child_context :: "telemetry_context \<Rightarrow> string \<Rightarrow> telemetry_context outcome" where
  "child_context c span_id =
     (if span_id = tc_span_id c then Inl ValueError
      else validate_telemetry_context (c\<lparr>tc_span_id := span_id, tc_parent_span_id := Some (tc_span_id c)\<rparr>))"

section \<open>The transition\<close>

datatype job_transition_outcome = SUCCESS | STALE_LEASE | AUDIT_FAILURE | DATABASE_FAILURE

text \<open>\<open>_validate_audit_telemetry_identity\<close>; its error is a \<open>ValueError\<close>.\<close>

definition validate_audit_telemetry_identity :: "audit_event \<Rightarrow> telemetry_context \<Rightarrow> unit outcome" where
  "validate_audit_telemetry_identity e c =
     bindO (validate_telemetry_context c) (\<lambda>_.
       if ae_run_id e = None \<or> Some (tc_run_id c) \<noteq> ae_run_id e \<or> tc_correlation_id c \<noteq> ae_correlation_id e
       then Inl ValueError else Inr ())"

text \<open>\<open>__enter__\<close> connects and sets the time zone; \<open>__exit__\<close> with an exception rolls back first.\<close>

definition uow_enter :: "('b world, unit) comp" where
  "uow_enter w0 =
     (let w = env_step w0 in
      (if w_faults w (w_tick w) = NoFault then Inr () else Inl DatabaseError, uow_close w))"

definition uow_exit_raising :: "exn \<Rightarrow> ('b world, exn) comp" where
  "uow_exit_raising e w0 =
     (let w = env_step w0 in
      (Inr (if w_dead w \<or> w_faults w (w_tick w) \<noteq> NoFault then DatabaseError else e), uow_close w))"

type_synonym transition_result = "exn + job_instance \<times> utc \<times> audit_event"

text \<open>The body of the \<open>with\<close> block, with the failure stage at the point where it stopped.\<close>

definition transition_body ::
  "lease_grant \<Rightarrow> job_status \<Rightarrow> audit_event \<Rightarrow> ('b world, transition_result \<times> job_transition_outcome) comp" where
  "transition_body grant status audit_event =
     bindM (attemptM (jobs_set_status grant status)) (\<lambda>outcome.
       case outcome of
         Inl e \<Rightarrow> returnM (Inl e, DATABASE_FAILURE)
       | Inr None \<Rightarrow> returnM (Inl StaleLeaseError, DATABASE_FAILURE)
       | Inr (Some job) \<Rightarrow>
           bindM (attemptM (audit_events_add audit_event)) (\<lambda>outcome.
             case outcome of
               Inl e \<Rightarrow> returnM (Inl e, AUDIT_FAILURE)
             | Inr recorded \<Rightarrow>
                 bindM (attemptM uow_commit) (\<lambda>outcome.
                   case outcome of
                     Inl e \<Rightarrow> returnM (Inl e, DATABASE_FAILURE)
                   | Inr _ \<Rightarrow> returnM (Inr (job, recorded), SUCCESS))))"

definition transition_in_unit_of_work ::
  "lease_grant \<Rightarrow> job_status \<Rightarrow> audit_event \<Rightarrow> ('b world, transition_result \<times> job_transition_outcome) comp" where
  "transition_in_unit_of_work grant status audit_event =
     bindM (attemptM uow_enter) (\<lambda>entered.
       case entered of
         Inl e \<Rightarrow> returnM (Inl e, DATABASE_FAILURE)
       | Inr _ \<Rightarrow>
           bindM (transition_body grant status audit_event) (\<lambda>(result, stage).
             case result of
               Inr done_pair \<Rightarrow> bindM (modifyM uow_close) (\<lambda>_. returnM (Inr done_pair, SUCCESS))
             | Inl e \<Rightarrow>
                 bindM (uow_exit_raising e) (\<lambda>e'.
                   returnM (Inl e', if e' = StaleLeaseError then STALE_LEASE else stage))))"

text \<open>The result is what the call raises or returns, with the outcome it reported, if any.\<close>

definition transition_job_with_audit ::
  "lease_grant \<Rightarrow> job_status \<Rightarrow> audit_event \<Rightarrow> telemetry_context \<Rightarrow>
   ('b world, transition_result \<times> job_transition_outcome option) comp" where
  "transition_job_with_audit grant status audit_event context =
     (case validate_audit_telemetry_identity audit_event context of
        Inl e \<Rightarrow> returnM (Inl e, None)
      | Inr _ \<Rightarrow>
          if tp_target_status (ae_payload audit_event) \<noteq> status then returnM (Inl ValueError, None)
          else bindM (transition_in_unit_of_work grant status audit_event) (\<lambda>(result, outcome).
                 returnM (result, Some outcome)))"

section \<open>Atomicity\<close>

definition job_part :: "db \<Rightarrow> job_instance list \<times> lease_row list \<times> (utc \<times> audit_event) list" where
  "job_part d = (db_jobs d, db_leases d, db_audits d)"

definition jobs_at :: "db \<Rightarrow> 'b world \<Rightarrow> bool" where
  "jobs_at d w \<longleftrightarrow> job_part (w_committed w) = job_part d"

lemma env_step_jobs [simp]:
  "job_part (w_committed (env_step w)) = job_part (w_committed w)" "job_part (w_working (env_step w)) = job_part (w_working w)"
  by (auto simp: job_part_def env_step_def Let_def dest!: sql_pause_db split: option.split sum.split)

lemma jobs_at_statement: "triple (jobs_at d) (statement f) (\<lambda>_. jobs_at d) (\<lambda>_. jobs_at d)"
  by (auto simp: triple_def statement_def Let_def jobs_at_def lose_connection_def split: fault.split sum.split)

text \<open>What a fenced write puts into the open transaction.\<close>

definition moved :: "lease_grant \<Rightarrow> job_status \<Rightarrow> db \<Rightarrow> job_instance \<Rightarrow> db \<Rightarrow> bool" where
  "moved g status d job d' \<longleftrightarrow>
     (\<exists>j now. fenced_job (lg_job_key g) (lg_lease_owner g) (lg_fencing_token g) now d = Some j
        \<and> job = j\<lparr>ji_status := status, ji_updated_at := now\<rparr> \<and> job_part d' = job_part (put_job job d))"

lemma fenced_job_part: "job_part d = job_part e \<Longrightarrow> fenced_job k ow t n d = fenced_job k ow t n e"
  by (simp add: job_part_def fenced_job_def find_job_def)

lemma put_job_part: "job_part d = job_part e \<Longrightarrow> job_part (put_job j d) = job_part (put_job j e)"
  by (simp add: job_part_def put_job_def)

lemma set_status_moves:
  "triple (\<lambda>w. settled w \<and> jobs_at d w) (jobs_set_status g status)
     (\<lambda>r w. jobs_at d w \<and> (case r of None \<Rightarrow> True | Some job \<Rightarrow> \<not> w_aborted w \<and> moved g status d job (w_working w)))
     (\<lambda>_. jobs_at d)"
proof -
  have "returns (\<lambda>w. settled w \<and> jobs_at d w)
      (statement (transition_job_status (lg_job_key g) (lg_lease_owner g) (lg_fencing_token g) status))
      (\<lambda>r w. case r of None \<Rightarrow> True | Some job \<Rightarrow> \<not> w_aborted w \<and> moved g status d job (w_working w))"
  proof (rule ret_statement)
    fix w now r d'
    assume w: "settled w \<and> jobs_at d w" "\<not> w_aborted w" and stm: "transition_job_status (lg_job_key g) (lg_lease_owner g)
      (lg_fencing_token g) status now (w_working (env_step w)) = Inr (r, d')"
    have part: "job_part (w_working (env_step w)) = job_part d" using w by (simp add: settled_def jobs_at_def)
    from stm show "case r of None \<Rightarrow> True | Some job \<Rightarrow> \<not> w_aborted ((env_step w)\<lparr>w_working := d'\<rparr>)
        \<and> moved g status d job (w_working ((env_step w)\<lparr>w_working := d'\<rparr>))"
      by (cases rule: transition_Inr)
        (use w(2) fenced_job_part [OF part] put_job_part [OF part] in \<open>auto simp: moved_def\<close>)
  qed
  from triple_conj [OF this triple_pre [OF jobs_at_statement]]
  have stm: "triple (\<lambda>w. settled w \<and> jobs_at d w)
      (statement (transition_job_status (lg_job_key g) (lg_lease_owner g) (lg_fencing_token g) status))
      (\<lambda>r w. jobs_at d w \<and> (case r of None \<Rightarrow> True | Some job \<Rightarrow> \<not> w_aborted w \<and> moved g status d job (w_working w)))
      (\<lambda>_. jobs_at d)"
    by (rule triple_weaken) auto
  show ?thesis
    unfolding jobs_set_status_def
    by (rule triple_bind [OF stm])
      (auto simp: triple_def run_simps mark_write_def load_job_def JobSpec_def jobs_at_def split: option.split)
qed

definition moved_and_recorded :: "lease_grant \<Rightarrow> job_status \<Rightarrow> audit_event \<Rightarrow> db \<Rightarrow> job_instance \<Rightarrow> utc \<Rightarrow> db \<Rightarrow> bool" where
  "moved_and_recorded g status e d job t d' \<longleftrightarrow>
     (\<exists>j now. fenced_job (lg_job_key g) (lg_lease_owner g) (lg_fencing_token g) now d = Some j
        \<and> job = j\<lparr>ji_status := status, ji_updated_at := now\<rparr>
        \<and> db_jobs d' = db_jobs (put_job job d) \<and> db_leases d' = db_leases d \<and> db_audits d' = db_audits d @ [(t, e)])"

lemma moved_and_recorded_part:
  "job_part d' = job_part d'' \<Longrightarrow> moved_and_recorded g status e d job t d' = moved_and_recorded g status e d job t d''"
  by (simp add: moved_and_recorded_def job_part_def)

lemma moved_env_step [simp]:
  "moved_and_recorded g status e d job t (w_working (env_step w)) = moved_and_recorded g status e d job t (w_working w)"
  by (rule moved_and_recorded_part) simp

lemma audit_records:
  "triple (\<lambda>w. jobs_at d w \<and> \<not> w_aborted w \<and> moved g status d job (w_working w)) (audit_events_add e)
     (\<lambda>(t, e') w. jobs_at d w \<and> \<not> w_aborted w \<and> e' = e \<and> moved_and_recorded g status e d job t (w_working w))
     (\<lambda>_. jobs_at d)"
proof -
  have "returns (\<lambda>w. jobs_at d w \<and> \<not> w_aborted w \<and> moved g status d job (w_working w)) (statement (sql_insert_audit e))
      (\<lambda>t w. \<not> w_aborted w \<and> moved_and_recorded g status e d job t (w_working w))"
  proof (rule ret_statement)
    fix w now t d'
    assume "jobs_at d w \<and> \<not> w_aborted w \<and> moved g status d job (w_working w)"
      "sql_insert_audit e now (w_working (env_step w)) = Inr (t, d')"
    moreover have "job_part (w_working (env_step w)) = job_part (w_working w)" by simp
    ultimately show "\<not> w_aborted ((env_step w)\<lparr>w_working := d'\<rparr>)
        \<and> moved_and_recorded g status e d job t (w_working ((env_step w)\<lparr>w_working := d'\<rparr>))"
      unfolding moved_def moved_and_recorded_def job_part_def by (fastforce simp: sql_insert_audit_def split: if_splits)
  qed
  from triple_conj [OF this triple_pre [OF jobs_at_statement]]
  have stm: "triple (\<lambda>w. jobs_at d w \<and> \<not> w_aborted w \<and> moved g status d job (w_working w)) (statement (sql_insert_audit e))
      (\<lambda>t w. jobs_at d w \<and> \<not> w_aborted w \<and> moved_and_recorded g status e d job t (w_working w)) (\<lambda>_. jobs_at d)"
    by (rule triple_weaken) auto
  show ?thesis
    unfolding audit_events_add_def
    by (rule triple_bind [OF stm]) (simp add: triple_def run_simps mark_write_def jobs_at_def)
qed

lemma commit_or_not:
  "triple (\<lambda>w. jobs_at d w \<and> \<not> w_aborted w \<and> moved_and_recorded g status e d job t (w_working w)) uow_commit
     (\<lambda>_ w. moved_and_recorded g status e d job t (w_committed w))
     (\<lambda>x w. x = DatabaseError \<and> (jobs_at d w \<or> moved_and_recorded g status e d job t (w_committed w)))"
  by (auto simp: triple_def uow_commit_def Let_def jobs_at_def lose_connection_def split: fault.split)

text \<open>The ways the body can end.\<close>

definition transition_post ::
  "lease_grant \<Rightarrow> job_status \<Rightarrow> audit_event \<Rightarrow> db \<Rightarrow> transition_result \<times> job_transition_outcome \<Rightarrow> 'b world \<Rightarrow> bool" where
  "transition_post g status e d r w \<longleftrightarrow>
     (case r of
        (Inr (job, t, e'), oc) \<Rightarrow> oc = SUCCESS \<and> e' = e \<and> moved_and_recorded g status e d job t (w_committed w)
      | (Inl x, oc) \<Rightarrow>
          oc \<noteq> SUCCESS \<and> (jobs_at d w \<or> x = DatabaseError \<and> oc = DATABASE_FAILURE
            \<and> (\<exists>job t. moved_and_recorded g status e d job t (w_committed w))))"

lemma body_post: "triple (\<lambda>w. settled w \<and> jobs_at d w) (transition_body g status e) (transition_post g status e d) E"
  unfolding transition_body_def
proof (rule triple_bind_attempt [OF set_status_moves], unfold sum.case)
  have stop: "triple P (returnM (Inl x, oc)) (transition_post g status e d) E"
    if "\<And>w. P w \<Longrightarrow> jobs_at d w" "oc \<noteq> SUCCESS" for P x oc
    using that by (simp add: triple_def run_simps transition_post_def)
  have commit: "triple (\<lambda>w. jobs_at d w \<and> \<not> w_aborted w \<and> moved_and_recorded g status e d job t (w_working w))
      (bindM (attemptM uow_commit) (\<lambda>outcome. case outcome of
          Inl x \<Rightarrow> returnM (Inl x, DATABASE_FAILURE) | Inr _ \<Rightarrow> returnM (Inr (job, t, e), SUCCESS)))
      (transition_post g status e d) E" for job t
    by (rule triple_bind_attempt [OF commit_or_not]) (auto simp: triple_def run_simps transition_post_def)
  have audit: "triple (\<lambda>w. jobs_at d w \<and> \<not> w_aborted w \<and> moved g status d job (w_working w))
      (bindM (attemptM (audit_events_add e)) (\<lambda>outcome. case outcome of
          Inl x \<Rightarrow> returnM (Inl x, AUDIT_FAILURE)
        | Inr recorded \<Rightarrow> bindM (attemptM uow_commit) (\<lambda>outcome. case outcome of
            Inl x \<Rightarrow> returnM (Inl x, DATABASE_FAILURE) | Inr _ \<Rightarrow> returnM (Inr (job, recorded), SUCCESS))))
      (transition_post g status e d) E" for job
  proof (rule triple_bind_attempt [OF audit_records], unfold sum.case)
    fix recorded :: "utc \<times> audit_event"
    obtain t e' where recorded: "recorded = (t, e')" by (cases recorded)
    show "triple (case recorded of (t, e') \<Rightarrow> \<lambda>w. jobs_at d w \<and> \<not> w_aborted w \<and> e' = e
          \<and> moved_and_recorded g status e d job t (w_working w))
        (bindM (attemptM uow_commit) (\<lambda>outcome. case outcome of
          Inl x \<Rightarrow> returnM (Inl x, DATABASE_FAILURE) | Inr _ \<Rightarrow> returnM (Inr (job, recorded), SUCCESS)))
        (transition_post g status e d) E"
    proof (cases "e' = e")
      case True
      show ?thesis unfolding recorded prod.case True by (rule triple_pre [OF commit]) simp
    qed (simp add: recorded triple_def)
  qed (rule stop, simp_all)
  show "triple (\<lambda>w. jobs_at d w \<and> (case r of None \<Rightarrow> True | Some job \<Rightarrow> \<not> w_aborted w \<and> moved g status d job (w_working w)))
      (case r of None \<Rightarrow> returnM (Inl StaleLeaseError, DATABASE_FAILURE)
       | Some job \<Rightarrow> bindM (attemptM (audit_events_add e)) (\<lambda>outcome. case outcome of
            Inl x \<Rightarrow> returnM (Inl x, AUDIT_FAILURE)
          | Inr recorded \<Rightarrow> bindM (attemptM uow_commit) (\<lambda>outcome. case outcome of
              Inl x \<Rightarrow> returnM (Inl x, DATABASE_FAILURE) | Inr _ \<Rightarrow> returnM (Inr (job, recorded), SUCCESS))))
      (transition_post g status e d) E" for r
    using stop audit by (cases r) simp_all
  show "triple (jobs_at d) (returnM (Inl x, DATABASE_FAILURE)) (transition_post g status e d) E" for x
    by (rule stop) simp_all
qed

lemma unit_of_work_post:
  "triple (jobs_at d) (transition_in_unit_of_work g status e) (transition_post g status e d) E"
  unfolding transition_in_unit_of_work_def
proof (rule triple_bind_attempt, unfold sum.case)
  show "triple (jobs_at d) uow_enter (\<lambda>_ w. settled w \<and> jobs_at d w) (\<lambda>_. jobs_at d)"
    by (simp add: triple_def uow_enter_def Let_def jobs_at_def)
  show "triple (jobs_at d) (returnM (Inl x, DATABASE_FAILURE)) (transition_post g status e d) E" for x
    by (simp add: triple_def run_simps transition_post_def)
  show "triple (\<lambda>w. settled w \<and> jobs_at d w) (bindM (transition_body g status e) (\<lambda>(result, stage). case result of
      Inl x \<Rightarrow> bindM (uow_exit_raising x) (\<lambda>e'. returnM (Inl e', if e' = StaleLeaseError then STALE_LEASE else stage))
    | Inr done_pair \<Rightarrow> bindM (modifyM uow_close) (\<lambda>_. returnM (Inr done_pair, SUCCESS)))) (transition_post g status e d) E"
  proof (rule triple_bind [OF body_post])
    fix r :: "transition_result \<times> job_transition_outcome"
    show "triple (transition_post g status e d r) (case r of (result, stage) \<Rightarrow> case result of
        Inl x \<Rightarrow> bindM (uow_exit_raising x) (\<lambda>e'. returnM (Inl e', if e' = StaleLeaseError then STALE_LEASE else stage))
      | Inr done_pair \<Rightarrow> bindM (modifyM uow_close) (\<lambda>_. returnM (Inr done_pair, SUCCESS))) (transition_post g status e d) E"
      by (cases r; cases "fst r")
        (auto simp: triple_def run_simps transition_post_def uow_exit_raising_def Let_def jobs_at_def
          cong: moved_and_recorded_part)
  qed
qed

lemma transition_atomic:
  assumes "transition_job_with_audit g status e c w = (x, v)"
  shows "\<exists>result outcome. x = Inr (result, outcome)
    \<and> (case result of
         Inr (job, t, e') \<Rightarrow> outcome = Some SUCCESS \<and> e' = e \<and> moved_and_recorded g status e (w_committed w) job t (w_committed v)
       | Inl err \<Rightarrow> outcome \<noteq> Some SUCCESS
           \<and> (jobs_at (w_committed w) v
              \<or> err = DatabaseError \<and> outcome = Some DATABASE_FAILURE
                \<and> (\<exists>job t. moved_and_recorded g status e (w_committed w) job t (w_committed v))))"
    (is "\<exists>result outcome. x = _ \<and> ?post result outcome v")
proof -
  have "triple (jobs_at (w_committed w)) (transition_job_with_audit g status e c) (\<lambda>(result, outcome). ?post result outcome) (\<lambda>_ _. False)"
    unfolding transition_job_with_audit_def
  proof (cases "validate_audit_telemetry_identity e c")
    case (Inr u)
    have "triple (transition_post g status e (w_committed w) r) (case r of (result, outcome) \<Rightarrow> returnM (result, Some outcome))
        (\<lambda>(result, outcome). ?post result outcome) (\<lambda>_ _. False)" for r
      by (cases r) (auto simp: triple_def run_simps transition_post_def split: sum.splits prod.splits)
    then show "triple (jobs_at (w_committed w)) (case validate_audit_telemetry_identity e c of
        Inl e \<Rightarrow> returnM (Inl e, None)
      | Inr _ \<Rightarrow> if tp_target_status (ae_payload e) \<noteq> status then returnM (Inl ValueError, None)
          else bindM (transition_in_unit_of_work g status e) (\<lambda>(result, outcome). returnM (result, Some outcome)))
        (\<lambda>(result, outcome). ?post result outcome) (\<lambda>_ _. False)"
      unfolding Inr sum.case
      by (intro triple_if triple_bind [OF unit_of_work_post]) (simp_all add: triple_def run_simps)
  qed (simp add: triple_def run_simps)
  moreover have "jobs_at (w_committed w) w" by (simp add: jobs_at_def)
  ultimately show ?thesis
    using assms by (cases x) (fastforce dest: triple_returned triple_raised)+
qed

end
