(* ===== verification/System.thy ===== *)
theory System
  imports Flatten Trade_Updates Job_Service
begin

text \<open>
  The parts together: one process of the program runs engine operations, trade updates,
  reconciliations, operator commands, baselines and job operations in any order, each in
  a unit of work of its own, while the broker and other processes move between them. The
  security master, the market snapshots and the universe keep their own state and touch
  neither this database nor the order operations of the broker.
\<close>

section \<open>Operations\<close>

record 'b system =
  sys_engine :: "'b engine"
  sys_reconciler :: "'b reconciler"
  sys_prices :: "(string \<Rightarrow> int outcome) option"
  sys_uuid5 :: "string \<Rightarrow> uuid"

datatype system_op =
    EngineOp engine_op
  | UpdateOp trade_update
  | ReconcileOp pydate
  | PauseOp string string
  | ResumeOp string
  | CancelOp string string
  | FlattenOp pydate string string string
  | SetBaselineOp string int utc
  | AddRevisionOp string int utc "utc option" "string option" string string
  | AddJobOp job_spec
  | AcquireJobOp string string int
  | RenewJobOp lease_grant int
  | ReleaseJobOp lease_grant
  | JobStatusOp lease_grant job_status audit_event telemetry_context
  | AuditOp audit_event

definition perform :: "('s, 'a) comp \<Rightarrow> ('s, unit) comp" where
  "perform m = bindM m (\<lambda>_. returnM ())"

text \<open>A repository operation in a unit of work that commits.\<close>

definition committed :: "('b world, 'a) comp \<Rightarrow> ('b world, unit) comp" where
  "committed m = bindM m (\<lambda>_. uow_commit)"

fun run_system :: "'b system \<Rightarrow> system_op \<Rightarrow> ('b world, unit) comp" where
  "run_system sys (EngineOp op) = perform (run_op (sys_engine sys) op)"
| "run_system sys (UpdateOp u) = perform (apply_update (sys_uuid5 sys) u)"
| "run_system sys (ReconcileOp trading_date) = perform (run_reconciliation (sys_reconciler sys) trading_date)"
| "run_system sys (PauseOp reason actor) = perform (pause_entries reason actor)"
| "run_system sys (ResumeOp actor) = perform (resume_entries actor)"
| "run_system sys (CancelOp reason actor) = perform (cancel_open_orders (sys_engine sys) reason actor)"
| "run_system sys (FlattenOp trading_date reason actor confirmation) =
     perform (flatten_paper (sys_engine sys) (sys_prices sys) trading_date reason actor confirmation)"
| "run_system sys (SetBaselineOp account_id cash effective_at) = committed (set_baseline account_id cash effective_at)"
| "run_system sys (AddRevisionOp account_id cash effective_at cutoff_at cutoff_id reason actor) =
     committed (add_revision account_id cash effective_at cutoff_at cutoff_id reason actor)"
| "run_system sys (AddJobOp spec) = committed (jobs_add spec)"
| "run_system sys (AcquireJobOp key owner duration) = committed (jobs_acquire key owner duration)"
| "run_system sys (RenewJobOp grant duration) = committed (jobs_renew grant duration)"
| "run_system sys (ReleaseJobOp grant) = committed (jobs_release grant)"
| "run_system sys (JobStatusOp grant status event context) = perform (transition_job_with_audit grant status event context)"
| "run_system sys (AuditOp event) = committed (audit_events_add event)"

inductive system_run :: "'b system \<Rightarrow> ('b \<Rightarrow> 'b \<Rightarrow> bool) \<Rightarrow> 'b world \<Rightarrow> 'b world \<Rightarrow> bool"
  for sys market w where
  start: "system_run sys market w w"
| operation: "system_run sys market w v \<Longrightarrow> run_system sys op v = (r, u) \<Longrightarrow> system_run sys market w (uow_close u)"
| elsewhere: "system_run sys market w v \<Longrightarrow> evolves (w_committed v) d \<Longrightarrow> market (w_broker v) b \<Longrightarrow>
    system_run sys market w (v\<lparr>w_committed := d, w_working := d, w_broker := b, w_tick := n, w_faults := fs,
      w_clock := cl, w_uuids := us, w_env := en\<rparr>)"

inductive_cases operation_run: "system_run sys market w v"

section \<open>What every operation keeps\<close>

lemma frame_perform: "effect_frame R \<Longrightarrow> keeps R m \<Longrightarrow> keeps R (perform m)"
  unfolding perform_def by (simp add: effect_frame.keeps_bind effect_frame.keeps_return)

lemma triple_perform: "triple P m (\<lambda>_. Q) E \<Longrightarrow> triple P (perform m) (\<lambda>_. Q) E"
  unfolding perform_def by (erule triple_bind) (simp add: triple_def run_simps)

lemma quiet_reconciliation: "keeps quiet (run_reconciliation rec td)"
proof -
  have note_it: "keeps quiet (mismatch k dt t)" "keeps quiet (mismatch_if b k dt t)" for k dt t b
    unfolding mismatch_if_def mismatch_def by (intro quiet_rules)+
  have nav: "keeps quiet (check_nav rec pol acc p cash t)" for pol acc p cash t
    unfolding check_nav_def
    by (intro qf.keeps_catch, intro quiet_rules note_it) (auto intro!: quiet_rules note_it split: exn.split)
  have "keeps quiet (collect rec td)"
    unfolding collect_def check_intents_def check_orders_def check_open_mirror_def check_closed_mirror_def
      check_open_order_def check_recent_order_def check_fills_def history_horizon_def check_positions_def
      check_position_def check_account_def check_cash_def Let_def
    by (intro quiet_rules note_it nav)
  moreover have "keeps quiet (failed_run td k dt)" for k dt
    unfolding failed_run_def by (intro quiet_rules)
  ultimately have "keeps quiet (collect_or_report rec td)"
    unfolding collect_or_report_def by (intro qf.keeps_catch) (auto intro!: quiet_rules split: exn.split)
  then show ?thesis
    unfolding run_reconciliation_def pause_on_mismatch_def by (intro quiet_rules)
qed

text \<open>Baselines and jobs.\<close>

lemma keeps_committed: "effect_frame R \<Longrightarrow> keeps R m \<Longrightarrow> keeps R uow_commit \<Longrightarrow> keeps R (committed m)"
  unfolding committed_def by (simp add: effect_frame.keeps_bind)

lemma quiet_committed: "keeps store_frame m \<Longrightarrow> keeps quiet (committed m)"
  by (rule keeps_committed [OF qf.effect_frame_axioms store_quiet quiet_store(24)])

lemma quiet_transition: "keeps quiet (transition_job_with_audit grant status event context)"
proof -
  have close: "quiet w (uow_close w)" for w :: "'a world"
    by (simp add: quiet_def evolving_def uow_close_def)
  have env: "quiet w (env_step w)" for w :: "'a world"
    using env_step_frame [of w] by (simp add: store_frame_def quiet_def)
  have ends: "quiet w (uow_close (env_step w))" for w :: "'a world"
    by (rule qf.frame_trans [OF env close])
  have "keeps quiet (uow_enter :: ('a world, unit) comp)" "keeps quiet (uow_exit_raising e :: ('a world, exn) comp)"
      "keeps quiet (modifyM uow_close :: ('a world, unit) comp)" for e
    by (simp_all add: keeps_def uow_enter_def uow_exit_raising_def Let_def ends close run_simps)
  moreover have "keeps quiet (jobs_set_status grant status :: ('a world, job_instance option) comp)"
      "keeps quiet (audit_events_add event :: ('a world, utc \<times> audit_event) comp)"
    by (rule store_quiet, rule store_intros)+
  ultimately show ?thesis
    unfolding transition_job_with_audit_def transition_in_unit_of_work_def transition_body_def
    by (intro quiet_rules)
qed

lemma quiet_administration:
  "keeps quiet (run_system sys (SetBaselineOp a1 a2 a3))" "keeps quiet (run_system sys (AddRevisionOp b1 b2 b3 b4 b5 b6 b7))"
  "keeps quiet (run_system sys (AddJobOp spec))" "keeps quiet (run_system sys (AcquireJobOp key owner n))"
  "keeps quiet (run_system sys (RenewJobOp grant n))" "keeps quiet (run_system sys (ReleaseJobOp grant))"
  "keeps quiet (run_system sys (JobStatusOp grant status event context))" "keeps quiet (run_system sys (AuditOp event))"
  unfolding run_system.simps
  by (rule quiet_committed frame_perform [OF qf.effect_frame_axioms quiet_transition], (rule store_intros)?)+

lemma run_system_evolving: "keeps evolving (run_system sys op)"
proof -
  note evolving_frame = ev.effect_frame_axioms
  show ?thesis
    by (cases op) (simp_all add: quiet_administration [THEN quiet_evolving, unfolded run_system.simps] frame_perform [OF evolving_frame] es.frame_run_op store_evolving [OF store_update]
        quiet_evolving [OF quiet_reconciliation] ce.frame_pause_entries quiet_evolving [OF quiet_commands(2)]
        ce.frame_cancel_open ce.frame_flatten)
qed

lemma run_system_safe:
  "triple (\<lambda>w. settled w \<and> safe_trace w) (run_system sys op) (\<lambda>_. safe_trace) (\<lambda>_. safe_trace)"
proof -
  have quiet: "keeps quiet m \<Longrightarrow> triple (\<lambda>w. settled w \<and> safe_trace w) m (\<lambda>_. safe_trace) (\<lambda>_. safe_trace)"
    for m :: "('a world, 'c) comp"
    by (rule triple_pre [OF safe_quiet]) auto
  show ?thesis
    by (cases op) (simp_all add: quiet_administration [THEN quiet, unfolded run_system.simps] triple_perform run_op_safe flatten_safe quiet [OF store_quiet [OF store_update]]
        quiet [OF quiet_reconciliation] quiet [OF quiet_commands(1)] quiet [OF quiet_commands(2)] quiet [OF quiet_commands(3)])
qed

lemma system_run_settled: "system_run sys market w v \<Longrightarrow> settled w \<Longrightarrow> settled v"
  by (induction rule: system_run.induct) (simp_all add: settled_def uow_close_def)

lemma system_run_safe:
  assumes "system_run sys market w v" "settled w" "safe_trace w"
  shows "safe_trace v"
  using assms
proof (induction rule: system_run.induct)
  case (operation v op r u)
  then have "settled v \<and> safe_trace v" using system_run_settled by blast
  with operation(2) have "safe_trace u"
    using triple_returned [OF run_system_safe] triple_raised [OF run_system_safe] by (cases r) blast+
  then show ?case by (simp add: safe_trace_def)
qed (simp_all add: safe_trace_def)

lemma system_run_evolves:
  assumes "system_run sys market w v" "settled w"
  shows "evolves (w_committed w) (w_committed v)"
  using assms
proof (induction rule: system_run.induct)
  case (operation v op r u)
  have "evolving v u" using keepsD [OF run_system_evolving operation(2)] .
  with system_run_settled [OF operation(1,4)] have "evolves (w_committed v) (w_committed u)"
    by (simp add: evolving_def settled_def)
  with operation(3) [OF operation(4)] show ?case by (auto intro: evolves_trans)
qed (auto intro: evolves_trans)

section \<open>Who clears a pause\<close>

lemma holds_safety_pause: "keeps holds_pause (persist_safety_pause reason)"
  unfolding keeps_def
proof
  fix w0 :: "'a world"
  define w where "w = env_step w0"
  define u where "u = w\<lparr>w_working := w_committed w, w_aborted := False, w_dead := False,
    w_locked := False, w_dirty := False\<rparr>"
  define m where "m = bindM (set_entries_paused True (Some reason)) (\<lambda>_. uow_commit :: ('a world, unit) comp)"
  have "keeps holds_pause m"
    unfolding m_def by (intro hf.keeps_bind stays_store [THEN keeps_mono, OF tracks_holds])
  then have "stays_paused (w_committed w) (w_committed (snd (m u)))"
    by (auto simp: keeps_def holds_pause_def u_def stays_paused_def)
  then have "holds_pause w (snd (persist_safety_pause reason w0))"
    using hf.frame_refl [of w]
    by (simp add: persist_safety_pause_def Let_def w_def [symmetric] u_def [symmetric] m_def [symmetric] case_prod_beta
        holds_pause_def stays_paused_def)
  then show "holds_pause w0 (snd (persist_safety_pause reason w0))"
    using hp.e_env [of w0] hf.frame_trans unfolding w_def by blast
qed

lemma holds_update: "keeps holds_pause (apply_update u5 u)"
proof -
  note rules = holds_safety_pause stays_store [THEN keeps_mono, OF tracks_holds] hf.keeps_rules
  have conflict: "keeps holds_pause (surface_conflict u5 cid c)" for cid c
    unfolding surface_conflict_def persist_conflict_pause_def persist_conflict_marker_def rollback_and_raise_def
    by (intro rules; assumption?)
  have derive: "keeps holds_pause (derive_from_fill m f)" "keeps holds_pause (write_status i m x)" for m f i x
    unfolding derive_from_fill_def fill_intent_step_def write_status_def transition_intent_def Let_def
    by (intro rules; assumption?)+
  have fill: "keeps holds_pause (apply_fill u5 f)" for f
    unfolding apply_fill_def by (intro rules conflict derive)
  have status: "keeps holds_pause (apply_status u5 x)" for x
    unfolding apply_status_def by (intro rules conflict derive)
  show ?thesis by (cases u) (simp_all add: fill status)
qed

text \<open>Statements that leave the control row alone.\<close>

lemma same_control_stays: "db_control d' = db_control d \<Longrightarrow> stays_paused d d'"
  by (simp add: stays_paused_def)

lemma control_put [simp]:
  "db_control (put_job j d) = db_control d" "db_control (update_leases P f d) = db_control d"
  "db_control (overtake i now d) = db_control d"
  by (simp_all add: put_job_def update_leases_def overtake_def split: option.split)

lemma administration_stays:
  "sql_insert_baseline b now d = Inr (a1, d') \<Longrightarrow> stays_paused d d'"
  "sql_insert_revision b now d = Inr (a2, d') \<Longrightarrow> stays_paused d d'"
  "sql_insert_job spec now d = Inr (a3, d') \<Longrightarrow> stays_paused d d'"
  "sql_insert_audit e now d = Inr (a4, d') \<Longrightarrow> stays_paused d d'"
  "acquire_job_lease key owner n now d = Inr (r1, d') \<Longrightarrow> stays_paused d d'"
  "renew_job_lease key owner token n now d = Inr (r2, d') \<Longrightarrow> stays_paused d d'"
  "release_job_lease key owner token reason now d = Inr (r3, d') \<Longrightarrow> stays_paused d d'"
  "transition_job_status key owner token status now d = Inr (r4, d') \<Longrightarrow> stays_paused d d'"
  by (rule same_control_stays,
      auto simp: sql_insert_baseline_def sql_insert_revision_def sql_insert_job_def sql_insert_audit_def Let_def
        split: if_splits elim: acquire_Inr renew_Inr release_Inr transition_Inr)+

lemma stays_administration:
  "keeps (tracks stays_paused) (set_baseline acc cash since)" "keeps (tracks stays_paused) (add_revision acc cash since ca ci reason actor)"
  "keeps (tracks stays_paused) (jobs_add spec)" "keeps (tracks stays_paused) (jobs_acquire key owner n)"
  "keeps (tracks stays_paused) (jobs_renew g n)" "keeps (tracks stays_paused) (jobs_release g)"
  "keeps (tracks stays_paused) (jobs_set_status g status)" "keeps (tracks stays_paused) (audit_events_add e)"
  unfolding set_baseline_def add_revision_def jobs_add_def jobs_get_def jobs_acquire_def jobs_renew_def jobs_release_def
    jobs_set_status_def audit_events_add_def Let_def
  by (intro sp.tracks_rules sp.tracks_statement; erule administration_stays)+

lemma holds_committed: "keeps (tracks stays_paused) m \<Longrightarrow> keeps holds_pause (committed m)"
  by (rule keeps_committed [OF hf.effect_frame_axioms]) (erule keeps_mono, rule tracks_holds, assumption,
      rule keeps_mono [OF sp.tracks_ends(1) tracks_holds])

lemma holds_transition: "keeps holds_pause (transition_job_with_audit grant status event context)"
proof -
  have close: "holds_pause w (uow_close w)" for w :: "'a world"
    by (simp add: holds_pause_def stays_paused_def uow_close_def)
  have ends: "holds_pause w (uow_close (env_step w))" for w :: "'a world"
    by (rule hf.frame_trans [OF tracks_holds [OF sp.tracks_env_step] close])
  have "keeps holds_pause (uow_enter :: ('a world, unit) comp)" "keeps holds_pause (uow_exit_raising e :: ('a world, exn) comp)"
      "keeps holds_pause (modifyM uow_close :: ('a world, unit) comp)" for e
    by (simp_all add: keeps_def uow_enter_def uow_exit_raising_def Let_def ends close run_simps)
  moreover note sp.tracks_ends [THEN keeps_mono, OF tracks_holds] stays_administration [THEN keeps_mono, OF tracks_holds]
  ultimately show ?thesis
    unfolding transition_job_with_audit_def transition_in_unit_of_work_def transition_body_def
    by (intro hf.keeps_rules)
qed

lemma holds_administration:
  "keeps holds_pause (run_system sys (SetBaselineOp a1 a2 a3))" "keeps holds_pause (run_system sys (AddRevisionOp b1 b2 b3 b4 b5 b6 b7))"
  "keeps holds_pause (run_system sys (AddJobOp spec))" "keeps holds_pause (run_system sys (AcquireJobOp key owner n))"
  "keeps holds_pause (run_system sys (RenewJobOp grant n))" "keeps holds_pause (run_system sys (ReleaseJobOp grant))"
  "keeps holds_pause (run_system sys (JobStatusOp grant status event context))" "keeps holds_pause (run_system sys (AuditOp event))"
  unfolding run_system.simps
  by (rule holds_committed frame_perform [OF hf.effect_frame_axioms holds_transition], (rule stays_administration)?)+

lemma pause_cleared:
  assumes "settled w" "paused w" "run_system sys op w = (r, v)" "\<not> paused v"
  shows "(\<exists>actor. op = ResumeOp actor) \<and> resumable (w_committed v)"
proof -
  have hold: "keeps holds_pause m \<Longrightarrow> keeps holds_pause (perform m)" for m :: "('a world, 'c) comp"
    by (rule frame_perform [OF hf.effect_frame_axioms])
  have kept: "paused v" if "keeps holds_pause (run_system sys op)"
    using keepsD [OF that assms(3)] assms(1,2) by (auto simp: holds_pause_def settled_def paused_def stays_paused_def)
  have resume: "resumable (w_committed v)" if op: "op = ResumeOp actor" for actor
  proof -
    have "keeps (tracks gated) (run_system sys op)"
      unfolding op run_system.simps by (rule frame_perform [OF gt.tf.effect_frame_axioms gated_resume])
    from keepsD [OF this assms(3)] show ?thesis
      using assms(1,2) by (simp add: tracks_def gated_def settled_def resumable_def paused_def)
  qed
  have recon: "paused v" if op: "op = ReconcileOp td" for td
  proof -
    obtain r' where "run_reconciliation (sys_reconciler sys) td w = (r', v)"
      using assms(3) unfolding op by (auto simp: perform_def run_simps split: prod.splits sum.splits)
    from report_holds [OF assms(1) this] show ?thesis
      using assms(2) by (simp add: paused_def stays_paused_def)
  qed
  show ?thesis
    using assms(4) kept resume recon hold [OF hp.frame_run_op] hold [OF holds_update] hold [OF hp.frame_pause_entries]
      hold [OF hp.frame_cancel_open] hold [OF hp.frame_flatten]
    by (cases op) (auto simp: holds_administration [unfolded run_system.simps])
qed

end
