(* ===== verification/Demo.thy ===== *)
theory Demo
  imports Engine_Runs
begin

section \<open>A concrete system\<close>

definition demo_intent :: order_intent where
  "demo_intent =
     \<lparr>oi_intent_id = 7, oi_client_order_id = ''slv1-core-2026-01-02-open-t1-SPY-buy'', oi_strategy = ''core'',
      oi_trading_date = \<lparr>year = 2026, month = 1, day = 2\<rparr>, oi_window = ''open'', oi_target_version = 1,
      oi_symbol = ''SPY'', oi_side = BUY, oi_quantity = 3, oi_intent_type = REBALANCE, oi_limit_price = 10000,
      oi_collar = \<lparr>pc_reference = 10000, pc_offset_bps = 25\<rparr>, oi_earliest_submit_at = 10, oi_cancel_at = 1000,
      oi_status = OUTBOX_PENDING, oi_run_id = 5, oi_created_at = 1\<rparr>"

definition demo_broker :: "fake_submit_outcome \<Rightarrow> fake_broker" where
  "demo_broker oc =
     \<lparr>fb_clock = int, fb_ticks = 20, fb_plans = [],
      fb_default_plan = \<lparr>fp_outcome = oc, fp_first_fill = None, fp_rejection_reason = None\<rparr>,
      fb_cash = 100000, fb_equity = 100000, fb_buying_power = 100000, fb_account_id = ''paper'',
      fb_cancel_mode = IMMEDIATE, fb_hidden_client_ids = [], fb_assets = [], fb_unknown_assets = [],
      fb_orders = [], fb_by_client = [], fb_submit_params = [], fb_results = [], fb_sequence = 0\<rparr>"

definition demo_db :: db where
  "demo_db =
     \<lparr>db_intents = [demo_intent], db_broker_orders = [], db_fills = [],
      db_control = \<lparr>cs_entries_paused = False, cs_paused_reason = None, cs_updated_at = 0, cs_flatten_generation = 0\<rparr>,
      db_commands = [], db_runs = [], db_baselines = [], db_revisions = [], db_jobs = [],
      db_leases = [], db_audits = []\<rparr>"

definition demo_world :: "fake_broker \<Rightarrow> db \<Rightarrow> fake_broker world" where
  "demo_world b d =
     \<lparr>w_committed = d, w_working = d, w_aborted = False, w_dead = False, w_locked = False, w_dirty = False,
      w_tick = 0, w_faults = (\<lambda>_. NoFault), w_clock = (\<lambda>n. 20 + int n), w_uuids = Suc, w_env = (\<lambda>_. None),
      w_broker = b, w_trace = []\<rparr>"

definition demo_engine :: "fake_broker engine" where
  "demo_engine = \<lparr>eng_broker = fake_ops, eng_control = SharedControl, eng_uuid5 = length\<rparr>"


lemma run_weak:
  "s = s' \<Longrightarrow> bindM m f s = bindM m f s'" "s = s' \<Longrightarrow> catchM m h s = catchM m h s'"
  by simp_all

lemma demo_ops [simp]: "eng_broker demo_engine = fake_ops" "eng_control demo_engine = SharedControl"
  "eng_uuid5 demo_engine = length" 
  "op_get_asset fake_ops = fb_get_asset" "op_submit_order fake_ops = fb_submit_order" "op_list_fills fake_ops = fb_list_fills"
  "op_get_order fake_ops = fb_get_order"
  by (simp_all add: demo_engine_def fake_ops_def)

lemma demo_load: "load_intent demo_intent = Inr demo_intent"
  by code_simp

lemma load_wf: "load_intent i = Inr i \<Longrightarrow> load_intent (i\<lparr>oi_status := st\<rparr>) = Inr (i\<lparr>oi_status := st\<rparr>)"
  by (auto simp: load_intent_def bindO_eq_Inr order_intent_post_init_def)

lemma demo_fields [simp]:
  "oi_client_order_id demo_intent = ''slv1-core-2026-01-02-open-t1-SPY-buy''" "oi_status demo_intent = OUTBOX_PENDING"
  "oi_symbol demo_intent = ''SPY''" "oi_intent_type demo_intent = REBALANCE"
  by (simp_all add: demo_intent_def)

definition demo_asset :: paper_asset where
  "demo_asset = \<lparr>pa_symbol = ''SPY'', pa_asset_class = US_EQUITY, pa_status = ACTIVE, pa_tradable = True,
     pa_exchange = ''ARCA''\<rparr>"

lemma demo_asset_ok: "paper_asset_post_init demo_asset = Inr demo_asset"
  by code_simp

lemma demo_asset_found: "fb_get_asset ''SPY'' (demo_broker oc) = (Inr (Some demo_asset), demo_broker oc)"
  using demo_asset_ok by (simp add: fb_get_asset_def run_simps demo_broker_def demo_asset_def)

lemma demo_asset_tradable: "asset_tradable (Some demo_asset)"
  by (simp add: asset_tradable_def demo_asset_def)

definition demo_order :: broker_order where
  "demo_order = new_order demo_intent (fb_default_plan (demo_broker ACKNOWLEDGE)) (demo_broker ACKNOWLEDGE)"

definition demo_after :: fake_broker where
  "demo_after = (demo_broker ACKNOWLEDGE)\<lparr>fb_sequence := Suc 0, fb_ticks := 21,
     fb_orders := [(fake_bid (Suc 0), \<lparr>os_order = demo_order, os_fills = []\<rparr>)],
     fb_by_client := [(oi_client_order_id demo_intent, fake_bid (Suc 0))],
     fb_submit_params := [(oi_client_order_id demo_intent, params_of demo_intent)],
     fb_results := [(oi_client_order_id demo_intent, SubmitAccepted demo_order)]\<rparr>"

lemma demo_order_post: "broker_order_post_init demo_order = Inr demo_order"
  by code_simp

lemma demo_accepted:
  "fb_submit_order (demo_intent\<lparr>oi_status := SUBMITTING\<rparr>) (demo_broker ACKNOWLEDGE) = (Inr (SubmitAccepted demo_order), demo_after)"
proof -
  have "new_order (demo_intent\<lparr>oi_status := SUBMITTING\<rparr>) (fb_default_plan (demo_broker ACKNOWLEDGE))
      ((demo_broker ACKNOWLEDGE)\<lparr>fb_submit_params := p\<rparr>) = demo_order" for p
    by (simp add: demo_order_def new_order_def)
  then show ?thesis
  by (simp add: fb_submit_order_def first_submit_def Let_def run_simps pop_plan_def record_unfold  demo_order_post
   first_fill_def enter_order_def order_state_of_def demo_broker_def demo_after_def params_of_def)
qed

lemma demo_timeout:
  "fb_submit_order (demo_intent\<lparr>oi_status := SUBMITTING\<rparr>) (demo_broker TIMEOUT_BEFORE_ACCEPT)
     = (Inl BrokerTransportError, demo_broker TIMEOUT_BEFORE_ACCEPT)"
  by (simp add: fb_submit_order_def first_submit_def Let_def run_simps pop_plan_def demo_broker_def)

lemmas run_store = run_simps orders_get_def query_def statement_def Let_def env_step_def 
    find_intent_def optionO_def assert_entries_allowed_def engine_control_state_def 
   control_read_def control_state_post_init_def broker_call_def 
   transition_status_def sql_update_intent_status_def order_guard_eq
   set_intent_status_def mark_write_def uow_commit_def
lemmas run_engine =  submit_from_outbox_def require_intent_def assert_asset_tradable_def complete_submission_def entry_submission_guard_def
  submission_guard_def take_lock_def has_unresolved_intents_def list_by_status_def sql_intents_by_status_def
  submit_while_guarded_def attemptM_def broker_submit_def note_submission_def
lemmas run_settle = control_command_post_init_def execution_conflict_command_id_def settle_submission_def pause_for_reconciliation_required_def set_entries_paused_def sql_pause_entries_def
  read_clock_def add_command_def sql_insert_command_def record_accepted_def assert_mirror_matches_def get_broker_order_def
  get_broker_order_by_id_def find_row_by_client_def find_row_by_id_def parameters_differ_def refresh_from_broker_order_def mirror_order_def
  record_broker_order_def sql_insert_broker_order_def advance_intent_def refresh_target_def

lemma demo_order_fields [simp]:
  "bo_broker_order_id demo_order = fake_bid (Suc 0)" "bo_client_order_id demo_order = oi_client_order_id demo_intent"
  "bo_symbol demo_order = oi_symbol demo_intent" "bo_side demo_order = oi_side demo_intent"
  "bo_quantity demo_order = oi_quantity demo_intent" "bo_limit_price demo_order = oi_limit_price demo_intent"
  "bo_filled_quantity demo_order = 0" "bo_status demo_order = B_ACCEPTED" "bo_updated_at demo_order = 20"
  by (simp_all add: demo_order_def new_order_def demo_broker_def)

lemma demo_no_fills: "fb_list_fills (fake_bid (Suc 0)) demo_after = (Inr [], demo_after)"
  by (simp add: fb_list_fills_def demo_after_def run_simps)

lemma demo_row: "load_broker_order \<lparr>br_order = demo_order, br_watermark = Some 20\<rparr> = Inr demo_order"
  by code_simp

lemma demo_quantity: "\<not> BIGINT_MAX < oi_quantity demo_intent" by (simp add: demo_intent_def BIGINT_MAX_def)

lemma demo_steps:
  "order_transition_allowed OUTBOX_PENDING SUBMITTING" "order_transition_allowed SUBMITTING ACKNOWLEDGED"
  "order_transition_allowed SUBMITTING UNKNOWN"
  by code_simp+

lemma demo_texts:
  "btrim_nonempty ''reconciliation required; ambiguous broker outcome''"
  "\<not> blank ''reconciliation required; ambiguous broker outcome''"
  "bounded_text 200 ''automatic pause on ambiguous broker outcome''"
  "btrim_nonempty ''automatic pause on ambiguous broker outcome''"
  "bounded_text 100 ''execution_engine''" "btrim_nonempty ''execution_engine''"
  by code_simp+

lemmas demo_run = demo_texts MAX_REASON_LENGTH_def MAX_ACTOR_LENGTH_def run_store run_engine run_settle demo_world_def demo_db_def demo_load load_wf
  demo_asset_found demo_asset_tradable demo_accepted demo_timeout demo_no_fills demo_row demo_quantity demo_steps

lemma demo_acknowledged:
  "\<exists>v. submit_from_outbox demo_engine (oi_client_order_id demo_intent) (demo_world (demo_broker ACKNOWLEDGE) demo_db)
      = (Inr (demo_intent\<lparr>oi_status := ACKNOWLEDGED\<rparr>), v) \<and> w_broker v = demo_after
      \<and> w_trace v = [EvSubmit (demo_intent\<lparr>oi_status := SUBMITTING\<rparr>) (demo_db\<lparr>db_intents := [demo_intent\<lparr>oi_status := SUBMITTING\<rparr>]\<rparr>)]"
  by (simp add: demo_run del: order_status_value.simps cong: run_weak)

lemma demo_ambiguous:
  "\<exists>v. submit_from_outbox demo_engine (oi_client_order_id demo_intent) (demo_world (demo_broker TIMEOUT_BEFORE_ACCEPT) demo_db)
      = (Inr (demo_intent\<lparr>oi_status := UNKNOWN\<rparr>), v) \<and> cs_entries_paused (db_control (w_committed v))"
  by (simp add: demo_run del: order_status_value.simps cong: run_weak)

end
