(* ===== verification/Engine_Properties.thy ===== *)
theory Engine_Properties
  imports Demo Engine_Outcome
begin

text \<open>
  The claims about the execution engine, each with a run of the concrete system of
  theory \<open>Demo\<close> as its witness.
\<close>

lemma demo_settled [simp]: "settled (demo_world b d)"
  by (simp add: demo_world_def settled_def)

lemma demo_start [simp]: "w_trace (demo_world b d) = []" "w_broker (demo_world b d) = b"
  "w_committed (demo_world b d) = d" "w_clock (demo_world b d) = (\<lambda>n. 20 + int n)"
  by (simp_all add: demo_world_def)

abbreviation demo_cid :: string where
  "demo_cid \<equiv> oi_client_order_id demo_intent"

definition demo_submitted :: "fake_broker world" where
  "demo_submitted = uow_close (snd (submit_from_outbox demo_engine demo_cid
     (demo_world (demo_broker ACKNOWLEDGE) demo_db)))"

lemma demo_submitted_run: "engine_run demo_engine fake_event (demo_world (demo_broker ACKNOWLEDGE) demo_db) demo_submitted"
proof -
  obtain r u where run: "run_op demo_engine (SubmitFromOutbox demo_cid) (demo_world (demo_broker ACKNOWLEDGE) demo_db) = (r, u)"
    by (cases "run_op demo_engine (SubmitFromOutbox demo_cid) (demo_world (demo_broker ACKNOWLEDGE) demo_db)")
  have "snd (single m w) = snd (m w)" for m :: "(fake_broker world, order_intent) comp" and w
    by (simp add: single_def run_simps split: prod.split sum.split)
  then have "uow_close u = demo_submitted"
    using run by (metis demo_submitted_def run_op.simps(1) snd_conv)
  with engine_run.operation [OF engine_run.start run, of fake_event] show ?thesis by simp
qed

lemma demo_submitted_world:
  "w_trace demo_submitted = [EvSubmit (demo_intent\<lparr>oi_status := SUBMITTING\<rparr>)
     (demo_db\<lparr>db_intents := [demo_intent\<lparr>oi_status := SUBMITTING\<rparr>]\<rparr>)]"
  "w_broker demo_submitted = demo_after"
  using demo_acknowledged by (auto simp: demo_submitted_def)

section \<open>Submission safety\<close>

text \<open>
  In every run of the engine, over every broker, with faults of the database
  connection at any point, any clock, pauses by other processes at any moment and
  other processes between operations, each submission that reached the broker left
  when its own intent was committed as \<open>SUBMITTING\<close> (or \<open>UNKNOWN\<close> for a risk exit),
  and a submission that is not a risk exit left while entries were not paused and
  no intent was \<open>UNKNOWN\<close> or \<open>REVIEW_REQUIRED\<close>.
\<close>

lemma submissions_are_safe:
  assumes "engine_run eng market w v" "settled w" "w_trace w = []"
  shows "\<forall>i d. EvSubmit i d \<in> set (w_trace v) \<longrightarrow>
    find_intent (oi_client_order_id i) d = Some i
    \<and> (oi_status i = SUBMITTING \<or> oi_status i = UNKNOWN \<and> oi_intent_type i = RISK_EXIT)
    \<and> (oi_intent_type i = RISK_EXIT \<or> \<not> cs_entries_paused (db_control d) \<and> \<not> has_unresolved d)"
proof -
  have "safe_trace v" using engine_run_safe [OF assms(1,2)] assms(3) by (simp add: safe_trace_def)
  then show ?thesis by (auto simp: safe_trace_def list_all_iff)
qed

lemma submissions_are_safe_witness:
  "w_trace demo_submitted = [EvSubmit (demo_intent\<lparr>oi_status := SUBMITTING\<rparr>)
     (demo_db\<lparr>db_intents := [demo_intent\<lparr>oi_status := SUBMITTING\<rparr>]\<rparr>)]
   \<and> \<not> has_unresolved (demo_db\<lparr>db_intents := [demo_intent\<lparr>oi_status := SUBMITTING\<rparr>]\<rparr>)"
proof -
  let ?i = "demo_intent\<lparr>oi_status := SUBMITTING\<rparr>"
  have "EvSubmit ?i (demo_db\<lparr>db_intents := [?i]\<rparr>) \<in> set (w_trace demo_submitted)"
    by (simp add: demo_submitted_world)
  then have "oi_intent_type ?i = RISK_EXIT \<or> \<not> has_unresolved (demo_db\<lparr>db_intents := [?i]\<rparr>)"
    using submissions_are_safe [OF demo_submitted_run] demo_settled demo_start(1) by blast
  then show ?thesis by (simp add: demo_submitted_world)
qed

text \<open>
  Over any run of the engine the committed database only moves forward: no
  intent, mirror, fill, command, reconciliation run or baseline is lost or
  rewritten, statuses follow the closed transition maps, filled quantities and
  broker watermarks never go back.
\<close>

lemma history_only_moves_forward:
  assumes "engine_run eng market w v" "settled w"
  shows "evolves (w_committed w) (w_committed v)"
  using assms by (rule engine_run_evolves)

lemma history_only_moves_forward_witness: "evolves demo_db (w_committed demo_submitted)"
  using history_only_moves_forward [OF demo_submitted_run] by simp

text \<open>
  C5. On the deterministic Paper broker, starting empty, any run of the engine
  interleaved with the broker's scripted events leaves at most one broker order per
  client order id, and every order at the broker carries exactly the parameters of
  an intent that was committed before it was submitted.
\<close>

theorem one_broker_order_per_intent:
  assumes "engine_run (eng\<lparr>eng_broker := fake_ops\<rparr>) fake_event w v" "settled w" "w_trace w = []"
    "fb_orders (w_broker w) = []" "fb_by_client (w_broker w) = []"
  shows "one_order_each (fake_book (w_broker v))
    \<and> (\<forall>b\<in>set (fake_book (w_broker v)). \<exists>i d. EvSubmit i d \<in> set (w_trace v)
         \<and> find_intent (oi_client_order_id i) d = Some i \<and> carries i b)"
proof -
  have "fb.explained w" using fresh_broker [OF assms(4,5)] by (simp add: fb.explained_def)
  then have v: "fb.explained v" by (rule fake_run_explained [OF assms(1)])
  have "safe_trace v" using engine_run_safe [OF assms(1,2)] assms(3) by (simp add: safe_trace_def)
  then have "EvSubmit i d \<in> set (w_trace v) \<Longrightarrow> find_intent (oi_client_order_id i) d = Some i" for i d
    by (auto simp: safe_trace_def list_all_iff)
  with v show ?thesis using fake_one_each by (fastforce simp: fb.explained_def)
qed

theorem one_broker_order_per_intent_witness:
  "fake_book (w_broker demo_submitted) = [demo_order] \<and> one_order_each (fake_book (w_broker demo_submitted))"
proof -
  have eng: "demo_engine\<lparr>eng_broker := fake_ops\<rparr> = demo_engine" by (simp add: demo_engine_def)
  have "one_order_each (fake_book (w_broker demo_submitted))"
    using one_broker_order_per_intent [of demo_engine, unfolded eng, OF demo_submitted_run]
    by (simp add: demo_broker_def)
  then show ?thesis by (simp add: demo_submitted_world fake_book_def demo_after_def)
qed

section \<open>Outcomes\<close>

text \<open>
  C7. When \<open>submit_from_outbox\<close> returns, what it returned is the committed row of the
  intent, which is a legal successor of the row before. An intent that was not
  \<open>OUTBOX_PENDING\<close> is returned as it was and nothing reached the broker; an intent that
  was has left \<open>OUTBOX_PENDING\<close> and \<open>SUBMITTING\<close>, and when its outcome is unknown and it
  is not a risk exit, entries are paused in the committed state.
\<close>

theorem submit_from_outbox_outcome:
  assumes "settled w" "submit_from_outbox eng cid w = (Inr u, v)"
  shows "\<exists>i. find_intent cid (w_committed w) = Some i \<and> intent_progress i u
    \<and> find_intent cid (w_committed v) = Some u
    \<and> (if oi_status i \<noteq> OUTBOX_PENDING then u = i \<and> w_trace v = w_trace w \<and> w_broker v = w_broker w
       else oi_status u \<notin> {OUTBOX_PENDING, SUBMITTING}
         \<and> (oi_status u = UNKNOWN \<and> oi_intent_type u \<noteq> RISK_EXIT \<longrightarrow>
              cs_entries_paused (db_control (w_committed v))))"
  by (rule submit_outcome [OF assms, unfolded paused_def])

theorem submit_from_outbox_outcome_witness:
  "\<exists>u v. submit_from_outbox demo_engine demo_cid (demo_world (demo_broker TIMEOUT_BEFORE_ACCEPT) demo_db) = (Inr u, v)
     \<and> oi_status u = UNKNOWN \<and> cs_entries_paused (db_control (w_committed v))"
proof -
  let ?w = "demo_world (demo_broker TIMEOUT_BEFORE_ACCEPT) demo_db"
  let ?u = "demo_intent\<lparr>oi_status := UNKNOWN\<rparr>"
  obtain v where run: "submit_from_outbox demo_engine demo_cid ?w = (Inr ?u, v)"
    using demo_ambiguous by blast
  have "find_intent demo_cid demo_db = Some demo_intent" by (simp add: find_intent_def demo_db_def)
  then have "cs_entries_paused (db_control (w_committed v))"
    using submit_from_outbox_outcome [OF demo_settled run] by auto
  with run show ?thesis by (intro exI [of _ ?u] exI [of _ v]) simp
qed

text \<open>
  C25. The expiry sweep never sends an order: whatever the broker answers and
  however the database fails, when the clock does not run backwards no submission
  reaches the broker during \<open>expire_overdue\<close>, although it resolves ambiguous
  intents with the operation that may resubmit.
\<close>

theorem expire_overdue_never_submits:
  assumes "settled w" "distinct (map oi_client_order_id (db_intents (w_committed w)))"
    "\<forall>m n. m \<le> n \<longrightarrow> w_clock w m \<le> w_clock w n" "expire_overdue eng w = (r, v)"
  shows "w_trace v = w_trace w"
  using assms by (intro expire_overdue_sends_nothing) auto

theorem expire_overdue_never_submits_witness:
  "w_trace (snd (expire_overdue demo_engine (demo_world (demo_broker ACKNOWLEDGE) (demo_db\<lparr>db_intents :=
     [demo_intent\<lparr>oi_status := SUBMITTING, oi_earliest_submit_at := 1, oi_cancel_at := 5\<rparr>]\<rparr>)))) = []"
proof -
  let ?w = "demo_world (demo_broker ACKNOWLEDGE) (demo_db\<lparr>db_intents :=
     [demo_intent\<lparr>oi_status := SUBMITTING, oi_earliest_submit_at := 1, oi_cancel_at := 5\<rparr>]\<rparr>)"
  have "w_trace (snd (expire_overdue demo_engine ?w)) = w_trace ?w"
    by (rule expire_overdue_never_submits [of _ demo_engine "fst (expire_overdue demo_engine ?w)"]) simp_all
  then show ?thesis by simp
qed

text \<open>
  The engine only ever pauses: no operation, returning or raising, clears a
  committed pause or changes which intents exist and when they expire.
\<close>

lemma engine_never_clears_pause:
  assumes "settled w" "run_op eng op w = (r, v)"
  shows "deadlines (w_committed v) = deadlines (w_committed w)
    \<and> (cs_entries_paused (db_control (w_committed w)) \<longrightarrow> cs_entries_paused (db_control (w_committed v)))"
proof -
  have "writes w v" using ws.frame_run_op assms(2) by (rule keepsD)
  with assms(1) show ?thesis
    by (simp add: writes_def settled_def ew.d_refl engine_write_def same_deadlines_def stays_paused_def)
qed

lemma engine_never_clears_pause_witness:
  "cs_entries_paused (db_control (w_committed (snd (run_op demo_engine Recover
     (demo_world (demo_broker ACKNOWLEDGE) (demo_db\<lparr>db_control := (db_control demo_db)\<lparr>cs_entries_paused := True,
       cs_paused_reason := Some ''operator''\<rparr>\<rparr>))))))"
proof -
  let ?w = "demo_world (demo_broker ACKNOWLEDGE) (demo_db\<lparr>db_control := (db_control demo_db)\<lparr>cs_entries_paused := True,
       cs_paused_reason := Some ''operator''\<rparr>\<rparr>)"
  show ?thesis
    using engine_never_clears_pause [of ?w demo_engine Recover "fst (run_op demo_engine Recover ?w)"
        "snd (run_op demo_engine Recover ?w)"] by simp
qed

end
