(* ===== verification/Trade_Update_Properties.thy ===== *)
theory Trade_Update_Properties
  imports Trade_Updates Demo
begin

text \<open>
  The claims about the trade-update consumer, each with a run of the consumer on a
  concrete database as its witness.
\<close>

section \<open>A concrete acknowledged order\<close>

definition live_db :: db where
  "live_db = demo_db\<lparr>db_intents := [demo_intent\<lparr>oi_status := ACKNOWLEDGED\<rparr>],
     db_broker_orders := [\<lparr>br_order = demo_order, br_watermark = Some 20\<rparr>]\<rparr>"

definition live_world :: "(nat \<Rightarrow> fault) \<Rightarrow> fake_broker world" where
  "live_world faults = (demo_world demo_after live_db)\<lparr>w_faults := faults\<rparr>"

definition live_fill :: "int \<Rightarrow> fill" where
  "live_fill q = \<lparr>fl_execution_id = ''x-1'', fl_broker_order_id = fake_bid (Suc 0), fl_quantity = q, fl_price = 10000,
     fl_occurred_at = 30\<rparr>"

lemmas run_consumer = apply_fill_def derive_from_fill_def add_fill_def sql_insert_fill_def list_fills_def
  get_fill_by_execution_id_def find_fill_def fill_broker_target_def update_broker_order_status_def
  sql_update_broker_order_def broker_update_rejected_def updated_row_def fill_intent_step_def fill_intent_target_def

lemma live_fields [simp]: "fl_execution_id (live_fill q) = ''x-1''" "fl_broker_order_id (live_fill q) = fake_bid (Suc 0)"
  "fl_quantity (live_fill q) = q" "fl_occurred_at (live_fill q) = 30"
  by (simp_all add: live_fill_def)

lemma live_loads:
  "load_fill (live_fill 1) = Inr (live_fill 1)" "load_fill (live_fill 5) = Inr (live_fill 5)"
  by code_simp+

lemma live_bounds: "oi_quantity demo_intent = 3" "\<not> BIGINT_MAX < 1" "\<not> BIGINT_MAX < 5"
  by (simp_all add: demo_intent_def BIGINT_MAX_def)

lemma live_steps:
  "B_ACCEPTED \<notin> set TERMINAL_BROKER_ORDER_STATUSES" "B_ACCEPTED \<notin> set REVIEW_BROKER_ORDER_STATUSES"
  "broker_order_transition_allowed B_ACCEPTED B_PARTIALLY_FILLED"
  "order_transition_allowed ACKNOWLEDGED PARTIALLY_FILLED"
  "order_transition_allowed ACKNOWLEDGED REVIEW_REQUIRED"
  by code_simp+

lemma live_row:
  "load_broker_order \<lparr>br_order = demo_order\<lparr>bo_status := B_PARTIALLY_FILLED, bo_filled_quantity := 1\<rparr>, br_watermark = Some 30\<rparr>
    = Inr (demo_order\<lparr>bo_status := B_PARTIALLY_FILLED, bo_filled_quantity := 1, bo_updated_at := 30\<rparr>)"
  by code_simp

lemmas live_run = demo_run run_consumer live_world_def live_db_def live_loads live_bounds live_steps live_row

lemma live_settled [simp]: "settled (live_world fs)" "w_committed (live_world fs) = live_db"
  "w_faults (live_world fs) = fs" "\<not> w_dead (live_world fs)"
  by (simp_all add: live_world_def demo_world_def settled_def)

lemma live_applied:
  "\<exists>v. apply_update length (FillUpdate (live_fill 1)) (live_world (\<lambda>_. NoFault)) = (Inr APPLIED, v)"
  by (simp add: live_run broker_guard_eq del: order_status_value.simps broker_order_status_value.simps cong: run_weak)

section \<open>Claims\<close>

text \<open>
  Applying any trade update, whatever the faults of the connection and whether it
  returns or raises, moves the committed database forward only: no row is lost or
  rewritten, statuses follow the transition maps, quantities and watermarks never go
  back. It submits nothing and calls the broker not at all.
\<close>

lemma trade_updates_keep_history:
  assumes "settled w" "apply_update u5 u w = (r, v)"
  shows "evolves (w_committed w) (w_committed v) \<and> w_trace v = w_trace w \<and> w_broker v = w_broker w"
  using keepsD [OF store_update assms(2)] assms(1) by (auto simp: store_frame_def evolving_def settled_def)

lemma trade_updates_keep_history_witness:
  "\<exists>v. apply_update length (FillUpdate (live_fill 1)) (live_world (\<lambda>_. NoFault)) = (Inr APPLIED, v)
     \<and> evolves live_db (w_committed v)"
  using live_applied trade_updates_keep_history [of "live_world (\<lambda>_. NoFault)" length "FillUpdate (live_fill 1)"] by force

text \<open>
  C26. A fill is absorbed exactly once: when an update of it returned anything but
  \<open>UNKNOWN_ORDER\<close>, then after any later history of the database a second delivery of
  the same fill, if it returns, returns \<open>DUPLICATE\<close>, and whether it returns or raises
  it leaves every row but the control row as it was.
\<close>

theorem fill_redelivery_changes_nothing:
  assumes "settled w1" "apply_update u5 (FillUpdate f) w1 = (Inr r1, v1)" "r1 \<noteq> UNKNOWN_ORDER"
    and "evolves (w_committed v1) (w_committed w2)" "settled w2"
    and "apply_update u5 (FillUpdate f) w2 = (r2, v2)"
  shows "(\<forall>r. r2 = Inr r \<longrightarrow> r = DUPLICATE) \<and> control_only (w_committed w2) (w_committed v2)"
proof -
  have "fill_known f (w_committed v1)"
    using triple_returned [OF apply_fill_known assms(1), of u5 f r1 v1] assms(2,3) by simp
  then have "fill_known f (w_committed w2)" by (rule evolves_fill_known [OF assms(4)])
  note again = redelivered_fill [OF this, of u5]
  have start: "unmoved (w_committed w2) w2" using assms(5) by (simp add: unmoved_def settled_def)
  have "(\<forall>r. r2 = Inr r \<longrightarrow> r = DUPLICATE) \<and> unmoved (w_committed w2) v2"
    using triple_returned [OF again start] triple_raised [OF again start] assms(6) by (cases r2) auto
  then show ?thesis by (simp add: unmoved_def)
qed

theorem fill_redelivery_changes_nothing_witness:
  "\<exists>v1 r2 v2. apply_update length (FillUpdate (live_fill 1)) (live_world (\<lambda>_. NoFault)) = (Inr APPLIED, v1)
     \<and> apply_update length (FillUpdate (live_fill 1)) (uow_close v1) = (r2, v2)
     \<and> control_only (w_committed (uow_close v1)) (w_committed v2)"
proof -
  obtain v1 where v1: "apply_update length (FillUpdate (live_fill 1)) (live_world (\<lambda>_. NoFault)) = (Inr APPLIED, v1)"
    using live_applied by blast
  obtain r2 v2 where v2: "apply_update length (FillUpdate (live_fill 1)) (uow_close v1) = (r2, v2)"
    by (cases "apply_update length (FillUpdate (live_fill 1)) (uow_close v1)")
  have "control_only (w_committed (uow_close v1)) (w_committed v2)"
    using fill_redelivery_changes_nothing [OF live_settled(1) v1 _ _ _ v2] by (simp add: uow_close_def settled_def)
  with v1 v2 show ?thesis by blast
qed

text \<open>
  C16. The execution fact survives a conflict: when a fill that was not recorded
  before raises \<open>TradeUpdateError\<close>, the fill is committed, whatever failed while the
  mirror, the intent, the marker and the pause were being written.
\<close>

theorem conflicting_fill_is_durable:
  assumes "settled w" "find_fill (fl_execution_id f) (w_committed w) = None"
    and "apply_update u5 (FillUpdate f) w = (Inl TradeUpdateError, v)"
  shows "find_fill (fl_execution_id f) (w_committed v) = Some f"
  using triple_raised [OF conflict_fill_durable, of w f u5 TradeUpdateError v] assms by (simp add: fill_known_def)

lemma conflict_texts:
  "btrim_nonempty ''reconciliation required; conflicting fill''" "\<not> blank ''reconciliation required; conflicting fill''"
  "bounded_text 200 ''automatic pause on conflicting fill''" "btrim_nonempty ''automatic pause on conflicting fill''"
  "bounded_text 100 ''trade_update_consumer''" "btrim_nonempty ''trade_update_consumer''"
  by code_simp+

lemmas run_conflict = conflict_texts surface_conflict_def persist_conflict_pause_def persist_conflict_marker_def
  rollback_and_raise_def suppressM_def uow_rollback_def discard_work_def conflict_pause_command_id_def

lemma live_conflict:
  "\<exists>v. apply_update length (FillUpdate (live_fill 5)) (live_world (\<lambda>_. NoFault)) = (Inl TradeUpdateError, v)"
  by (simp add: live_run run_conflict broker_guard_eq del: order_status_value.simps broker_order_status_value.simps cong: run_weak)

lemma live_new: "find_fill e live_db = None"
  by (simp add: find_fill_def live_db_def demo_db_def)

theorem conflicting_fill_is_durable_witness:
  "\<exists>v. apply_update length (FillUpdate (live_fill 5)) (live_world (\<lambda>_. NoFault)) = (Inl TradeUpdateError, v)
     \<and> find_fill ''x-1'' (w_committed v) = Some (live_fill 5)"
  using live_conflict conflicting_fill_is_durable [of "live_world (\<lambda>_. NoFault)" "live_fill 5" length]
  by (auto simp: live_new)

text \<open>
  C17. Conflicts fail closed: on a connection without faults, a trade update that raises
  \<open>TradeUpdateError\<close> leaves a committed pause of entries, whatever other processes
  committed meanwhile and even when the intent itself cannot be marked.
\<close>

theorem conflicts_pause_entries:
  assumes "settled w" "\<not> w_dead w" "\<forall>n. w_faults w n = NoFault"
    and "0 \<le> cs_flatten_generation (db_control (w_committed w))"
    and "apply_update u5 u w = (Inl TradeUpdateError, v)"
  shows "cs_entries_paused (db_control (w_committed v))"
  using triple_raised [OF sound_conflicts _ assms(5)] assms(1-4)
  by (simp add: sound_def alive_def settled_def paused_def)

theorem conflicts_pause_entries_witness:
  "\<exists>v. apply_update length (FillUpdate (live_fill 5)) (live_world (\<lambda>_. NoFault)) = (Inl TradeUpdateError, v)
     \<and> cs_entries_paused (db_control (w_committed v))"
proof -
  have "0 \<le> cs_flatten_generation (db_control live_db)" by (simp add: live_db_def demo_db_def)
  then show ?thesis
    using live_conflict conflicts_pause_entries [of "live_world (\<lambda>_. NoFault)" length "FillUpdate (live_fill 5)"] by auto
qed

text \<open>
  C27. A status update that returns \<open>APPLIED\<close> leaves exactly its observation committed:
  the mirror has the reported status, filled quantity and broker time, and the intent
  the status the closed map gives it. Any other returned outcome changed no row but,
  through other processes, the control row.
\<close>

theorem status_update_outcomes:
  assumes "settled w" "apply_update u5 (StatusUpdate u) w = (Inr r, v)"
  shows "if r = APPLIED
     then (\<exists>b. find_row_by_id (ou_broker_order_id u) (w_committed v) = Some b \<and> bo_status (br_order b) = ou_status u
            \<and> bo_filled_quantity (br_order b) = ou_filled_quantity u \<and> br_watermark b = Some (ou_observed_at u))
        \<and> (\<exists>i. find_intent (ou_client_order_id u) (w_committed w) = Some i
            \<and> find_intent (ou_client_order_id u) (w_committed v)
                = Some (i\<lparr>oi_status := status_intent_target i (ou_status u)\<rparr>))
     else control_only (w_committed w) (w_committed v)"
proof -
  have "if r = APPLIED then \<exists>i. find_intent (ou_client_order_id u) (w_committed w) = Some i \<and> row_shows u (w_committed v)
       \<and> intent_at (ou_client_order_id u) i (status_intent_target i (ou_status u)) (w_committed v)
     else tracks control_only w v"
    by (rule triple_returned [OF apply_status_outcome [of w u5 u]]) (use assms in simp_all)
  then show ?thesis
    using assms(1) by (auto simp: row_shows_def intent_at_def tracks_def settled_def split: if_splits)
qed

definition live_status :: order_status_update where
  "live_status = \<lparr>ou_client_order_id = oi_client_order_id demo_intent, ou_broker_order_id = fake_bid (Suc 0),
     ou_status = B_PARTIALLY_FILLED, ou_filled_quantity = 1, ou_observed_at = 30\<rparr>"

lemmas run_status = apply_status_def write_status_def status_update_checks_def assert_broker_order_transition_def
  status_intent_target_def transition_intent_def live_status_def

lemma live_status_applied:
  "\<exists>v. apply_update length (StatusUpdate live_status) (live_world (\<lambda>_. NoFault)) = (Inr APPLIED, v)"
  by (simp add: live_run run_status broker_guard_eq del: order_status_value.simps broker_order_status_value.simps cong: run_weak)

theorem status_update_outcomes_witness:
  "\<exists>v b. apply_update length (StatusUpdate live_status) (live_world (\<lambda>_. NoFault)) = (Inr APPLIED, v)
     \<and> find_row_by_id (fake_bid (Suc 0)) (w_committed v) = Some b \<and> bo_filled_quantity (br_order b) = 1"
  using live_status_applied status_update_outcomes [of "live_world (\<lambda>_. NoFault)" length live_status]
  by (auto simp: live_status_def)

text \<open>
  C28. The gap in the fail-closed rule: when the connection is lost right after the
  fill was committed, the consumer's own recovery starts with a read on the dead
  connection, which raises outside every handler. The raw database error escapes, the
  fill is committed, and neither the control row nor any intent has changed: entries
  are not paused and nothing is marked for review.
\<close>

theorem lost_connection_leaves_no_pause:
  assumes "settled w" "\<not> w_dead w" "\<forall>n. w_env w n = None"
    and "w_faults w = (\<lambda>n. if n = w_tick w + 4 then LostBefore else NoFault)"
    and "find_row_by_id (fl_broker_order_id f) (w_committed w) = Some b" "load_broker_order b = Inr m"
    and "find_fill (fl_execution_id f) (w_committed w) = None" "fl_quantity f \<le> BIGINT_MAX"
  shows "\<exists>v. apply_update u5 (FillUpdate f) w = (Inl DatabaseError, v)
    \<and> w_committed v = (w_committed w)\<lparr>db_fills := db_fills (w_committed w) @ [f]\<rparr>"
proof -
  have "env_step x = x\<lparr>w_tick := Suc (w_tick x)\<rparr>" if "\<forall>n. w_env x n = None" for x :: "'a world"
    using that by (simp add: env_step_def Let_def)
  then show ?thesis
    using assms
    by (simp add: settled_def apply_fill_def get_broker_order_by_id_def query_def statement_def run_simps Let_def
        optionO_def add_fill_def sql_insert_fill_def mark_write_def uow_commit_def derive_from_fill_def list_fills_def
        surface_conflict_def suppressM_def uow_rollback_def persist_conflict_pause_def persist_conflict_marker_def
        orders_get_def lose_connection_def cong: run_weak)
qed

theorem lost_connection_leaves_no_pause_witness:
  "\<exists>v. apply_update length (FillUpdate (live_fill 1)) (live_world (\<lambda>n. if n = 4 then LostBefore else NoFault))
      = (Inl DatabaseError, v) \<and> \<not> cs_entries_paused (db_control (w_committed v))
      \<and> find_fill ''x-1'' (w_committed v) = Some (live_fill 1)"
proof -
  let ?w = "live_world (\<lambda>n. if n = 4 then LostBefore else NoFault)"
  have "w_tick ?w = 0" "w_env ?w = (\<lambda>_. None)" by (simp_all add: live_world_def demo_world_def)
  moreover have "find_row_by_id (fake_bid (Suc 0)) live_db = Some \<lparr>br_order = demo_order, br_watermark = Some 20\<rparr>"
    by (simp add: find_row_by_id_def live_db_def)
  ultimately have "\<exists>v. apply_update length (FillUpdate (live_fill 1)) ?w = (Inl DatabaseError, v)
      \<and> w_committed v = live_db\<lparr>db_fills := db_fills live_db @ [live_fill 1]\<rparr>"
    using lost_connection_leaves_no_pause [of ?w "live_fill 1" _ _ length] demo_row live_bounds(2) by (simp add: live_new)
  then show ?thesis by (auto simp: live_db_def demo_db_def find_fill_def)
qed

end
