(* ===== verification/Reconciler_Properties.thy ===== *)
theory Reconciler_Properties
  imports Reconciler Trade_Update_Properties
begin

text \<open>
  The claims about reconciliation, witnessed by a run against the deterministic broker
  that holds one acknowledged order.
\<close>

section \<open>A concrete reconciliation\<close>

definition audit_db :: db where
  "audit_db = live_db\<lparr>db_baselines := [\<lparr>ab_account_id = ''paper'', ab_opening_cash_cents = 100000, ab_effective_at = 1,
     ab_created_at = 1, ab_updated_at = 1, ab_revision_id = None, ab_cutoff_occurred_at = None,
     ab_cutoff_execution_id = None, ab_reason = None, ab_actor = None\<rparr>]\<rparr>"

definition audit_world :: "fake_broker world" where
  "audit_world = demo_world demo_after audit_db"

definition audit :: "string \<Rightarrow> fake_broker reconciler" where
  "audit account = \<lparr>rec_broker = fake_ops, rec_policy = Some \<lparr>ap_expected_account_id = account,
     ap_cash_tolerance_cents = 100, ap_nav_tolerance_cents = 100\<rparr>, rec_prices = None\<rparr>"

abbreviation audit_date :: pydate where "audit_date \<equiv> \<lparr>year = 2026, month = 1, day = 2\<rparr>"

lemmas run_audit = run_reconciliation_def collect_or_report_def collect_def begin_reconciliation_snapshot_def uow_rollback_def
  discard_work_def check_intents_def check_orders_def list_open_broker_orders_def list_all_broker_orders_def row_key_def
  check_open_mirror_def mismatch_if_def mismatch_def check_fills_def list_fills_def count_order_def check_closed_mirror_def
  check_open_order_def history_horizon_def reconciliations_latest_def latest_run_def check_recent_order_def list_all_fills_def
  check_positions_def check_account_def get_baseline_def latest_revision_def check_cash_def check_nav_def fresh_uuid_def
  create_result_def reconciliation_result_post_init_def reconciliations_add_def sql_insert_run_def pause_on_mismatch_def
  intent_parameters_differ_def orders_by_id_def superseded_def

lemma audit_ops [simp]: "rec_broker (audit a) = fake_ops" "rec_prices (audit a) = None"
  "rec_policy (audit a) = Some \<lparr>ap_expected_account_id = a, ap_cash_tolerance_cents = 100, ap_nav_tolerance_cents = 100\<rparr>"
  "op_account fake_ops = fb_account" "op_list_open_orders fake_ops = fb_list_open_orders"
  "op_list_recent_orders fake_ops = fb_list_recent_orders" "op_list_positions fake_ops = fb_list_positions"
  by (simp_all add: audit_def fake_ops_def)

lemma audit_account:
  "paper_account_post_init \<lparr>ac_account_id = ''paper'', ac_environment = PAPER, ac_cash = 100000, ac_equity = 100000, ac_buying_power = 100000\<rparr>
    = Inr \<lparr>ac_account_id = ''paper'', ac_environment = PAPER, ac_cash = 100000, ac_equity = 100000, ac_buying_power = 100000\<rparr>"
  by code_simp

lemma audit_horizon: "midnight \<lparr>year = 2026, month = Suc 0, day = 2\<rparr> - HISTORY_OVERLAP = 63902822400000000"
  by (simp add: midnight_def toordinal_def days_before_year_def HISTORY_OVERLAP_def DAY_MICROSECONDS_def)

lemma audit_late: "\<not> midnight \<lparr>year = 2026, month = Suc 0, day = 2\<rparr> < HISTORY_OVERLAP"
  using audit_horizon by simp

lemma audit_open: "is_open demo_order"
  by (simp add: is_open_def live_steps)

lemma audit_broker:
  "fb_account demo_after = (Inr \<lparr>ac_account_id = ''paper'', ac_environment = PAPER, ac_cash = 100000, ac_equity = 100000,
     ac_buying_power = 100000\<rparr>, demo_after)"
  "fb_get_order ''slv1-core-2026-01-02-open-t1-SPY-buy'' demo_after = (Inr (Some demo_order), demo_after)"
  "fb_list_open_orders demo_after = (Inr [demo_order], demo_after)"
  "fb_list_recent_orders 63902822400000000 demo_after = (Inr [], demo_after)"
  "fb_list_positions demo_after = (Inr [], demo_after)"
  using audit_account
  by (simp_all add: fb_account_def fb_get_order_def fb_list_open_orders_def fb_list_recent_orders_def fb_list_positions_def
      order_state_of_def sorted_orders_def audit_open demo_after_def demo_broker_def run_simps)

lemma audit_projection: "project_ledger [] m = Inr \<lparr>cash_delta_cents = 0, proj_lots = []\<rparr>"
  by (simp add: project_ledger_def canonical_fills_def LedgerProjection_def MAX_ABS_CENTS_def)

lemma audit_baseline:
  "account_baseline_post_init \<lparr>ab_account_id = ''paper'', ab_opening_cash_cents = 100000, ab_effective_at = 1,
     ab_created_at = 1, ab_updated_at = 1, ab_revision_id = None, ab_cutoff_occurred_at = None,
     ab_cutoff_execution_id = None, ab_reason = None, ab_actor = None\<rparr>
   = Inr \<lparr>ab_account_id = ''paper'', ab_opening_cash_cents = 100000, ab_effective_at = 1,
     ab_created_at = 1, ab_updated_at = 1, ab_revision_id = None, ab_cutoff_occurred_at = None,
     ab_cutoff_execution_id = None, ab_reason = None, ab_actor = None\<rparr>" "\<not> blank ''paper''"
  by code_simp+

lemma audit_texts:
  "ReconciliationMismatch ACCOUNT_ID_MISMATCH ''paper'' = Inr \<lparr>rm_kind = ACCOUNT_ID_MISMATCH, rm_detail = ''paper''\<rparr>"
  "btrim_nonempty ''paper''" "btrim_nonempty ''reconciliation mismatch''" "\<not> blank ''reconciliation mismatch''"
  "bounded_text 200 ''automatic pause on reconciliation mismatch''" "btrim_nonempty ''automatic pause on reconciliation mismatch''"
  "bounded_text 100 ''reconciler''" "btrim_nonempty ''reconciler''"
  by code_simp+

lemmas audit_run = audit_late TERMINAL_INTENT_STATUSES_def demo_run run_audit audit_broker audit_horizon audit_projection audit_baseline audit_texts audit_open
  audit_world_def audit_db_def live_db_def mark_write_def position_symbols_def MAX_MISMATCHES_def

lemma audit_clean:
  "\<exists>r v. run_reconciliation (audit ''paper'') audit_date audit_world = (Inr r, v) \<and> rr_status r = CLEAN \<and> rr_scope r = FULL"
  by (simp add: audit_run del: order_status_value.simps broker_order_status_value.simps cong: run_weak)

lemma audit_mismatch:
  "\<exists>r v. run_reconciliation (audit ''other'') audit_date audit_world = (Inr r, v) \<and> rr_status r = MISMATCH"
  by (simp add: audit_run del: order_status_value.simps broker_order_status_value.simps cong: run_weak)

lemma audit_settled [simp]: "settled audit_world" "w_committed audit_world = audit_db"
  by (simp_all add: audit_world_def demo_world_def settled_def)

section \<open>Claims\<close>

text \<open>
  C3. A clean reconciliation means agreement with what the broker told it. When a run
  returns \<open>CLEAN\<close>, over any broker and any faults, there is a conversation from the broker
  at the start of the run to the broker at its end, of reading calls only and none of them
  failed, whose answers agree with the tables the run read: no intent was \<open>UNKNOWN\<close> or
  \<open>REVIEW_REQUIRED\<close>; the broker answered for every open mirror with an order of the same
  status and the parameters of its intent and no unknown fill, for every closed mirror
  with no open order, and with no open order that is not mirrored; and the positions it
  answered are exactly those the fill ledger projects. With an account policy, the
  account answered is the expected one, its cash is the baseline plus the fills after it
  up to the tolerance, and its equity the marked ledger up to the tolerance. If reading
  calls leave the broker in its state, every one of these answers is its answer in the
  one state the run found it in.
\<close>

theorem clean_reconciliation_agrees:
  assumes "run_reconciliation rec trading_date w = (Inr r, v)" "rr_status r = CLEAN"
  shows "\<exists>es. conversation (rec_broker rec) (w_broker w) es (w_broker v) \<and> list_all reading es
    \<and> snapshot_agrees rec (set es) (w_committed w)
    \<and> ((\<forall>x e y. replies (rec_broker rec) x e y \<longrightarrow> reading e \<longrightarrow> y = x) \<longrightarrow>
         (\<forall>e\<in>set es. replies (rec_broker rec) (w_broker w) e (w_broker w)))"
proof -
  obtain es where "conversation (rec_broker rec) (w_broker w) es (w_broker v)" "list_all reading es"
      "snapshot_agrees rec (set es) (w_committed w)"
    using triple_returned [OF run_agrees refl assms(1)] assms(2) by (auto simp: agreed_def)
  moreover from this(1,2) have "\<forall>e\<in>set es. replies (rec_broker rec) (w_broker w) e (w_broker w)"
    if "\<forall>x e y. replies (rec_broker rec) x e y \<longrightarrow> reading e \<longrightarrow> y = x"
    using still_conversation [of "rec_broker rec" "w_broker w" es "w_broker v"] that by simp
  ultimately show ?thesis by blast
qed

theorem clean_reconciliation_agrees_witness:
  "\<exists>r v es. run_reconciliation (audit ''paper'') audit_date audit_world = (Inr r, v) \<and> rr_status r = CLEAN
     \<and> conversation fake_ops demo_after es (w_broker v) \<and> snapshot_agrees (audit ''paper'') (set es) audit_db"
proof -
  obtain r v where run: "run_reconciliation (audit ''paper'') audit_date audit_world = (Inr r, v)" and clean: "rr_status r = CLEAN"
    using audit_clean by blast
  have "w_broker audit_world = demo_after" by (simp add: audit_world_def demo_world_def)
  then show ?thesis using clean_reconciliation_agrees [OF run clean] run clean by auto
qed

text \<open>
  C29. A reconciliation that returns is durable: its result is committed, and when it is a
  mismatch a pause of entries is committed with it.
\<close>

theorem reconciliation_is_durable:
  assumes "run_reconciliation rec trading_date w = (Inr r, v)"
  shows "(\<exists>at. (at, r) \<in> set (db_runs (w_committed v)))
    \<and> (rr_status r = MISMATCH \<longrightarrow> cs_entries_paused (db_control (w_committed v)))"
  using triple_returned [OF run_durable [of "\<lambda>_. True"] _ assms] by (auto simp: recorded_def paused_def image_iff)

theorem reconciliation_is_durable_witness:
  "\<exists>r v. run_reconciliation (audit ''other'') audit_date audit_world = (Inr r, v) \<and> rr_status r = MISMATCH
     \<and> cs_entries_paused (db_control (w_committed v))"
  using audit_mismatch reconciliation_is_durable [of "audit ''other''" audit_date audit_world] by force

text \<open>
  C30. The reconciler reports and never repairs: whether it returns or raises, with any
  broker and any fault, the committed intents, mirrors, fills, baselines, revisions, jobs,
  leases and audit events are those committed before, no order is submitted, the flatten
  generation is the same, and the rest of the control row is unchanged or entries are
  paused. The runs committed before are kept, at most one is added, and that one is the
  result when the run returns; the commands committed before are kept, and at most one is
  added, a \<open>PAUSE_ENTRIES\<close> in the name of the reconciler.
\<close>

theorem reconciler_never_repairs:
  assumes "settled w" "run_reconciliation rec trading_date w = (r, v)"
  shows "other_tables (w_committed v) = other_tables (w_committed w) \<and> w_trace v = w_trace w
    \<and> (db_control (w_committed v) = db_control (w_committed w) \<or> cs_entries_paused (db_control (w_committed v)))
    \<and> cs_flatten_generation (db_control (w_committed v)) = cs_flatten_generation (db_control (w_committed w))
    \<and> (\<exists>rs. db_runs (w_committed v) = db_runs (w_committed w) @ rs \<and> length rs \<le> 1
         \<and> (\<forall>result. r = Inr result \<longrightarrow> map snd rs = [result]))
    \<and> (\<exists>cs. db_commands (w_committed v) = db_commands (w_committed w) @ cs \<and> length cs \<le> 1
         \<and> (\<forall>c\<in>set cs. cc_command c = PAUSE_ENTRIES \<and> cc_actor c = ''reconciler''))"
proof -
  note start = stage_start [OF assms(1)]
  have "\<exists>run. audited w run v \<and> (\<forall>result. r = Inr result \<longrightarrow> run = Some result)"
    using triple_returned [OF run_audited start] triple_raised [OF run_audited start] assms(2) by (cases r) auto
  then obtain run command where added: "reports run command (w_committed w) (w_committed v)" "w_trace v = w_trace w"
      and pause: "\<And>c. command = Some c \<Longrightarrow> cc_command c = PAUSE_ENTRIES \<and> cc_actor c = ''reconciler''"
      and returned: "\<And>result. r = Inr result \<Longrightarrow> run = Some result"
    by (auto simp: audited_def stage_def)
  have "\<exists>rs. db_runs (w_committed v) = db_runs (w_committed w) @ rs \<and> length rs \<le> 1
      \<and> (\<forall>result. r = Inr result \<longrightarrow> map snd rs = [result])"
  proof (cases r)
    case (Inr result)
    note run = assms(2) [unfolded Inr]
    have "recorded result (w_committed v)" "rr_run_id result \<notin> (rr_run_id \<circ> snd) ` set (db_runs (w_committed w))"
      using triple_returned [OF run_durable [of "\<lambda>_. True"] _ run] triple_returned [OF added_run_is_new start run] by simp_all
    then have "db_runs (w_committed v) \<noteq> db_runs (w_committed w)" by (auto simp: recorded_def image_iff)
    then show ?thesis using added(1) returned [OF Inr] Inr by (auto simp: reports_def adds_def)
  qed (use added(1) in \<open>auto simp: reports_def adds_def\<close>)
  moreover have "\<exists>cs. db_commands (w_committed v) = db_commands (w_committed w) @ cs \<and> length cs \<le> 1
      \<and> (\<forall>c\<in>set cs. cc_command c = PAUSE_ENTRIES \<and> cc_actor c = ''reconciler'')"
    using added(1) pause by (auto simp: reports_def adds_def)
  ultimately show ?thesis using added by (simp add: reports_def)
qed

theorem reconciler_never_repairs_witness:
  "\<exists>r v. run_reconciliation (audit ''other'') audit_date audit_world = (Inr r, v)
     \<and> other_tables (w_committed v) = other_tables audit_db \<and> w_trace v = []
     \<and> map snd (db_runs (w_committed v)) = [r] \<and> length (db_commands (w_committed v)) \<le> 1"
proof -
  obtain r v where run: "run_reconciliation (audit ''other'') audit_date audit_world = (Inr r, v)"
    using audit_mismatch by blast
  have "w_trace audit_world = []" "db_runs audit_db = []" "db_commands audit_db = []"
    by (simp_all add: audit_world_def demo_world_def audit_db_def live_db_def demo_db_def)
  then show ?thesis using run reconciler_never_repairs [OF audit_settled(1) run] by auto
qed

text \<open>
  C31. A reconciliation that cannot observe the broker, or cannot replay its own fills, is
  itself evidence: when collecting raises \<open>BrokerTransportError\<close> or a ledger invariant
  error and the run returns, its result is a mismatch of partial scope with that one
  mismatch and no order or fill counted, it is among the committed runs, and entries are
  paused in the committed database.
\<close>

theorem unobservable_broker_pauses:
  assumes "fst (collect rec trading_date w) = Inl BrokerTransportError \<and> kind = BROKER_QUERY_FAILURE
      \<or> fst (collect rec trading_date w) = Inl (LedgerInvariantError message) \<and> kind = LOCAL_LEDGER_INVARIANT"
    and "run_reconciliation rec trading_date w = (Inr r, v)"
  shows "rr_status r = MISMATCH \<and> rr_scope r = PARTIAL \<and> map rm_kind (rr_mismatches r) = [kind]
    \<and> rr_checked_orders r = 0 \<and> rr_checked_fills r = 0
    \<and> r \<in> snd ` set (db_runs (w_committed v)) \<and> cs_entries_paused (db_control (w_committed v))"
  using collected_failure [OF assms] triple_returned [OF run_durable [of "\<lambda>_. True"] _ assms(2)]
  by (simp add: paused_def recorded_def)

definition outage :: "fake_broker reconciler" where
  "outage = (audit ''paper'')\<lparr>rec_broker := fake_ops\<lparr>op_account := \<lambda>b. (Inl BrokerTransportError, b)\<rparr>\<rparr>"

lemma outage_ops [simp]: "op_account (rec_broker outage) = (\<lambda>b. (Inl BrokerTransportError, b))"
  by (simp add: outage_def)

lemma outage_detail:
  "ReconciliationMismatch BROKER_QUERY_FAILURE ''broker query failed during reconciliation''
    = Inr \<lparr>rm_kind = BROKER_QUERY_FAILURE, rm_detail = ''broker query failed during reconciliation''\<rparr>"
  "btrim_nonempty ''broker query failed during reconciliation''"
  by code_simp+

lemma outage_run:
  "fst (collect outage audit_date audit_world) = Inl BrokerTransportError"
  "\<exists>r v. run_reconciliation outage audit_date audit_world = (Inr r, v)"
  by (simp_all add: audit_run failed_run_def outage_detail
      del: order_status_value.simps broker_order_status_value.simps cong: run_weak)

theorem unobservable_broker_pauses_witness:
  "\<exists>r v. run_reconciliation outage audit_date audit_world = (Inr r, v) \<and> rr_scope r = PARTIAL
     \<and> r \<in> snd ` set (db_runs (w_committed v)) \<and> cs_entries_paused (db_control (w_committed v))"
  using outage_run unobservable_broker_pauses [of outage audit_date audit_world BROKER_QUERY_FAILURE "[]"] by blast

end
