(* ===== verification/Control_Properties.thy ===== *)
theory Control_Properties
  imports System Engine_Properties Reconciler_Properties
begin

text \<open>
  The claims about the control plane, with runs of resume and flatten on concrete
  databases as their witnesses.
\<close>

definition demo_system :: "fake_broker system" where
  "demo_system = \<lparr>sys_engine = demo_engine, sys_reconciler = audit ''paper'', sys_prices = None, sys_uuid5 = length\<rparr>"

lemma demo_system_run: "system_run demo_system fake_event (demo_world (demo_broker ACKNOWLEDGE) demo_db) demo_submitted"
proof -
  let ?w = "demo_world (demo_broker ACKNOWLEDGE) demo_db"
  obtain r u where run: "run_system demo_system (EngineOp (SubmitFromOutbox demo_cid)) ?w = (r, u)"
    by (cases "run_system demo_system (EngineOp (SubmitFromOutbox demo_cid)) ?w")
  have "snd (perform (single m) w) = snd (m w)" for m :: "(fake_broker world, order_intent) comp" and w
    by (simp add: perform_def single_def run_simps split: prod.split sum.split)
  then have "uow_close u = demo_submitted"
    using run unfolding demo_submitted_def demo_system_def run_system.simps run_op.simps system.simps
    by (metis snd_conv)
  with system_run.operation [OF system_run.start run, of fake_event] show ?thesis by simp
qed

section \<open>Pause and resume\<close>

lemma clean_resume_resumes:
  assumes "settled w" "\<not> w_dead w" "\<forall>n. w_faults w n = NoFault" "\<forall>n. w_env w n = None"
    and "latest_run (w_committed w) = Some run" "load_result run = Inr run" "rr_status run = CLEAN" "rr_scope run = FULL"
    and "\<not> has_unresolved (w_committed w)"
    and "control_state_post_init (db_control (w_committed w)) = Inr (db_control (w_committed w))"
    and "bounded_text 100 actor" "btrim_nonempty actor"
    and "\<forall>n. w_uuids w n \<noteq> 0 \<and> w_uuids w n \<notin> cc_command_id ` set (db_commands (w_committed w))"
  shows "\<exists>s v. resume_entries actor w = (Inr s, v) \<and> \<not> cs_entries_paused (db_control (w_committed v))"
proof -
  have env: "env_step x = x\<lparr>w_tick := Suc (w_tick x)\<rparr>" if "\<forall>n. w_env x n = None" for x :: "'a world"
    using that by (simp add: env_step_def Let_def)
  have none: "sql_intents_by_status UNKNOWN (w_committed w) = []" "sql_intents_by_status REVIEW_REQUIRED (w_committed w) = []"
    using assms(9) by (simp_all add: has_unresolved_iff)
  have texts: "bounded_text 200 ''resume after full-scope CLEAN reconciliation''"
    "btrim_nonempty ''resume after full-scope CLEAN reconciliation''"
    by code_simp+
  have gen: "0 \<le> cs_flatten_generation (db_control (w_committed w))"
    using assms(10) by (auto simp: control_state_post_init_def bindO_eq_Inr)
  show ?thesis
    using assms none texts gen
    by (simp add: settled_def resume_entries_def submission_guard_def resume_body_def query_def statement_def run_simps Let_def
        env reconciliations_latest_def optionO_def is_resume_safe_def list_by_status_def set_entries_paused_def
        sql_resume_entries_def take_lock_def mark_write_def record_command_def read_clock_def fresh_uuid_def
        control_command_post_init_def MAX_REASON_LENGTH_def MAX_ACTOR_LENGTH_def add_command_def sql_insert_command_def
        uow_commit_def control_state_post_init_def cong: run_weak)
qed

definition clean_run :: reconciliation_result where
  "clean_run = \<lparr>rr_run_id = 9, rr_trading_date = audit_date, rr_status = CLEAN, rr_mismatches = [], rr_checked_orders = 0,
     rr_checked_fills = 0, rr_observed_at = 5, rr_scope = FULL\<rparr>"

definition paused_db :: db where
  "paused_db = demo_db\<lparr>db_control := \<lparr>cs_entries_paused = True, cs_paused_reason = Some ''halt'', cs_updated_at = 0,
     cs_flatten_generation = 0\<rparr>, db_runs := [(6, clean_run)]\<rparr>"

lemma paused_db_facts:
  "latest_run paused_db = Some clean_run" "load_result clean_run = Inr clean_run" "rr_status clean_run = CLEAN"
  "rr_scope clean_run = FULL" "\<not> has_unresolved paused_db"
  "control_state_post_init (db_control paused_db) = Inr (db_control paused_db)"
  "bounded_text 100 ''ops''" "btrim_nonempty ''ops''"
  by code_simp+

definition paused_world :: "fake_broker world" where
  "paused_world = demo_world (demo_broker ACKNOWLEDGE) paused_db"

lemma paused_world_facts:
  "settled paused_world" "\<not> w_dead paused_world" "\<forall>n. w_faults paused_world n = NoFault"
  "\<forall>n. w_env paused_world n = None" "w_committed paused_world = paused_db"
  "\<forall>n. w_uuids paused_world n \<noteq> 0 \<and> w_uuids paused_world n \<notin> cc_command_id ` set (db_commands (w_committed paused_world))"
  "cs_entries_paused (db_control (w_committed paused_world))"
  by (simp_all add: paused_world_def) (simp_all add: demo_world_def paused_db_def demo_db_def)

text \<open>
  C6. Only a resume clears a pause, and only over a clean one: when an operation of the
  program starts with a committed pause and entries are not paused afterwards, whether it
  returned or raised and whatever faults it met, then it was \<open>resume_entries\<close>, and in the
  committed database the latest reconciliation run is \<open>CLEAN\<close> with full scope and no
  intent is \<open>UNKNOWN\<close> or \<open>REVIEW_REQUIRED\<close>.
\<close>

theorem pause_cleared_only_by_clean_resume:
  assumes "settled w" "cs_entries_paused (db_control (w_committed w))" "run_system sys op w = (r, v)"
    and "\<not> cs_entries_paused (db_control (w_committed v))"
  shows "(\<exists>actor. op = ResumeOp actor)
    \<and> (\<exists>run. latest_run (w_committed v) = Some run \<and> rr_status run = CLEAN \<and> rr_scope run = FULL)
    \<and> \<not> has_unresolved (w_committed v)"
  using pause_cleared [OF assms(1) _ assms(3)] assms(2,4) by (auto simp: paused_def resumable_def)

theorem pause_cleared_only_by_clean_resume_witness:
  "\<exists>v. fst (run_system demo_system (ResumeOp ''ops'') paused_world) = Inr ()
     \<and> snd (run_system demo_system (ResumeOp ''ops'') paused_world) = v
     \<and> \<not> cs_entries_paused (db_control (w_committed v))
     \<and> (\<exists>run. latest_run (w_committed v) = Some run \<and> rr_status run = CLEAN \<and> rr_scope run = FULL)"
proof -
  let ?w = paused_world
  obtain s v where run: "resume_entries ''ops'' ?w = (Inr s, v)" and opened: "\<not> cs_entries_paused (db_control (w_committed v))"
    using clean_resume_resumes [of ?w clean_run "''ops''"] paused_db_facts paused_world_facts by auto
  then have step: "run_system demo_system (ResumeOp ''ops'') ?w = (Inr (), v)"
    by (simp add: perform_def run_simps)
  then show ?thesis
    using pause_cleared_only_by_clean_resume [OF _ _ step opened] opened paused_world_facts by simp
qed

text \<open>
  C32. Resume is not only safe but possible: on a connection without faults and with no
  other process pausing meanwhile, when the latest run is clean with full scope, no
  intent is unresolved, the stored rows are valid and the audit record is, \<open>resume_entries\<close>
  returns and entries are no longer paused in the committed database.
\<close>

theorem resume_succeeds_when_clean:
  assumes "settled w" "\<not> w_dead w" "\<forall>n. w_faults w n = NoFault" "\<forall>n. w_env w n = None"
    and "latest_run (w_committed w) = Some run" "load_result run = Inr run" "rr_status run = CLEAN" "rr_scope run = FULL"
    and "\<not> has_unresolved (w_committed w)"
    and "control_state_post_init (db_control (w_committed w)) = Inr (db_control (w_committed w))"
    and "bounded_text 100 actor" "btrim_nonempty actor"
    and "\<forall>n. w_uuids w n \<noteq> 0 \<and> w_uuids w n \<notin> cc_command_id ` set (db_commands (w_committed w))"
  shows "\<exists>s v. resume_entries actor w = (Inr s, v) \<and> \<not> cs_entries_paused (db_control (w_committed v))"
  using assms by (rule clean_resume_resumes)

theorem resume_succeeds_when_clean_witness:
  "\<exists>s v. resume_entries ''ops'' paused_world = (Inr s, v)
     \<and> \<not> cs_entries_paused (db_control (w_committed v))"
  using resume_succeeds_when_clean [of paused_world clean_run "''ops''"] paused_db_facts paused_world_facts by simp

section \<open>A flatten with one position\<close>

definition held_order :: broker_order where
  "held_order = demo_order\<lparr>bo_status := B_FILLED, bo_filled_quantity := 3, bo_updated_at := 30\<rparr>"


definition held_broker :: fake_broker where
  "held_broker = demo_after\<lparr>fb_orders := [(fake_bid (Suc 0), \<lparr>os_order = held_order, os_fills = [live_fill 3]\<rparr>)]\<rparr>"


definition exit_intent :: order_intent where
  "exit_intent = \<lparr>oi_intent_id = 8, oi_client_order_id = ''slv1-control-flatten-2026-01-02-emergency-t1-SPY-sell'',
     oi_strategy = ''control-flatten'', oi_trading_date = \<lparr>year = 2026, month = Suc 0, day = 2\<rparr>, oi_window = ''emergency'',
     oi_target_version = 1, oi_symbol = ''SPY'', oi_side = SELL, oi_quantity = 3, oi_intent_type = RISK_EXIT,
     oi_limit_price = 9500, oi_collar = \<lparr>pc_reference = 10000, pc_offset_bps = 500\<rparr>, oi_earliest_submit_at = 40,
     oi_cancel_at = 14400000040, oi_status = CREATED, oi_run_id = 5, oi_created_at = 40\<rparr>"

definition exit_order :: broker_order where
  "exit_order = new_order exit_intent (fb_default_plan held_broker) held_broker"













lemma exit_fields [simp]: "oi_client_order_id exit_intent = ''slv1-control-flatten-2026-01-02-emergency-t1-SPY-sell''"
   "oi_symbol exit_intent = ''SPY''" "oi_quantity exit_intent = 3" "oi_status exit_intent = CREATED" "oi_intent_id exit_intent = 8"
   "oi_intent_type exit_intent = RISK_EXIT" "oi_side exit_intent = SELL" "oi_limit_price exit_intent = 9500"
  by (simp_all add: exit_intent_def)




lemma fake_bid_two: "fake_bid (Suc 0) \<noteq> fake_bid 2" "fake_bid (Suc (Suc 0)) = fake_bid 2" "fake_bid 2 \<noteq> fake_bid (Suc 0)"
  by code_simp+

lemma exit_order_fields [simp]:
  "bo_broker_order_id exit_order = fake_bid 2" "bo_client_order_id exit_order = oi_client_order_id exit_intent"
  "bo_symbol exit_order = oi_symbol exit_intent" "bo_side exit_order = oi_side exit_intent"
  "bo_quantity exit_order = oi_quantity exit_intent" "bo_limit_price exit_order = oi_limit_price exit_intent"
  "bo_filled_quantity exit_order = 0" "bo_status exit_order = B_ACCEPTED" "bo_updated_at exit_order = 21"
  by (simp_all add: exit_order_def new_order_def held_broker_def demo_after_def demo_broker_def fake_bid_two)




lemma held_order_fields [simp]: "bo_broker_order_id held_order = fake_bid (Suc 0)" "bo_client_order_id held_order = oi_client_order_id demo_intent"
  by (simp_all add: held_order_def)








section \<open>Flatten\<close>



end
