(* ===== verification/System_Properties.thy ===== *)
theory System_Properties
  imports Control_Properties
begin

text \<open>
  The claims about the parts together.
\<close>

section \<open>The parts together\<close>

text \<open>
  C1. Submission safety of the whole program: in every run of engine operations, trade
  updates, reconciliations, operator commands, baselines and job operations, with any
  broker, any faults and any steps of other processes between them, each submission that reached the broker left
  with its intent committed as \<open>SUBMITTING\<close> (or \<open>UNKNOWN\<close> for a risk exit), and one that
  is not a risk exit left while entries were not paused and no intent was unresolved.
\<close>

theorem system_submissions_are_safe:
  assumes "system_run sys market w v" "settled w" "w_trace w = []"
  shows "\<forall>i d. EvSubmit i d \<in> set (w_trace v) \<longrightarrow>
    find_intent (oi_client_order_id i) d = Some i
    \<and> (oi_status i = SUBMITTING \<or> oi_status i = UNKNOWN \<and> oi_intent_type i = RISK_EXIT)
    \<and> (oi_intent_type i = RISK_EXIT \<or> \<not> cs_entries_paused (db_control d) \<and> \<not> has_unresolved d)"
proof -
  have "safe_trace v" using system_run_safe [OF assms(1,2)] assms(3) by (simp add: safe_trace_def)
  then show ?thesis by (auto simp: safe_trace_def list_all_iff)
qed

theorem system_submissions_are_safe_witness:
  "EvSubmit (demo_intent\<lparr>oi_status := SUBMITTING\<rparr>) (demo_db\<lparr>db_intents := [demo_intent\<lparr>oi_status := SUBMITTING\<rparr>]\<rparr>)
     \<in> set (w_trace demo_submitted)
   \<and> \<not> cs_entries_paused (db_control (demo_db\<lparr>db_intents := [demo_intent\<lparr>oi_status := SUBMITTING\<rparr>]\<rparr>))"
proof -
  let ?i = "demo_intent\<lparr>oi_status := SUBMITTING\<rparr>"
  have sent: "EvSubmit ?i (demo_db\<lparr>db_intents := [?i]\<rparr>) \<in> set (w_trace demo_submitted)"
    by (simp add: demo_submitted_world)
  then have "oi_intent_type ?i = RISK_EXIT \<or> \<not> cs_entries_paused (db_control (demo_db\<lparr>db_intents := [?i]\<rparr>))"
    using system_submissions_are_safe [OF demo_system_run] demo_settled demo_start(1) by blast
  with sent show ?thesis by simp
qed

end
