(* ===== verification/Job_Properties.thy ===== *)
theory Job_Properties
  imports Job_Service Demo
begin

text \<open>
  The claims about scheduled jobs: exclusive leases, the fence against stale grants, atomic
  status changes and the identity of a job.
\<close>

section \<open>Histories of the job tables\<close>

text \<open>
  One statement of any worker: a new job, one of the four lease functions, or an update of
  a job row that went round them and met the guard trigger without the marker the lease
  functions set. Statement times are arbitrary.
\<close>

inductive job_step :: "db \<Rightarrow> db \<Rightarrow> bool" where
  added: "sql_insert_job spec now d = Inr (r, d') \<Longrightarrow> job_step d d'"
| acquired: "acquire_job_lease key owner lease_for now d = Inr (r, d') \<Longrightarrow> job_step d d'"
| renewed: "renew_job_lease key owner token lease_for now d = Inr (r, d') \<Longrightarrow> job_step d d'"
| released: "release_job_lease key owner token ''released_by_owner'' now d = Inr (r, d') \<Longrightarrow> job_step d d'"
| moved: "transition_job_status key owner token status now d = Inr (r, d') \<Longrightarrow> job_step d d'"
| direct: "find_job key d = Some old \<Longrightarrow> \<not> st_lease_mutation s \<Longrightarrow> ji_created_at new = ji_created_at old \<Longrightarrow>
    sql_update_job s old new now d = Inr (r, d') \<Longrightarrow> job_step d d'"

abbreviation job_history :: "db \<Rightarrow> db \<Rightarrow> bool" where
  "job_history \<equiv> job_step\<^sup>*\<^sup>*"

text \<open>Without the marker the trigger lets no lease column change.\<close>

lemma direct_update:
  assumes "find_job key d = Some old" "\<not> st_lease_mutation s" "sql_update_job s old new now d = Inr (r, d')"
  shows "ji_spec r = ji_spec old" "ji_lease_owner r = ji_lease_owner old" "ji_leased_until r = ji_leased_until old"
    "ji_fencing_token r = ji_fencing_token old" "ji_attempt_count r = ji_attempt_count old"
    "ji_created_at r = ji_created_at new" "job_row_ok r" "d' = put_job r d"
  using assms by (auto simp: sql_update_job_def guard_job_write_def bindO_eq_Inr split: if_splits)

lemma direct_keeps_ok:
  assumes "leases_ok d" and upd: "find_job key d = Some old" "\<not> st_lease_mutation s" "sql_update_job s old new now d = Inr (r, d')"
  shows "leases_ok d'"
proof (rule leases_ok_step [OF assms(1) upd(1)])
  note r = direct_update [OF upd]
  have same: "lease_fits r l = lease_fits old l" "held_by r l = held_by old l" for l
    by (simp_all add: lease_fits_def held_by_def r)
  show "ji_spec r = ji_spec old" "job_row_ok r" "db_jobs d' = db_jobs (put_job r d)" by (simp_all add: r)
  show "lease_fits r l" if "l \<in> set (db_leases d')" "lr_job_key l = key" for l
    using job_leases_fit [OF assms(1) upd(1)] that by (simp add: same r)
  show "\<exists>l\<in>set (db_leases d'). lr_job_key l = key \<and> lr_released_at l = None \<and> held_by r l" if "ji_lease_owner r \<noteq> None"
    using leases_okD(4) [OF assms(1)] find_job_Some [OF upd(1)] that by (auto simp: same r)
qed (use leases_okD(5,6) [OF assms(1)] direct_update(8) [OF upd] in simp_all)

lemma job_step_ok: "job_step d d' \<Longrightarrow> leases_ok d \<Longrightarrow> leases_ok d'"
  by (cases rule: job_step.cases)
    (blast intro: add_keeps_ok acquire_keeps_ok renew_keeps_ok transition_keeps_ok direct_keeps_ok
      release_keeps_ok [where reason = "''released_by_owner''"], simp?)+

lemma job_step_evolves:
  assumes "job_step d d'"
  shows "evolves d d'"
  using assms
proof (cases rule: job_step.cases)
  case (direct key old s new now r)
  note r = direct_update [OF direct(1,2,4)]
  have "jobs_evolve d d'"
    by (rule jobs_evolve_step [OF direct(1), of r _ id "[]"]) (simp_all add: r direct(3))
  then show ?thesis using others_same_evolves [of d d'] by (simp add: r)
qed (auto intro: evolve_intros)

lemma job_history_ok: "job_history d d' \<Longrightarrow> leases_ok d \<Longrightarrow> leases_ok d'"
  by (induction rule: rtranclp_induct) (auto intro: job_step_ok)

lemma job_history_evolves: "job_history d d' \<Longrightarrow> evolves d d'"
  by (induction rule: rtranclp_induct) (auto intro: job_step_evolves evolves_trans)

lemma no_jobs_ok: "db_jobs d = [] \<Longrightarrow> db_leases d = [] \<Longrightarrow> leases_ok d"
  by (simp add: leases_ok_def succession_def)

section \<open>A concrete history\<close>

definition demo_spec :: job_spec where
  "demo_spec = \<lparr>js_trading_date = \<lparr>year = 2026, month = 1, day = 2\<rparr>, js_job_type = ''reconcile'', js_window = ''open''\<rparr>"

abbreviation demo_key :: string where
  "demo_key \<equiv> ''2026-01-02/reconcile/open''"

definition step_db :: "exn + ('a \<times> db) \<Rightarrow> db" where
  "step_db r = (case r of Inr (_, d) \<Rightarrow> d | Inl _ \<Rightarrow> demo_db)"

text \<open>The first worker's lease of 100 microseconds runs out at 110; the second takes over at 120.\<close>

definition demo_added :: db where "demo_added = step_db (sql_insert_job demo_spec 5 demo_db)"
definition demo_leased :: db where "demo_leased = step_db (acquire_job_lease demo_key ''w1'' 100 10 demo_added)"
definition demo_taken :: db where "demo_taken = step_db (acquire_job_lease demo_key ''w2'' 100 120 demo_leased)"

definition demo_job :: job_instance where
  "demo_job = \<lparr>ji_spec = demo_spec, ji_status = PLANNED, ji_lease_owner = Some ''w2'', ji_leased_until = Some 220,
     ji_fencing_token = 2, ji_attempt_count = 2, ji_created_at = 5, ji_updated_at = 120\<rparr>"

definition demo_grant :: lease_grant where
  "demo_grant = \<lparr>lg_job_key = demo_key, lg_lease_owner = ''w2'', lg_leased_until = 220, lg_fencing_token = 2,
     lg_attempt_count = 2, lg_database_time = 120\<rparr>"

lemma demo_job_texts [simp]:
  "job_key demo_spec = demo_key" "fullmatch LEASE_OWNER_PATTERN ''w1''" "fullmatch LEASE_OWNER_PATTERN ''w2''"
  "fullmatch JOB_COMPONENT_PATTERN (js_job_type demo_spec)" "fullmatch JOB_COMPONENT_PATTERN (js_window demo_spec)"
  "btrim_nonempty demo_key"
  by code_simp+

lemmas demo_job_simps = step_db_def demo_db_def demo_job_def demo_grant_def job_row_ok_def find_job_def Let_def
  sql_insert_job_def acquire_job_lease_def sql_update_job_def guard_job_write_def put_job_def take_over_def
  sql_insert_lease_def lease_row_of_def grant_of_def lease_request_ok_def lease_mutation_def update_leases_def
  open_lease_def close_lease_def bindO_def BIGINT_MAX_def INTEGER_MAX_def DAY_MICROSECONDS_def

text \<open>The row of a lease, its history rows and the databases along the way.\<close>

definition demo_lease :: "string \<Rightarrow> int \<Rightarrow> utc \<Rightarrow> lease_row" where
  "demo_lease owner token now =
     \<lparr>lr_job_key = demo_key, lr_owner = owner, lr_fencing_token = token, lr_acquired_at = now, lr_last_renewed_at = now,
      lr_leased_until = now + 100, lr_released_at = None, lr_release_reason = None\<rparr>"

lemma demo_dbs:
  "demo_added = demo_db\<lparr>db_jobs := [demo_job\<lparr>ji_lease_owner := None, ji_leased_until := None,
     ji_fencing_token := 0, ji_attempt_count := 0, ji_updated_at := 5\<rparr>]\<rparr>"
  "demo_leased = demo_db\<lparr>db_jobs := [demo_job\<lparr>ji_lease_owner := Some ''w1'', ji_leased_until := Some 110,
     ji_fencing_token := 1, ji_attempt_count := 1, ji_updated_at := 10\<rparr>], db_leases := [demo_lease ''w1'' 1 10]\<rparr>"
  "demo_taken = demo_db\<lparr>db_jobs := [demo_job],
     db_leases := [close_lease 120 ''EXPIRED_TAKEOVER'' (demo_lease ''w1'' 1 10), demo_lease ''w2'' 2 120]\<rparr>"
proof -
  show added: "demo_added = demo_db\<lparr>db_jobs := [demo_job\<lparr>ji_lease_owner := None, ji_leased_until := None,
     ji_fencing_token := 0, ji_attempt_count := 0, ji_updated_at := 5\<rparr>]\<rparr>"
    unfolding demo_added_def by (simp add: demo_job_simps)
  show leased: "demo_leased = demo_db\<lparr>db_jobs := [demo_job\<lparr>ji_lease_owner := Some ''w1'', ji_leased_until := Some 110,
     ji_fencing_token := 1, ji_attempt_count := 1, ji_updated_at := 10\<rparr>], db_leases := [demo_lease ''w1'' 1 10]\<rparr>"
    unfolding demo_leased_def added by (simp add: demo_job_simps demo_lease_def)
  show "demo_taken = demo_db\<lparr>db_jobs := [demo_job],
     db_leases := [close_lease 120 ''EXPIRED_TAKEOVER'' (demo_lease ''w1'' 1 10), demo_lease ''w2'' 2 120]\<rparr>"
    unfolding demo_taken_def leased by (simp add: demo_job_simps demo_lease_def)
qed

lemma demo_add_runs: "\<exists>r. sql_insert_job demo_spec 5 demo_db = Inr (r, demo_added)"
  unfolding demo_dbs by (simp add: demo_job_simps)

lemma demo_lease_runs: "\<exists>r. acquire_job_lease demo_key ''w1'' 100 10 demo_added = Inr (r, demo_leased)"
  unfolding demo_dbs by (simp add: demo_job_simps demo_lease_def)

lemma demo_take_runs: "acquire_job_lease demo_key ''w2'' 100 120 demo_leased = Inr (Some demo_grant, demo_taken)"
  unfolding demo_dbs by (simp add: demo_job_simps demo_lease_def)

lemma demo_history: "job_history demo_db demo_taken"
proof -
  have "job_step demo_db demo_added" using demo_add_runs job_step.added by blast
  moreover have "job_step demo_added demo_leased" using demo_lease_runs job_step.acquired by blast
  moreover have "job_step demo_leased demo_taken" using demo_take_runs job_step.acquired by blast
  ultimately show ?thesis by (meson converse_rtranclp_into_rtranclp r_into_rtranclp)
qed

lemma demo_tables:
  "db_jobs demo_db = []" "db_leases demo_db = []" "db_jobs demo_taken = [demo_job]"
  "db_leases demo_taken = [close_lease 120 ''EXPIRED_TAKEOVER'' (demo_lease ''w1'' 1 10), demo_lease ''w2'' 2 120]"
  by (simp_all add: demo_dbs demo_db_def)

section \<open>Leases\<close>

lemma history_ok: "job_history d0 d \<Longrightarrow> db_jobs d0 = [] \<Longrightarrow> db_leases d0 = [] \<Longrightarrow> leases_ok d"
  using job_history_ok no_jobs_ok by blast

lemma find_job_member:
  assumes "leases_ok d" "j \<in> set (db_jobs d)"
  shows "find_job (key_of j) d = Some j"
proof -
  obtain i where i: "find_job (key_of j) d = Some i"
    using assms(2) by (cases "find_job (key_of j) d") (auto simp: find_job_def find_None_iff)
  moreover from find_job_Some [OF this] have "i = j"
    using same_key_same_job [OF leases_okD(1) [OF assms(1)] _ assms(2)] by blast
  ultimately show ?thesis by simp
qed

lemma lease_has_job:
  assumes "leases_ok d" "l \<in> set (db_leases d)"
  obtains j where "find_job (lr_job_key l) d = Some j" "lease_fits j l"
  using leases_okD(3) [OF assms] find_job_member [OF assms(1)] by metis

lemma same_token_same_lease:
  assumes "leases_ok d" "l \<in> set (db_leases d)" "m \<in> set (db_leases d)" "lr_job_key l = lr_job_key m"
    "lr_fencing_token l = lr_fencing_token m"
  shows "l = m"
  using leases_okD(5) [OF assms(1)] assms(2-5) by (auto simp: distinct_map dest: inj_onD)

text \<open>
  C13. Exclusive leases: over every history of statements of any workers at any statement
  times, also of updates that go round the lease functions, an open lease is the current
  owner, token and end of its job, so that a job has at most one. Fencing tokens start at 1
  and are unique per job, and a lease that was taken over had run out when its successor was
  granted.
\<close>

theorem job_leases_are_exclusive:
  assumes "job_history d0 d" "db_jobs d0 = []" "db_leases d0 = []"
    and "l \<in> set (db_leases d)" "m \<in> set (db_leases d)" "lr_job_key l = lr_job_key m"
  shows "(\<exists>j. find_job (lr_job_key l) d = Some j \<and> 1 \<le> lr_fencing_token l \<and> lr_fencing_token l \<le> ji_fencing_token j
       \<and> (lr_released_at l = None \<longrightarrow> ji_lease_owner j = Some (lr_owner l) \<and> ji_fencing_token j = lr_fencing_token l
             \<and> ji_leased_until j = Some (lr_leased_until l)))
    \<and> (lr_released_at l = None \<and> lr_released_at m = None \<or> lr_fencing_token l = lr_fencing_token m \<longrightarrow> l = m)
    \<and> (lr_release_reason l = Some ''EXPIRED_TAKEOVER'' \<and> lr_fencing_token m = lr_fencing_token l + 1
         \<longrightarrow> lr_leased_until l \<le> lr_acquired_at m)"
proof (intro conjI impI)
  have ok: "leases_ok d" using history_ok assms(1-3) .
  obtain j where j: "find_job (lr_job_key l) d = Some j" "lease_fits j l" using lease_has_job [OF ok assms(4)] .
  then show "\<exists>j. find_job (lr_job_key l) d = Some j \<and> 1 \<le> lr_fencing_token l \<and> lr_fencing_token l \<le> ji_fencing_token j
      \<and> (lr_released_at l = None \<longrightarrow> ji_lease_owner j = Some (lr_owner l) \<and> ji_fencing_token j = lr_fencing_token l
            \<and> ji_leased_until j = Some (lr_leased_until l))"
    by (auto simp: lease_fits_def held_by_def)
  have "lease_fits j m" using job_leases_fit [OF ok j(1) assms(5)] assms(6) by simp
  with j(2) show "l = m" if "lr_released_at l = None \<and> lr_released_at m = None \<or> lr_fencing_token l = lr_fencing_token m"
    using same_token_same_lease [OF ok assms(4-6)] that by (auto simp: lease_fits_def held_by_def)
  show "lr_leased_until l \<le> lr_acquired_at m"
    if "lr_release_reason l = Some ''EXPIRED_TAKEOVER'' \<and> lr_fencing_token m = lr_fencing_token l + 1"
    using leases_okD(6) [OF ok] assms(4-6) that by (auto simp: succession_def taken_over_def)
qed

theorem job_leases_are_exclusive_witness:
  "job_history demo_db demo_taken
   \<and> lr_leased_until (close_lease 120 ''EXPIRED_TAKEOVER'' (demo_lease ''w1'' 1 10)) \<le> lr_acquired_at (demo_lease ''w2'' 2 120)"
proof -
  let ?l = "close_lease 120 ''EXPIRED_TAKEOVER'' (demo_lease ''w1'' 1 10)" and ?m = "demo_lease ''w2'' 2 120"
  have "?l \<in> set (db_leases demo_taken)" "?m \<in> set (db_leases demo_taken)" by (simp_all add: demo_tables)
  from job_leases_are_exclusive [OF demo_history demo_tables(1,2) this] show ?thesis
    using demo_history by (simp add: demo_lease_def close_lease_def)
qed

text \<open>
  C14. The fence: once a lease was granted, every grant with a smaller token is refused for
  ever after. Whatever happened to the tables in between and whatever the statement time,
  renewing, releasing or writing a status with it changes nothing.
\<close>

theorem stale_grants_are_fenced:
  assumes "acquire_job_lease key owner lease_for now d = Inr (Some g, d1)" "job_history d1 d2" "token < lg_fencing_token g"
  shows "renew_job_lease key old_owner token renew_for now' d2 \<in> {Inl DatabaseError, Inr (None, d2)}
    \<and> release_job_lease key old_owner token reason now' d2 \<in> {Inl DatabaseError, Inr (False, d2)}
    \<and> transition_job_status key old_owner token status now' d2 \<in> {Inl DatabaseError, Inr (None, d2)}"
proof -
  obtain j where "find_job key d1 = Some j" "lg_fencing_token g = ji_fencing_token j"
    using acquire_raises_token [OF assms(1)] by blast
  then have "fenced_job key old_owner token now' d2 = None"
    using stale_is_fenced job_history_evolves [OF assms(2)] assms(3) by simp
  then show ?thesis by (simp add: renew_job_lease_def release_job_lease_def transition_job_status_def)
qed

theorem stale_grants_are_fenced_witness:
  "acquire_job_lease demo_key ''w2'' 100 120 demo_leased = Inr (Some demo_grant, demo_taken)
   \<and> transition_job_status demo_key ''w1'' 1 COMPLETE 121 demo_taken \<in> {Inl DatabaseError, Inr (None, demo_taken)}"
  using stale_grants_are_fenced [OF demo_take_runs rtranclp.rtrancl_refl, where token = 1] demo_take_runs
  by (simp add: demo_grant_def)

lemma one_current_lease:
  assumes ok: "leases_ok d" and j: "find_job key d = Some j" "ji_lease_owner j = Some owner"
  shows "length (filter (open_lease key owner (ji_fencing_token j)) (db_leases d)) = 1"
proof -
  obtain l where l: "l \<in> set (db_leases d)" "lr_job_key l = key" "lr_released_at l = None" "held_by j l"
    using leases_okD(4) [OF ok] find_job_Some [OF j(1)] j(2) by blast
  have "{x. open_lease key owner (ji_fencing_token j) x} \<inter> set (db_leases d) = {l}"
    using l j(2) same_token_same_lease [OF ok _ l(1)] by (auto simp: open_lease_def held_by_def)
  moreover have "distinct (db_leases d)" using leases_okD(5) [OF ok] by (simp add: distinct_map)
  ultimately show ?thesis by (simp add: distinct_length_filter)
qed

lemma take_over_runs:
  assumes "leases_ok d" "find_job key d = Some j"
  shows "take_over j now (put_job i d) = Inr (overtake j now (put_job i d))"
  using one_current_lease [OF assms] find_job_Some [OF assms(2)]
  by (auto simp: take_over_def overtake_def Let_def split: option.split)

lemma insert_next_lease:
  assumes ok: "leases_ok d" "find_job key d = Some j" and l: "lr_job_key l = key" "lr_fencing_token l = ji_fencing_token j + 1"
    and row: "fullmatch LEASE_OWNER_PATTERN (lr_owner l)" "lr_acquired_at l < lr_leased_until l"
  shows "\<exists>d'. sql_insert_lease l now (overtake j t (put_job i d)) = Inr ((), d')"
proof -
  have closed: "lr_released_at m \<noteq> None \<and> lr_fencing_token m \<le> ji_fencing_token j"
    if m: "m \<in> set (db_leases (overtake j t d))" "lr_job_key m = key" for m
  proof (rule overtaken_rows [OF ok m])
    fix x
    assume "lease_fits j x" "lr_released_at m \<noteq> None"
      "m = x \<and> lr_released_at x \<noteq> None \<or> m = close_lease t ''EXPIRED_TAKEOVER'' x \<and> held_by j x \<and> lr_released_at x = None"
    then show ?thesis by (auto simp: lease_fits_def)
  qed
  have "0 < lr_fencing_token l"
    using leases_okD(2) [OF ok(1), of j] find_job_Some [OF ok(2)] l(2) by (simp add: job_row_ok_def)
  moreover have "\<not> list_ex (\<lambda>m. lr_job_key m = lr_job_key l \<and> lr_fencing_token m = lr_fencing_token l)
      (db_leases (overtake j t (put_job i d)))"
    "\<not> list_ex (\<lambda>m. lr_job_key m = lr_job_key l \<and> lr_released_at m = None) (db_leases (overtake j t (put_job i d)))"
    using closed l unfolding overtake_put list_ex_iff by fastforce+
  ultimately show ?thesis using row by (simp add: sql_insert_lease_def)
qed

lemma granted_row_ok:
  assumes "job_row_ok j" "fullmatch LEASE_OWNER_PATTERN owner" "ji_fencing_token j < BIGINT_MAX" "ji_attempt_count j < INTEGER_MAX"
  shows "job_row_ok (j\<lparr>ji_lease_owner := Some owner, ji_leased_until := Some t, ji_fencing_token := ji_fencing_token j + 1,
    ji_attempt_count := ji_attempt_count j + 1, ji_updated_at := now\<rparr>)"
  using assms by (simp add: job_row_ok_def)

text \<open>
  C34. Progress: a job whose lease has run out, or that has none, can be claimed by any worker
  with a valid request, and the grant carries the next fencing token and ends when asked; a
  job whose lease still runs is refused without change.
\<close>

theorem expired_lease_can_be_taken:
  assumes "job_history d0 d" "db_jobs d0 = []" "db_leases d0 = []" "find_job key d = Some j"
    and "lease_request_ok owner lease_for" "btrim_nonempty key"
    and "ji_fencing_token j < BIGINT_MAX" "ji_attempt_count j < INTEGER_MAX"
  shows "if \<exists>t. ji_leased_until j = Some t \<and> now < t
    then acquire_job_lease key owner lease_for now d = Inr (None, d)
    else \<exists>g d'. acquire_job_lease key owner lease_for now d = Inr (Some g, d') \<and> lg_fencing_token g = ji_fencing_token j + 1
      \<and> lg_job_key g = key \<and> lg_lease_owner g = owner \<and> lg_leased_until g = now + lease_for \<and> lease_grant_post_init g = Inr g"
proof (cases "\<exists>t. ji_leased_until j = Some t \<and> now < t")
  case True
  then show ?thesis using assms(4-6) by (auto simp: acquire_job_lease_def)
next
  case False
  let ?j = "j\<lparr>ji_lease_owner := Some owner, ji_leased_until := Some (now + lease_for), ji_fencing_token := ji_fencing_token j + 1,
    ji_attempt_count := ji_attempt_count j + 1\<rparr>"
  have ok: "leases_ok d" using history_ok assms(1-3) .
  have key: "key_of j = key" and row: "job_row_ok j" using find_job_Some [OF assms(4)] leases_okD(2) [OF ok] by auto
  have req: "0 < lease_for" "fullmatch LEASE_OWNER_PATTERN owner" using assms(5) by (simp_all add: lease_request_ok_def)
  have upd: "sql_update_job lease_mutation j ?j now d = Inr (?j\<lparr>ji_updated_at := now\<rparr>, put_job (?j\<lparr>ji_updated_at := now\<rparr>) d)"
    using granted_row_ok [OF row req(2) assms(7,8)]
    by (simp add: sql_update_job_def guard_job_write_def lease_mutation_def bindO_def)
  obtain d' where ins: "sql_insert_lease (lease_row_of (?j\<lparr>ji_updated_at := now\<rparr>) now) now
      (overtake j now (put_job (?j\<lparr>ji_updated_at := now\<rparr>) d)) = Inr ((), d')"
    using insert_next_lease [OF ok assms(4), of "lease_row_of (?j\<lparr>ji_updated_at := now\<rparr>) now" now now "?j\<lparr>ji_updated_at := now\<rparr>"]
      req key by (auto simp: lease_row_of_def)
  have idle: "\<not> (case ji_leased_until j of None \<Rightarrow> False | Some t \<Rightarrow> t > now)" using False by (auto split: option.split)
  have "acquire_job_lease key owner lease_for now d = Inr (Some (grant_of (?j\<lparr>ji_updated_at := now\<rparr>) now), d')"
    using upd ins take_over_runs [OF ok assms(4)] idle assms(4-6) by (simp add: acquire_job_lease_def bindO_def)
  moreover have "key \<noteq> []" using assms(6) by (auto simp: btrim_nonempty_def)
  ultimately show ?thesis
    using False key req row
    by (simp add: grant_of_def lease_grant_post_init_def validate_lease_owner_def bindO_def require_def job_row_ok_def)
qed

theorem expired_lease_can_be_taken_witness:
  "\<exists>g d'. acquire_job_lease demo_key ''w1'' 50 300 demo_taken = Inr (Some g, d') \<and> lg_fencing_token g = 3"
proof -
  have "find_job demo_key demo_taken = Some demo_job" by (simp add: find_job_def demo_tables demo_job_def)
  from expired_lease_can_be_taken [OF demo_history demo_tables(1,2) this, of "''w1''" 50 300] show ?thesis
    by (auto simp: lease_request_ok_def demo_job_def BIGINT_MAX_def INTEGER_MAX_def DAY_MICROSECONDS_def)
qed

section \<open>Status changes\<close>

text \<open>
  C33. A status change and its audit record are one: with any faults, the call never leaves
  one committed without the other. When it returns, exactly the job of the grant has the new
  status, the fence held at the statement's time, the audit record is the one row appended,
  and success is reported. When it raises, nothing of the job tables changed, or the commit
  went through and only its answer was lost, which is reported as a database failure. The
  call itself always ends in one of the two ways.
\<close>

theorem job_transition_is_atomic:
  "case transition_job_with_audit g status e c w of (r, v) \<Rightarrow>
     (case r of
        Inl _ \<Rightarrow> False
      | Inr (Inr (job, recorded_at, e'), outcome) \<Rightarrow>
          outcome = Some SUCCESS \<and> e' = e \<and> moved_and_recorded g status e (w_committed w) job recorded_at (w_committed v)
      | Inr (Inl err, outcome) \<Rightarrow>
          outcome \<noteq> Some SUCCESS
          \<and> (job_part (w_committed v) = job_part (w_committed w)
             \<or> err = DatabaseError \<and> outcome = Some DATABASE_FAILURE
               \<and> (\<exists>job t. moved_and_recorded g status e (w_committed w) job t (w_committed v))))"
proof -
  obtain r v where run: "transition_job_with_audit g status e c w = (r, v)" by fastforce
  from transition_atomic [OF run] obtain result outcome where r: "r = Inr (result, outcome)"
    and post: "case result of
         Inr (job, t, e') \<Rightarrow> outcome = Some SUCCESS \<and> e' = e \<and> moved_and_recorded g status e (w_committed w) job t (w_committed v)
       | Inl err \<Rightarrow> outcome \<noteq> Some SUCCESS
           \<and> (jobs_at (w_committed w) v
              \<or> err = DatabaseError \<and> outcome = Some DATABASE_FAILURE
                \<and> (\<exists>job t. moved_and_recorded g status e (w_committed w) job t (w_committed v)))" by blast
  then show ?thesis unfolding run r jobs_at_def by (cases result) auto
qed

section \<open>Identity\<close>

text \<open>
  The key of a job determines its date, type and window, so that two different jobs
  never share a row or a lease.
\<close>

lemma job_key_injective:
  assumes "JobSpec d t w = Inr s" "JobSpec d' t' w' = Inr s'" "valid_date d" "valid_date d'"
  shows "job_key s = job_key s' \<longleftrightarrow> d = d' \<and> t = t' \<and> w = w'"
  using job_key_inject [OF assms] assms(1,2) by (auto simp: JobSpec_def split: if_splits)

theorem job_key_injective_witness:
  "JobSpec \<lparr>year = 2026, month = 1, day = 2\<rparr> ''reconcile'' ''open'' = Inr demo_spec
   \<and> job_key demo_spec \<noteq> job_key (demo_spec\<lparr>js_trading_date := \<lparr>year = 2026, month = 1, day = 3\<rparr>\<rparr>)"
proof -
  have "JobSpec \<lparr>year = 2026, month = 1, day = 2\<rparr> ''reconcile'' ''open'' = Inr demo_spec"
    "JobSpec \<lparr>year = 2026, month = 1, day = 3\<rparr> ''reconcile'' ''open'' =
       Inr (demo_spec\<lparr>js_trading_date := \<lparr>year = 2026, month = 1, day = 3\<rparr>\<rparr>)"
    "valid_date \<lparr>year = 2026, month = 1, day = 2\<rparr>" "valid_date \<lparr>year = 2026, month = 1, day = 3\<rparr>"
    by code_simp+
  from job_key_injective [OF this] this(1) show ?thesis by simp
qed

end
