(* ===== verification/Calendar.thy ===== *)
theory Calendar
  imports Value_Objects
begin

text \<open>
  \<open>UtcTimestamp\<close> of \<open>domain/value_objects.py\<close>: the calendar day of an instant and the
  canonical text form, with the proof that the text form round-trips. What \<open>datetime\<close>
  contributes is the conversion between instants and calendar dates; \<open>strftime\<close> pads a year
  to four digits.
\<close>

section \<open>Days and dates\<close>

text \<open>
  \<open>date.fromordinal\<close>: the year is searched upwards from an estimate that is never too
  late, the month by walking through the year.
\<close>

function find_year :: "nat \<Rightarrow> nat \<Rightarrow> nat" where
  "find_year n y = (if days_before_year (Suc y) < n then find_year n (Suc y) else y)"
  by auto

lemma days_before_year_Suc: "days_before_year (Suc (Suc p)) = days_before_year (Suc p) + (if leap_year (Suc p) then 366 else 365)"
proof -
  have "Suc p div k = p div k + (if Suc p mod k = 0 then 1 else 0)" for k by (simp add: div_Suc)
  moreover have "p div 100 \<le> p div 4" by (rule div_le_mono2) simp_all
  moreover have "p mod 4 = 3" if "Suc p mod 100 = 0" using that by presburger
  moreover have "Suc p mod 100 = 0" if "Suc p mod 400 = 0" using that by presburger
  moreover have "Suc p mod 4 = 0" if "Suc p mod 100 = 0" using that by presburger
  ultimately show ?thesis unfolding days_before_year_def leap_year_def Let_def by (auto simp: ac_simps)
qed

lemma days_before_year_grows: "y \<le> days_before_year (Suc y)"
proof -
  have "y div 100 \<le> y div 4" by (rule div_le_mono2) simp_all
  then show ?thesis by (simp add: days_before_year_def)
qed

termination find_year
  by (relation "measure (\<lambda>(n, y). n - y)") (use days_before_year_grows in \<open>auto simp: less_imp_diff_less intro!: diff_less_mono2 intro: le_less_trans\<close>)

declare find_year.simps [simp del]

fun find_month :: "nat \<Rightarrow> nat \<Rightarrow> nat \<Rightarrow> nat \<times> nat" where
  "find_month y 0 r = (12, r)"
| "find_month y (Suc left) r =
     (let m = 12 - left in
      if r \<le> days_in_month y m then (m, r) else find_month y left (r - days_in_month y m))"

definition fromordinal :: "nat \<Rightarrow> pydate" where
  "fromordinal n =
     (let y = find_year n (max 1 (n div 366));
          (m, d) = find_month y 12 (n - days_before_year y)
      in \<lparr>year = y, month = m, day = d\<rparr>)"

lemma find_year_bounds:
  assumes "days_before_year y < n"
  shows "days_before_year (find_year n y) < n \<and> n \<le> days_before_year (Suc (find_year n y)) \<and> y \<le> find_year n y"
  using assms
proof (induction n y rule: find_year.induct)
  case (1 n y)
  then show ?case by (cases "days_before_year (Suc y) < n") (fastforce simp: find_year.simps [of n y])+
qed

lemma estimate_early: "0 < n \<Longrightarrow> days_before_year (max 1 (n div 366)) < n"
proof -
  assume n: "0 < n"
  have "days_before_year (Suc p) \<le> p * 366" for p
  proof (induction p)
    case (Suc p)
    then show ?case by (simp add: days_before_year_Suc)
  qed (simp add: days_before_year_def)
  from this [of "max 1 (n div 366) - 1"] show ?thesis
    using n div_times_less_eq_dividend [of n 366] by (cases "n div 366") auto
qed

lemma year_length: "sum_list (map (days_in_month y) [1..<13]) = (if leap_year y then 366 else 365)"
  by (simp add: upt_rec_numeral upt_rec days_in_month_def)

lemma find_month_sound:
  assumes "find_month y k r = (m, d)" "1 \<le> r" "r \<le> sum_list (map (days_in_month y) [13 - k..<13])" "k \<le> 12"
  shows "13 - k \<le> m \<and> m \<le> 12 \<and> 1 \<le> d \<and> d \<le> days_in_month y m \<and> r = sum_list (map (days_in_month y) [13 - k..<m]) + d"
  using assms
proof (induction k arbitrary: r)
  case (Suc k)
  have front: "[13 - Suc k..<e] = (12 - k) # [13 - k..<e]" if "12 - k < e" for e
  proof -
    have "13 - Suc k = 12 - k" "Suc (12 - k) = 13 - k" using Suc.prems(4) by simp_all
    then show ?thesis using that by (simp add: upt_conv_Cons)
  qed
  show ?case
  proof (cases "r \<le> days_in_month y (12 - k)")
    case True
    then show ?thesis using Suc.prems by (auto simp: Let_def)
  next
    case False
    then have rec: "find_month y k (r - days_in_month y (12 - k)) = (m, d)" using Suc.prems(1) by (simp add: Let_def)
    have left: "r - days_in_month y (12 - k) \<le> sum_list (map (days_in_month y) [13 - k..<13])"
    proof -
      have "[12 - k..<13] = (12 - k) # [13 - k..<13]" using front [of 13] by simp
      then show ?thesis using Suc.prems(3) by simp
    qed
    have "13 - k \<le> m \<and> m \<le> 12 \<and> 1 \<le> d \<and> d \<le> days_in_month y m
        \<and> r - days_in_month y (12 - k) = sum_list (map (days_in_month y) [13 - k..<m]) + d"
      by (rule Suc.IH [OF rec _ left]) (use False Suc.prems(4) in auto)
    then show ?thesis using False Suc.prems(4) front [of m] by auto
  qed
qed simp

lemma fromordinal_sound:
  assumes "1 \<le> n"
  shows "toordinal (fromordinal n) = n \<and> 1 \<le> year (fromordinal n) \<and> 1 \<le> month (fromordinal n) \<and> month (fromordinal n) \<le> 12
    \<and> 1 \<le> day (fromordinal n) \<and> day (fromordinal n) \<le> days_in_month (year (fromordinal n)) (month (fromordinal n))"
proof -
  define y where "y = find_year n (max 1 (n div 366))"
  have y: "days_before_year y < n" "n \<le> days_before_year (Suc y)" "1 \<le> y"
    using find_year_bounds [OF estimate_early [of n]] assms unfolding y_def by auto
  then obtain p where p: "y = Suc p" by (cases y) auto
  obtain m d where md: "find_month y 12 (n - days_before_year y) = (m, d)" by fastforce
  have "1 \<le> m \<and> m \<le> 12 \<and> 1 \<le> d \<and> d \<le> days_in_month y m
      \<and> n - days_before_year y = sum_list (map (days_in_month y) [1..<m]) + d"
    using find_month_sound [OF md] y year_length [of y] days_before_year_Suc [of p] p by (auto split: if_splits)
  then show ?thesis
    using y md unfolding fromordinal_def y_def [symmetric] Let_def by (auto simp: toordinal_def)
qed

lemma days_before_year_mono: "1 \<le> y \<Longrightarrow> y \<le> z \<Longrightarrow> days_before_year y \<le> days_before_year z"
proof (induction z)
  case (Suc z)
  then show ?case using days_before_year_Suc [of "z - 1"] by (cases "y = Suc z") (auto split: if_splits)
qed simp

lemma prefix_days_mono: "m \<le> n \<Longrightarrow> sum_list (map (days_in_month y) [1..<m]) \<le> sum_list (map (days_in_month y) [1..<n])"
proof (induction n)
  case (Suc n)
  then show ?case by (cases "m = Suc n") (auto simp: le_Suc_eq)
qed simp

lemma toordinal_bounds:
  assumes "valid_date d"
  shows "sum_list (map (days_in_month (year d)) [1..<month d]) + day d \<le> sum_list (map (days_in_month (year d)) [1..<Suc (month d)])"
    and "days_before_year (year d) < toordinal d" "toordinal d \<le> days_before_year (Suc (year d))"
proof -
  have v: "1 \<le> month d" "month d \<le> 12" "1 \<le> day d" "day d \<le> days_in_month (year d) (month d)" "1 \<le> year d"
    using assms by (simp_all add: valid_date_def)
  show first: "sum_list (map (days_in_month (year d)) [1..<month d]) + day d \<le> sum_list (map (days_in_month (year d)) [1..<Suc (month d)])"
    using v by simp
  show "days_before_year (year d) < toordinal d" using v by (simp add: toordinal_def)
  have "sum_list (map (days_in_month (year d)) [1..<Suc (month d)]) \<le> sum_list (map (days_in_month (year d)) [1..<13])"
    using v by (intro prefix_days_mono) simp
  with first show "toordinal d \<le> days_before_year (Suc (year d))"
    using year_length [of "year d"] days_before_year_Suc [of "year d - 1"] v(5) by (auto simp: toordinal_def split: if_splits)
qed

lemma toordinal_inject:
  assumes "valid_date d" "valid_date e" "toordinal d = toordinal e"
  shows "d = e"
proof -
  have year_le: "\<not> year x < year z" if "valid_date x" "valid_date z" "toordinal x = toordinal z" for x z
    using toordinal_bounds [OF that(1)] toordinal_bounds [OF that(2)] that(3)
      days_before_year_mono [of "Suc (year x)" "year z"] by fastforce
  have year: "year d = year e" using year_le assms by (metis linorder_neqE_nat)
  have month_le: "\<not> month x < month z" if "valid_date x" "valid_date z" "toordinal x = toordinal z" "year x = year z" for x z
    using toordinal_bounds(1) [OF that(1)] prefix_days_mono [of "Suc (month x)" "month z" "year x"] that(2-4)
    by (auto simp: toordinal_def valid_date_def)
  have "month d = month e" using month_le assms year by (metis linorder_neqE_nat)
  then show ?thesis using year assms(3) by (simp add: toordinal_def)
qed

section \<open>Timestamps\<close>

text \<open>The instants a \<open>datetime\<close> can hold: from the first of year 1 to the last of year 9999.\<close>

definition MAX_ORDINAL :: nat where "MAX_ORDINAL = 3652059"

definition utc_ok :: "utc \<Rightarrow> bool" where
  "utc_ok t \<longleftrightarrow> 0 \<le> t \<and> t < int MAX_ORDINAL * DAY_MICROSECONDS"

text \<open>\<open>value.date()\<close>.\<close>

definition utc_date :: "utc \<Rightarrow> pydate" where
  "utc_date t = fromordinal (nat (t div DAY_MICROSECONDS) + 1)"

text \<open>The time of day in hours, minutes, seconds and microseconds.\<close>

definition hour_of :: "utc \<Rightarrow> nat" where "hour_of t = nat (t mod DAY_MICROSECONDS) div 3600000000"
definition minute_of :: "utc \<Rightarrow> nat" where "minute_of t = nat (t mod DAY_MICROSECONDS) div 60000000 mod 60"
definition second_of :: "utc \<Rightarrow> nat" where "second_of t = nat (t mod DAY_MICROSECONDS) div 1000000 mod 60"
definition microsecond_of :: "utc \<Rightarrow> nat" where "microsecond_of t = nat (t mod DAY_MICROSECONDS) mod 1000000"

definition utc_str :: "utc \<Rightarrow> string" where
  "utc_str t = isoformat (utc_date t) @ ''T'' @ zfill 2 (show_nat (hour_of t)) @ '':'' @ zfill 2 (show_nat (minute_of t))
     @ '':'' @ zfill 2 (show_nat (second_of t)) @ ''.'' @ zfill 6 (show_nat (microsecond_of t)) @ ''Z''"

definition UTC_TIMESTAMP_PATTERN :: rx where
  "UTC_TIMESTAMP_PATTERN = Seq TRADING_DATE_PATTERN (seqs [Lit ''T'', digits_rx 2, Lit '':'', digits_rx 2, Lit '':'', digits_rx 2,
     Lit ''.'', digits_rx 6, Lit ''Z''])"

text \<open>\<open>UtcTimestamp.from_isoformat\<close>; \<open>strptime\<close> refuses a field outside its range.\<close>

definition utc_from_isoformat :: "string \<Rightarrow> utc outcome" where
  "utc_from_isoformat value =
     (if \<not> fullmatch UTC_TIMESTAMP_PATTERN value then Inl ValueError
      else let h = read_nat (take 2 (drop 11 value)); mi = read_nat (take 2 (drop 14 value));
               s = read_nat (take 2 (drop 17 value)); us = read_nat (take 6 (drop 20 value))
           in bindO (trading_date_from_isoformat (take 10 value)) (\<lambda>d.
              if h < 24 \<and> mi < 60 \<and> s < 60
              then Inr (midnight d + int (((h * 60 + mi) * 60 + s) * 1000000 + us)) else Inl ValueError))"

lemma utc_date_ordinal: "utc_ok t \<Longrightarrow> toordinal (utc_date t) = nat (t div DAY_MICROSECONDS) + 1"
  unfolding utc_date_def using fromordinal_sound by simp

lemma utc_day_bound: "utc_ok t \<Longrightarrow> nat (t div DAY_MICROSECONDS) + 1 \<le> MAX_ORDINAL"
  by (auto simp: utc_ok_def DAY_MICROSECONDS_def MAX_ORDINAL_def)

lemma valid_utc_date:
  assumes "utc_ok t"
  shows "valid_date (utc_date t)"
proof -
  let ?d = "utc_date t"
  have d: "1 \<le> year ?d" "1 \<le> month ?d" "month ?d \<le> 12" "1 \<le> day ?d" "day ?d \<le> days_in_month (year ?d) (month ?d)"
    using fromordinal_sound [of "nat (t div DAY_MICROSECONDS) + 1"] by (simp_all add: utc_date_def)
  have "days_before_year (year ?d) < MAX_ORDINAL"
    using utc_date_ordinal [OF assms] utc_day_bound [OF assms] d by (simp add: toordinal_def)
  moreover have "days_before_year 10000 = MAX_ORDINAL" by (simp add: days_before_year_def MAX_ORDINAL_def)
  ultimately have "\<not> 10000 \<le> year ?d" using days_before_year_mono [of 10000 "year ?d"] by auto
  with d show ?thesis by (simp add: valid_date_def)
qed

lemma midnight_utc_date: "utc_ok t \<Longrightarrow> midnight (utc_date t) = t div DAY_MICROSECONDS * DAY_MICROSECONDS"
  by (simp add: midnight_def utc_date_ordinal utc_ok_def DAY_MICROSECONDS_def pos_imp_zdiv_nonneg_iff)

lemma time_of_day: "((hour_of t * 60 + minute_of t) * 60 + second_of t) * 1000000 + microsecond_of t = nat (t mod DAY_MICROSECONDS)"
proof -
  have "((x div 3600000000 * 60 + x div 60000000 mod 60) * 60 + x div 1000000 mod 60) * 1000000 + x mod 1000000 = x" for x :: nat
  proof -
    have "x div 3600000000 = x div 60000000 div 60" "x div 60000000 = x div 1000000 div 60"
      by (simp_all add: div_mult2_eq [symmetric])
    then show ?thesis by simp
  qed
  then show ?thesis by (simp add: hour_of_def minute_of_def second_of_def microsecond_of_def)
qed

lemma time_ranges: "hour_of t < 24" "minute_of t < 60" "second_of t < 60" "microsecond_of t < 1000000"
proof -
  have "nat (t mod DAY_MICROSECONDS) < 86400000000" by (simp add: DAY_MICROSECONDS_def nat_less_iff)
  then show "hour_of t < 24" unfolding hour_of_def by (subst div_less_iff_less_mult) simp_all
qed (simp_all add: minute_of_def second_of_def microsecond_of_def)

lemma utc_pattern_iff:
  "fullmatch UTC_TIMESTAMP_PATTERN s \<longleftrightarrow>
     (\<exists>d h m sec us. s = d @ ''T'' @ h @ '':'' @ m @ '':'' @ sec @ ''.'' @ us @ ''Z'' \<and> fullmatch TRADING_DATE_PATTERN d
       \<and> length h = 2 \<and> length m = 2 \<and> length sec = 2 \<and> length us = 6
       \<and> list_all is_digit h \<and> list_all is_digit m \<and> list_all is_digit sec \<and> list_all is_digit us)" (is "_ \<longleftrightarrow> ?r")
proof
  assume "fullmatch UTC_TIMESTAMP_PATTERN s"
  then show ?r
    unfolding fullmatch_iff UTC_TIMESTAMP_PATTERN_def seqs.simps lang.simps(2,3) by (fastforce simp: lang_digits_rx)
next
  assume ?r
  then obtain d h m sec us where s: "s = d @ ''T'' @ h @ '':'' @ m @ '':'' @ sec @ ''.'' @ us @ ''Z''"
    and "d \<in> lang TRADING_DATE_PATTERN" "h \<in> lang (digits_rx 2)" "m \<in> lang (digits_rx 2)" "sec \<in> lang (digits_rx 2)"
      "us \<in> lang (digits_rx 6)"
    by (auto simp: lang_digits_rx fullmatch_iff)
  then show "fullmatch UTC_TIMESTAMP_PATTERN s"
    unfolding fullmatch_iff UTC_TIMESTAMP_PATTERN_def seqs.simps s by (intro lang_SeqI) simp_all
qed

lemma utc_from_parts:
  assumes "fullmatch TRADING_DATE_PATTERN d" "length h = 2" "length m = 2" "length sec = 2" "length us = 6"
    "list_all is_digit h" "list_all is_digit m" "list_all is_digit sec" "list_all is_digit us"
  shows "utc_from_isoformat (d @ ''T'' @ h @ '':'' @ m @ '':'' @ sec @ ''.'' @ us @ ''Z'') =
    bindO (trading_date_from_isoformat d) (\<lambda>x. if read_nat h < 24 \<and> read_nat m < 60 \<and> read_nat sec < 60
      then Inr (midnight x + int (((read_nat h * 60 + read_nat m) * 60 + read_nat sec) * 1000000 + read_nat us)) else Inl ValueError)"
    (is "utc_from_isoformat ?s = _")
proof -
  have "length d = 10" using assms(1) by (auto simp: trading_date_pattern_iff)
  moreover have "fullmatch UTC_TIMESTAMP_PATTERN ?s" using assms by (subst utc_pattern_iff) blast
  ultimately show ?thesis using assms(2-5) by (simp add: utc_from_isoformat_def Let_def)
qed

lemma utc_str_parses:
  assumes "utc_ok t"
  shows "utc_from_isoformat (utc_str t) = Inr t"
proof -
  have two: "length (zfill 2 (show_nat n)) = 2" if "n < 60" for n using zfill_show_length [of n 2] that by simp
  have six: "length (zfill 6 (show_nat (microsecond_of t))) = 6"
    using zfill_show_length [of "microsecond_of t" 6] time_ranges(4) [of t] by simp
  have hour: "hour_of t < 60" using time_ranges(1) [of t] by simp
  have date: "trading_date_from_isoformat (isoformat (utc_date t)) = Inr (utc_date t)"
    using trading_date_prints valid_utc_date [OF assms] by blast
  have "midnight (utc_date t) + int (((hour_of t * 60 + minute_of t) * 60 + second_of t) * 1000000 + microsecond_of t) = t"
    unfolding time_of_day by (simp add: midnight_utc_date [OF assms] DAY_MICROSECONDS_def)
  then show ?thesis
    unfolding utc_str_def
    using time_ranges [of t] date
    by (subst utc_from_parts)
      (simp_all add: two hour six zfill_digits valid_date_isoformat_pattern [OF valid_utc_date [OF assms]] time_of_day)
qed

lemma midnight_range:
  assumes "valid_date d" "0 \<le> r" "r < DAY_MICROSECONDS"
  shows "utc_ok (midnight d + r)" "utc_date (midnight d + r) = d" "(midnight d + r) mod DAY_MICROSECONDS = r"
proof -
  have "toordinal d \<le> days_before_year (Suc (year d))" "0 < toordinal d" "year d \<le> 9999"
    using toordinal_bounds [OF assms(1)] assms(1) by (simp_all add: valid_date_def)
  moreover from this have "toordinal d \<le> days_before_year 10000" using days_before_year_mono [of "Suc (year d)" 10000] by simp
  moreover have "days_before_year 10000 = MAX_ORDINAL" by (simp add: days_before_year_def MAX_ORDINAL_def)
  ultimately have ord: "0 < toordinal d" "toordinal d \<le> MAX_ORDINAL" by simp_all
  show ok: "utc_ok (midnight d + r)"
  proof -
    have "(int (toordinal d) - 1) * DAY_MICROSECONDS \<le> (int MAX_ORDINAL - 1) * DAY_MICROSECONDS"
      using ord by (intro mult_right_mono) (simp_all add: DAY_MICROSECONDS_def)
    then show ?thesis using ord assms by (simp add: utc_ok_def midnight_def DAY_MICROSECONDS_def)
  qed
  have "(midnight d + r) div DAY_MICROSECONDS = int (toordinal d) - 1"
    using assms(2,3) by (simp add: midnight_def DAY_MICROSECONDS_def)
  then have "toordinal (utc_date (midnight d + r)) = toordinal d" using utc_date_ordinal [OF ok] ord by simp
  then show "utc_date (midnight d + r) = d" using toordinal_inject valid_utc_date [OF ok] assms(1) by blast
  show "(midnight d + r) mod DAY_MICROSECONDS = r" unfolding midnight_def mod_mult_self3 using assms(2,3) by simp
qed

lemma time_fields:
  assumes "h < 24" "m < 60" "s < 60" "us < 1000000" "t mod DAY_MICROSECONDS = int (((h * 60 + m) * 60 + s) * 1000000 + us)"
  shows "hour_of t = h" "minute_of t = m" "second_of t = s" "microsecond_of t = us"
proof -
  let ?x = "((h * 60 + m) * 60 + s) * 1000000 + us"
  have sec: "?x div 1000000 = (h * 60 + m) * 60 + s" using assms(4) by simp
  have min: "?x div 60000000 = h * 60 + m"
  proof -
    have "?x div 60000000 = ?x div 1000000 div 60" by (simp add: div_mult2_eq [symmetric])
    then show ?thesis unfolding sec using assms(3) by simp
  qed
  have hour: "?x div 3600000000 = h"
  proof -
    have "?x div 3600000000 = ?x div 60000000 div 60" by (simp add: div_mult2_eq [symmetric])
    then show ?thesis unfolding min using assms(2) by simp
  qed
  show "hour_of t = h" unfolding hour_of_def assms(5) nat_int hour ..
  show "minute_of t = m" unfolding minute_of_def assms(5) nat_int min mod_mult_self3 using assms(2) by simp
  show "second_of t = s" unfolding second_of_def assms(5) nat_int sec mod_mult_self3 using assms(3) by simp
  show "microsecond_of t = us" unfolding microsecond_of_def assms(5) nat_int mod_mult_self3 using assms(4) by simp
qed

lemma parsed_utc_prints:
  assumes "utc_from_isoformat s = Inr t"
  shows "utc_str t = s \<and> utc_ok t"
proof -
  from assms have "fullmatch UTC_TIMESTAMP_PATTERN s" by (auto simp: utc_from_isoformat_def split: if_splits)
  then obtain d h m sec us where s: "s = d @ ''T'' @ h @ '':'' @ m @ '':'' @ sec @ ''.'' @ us @ ''Z''"
    and parts: "fullmatch TRADING_DATE_PATTERN d" "length h = 2" "length m = 2" "length sec = 2" "length us = 6"
      "list_all is_digit h" "list_all is_digit m" "list_all is_digit sec" "list_all is_digit us"
    by (auto simp: utc_pattern_iff)
  let ?r = "((read_nat h * 60 + read_nat m) * 60 + read_nat sec) * 1000000 + read_nat us"
  obtain x where x: "trading_date_from_isoformat d = Inr x"
    and t: "read_nat h < 24" "read_nat m < 60" "read_nat sec < 60" "t = midnight x + int ?r"
    using assms unfolding s utc_from_parts [OF parts] by (auto simp: bindO_eq_Inr split: if_splits)
  have date: "isoformat x = d" "valid_date x" using trading_date_parses [OF x] by simp_all
  have us: "read_nat us < 1000000" using read_nat_less [OF parts(9)] parts(5) by simp
  have "read_nat h \<le> 23" "read_nat m \<le> 59" "read_nat sec \<le> 59" using t(1-3) by simp_all
  then have "(read_nat h * 60 + read_nat m) * 60 + read_nat sec \<le> 86399" by simp
  with us have "?r < 86400000000" by simp
  then have r: "0 \<le> int ?r" "int ?r < DAY_MICROSECONDS" by (simp_all add: DAY_MICROSECONDS_def)
  note day = midnight_range [OF date(2) r, folded t(4)]
  note fields = time_fields [OF t(1-3) us day(3)]
  show ?thesis
    using day(1) unfolding utc_str_def day(2) fields date(1) s
    by (simp add: zfill_show_read parts)
qed

text \<open>
  C20. The text forms of timestamps and trading dates round-trip: parsing the text of an
  instant between the years 1 and 9999, or of a calendar date, gives the value back, and a
  text that parses is exactly the text of the value it denotes, so that no two texts name
  one instant or one date.
\<close>

theorem text_forms_roundtrip:
  "(utc_ok t \<longrightarrow> utc_from_isoformat (utc_str t) = Inr t)
   \<and> (utc_from_isoformat s = Inr t \<longrightarrow> utc_str t = s \<and> utc_ok t)
   \<and> (valid_date d \<longrightarrow> trading_date_from_isoformat (isoformat d) = Inr d)
   \<and> (trading_date_from_isoformat s = Inr d \<longrightarrow> isoformat d = s \<and> valid_date d)"
  using utc_str_parses parsed_utc_prints trading_date_prints trading_date_parses by blast

theorem text_forms_roundtrip_witness:
  "utc_from_isoformat (utc_str 86400000001) = Inr 86400000001
   \<and> trading_date_from_isoformat (isoformat \<lparr>year = 2024, month = 2, day = 29\<rparr>) = Inr \<lparr>year = 2024, month = 2, day = 29\<rparr>"
  using text_forms_roundtrip [of 86400000001 "[]" "\<lparr>year = 2024, month = 2, day = 29\<rparr>"]
  by (simp add: utc_ok_def MAX_ORDINAL_def DAY_MICROSECONDS_def valid_date_def days_in_month_def leap_year_def)

lemma utc_str_inject: "utc_ok t \<Longrightarrow> utc_ok u \<Longrightarrow> utc_str t = utc_str u \<Longrightarrow> t = u"
  using utc_str_parses by (metis sum.inject(2))

text \<open>The day of an instant is on or after a date exactly when the instant is at or after its midnight.\<close>

lemma toordinal_pydate_less:
  assumes "valid_date d" "valid_date e"
  shows "toordinal d < toordinal e \<longleftrightarrow> (year d, month d, day d) < (year e, month e, day e)"
proof -
  have less: "toordinal x < toordinal z" if "valid_date x" "valid_date z" "(year x, month x, day x) < (year z, month z, day z)" for x z
  proof (cases "year x < year z")
    case True
    then show ?thesis
      using toordinal_bounds [OF that(1)] toordinal_bounds [OF that(2)] days_before_year_mono [of "Suc (year x)" "year z"] by simp
  next
    case False
    then have y: "year x = year z" "(month x, day x) < (month z, day z)" using that(3) by (auto simp: less_prod_def)
    show ?thesis
    proof (cases "month x < month z")
      case True
      then show ?thesis
        using toordinal_bounds(1) [OF that(1)] prefix_days_mono [of "Suc (month x)" "month z" "year x"] that(2) y(1)
        by (simp add: toordinal_def valid_date_def)
    qed (use y in \<open>auto simp: toordinal_def less_prod_def\<close>)
  qed
  show ?thesis
  proof
    assume "toordinal d < toordinal e"
    then have "d \<noteq> e" "\<not> (year e, month e, day e) < (year d, month d, day d)" using less [OF assms(2,1)] by auto
    then show "(year d, month d, day d) < (year e, month e, day e)" by (cases d; cases e) auto
  qed (rule less [OF assms])
qed

end
