(* ===== verification/Canonical_Json.thy ===== *)
theory Canonical_Json
  imports Calendar
begin

text \<open>
  The canonical text over which the records of the security master are hashed:
  \<open>json.dumps(wire, allow_nan=False, ensure_ascii=False, separators=(",", ":"), sort_keys=True)\<close>.
  A finite floating-point number is kept as the text \<open>repr\<close> gives it, which the encoder
  prints unchanged; keys and texts are lists of characters.
  SHA-256 itself is a parameter of every function that hashes.
\<close>

datatype json = JNull | JBool bool | JInt int | JStr string | JList "json list" | JObj "(string \<times> json) list" | JFloat string

type_synonym digest = "string \<Rightarrow> string"

definition hex_digit :: "nat \<Rightarrow> char" where
  "hex_digit n = (if n < 10 then digit_char n else char_of (n + 87))"

text \<open>The escapes of the encoder: quote, backslash and the control characters.\<close>

definition escape_char :: "char \<Rightarrow> string" where
  "escape_char c =
     (let n = (of_char c :: nat) in
      if n = 34 then [CHR 0x5C, CHR 0x22]
      else if n = 92 then [CHR 0x5C, CHR 0x5C]
      else if n = 8 then [CHR 0x5C, CHR ''b'']
      else if n = 9 then [CHR 0x5C, CHR ''t'']
      else if n = 10 then [CHR 0x5C, CHR ''n'']
      else if n = 12 then [CHR 0x5C, CHR ''f'']
      else if n = 13 then [CHR 0x5C, CHR ''r'']
      else if n < 32 then [CHR 0x5C, CHR ''u'', CHR ''0'', CHR ''0'', hex_digit (n div 16), hex_digit (n mod 16)]
      else [c])"

definition json_text :: "string \<Rightarrow> string" where
  "json_text s = [CHR 0x22] @ concat (map escape_char s) @ [CHR 0x22]"

function dumps :: "json \<Rightarrow> string" where
  "dumps JNull = ''null''"
| "dumps (JBool b) = (if b then ''true'' else ''false'')"
| "dumps (JInt i) = show_int i"
| "dumps (JStr s) = json_text s"
| "dumps (JFloat s) = s"
| "dumps (JList xs) = ''['' @ join '','' (map dumps xs) @ '']''"
| "dumps (JObj kvs) =
     ''{'' @ join '','' (map (\<lambda>(k, text). json_text k @ '':'' @ text) (sort_key fst (map (\<lambda>(k, v). (k, dumps v)) kvs))) @ ''}''"
  by pat_completeness auto
termination
proof (relation "measure size")
  show "(x, JList xs) \<in> measure size" if "x \<in> set xs" for x xs
    using that by (induction xs) auto
  show "(v, JObj kvs) \<in> measure size" if "kv \<in> set kvs" "(k, v) = kv" for kv k v kvs
    using that by (induction kvs) auto
qed simp

section \<open>Records that carry their hash\<close>

text \<open>
  The contract of every hashed record: its hash is computed from all of it but the hash, and it is
  checked by recomputing it. Computing may raise, where the wire form is bounded.
\<close>

locale hash_bound =
  fixes compute_hash :: "'r \<Rightarrow> string outcome" and stored_hash :: "'r \<Rightarrow> string"
    and with_hash :: "string \<Rightarrow> 'r \<Rightarrow> 'r" and verify_integrity :: "'r \<Rightarrow> unit outcome"
  assumes hash_ignores_hash: "compute_hash (with_hash h r) = compute_hash r"
    and stored_with_hash: "stored_hash (with_hash h r) = h"
    and overwrite_hash: "with_hash k (with_hash h r) = with_hash k r"
    and with_stored_hash: "with_hash (stored_hash r) r = r"
    and verify_recomputes: "verify_integrity r = bindO (compute_hash r) (\<lambda>h. require (stored_hash r = h))"
begin

lemma verified_iff: "verify_integrity r = Inr () \<longleftrightarrow> compute_hash r = Inr (stored_hash r)"
  by (auto simp: verify_recomputes bindO_eq_Inr)

lemma sealed_verifies: "compute_hash r = Inr h \<Longrightarrow> verify_integrity (with_hash h r) = Inr ()"
  by (simp add: verified_iff hash_ignores_hash stored_with_hash)

text \<open>No other hash passes for the same content, so a record is determined by its content.\<close>

lemma tampered_hash: "verify_integrity r = Inr () \<Longrightarrow> h \<noteq> stored_hash r \<Longrightarrow> verify_integrity (with_hash h r) \<noteq> Inr ()"
  by (simp add: verified_iff hash_ignores_hash stored_with_hash)

lemma content_determines:
  assumes "verify_integrity r = Inr ()" "verify_integrity r' = Inr ()" "with_hash h r = with_hash h r'"
  shows "r = r'"
proof -
  have "compute_hash r = compute_hash r'" using assms(3) hash_ignores_hash by metis
  then have "stored_hash r = stored_hash r'" using assms(1,2) by (simp add: verified_iff)
  then show "r = r'" using assms(3) overwrite_hash with_stored_hash by metis
qed

end

end
