(* ===== verification/Market_Clock.thy ===== *)
theory Market_Clock
  imports Canonical_Json
begin

text \<open>
  \<open>clock/market_clock.py\<close>: the exchange calendar as explicit session records, and the closed
  rejection reasons of \<open>screening/reasons.py\<close>.
\<close>

section \<open>Sessions\<close>

datatype market_day_kind = DAY_REGULAR | DAY_HALF | DAY_CLOSED

fun day_kind_value :: "market_day_kind \<Rightarrow> string" where
  "day_kind_value DAY_REGULAR = ''REGULAR''"
| "day_kind_value DAY_HALF = ''HALF_DAY''"
| "day_kind_value DAY_CLOSED = ''CLOSED''"

record session_window =
  sw_opens_at :: utc
  sw_closes_at :: utc

definition RegularSessionWindow :: "utc \<Rightarrow> utc \<Rightarrow> session_window outcome" where
  "RegularSessionWindow opens_at closes_at =
     bindO (require (\<not> opens_at \<ge> closes_at)) (\<lambda>_. Inr \<lparr>sw_opens_at = opens_at, sw_closes_at = closes_at\<rparr>)"

definition window_contains :: "session_window \<Rightarrow> utc \<Rightarrow> bool" where
  "window_contains w t \<longleftrightarrow> sw_opens_at w \<le> t \<and> t < sw_closes_at w"

record market_session =
  ms_trading_date :: pydate
  ms_day_kind :: market_day_kind
  ms_regular_session :: "session_window option"

definition market_session_post_init :: "market_session \<Rightarrow> market_session outcome" where
  "market_session_post_init s =
     bindO (require (if ms_day_kind s = DAY_CLOSED then ms_regular_session s = None else ms_regular_session s \<noteq> None)) (\<lambda>_. Inr s)"

definition is_closed :: "market_session \<Rightarrow> bool" where
  "is_closed s \<longleftrightarrow> ms_day_kind s = DAY_CLOSED"

definition is_regular_session :: "market_session \<Rightarrow> utc \<Rightarrow> bool" where
  "is_regular_session s t \<longleftrightarrow> (case ms_regular_session s of None \<Rightarrow> False | Some w \<Rightarrow> window_contains w t)"

section \<open>The deterministic clock\<close>

type_synonym fake_clock = "(pydate \<times> market_session) list"

fun collect_sessions :: "fake_clock \<Rightarrow> market_session list \<Rightarrow> fake_clock outcome" where
  "collect_sessions by_date [] = Inr by_date"
| "collect_sessions by_date (s # ss) =
     (if map_of by_date (ms_trading_date s) \<noteq> None then Inl ValueError
      else collect_sessions (dict_set (ms_trading_date s) s by_date) ss)"

definition FakeMarketClock :: "market_session list \<Rightarrow> fake_clock outcome" where
  "FakeMarketClock sessions = collect_sessions [] sessions"

definition session_for :: "fake_clock \<Rightarrow> pydate \<Rightarrow> market_session outcome" where
  "session_for clock d =
     (case map_of clock d of None \<Rightarrow> Inl MarketClockUnavailableError | Some s \<Rightarrow> Inr s)"

text \<open>\<open>{session.trading_date: session for session in sessions}\<close>: a later record wins.\<close>

definition session_by_date :: "market_session list \<Rightarrow> pydate \<Rightarrow> market_session option" where
  "session_by_date sessions = map_of (rev (map (\<lambda>s. (ms_trading_date s, s)) sessions))"

section \<open>Closed reasons\<close>

datatype closed_reason =
    UNSUPPORTED_ASSET_CLASS | OTC_OR_EXCLUDED_INSTRUMENT | NOT_ACTIVE_OR_TRADABLE | PRICE_BELOW_MINIMUM
  | ADV_BELOW_MINIMUM | INSUFFICIENT_TRADING_HISTORY | IDENTITY_NOT_CLOSED | CORPORATE_ACTION_QUARANTINE
  | QUOTE_MISSING_OR_STALE | SPREAD_TOO_WIDE | MARKET_DATA_CONFLICT | FACTOR_INPUT_MISSING
  | FACTOR_MANIFEST_NOT_APPROVED | SECTOR_TAXONOMY_NOT_AUTHORIZED | CLUSTER_POLICY_NOT_APPROVED
  | EVIDENCE_INSUFFICIENT_OR_CONFLICTING | WINDOW_OR_DEADLINE_INVALID

text \<open>The members in the order of the enumeration.\<close>

definition CLOSED_REASONS :: "closed_reason list" where
  "CLOSED_REASONS =
     [UNSUPPORTED_ASSET_CLASS, OTC_OR_EXCLUDED_INSTRUMENT, NOT_ACTIVE_OR_TRADABLE, PRICE_BELOW_MINIMUM,
      ADV_BELOW_MINIMUM, INSUFFICIENT_TRADING_HISTORY, IDENTITY_NOT_CLOSED, CORPORATE_ACTION_QUARANTINE,
      QUOTE_MISSING_OR_STALE, SPREAD_TOO_WIDE, MARKET_DATA_CONFLICT, FACTOR_INPUT_MISSING,
      FACTOR_MANIFEST_NOT_APPROVED, SECTOR_TAXONOMY_NOT_AUTHORIZED, CLUSTER_POLICY_NOT_APPROVED,
      EVIDENCE_INSUFFICIENT_OR_CONFLICTING, WINDOW_OR_DEADLINE_INVALID]"

fun closed_reason_value :: "closed_reason \<Rightarrow> string" where
  "closed_reason_value UNSUPPORTED_ASSET_CLASS = ''UNSUPPORTED_ASSET_CLASS''"
| "closed_reason_value OTC_OR_EXCLUDED_INSTRUMENT = ''OTC_OR_EXCLUDED_INSTRUMENT''"
| "closed_reason_value NOT_ACTIVE_OR_TRADABLE = ''NOT_ACTIVE_OR_TRADABLE''"
| "closed_reason_value PRICE_BELOW_MINIMUM = ''PRICE_BELOW_MINIMUM''"
| "closed_reason_value ADV_BELOW_MINIMUM = ''ADV_BELOW_MINIMUM''"
| "closed_reason_value INSUFFICIENT_TRADING_HISTORY = ''INSUFFICIENT_TRADING_HISTORY''"
| "closed_reason_value IDENTITY_NOT_CLOSED = ''IDENTITY_NOT_CLOSED''"
| "closed_reason_value CORPORATE_ACTION_QUARANTINE = ''CORPORATE_ACTION_QUARANTINE''"
| "closed_reason_value QUOTE_MISSING_OR_STALE = ''QUOTE_MISSING_OR_STALE''"
| "closed_reason_value SPREAD_TOO_WIDE = ''SPREAD_TOO_WIDE''"
| "closed_reason_value MARKET_DATA_CONFLICT = ''MARKET_DATA_CONFLICT''"
| "closed_reason_value FACTOR_INPUT_MISSING = ''FACTOR_INPUT_MISSING''"
| "closed_reason_value FACTOR_MANIFEST_NOT_APPROVED = ''FACTOR_MANIFEST_NOT_APPROVED''"
| "closed_reason_value SECTOR_TAXONOMY_NOT_AUTHORIZED = ''SECTOR_TAXONOMY_NOT_AUTHORIZED''"
| "closed_reason_value CLUSTER_POLICY_NOT_APPROVED = ''CLUSTER_POLICY_NOT_APPROVED''"
| "closed_reason_value EVIDENCE_INSUFFICIENT_OR_CONFLICTING = ''EVIDENCE_INSUFFICIENT_OR_CONFLICTING''"
| "closed_reason_value WINDOW_OR_DEADLINE_INVALID = ''WINDOW_OR_DEADLINE_INVALID''"

section \<open>Lemmas\<close>

lemma session_by_date_Some:
  "session_by_date sessions d = Some s \<Longrightarrow> s \<in> set sessions \<and> ms_trading_date s = d"
  unfolding session_by_date_def by (drule map_of_SomeD) auto

lemma session_by_date_distinct:
  assumes "distinct (map ms_trading_date sessions)"
  shows "session_by_date sessions d = Some s \<longleftrightarrow> s \<in> set sessions \<and> ms_trading_date s = d"
proof -
  have "distinct (map fst (rev (map (\<lambda>s. (ms_trading_date s, s)) sessions)))"
    using assms by (simp add: rev_map [symmetric] comp_def)
  then show ?thesis unfolding session_by_date_def by (subst map_of_eq_Some_iff) auto
qed

lemma session_by_date_mset:
  assumes "mset xs = mset ys" "distinct (map ms_trading_date xs)"
  shows "session_by_date xs = session_by_date ys"
proof
  fix d
  have "distinct (map ms_trading_date ys)" using assms by (metis mset_map mset_eq_imp_distinct_iff)
  moreover have "set xs = set ys" using assms(1) by (rule mset_eq_setD)
  ultimately show "session_by_date xs d = session_by_date ys d"
    using session_by_date_distinct assms(2) by (metis (no_types, lifting) option.exhaust)
qed

text \<open>A clock answers exactly for the dates it was given, once each.\<close>

lemma collect_sessions_eq:
  "collect_sessions clock ss =
     (if distinct (map ms_trading_date ss) \<and> fst ` set clock \<inter> ms_trading_date ` set ss = {}
      then Inr (clock @ map (\<lambda>s. (ms_trading_date s, s)) ss) else Inl ValueError)"
proof (induction clock ss rule: collect_sessions.induct)
  case (2 clock s ss)
  show ?case
  proof (cases "map_of clock (ms_trading_date s) = None")
    case True
    then have fresh: "ms_trading_date s \<notin> fst ` set clock" by (simp add: map_of_eq_None_iff)
    then show ?thesis using 2 [OF] True by (auto simp: dict_set_new)
  next
    case False
    then have "ms_trading_date s \<in> fst ` set clock" by (simp add: map_of_eq_None_iff)
    then show ?thesis using False by auto
  qed
qed simp

lemma FakeMarketClock_iff:
  "FakeMarketClock sessions = Inr clock \<longleftrightarrow>
     distinct (map ms_trading_date sessions) \<and> clock = map (\<lambda>s. (ms_trading_date s, s)) sessions"
  by (auto simp: FakeMarketClock_def collect_sessions_eq)

end
