(* ===== verification/Python_Decimal.thy ===== *)
theory Python_Decimal
  imports Orders Complex_Main
begin

text \<open>
  What the market code uses of Python's \<open>decimal\<close> module. A finite Decimal is an integer
  coefficient and an exponent, so that 1.5 and 1.50 are different values that compare equal.
  Comparison is exact; addition, multiplication and division are rounded half to even to the
  precision of the context, with the exponent limits of the default context. Negative zero
  cannot arise from the positive operands of the code and is not represented.
\<close>

section \<open>Values\<close>

fun dec_finite :: "decimal \<Rightarrow> bool" where
  "dec_finite (Dec c e) = True"
| "dec_finite DecNonFinite = False"

text \<open>\<open>Fraction(d)\<close>; the code asks for it, and compares, only after the test for finiteness.\<close>

fun dec_value :: "decimal \<Rightarrow> rat" where
  "dec_value (Dec c e) = (if 0 \<le> e then of_int c * 10 ^ nat e else of_int c / 10 ^ nat (- e))"
| "dec_value DecNonFinite = 0"

definition dec_positive :: "decimal \<Rightarrow> bool" where
  "dec_positive d \<longleftrightarrow> dec_finite d \<and> 0 < dec_value d"

text \<open>\<open>len(d.as_tuple().digits)\<close>.\<close>

definition digits :: "int \<Rightarrow> nat" where
  "digits c = length (show_nat (nat \<bar>c\<bar>))"

fun dec_digits :: "decimal \<Rightarrow> nat" where
  "dec_digits (Dec c e) = digits c"
| "dec_digits DecNonFinite = 1"

section \<open>The context\<close>

definition DEFAULT_PREC :: nat where "DEFAULT_PREC = 28"
definition EMAX :: int where "EMAX = 999999"
definition EMIN :: int where "EMIN = -999999"

text \<open>The integer nearest to a quotient of natural numbers, to the even one on a tie.\<close>

definition half_even :: "int \<Rightarrow> int \<Rightarrow> int" where
  "half_even n d =
     (let q = n div d; r = n mod d in
      if 2 * r < d then q else if 2 * r > d then q + 1 else if even q then q else q + 1)"

text \<open>
  \<open>Decimal._fix\<close>: the result of an operation is rounded to at most \<open>p\<close> digits and to an
  exponent in range; too large a result raises \<open>decimal.Overflow\<close>.
\<close>

definition dec_fix :: "nat \<Rightarrow> int \<Rightarrow> int \<Rightarrow> decimal outcome" where
  "dec_fix p c e =
     (let etiny = EMIN - int p + 1; etop = EMAX - int p + 1 in
      if c = 0 then Inr (Dec 0 (max etiny (min EMAX e)))
      else let e_min = int (digits c) + e - int p in
        if e_min > etop then Inl DecimalOverflow
        else let e' = max e_min etiny in
          if e < e' then
            (let q = sgn c * half_even \<bar>c\<bar> (10 ^ nat (e' - e)) in
             if p < digits q
             then (if e' + 1 > etop then Inl DecimalOverflow else Inr (Dec (q div 10) (e' + 1)))
             else Inr (Dec q e'))
          else Inr (Dec c e))"

section \<open>Arithmetic\<close>

definition dec_add :: "nat \<Rightarrow> decimal \<Rightarrow> decimal \<Rightarrow> decimal outcome" where
  "dec_add p x y = (case (x, y) of
     (Dec a e, Dec b f) \<Rightarrow>
       let m = min e f in dec_fix p (a * 10 ^ nat (e - m) + b * 10 ^ nat (f - m)) m
   | _ \<Rightarrow> Inl InvalidOperation)"

definition dec_mul :: "nat \<Rightarrow> decimal \<Rightarrow> decimal \<Rightarrow> decimal outcome" where
  "dec_mul p x y = (case (x, y) of
     (Dec a e, Dec b f) \<Rightarrow> dec_fix p (a * b) (e + f)
   | _ \<Rightarrow> Inl InvalidOperation)"

text \<open>An exact quotient is brought as near to the ideal exponent as its trailing zeros allow.\<close>

function strip_zeros :: "int \<Rightarrow> int \<Rightarrow> int \<Rightarrow> int \<times> int" where
  "strip_zeros c e ideal = (if e < ideal \<and> c mod 10 = 0 then strip_zeros (c div 10) (e + 1) ideal else (c, e))"
  by auto
termination by (relation "measure (\<lambda>(c, e, ideal). nat (ideal - e))") auto

declare strip_zeros.simps [simp del]

text \<open>
  \<open>Decimal.__truediv__\<close> on a non-negative dividend and a positive divisor: one digit more than
  the precision, with a last digit that is neither 0 nor 5 when something was cut off.
\<close>

definition dec_div :: "nat \<Rightarrow> decimal \<Rightarrow> decimal \<Rightarrow> decimal outcome" where
  "dec_div p x y = (case (x, y) of
     (Dec a e, Dec b f) \<Rightarrow>
       if a = 0 then dec_fix p 0 (e - f)
       else let shift = int (digits b) - int (digits a) + int p + 1;
                n = a * 10 ^ nat shift; d = b * 10 ^ nat (- shift);
                q = n div d; ex = e - f - shift
            in if n mod d \<noteq> 0 then dec_fix p (if q mod 5 = 0 then q + 1 else q) ex
               else case strip_zeros q ex (e - f) of (c, e') \<Rightarrow> dec_fix p c e'
   | _ \<Rightarrow> Inl InvalidOperation)"

section \<open>Text\<close>

text \<open>\<open>str(d)\<close>.\<close>

definition dec_body :: "int \<Rightarrow> int \<Rightarrow> string" where
  "dec_body c e =
     (let ds = show_nat (nat \<bar>c\<bar>); left = e + int (length ds);
          place = (if e \<le> 0 \<and> left > -6 then left else 1)
      in (if place \<le> 0 then ''0.'' @ replicate (nat (- place)) CHR ''0'' @ ds
          else if int (length ds) \<le> place then ds @ replicate (nat place - length ds) CHR ''0''
          else take (nat place) ds @ ''.'' @ drop (nat place) ds)
         @ (if left = place then []
            else ''E'' @ (if left - place < 0 then ''-'' else ''+'') @ show_nat (nat \<bar>left - place\<bar>)))"

fun dec_str :: "decimal \<Rightarrow> string" where
  "dec_str (Dec c e) = (if c < 0 then ''-'' else []) @ dec_body c e"
| "dec_str DecNonFinite = ''NaN''"

text \<open>
  \<open>Decimal(text)\<close> for ASCII text: surrounding white space and underscores are dropped, and the
  rest is a sign, digits with at most one point and an exponent, or one of the special values.
\<close>

definition lower_char :: "char \<Rightarrow> char" where
  "lower_char c = (if is_upper c then char_of ((of_char c :: nat) + 32) else c)"

definition split_sign :: "string \<Rightarrow> int \<times> string" where
  "split_sign s = (case s of c # cs \<Rightarrow> if c = CHR ''-'' then (-1, cs) else if c = CHR ''+'' then (1, cs) else (1, s) | [] \<Rightarrow> (1, []))"

definition read_exponent :: "string \<Rightarrow> int option" where
  "read_exponent s =
     (if s = [] then Some 0
      else if hd s \<noteq> CHR ''e'' then None
      else case split_sign (tl s) of (sg, ds) \<Rightarrow>
        if ds \<noteq> [] \<and> list_all is_digit ds then Some (sg * int (read_nat ds)) else None)"

definition read_special :: "string \<Rightarrow> bool" where
  "read_special s \<longleftrightarrow> s = ''inf'' \<or> s = ''infinity''
     \<or> (take 3 s = ''nan'' \<and> list_all is_digit (drop 3 s)) \<or> (take 4 s = ''snan'' \<and> list_all is_digit (drop 4 s))"

definition Decimal :: "string \<Rightarrow> decimal outcome" where
  "Decimal text =
     (let s = map lower_char (filter (\<lambda>c. c \<noteq> CHR ''_'') (py_strip text));
          (sg, body) = split_sign s;
          whole = takeWhile is_digit body; rest = dropWhile is_digit body;
          point = rest \<noteq> [] \<and> hd rest = CHR ''.'';
          part = (if point then takeWhile is_digit (tl rest) else []);
          tail = (if point then dropWhile is_digit (tl rest) else rest)
      in if read_special body then Inr DecNonFinite
         else if whole = [] \<and> part = [] then Inl InvalidOperation
         else case read_exponent tail of
                None \<Rightarrow> Inl InvalidOperation
              | Some ex \<Rightarrow> Inr (Dec (sg * int (read_nat (whole @ part))) (ex - int (length part))))"

section \<open>Exactness\<close>

lemma dec_value_powi: "dec_value (Dec c e) = of_int c * power_int 10 e"
  by (cases "0 \<le> e") (simp_all only: dec_value.simps power_int_def if_True if_False divide_inverse power_inverse)

lemma dec_value_shift: "dec_value (Dec (c * 10 ^ k) e) = dec_value (Dec c (e + int k))"
proof -
  have "power_int (10 :: rat) (e + int k) = power_int 10 e * 10 ^ k" by (subst power_int_add) simp_all
  then show ?thesis unfolding dec_value_powi by simp
qed

lemma digits_le: "\<bar>c\<bar> < 10 ^ p \<Longrightarrow> 0 < p \<Longrightarrow> digits c \<le> p"
  unfolding digits_def by (rule show_nat_length) (simp_all add: nat_less_iff)

lemma digits_positive: "1 \<le> digits c"
  unfolding digits_def by (simp add: Suc_le_eq)

text \<open>A result within the precision is returned as it is.\<close>

lemma dec_fix_exact:
  assumes "\<bar>c\<bar> < 10 ^ p" "0 < p" "EMIN \<le> e" "e + int p \<le> EMAX"
  shows "dec_fix p c e = Inr (Dec c e)"
proof (cases "c = 0")
  case True
  then show ?thesis using assms by (simp add: dec_fix_def max_def min_def)
next
  case False
  then show ?thesis
    using digits_le [OF assms(1,2)] assms by (simp add: dec_fix_def Let_def max_def)
qed

lemma dec_add_exact:
  fixes e f a b :: int
  defines "m \<equiv> min e f" and "c \<equiv> a * 10 ^ nat (e - min e f) + b * 10 ^ nat (f - min e f)"
  assumes "\<bar>c\<bar> < 10 ^ p" "0 < p" "EMIN \<le> m" "m + int p \<le> EMAX"
  shows "dec_add p (Dec a e) (Dec b f) = Inr (Dec c m)" "dec_value (Dec c m) = dec_value (Dec a e) + dec_value (Dec b f)"
proof -
  show "dec_add p (Dec a e) (Dec b f) = Inr (Dec c m)"
    using dec_fix_exact [OF assms(3-6)] by (simp add: dec_add_def Let_def m_def c_def)
  have "dec_value (Dec a e) = dec_value (Dec (a * 10 ^ nat (e - m)) m)" "dec_value (Dec b f) = dec_value (Dec (b * 10 ^ nat (f - m)) m)"
    unfolding dec_value_shift by (simp_all add: m_def)
  then show "dec_value (Dec c m) = dec_value (Dec a e) + dec_value (Dec b f)"
    by (simp only: dec_value_powi c_def m_def of_int_add distrib_right)
qed

lemma strip_zeros_spec:
  assumes "strip_zeros c e i = (c', e')" "e \<le> i"
  shows "e \<le> e' \<and> e' \<le> i \<and> c = c' * 10 ^ nat (e' - e) \<and> (e' = i \<or> c' mod 10 \<noteq> 0)"
  using assms
proof (induction c e i rule: strip_zeros.induct)
  case (1 c e i)
  show ?case
  proof (cases "e < i \<and> c mod 10 = 0")
    case True
    then have IH: "e + 1 \<le> e' \<and> e' \<le> i \<and> c div 10 = c' * 10 ^ nat (e' - (e + 1)) \<and> (e' = i \<or> c' mod 10 \<noteq> 0)"
      using 1 by (simp add: strip_zeros.simps [of c e i])
    then have "nat (e' - e) = Suc (nat (e' - (e + 1)))" by linarith
    moreover have "c = 10 * (c div 10)" using True by presburger
    ultimately show ?thesis using IH by simp
  next
    case False
    then show ?thesis using 1 by (auto simp: strip_zeros.simps [of c e i] split: if_splits)
  qed
qed

text \<open>A half or a twentieth needs at most one digit more than the dividend has.\<close>

lemma quotient_coefficient:
  fixes s c :: int
  assumes "c * 10 ^ j = 5 * s * 10 ^ i" "i \<le> j \<or> c mod 10 \<noteq> 0" "0 < s"
  shows "0 < c \<and> c \<le> 5 * s"
proof -
  have pos: "0 < c" using assms(1,3) by (metis mult_pos_pos zero_less_mult_pos2 zero_less_numeral zero_less_power)
  have "i \<le> j"
  proof (rule ccontr)
    assume "\<not> i \<le> j"
    then obtain n where "i = j + Suc n" using less_natE by (metis add_Suc_right not_le)
    then have "c = 10 * (5 * s * 10 ^ n)" using assms(1) by (simp add: power_add)
    then have "c mod 10 = 0" by simp
    with assms(2) \<open>\<not> i \<le> j\<close> show False by simp
  qed
  then obtain n where "j = i + n" by (metis le_add_diff_inverse)
  then have "5 * s = c * 10 ^ (j - i)" using assms(1) by (simp add: power_add)
  moreover have "c * 1 \<le> c * 10 ^ (j - i)" using pos by (intro mult_left_mono) simp_all
  ultimately show ?thesis using pos by simp
qed

lemma dec_div_exact:
  assumes "0 < s" "5 * s < 10 ^ p" "0 < p" "EMIN + int p + 3 \<le> e" "e + int p \<le> EMAX"
    and "b = 2 * 10 ^ z" "digits b = Suc z" "z \<le> 1"
  shows "\<exists>d. dec_div p (Dec s e) (Dec b 0) = Inr d \<and> dec_finite d \<and> dec_value d = dec_value (Dec s e) / of_int b"
proof -
  have le: "digits s \<le> p" using assms(1-3) by (intro digits_le) simp_all
  define k where "k = p + 1 - digits s"
  have shift: "int (digits b) - int (digits s) + int p + 1 = int (Suc (k + z))" using le assms(7) by (simp add: k_def)
  let ?q = "5 * s * 10 ^ k"
  have n: "s * 10 ^ Suc (k + z) = ?q * b" by (simp add: assms(6) power_add)
  have b: "0 < b" by (simp add: assms(6))
  obtain c e' where strip: "strip_zeros ?q (e - int (Suc (k + z))) e = (c, e')" by fastforce
  note z = strip_zeros_spec [OF strip]
  have c: "0 < c \<and> c \<le> 5 * s"
    using z assms(1) by (intro quotient_coefficient [of c "nat (e' - (e - int (Suc (k + z))))" s k]) auto
  have small: "\<bar>c\<bar> < 10 ^ p" using c assms(2) by simp
  have "int (Suc (k + z)) \<le> int p + 2" using digits_positive [of s] le assms(8) by (simp add: k_def)
  then have exact: "dec_fix p c e' = Inr (Dec c e')" using z assms(3-5) by (intro dec_fix_exact [OF small]) simp_all
  have "dec_div p (Dec s e) (Dec b 0) = Inr (Dec c e')"
  proof -
    have "s * 10 ^ Suc (k + z) mod b = 0" "s * 10 ^ Suc (k + z) div b = ?q" unfolding n using b by simp_all
    moreover have "nat (- int (Suc (k + z))) = 0" by simp
    ultimately show ?thesis
      using assms(1) strip exact unfolding dec_div_def Let_def prod.case decimal.case shift nat_int by (simp del: power_Suc)
  qed
  moreover have "dec_value (Dec c e') = dec_value (Dec s e) / of_int b"
  proof -
    let ?x = "e - int (Suc (k + z))"
    have "dec_value (Dec (s * 10 ^ Suc (k + z)) ?x) = dec_value (Dec s e)" unfolding dec_value_shift by simp
    moreover have "?q = c * 10 ^ nat (e' - ?x)" "?x + int (nat (e' - ?x)) = e'" using z by auto
    then have "dec_value (Dec ?q ?x) = dec_value (Dec c e')"
      using dec_value_shift [of c "nat (e' - ?x)" ?x] by (simp only:)
    moreover have "dec_value (Dec (s * 10 ^ Suc (k + z)) ?x) = dec_value (Dec ?q ?x) * of_int b"
      unfolding n by (simp only: dec_value_powi of_int_mult mult.assoc mult.commute mult.left_commute)
    ultimately show ?thesis using b by (simp del: dec_value.simps)
  qed
  ultimately show ?thesis by (metis dec_finite.simps(1))
qed

lemma digits_small: "digits 2 = 1" "digits 20 = 2"
  by (simp_all add: digits_def show_nat.simps [of 2] show_nat.simps [of 20])

lemma dec_half_exact:
  "0 < s \<Longrightarrow> 5 * s < 10 ^ p \<Longrightarrow> 0 < p \<Longrightarrow> EMIN + int p + 3 \<le> e \<Longrightarrow> e + int p \<le> EMAX \<Longrightarrow>
     \<exists>d. dec_div p (Dec s e) (Dec 2 0) = Inr d \<and> dec_finite d \<and> dec_value d = dec_value (Dec s e) / 2"
  using dec_div_exact [of s p e 2 0] digits_small by (simp del: dec_value.simps)

lemma dec_twentieth_exact:
  "0 < s \<Longrightarrow> 5 * s < 10 ^ p \<Longrightarrow> 0 < p \<Longrightarrow> EMIN + int p + 3 \<le> e \<Longrightarrow> e + int p \<le> EMAX \<Longrightarrow>
     \<exists>d. dec_div p (Dec s e) (Dec 20 0) = Inr d \<and> dec_finite d \<and> dec_value d = dec_value (Dec s e) / 20"
  using dec_div_exact [of s p e 20 1] digits_small by (simp del: dec_value.simps)

section \<open>Amounts with eight places\<close>

text \<open>Sums and products of moderate amounts with at most eight places are exact.\<close>

definition places :: "decimal \<Rightarrow> bool" where
  "places d \<longleftrightarrow> (\<exists>t f. d = Dec t f \<and> 0 \<le> t \<and> -8 \<le> f \<and> f \<le> 0)"

lemma places_coefficient:
  assumes "0 \<le> t" "-8 \<le> f" "f \<le> 0" "dec_value (Dec t f) < 10 ^ 18"
  shows "t < 10 ^ 26"
proof -
  have "dec_value (Dec t f) = of_int t / 10 ^ nat (- f)" using assms(3) by simp
  then have "of_int t = dec_value (Dec t f) * 10 ^ nat (- f)" by simp
  also have "\<dots> < 10 ^ 18 * 10 ^ nat (- f)" using assms(4) by (intro mult_strict_right_mono) simp_all
  also have "\<dots> \<le> 10 ^ 18 * 10 ^ 8" using assms(2) by (intro mult_left_mono power_increasing) simp_all
  finally have "(of_int t :: rat) < of_int (10 ^ 26)" by simp
  then show ?thesis unfolding of_int_less_iff .
qed

lemma places_value: "places d \<Longrightarrow> 0 \<le> dec_value d"
  by (auto simp: places_def)

lemma exact_range:
  assumes "27 \<le> p" "p \<le> 900000" "-8 \<le> f" "f \<le> 0"
  shows "0 < p" "EMIN \<le> f" "f + int p \<le> EMAX" "EMIN + int p + 3 \<le> f" "(10 :: int) ^ 27 \<le> 10 ^ p"
  using assms by (simp_all add: EMIN_def EMAX_def power_increasing del: power_numeral)

lemma places_mul:
  assumes "places x" "0 \<le> n" "dec_value x * of_int n < 10 ^ 18" "27 \<le> p" "p \<le> 900000"
  shows "\<exists>d. dec_mul p x (Dec n 0) = Inr d \<and> places d \<and> dec_value d = dec_value x * of_int n"
proof -
  obtain t f where x: "x = Dec t f" "0 \<le> t" "-8 \<le> f" "f \<le> 0" using assms(1) by (auto simp: places_def)
  have v: "dec_value (Dec (t * n) f) = dec_value x * of_int n" by (simp only: x(1) dec_value_powi of_int_mult mult.assoc mult.commute mult.left_commute)
  note r = exact_range [OF assms(4,5) x(3,4)]
  have "t * n < 10 ^ 26" by (rule places_coefficient [OF _ x(3,4)]) (use v assms(2,3) x(2) in simp_all)
  then have "\<bar>t * n\<bar> < 10 ^ p" using r(5) x(2) assms(2) by simp
  then have "dec_mul p x (Dec n 0) = Inr (Dec (t * n) f)" using dec_fix_exact r x(1) by (simp add: dec_mul_def)
  then show ?thesis using v x assms(2) by (auto simp: places_def simp del: dec_value.simps)
qed

lemma places_add:
  assumes "places x" "places y" "dec_value x + dec_value y < 10 ^ 18" "27 \<le> p" "p \<le> 900000"
  shows "\<exists>d. dec_add p x y = Inr d \<and> places d \<and> dec_value d = dec_value x + dec_value y"
proof -
  obtain a e where x: "x = Dec a e" "0 \<le> a" "-8 \<le> e" "e \<le> 0" using assms(1) by (auto simp: places_def)
  obtain b f where y: "y = Dec b f" "0 \<le> b" "-8 \<le> f" "f \<le> 0" using assms(2) by (auto simp: places_def)
  define c where "c = a * 10 ^ nat (e - min e f) + b * 10 ^ nat (f - min e f)"
  have m: "-8 \<le> min e f" "min e f \<le> 0" "0 \<le> c" using x y by (auto simp: c_def)
  note r = exact_range [OF assms(4,5) m(1,2)]
  have "dec_value (Dec c (min e f)) = dec_value x + dec_value y"
  proof -
    have "dec_value x = dec_value (Dec (a * 10 ^ nat (e - min e f)) (min e f))" "dec_value y = dec_value (Dec (b * 10 ^ nat (f - min e f)) (min e f))"
      unfolding x(1) y(1) dec_value_shift by simp_all
    then show ?thesis by (simp only: dec_value_powi c_def of_int_add distrib_right)
  qed
  then have "c < 10 ^ 26" using places_coefficient [OF m(3,1,2)] assms(3) by simp
  then have "\<bar>c\<bar> < 10 ^ p" using r(5) m(3) by simp
  note sum = dec_add_exact [of a e f b p, folded c_def, OF this r(1-3)]
  then show ?thesis using x(1) y(1) m by (auto simp: places_def simp del: dec_value.simps)
qed

lemma places_twentieth:
  assumes "places x" "dec_value x < 10 ^ 18" "27 \<le> p" "p \<le> 900000"
  shows "\<exists>d. dec_div p x (Dec 20 0) = Inr d \<and> dec_value d = dec_value x / 20"
proof -
  obtain t f where x: "x = Dec t f" "0 \<le> t" "-8 \<le> f" "f \<le> 0" using assms(1) by (auto simp: places_def)
  note r = exact_range [OF assms(3,4) x(3,4)]
  show ?thesis
  proof (cases "t = 0")
    case True
    then show ?thesis using dec_fix_exact [of 0 p f] r by (simp add: x(1) dec_div_def)
  next
    case False
    have "t < 10 ^ 26" using places_coefficient [OF x(2-4)] assms(2) x(1) by simp
    then have "5 * t < 10 ^ p" using r(5) by simp
    then show ?thesis using dec_twentieth_exact [of t p f] False r x(1,2) by (auto simp del: dec_value.simps)
  qed
qed

end
