(* ===== verification/Security_Contracts.thy ===== *)
theory Security_Contracts
  imports Canonical_Json
begin

text \<open>
  \<open>securities/contracts.py\<close>: the identity record of a security at a point in time, with its
  two time axes (validity in the world, availability to the system) and its content hash.

  The wrapped texts (\<open>SecurityId\<close>, \<open>SecuritySymbol\<close>, ...) are strings; that a value has the
  exact class is the check of the class's pattern. All violations raise \<open>ValueError\<close>.
\<close>

section \<open>Identifiers\<close>

definition HASH_TEXT :: rx where "HASH_TEXT = Rep 64 64 (Cls is_hex)"

definition SECURITY_ID :: rx where
  "SECURITY_ID = Seq (Cls is_hex) (Rep 7 63 (Cls (\<lambda>c. is_hex c \<or> c = CHR ''-'')))"

definition SECURITY_SYMBOL :: rx where
  "SECURITY_SYMBOL = head_tail is_upper (\<lambda>c. is_upper c \<or> is_digit c \<or> c = CHR ''.'' \<or> c = CHR ''-'') 9"

definition CIK :: rx where "CIK = Rep 10 10 (Cls is_digit)"

definition CUSIP :: rx where "CUSIP = Rep 9 9 (Cls (\<lambda>c. is_digit c \<or> is_upper c))"

definition ISIN :: rx where
  "ISIN = seqs [Rep 2 2 (Cls is_upper), Rep 9 9 (Cls (\<lambda>c. is_upper c \<or> is_digit c)), Cls is_digit]"

definition RECORD_ID :: rx where
  "RECORD_ID = head_tail (\<lambda>c. is_upper c \<or> is_lower c \<or> is_digit c)
     (\<lambda>c. is_upper c \<or> is_lower c \<or> is_digit c \<or> c \<in> set ''._:-'') 95"

definition MAX_SOURCE_REFS :: nat where "MAX_SOURCE_REFS = 16"

definition SecurityId :: "string \<Rightarrow> string outcome" where
  "SecurityId v = (if fullmatch SECURITY_ID v then Inr v else Inl ValueError)"

definition SecuritySymbol :: "string \<Rightarrow> string outcome" where
  "SecuritySymbol v = (if fullmatch SECURITY_SYMBOL v then Inr v else Inl ValueError)"

datatype p4_source_family =
    ALPACA_ASSETS | ALPACA_HISTORICAL_BARS | ALPACA_IEX_QUOTES | ALPACA_CORPORATE_ACTIONS | SEC_EDGAR | ISSUER_IR
  | EXCHANGE_OFFICIAL | FRED_ALFRED | TREASURY | BLS | BEA | EIA | TAVILY | GDELT | YFINANCE

fun family_value :: "p4_source_family \<Rightarrow> string" where
  "family_value ALPACA_ASSETS = ''ALPACA_ASSETS''"
| "family_value ALPACA_HISTORICAL_BARS = ''ALPACA_HISTORICAL_BARS''"
| "family_value ALPACA_IEX_QUOTES = ''ALPACA_IEX_QUOTES''"
| "family_value ALPACA_CORPORATE_ACTIONS = ''ALPACA_CORPORATE_ACTIONS''"
| "family_value SEC_EDGAR = ''SEC_EDGAR''"
| "family_value ISSUER_IR = ''ISSUER_IR''"
| "family_value EXCHANGE_OFFICIAL = ''EXCHANGE_OFFICIAL''"
| "family_value FRED_ALFRED = ''FRED_ALFRED''"
| "family_value TREASURY = ''TREASURY''"
| "family_value BLS = ''BLS''"
| "family_value BEA = ''BEA''"
| "family_value EIA = ''EIA''"
| "family_value TAVILY = ''TAVILY''"
| "family_value GDELT = ''GDELT''"
| "family_value YFINANCE = ''YFINANCE''"

datatype listing_exchange = AMEX | ARCA | BATS | NASDAQ | NYSE

fun listing_exchange_value :: "listing_exchange \<Rightarrow> string" where
  "listing_exchange_value AMEX = ''AMEX''"
| "listing_exchange_value ARCA = ''ARCA''"
| "listing_exchange_value BATS = ''BATS''"
| "listing_exchange_value NASDAQ = ''NASDAQ''"
| "listing_exchange_value NYSE = ''NYSE''"

datatype security_status = SECURITY_ACTIVE | SECURITY_INACTIVE

fun security_status_value :: "security_status \<Rightarrow> string" where
  "security_status_value SECURITY_ACTIVE = ''active''"
| "security_status_value SECURITY_INACTIVE = ''inactive''"

section \<open>Validity\<close>

record validity_interval =
  vi_from :: utc
  vi_to :: "utc option"

definition ValidityInterval :: "utc \<Rightarrow> utc option \<Rightarrow> validity_interval outcome" where
  "ValidityInterval valid_from valid_to =
     bindO (require (case valid_to of None \<Rightarrow> True | Some t \<Rightarrow> \<not> t \<le> valid_from)) (\<lambda>_.
       Inr \<lparr>vi_from = valid_from, vi_to = valid_to\<rparr>)"

definition interval_contains :: "validity_interval \<Rightarrow> utc \<Rightarrow> bool" where
  "interval_contains i point =
     (if point < vi_from i then False else (case vi_to i of None \<Rightarrow> True | Some t \<Rightarrow> point < t))"

definition intervals_overlap :: "validity_interval \<Rightarrow> validity_interval \<Rightarrow> bool" where
  "intervals_overlap first second =
     (if (case vi_to first of None \<Rightarrow> False | Some t \<Rightarrow> vi_from second \<ge> t) then False
      else (case vi_to second of None \<Rightarrow> True | Some t \<Rightarrow> vi_from first < t))"

section \<open>Source references and identity records\<close>

record source_ref =
  sr_record_id :: string
  sr_family :: p4_source_family
  sr_record_hash :: string

definition source_ref_ok :: "source_ref \<Rightarrow> bool" where
  "source_ref_ok r \<longleftrightarrow> fullmatch RECORD_ID (sr_record_id r) \<and> fullmatch HASH_TEXT (sr_record_hash r)"

definition source_ref_wire :: "source_ref \<Rightarrow> json" where
  "source_ref_wire r =
     JObj [(''record_id'', JStr (sr_record_id r)), (''family'', JStr (family_value (sr_family r))),
           (''record_hash'', JStr (sr_record_hash r))]"

record identity_record =
  ir_security_id :: string
  ir_symbol :: string
  ir_exchange :: listing_exchange
  ir_valid_from :: utc
  ir_available_at :: utc
  ir_status :: security_status
  ir_source_refs :: "source_ref list"
  ir_schema_version :: string
  ir_identity_hash :: string
  ir_cik :: "string option"
  ir_cusip :: "string option"
  ir_isin :: "string option"
  ir_valid_to :: "utc option"

definition optional_matches :: "rx \<Rightarrow> string option \<Rightarrow> bool" where
  "optional_matches r v \<longleftrightarrow> (case v of None \<Rightarrow> True | Some s \<Rightarrow> fullmatch r s)"

definition source_refs_ok :: "source_ref list \<Rightarrow> bool" where
  "source_refs_ok refs \<longleftrightarrow> refs \<noteq> [] \<and> length refs \<le> MAX_SOURCE_REFS \<and> list_all source_ref_ok refs
     \<and> distinct (map sr_record_id refs)"

definition validate_identity_fields :: "identity_record \<Rightarrow> unit outcome" where
  "validate_identity_fields r =
     bindO (SecurityId (ir_security_id r)) (\<lambda>_.
     bindO (SecuritySymbol (ir_symbol r)) (\<lambda>_.
     bindO (require (optional_matches CIK (ir_cik r))) (\<lambda>_.
     bindO (require (optional_matches CUSIP (ir_cusip r))) (\<lambda>_.
     bindO (require (optional_matches ISIN (ir_isin r))) (\<lambda>_.
     bindO (require (utc_ok (ir_valid_from r))) (\<lambda>_.
     bindO (require (case ir_valid_to r of None \<Rightarrow> True | Some t \<Rightarrow> utc_ok t)) (\<lambda>_.
     bindO (require (case ir_valid_to r of None \<Rightarrow> True | Some t \<Rightarrow> \<not> t \<le> ir_valid_from r)) (\<lambda>_.
     bindO (require (utc_ok (ir_available_at r))) (\<lambda>_.
     bindO (require (source_refs_ok (ir_source_refs r))) (\<lambda>_.
     bindO (SchemaVersion (ir_schema_version r)) (\<lambda>_. Inr ())))))))))))"

definition optional_text :: "string option \<Rightarrow> json" where
  "optional_text v = (case v of None \<Rightarrow> JNull | Some s \<Rightarrow> JStr s)"

definition SECURITIES_PRODUCER_VERSION :: string where
  "SECURITIES_PRODUCER_VERSION = ''p4b.securities.v1''"

definition identity_wire :: "identity_record \<Rightarrow> json" where
  "identity_wire r =
     JObj [(''security_id'', JStr (ir_security_id r)),
           (''symbol'', JStr (ir_symbol r)),
           (''exchange'', JStr (listing_exchange_value (ir_exchange r))),
           (''asset_class'', JStr ''us_equity''),
           (''cik'', optional_text (ir_cik r)),
           (''cusip'', optional_text (ir_cusip r)),
           (''isin'', optional_text (ir_isin r)),
           (''valid_from'', JStr (utc_str (ir_valid_from r))),
           (''valid_to'', optional_text (map_option utc_str (ir_valid_to r))),
           (''available_at'', JStr (utc_str (ir_available_at r))),
           (''status'', JStr (security_status_value (ir_status r))),
           (''source_refs'', JList (map source_ref_wire (ir_source_refs r))),
           (''schema_version'', JStr (ir_schema_version r)),
           (''producer_version'', JStr SECURITIES_PRODUCER_VERSION)]"

definition IDENTITY_HASH_DOMAIN :: string where
  "IDENTITY_HASH_DOMAIN = ''seven-lens.p4b.security-identity.v1'' @ [CHR 0x00]"

definition identity_compute_hash :: "digest \<Rightarrow> identity_record \<Rightarrow> string" where
  "identity_compute_hash sha256 r = sha256 (IDENTITY_HASH_DOMAIN @ dumps (identity_wire r))"

definition identity_verify_integrity :: "digest \<Rightarrow> identity_record \<Rightarrow> unit outcome" where
  "identity_verify_integrity sha256 r = require (ir_identity_hash r = identity_compute_hash sha256 r)"

definition identity_post_init :: "digest \<Rightarrow> identity_record \<Rightarrow> identity_record outcome" where
  "identity_post_init sha256 r =
     bindO (validate_identity_fields r) (\<lambda>_.
     bindO (require (fullmatch HASH_TEXT (ir_identity_hash r))) (\<lambda>_.
     bindO (identity_verify_integrity sha256 r) (\<lambda>_. Inr r)))"

definition build_identity_record :: "digest \<Rightarrow> identity_record \<Rightarrow> identity_record outcome" where
  "build_identity_record sha256 r =
     bindO (validate_identity_fields r) (\<lambda>_.
       identity_post_init sha256 (r\<lparr>ir_identity_hash := identity_compute_hash sha256 r\<rparr>))"

definition interval_of :: "identity_record \<Rightarrow> validity_interval" where
  "interval_of r = \<lparr>vi_from = ir_valid_from r, vi_to = ir_valid_to r\<rparr>"

definition identity_known_at :: "identity_record \<Rightarrow> utc \<Rightarrow> bool" where
  "identity_known_at r cutoff \<longleftrightarrow> ir_available_at r \<le> cutoff"

definition identity_valid_at :: "identity_record \<Rightarrow> utc \<Rightarrow> bool" where
  "identity_valid_at r as_of = interval_contains (interval_of r) as_of"

definition answers_as_of :: "identity_record \<Rightarrow> utc \<Rightarrow> utc \<Rightarrow> bool" where
  "answers_as_of r as_of known_at \<longleftrightarrow> identity_known_at r known_at \<and> identity_valid_at r as_of"

section \<open>Lemmas\<close>

abbreviation interval_ok :: "validity_interval \<Rightarrow> bool" where
  "interval_ok i \<equiv> (case vi_to i of None \<Rightarrow> True | Some t \<Rightarrow> vi_from i < t)"

text \<open>On proper intervals overlapping means sharing an instant.\<close>

lemma overlap_iff:
  assumes "interval_ok i" "interval_ok j"
  shows "intervals_overlap i j \<longleftrightarrow> (\<exists>t. interval_contains i t \<and> interval_contains j t)"
proof
  assume "intervals_overlap i j"
  then show "\<exists>t. interval_contains i t \<and> interval_contains j t"
    using assms
    by (intro exI [of _ "max (vi_from i) (vi_from j)"])
      (auto simp: intervals_overlap_def interval_contains_def max_def split: option.splits if_splits)
qed (auto simp: intervals_overlap_def interval_contains_def split: option.splits if_splits)

lemma overlap_sym: "interval_ok i \<Longrightarrow> interval_ok j \<Longrightarrow> intervals_overlap i j = intervals_overlap j i"
  by (auto simp: overlap_iff)

lemma identity_fields_interval: "validate_identity_fields r = Inr u \<Longrightarrow> interval_ok (interval_of r)"
  by (auto simp: validate_identity_fields_def bindO_eq_Inr interval_of_def split: option.splits)

text \<open>The hash is not part of the wire, so a built record carries the hash of its own content.\<close>

lemma identity_wire_hash [simp]: "identity_wire (r\<lparr>ir_identity_hash := h\<rparr>) = identity_wire r"
  by (simp add: identity_wire_def)

lemma identity_fields_hash [simp]: "validate_identity_fields (r\<lparr>ir_identity_hash := h\<rparr>) = validate_identity_fields r"
  by (simp add: validate_identity_fields_def cong: option.case_cong)

lemma build_identity_ok:
  assumes "build_identity_record sha r = Inr r'"
  shows "r' = r\<lparr>ir_identity_hash := identity_compute_hash sha r\<rparr>" "validate_identity_fields r' = Inr ()"
    "identity_verify_integrity sha r' = Inr ()"
  using assms by (auto simp: build_identity_record_def identity_post_init_def bindO_eq_Inr identity_verify_integrity_def)

interpretation identity_seal: hash_bound "\<lambda>r. Inr (identity_compute_hash sha r)" ir_identity_hash "\<lambda>h r. r\<lparr>ir_identity_hash := h\<rparr>" "identity_verify_integrity sha" for sha
  by unfold_locales (simp_all add: identity_verify_integrity_def identity_compute_hash_def identity_wire_def)

end
