(* ===== verification/Corporate_Actions.thy ===== *)
theory Corporate_Actions
  imports Security_Contracts Orders
begin

text \<open>
  \<open>securities/corporate_actions.py\<close>: splits as append-only lineages of hashed rows, the
  closed state machine they follow, and the exact ratio of a split.
\<close>

section \<open>States\<close>

datatype corporate_action_type = FORWARD_SPLIT | REVERSE_SPLIT

fun action_type_value :: "corporate_action_type \<Rightarrow> string" where
  "action_type_value FORWARD_SPLIT = ''forward_split''"
| "action_type_value REVERSE_SPLIT = ''reverse_split''"

definition parse_action_type :: "string \<Rightarrow> corporate_action_type outcome" where
  "parse_action_type t =
     (if t = ''forward_split'' then Inr FORWARD_SPLIT
      else if t = ''reverse_split'' then Inr REVERSE_SPLIT else Inl ValueError)"

datatype corporate_action_state =
  CA_DETECTED | CA_ENTRY_BLOCKED | CA_CONFIRMED | CA_REVIEW_REQUIRED | CA_EFFECTIVE_PENDING_RECONCILIATION

fun action_state_value :: "corporate_action_state \<Rightarrow> string" where
  "action_state_value CA_DETECTED = ''detected''"
| "action_state_value CA_ENTRY_BLOCKED = ''entry_blocked''"
| "action_state_value CA_CONFIRMED = ''confirmed''"
| "action_state_value CA_REVIEW_REQUIRED = ''review_required''"
| "action_state_value CA_EFFECTIVE_PENDING_RECONCILIATION = ''effective_pending_reconciliation''"

definition ALLOWED_TRANSITIONS :: "(corporate_action_state \<times> corporate_action_state) list" where
  "ALLOWED_TRANSITIONS =
     [(CA_DETECTED, CA_ENTRY_BLOCKED), (CA_ENTRY_BLOCKED, CA_CONFIRMED), (CA_DETECTED, CA_REVIEW_REQUIRED),
      (CA_ENTRY_BLOCKED, CA_REVIEW_REQUIRED), (CA_CONFIRMED, CA_REVIEW_REQUIRED),
      (CA_CONFIRMED, CA_EFFECTIVE_PENDING_RECONCILIATION)]"

definition TERMINAL_STATES :: "corporate_action_state list" where
  "TERMINAL_STATES = [CA_REVIEW_REQUIRED, CA_EFFECTIVE_PENDING_RECONCILIATION]"

definition is_legal_transition :: "corporate_action_state \<Rightarrow> corporate_action_state \<Rightarrow> bool" where
  "is_legal_transition from_state to_state \<longleftrightarrow> (from_state, to_state) \<in> set ALLOWED_TRANSITIONS"

definition is_terminal :: "corporate_action_state \<Rightarrow> bool" where
  "is_terminal state \<longleftrightarrow> state \<in> set TERMINAL_STATES"

section \<open>Ratios\<close>

record split_ratio =
  ratio_numerator :: int
  ratio_denominator :: int

definition SplitRatio :: "int \<Rightarrow> int \<Rightarrow> split_ratio outcome" where
  "SplitRatio n d =
     (if n \<le> 0 \<or> d \<le> 0 then Inl ValueError
      else if gcd n d \<noteq> 1 then Inl ValueError
      else Inr \<lparr>ratio_numerator = n, ratio_denominator = d\<rparr>)"

definition ratio_from_fraction :: "int \<Rightarrow> int \<Rightarrow> split_ratio outcome" where
  "ratio_from_fraction n d =
     (if n \<le> 0 \<or> d \<le> 0 then Inl ValueError
      else let scale = gcd n d in SplitRatio (n div scale) (d div scale))"

text \<open>\<open>Decimal.as_integer_ratio\<close> of a finite decimal, in lowest terms.\<close>

definition as_integer_ratio :: "int \<Rightarrow> int \<Rightarrow> int \<times> int" where
  "as_integer_ratio coefficient exponent =
     (let n = coefficient * 10 ^ nat exponent; d = 10 ^ nat (- exponent); scale = gcd n d
      in (n div scale, d div scale))"

fun ratio_from_decimal :: "decimal \<Rightarrow> split_ratio outcome" where
  "ratio_from_decimal DecNonFinite = Inl ValueError"
| "ratio_from_decimal (Dec coefficient exponent) =
     (if coefficient \<le> 0 then Inl ValueError
      else case as_integer_ratio coefficient exponent of (n, d) \<Rightarrow> ratio_from_fraction n d)"

definition ratio_wire :: "split_ratio \<Rightarrow> json" where
  "ratio_wire r = JObj [(''numerator'', JInt (ratio_numerator r)), (''denominator'', JInt (ratio_denominator r))]"

section \<open>Rows of a lineage\<close>

record corporate_action =
  ca_event_id :: string
  ca_security_id :: string
  ca_security_identity_hash :: string
  ca_action_type :: corporate_action_type
  ca_ratio :: split_ratio
  ca_declared_at :: utc
  ca_ex_date :: pydate
  ca_effective_date :: pydate
  ca_available_at :: utc
  ca_state :: corporate_action_state
  ca_source_refs :: "source_ref list"
  ca_schema_version :: string
  ca_record_hash :: string

definition EVENT_ID :: rx where "EVENT_ID = RECORD_ID"

definition MAX_LINEAGE_RECORDS :: nat where "MAX_LINEAGE_RECORDS = 4096"

text \<open>Comparison of calendar dates.\<close>

definition date_less :: "pydate \<Rightarrow> pydate \<Rightarrow> bool" where
  "date_less d e \<longleftrightarrow> (year d, month d, day d) < (year e, month e, day e)"

definition validate_action_fields :: "corporate_action \<Rightarrow> unit outcome" where
  "validate_action_fields r =
     bindO (require (fullmatch EVENT_ID (ca_event_id r))) (\<lambda>_.
     bindO (SecurityId (ca_security_id r)) (\<lambda>_.
     bindO (require (fullmatch HASH_TEXT (ca_security_identity_hash r))) (\<lambda>_.
     bindO (SplitRatio (ratio_numerator (ca_ratio r)) (ratio_denominator (ca_ratio r))) (\<lambda>_.
     bindO (require (utc_ok (ca_declared_at r))) (\<lambda>_.
     bindO (require (valid_date (ca_ex_date r))) (\<lambda>_.
     bindO (require (valid_date (ca_effective_date r))) (\<lambda>_.
     bindO (require (\<not> date_less (ca_ex_date r) (utc_date (ca_declared_at r)))) (\<lambda>_.
     bindO (require (\<not> date_less (ca_effective_date r) (ca_ex_date r))) (\<lambda>_.
     bindO (require (utc_ok (ca_available_at r))) (\<lambda>_.
     bindO (require (\<not> ca_available_at r < ca_declared_at r)) (\<lambda>_.
     bindO (require (source_refs_ok (ca_source_refs r))) (\<lambda>_.
     bindO (SchemaVersion (ca_schema_version r)) (\<lambda>_. Inr ())))))))))))))"

definition ACTIONS_PRODUCER_VERSION :: string where
  "ACTIONS_PRODUCER_VERSION = ''p4b.corporate-actions.v1''"

definition action_wire :: "corporate_action \<Rightarrow> json" where
  "action_wire r =
     JObj [(''event_id'', JStr (ca_event_id r)),
           (''security_id'', JStr (ca_security_id r)),
           (''security_identity_hash'', JStr (ca_security_identity_hash r)),
           (''action_type'', JStr (action_type_value (ca_action_type r))),
           (''ratio'', ratio_wire (ca_ratio r)),
           (''declared_at'', JStr (utc_str (ca_declared_at r))),
           (''ex_date'', JStr (isoformat (ca_ex_date r))),
           (''effective_date'', JStr (isoformat (ca_effective_date r))),
           (''available_at'', JStr (utc_str (ca_available_at r))),
           (''state'', JStr (action_state_value (ca_state r))),
           (''source_refs'', JList (map source_ref_wire (ca_source_refs r))),
           (''schema_version'', JStr (ca_schema_version r)),
           (''producer_version'', JStr ACTIONS_PRODUCER_VERSION)]"

definition ACTION_HASH_DOMAIN :: string where
  "ACTION_HASH_DOMAIN = ''seven-lens.p4b.corporate-action.v1'' @ [CHR 0x00]"

definition action_compute_hash :: "digest \<Rightarrow> corporate_action \<Rightarrow> string" where
  "action_compute_hash sha256 r = sha256 (ACTION_HASH_DOMAIN @ dumps (action_wire r))"

definition action_verify_integrity :: "digest \<Rightarrow> corporate_action \<Rightarrow> unit outcome" where
  "action_verify_integrity sha256 r = require (ca_record_hash r = action_compute_hash sha256 r)"

definition action_post_init :: "digest \<Rightarrow> corporate_action \<Rightarrow> corporate_action outcome" where
  "action_post_init sha256 r =
     bindO (validate_action_fields r) (\<lambda>_.
     bindO (require (fullmatch HASH_TEXT (ca_record_hash r))) (\<lambda>_.
     bindO (action_verify_integrity sha256 r) (\<lambda>_. Inr r)))"

definition build_corporate_action_record :: "digest \<Rightarrow> corporate_action \<Rightarrow> corporate_action outcome" where
  "build_corporate_action_record sha256 r =
     bindO (validate_action_fields r) (\<lambda>_.
       action_post_init sha256 (r\<lparr>ca_record_hash := action_compute_hash sha256 r\<rparr>))"

definition action_known_at :: "corporate_action \<Rightarrow> utc \<Rightarrow> bool" where
  "action_known_at r cutoff \<longleftrightarrow> ca_available_at r \<le> cutoff"

section \<open>Transitions and lineages\<close>

definition same_event_facts :: "corporate_action \<Rightarrow> corporate_action \<Rightarrow> bool" where
  "same_event_facts p c \<longleftrightarrow>
     ca_security_id p = ca_security_id c \<and> ca_security_identity_hash p = ca_security_identity_hash c
     \<and> ca_action_type p = ca_action_type c \<and> ca_ratio p = ca_ratio c \<and> ca_declared_at p = ca_declared_at c
     \<and> ca_ex_date p = ca_ex_date c \<and> ca_effective_date p = ca_effective_date c"

definition validate_transition :: "digest \<Rightarrow> corporate_action \<Rightarrow> corporate_action \<Rightarrow> unit outcome" where
  "validate_transition sha256 previous candidate =
     bindO (action_verify_integrity sha256 previous) (\<lambda>_.
     bindO (action_verify_integrity sha256 candidate) (\<lambda>_.
     bindO (demand IllegalTransitionError (ca_event_id previous = ca_event_id candidate)) (\<lambda>_.
     bindO (demand IllegalTransitionError (same_event_facts previous candidate)) (\<lambda>_.
     bindO (demand IllegalTransitionError (is_legal_transition (ca_state previous) (ca_state candidate))) (\<lambda>_.
     demand IllegalTransitionError (\<not> ca_available_at candidate < ca_available_at previous))))))"

definition validate_lineage :: "digest \<Rightarrow> corporate_action list \<Rightarrow> corporate_action outcome" where
  "validate_lineage sha256 records =
     bindO (require (records \<noteq> [] \<and> length records \<le> MAX_LINEAGE_RECORDS)) (\<lambda>_.
     bindO (eachO (action_verify_integrity sha256) records) (\<lambda>_.
     bindO (demand IllegalTransitionError (ca_state (hd records) = CA_DETECTED)) (\<lambda>_.
     bindO (eachO (\<lambda>(earlier, later). validate_transition sha256 earlier later) (pairs records)) (\<lambda>_.
     Inr (last records)))))"

section \<open>Lemmas\<close>

lemma transition_ok_iff:
  "validate_transition sha p c = Inr u \<longleftrightarrow>
     action_verify_integrity sha p = Inr () \<and> action_verify_integrity sha c = Inr () \<and> ca_event_id p = ca_event_id c
     \<and> same_event_facts p c \<and> is_legal_transition (ca_state p) (ca_state c) \<and> ca_available_at p \<le> ca_available_at c"
  by (auto simp: validate_transition_def bindO_eq_Inr)

lemma lineage_ok_iff:
  "validate_lineage sha rs = Inr h \<longleftrightarrow>
     rs \<noteq> [] \<and> length rs \<le> MAX_LINEAGE_RECORDS \<and> list_all (\<lambda>r. action_verify_integrity sha r = Inr ()) rs
     \<and> ca_state (hd rs) = CA_DETECTED \<and> successively (\<lambda>p c. validate_transition sha p c = Inr ()) rs \<and> h = last rs"
  by (auto simp: validate_lineage_def bindO_eq_Inr eachO_eq_Inr case_prod_beta
      pairs_successively [of "\<lambda>p c. validate_transition sha p c = Inr ()"])

text \<open>Along a legal lineage the facts stay and time does not go back.\<close>

lemma lineage_facts:
  assumes "successively (\<lambda>p c. validate_transition sha p c = Inr ()) rs" "p = rs ! i" "c = rs ! j" "i \<le> j" "j < length rs"
  shows "ca_event_id p = ca_event_id c" "same_event_facts p c" "ca_available_at p \<le> ca_available_at c"
proof -
  let ?R = "\<lambda>p c. ca_event_id p = ca_event_id c \<and> same_event_facts p c \<and> ca_available_at p \<le> ca_available_at c"
  have "successively ?R rs"
    using assms(1) by (rule successively_mono) (auto simp: transition_ok_iff)
  moreover have "transp ?R" by (auto simp: transp_def same_event_facts_def)
  ultimately have "sorted_wrt ?R rs" by (simp add: successively_conv_sorted_wrt)
  then have "?R p c" using assms(2-5) by (cases "i = j") (auto simp: sorted_wrt_iff_nth_less same_event_facts_def)
  then show "ca_event_id p = ca_event_id c" "same_event_facts p c" "ca_available_at p \<le> ca_available_at c" by simp_all
qed

lemma terminal_has_no_successor: "is_terminal s \<longleftrightarrow> (\<nexists>t. is_legal_transition s t)"
  by (cases s) (auto simp: is_terminal_def TERMINAL_STATES_def is_legal_transition_def ALLOWED_TRANSITIONS_def)

text \<open>The ratio built from a fraction or a decimal is the same rational in lowest terms.\<close>

lemma ratio_from_fraction_exact:
  assumes "0 < n" "0 < d"
  shows "\<exists>r. ratio_from_fraction n d = Inr r \<and> ratio_numerator r * d = n * ratio_denominator r
    \<and> gcd (ratio_numerator r) (ratio_denominator r) = 1 \<and> 0 < ratio_numerator r \<and> 0 < ratio_denominator r"
proof -
  let ?g = "gcd n d"
  have g: "0 < ?g" using assms by (simp add: gcd_pos_int)
  obtain a b where ab: "n = a * ?g" "d = b * ?g" "coprime a b"
    using gcd_coprime_exists [of n d] g by auto
  with g assms have "n div ?g = a" "d div ?g = b" "0 < a" "0 < b"
    by (metis nonzero_mult_div_cancel_right less_irrefl zero_less_mult_pos2)+
  with ab assms show ?thesis
    by (simp add: ratio_from_fraction_def SplitRatio_def Let_def coprime_iff_gcd_eq_1)
       (metis mult.assoc mult.commute)
qed

interpretation action_seal: hash_bound "\<lambda>r. Inr (action_compute_hash sha r)" ca_record_hash "\<lambda>h r. r\<lparr>ca_record_hash := h\<rparr>" "action_verify_integrity sha" for sha
  by unfold_locales (simp_all add: action_verify_integrity_def action_compute_hash_def action_wire_def)

end
