(* ===== verification/Identity_Resolution.thy ===== *)
theory Identity_Resolution
  imports Security_Contracts
begin

text \<open>
  \<open>securities/identity.py\<close>: the answer to one point-in-time query over the identity records,
  and what it means: the definitions follow the code's dictionaries and sorts, and the lemmas
  relate them to a statement about the set of records.
\<close>

section \<open>Queries\<close>

definition MAX_RESOLUTION_RECORDS :: nat where "MAX_RESOLUTION_RECORDS = 4096"

datatype identity_resolution_status = ID_RESOLVED | ID_UNKNOWN | ID_AMBIGUOUS | ID_CONFLICT | ID_STALE

record identity_query =
  iq_as_of :: utc
  iq_known_at :: utc
  iq_security_id :: "string option"
  iq_symbol :: "string option"

definition identity_query_post_init :: "identity_query \<Rightarrow> identity_query outcome" where
  "identity_query_post_init q =
     bindO (require (\<not> (iq_security_id q = None \<and> iq_symbol q = None))) (\<lambda>_.
     bindO (require (optional_matches SECURITY_ID (iq_security_id q))) (\<lambda>_.
     bindO (require (optional_matches SECURITY_SYMBOL (iq_symbol q))) (\<lambda>_. Inr q)))"

record identity_resolution =
  res_status :: identity_resolution_status
  res_record :: "identity_record option"

definition unresolved :: "identity_resolution_status \<Rightarrow> identity_resolution" where
  "unresolved st = \<lparr>res_status = st, res_record = None\<rparr>"

section \<open>Resolution\<close>

definition matches_key :: "identity_record \<Rightarrow> identity_query \<Rightarrow> bool" where
  "matches_key r q \<longleftrightarrow>
     (case iq_security_id q of
        Some sid \<Rightarrow> ir_security_id r = sid
      | None \<Rightarrow> Some (ir_symbol r) = iq_symbol q)"

type_synonym interval_key = "string \<times> string \<times> string option"

definition interval_key :: "identity_record \<Rightarrow> interval_key" where
  "interval_key r = (ir_security_id r, utc_str (ir_valid_from r), map_option utc_str (ir_valid_to r))"

text \<open>\<open>groups.setdefault(key, []).append(x)\<close> over a sequence.\<close>

fun add_to_group :: "'k \<Rightarrow> 'a \<Rightarrow> ('k \<times> 'a list) list \<Rightarrow> ('k \<times> 'a list) list" where
  "add_to_group k x [] = [(k, [x])]"
| "add_to_group k x ((k', xs) # gs) = (if k' = k then (k', xs @ [x]) # gs else (k', xs) # add_to_group k x gs)"

definition group_by :: "('a \<Rightarrow> 'k) \<Rightarrow> 'a list \<Rightarrow> ('k \<times> 'a list) list" where
  "group_by key xs = foldl (\<lambda>gs x. add_to_group (key x) x gs) [] xs"

text \<open>\<open>{record.identity_hash: record for record in group}.values()\<close>.\<close>

definition unique_by_hash :: "identity_record list \<Rightarrow> identity_record list" where
  "unique_by_hash rows = map snd (foldl (\<lambda>d r. dict_set (ir_identity_hash r) r d) [] rows)"

definition group_head :: "identity_record list \<Rightarrow> identity_record option" where
  "group_head rows =
     (let unique = unique_by_hash rows in
      if length unique = 1 then Some (hd unique)
      else let latest = Max (ir_available_at ` set unique);
               contenders = filter (\<lambda>r. ir_available_at r = latest) unique
           in if length contenders \<noteq> 1 then None else Some (hd contenders))"

fun collect_heads :: "identity_record list list \<Rightarrow> identity_record list option" where
  "collect_heads [] = Some []"
| "collect_heads (g # gs) =
     (case group_head g of
        None \<Rightarrow> None
      | Some h \<Rightarrow> (case collect_heads gs of None \<Rightarrow> None | Some hs \<Rightarrow> Some (h # hs)))"

definition supersession_heads :: "identity_record list \<Rightarrow> identity_record list option" where
  "supersession_heads visible = collect_heads (map snd (group_by interval_key visible))"

definition any_interval_conflict :: "identity_record list \<Rightarrow> bool" where
  "any_interval_conflict heads =
     list_ex (\<lambda>(_, rows). list_ex (\<lambda>(earlier, later). intervals_overlap (interval_of earlier) (interval_of later))
       (pairs (sort_key ir_valid_from rows))) (group_by ir_security_id heads)"

definition resolve_identity :: "digest \<Rightarrow> identity_record list \<Rightarrow> identity_query \<Rightarrow> identity_resolution outcome" where
  "resolve_identity sha256 records query =
     bindO (require (length records \<le> MAX_RESOLUTION_RECORDS)) (\<lambda>_.
     bindO (eachO (identity_verify_integrity sha256) records) (\<lambda>_.
     let scoped = filter (\<lambda>r. matches_key r query) records in
     if scoped = [] then Inr (unresolved ID_UNKNOWN)
     else let visible = filter (\<lambda>r. identity_known_at r (iq_known_at query)) scoped in
     if visible = [] then Inr (unresolved ID_STALE)
     else case supersession_heads visible of
       None \<Rightarrow> Inr (unresolved ID_CONFLICT)
     | Some heads \<Rightarrow>
         if any_interval_conflict heads then Inr (unresolved ID_CONFLICT)
         else let valid = filter (\<lambda>r. identity_valid_at r (iq_as_of query)) heads in
           if valid = [] then Inr (unresolved ID_UNKNOWN)
           else if \<not> distinct (map ir_security_id valid) then Inr (unresolved ID_CONFLICT)
           else if length valid > 1 then Inr (unresolved ID_AMBIGUOUS)
           else Inr \<lparr>res_status = ID_RESOLVED, res_record = Some (hd valid)\<rparr>))"

section \<open>Grouping\<close>

lemma group_by_snoc: "group_by key (xs @ [x]) = add_to_group (key x) x (group_by key xs)"
  by (simp add: group_by_def)

lemma add_to_group_keys: "fst ` set (add_to_group k x gs) = insert k (fst ` set gs)"
  by (induction k x gs rule: add_to_group.induct) auto

lemma add_to_group_distinct: "distinct (map fst gs) \<Longrightarrow> distinct (map fst (add_to_group k x gs))"
  by (induction k x gs rule: add_to_group.induct) (auto simp: add_to_group_keys)

lemma add_to_group_map_of:
  "map_of (add_to_group k x gs) k' = (if k' = k then Some ((case map_of gs k of None \<Rightarrow> [] | Some xs \<Rightarrow> xs) @ [x]) else map_of gs k')"
  by (induction k x gs rule: add_to_group.induct) auto

lemma group_by_distinct: "distinct (map fst (group_by key xs))"
  by (induction xs rule: rev_induct) (simp_all add: group_by_snoc add_to_group_distinct, simp add: group_by_def)

lemma group_by_map_of:
  "map_of (group_by key xs) k = (if k \<in> key ` set xs then Some (filter (\<lambda>x. key x = k) xs) else None)"
proof (induction xs rule: rev_induct)
  case (snoc x xs)
  have "filter (\<lambda>y. key y = key x) xs = []" if "key x \<notin> key ` set xs"
    using that by (simp add: filter_empty_conv) (metis imageI)
  with snoc show ?case by (auto simp: group_by_snoc add_to_group_map_of)
qed (simp add: group_by_def)

text \<open>The groups are the records with one key, one group per key.\<close>

lemma group_by_set: "(k, g) \<in> set (group_by key xs) \<longleftrightarrow> k \<in> key ` set xs \<and> g = filter (\<lambda>x. key x = k) xs"
proof -
  have "(k, g) \<in> set (group_by key xs) \<longleftrightarrow> map_of (group_by key xs) k = Some g"
    using map_of_eq_Some_iff [OF group_by_distinct] by metis
  then show ?thesis by (auto simp: group_by_map_of)
qed

section \<open>Supersession\<close>

lemma unique_by_hash:
  assumes "inj_on ir_identity_hash (set rows)"
  shows "set (unique_by_hash rows) = set rows \<and> distinct (unique_by_hash rows)"
proof -
  let ?f = "\<lambda>d r. dict_set (ir_identity_hash r) r d"
  have "set (foldl ?f [] rows) = (\<lambda>r. (ir_identity_hash r, r)) ` set rows \<and> distinct (map fst (foldl ?f [] rows))"
    using assms
  proof (induction rows rule: rev_induct)
    case (snoc r rows)
    then have "set (foldl ?f [] rows) = (\<lambda>r. (ir_identity_hash r, r)) ` set rows" "distinct (map fst (foldl ?f [] rows))"
      by (auto simp: inj_on_def)
    with snoc.prems show ?case by (auto simp: dict_set_set dict_set_distinct inj_on_def)
  qed simp
  then show ?thesis unfolding unique_by_hash_def by (auto simp: image_image distinct_map inj_on_def)
qed

text \<open>The head of a lineage is its strictly latest row.\<close>

definition latest_in :: "identity_record set \<Rightarrow> identity_record \<Rightarrow> bool" where
  "latest_in R h \<longleftrightarrow> h \<in> R \<and> (\<forall>r\<in>R. r \<noteq> h \<longrightarrow> ir_available_at r < ir_available_at h)"

lemma singleton_list: "distinct xs \<Longrightarrow> set xs = {h} \<Longrightarrow> xs = [h]"
  by (cases xs; cases "tl xs") auto

lemma group_head_iff:
  assumes "inj_on ir_identity_hash (set rows)" "rows \<noteq> []"
  shows "group_head rows = Some h \<longleftrightarrow> latest_in (set rows) h"
proof -
  define u where "u = unique_by_hash rows"
  define m where "m = Max (ir_available_at ` set u)"
  have u: "set u = set rows" "distinct u" using unique_by_hash [OF assms(1)] by (simp_all add: u_def)
  have max: "ir_available_at r \<le> m" if "r \<in> set rows" for r using that u by (simp add: m_def)
  have head: "group_head rows = (if length u = 1 then Some (hd u)
      else let c = filter (\<lambda>r. ir_available_at r = m) u in if length c \<noteq> 1 then None else Some (hd c))"
    by (simp add: group_head_def u_def m_def Let_def)
  show ?thesis
  proof
    assume some: "group_head rows = Some h"
    show "latest_in (set rows) h"
    proof (cases "length u = 1")
      case True
      then have "u = [h]" using some by (auto simp: head length_Suc_conv)
      then show ?thesis using u by (auto simp: latest_in_def)
    next
      case False
      then have "filter (\<lambda>r. ir_available_at r = m) u = [h]"
        using some by (auto simp: head Let_def length_Suc_conv split: if_splits)
      then have "set (filter (\<lambda>r. ir_available_at r = m) u) = {h}" by simp
      then have "h \<in> set u \<and> ir_available_at h = m" "r \<in> set u \<Longrightarrow> ir_available_at r = m \<Longrightarrow> r = h" for r by auto
      then show ?thesis using max u by (auto simp: latest_in_def less_le)
    qed
  next
    assume h: "latest_in (set rows) h"
    then have "m = ir_available_at h" using u by (auto simp: latest_in_def m_def intro!: Max_eqI intro: less_imp_le)
    then have "set (filter (\<lambda>r. ir_available_at r = m) u) = {h}" using h u by (auto simp: latest_in_def)
    then have "filter (\<lambda>r. ir_available_at r = m) u = [h]" using u by (intro singleton_list) auto
    moreover have "h \<in> set u" using h u by (simp add: latest_in_def)
    then have "u = [h]" if "length u = 1" using that by (auto simp: length_Suc_conv)
    ultimately show "group_head rows = Some h" by (auto simp: head)
  qed
qed

lemma collect_heads_iff: "collect_heads gs = Some hs \<longleftrightarrow> list_all2 (\<lambda>g h. group_head g = Some h) gs hs"
proof (induction gs arbitrary: hs)
  case (Cons g gs)
  then show ?case by (cases "group_head g"; cases "collect_heads gs") (auto simp: list_all2_Cons1)
qed auto

lemma collect_heads_None: "collect_heads gs = None \<longleftrightarrow> (\<exists>g\<in>set gs. group_head g = None)"
  by (induction gs) (auto split: option.splits)

text \<open>The current rows of a set of records: those that are strictly latest among the rows of their interval.\<close>

definition current_rows :: "identity_record set \<Rightarrow> identity_record set" where
  "current_rows R = {h. latest_in {r \<in> R. interval_key r = interval_key h} h}"

lemma heads_are_current:
  assumes inj: "inj_on ir_identity_hash (set visible)"
  shows "supersession_heads visible = Some hs \<Longrightarrow> set hs = current_rows (set visible) \<and> distinct (map interval_key hs)"
    and "supersession_heads visible = None \<longleftrightarrow> (\<exists>x\<in>set visible. \<forall>h\<in>current_rows (set visible). interval_key h \<noteq> interval_key x)"
proof -
  let ?rows = "\<lambda>k. filter (\<lambda>r. interval_key r = k) visible"
  have head: "group_head (?rows k) = Some h \<longleftrightarrow> h \<in> current_rows (set visible) \<and> interval_key h = k"
    if "k \<in> interval_key ` set visible" for k h
  proof -
    have "inj_on ir_identity_hash (set (?rows k))" using inj by (auto simp: inj_on_def)
    moreover have "?rows k \<noteq> []" using that by (auto simp: filter_empty_conv)
    ultimately show ?thesis by (auto simp: group_head_iff current_rows_def latest_in_def)
  qed
  have keys: "fst ` set (group_by interval_key visible) = interval_key ` set visible"
  proof (rule set_eqI)
    show "k \<in> fst ` set (group_by interval_key visible) \<longleftrightarrow> k \<in> interval_key ` set visible" for k
      using map_of_eq_None_iff [of "group_by interval_key visible" k] unfolding group_by_map_of by (simp split: if_splits)
  qed
  show "supersession_heads visible = None \<longleftrightarrow> (\<exists>x\<in>set visible. \<forall>h\<in>current_rows (set visible). interval_key h \<noteq> interval_key x)"
  proof -
    have "supersession_heads visible = None \<longleftrightarrow> (\<exists>k\<in>interval_key ` set visible. group_head (?rows k) = None)"
    proof -
      have "set (map snd (group_by interval_key visible)) = ?rows ` interval_key ` set visible"
      proof (rule set_eqI)
        fix g
        have "g \<in> set (map snd (group_by interval_key visible)) \<longleftrightarrow> (\<exists>k. (k, g) \<in> set (group_by interval_key visible))" by force
        also have "\<dots> \<longleftrightarrow> g \<in> ?rows ` interval_key ` set visible" by (simp only: group_by_set image_iff) blast
        finally show "g \<in> set (map snd (group_by interval_key visible)) \<longleftrightarrow> g \<in> ?rows ` interval_key ` set visible" .
      qed
      then show ?thesis unfolding supersession_heads_def collect_heads_None by simp
    qed
    also have "\<dots> \<longleftrightarrow> (\<exists>x\<in>set visible. \<forall>h\<in>current_rows (set visible). interval_key h \<noteq> interval_key x)"
      using head by (auto simp: not_Some_eq [symmetric])
    finally show ?thesis .
  qed
  assume "supersession_heads visible = Some hs"
  then have all: "list_all2 (\<lambda>g h. group_head g = Some h) (map snd (group_by interval_key visible)) hs"
    by (simp add: supersession_heads_def collect_heads_iff)
  have pair: "list_all2 (\<lambda>(k, g) h. interval_key h = k \<and> h \<in> current_rows (set visible)) (group_by interval_key visible) hs"
  proof (rule list_all2_all_nthI)
    show "length (group_by interval_key visible) = length hs" using list_all2_lengthD [OF all] by simp
    fix i
    assume i: "i < length (group_by interval_key visible)"
    obtain k g where kg: "group_by interval_key visible ! i = (k, g)" by fastforce
    then have "(k, g) \<in> set (group_by interval_key visible)" using nth_mem [OF i] by simp
    then have "k \<in> interval_key ` set visible" "g = ?rows k" by (simp_all only: group_by_set)
    moreover have "group_head g = Some (hs ! i)" using list_all2_nthD [OF all, of i] i kg by simp
    ultimately show "(case group_by interval_key visible ! i of (k, g) \<Rightarrow> \<lambda>h. interval_key h = k \<and> h \<in> current_rows (set visible)) (hs ! i)"
      using head kg by simp
  qed
  then have map: "map interval_key hs = map fst (group_by interval_key visible)"
    by (intro nth_equalityI) (auto simp: list_all2_conv_all_nth split_beta)
  have "h \<in> set hs" if h: "h \<in> current_rows (set visible)" for h
  proof -
    have "interval_key h \<in> interval_key ` set visible" using h by (auto simp: current_rows_def latest_in_def)
    then obtain h' where h': "h' \<in> set hs" "interval_key h' = interval_key h"
      using keys map by (metis (no_types, lifting) image_iff list.set_map)
    moreover have "h' \<in> current_rows (set visible)"
      using pair h'(1) by (auto simp: list_all2_conv_all_nth in_set_conv_nth split_beta)
    ultimately have "h' = h" using h by (auto simp: current_rows_def latest_in_def dest: less_asym)
    then show ?thesis using h'(1) by simp
  qed
  moreover have "h \<in> current_rows (set visible)" if "h \<in> set hs" for h
    using pair that by (auto simp: list_all2_conv_all_nth in_set_conv_nth split_beta)
  ultimately show "set hs = current_rows (set visible) \<and> distinct (map interval_key hs)"
    using map group_by_distinct [of interval_key visible] by auto
qed

section \<open>Overlapping intervals\<close>

lemma sorted_disjoint:
  assumes "sorted (map ir_valid_from rows)" "\<forall>r\<in>set rows. interval_ok (interval_of r)"
    and "successively (\<lambda>a b. \<not> intervals_overlap (interval_of a) (interval_of b)) rows"
  shows "sorted_wrt (\<lambda>a b. \<not> intervals_overlap (interval_of a) (interval_of b)) rows"
proof -
  let ?before = "\<lambda>a b. case ir_valid_to a of None \<Rightarrow> False | Some t \<Rightarrow> t \<le> ir_valid_from b"
  have step: "?before a b" if "ir_valid_from a \<le> ir_valid_from b" "interval_ok (interval_of a)" "interval_ok (interval_of b)"
      "\<not> intervals_overlap (interval_of a) (interval_of b)" for a b
    using that by (auto simp: intervals_overlap_def interval_of_def split: option.splits if_splits)
  have "successively (\<lambda>a b. ir_valid_from a \<le> ir_valid_from b) rows"
    using assms(1) by (auto simp: sorted_map intro: successively_if_sorted_wrt)
  with assms(2,3) have "successively (\<lambda>a b. ?before a b \<and> interval_ok (interval_of a) \<and> interval_ok (interval_of b)) rows"
  proof (induction rows rule: pairs.induct)
    case (1 x y xs)
    then show ?case using step [of x y] by auto
  qed simp_all
  moreover have "transp (\<lambda>a b. ?before a b \<and> interval_ok (interval_of a) \<and> interval_ok (interval_of b))"
    by (auto simp: transp_def interval_of_def split: option.splits)
  ultimately have "sorted_wrt (\<lambda>a b. ?before a b \<and> interval_ok (interval_of a) \<and> interval_ok (interval_of b)) rows"
    by (simp add: successively_conv_sorted_wrt)
  then show ?thesis
    by (rule sorted_wrt_mono_rel [rotated]) (auto simp: intervals_overlap_def interval_of_def split: option.splits)
qed

lemma sorted_wrt_distinct_sym:
  assumes "distinct xs" "\<And>a b. a \<in> set xs \<Longrightarrow> b \<in> set xs \<Longrightarrow> P a b = P b a"
  shows "sorted_wrt P xs \<longleftrightarrow> (\<forall>a\<in>set xs. \<forall>b\<in>set xs. a \<noteq> b \<longrightarrow> P a b)"
  using assms
proof (induction xs)
  case (Cons x xs)
  then have "sorted_wrt P xs \<longleftrightarrow> (\<forall>a\<in>set xs. \<forall>b\<in>set xs. a \<noteq> b \<longrightarrow> P a b)" by simp
  with Cons.prems show ?case by auto
qed simp

text \<open>Looking at neighbours only, in order of their start, finds every overlap within a security.\<close>

lemma interval_conflict_iff:
  assumes ok: "\<forall>r\<in>set hs. interval_ok (interval_of r)" and "distinct hs"
  shows "any_interval_conflict hs \<longleftrightarrow>
    (\<exists>a\<in>set hs. \<exists>b\<in>set hs. a \<noteq> b \<and> ir_security_id a = ir_security_id b \<and> intervals_overlap (interval_of a) (interval_of b))"
proof -
  let ?ov = "\<lambda>a b. intervals_overlap (interval_of a) (interval_of b)"
  let ?sorted = "\<lambda>k. sort_key ir_valid_from (filter (\<lambda>r. ir_security_id r = k) hs)"
  have quiet: "list_ex (\<lambda>(a, b). ?ov a b) (pairs (?sorted k)) \<longleftrightarrow>
      (\<exists>a\<in>set hs. \<exists>b\<in>set hs. a \<noteq> b \<and> ir_security_id a = k \<and> ir_security_id b = k \<and> ?ov a b)" (is "?l = ?r") for k
  proof -
    have mem: "set (?sorted k) = {r \<in> set hs. ir_security_id r = k}" "distinct (?sorted k)" using assms(2) by auto
    have "?l \<longleftrightarrow> \<not> successively (\<lambda>a b. \<not> ?ov a b) (?sorted k)"
      using pairs_successively [of "\<lambda>a b. \<not> ?ov a b" "?sorted k"] by (auto simp: list_ex_iff list_all_iff case_prod_beta)
    also have "successively (\<lambda>a b. \<not> ?ov a b) (?sorted k) \<longleftrightarrow> sorted_wrt (\<lambda>a b. \<not> ?ov a b) (?sorted k)"
      using sorted_disjoint [of "?sorted k"] ok mem(1) successively_if_sorted_wrt by auto
    also have "\<dots> \<longleftrightarrow> \<not> ?r"
    proof -
      have "(\<not> ?ov a b) = (\<not> ?ov b a)" if "a \<in> set (?sorted k)" "b \<in> set (?sorted k)" for a b
        using overlap_sym that ok mem(1) by auto
      then show ?thesis using sorted_wrt_distinct_sym [OF mem(2), of "\<lambda>a b. \<not> ?ov a b"] mem(1) by auto
    qed
    finally show ?thesis by (simp only: not_not)
  qed
  have "any_interval_conflict hs \<longleftrightarrow> (\<exists>k\<in>ir_security_id ` set hs. list_ex (\<lambda>(a, b). ?ov a b) (pairs (?sorted k)))"
  proof -
    have "any_interval_conflict hs \<longleftrightarrow>
        (\<exists>k g. (k, g) \<in> set (group_by ir_security_id hs) \<and> list_ex (\<lambda>(a, b). ?ov a b) (pairs (sort_key ir_valid_from g)))"
      unfolding any_interval_conflict_def by (auto simp: list_ex_iff)
    then show ?thesis by (auto simp: group_by_set)
  qed
  then show ?thesis unfolding quiet by (auto 0 3)
qed

section \<open>What resolution means\<close>

text \<open>
  The answer as a function of the set of records: of the rows that match and were known, the
  current ones are those strictly latest for their interval; the query is answered when every
  interval has a current row, no two of one security overlap, and exactly one is valid at the
  instant asked for.
\<close>

definition known_rows :: "identity_record set \<Rightarrow> identity_query \<Rightarrow> identity_record set" where
  "known_rows R q = {r \<in> R. matches_key r q \<and> identity_known_at r (iq_known_at q)}"

definition overlapping :: "identity_record set \<Rightarrow> bool" where
  "overlapping C \<longleftrightarrow> (\<exists>a\<in>C. \<exists>b\<in>C. a \<noteq> b \<and> ir_security_id a = ir_security_id b
     \<and> intervals_overlap (interval_of a) (interval_of b))"

definition resolution_spec :: "identity_record set \<Rightarrow> identity_query \<Rightarrow> identity_resolution" where
  "resolution_spec R q =
     (let V = known_rows R q; C = current_rows V; A = {r \<in> C. identity_valid_at r (iq_as_of q)} in
      if {r \<in> R. matches_key r q} = {} then unresolved ID_UNKNOWN
      else if V = {} then unresolved ID_STALE
      else if (\<exists>x\<in>V. \<forall>h\<in>C. interval_key h \<noteq> interval_key x) \<or> overlapping C then unresolved ID_CONFLICT
      else if A = {} then unresolved ID_UNKNOWN
      else if card A > 1 then unresolved ID_AMBIGUOUS
      else \<lparr>res_status = ID_RESOLVED, res_record = Some (the_elem A)\<rparr>)"

lemma valid_rows_distinct:
  assumes "\<not> overlapping (set hs)" "distinct hs" "\<forall>r\<in>set hs. interval_ok (interval_of r)"
  shows "distinct (map ir_security_id (filter (\<lambda>r. identity_valid_at r t) hs))"
proof -
  have "a = b" if "a \<in> set hs" "b \<in> set hs" "identity_valid_at a t" "identity_valid_at b t" "ir_security_id a = ir_security_id b" for a b
  proof (rule ccontr)
    assume "a \<noteq> b"
    moreover have "intervals_overlap (interval_of a) (interval_of b)"
      using overlap_iff assms(3) that by (auto simp: identity_valid_at_def)
    ultimately show False using assms(1) that by (auto simp: overlapping_def)
  qed
  then show ?thesis using assms(2) by (auto simp: distinct_map inj_on_def)
qed

lemma resolve_identity_spec:
  assumes "length records \<le> MAX_RESOLUTION_RECORDS" "list_all (\<lambda>r. identity_verify_integrity sha r = Inr ()) records"
    and inj: "inj_on ir_identity_hash (set records)" and ok: "\<forall>r\<in>set records. interval_ok (interval_of r)"
  shows "resolve_identity sha records q = Inr (resolution_spec (set records) q)"
proof -
  define visible where "visible = filter (\<lambda>r. identity_known_at r (iq_known_at q)) (filter (\<lambda>r. matches_key r q) records)"
  have V: "set visible = known_rows (set records) q" by (auto simp: visible_def known_rows_def)
  let ?C = "current_rows (set visible)"
  have checks: "require (length records \<le> MAX_RESOLUTION_RECORDS) = Inr ()" "eachO (identity_verify_integrity sha) records = Inr ()"
    using assms(1,2) by (simp_all add: eachO_eq_Inr)
  have scoped: "filter (\<lambda>r. matches_key r q) records = [] \<longleftrightarrow> {r \<in> set records. matches_key r q} = {}"
    by (auto simp: filter_empty_conv)
  have empty: "visible = [] \<longleftrightarrow> set visible = {}" by simp
  have inj': "inj_on ir_identity_hash (set visible)" using inj by (rule inj_on_subset) (auto simp: visible_def)
  note heads = heads_are_current [OF inj']
  have found: "(case supersession_heads visible of None \<Rightarrow> Inr (unresolved ID_CONFLICT) | Some heads \<Rightarrow>
         if any_interval_conflict heads then Inr (unresolved ID_CONFLICT)
         else let valid = filter (\<lambda>r. identity_valid_at r (iq_as_of q)) heads in
           if valid = [] then Inr (unresolved ID_UNKNOWN)
           else if \<not> distinct (map ir_security_id valid) then Inr (unresolved ID_CONFLICT)
           else if length valid > 1 then Inr (unresolved ID_AMBIGUOUS)
           else Inr \<lparr>res_status = ID_RESOLVED, res_record = Some (hd valid)\<rparr>)
      = Inr (let A = {r \<in> ?C. identity_valid_at r (iq_as_of q)} in
          if (\<exists>x\<in>set visible. \<forall>h\<in>?C. interval_key h \<noteq> interval_key x) \<or> overlapping ?C then unresolved ID_CONFLICT
          else if A = {} then unresolved ID_UNKNOWN
          else if card A > 1 then unresolved ID_AMBIGUOUS
          else \<lparr>res_status = ID_RESOLVED, res_record = Some (the_elem A)\<rparr>)"
  proof (cases "supersession_heads visible")
    case None
    then show ?thesis using heads(2) by (simp add: Let_def)
  next
    case (Some hs)
    define valid where "valid = filter (\<lambda>r. identity_valid_at r (iq_as_of q)) hs"
    have hs: "set hs = ?C" "distinct hs" using heads(1) [OF Some] by (auto simp: distinct_map)
    have rows_ok: "\<forall>r\<in>set hs. interval_ok (interval_of r)"
      using ok unfolding hs(1) by (auto simp: current_rows_def latest_in_def visible_def)
    have conflict: "any_interval_conflict hs \<longleftrightarrow> overlapping ?C"
      using interval_conflict_iff [OF rows_ok hs(2)] by (simp add: overlapping_def hs(1))
    have set_valid: "set valid = {r \<in> ?C. identity_valid_at r (iq_as_of q)}" "distinct valid"
      using hs by (auto simp: valid_def)
    then have len: "length valid = card {r \<in> ?C. identity_valid_at r (iq_as_of q)}" by (metis distinct_card)
    have "hd valid = the_elem {r \<in> ?C. identity_valid_at r (iq_as_of q)}" if "length valid = 1"
      unfolding set_valid(1) [symmetric] using that by (auto simp: length_Suc_conv)
    moreover have "distinct (map ir_security_id valid)" if "\<not> overlapping ?C"
      using valid_rows_distinct [of hs] that hs rows_ok by (simp add: valid_def)
    moreover have "\<exists>x\<in>set visible. \<forall>h\<in>?C. interval_key h \<noteq> interval_key x \<Longrightarrow> False" using heads(2) Some by simp
    moreover have "valid = [] \<longleftrightarrow> {r \<in> ?C. identity_valid_at r (iq_as_of q)} = {}" using set_valid(1) by (metis set_empty)
    moreover have "length valid = 1" if "\<not> length valid > 1" "valid \<noteq> []" using that by (cases valid) auto
    ultimately show ?thesis
      using len conflict unfolding Some option.case valid_def [symmetric] Let_def by auto
  qed
  show ?thesis
    unfolding resolve_identity_def checks bindO_simps Let_def visible_def [symmetric] found [unfolded Let_def]
      resolution_spec_def V [symmetric] scoped empty
    by (simp only: if_distrib [of Inr])
qed

end
