(* ===== verification/Source_Records.thy ===== *)
theory Source_Records
  imports Security_Contracts
begin

text \<open>
  The source records of \<open>sources/adapters/records.py\<close> as far as the security master reads
  them, with the pinned dimensions of \<open>sources/roles.py\<close>, and the append-only log of
  \<open>sources/adapters/in_memory_p4_records.py\<close>. A payload is the object its canonical text
  denotes: the payload class decodes it anew for every reader.
\<close>

section \<open>Records\<close>

fun pinned_role :: "p4_source_family \<Rightarrow> string" where
  "pinned_role ALPACA_CORPORATE_ACTIONS = ''CONFIRMATION''"
| "pinned_role ISSUER_IR = ''CONFIRMATION''"
| "pinned_role TAVILY = ''DISCOVERY''"
| "pinned_role GDELT = ''DISCOVERY''"
| "pinned_role YFINANCE = ''RESEARCH_SUPPLEMENT''"
| "pinned_role _ = ''AUTHORITY''"

fun pinned_coverage :: "p4_source_family \<Rightarrow> string" where
  "pinned_coverage ALPACA_IEX_QUOTES = ''LIMITED_MARKET_COVERAGE''"
| "pinned_coverage _ = ''FULL''"

fun policy_rights :: "p4_source_family \<Rightarrow> string" where
  "policy_rights YFINANCE = ''UNKNOWN''"
| "policy_rights _ = ''ALLOWED''"

record source_record =
  nr_record_id :: string
  nr_family :: p4_source_family
  nr_endpoint_id :: string
  nr_schema_version :: string
  nr_content_hash :: string
  nr_record_hash :: string
  nr_retrieved_at :: utc
  nr_payload :: "(string \<times> json) list"
  nr_material_claim :: bool
  nr_observation_at :: "utc option"
  nr_published_at :: "utc option"
  nr_available_at :: "utc option"
  nr_effective_at :: "utc option"
  nr_vintage :: "(string \<times> string) option"
  nr_supersedes_content_hash :: "string option"
  nr_coverage_warning :: "string option"

definition source_record_wire :: "source_record \<Rightarrow> json" where
  "source_record_wire r =
     JObj [(''record_id'', JStr (nr_record_id r)),
           (''family'', JStr (family_value (nr_family r))),
           (''endpoint_id'', JStr (nr_endpoint_id r)),
           (''schema_version'', JStr (nr_schema_version r)),
           (''content_hash'', JStr (nr_content_hash r)),
           (''retrieved_at'', JStr (utc_str (nr_retrieved_at r))),
           (''role'', JStr (pinned_role (nr_family r))),
           (''coverage'', JStr (pinned_coverage (nr_family r))),
           (''rights'', JStr (policy_rights (nr_family r))),
           (''producer_version'', JStr ''p4a.adapters.v1''),
           (''payload'', JObj (nr_payload r)),
           (''material_claim'', JBool (nr_material_claim r)),
           (''observation_at'', optional_text (map_option utc_str (nr_observation_at r))),
           (''published_at'', optional_text (map_option utc_str (nr_published_at r))),
           (''available_at'', optional_text (map_option utc_str (nr_available_at r))),
           (''effective_at'', optional_text (map_option utc_str (nr_effective_at r))),
           (''vintage'', (case nr_vintage r of None \<Rightarrow> JNull | Some (a, b) \<Rightarrow> JList [JStr a, JStr b])),
           (''supersedes_content_hash'', optional_text (nr_supersedes_content_hash r)),
           (''coverage_warning'', optional_text (nr_coverage_warning r))]"

definition SOURCE_HASH_DOMAIN :: string where
  "SOURCE_HASH_DOMAIN = ''seven-lens.p4.source-record.v1'' @ [CHR 0x00]"

definition source_record_compute_hash :: "digest \<Rightarrow> source_record \<Rightarrow> string" where
  "source_record_compute_hash sha256 r = sha256 (SOURCE_HASH_DOMAIN @ dumps (source_record_wire r))"

definition source_record_verify_integrity :: "digest \<Rightarrow> source_record \<Rightarrow> unit outcome" where
  "source_record_verify_integrity sha256 r = require (nr_record_hash r = source_record_compute_hash sha256 r)"

text \<open>\<open>record.available_at or record.retrieved_at\<close>.\<close>

definition availability :: "source_record \<Rightarrow> utc" where
  "availability r = (case nr_available_at r of None \<Rightarrow> nr_retrieved_at r | Some t \<Rightarrow> t)"

section \<open>The log\<close>

datatype append_outcome = APPENDED | IDEMPOTENT_DUPLICATE

record record_log =
  ml_records :: "(string \<times> source_record) list"
  ml_versions :: "((string \<times> string) \<times> source_record) list"
  ml_order :: "string list"

definition empty_log :: record_log where
  "empty_log = \<lparr>ml_records = [], ml_versions = [], ml_order = []\<rparr>"

text \<open>The log is changed after the last check, so a raise leaves it as it was.\<close>

definition log_append :: "digest \<Rightarrow> source_record \<Rightarrow> record_log \<Rightarrow> (append_outcome \<times> record_log) outcome" where
  "log_append sha256 record log =
     bindO (source_record_verify_integrity sha256 record) (\<lambda>_.
       case map_of (ml_versions log) (nr_record_id record, nr_record_hash record) of
         Some exact \<Rightarrow>
           bindO (demand RecordLineageError (source_record_wire exact = source_record_wire record)) (\<lambda>_.
           Inr (IDEMPOTENT_DUPLICATE, log))
       | None \<Rightarrow>
           let stored = (log\<lparr>ml_records := dict_set (nr_record_id record) record (ml_records log),
                             ml_versions := dict_set (nr_record_id record, nr_record_hash record) record (ml_versions log)\<rparr>) in
           (case map_of (ml_records log) (nr_record_id record) of
              None \<Rightarrow> Inr (APPENDED, stored\<lparr>ml_order := ml_order log @ [nr_record_id record]\<rparr>)
            | Some existing \<Rightarrow>
                bindO (demand RecordLineageError (\<not> availability record < availability existing)) (\<lambda>_.
                bindO (demand RecordLineageError (\<not> (availability record = availability existing
                         \<and> nr_content_hash record \<noteq> nr_content_hash existing))) (\<lambda>_.
                bindO (demand RecordLineageError (nr_supersedes_content_hash record = Some (nr_content_hash existing))) (\<lambda>_.
                Inr (APPENDED, stored))))))"

text \<open>What readers of a log may ask; \<open>log_reader\<close> is the reader of this log.\<close>

record source_reader =
  rd_get :: "string \<Rightarrow> source_record option"
  rd_get_version :: "string \<Rightarrow> string \<Rightarrow> source_record option"
  rd_versions :: "string \<Rightarrow> source_record list"

definition log_get :: "record_log \<Rightarrow> string \<Rightarrow> source_record option" where
  "log_get log record_id = map_of (ml_records log) record_id"

definition log_get_version :: "record_log \<Rightarrow> string \<Rightarrow> string \<Rightarrow> source_record option" where
  "log_get_version log record_id record_hash = map_of (ml_versions log) (record_id, record_hash)"

definition log_versions :: "record_log \<Rightarrow> string \<Rightarrow> source_record list" where
  "log_versions log record_id = map snd (filter (\<lambda>((rid, _), _). rid = record_id) (ml_versions log))"

definition log_records :: "record_log \<Rightarrow> source_record list" where
  "log_records log = map (\<lambda>rid. the (map_of (ml_records log) rid)) (ml_order log)"

definition log_count :: "record_log \<Rightarrow> nat" where
  "log_count log = length (ml_records log)"

definition log_reader :: "record_log \<Rightarrow> source_reader" where
  "log_reader log = \<lparr>rd_get = log_get log, rd_get_version = log_get_version log, rd_versions = log_versions log\<rparr>"

interpretation source_seal: hash_bound "\<lambda>r. Inr (source_record_compute_hash sha r)" nr_record_hash "\<lambda>h r. r\<lparr>nr_record_hash := h\<rparr>" "source_record_verify_integrity sha" for sha
  by unfold_locales (simp_all add: source_record_verify_integrity_def source_record_compute_hash_def source_record_wire_def)

end
