(* ===== verification/Market_Inputs.thy ===== *)
theory Market_Inputs
  imports Market_Clock Python_Decimal Corporate_Actions Identity_Resolution Source_Records
begin

text \<open>
  The inputs of a market snapshot in \<open>market_data/snapshots.py\<close>: the checks of the exchange
  calendar, daily bars and quotes projected from source records, and split adjustments
  projected from event lineages. Each projection carries an authority with the values it was
  derived from, and the constructors compare the two. Decimals compare by value.
\<close>

section \<open>Provider values\<close>

text \<open>
  \<open>parse_provider_timestamp\<close> of \<open>sources/adapters/records.py\<close>. In every variant the fields have
  fixed widths, and \<open>strptime\<close> refuses the same values as for the canonical text.
\<close>

definition STAMP_FRACTION :: rx where
  "STAMP_FRACTION = Seq TRADING_DATE_PATTERN (seqs [Lit ''T'', digits_rx 2, Lit '':'', digits_rx 2, Lit '':'', digits_rx 2,
     Lit ''.'', Rep 1 9 (Cls is_digit), Lit ''Z''])"

definition STAMP_SECONDS :: rx where
  "STAMP_SECONDS = Seq TRADING_DATE_PATTERN (seqs [Lit ''T'', digits_rx 2, Lit '':'', digits_rx 2, Lit '':'', digits_rx 2, Lit ''Z''])"

definition STAMP_COMPACT :: rx where
  "STAMP_COMPACT = seqs [digits_rx 8, Lit ''T'', digits_rx 6, Lit ''Z'']"

definition STAMP_DIGITS :: rx where
  "STAMP_DIGITS = digits_rx 14"

definition canonical_stamp :: "string \<Rightarrow> string \<Rightarrow> string \<Rightarrow> string" where
  "canonical_stamp ymd hms fraction =
     take 4 ymd @ ''-'' @ take 2 (drop 4 ymd) @ ''-'' @ drop 6 ymd @ ''T''
     @ take 2 hms @ '':'' @ take 2 (drop 2 hms) @ '':'' @ drop 4 hms @ ''.'' @ fraction @ ''Z''"

definition parse_provider_timestamp :: "string \<Rightarrow> utc outcome" where
  "parse_provider_timestamp text =
     (if fullmatch STAMP_FRACTION text
      then utc_from_isoformat (take 20 text @ take 6 (takeWhile is_digit (drop 20 text) @ ''000000'') @ ''Z'')
      else if fullmatch STAMP_SECONDS text then utc_from_isoformat (take 19 text @ ''.000000Z'')
      else if fullmatch STAMP_COMPACT text
      then utc_from_isoformat (canonical_stamp (take 8 text) (take 6 (drop 9 text)) ''000000'')
      else if fullmatch STAMP_DIGITS text
      then utc_from_isoformat (canonical_stamp (take 8 text) (drop 8 text) ''000000'')
      else Inl ValueError)"

text \<open>
  \<open>payload.get(key)\<close>, and \<open>str\<close> of a decoded value. A container prints with a bracket first,
  which no identifier admits; the rest of its text is left out.
\<close>

definition payload_get :: "(string \<times> json) list \<Rightarrow> string \<Rightarrow> json" where
  "payload_get payload key = (case map_of payload key of None \<Rightarrow> JNull | Some v \<Rightarrow> v)"

fun py_str :: "json \<Rightarrow> string" where
  "py_str JNull = ''None''"
| "py_str (JBool b) = (if b then ''True'' else ''False'')"
| "py_str (JInt i) = show_int i"
| "py_str (JStr s) = s"
| "py_str (JFloat s) = s"
| "py_str (JList xs) = ''[''"
| "py_str (JObj kvs) = ''{''"

definition SourceRef :: "string \<Rightarrow> p4_source_family \<Rightarrow> string \<Rightarrow> source_ref outcome" where
  "SourceRef record_id family record_hash =
     (let r = \<lparr>sr_record_id = record_id, sr_family = family, sr_record_hash = record_hash\<rparr>
      in bindO (require (source_ref_ok r)) (\<lambda>_. Inr r))"

section \<open>The exchange calendar\<close>

definition QUOTE_MAX_AGE_SECONDS :: int where "QUOTE_MAX_AGE_SECONDS = 5"
definition MAX_SPREAD_BPS :: int where "MAX_SPREAD_BPS = 30"
definition ADV_REQUIRED_SESSIONS :: nat where "ADV_REQUIRED_SESSIONS = 20"
definition MIN_PRICE :: decimal where "MIN_PRICE = Dec 500 (-2)"
definition MIN_ADV20_USD :: decimal where "MIN_ADV20_USD = Dec 20000000 0"
definition MIN_TRADING_HISTORY_SESSIONS :: nat where "MIN_TRADING_HISTORY_SESSIONS = 252"
definition MAX_MARKET_SNAPSHOT_ITEMS :: nat where "MAX_MARKET_SNAPSHOT_ITEMS = 1024"
definition MAX_MARKET_SNAPSHOT_SPLITS :: nat where "MAX_MARKET_SNAPSHOT_SPLITS = 64"
definition MAX_MARKET_SNAPSHOT_BYTES :: nat where "MAX_MARKET_SNAPSHOT_BYTES = 1048576"

text \<open>\<open>date.weekday()\<close> of the day with a given ordinal.\<close>

definition weekday :: "nat \<Rightarrow> nat" where
  "weekday n = (n + 6) mod 7"

definition SECOND :: int where "SECOND = 1000000"

text \<open>\<open>opens.time()\<close> is the time since midnight.\<close>

definition validate_nyse_session_window :: "market_session \<Rightarrow> unit outcome" where
  "validate_nyse_session_window s =
     (case ms_regular_session s of
        None \<Rightarrow> Inr ()
      | Some w \<Rightarrow>
          let opens = sw_opens_at w; duration = sw_closes_at w - opens in
          bindO (require (12 * 3600 * SECOND \<le> opens mod DAY_MICROSECONDS \<and> opens mod DAY_MICROSECONDS \<le> 16 * 3600 * SECOND)) (\<lambda>_.
          require (3600 * SECOND \<le> duration \<and> duration \<le> 23400 * SECOND)))"

definition validate_nyse_sessions :: "market_session list \<Rightarrow> unit outcome" where
  "validate_nyse_sessions sessions =
     (let dates = map ms_trading_date sessions in
      bindO (require (length sessions \<le> MAX_MARKET_SNAPSHOT_ITEMS)) (\<lambda>_.
      bindO (require (distinct dates)) (\<lambda>_.
      bindO (require (dates = sort_key toordinal dates)) (\<lambda>_.
      bindO (require (\<not> list_ex (\<lambda>s. weekday (toordinal (ms_trading_date s)) \<ge> 5 \<and> ms_day_kind s \<noteq> DAY_CLOSED) sessions)) (\<lambda>_.
      eachO validate_nyse_session_window sessions)))))"

text \<open>The loop over the days from the start up to the end.\<close>

definition require_complete_weekday_window :: "market_session list \<Rightarrow> pydate \<Rightarrow> pydate \<Rightarrow> unit outcome" where
  "require_complete_weekday_window sessions start end_exclusive =
     (let present = map (toordinal \<circ> ms_trading_date) sessions in
      eachO (\<lambda>current. require (\<not> (weekday current < 5 \<and> current \<notin> set present))) [toordinal start..<toordinal end_exclusive])"

definition session_wire :: "market_session \<Rightarrow> json" where
  "session_wire s =
     JObj [(''trading_date'', JStr (isoformat (ms_trading_date s))),
           (''day_kind'', JStr (day_kind_value (ms_day_kind s))),
           (''opens_at'', optional_text (map_option (utc_str \<circ> sw_opens_at) (ms_regular_session s))),
           (''closes_at'', optional_text (map_option (utc_str \<circ> sw_closes_at) (ms_regular_session s)))]"

section \<open>Closed labels\<close>

datatype feed = FEED_IEX | FEED_SIP_DELAYED

fun feed_value :: "feed \<Rightarrow> string" where
  "feed_value FEED_IEX = ''iex''"
| "feed_value FEED_SIP_DELAYED = ''sip_delayed''"

datatype entitlement = ENTITLED_IEX | ENTITLED_SIP

fun entitlement_value :: "entitlement \<Rightarrow> string" where
  "entitlement_value ENTITLED_IEX = ''iex''"
| "entitlement_value ENTITLED_SIP = ''sip''"

datatype coverage = COVERAGE_COMPLETE | COVERAGE_LIMITED

fun coverage_value :: "coverage \<Rightarrow> string" where
  "coverage_value COVERAGE_COMPLETE = ''COMPLETE''"
| "coverage_value COVERAGE_LIMITED = ''LIMITED_MARKET_COVERAGE''"

datatype freshness = FRESH | STALE | MISSING | CONFLICT

fun freshness_value :: "freshness \<Rightarrow> string" where
  "freshness_value FRESH = ''FRESH''"
| "freshness_value STALE = ''STALE''"
| "freshness_value MISSING = ''MISSING''"
| "freshness_value CONFLICT = ''CONFLICT''"

section \<open>Daily bars\<close>

type_synonym bar_fingerprint = "pydate \<times> rat \<times> int \<times> source_ref \<times> feed \<times> utc \<times> string"

record bar_authority =
  ba_fingerprint :: bar_fingerprint
  ba_source_record_hash :: string
  ba_identity_hash :: string

record daily_bar =
  bar_trading_date :: pydate
  bar_close :: decimal
  bar_volume :: int
  bar_source_ref :: source_ref
  bar_feed :: feed
  bar_available_at :: utc
  bar_security_id :: string
  bar_authority :: bar_authority

definition daily_bar_fingerprint :: "daily_bar \<Rightarrow> bar_fingerprint" where
  "daily_bar_fingerprint b =
     (bar_trading_date b, dec_value (bar_close b), bar_volume b, bar_source_ref b, bar_feed b, bar_available_at b, bar_security_id b)"

definition bar_bound :: "daily_bar \<Rightarrow> bool" where
  "bar_bound b \<longleftrightarrow> ba_fingerprint (bar_authority b) = daily_bar_fingerprint b"

definition daily_bar_post_init :: "daily_bar \<Rightarrow> daily_bar outcome" where
  "daily_bar_post_init b =
     bindO (require (dec_positive (bar_close b))) (\<lambda>_.
     bindO (require (0 \<le> bar_volume b)) (\<lambda>_.
     bindO (require (bar_feed b = FEED_SIP_DELAYED \<and> sr_family (bar_source_ref b) = ALPACA_HISTORICAL_BARS)) (\<lambda>_.
     bindO (require (bar_bound b)) (\<lambda>_. Inr b))))"

text \<open>One entry of the record's bars; the fingerprint is that of the values it is built from.\<close>

definition project_bar ::
  "digest \<Rightarrow> source_ref \<Rightarrow> string \<Rightarrow> string \<Rightarrow> identity_record list \<Rightarrow> utc \<Rightarrow> utc \<Rightarrow> json \<Rightarrow> (utc \<times> daily_bar) outcome" where
  "project_bar sha256 ref symbol security_id identities known_at available_at raw =
     (case raw of JObj members \<Rightarrow>
        bindO (require (set (map fst members) = {''t'', ''o'', ''h'', ''l'', ''c'', ''v''})) (\<lambda>_.
        bindO (parse_provider_timestamp (py_str (payload_get members ''t''))) (\<lambda>timestamp.
        bindO (require (\<not> timestamp > known_at)) (\<lambda>_.
        bindO (identity_query_post_init
                 \<lparr>iq_as_of = timestamp, iq_known_at = known_at, iq_security_id = Some security_id, iq_symbol = Some symbol\<rparr>) (\<lambda>query.
        bindO (resolve_identity sha256 identities query) (\<lambda>resolution.
        (case res_record resolution of
           None \<Rightarrow> Inl ValueError
         | Some r \<Rightarrow>
             bindO (require (res_status resolution = ID_RESOLVED \<and> ir_symbol r = symbol)) (\<lambda>_.
             (case (payload_get members ''c'', payload_get members ''v'') of
                (JStr close_raw, JInt volume) \<Rightarrow>
                  bindO (Decimal close_raw) (\<lambda>close.
                  bindO (daily_bar_post_init
                           \<lparr>bar_trading_date = utc_date timestamp, bar_close = close, bar_volume = volume, bar_source_ref = ref,
                            bar_feed = FEED_SIP_DELAYED, bar_available_at = available_at, bar_security_id = security_id,
                            bar_authority =
                              \<lparr>ba_fingerprint = (utc_date timestamp, dec_value close, volume, ref, FEED_SIP_DELAYED, available_at, security_id),
                               ba_source_record_hash = sr_record_hash ref, ba_identity_hash = ir_identity_hash r\<rparr>\<rparr>) (\<lambda>bar.
                  Inr (timestamp, bar)))
              | _ \<Rightarrow> Inl ValueError))))))))
      | _ \<Rightarrow> Inl ValueError)"

definition daily_bars_from_record ::
  "digest \<Rightarrow> source_record \<Rightarrow> string \<Rightarrow> identity_record list \<Rightarrow> utc \<Rightarrow> daily_bar list outcome" where
  "daily_bars_from_record sha256 record security_id identities known_at =
     bindO (source_record_verify_integrity sha256 record) (\<lambda>_.
     bindO (require (nr_family record = ALPACA_HISTORICAL_BARS \<and> nr_endpoint_id record = ''stock_bars'')) (\<lambda>_.
     bindO (eachO (identity_verify_integrity sha256) identities) (\<lambda>_.
     (case nr_available_at record of
        None \<Rightarrow> Inl ValueError
      | Some available_at \<Rightarrow>
          let payload = nr_payload record in
          bindO (require (\<not> available_at > known_at)) (\<lambda>_.
          bindO (require (set (map fst payload) = {''symbol'', ''feed'', ''timeframe'', ''bars'', ''next_page_token''})) (\<lambda>_.
          bindO (require (payload_get payload ''feed'' = JStr ''sip'' \<and> payload_get payload ''timeframe'' = JStr ''1Day'')) (\<lambda>_.
          bindO (SecuritySymbol (py_str (payload_get payload ''symbol''))) (\<lambda>symbol.
          (case payload_get payload ''bars'' of
             JList raw_bars \<Rightarrow>
               bindO (require (length raw_bars \<le> MAX_MARKET_SNAPSHOT_ITEMS)) (\<lambda>_.
               bindO (SourceRef (nr_record_id record) (nr_family record) (nr_record_hash record)) (\<lambda>ref.
               bindO (mapO (project_bar sha256 ref symbol security_id identities known_at available_at) raw_bars) (\<lambda>projected.
               let timestamps = map fst projected in
               bindO (require (timestamps = sort timestamps \<and> distinct timestamps)) (\<lambda>_.
               Inr (map snd projected)))))
           | _ \<Rightarrow> Inl ValueError)))))))))"

section \<open>Quotes\<close>

record quote_authority =
  qa_source_ref :: source_ref
  qa_symbol :: string
  qa_feed :: feed
  qa_entitlement :: entitlement
  qa_bid :: decimal
  qa_ask :: decimal
  qa_observed_at :: utc
  qa_received_at :: utc

record quote_input =
  qi_source_ref :: source_ref
  qi_symbol :: string
  qi_feed :: feed
  qi_entitlement :: entitlement
  qi_bid :: decimal
  qi_ask :: decimal
  qi_observed_at :: utc
  qi_received_at :: utc
  qi_authority :: quote_authority

definition quote_verify_source_binding :: "quote_input \<Rightarrow> unit outcome" where
  "quote_verify_source_binding q =
     (let a = qi_authority q in
      require (\<not> (qa_source_ref a \<noteq> qi_source_ref q \<or> qa_symbol a \<noteq> qi_symbol q \<or> qa_feed a \<noteq> qi_feed q
        \<or> qa_entitlement a \<noteq> qi_entitlement q \<or> dec_value (qa_bid a) \<noteq> dec_value (qi_bid q)
        \<or> dec_value (qa_ask a) \<noteq> dec_value (qi_ask q) \<or> qa_observed_at a \<noteq> qi_observed_at q
        \<or> qa_received_at a \<noteq> qi_received_at q)))"

definition quote_input_post_init :: "quote_input \<Rightarrow> quote_input outcome" where
  "quote_input_post_init q =
     bindO (require (dec_positive (qi_bid q))) (\<lambda>_.
     bindO (require (dec_positive (qi_ask q))) (\<lambda>_.
     bindO (require (\<not> dec_value (qi_bid q) > dec_value (qi_ask q))) (\<lambda>_.
     bindO (quote_verify_source_binding q) (\<lambda>_. Inr q))))"

definition SOURCE_DECIMAL_TEXT :: rx where
  "SOURCE_DECIMAL_TEXT = Seq (Rep 1 12 (Cls is_digit)) (Rep 0 1 (Seq (Lit ''.'') (Rep 1 8 (Cls is_digit))))"

definition source_record_ref :: "digest \<Rightarrow> source_record \<Rightarrow> p4_source_family \<Rightarrow> string \<Rightarrow> source_ref outcome" where
  "source_record_ref sha256 record family endpoint_id =
     bindO (source_record_verify_integrity sha256 record) (\<lambda>_.
     bindO (require (nr_family record = family \<and> nr_endpoint_id record = endpoint_id)) (\<lambda>_.
     bindO (require (pinned_role (nr_family record) = ''AUTHORITY'')) (\<lambda>_.
     SourceRef (nr_record_id record) (nr_family record) (nr_record_hash record))))"

definition source_decimal :: "json \<Rightarrow> decimal outcome" where
  "source_decimal value =
     (case value of JStr text \<Rightarrow>
        bindO (require (fullmatch SOURCE_DECIMAL_TEXT text)) (\<lambda>_.
        bindO (Decimal text) (\<lambda>d.
        bindO (require (dec_positive d)) (\<lambda>_. Inr d)))
      | _ \<Rightarrow> Inl ValueError)"

definition QUOTE_WARNING :: string where
  "QUOTE_WARNING = ''IEX feed only; not full NBBO/SIP market coverage''"

definition quote_input_from_record :: "digest \<Rightarrow> source_record \<Rightarrow> quote_input outcome" where
  "quote_input_from_record sha256 record =
     bindO (source_record_ref sha256 record ALPACA_IEX_QUOTES ''latest_quote'') (\<lambda>ref.
     bindO (require (pinned_coverage (nr_family record) = ''LIMITED_MARKET_COVERAGE'' \<and> nr_coverage_warning record = Some QUOTE_WARNING)) (\<lambda>_.
     let payload = nr_payload record; names = set (map fst payload); required = {''symbol'', ''bid_price'', ''ask_price'', ''timestamp'', ''feed''} in
     bindO (require (required \<subseteq> names \<and> names \<subseteq> required \<union> {''bid_size'', ''ask_size''})) (\<lambda>_.
     (case payload_get payload ''symbol'' of
        JStr symbol_value \<Rightarrow>
          bindO (SecuritySymbol symbol_value) (\<lambda>symbol.
          bindO (require (payload_get payload ''feed'' = JStr ''iex'')) (\<lambda>_.
          bindO (source_decimal (payload_get payload ''bid_price'')) (\<lambda>bid.
          bindO (source_decimal (payload_get payload ''ask_price'')) (\<lambda>ask.
          bindO (require (\<not> dec_value bid > dec_value ask)) (\<lambda>_.
          (case payload_get payload ''timestamp'' of
             JStr timestamp \<Rightarrow>
               bindO (parse_provider_timestamp timestamp) (\<lambda>observed_at.
               bindO (require (nr_observation_at record = Some observed_at)) (\<lambda>_.
               let received_at = availability record in
               bindO (require (\<not> received_at < observed_at)) (\<lambda>_.
               quote_input_post_init
                 \<lparr>qi_source_ref = ref, qi_symbol = symbol, qi_feed = FEED_IEX, qi_entitlement = ENTITLED_IEX, qi_bid = bid, qi_ask = ask,
                  qi_observed_at = observed_at, qi_received_at = received_at,
                  qi_authority = \<lparr>qa_source_ref = ref, qa_symbol = symbol, qa_feed = FEED_IEX, qa_entitlement = ENTITLED_IEX,
                    qa_bid = bid, qa_ask = ask, qa_observed_at = observed_at, qa_received_at = received_at\<rparr>\<rparr>)))
           | _ \<Rightarrow> Inl ValueError))))))
      | _ \<Rightarrow> Inl ValueError))))"

section \<open>Split adjustments\<close>

record split_authority =
  sp_event_id :: string
  sp_event_record_hash :: string
  sp_security_id :: string
  sp_security_identity_hash :: string
  sp_action_type :: corporate_action_type
  sp_state :: corporate_action_state
  sp_numerator :: int
  sp_denominator :: int
  sp_ex_date :: pydate
  sp_effective_date :: pydate
  sp_available_at :: utc
  sp_source_ref :: source_ref
  sp_source_refs :: "source_ref list"

record split_adjustment =
  sa_security_id :: string
  sa_ex_date :: pydate
  sa_numerator :: int
  sa_denominator :: int
  sa_source_ref :: source_ref
  sa_available_at :: utc
  sa_confirmed :: bool
  sa_authority :: split_authority

text \<open>The properties read through the authority.\<close>

definition sa_event_id :: "split_adjustment \<Rightarrow> string" where "sa_event_id s = sp_event_id (sa_authority s)"
definition sa_event_record_hash :: "split_adjustment \<Rightarrow> string" where "sa_event_record_hash s = sp_event_record_hash (sa_authority s)"
definition sa_security_identity_hash :: "split_adjustment \<Rightarrow> string" where
  "sa_security_identity_hash s = sp_security_identity_hash (sa_authority s)"
definition sa_action_type :: "split_adjustment \<Rightarrow> corporate_action_type" where "sa_action_type s = sp_action_type (sa_authority s)"
definition sa_effective_date :: "split_adjustment \<Rightarrow> pydate" where "sa_effective_date s = sp_effective_date (sa_authority s)"
definition sa_source_refs :: "split_adjustment \<Rightarrow> source_ref list" where "sa_source_refs s = sp_source_refs (sa_authority s)"

definition split_verify_source_binding :: "split_adjustment \<Rightarrow> unit outcome" where
  "split_verify_source_binding s =
     (let a = sa_authority s in
      require (\<not> (sp_security_id a \<noteq> sa_security_id s \<or> \<not> fullmatch HASH_TEXT (sp_security_identity_hash a)
        \<or> sp_numerator a \<noteq> sa_numerator s \<or> sp_denominator a \<noteq> sa_denominator s \<or> sp_ex_date a \<noteq> sa_ex_date s
        \<or> sp_available_at a \<noteq> sa_available_at s \<or> sp_source_ref a \<noteq> sa_source_ref s \<or> sp_state a \<noteq> CA_CONFIRMED
        \<or> \<not> sa_confirmed s \<or> sp_action_type a \<notin> {FORWARD_SPLIT, REVERSE_SPLIT} \<or> sp_source_ref a \<notin> set (sp_source_refs a))))"

definition split_adjustment_post_init :: "split_adjustment \<Rightarrow> split_adjustment outcome" where
  "split_adjustment_post_init s =
     bindO (require (0 < sa_numerator s)) (\<lambda>_.
     bindO (require (0 < sa_denominator s)) (\<lambda>_.
     bindO (require (sr_family (sa_source_ref s) = ALPACA_CORPORATE_ACTIONS)) (\<lambda>_.
     bindO (require (sa_confirmed s)) (\<lambda>_.
     bindO (split_verify_source_binding s) (\<lambda>_. Inr s)))))"

text \<open>An adjustment with the values of its authority.\<close>

definition adjustment_of :: "split_authority \<Rightarrow> bool \<Rightarrow> split_adjustment outcome" where
  "adjustment_of a confirmed =
     split_adjustment_post_init
       \<lparr>sa_security_id = sp_security_id a, sa_ex_date = sp_ex_date a, sa_numerator = sp_numerator a, sa_denominator = sp_denominator a,
        sa_source_ref = sp_source_ref a, sa_available_at = sp_available_at a, sa_confirmed = confirmed, sa_authority = a\<rparr>"

definition split_adjustment_from_lineage :: "digest \<Rightarrow> corporate_action list \<Rightarrow> split_adjustment outcome" where
  "split_adjustment_from_lineage sha256 lineage =
     bindO (validate_lineage sha256 lineage) (\<lambda>head.
     bindO (require (ca_state head = CA_CONFIRMED)) (\<lambda>_.
     bindO (require (ca_action_type head \<in> {FORWARD_SPLIT, REVERSE_SPLIT})) (\<lambda>_.
     let alpaca_refs = filter (\<lambda>r. sr_family r = ALPACA_CORPORATE_ACTIONS) (ca_source_refs head) in
     bindO (require (alpaca_refs \<noteq> [])) (\<lambda>_.
     adjustment_of
       \<lparr>sp_event_id = ca_event_id head, sp_event_record_hash = ca_record_hash head, sp_security_id = ca_security_id head,
        sp_security_identity_hash = ca_security_identity_hash head, sp_action_type = ca_action_type head, sp_state = ca_state head,
        sp_numerator = ratio_numerator (ca_ratio head), sp_denominator = ratio_denominator (ca_ratio head),
        sp_ex_date = ca_ex_date head, sp_effective_date = ca_effective_date head, sp_available_at = ca_available_at head,
        sp_source_ref = hd (sort_key (\<lambda>r. (sr_record_id r, sr_record_hash r)) alpaca_refs), sp_source_refs = ca_source_refs head\<rparr> True))))"

text \<open>The readback seam: the caller holds the capability and names the values; the state is fixed.\<close>

definition reconstruct_split_adjustment :: "split_authority \<Rightarrow> bool \<Rightarrow> split_adjustment outcome" where
  "reconstruct_split_adjustment a confirmed = adjustment_of (a\<lparr>sp_state := CA_CONFIRMED\<rparr>) confirmed"

end
