(* ===== verification/Quarantine.thy ===== *)
theory Quarantine
  imports Corporate_Actions Identity_Resolution
begin

text \<open>
  \<open>securities/quarantine.py\<close>: when a split is confirmed, and whether a security may be
  entered. Sets of reasons are sets here and sorted into the order of the enumeration where
  the code sorts them.
\<close>

section \<open>Closed vocabularies\<close>

definition MAX_OBSERVATIONS :: nat where "MAX_OBSERVATIONS = 64"
definition MAX_EVENT_LINEAGES :: nat where "MAX_EVENT_LINEAGES = 16"
definition MAX_DECISION_SOURCE_REFS :: nat where "MAX_DECISION_SOURCE_REFS = 256"
definition MAX_MASTER_VERSION_LENGTH :: nat where "MAX_MASTER_VERSION_LENGTH = 128"

definition OFFICIAL_ANNOUNCEMENT_FAMILIES :: "p4_source_family list" where
  "OFFICIAL_ANNOUNCEMENT_FAMILIES = [SEC_EDGAR, ISSUER_IR, EXCHANGE_OFFICIAL]"

definition PRE_CONFIRMATION_STATES :: "corporate_action_state list" where
  "PRE_CONFIRMATION_STATES = [CA_DETECTED, CA_ENTRY_BLOCKED]"

datatype quarantine_reason =
    UNKNOWN_SECURITY | AMBIGUOUS_IDENTITY | SYMBOL_AS_OF_MISMATCH | IDENTITY_INTERVAL_CONFLICT | SOURCE_NOT_YET_AVAILABLE
  | STALE_SECURITY_MASTER | SPLIT_DETECTED | FORMAL_CONFIRMATION_MISSING | SPLIT_RATIO_CONFLICT | SPLIT_DATE_CONFLICT
  | SPLIT_IDENTITY_CONFLICT | SOURCE_WITHDRAWN_OR_CORRECTED | UNSUPPORTED_CORPORATE_ACTION | EFFECTIVE_OR_LATE_EVENT_REVIEW
  | SPLIT_TYPE_CONFLICT

definition REASON_ORDER :: "quarantine_reason list" where
  "REASON_ORDER =
     [UNKNOWN_SECURITY, AMBIGUOUS_IDENTITY, SYMBOL_AS_OF_MISMATCH, IDENTITY_INTERVAL_CONFLICT, SOURCE_NOT_YET_AVAILABLE,
      STALE_SECURITY_MASTER, SPLIT_DETECTED, FORMAL_CONFIRMATION_MISSING, SPLIT_RATIO_CONFLICT, SPLIT_DATE_CONFLICT,
      SPLIT_IDENTITY_CONFLICT, SOURCE_WITHDRAWN_OR_CORRECTED, UNSUPPORTED_CORPORATE_ACTION, EFFECTIVE_OR_LATE_EVENT_REVIEW,
      SPLIT_TYPE_CONFLICT]"

fun quarantine_reason_value :: "quarantine_reason \<Rightarrow> string" where
  "quarantine_reason_value UNKNOWN_SECURITY = ''UNKNOWN_SECURITY''"
| "quarantine_reason_value AMBIGUOUS_IDENTITY = ''AMBIGUOUS_IDENTITY''"
| "quarantine_reason_value SYMBOL_AS_OF_MISMATCH = ''SYMBOL_AS_OF_MISMATCH''"
| "quarantine_reason_value IDENTITY_INTERVAL_CONFLICT = ''IDENTITY_INTERVAL_CONFLICT''"
| "quarantine_reason_value SOURCE_NOT_YET_AVAILABLE = ''SOURCE_NOT_YET_AVAILABLE''"
| "quarantine_reason_value STALE_SECURITY_MASTER = ''STALE_SECURITY_MASTER''"
| "quarantine_reason_value SPLIT_DETECTED = ''SPLIT_DETECTED''"
| "quarantine_reason_value FORMAL_CONFIRMATION_MISSING = ''FORMAL_CONFIRMATION_MISSING''"
| "quarantine_reason_value SPLIT_RATIO_CONFLICT = ''SPLIT_RATIO_CONFLICT''"
| "quarantine_reason_value SPLIT_DATE_CONFLICT = ''SPLIT_DATE_CONFLICT''"
| "quarantine_reason_value SPLIT_IDENTITY_CONFLICT = ''SPLIT_IDENTITY_CONFLICT''"
| "quarantine_reason_value SOURCE_WITHDRAWN_OR_CORRECTED = ''SOURCE_WITHDRAWN_OR_CORRECTED''"
| "quarantine_reason_value UNSUPPORTED_CORPORATE_ACTION = ''UNSUPPORTED_CORPORATE_ACTION''"
| "quarantine_reason_value EFFECTIVE_OR_LATE_EVENT_REVIEW = ''EFFECTIVE_OR_LATE_EVENT_REVIEW''"
| "quarantine_reason_value SPLIT_TYPE_CONFLICT = ''SPLIT_TYPE_CONFLICT''"

datatype confirmation_outcome = CONFIRM_ENTRY_BLOCKED | CONFIRM_CONFIRMED | CONFIRM_REVIEW_REQUIRED

datatype quarantine_outcome = ENTRY_ELIGIBLE | ENTRY_BLOCKED | ENTRY_REVIEW_REQUIRED

fun quarantine_outcome_value :: "quarantine_outcome \<Rightarrow> string" where
  "quarantine_outcome_value ENTRY_ELIGIBLE = ''ELIGIBLE''"
| "quarantine_outcome_value ENTRY_BLOCKED = ''ENTRY_BLOCKED''"
| "quarantine_outcome_value ENTRY_REVIEW_REQUIRED = ''REVIEW_REQUIRED''"

datatype quarantine_purpose = CANDIDATE_CREATION | RISK_APPROVAL | SUBMIT_RECHECK

definition sorted_reasons :: "quarantine_reason set \<Rightarrow> quarantine_reason list" where
  "sorted_reasons reasons = filter (\<lambda>r. r \<in> reasons) REASON_ORDER"

definition master_version_for :: "identity_record \<Rightarrow> string" where
  "master_version_for r = SECURITIES_PRODUCER_VERSION @ '':'' @ ir_identity_hash r"

section \<open>Queries and evidence\<close>

record quarantine_query =
  qq_purpose :: quarantine_purpose
  qq_security_id :: string
  qq_symbol_as_of :: string
  qq_decision_at :: utc
  qq_master_version :: string

definition quarantine_query_post_init :: "quarantine_query \<Rightarrow> quarantine_query outcome" where
  "quarantine_query_post_init q =
     bindO (SecurityId (qq_security_id q)) (\<lambda>_.
     bindO (SecuritySymbol (qq_symbol_as_of q)) (\<lambda>_.
     bindO (require (utc_ok (qq_decision_at q))) (\<lambda>_.
     bindO (require (qq_master_version q \<noteq> [] \<and> length (qq_master_version q) \<le> MAX_MASTER_VERSION_LENGTH)) (\<lambda>_. Inr q))))"

record source_observation =
  so_source_ref :: source_ref
  so_available_at :: utc
  so_withdrawn :: bool
  so_auditable :: bool
  so_claimed_type :: "corporate_action_type option"
  so_claimed_ratio :: "split_ratio option"
  so_claimed_ex_date :: "pydate option"
  so_claimed_effective_date :: "pydate option"

record event_evidence =
  ev_lineage :: "corporate_action list"
  ev_observations :: "source_observation list"

definition validate_observations :: "source_observation list \<Rightarrow> corporate_action list \<Rightarrow> unit outcome" where
  "validate_observations observations lineage =
     bindO (require (observations \<noteq> [] \<and> length observations \<le> MAX_OBSERVATIONS)) (\<lambda>_.
     bindO (require (distinct (map (sr_record_id \<circ> so_source_ref) observations))) (\<lambda>_.
     let observed = map (\<lambda>o'. (sr_record_id (so_source_ref o'), sr_record_hash (so_source_ref o'))) observations in
     require (list_all (\<lambda>ref. (sr_record_id ref, sr_record_hash ref) \<in> set observed) (ca_source_refs (hd lineage)))))"

definition EventEvidence :: "digest \<Rightarrow> corporate_action list \<Rightarrow> source_observation list \<Rightarrow> event_evidence outcome" where
  "EventEvidence sha256 lineage observations =
     bindO (validate_lineage sha256 lineage) (\<lambda>_.
     bindO (validate_observations observations lineage) (\<lambda>_.
     Inr \<lparr>ev_lineage = lineage, ev_observations = observations\<rparr>))"

section \<open>Confirmation\<close>

definition claims :: "('a \<Rightarrow> 'b option) \<Rightarrow> 'a list \<Rightarrow> 'b list" where
  "claims f observations = List.map_filter f observations"

definition claims_conflict :: "'b list \<Rightarrow> 'b \<Rightarrow> bool" where
  "claims_conflict claimed stated \<longleftrightarrow> length (remdups claimed) > 1 \<or> list_ex (\<lambda>c. c \<noteq> stated) claimed"

definition fact_conflicts :: "corporate_action \<Rightarrow> source_observation list \<Rightarrow> quarantine_reason set" where
  "fact_conflicts event observations =
     (if claims_conflict (claims so_claimed_type observations) (ca_action_type event) then {SPLIT_TYPE_CONFLICT} else {})
     \<union> (if claims_conflict (claims so_claimed_ratio observations) (ca_ratio event) then {SPLIT_RATIO_CONFLICT} else {})
     \<union> (if claims_conflict (claims so_claimed_ex_date observations) (ca_ex_date event) then {SPLIT_DATE_CONFLICT} else {})
     \<union> (if claims_conflict (claims so_claimed_effective_date observations) (ca_effective_date event)
        then {SPLIT_DATE_CONFLICT} else {})"

definition qualifying_official :: "source_observation \<Rightarrow> utc \<Rightarrow> bool" where
  "qualifying_official o' decision_at \<longleftrightarrow>
     sr_family (so_source_ref o') \<in> set OFFICIAL_ANNOUNCEMENT_FAMILIES
     \<and> \<not> so_withdrawn o' \<and> so_auditable o' \<and> so_available_at o' \<le> decision_at
     \<and> so_claimed_type o' \<noteq> None \<and> so_claimed_ratio o' \<noteq> None
     \<and> so_claimed_ex_date o' \<noteq> None \<and> so_claimed_effective_date o' \<noteq> None"

record confirmation_evaluation =
  ce_outcome :: confirmation_outcome
  ce_reasons :: "quarantine_reason list"

definition confirmation_findings ::
  "corporate_action \<Rightarrow> identity_record \<Rightarrow> source_observation list \<Rightarrow> utc \<Rightarrow> quarantine_reason set" where
  "confirmation_findings event identity observations decision_at =
     (if ir_security_id identity \<noteq> ca_security_id event \<or> ir_identity_hash identity \<noteq> ca_security_identity_hash event
      then {SPLIT_IDENTITY_CONFLICT} else {})
     \<union> (if \<not> date_less (utc_date decision_at) (ca_ex_date event) then {EFFECTIVE_OR_LATE_EVENT_REVIEW} else {})
     \<union> (if list_ex (\<lambda>o'. so_available_at o' > decision_at) observations then {SOURCE_NOT_YET_AVAILABLE} else {})
     \<union> (if list_ex so_withdrawn observations then {SOURCE_WITHDRAWN_OR_CORRECTED} else {})
     \<union> fact_conflicts event observations"

definition evaluate_confirmation ::
  "digest \<Rightarrow> corporate_action \<Rightarrow> identity_record \<Rightarrow> source_observation list \<Rightarrow> utc \<Rightarrow> confirmation_evaluation outcome" where
  "evaluate_confirmation sha256 event identity observations decision_at =
     bindO (require (ca_state event \<in> set PRE_CONFIRMATION_STATES)) (\<lambda>_.
     bindO (action_verify_integrity sha256 event) (\<lambda>_.
     bindO (identity_verify_integrity sha256 identity) (\<lambda>_.
     bindO (validate_observations observations [event]) (\<lambda>_.
     let findings = confirmation_findings event identity observations decision_at in
     Inr (if findings \<noteq> {} then
            \<lparr>ce_outcome = CONFIRM_REVIEW_REQUIRED, ce_reasons = sorted_reasons (insert SPLIT_DETECTED findings)\<rparr>
          else if \<not> list_ex (\<lambda>o'. qualifying_official o' decision_at) observations \<or> \<not> list_all so_auditable observations then
            \<lparr>ce_outcome = CONFIRM_ENTRY_BLOCKED, ce_reasons = [SPLIT_DETECTED, FORMAL_CONFIRMATION_MISSING]\<rparr>
          else \<lparr>ce_outcome = CONFIRM_CONFIRMED, ce_reasons = []\<rparr>)))))"

section \<open>Decisions\<close>

record quarantine_decision =
  qd_security_id :: string
  qd_symbol_as_of :: string
  qd_master_version :: string
  qd_decision_at :: utc
  qd_outcome :: quarantine_outcome
  qd_reasons :: "quarantine_reason list"
  qd_event_ids :: "string list"
  qd_source_refs :: "source_ref list"
  qd_decision_hash :: string

definition ref_key :: "source_ref \<Rightarrow> string \<times> string \<times> string" where
  "ref_key r = (sr_record_id r, family_value (sr_family r), sr_record_hash r)"

definition QUARANTINE_PRODUCER_VERSION :: string where
  "QUARANTINE_PRODUCER_VERSION = ''p4b.quarantine.v1''"

definition decision_wire :: "quarantine_decision \<Rightarrow> json" where
  "decision_wire d =
     JObj [(''security_id'', JStr (qd_security_id d)),
           (''symbol_as_of'', JStr (qd_symbol_as_of d)),
           (''master_version'', JStr (qd_master_version d)),
           (''decision_at'', JStr (utc_str (qd_decision_at d))),
           (''outcome'', JStr (quarantine_outcome_value (qd_outcome d))),
           (''reasons'', JList (map (JStr \<circ> quarantine_reason_value) (qd_reasons d))),
           (''event_ids'', JList (map JStr (qd_event_ids d))),
           (''source_refs'', JList (map source_ref_wire (qd_source_refs d))),
           (''producer_version'', JStr QUARANTINE_PRODUCER_VERSION)]"

definition DECISION_HASH_DOMAIN :: string where
  "DECISION_HASH_DOMAIN = ''seven-lens.p4b.quarantine-decision.v1'' @ [CHR 0x00]"

definition decision_compute_hash :: "digest \<Rightarrow> quarantine_decision \<Rightarrow> string" where
  "decision_compute_hash sha256 d = sha256 (DECISION_HASH_DOMAIN @ dumps (decision_wire d))"

definition decision_verify_integrity :: "digest \<Rightarrow> quarantine_decision \<Rightarrow> unit outcome" where
  "decision_verify_integrity sha256 d = require (qd_decision_hash d = decision_compute_hash sha256 d)"

definition decision_post_init :: "digest \<Rightarrow> quarantine_decision \<Rightarrow> quarantine_decision outcome" where
  "decision_post_init sha256 d =
     bindO (SecurityId (qd_security_id d)) (\<lambda>_.
     bindO (SecuritySymbol (qd_symbol_as_of d)) (\<lambda>_.
     bindO (require (qd_master_version d \<noteq> [] \<and> length (qd_master_version d) \<le> MAX_MASTER_VERSION_LENGTH)) (\<lambda>_.
     bindO (require (utc_ok (qd_decision_at d))) (\<lambda>_.
     bindO (require (distinct (qd_reasons d))) (\<lambda>_.
     bindO (require (qd_reasons d = sorted_reasons (set (qd_reasons d)))) (\<lambda>_.
     bindO (require (list_all (fullmatch EVENT_ID) (qd_event_ids d))) (\<lambda>_.
     bindO (require (distinct (qd_event_ids d))) (\<lambda>_.
     bindO (require (sorted (qd_event_ids d))) (\<lambda>_.
     bindO (require (length (qd_source_refs d) \<le> MAX_DECISION_SOURCE_REFS \<and> list_all source_ref_ok (qd_source_refs d))) (\<lambda>_.
     bindO (require (distinct (map sr_record_id (qd_source_refs d)))) (\<lambda>_.
     bindO (require (sorted (map ref_key (qd_source_refs d)))) (\<lambda>_.
     bindO (require (fullmatch HASH_TEXT (qd_decision_hash d))) (\<lambda>_.
     bindO (decision_verify_integrity sha256 d) (\<lambda>_. Inr d))))))))))))))"

definition build_decision :: "digest \<Rightarrow> quarantine_decision \<Rightarrow> quarantine_decision outcome" where
  "build_decision sha256 d = decision_post_init sha256 (d\<lparr>qd_decision_hash := decision_compute_hash sha256 d\<rparr>)"

fun outcome_rank :: "quarantine_outcome \<Rightarrow> nat" where
  "outcome_rank ENTRY_ELIGIBLE = 0"
| "outcome_rank ENTRY_BLOCKED = 1"
| "outcome_rank ENTRY_REVIEW_REQUIRED = 2"

text \<open>\<open>_STATUS_TO_REASON\<close>, on the statuses other than \<open>RESOLVED\<close>.\<close>

fun status_to_reason :: "identity_resolution_status \<Rightarrow> quarantine_reason outcome" where
  "status_to_reason ID_UNKNOWN = Inr UNKNOWN_SECURITY"
| "status_to_reason ID_AMBIGUOUS = Inr AMBIGUOUS_IDENTITY"
| "status_to_reason ID_CONFLICT = Inr IDENTITY_INTERVAL_CONFLICT"
| "status_to_reason ID_STALE = Inr SOURCE_NOT_YET_AVAILABLE"
| "status_to_reason ID_RESOLVED = Inl KeyError"

definition symbol_claims_are_ambiguous :: "identity_record list \<Rightarrow> quarantine_query \<Rightarrow> bool" where
  "symbol_claims_are_ambiguous records q \<longleftrightarrow>
     length (remdups (map ir_security_id (filter (\<lambda>r. ir_symbol r = qq_symbol_as_of q
       \<and> answers_as_of r (qq_decision_at q) (qq_decision_at q)) records))) > 1"

definition event_quarantine ::
  "digest \<Rightarrow> corporate_action \<Rightarrow> corporate_action \<Rightarrow> identity_record option \<Rightarrow> event_evidence \<Rightarrow> utc \<Rightarrow>
   (quarantine_outcome \<times> quarantine_reason list) outcome" where
  "event_quarantine sha256 head root resolved evidence decision_at =
     (case resolved of
        None \<Rightarrow> Inr (ENTRY_REVIEW_REQUIRED, [SPLIT_DETECTED])
      | Some identity \<Rightarrow>
          bindO (evaluate_confirmation sha256 root identity (ev_observations evidence) decision_at) (\<lambda>evaluation.
          Inr (case ce_outcome evaluation of
                 CONFIRM_REVIEW_REQUIRED \<Rightarrow> (ENTRY_REVIEW_REQUIRED, ce_reasons evaluation)
               | CONFIRM_ENTRY_BLOCKED \<Rightarrow>
                   (if ca_state head \<in> set PRE_CONFIRMATION_STATES then (ENTRY_BLOCKED, ce_reasons evaluation)
                    else (ENTRY_REVIEW_REQUIRED, ce_reasons evaluation))
               | CONFIRM_CONFIRMED \<Rightarrow>
                   (if ca_state head = CA_CONFIRMED then (ENTRY_BLOCKED, [SPLIT_DETECTED])
                    else if ca_state head = CA_EFFECTIVE_PENDING_RECONCILIATION
                    then (ENTRY_REVIEW_REQUIRED, [SPLIT_DETECTED, EFFECTIVE_OR_LATE_EVENT_REVIEW])
                    else (ENTRY_REVIEW_REQUIRED, [SPLIT_DETECTED])))))"

fun merge_seen :: "(string \<times> source_ref) list \<Rightarrow> source_ref list \<Rightarrow> (string \<times> source_ref) list option" where
  "merge_seen seen [] = Some seen"
| "merge_seen seen (ref # refs) =
     (case map_of seen (sr_record_id ref) of
        Some existing \<Rightarrow> if existing \<noteq> ref then None else merge_seen (dict_set (sr_record_id ref) ref seen) refs
      | None \<Rightarrow> merge_seen (dict_set (sr_record_id ref) ref seen) refs)"

definition collect_source_refs :: "identity_record option \<Rightarrow> source_ref list \<Rightarrow> source_ref list outcome" where
  "collect_source_refs resolved event_refs =
     (case merge_seen [] ((case resolved of None \<Rightarrow> [] | Some r \<Rightarrow> ir_source_refs r) @ event_refs) of
        None \<Rightarrow> Inl ValueError
      | Some seen \<Rightarrow>
          let deduped = sort_key ref_key (map snd seen) in
          if length deduped > MAX_DECISION_SOURCE_REFS then Inl ValueError else Inr deduped)"

text \<open>What the loop over the lineages accumulates.\<close>

record event_tally =
  et_outcome :: quarantine_outcome
  et_reasons :: "quarantine_reason set"
  et_event_ids :: "string list"
  et_refs :: "source_ref list"

definition tally_event ::
  "digest \<Rightarrow> quarantine_query \<Rightarrow> identity_record option \<Rightarrow> event_tally \<Rightarrow> event_evidence \<Rightarrow> event_tally outcome" where
  "tally_event sha256 q resolved t evidence =
     (let visible = filter (\<lambda>row. action_known_at row (qq_decision_at q)) (ev_lineage evidence) in
      if visible = [] then Inr t
      else let head = last visible in
        if ca_security_id head \<noteq> qq_security_id q then Inr t
        else bindO (event_quarantine sha256 head (hd visible) resolved evidence (qq_decision_at q)) (\<lambda>(outcome, reasons).
          Inr \<lparr>et_outcome = (if outcome_rank outcome > outcome_rank (et_outcome t) then outcome else et_outcome t),
               et_reasons = et_reasons t \<union> set reasons,
               et_event_ids = ca_event_id head # et_event_ids t,
               et_refs = et_refs t @ ca_source_refs head @ map so_source_ref (ev_observations evidence)\<rparr>))"

fun tally_events ::
  "digest \<Rightarrow> quarantine_query \<Rightarrow> identity_record option \<Rightarrow> event_tally \<Rightarrow> event_evidence list \<Rightarrow> event_tally outcome" where
  "tally_events sha256 q resolved t [] = Inr t"
| "tally_events sha256 q resolved t (e # es) =
     bindO (tally_event sha256 q resolved t e) (\<lambda>t'. tally_events sha256 q resolved t' es)"

definition no_events :: event_tally where
  "no_events = \<lparr>et_outcome = ENTRY_ELIGIBLE, et_reasons = {}, et_event_ids = [], et_refs = []\<rparr>"

definition identity_findings ::
  "identity_record list \<Rightarrow> quarantine_query \<Rightarrow> identity_resolution \<Rightarrow> (identity_record option \<times> quarantine_reason set) outcome" where
  "identity_findings records q resolution =
     (let ambiguous = (if symbol_claims_are_ambiguous records q then {AMBIGUOUS_IDENTITY} else {}) in
      if res_status resolution = ID_RESOLVED then
        (case res_record resolution of
           None \<Rightarrow> Inl ValueError
         | Some record \<Rightarrow>
             Inr (Some record,
                  (if ir_symbol record \<noteq> qq_symbol_as_of q then {SYMBOL_AS_OF_MISMATCH} else {})
                  \<union> (if qq_master_version q \<noteq> master_version_for record then {STALE_SECURITY_MASTER} else {}) \<union> ambiguous))
      else bindO (status_to_reason (res_status resolution)) (\<lambda>reason. Inr (None, insert reason ambiguous)))"

definition evaluate_quarantine ::
  "digest \<Rightarrow> quarantine_query \<Rightarrow> identity_record list \<Rightarrow> event_evidence list \<Rightarrow> quarantine_decision outcome" where
  "evaluate_quarantine sha256 q identity_records event_lineages =
     bindO (require (length event_lineages \<le> MAX_EVENT_LINEAGES)) (\<lambda>_.
     bindO (require (distinct (map (ca_event_id \<circ> hd \<circ> ev_lineage) event_lineages))) (\<lambda>_.
     bindO (identity_query_post_init \<lparr>iq_as_of = qq_decision_at q, iq_known_at = qq_decision_at q,
              iq_security_id = Some (qq_security_id q), iq_symbol = Some (qq_symbol_as_of q)\<rparr>) (\<lambda>iq.
     bindO (resolve_identity sha256 identity_records iq) (\<lambda>resolution.
     bindO (identity_findings identity_records q resolution) (\<lambda>(resolved, findings).
     bindO (tally_events sha256 q resolved no_events event_lineages) (\<lambda>t.
     bindO (collect_source_refs resolved (et_refs t)) (\<lambda>refs.
     build_decision sha256
       \<lparr>qd_security_id = qq_security_id q, qd_symbol_as_of = qq_symbol_as_of q,
        qd_master_version = (case resolved of None \<Rightarrow> qq_master_version q | Some r \<Rightarrow> master_version_for r),
        qd_decision_at = qq_decision_at q,
        qd_outcome = (if findings \<noteq> {} then ENTRY_REVIEW_REQUIRED else et_outcome t),
        qd_reasons = sorted_reasons (findings \<union> et_reasons t),
        qd_event_ids = sort (remdups (et_event_ids t)), qd_source_refs = refs, qd_decision_hash = []\<rparr>)))))))"

interpretation decision_seal: hash_bound "\<lambda>r. Inr (decision_compute_hash sha r)" qd_decision_hash "\<lambda>h r. r\<lparr>qd_decision_hash := h\<rparr>" "decision_verify_integrity sha" for sha
  by unfold_locales (simp_all add: decision_verify_integrity_def decision_compute_hash_def decision_wire_def)

end
