(* ===== verification/Market_Snapshot.thy ===== *)
theory Market_Snapshot
  imports Market_Inputs Quarantine
begin

text \<open>
  \<open>market_data/snapshots.py\<close>, the snapshot: the exact spread and midpoint, the validated and
  hashed record, the split-aware average dollar volume over twenty sessions, the freshness of a
  quote and the assembler. \<open>prec\<close> is the precision of the caller's decimal context. That a
  snapshot was built by the assembler or a trusted readback is a private token in the code;
  here the constructor is simply not used elsewhere.
\<close>

section \<open>Derived values\<close>

definition spread_exact :: "decimal \<Rightarrow> decimal \<Rightarrow> int \<times> bool" where
  "spread_exact bid ask =
     (let numerator = (dec_value ask - dec_value bid) * 20000; denominator = dec_value bid + dec_value ask
      in (\<lfloor>numerator / denominator\<rfloor>, numerator > of_int MAX_SPREAD_BPS * denominator))"

definition mid_exact :: "nat \<Rightarrow> decimal \<Rightarrow> decimal \<Rightarrow> decimal outcome" where
  "mid_exact prec bid ask =
     (let precision = max (dec_digits bid) (dec_digits ask) + 2; p = max prec precision
      in bindO (dec_add p bid ask) (\<lambda>s. dec_div p s (Dec 2 0)))"

definition reason_index :: "closed_reason \<Rightarrow> nat" where
  "reason_index r = length (takeWhile (\<lambda>x. x \<noteq> r) CLOSED_REASONS)"

definition canonical_reasons :: "closed_reason list \<Rightarrow> closed_reason list" where
  "canonical_reasons reasons = (if reasons = [] then reasons else sort_key reason_index reasons)"

section \<open>The record\<close>

record market_snapshot =
  sn_security_id :: string
  sn_symbol :: string
  sn_as_of :: utc
  sn_known_at :: utc
  sn_observed_at :: utc
  sn_received_at :: utc
  sn_feed :: feed
  sn_entitlement :: entitlement
  sn_bid :: decimal
  sn_ask :: decimal
  sn_mid :: decimal
  sn_spread_bps :: int
  sn_quote_source_ref :: source_ref
  sn_coverage :: coverage
  sn_freshness :: freshness
  sn_producer_version :: string
  sn_schema_version :: string
  sn_sessions :: "market_session list"
  sn_last :: "decimal option"
  sn_adv20_usd :: "decimal option"
  sn_bar_feed :: "feed option"
  sn_bar_refs :: "source_ref list"
  sn_bar_dates :: "pydate list"
  sn_split_adjustment_refs :: "source_ref list"
  sn_split_adjustments :: "split_adjustment list"
  sn_coverage_warning :: "string option"
  sn_reasons :: "closed_reason list"
  sn_snapshot_hash :: string

definition MARKET_PRODUCER_VERSION :: string where "MARKET_PRODUCER_VERSION = ''p4c.market.v1''"
definition COVERAGE_WARNING :: string where "COVERAGE_WARNING = ''IEX limited market coverage''"

text \<open>\<open>tuple(sorted({...}, key=...))\<close>; equal keys keep the order of the sequence.\<close>

definition sorted_refs :: "source_ref list \<Rightarrow> source_ref list" where
  "sorted_refs refs = sort_key ref_key (remdups refs)"

definition open_at :: "market_session list \<Rightarrow> utc \<Rightarrow> bool" where
  "open_at sessions t \<longleftrightarrow> (case session_by_date sessions (utc_date t) of
     None \<Rightarrow> False
   | Some s \<Rightarrow> ms_day_kind s \<noteq> DAY_CLOSED \<and> (case ms_regular_session s of None \<Rightarrow> False | Some w \<Rightarrow> window_contains w t))"

definition open_on :: "market_session list \<Rightarrow> pydate \<Rightarrow> bool" where
  "open_on sessions d \<longleftrightarrow> (case session_by_date sessions d of
     None \<Rightarrow> False | Some s \<Rightarrow> ms_day_kind s \<noteq> DAY_CLOSED \<and> ms_regular_session s \<noteq> None)"

definition validate_adjustment :: "split_adjustment \<Rightarrow> unit outcome" where
  "validate_adjustment a =
     bindO (split_verify_source_binding a) (\<lambda>_.
     eachO require
       [fullmatch EVENT_ID (sa_event_id a), fullmatch HASH_TEXT (sa_event_record_hash a), fullmatch HASH_TEXT (sa_security_identity_hash a),
        \<not> date_less (sa_effective_date a) (sa_ex_date a),
        sa_source_refs a \<noteq> [] \<and> length (sa_source_refs a) \<le> MAX_SOURCE_REFS,
        distinct (map sr_record_id (sa_source_refs a)), sa_source_ref a \<in> set (sa_source_refs a)])"

definition adjustment_key :: "split_adjustment \<Rightarrow> nat \<times> string \<times> string" where
  "adjustment_key a = (toordinal (sa_ex_date a), sr_record_id (sa_source_ref a), sr_record_hash (sa_source_ref a))"

definition validate_market_snapshot_fields :: "nat \<Rightarrow> market_snapshot \<Rightarrow> unit outcome" where
  "validate_market_snapshot_fields prec v =
     bindO (eachO require
       [sn_feed v = FEED_IEX \<and> sn_entitlement v = ENTITLED_IEX, dec_positive (sn_bid v), dec_positive (sn_ask v),
        \<not> dec_value (sn_bid v) > dec_value (sn_ask v), dec_positive (sn_mid v)]) (\<lambda>_.
     bindO (mid_exact prec (sn_bid v) (sn_ask v)) (\<lambda>expected_mid.
     let (exact_spread_bps, exact_spread_too_wide) = spread_exact (sn_bid v) (sn_ask v) in
     bindO (eachO require
       [dec_value (sn_mid v) = dec_value expected_mid, 0 \<le> sn_spread_bps v, sn_spread_bps v = exact_spread_bps,
        (case sn_last v of None \<Rightarrow> True | Some d \<Rightarrow> dec_positive d), (case sn_adv20_usd v of None \<Rightarrow> True | Some d \<Rightarrow> dec_positive d),
        (case sn_last v of None \<Rightarrow> False | Some d \<Rightarrow> dec_value d = dec_value expected_mid),
        sn_bar_feed v = None \<or> sn_bar_feed v = Some FEED_SIP_DELAYED,
        length (sn_bar_refs v) \<le> MAX_MARKET_SNAPSHOT_ITEMS,
        map sr_record_id (sn_bar_refs v) = sort (remdups (map sr_record_id (sn_bar_refs v))),
        list_all (\<lambda>r. sr_family r = ALPACA_HISTORICAL_BARS) (sn_bar_refs v),
        length (sn_bar_dates v) \<le> MAX_MARKET_SNAPSHOT_ITEMS,
        sn_bar_dates v = sort_key toordinal (remdups (sn_bar_dates v)),
        (sn_bar_dates v \<noteq> []) = (sn_bar_refs v \<noteq> []),
        length (sn_split_adjustment_refs v) \<le> MAX_MARKET_SNAPSHOT_SPLITS,
        sn_split_adjustment_refs v
          = sort_key (\<lambda>r. (sr_record_id r, family_value (sr_family r))) (remdups (sn_split_adjustment_refs v)),
        list_all (\<lambda>r. sr_family r = ALPACA_CORPORATE_ACTIONS) (sn_split_adjustment_refs v)]) (\<lambda>_.
     bindO (eachO validate_adjustment (sn_split_adjustments v)) (\<lambda>_.
     bindO (eachO require
       [length (sn_split_adjustments v) \<le> MAX_MARKET_SNAPSHOT_SPLITS,
        map adjustment_key (sn_split_adjustments v) = sort (map adjustment_key (sn_split_adjustments v)),
        distinct (map sa_ex_date (sn_split_adjustments v)),
        list_all (\<lambda>a. sa_security_id a = sn_security_id v) (sn_split_adjustments v),
        sn_split_adjustment_refs v = sorted_refs (map sa_source_ref (sn_split_adjustments v)),
        sn_freshness v \<noteq> CONFLICT,
        \<not> (sn_feed v = FEED_IEX \<and> sn_coverage v \<noteq> COVERAGE_LIMITED),
        \<not> (sn_feed v = FEED_IEX \<and> sn_coverage_warning v \<noteq> Some COVERAGE_WARNING),
        distinct (sn_reasons v), sn_reasons v = canonical_reasons (sn_reasons v),
        exact_spread_too_wide = (SPREAD_TOO_WIDE \<in> set (sn_reasons v)), sn_producer_version v \<noteq> []]) (\<lambda>_.
     bindO (validate_nyse_sessions (sn_sessions v)) (\<lambda>_.
     bindO (eachO require
       [open_at (sn_sessions v) (sn_as_of v), open_at (sn_sessions v) (sn_observed_at v),
        list_all (open_on (sn_sessions v)) (sn_bar_dates v)]) (\<lambda>_.
     bindO (if sn_bar_dates v \<noteq> []
            then require_complete_weekday_window (sn_sessions v) (hd (sn_bar_dates v)) (utc_date (sn_as_of v)) else Inr ()) (\<lambda>_.
     eachO require
       [\<not> sn_known_at v > sn_as_of v, \<not> sn_observed_at v > sn_known_at v, \<not> sn_received_at v > sn_known_at v,
        \<not> sn_received_at v > sn_as_of v, \<not> sn_observed_at v > sn_as_of v, \<not> sn_received_at v < sn_observed_at v,
        list_all (\<lambda>a. \<not> sa_available_at a > sn_known_at v) (sn_split_adjustments v),
        sn_freshness v \<noteq> MISSING,
        sn_freshness v = (if sn_as_of v - sn_observed_at v \<le> QUOTE_MAX_AGE_SECONDS * SECOND then FRESH else STALE),
        (sn_freshness v = STALE) = (QUOTE_MISSING_OR_STALE \<in> set (sn_reasons v)),
        sr_family (sn_quote_source_ref v) = ALPACA_IEX_QUOTES]))))))))"

section \<open>Wire form and hash\<close>

definition adjustment_wire :: "split_adjustment \<Rightarrow> json" where
  "adjustment_wire a =
     JObj [(''security_id'', JStr (sa_security_id a)),
           (''ex_date'', JStr (isoformat (sa_ex_date a))),
           (''numerator'', JInt (sa_numerator a)),
           (''denominator'', JInt (sa_denominator a)),
           (''event_id'', JStr (sa_event_id a)),
           (''event_record_hash'', JStr (sa_event_record_hash a)),
           (''security_identity_hash'', JStr (sa_security_identity_hash a)),
           (''action_type'', JStr (action_type_value (sa_action_type a))),
           (''effective_date'', JStr (isoformat (sa_effective_date a))),
           (''source_ref'', source_ref_wire (sa_source_ref a)),
           (''source_refs'', JList (map source_ref_wire (sa_source_refs a))),
           (''available_at'', JStr (utc_str (sa_available_at a))),
           (''confirmed'', JBool (sa_confirmed a))]"

definition market_wire_body :: "market_snapshot \<Rightarrow> json" where
  "market_wire_body v =
     JObj [(''security_id'', JStr (sn_security_id v)),
           (''symbol'', JStr (sn_symbol v)),
           (''as_of'', JStr (utc_str (sn_as_of v))),
           (''known_at'', JStr (utc_str (sn_known_at v))),
           (''observed_at'', JStr (utc_str (sn_observed_at v))),
           (''received_at'', JStr (utc_str (sn_received_at v))),
           (''feed'', JStr (feed_value (sn_feed v))),
           (''entitlement'', JStr (entitlement_value (sn_entitlement v))),
           (''bid'', JStr (dec_str (sn_bid v))),
           (''ask'', JStr (dec_str (sn_ask v))),
           (''mid'', JStr (dec_str (sn_mid v))),
           (''spread_bps'', JInt (sn_spread_bps v)),
           (''last'', optional_text (map_option dec_str (sn_last v))),
           (''adv20_usd'', optional_text (map_option dec_str (sn_adv20_usd v))),
           (''bar_feed'', optional_text (map_option feed_value (sn_bar_feed v))),
           (''bar_refs'', JList (map source_ref_wire (sn_bar_refs v))),
           (''bar_dates'', JList (map (JStr \<circ> isoformat) (sn_bar_dates v))),
           (''sessions'', JList (map session_wire (sn_sessions v))),
           (''split_adjustment_refs'', JList (map source_ref_wire (sn_split_adjustment_refs v))),
           (''split_adjustments'', JList (map adjustment_wire (sn_split_adjustments v))),
           (''quote_source_ref'', source_ref_wire (sn_quote_source_ref v)),
           (''coverage'', JStr (coverage_value (sn_coverage v))),
           (''freshness'', JStr (freshness_value (sn_freshness v))),
           (''coverage_warning'', optional_text (sn_coverage_warning v)),
           (''reasons'', JList (map (JStr \<circ> closed_reason_value) (sn_reasons v))),
           (''producer_version'', JStr (sn_producer_version v)),
           (''schema_version'', JStr (sn_schema_version v))]"

definition canonical_market_wire_bytes :: "json \<Rightarrow> string outcome" where
  "canonical_market_wire_bytes wire =
     (let canonical = dumps wire in bindO (require (\<not> length canonical > MAX_MARKET_SNAPSHOT_BYTES)) (\<lambda>_. Inr canonical))"

definition market_wire :: "market_snapshot \<Rightarrow> json outcome" where
  "market_wire v =
     bindO (eachO split_verify_source_binding (sn_split_adjustments v)) (\<lambda>_.
     bindO (canonical_market_wire_bytes (market_wire_body v)) (\<lambda>_. Inr (market_wire_body v)))"

definition MARKET_HASH_DOMAIN :: string where
  "MARKET_HASH_DOMAIN = ''seven-lens.p4c.market-snapshot.v1'' @ [CHR 0x00]"

definition market_compute_hash :: "digest \<Rightarrow> market_snapshot \<Rightarrow> string outcome" where
  "market_compute_hash sha256 v =
     bindO (market_wire v) (\<lambda>wire.
     bindO (canonical_market_wire_bytes wire) (\<lambda>canonical. Inr (sha256 (MARKET_HASH_DOMAIN @ canonical))))"

definition market_verify_integrity :: "digest \<Rightarrow> market_snapshot \<Rightarrow> unit outcome" where
  "market_verify_integrity sha256 v = bindO (market_compute_hash sha256 v) (\<lambda>h. require (sn_snapshot_hash v = h))"

definition market_snapshot_post_init :: "digest \<Rightarrow> nat \<Rightarrow> market_snapshot \<Rightarrow> market_snapshot outcome" where
  "market_snapshot_post_init sha256 prec v =
     bindO (validate_market_snapshot_fields prec v) (\<lambda>_.
     bindO (require (fullmatch HASH_TEXT (sn_snapshot_hash v))) (\<lambda>_.
     bindO (market_verify_integrity sha256 v) (\<lambda>_. Inr v)))"

interpretation market_seal: hash_bound "market_compute_hash sha" sn_snapshot_hash "\<lambda>h r. r\<lparr>sn_snapshot_hash := h\<rparr>" "market_verify_integrity sha" for sha
  by unfold_locales (simp_all add: market_verify_integrity_def market_compute_hash_def market_wire_def market_wire_body_def)

end
