(* ===== verification/Market_Assembly.thy ===== *)
theory Market_Assembly
  imports Market_Snapshot
begin

text \<open>
  \<open>market_data/snapshots.py\<close>, the computations: the split-aware average dollar volume over
  twenty sessions, the freshness of a quote, and the assembler that is the only way to a
  market snapshot. Then what they compute: the latest twenty sessions before the cutoff and
  nothing dated or learned later, the exact midpoint, and the exact spread.
\<close>

section \<open>Average dollar volume\<close>

text \<open>The checks of the arguments, in the order of the code.\<close>

definition validate_adv_inputs ::
  "daily_bar list \<Rightarrow> market_session list \<Rightarrow> split_adjustment list \<Rightarrow> utc option \<Rightarrow> utc option \<Rightarrow> string option \<Rightarrow> unit outcome" where
  "validate_adv_inputs bars sessions splits cutoff known_at security_id =
     bindO (require (length bars \<le> MAX_MARKET_SNAPSHOT_ITEMS)) (\<lambda>_.
     bindO (require (list_all bar_bound bars)) (\<lambda>_.
     bindO (validate_nyse_sessions sessions) (\<lambda>_.
     bindO (eachO split_verify_source_binding splits) (\<lambda>_.
     let target = (case security_id of Some i \<Rightarrow> Some i | None \<Rightarrow> (if bars = [] then None else Some (bar_security_id (hd bars)))) in
     eachO require
       [length splits \<le> MAX_MARKET_SNAPSHOT_SPLITS, list_all sa_confirmed splits,
        \<not> (splits \<noteq> [] \<and> security_id = None),
        (case security_id of None \<Rightarrow> True | Some i \<Rightarrow> list_all (\<lambda>a. sa_security_id a = i) splits),
        \<not> (security_id = None \<and> bars \<noteq> [] \<and> card (set (map bar_security_id bars)) \<noteq> 1),
        (case target of None \<Rightarrow> True | Some i \<Rightarrow> list_all (\<lambda>b. bar_security_id b = i) bars),
        list_all (\<lambda>a. sa_security_identity_hash a \<in> set (map (ba_identity_hash \<circ> bar_authority) bars)) splits,
        distinct (map sa_ex_date splits),
        (case (cutoff, known_at) of (Some c, Some k) \<Rightarrow> \<not> k > c | _ \<Rightarrow> True),
        list_all (\<lambda>b. bar_feed b = FEED_SIP_DELAYED) bars,
        map bar_trading_date bars = sort_key toordinal (map bar_trading_date bars),
        list_all (\<lambda>b. open_on sessions (bar_trading_date b)) bars]))))"

fun index_bars :: "utc option \<Rightarrow> utc option \<Rightarrow> (pydate \<times> daily_bar) list \<Rightarrow> daily_bar list \<Rightarrow> (pydate \<times> daily_bar) list outcome" where
  "index_bars cutoff known_at by_date [] = Inr by_date"
| "index_bars cutoff known_at by_date (b # bs) =
     (if map_of by_date (bar_trading_date b) \<noteq> None then Inl ValueError
      else if (case cutoff of None \<Rightarrow> False | Some c \<Rightarrow> \<not> date_less (bar_trading_date b) (utc_date c)) then Inl ValueError
      else if (case known_at of None \<Rightarrow> False | Some k \<Rightarrow> bar_available_at b > k) then Inl ValueError
      else index_bars cutoff known_at (dict_set (bar_trading_date b) b by_date) bs)"

text \<open>The open sessions before the cutoff, latest first; without a cutoff, before the last session.\<close>

definition adv_cutoff_date :: "market_session list \<Rightarrow> utc option \<Rightarrow> pydate option" where
  "adv_cutoff_date sessions cutoff =
     (case cutoff of Some c \<Rightarrow> Some (utc_date c)
      | None \<Rightarrow> if sessions = [] then None else Some (last (sort_key toordinal (map ms_trading_date sessions))))"

definition qualifying_dates :: "market_session list \<Rightarrow> pydate option \<Rightarrow> pydate list" where
  "qualifying_dates sessions cutoff_date =
     remdups (map ms_trading_date (filter (\<lambda>s. (ms_day_kind s = DAY_REGULAR \<or> ms_day_kind s = DAY_HALF)
       \<and> (case cutoff_date of None \<Rightarrow> True | Some d \<Rightarrow> date_less (ms_trading_date s) d)) sessions))"

definition latest_first :: "pydate list \<Rightarrow> pydate list" where
  "latest_first ds = rev (sort_key toordinal ds)"

definition adv_bars ::
  "market_session list \<Rightarrow> utc option \<Rightarrow> (pydate \<times> daily_bar) list \<Rightarrow> daily_bar list option outcome" where
  "adv_bars sessions cutoff bar_by_date =
     (let cutoff_date = adv_cutoff_date sessions cutoff;
          ordered = latest_first (qualifying_dates sessions cutoff_date) in
      case cutoff of
        Some c \<Rightarrow>
          (let required = take ADV_REQUIRED_SESSIONS ordered in
           if length required < ADV_REQUIRED_SESSIONS \<or> list_ex (\<lambda>d. map_of bar_by_date d = None) required then Inr None
           else bindO (require_complete_weekday_window sessions (last required) (utc_date c)) (\<lambda>_.
                Inr (Some (map (the \<circ> map_of bar_by_date) required))))
      | None \<Rightarrow>
          (let eligible = take ADV_REQUIRED_SESSIONS (List.map_filter (map_of bar_by_date) ordered) in
           if length eligible < ADV_REQUIRED_SESSIONS then Inr None
           else bindO (case cutoff_date of None \<Rightarrow> Inr ()
                       | Some d \<Rightarrow> require_complete_weekday_window sessions (bar_trading_date (last eligible)) d) (\<lambda>_.
                Inr (Some eligible))))"

text \<open>Whether a split adjusts a bar.\<close>

definition split_applies :: "utc option \<Rightarrow> utc option \<Rightarrow> daily_bar \<Rightarrow> split_adjustment \<Rightarrow> bool" where
  "split_applies cutoff known_at b a \<longleftrightarrow>
     (case cutoff of
        None \<Rightarrow> (case known_at of None \<Rightarrow> sa_available_at a \<le> bar_available_at b | Some k \<Rightarrow> sa_available_at a \<le> k)
      | Some c \<Rightarrow> (case known_at of None \<Rightarrow> False | Some k \<Rightarrow> sa_available_at a \<le> k) \<and> \<not> date_less (utc_date c) (sa_ex_date a))
     \<and> date_less (bar_trading_date b) (sa_ex_date a)"

fun adjust_bar :: "nat \<Rightarrow> utc option \<Rightarrow> utc option \<Rightarrow> daily_bar \<Rightarrow> split_adjustment list \<Rightarrow> decimal \<Rightarrow> decimal \<Rightarrow> (decimal \<times> decimal) outcome" where
  "adjust_bar prec cutoff known_at b [] close volume = Inr (close, volume)"
| "adjust_bar prec cutoff known_at b (a # as) close volume =
     (if split_applies cutoff known_at b a
      then bindO (dec_mul prec close (Dec (sa_denominator a) 0)) (\<lambda>scaled_close.
           bindO (dec_div prec scaled_close (Dec (sa_numerator a) 0)) (\<lambda>new_close.
           bindO (dec_mul prec volume (Dec (sa_numerator a) 0)) (\<lambda>scaled_volume.
           bindO (dec_div prec scaled_volume (Dec (sa_denominator a) 0)) (\<lambda>new_volume.
           adjust_bar prec cutoff known_at b as new_close new_volume))))
      else adjust_bar prec cutoff known_at b as close volume)"

fun dollar_volume :: "nat \<Rightarrow> utc option \<Rightarrow> utc option \<Rightarrow> split_adjustment list \<Rightarrow> daily_bar list \<Rightarrow> decimal \<Rightarrow> decimal outcome" where
  "dollar_volume prec cutoff known_at splits [] sum0 = Inr sum0"
| "dollar_volume prec cutoff known_at splits (b # bs) sum0 =
     bindO (adjust_bar prec cutoff known_at b splits (bar_close b) (Dec (bar_volume b) 0)) (\<lambda>(close, volume).
     bindO (dec_mul prec close volume) (\<lambda>amount.
     bindO (dec_add prec sum0 amount) (\<lambda>sum1. dollar_volume prec cutoff known_at splits bs sum1)))"

definition compute_adv20 ::
  "nat \<Rightarrow> daily_bar list \<Rightarrow> market_session list \<Rightarrow> split_adjustment list \<Rightarrow> utc option \<Rightarrow> utc option \<Rightarrow> string option \<Rightarrow> decimal option outcome" where
  "compute_adv20 prec bars sessions splits cutoff known_at0 security_id =
     (let known_at = (case known_at0 of Some k \<Rightarrow> Some k | None \<Rightarrow> cutoff) in
      bindO (validate_adv_inputs bars sessions splits cutoff known_at security_id) (\<lambda>_.
      bindO (index_bars cutoff known_at [] bars) (\<lambda>bar_by_date.
      bindO (adv_bars sessions cutoff bar_by_date) (\<lambda>found.
      (case found of
         None \<Rightarrow> Inr None
       | Some eligible \<Rightarrow>
           bindO (dollar_volume prec cutoff known_at splits eligible (Dec 0 0)) (\<lambda>total.
           bindO (dec_div prec total (Dec 20 0)) (\<lambda>adv. Inr (Some adv))))))))"

section \<open>Freshness\<close>

definition derive_freshness :: "quote_input \<Rightarrow> utc \<Rightarrow> market_session list \<Rightarrow> int \<Rightarrow> (freshness \<times> closed_reason list) outcome" where
  "derive_freshness quote as_of sessions max_age_seconds =
     (if qi_observed_at quote > as_of then Inr (CONFLICT, [MARKET_DATA_CONFLICT])
      else if qi_received_at quote < qi_observed_at quote \<or> qi_received_at quote > as_of then Inr (CONFLICT, [MARKET_DATA_CONFLICT])
      else let session = find (\<lambda>s. ms_trading_date s = utc_date as_of) sessions in
        if (case session of
              None \<Rightarrow> True
            | Some s \<Rightarrow> ms_day_kind s = DAY_CLOSED
                \<or> (case ms_regular_session s of None \<Rightarrow> True
                   | Some w \<Rightarrow> \<not> window_contains w as_of \<or> \<not> window_contains w (qi_observed_at quote)))
        then Inr (CONFLICT, [MARKET_DATA_CONFLICT])
        else if max_age_seconds < 0 then Inl ValueError
        else if as_of - qi_observed_at quote > max_age_seconds * SECOND then Inr (STALE, [QUOTE_MISSING_OR_STALE])
        else Inr (FRESH, []))"

definition validate_quote_age :: "utc \<Rightarrow> utc \<Rightarrow> utc \<Rightarrow> freshness" where
  "validate_quote_age as_of observed_at received_at =
     (if observed_at > as_of then CONFLICT
      else if received_at < observed_at \<or> received_at > as_of then CONFLICT
      else if as_of - observed_at > QUOTE_MAX_AGE_SECONDS * SECOND then STALE
      else FRESH)"

section \<open>The assembler\<close>

text \<open>The midpoint, the spread and the hash are derived, whatever the caller supplied for them.\<close>

definition finalize_market_snapshot :: "digest \<Rightarrow> nat \<Rightarrow> market_snapshot \<Rightarrow> market_snapshot outcome" where
  "finalize_market_snapshot sha256 prec v =
     bindO (eachO require [dec_positive (sn_bid v) \<and> dec_positive (sn_ask v), \<not> dec_value (sn_bid v) > dec_value (sn_ask v)]) (\<lambda>_.
     bindO (mid_exact prec (sn_bid v) (sn_ask v)) (\<lambda>mid.
     let body = v\<lparr>sn_mid := mid, sn_spread_bps := fst (spread_exact (sn_bid v) (sn_ask v))\<rparr> in
     bindO (validate_market_snapshot_fields prec body) (\<lambda>_.
     bindO (market_compute_hash sha256 body) (\<lambda>computed.
     market_snapshot_post_init sha256 prec (body\<lparr>sn_snapshot_hash := computed\<rparr>)))))"

text \<open>The readback seam: the stored values must carry the derived midpoint, spread and hash.\<close>

definition reconstruct_market_snapshot :: "digest \<Rightarrow> nat \<Rightarrow> market_snapshot \<Rightarrow> market_snapshot outcome" where
  "reconstruct_market_snapshot sha256 prec v =
     bindO (require (fullmatch HASH_TEXT (sn_snapshot_hash v))) (\<lambda>_.
     bindO (eachO require [dec_positive (sn_bid v) \<and> dec_positive (sn_ask v), \<not> dec_value (sn_bid v) > dec_value (sn_ask v)]) (\<lambda>_.
     bindO (mid_exact prec (sn_bid v) (sn_ask v)) (\<lambda>mid.
     bindO (require (dec_value (sn_mid v) = dec_value mid)) (\<lambda>_.
     bindO (require (sn_spread_bps v = fst (spread_exact (sn_bid v) (sn_ask v)))) (\<lambda>_.
     bindO (finalize_market_snapshot sha256 prec v) (\<lambda>snapshot.
     bindO (require (sn_snapshot_hash snapshot = sn_snapshot_hash v)) (\<lambda>_. Inr snapshot)))))))"

definition assemble_market_snapshot ::
  "digest \<Rightarrow> nat \<Rightarrow> string \<Rightarrow> string \<Rightarrow> utc \<Rightarrow> utc \<Rightarrow> quote_input \<Rightarrow> daily_bar list \<Rightarrow> market_session list \<Rightarrow>
   split_adjustment list \<Rightarrow> decimal option \<Rightarrow> string \<Rightarrow> market_snapshot outcome" where
  "assemble_market_snapshot sha256 prec security_id symbol as_of known_at quote bars sessions splits last_price schema_version =
     bindO (require (\<not> known_at > as_of)) (\<lambda>_.
     bindO (quote_verify_source_binding quote) (\<lambda>_.
     bindO (eachO require
       [qi_symbol quote = symbol, length bars \<le> MAX_MARKET_SNAPSHOT_ITEMS, list_all bar_bound bars,
        list_all (\<lambda>b. bar_security_id b = security_id) bars]) (\<lambda>_.
     bindO (validate_nyse_sessions sessions) (\<lambda>_.
     bindO (eachO split_verify_source_binding splits) (\<lambda>_.
     bindO (eachO require
       [length splits \<le> MAX_MARKET_SNAPSHOT_SPLITS, list_all (\<lambda>a. sa_security_id a = security_id) splits,
        (case last_price of None \<Rightarrow> True | Some d \<Rightarrow> dec_positive d),
        qi_feed quote = FEED_IEX, qi_entitlement quote = ENTITLED_IEX,
        \<not> (qi_observed_at quote > known_at \<or> qi_received_at quote > known_at)]) (\<lambda>_.
     bindO (mid_exact prec (qi_bid quote) (qi_ask quote)) (\<lambda>mid.
     bindO (require (case last_price of None \<Rightarrow> True | Some d \<Rightarrow> dec_value d = dec_value mid)) (\<lambda>_.
     bindO (derive_freshness quote as_of sessions QUOTE_MAX_AGE_SECONDS) (\<lambda>(fresh, fresh_reasons).
     bindO (require (fresh \<noteq> CONFLICT)) (\<lambda>_.
     bindO (compute_adv20 prec bars sessions splits (Some as_of) (Some known_at) (Some security_id)) (\<lambda>adv20_usd.
     let reasons = fresh_reasons @ (if snd (spread_exact (qi_bid quote) (qi_ask quote)) then [SPREAD_TOO_WIDE] else [])
                   @ (if adv20_usd = None then [ADV_BELOW_MINIMUM] else [])
                   @ (if bars \<noteq> [] \<and> card (set (map bar_feed bars)) \<noteq> 1 then [MARKET_DATA_CONFLICT] else []) in
     finalize_market_snapshot sha256 prec
       \<lparr>sn_security_id = security_id, sn_symbol = symbol, sn_as_of = as_of, sn_known_at = known_at,
        sn_observed_at = qi_observed_at quote, sn_received_at = qi_received_at quote, sn_feed = qi_feed quote,
        sn_entitlement = qi_entitlement quote, sn_bid = qi_bid quote, sn_ask = qi_ask quote, sn_mid = mid,
        sn_spread_bps = fst (spread_exact (qi_bid quote) (qi_ask quote)), sn_quote_source_ref = qi_source_ref quote,
        sn_coverage = COVERAGE_LIMITED, sn_freshness = fresh, sn_producer_version = MARKET_PRODUCER_VERSION,
        sn_schema_version = schema_version, sn_sessions = sessions, sn_last = Some mid, sn_adv20_usd = adv20_usd,
        sn_bar_feed = (if bars = [] then None else Some (bar_feed (hd bars))),
        sn_bar_refs = sort_key sr_record_id (remdups (map bar_source_ref bars)),
        sn_bar_dates = sort_key toordinal (remdups (map bar_trading_date bars)),
        sn_split_adjustment_refs = sorted_refs (map sa_source_ref splits), sn_split_adjustments = splits,
        sn_coverage_warning = Some COVERAGE_WARNING, sn_reasons = canonical_reasons reasons,
        sn_snapshot_hash = []\<rparr>)))))))))))"

end
