(* ===== verification/Market_Facts.thy ===== *)
theory Market_Facts
  imports Market_Assembly
begin

text \<open>
  What an assembled snapshot says: prices from a source record have at most twelve digits before
  the point and eight behind it, so the midpoint is exact at every precision from 21 digits
  on; the spread and the freshness are the exact ones, and a snapshot reads back as itself.
\<close>

section \<open>Prices of a source record\<close>

definition priced :: "decimal \<Rightarrow> bool" where
  "priced d \<longleftrightarrow> (\<exists>c e. d = Dec c e \<and> 0 < c \<and> c < 10 ^ nat (12 - e) \<and> -8 \<le> e \<and> e \<le> 0)"

lemma lang_optional: "lang (Rep 0 1 r) = insert [] (lang r)"
  by (simp add: One_nat_def)

lemma source_decimal_text:
  assumes "fullmatch SOURCE_DECIMAL_TEXT s"
  obtains w t p where "s = w @ t" "1 \<le> length w" "length w \<le> 12" "list_all is_digit w" "list_all is_digit p" "length p \<le> 8"
    "t = [] \<and> p = [] \<or> t = CHR ''.'' # p"
proof -
  from assms obtain w t where s: "s = w @ t" "w \<in> lang (Rep 1 12 (Cls is_digit))" "t = [] \<or> t \<in> lang (Seq (Lit ''.'') (Rep 1 8 (Cls is_digit)))"
    unfolding fullmatch_iff SOURCE_DECIMAL_TEXT_def lang.simps(3) lang_optional by auto
  have w: "1 \<le> length w" "length w \<le> 12" "list_all is_digit w" using s(2) unfolding lang_Rep_Cls by simp_all
  from s(3) show thesis
  proof
    assume "t = []"
    then show thesis using that [of w t "[]"] s(1) w by simp
  next
    assume "t \<in> lang (Seq (Lit ''.'') (Rep 1 8 (Cls is_digit)))"
    then obtain p where "t = CHR ''.'' # p" "p \<in> lang (Rep 1 8 (Cls is_digit))" unfolding lang.simps(2,3) by auto
    then show thesis using that [of w t p] s(1) w unfolding lang_Rep_Cls by simp
  qed
qed

lemma digit_facts:
  assumes "is_digit c"
  shows "\<not> is_space c" "\<not> is_upper c" "c \<noteq> CHR ''_''" "c \<noteq> CHR ''-''" "c \<noteq> CHR ''+''" "c \<noteq> CHR ''i''" "c \<noteq> CHR ''n''" "c \<noteq> CHR ''s''"
  using assms by (auto simp: is_digit_def is_space_def is_upper_def Let_def)


lemma plain_text:
  assumes "list_all (\<lambda>c. is_digit c \<or> c = CHR ''.'') s"
  shows "py_strip s = s" "filter (\<lambda>c. c \<noteq> CHR ''_'') s = s" "map lower_char s = s"
proof -
  have no_space: "\<not> is_space c" "c \<noteq> CHR ''_''" "lower_char c = c" if "c \<in> set s" for c
  proof -
    have dot: "\<not> is_space CHR ''.''" "\<not> is_upper CHR ''.''" by (simp_all add: is_space_def is_upper_def)
    from assms that have "is_digit c \<or> c = CHR ''.''" by (simp add: list_all_iff)
    then show "\<not> is_space c" "c \<noteq> CHR ''_''" "lower_char c = c" using digit_facts(1-3) dot unfolding lower_char_def by auto
  qed
  have "dropWhile is_space t = t" if "set t \<subseteq> set s" for t
    using that no_space(1) by (cases t) auto
  then show "py_strip s = s" by (simp add: py_strip_def)
  show "filter (\<lambda>c. c \<noteq> CHR ''_'') s = s" "map lower_char s = s" using no_space by (auto simp: filter_id_conv map_idI)
qed

lemma read_source_text:
  assumes "1 \<le> length w" "list_all is_digit w" "list_all is_digit p" "t = [] \<and> p = [] \<or> t = CHR ''.'' # p"
  shows "Decimal (w @ t) = Inr (Dec (int (read_nat (w @ p))) (- int (length p)))"
proof -
  obtain c w' where w: "w = c # w'" "is_digit c" using assms(1,2) by (cases w) auto
  have plain: "list_all (\<lambda>c. is_digit c \<or> c = CHR ''.'') (w @ t)" using assms(2-4) by (auto simp: list_all_iff)
  have sign: "split_sign (w @ t) = (1, w @ t)" using w digit_facts(4,5) [of c] by (simp add: split_sign_def)
  have special: "\<not> read_special (w @ t)" using w digit_facts(6-8) [of c] by (auto simp: read_special_def)
  have dot: "\<not> is_digit CHR ''.''" by (simp add: is_digit_def)
  have tw: "takeWhile is_digit (w @ t) = w" "dropWhile is_digit (w @ t) = t"
    using assms(2,4) dot by (auto simp: takeWhile_append dropWhile_append list_all_iff)
  have tp: "takeWhile is_digit p = p" "dropWhile is_digit p = []" using assms(3) by (auto simp: takeWhile_eq_all_conv dropWhile_eq_Nil_conv list_all_iff)
  from assms(4) show ?thesis
  proof
    assume t: "t = [] \<and> p = []"
    then show ?thesis
      unfolding Decimal_def plain_text [OF plain] sign Let_def prod.case tw using special w by (simp add: read_exponent_def)
  next
    assume t: "t = CHR ''.'' # p"
    then have "(t \<noteq> [] \<and> hd t = CHR ''.'') = True" "tl t = p" by simp_all
    then show ?thesis
      unfolding Decimal_def plain_text [OF plain] sign Let_def prod.case tw using special w
      by (simp only: if_True tp) (simp add: read_exponent_def)
  qed
qed

lemma source_decimal_priced:
  assumes "source_decimal v = Inr d"
  shows "priced d" "dec_positive d"
proof -
  from assms obtain s where s: "fullmatch SOURCE_DECIMAL_TEXT s" "Decimal s = Inr d" and pos: "dec_positive d"
    by (auto simp: source_decimal_def bindO_eq_Inr split: json.splits)
  from s(1) obtain w t p where w: "s = w @ t" "1 \<le> length w" "length w \<le> 12" "list_all is_digit w" "list_all is_digit p" "length p \<le> 8"
    "t = [] \<and> p = [] \<or> t = CHR ''.'' # p" by (rule source_decimal_text)
  let ?c = "read_nat (w @ p)"
  have d: "d = Dec (int ?c) (- int (length p))" using read_source_text [OF w(2,4,5,7)] s(2) w(1) by simp
  have "?c < 10 ^ length (w @ p)" by (rule read_nat_less) (use w in simp)
  also have "\<dots> \<le> 10 ^ (12 + length p)" using w(3) by (intro power_increasing) auto
  finally have "int ?c < 10 ^ (12 + length p)" by (metis of_nat_less_iff of_nat_numeral of_nat_power)
  moreover have "0 < int ?c" using pos unfolding d by (auto simp: dec_positive_def dec_value_powi simp del: dec_value.simps intro: ccontr)
  ultimately show "priced d" unfolding priced_def d using w(6) by (auto simp: nat_add_distrib intro!: exI)
  show "dec_positive d" by fact
qed

section \<open>The midpoint\<close>

lemma aligned_price:
  assumes "0 < c" "c < 10 ^ nat (12 - e)" "m \<le> e" "e \<le> 0" "-8 \<le> m"
  shows "0 < c * 10 ^ nat (e - m)" "c * 10 ^ nat (e - m) < (10 :: int) ^ 20"
proof -
  show "0 < c * 10 ^ nat (e - m)" using assms(1) by simp
  have "c * 10 ^ nat (e - m) < 10 ^ nat (12 - e) * 10 ^ nat (e - m)" using assms(2) by (intro mult_strict_right_mono) simp_all
  also have "\<dots> = 10 ^ nat (12 - m)" using assms(3,4) by (simp add: power_add [symmetric] nat_add_distrib [symmetric])
  also have "\<dots> \<le> 10 ^ 20" using assms(5) by (intro power_increasing) auto
  finally show "c * 10 ^ nat (e - m) < (10 :: int) ^ 20" .
qed

lemma mid_exact_priced:
  assumes "priced bid" "priced ask" "21 \<le> prec" "prec \<le> 900000"
  shows "\<exists>d. mid_exact prec bid ask = Inr d \<and> dec_finite d \<and> dec_value d = (dec_value bid + dec_value ask) / 2"
proof -
  obtain a e where a: "bid = Dec a e" "0 < a" "a < 10 ^ nat (12 - e)" "-8 \<le> e" "e \<le> 0" using assms(1) by (auto simp: priced_def)
  obtain b f where b: "ask = Dec b f" "0 < b" "b < 10 ^ nat (12 - f)" "-8 \<le> f" "f \<le> 0" using assms(2) by (auto simp: priced_def)
  define p where "p = max prec (max (dec_digits bid) (dec_digits ask) + 2)"
  have digits: "digits c \<le> 20" if "0 < c" "c < 10 ^ nat (12 - x)" "-8 \<le> x" for c x
  proof -
    have "c < 10 ^ 20" using that by (intro less_le_trans [OF that(2)] power_increasing) auto
    then show ?thesis using that(1) by (intro digits_le) simp_all
  qed
  have p: "21 \<le> p" "p \<le> 900000" using assms(3,4) digits [OF a(2-4)] digits [OF b(2-4)] by (auto simp: p_def a(1) b(1))
  let ?m = "min e f"
  define c where "c = a * 10 ^ nat (e - ?m) + b * 10 ^ nat (f - ?m)"
  have m: "-8 \<le> ?m" "?m \<le> 0" using a b by auto
  have c: "0 < c" "5 * c < 10 ^ 21"
    using aligned_price [OF a(2,3) _ a(5) m(1)] aligned_price [OF b(2,3) _ b(5) m(1)] unfolding c_def by simp_all
  have big: "(10 :: int) ^ 21 \<le> 10 ^ p" using p(1) by (intro power_increasing) auto
  have e_range: "EMIN \<le> ?m" "?m + int p \<le> EMAX" "EMIN + int p + 3 \<le> ?m" "0 < p" using m p by (simp_all add: EMIN_def EMAX_def)
  have small: "\<bar>c\<bar> < 10 ^ p" using c big by linarith
  note sum = dec_add_exact [of a e f b p, folded c_def, OF small e_range(4,1,2)]
  have "5 * c < 10 ^ p" using c big by linarith
  from dec_half_exact [OF c(1) this e_range(4,3,2)] obtain d where
    "dec_div p (Dec c ?m) (Dec 2 0) = Inr d" "dec_finite d" "dec_value d = dec_value (Dec c ?m) / 2" by blast
  moreover have "mid_exact prec bid ask = bindO (dec_add p bid ask) (\<lambda>s. dec_div p s (Dec 2 0))"
    by (simp add: mid_exact_def p_def Let_def)
  ultimately show ?thesis using sum unfolding a(1) b(1) by (simp del: dec_value.simps)
qed

section \<open>Snapshots\<close>

lemmas market_hash_hash [simp] = market_seal.hash_ignores_hash

lemma post_init_ok:
  "market_snapshot_post_init sha prec v = Inr m \<longleftrightarrow>
     m = v \<and> validate_market_snapshot_fields prec v = Inr () \<and> fullmatch HASH_TEXT (sn_snapshot_hash v) \<and> market_verify_integrity sha v = Inr ()"
  by (auto simp: market_snapshot_post_init_def bindO_eq_Inr)

lemma finalize_ok:
  assumes "finalize_market_snapshot sha prec v = Inr m"
  obtains mid h where "mid_exact prec (sn_bid v) (sn_ask v) = Inr mid"
    "m = v\<lparr>sn_mid := mid, sn_spread_bps := fst (spread_exact (sn_bid v) (sn_ask v)), sn_snapshot_hash := h\<rparr>"
    "market_compute_hash sha m = Inr h" "market_snapshot_post_init sha prec m = Inr m"
proof -
  from assms obtain mid h where mid: "mid_exact prec (sn_bid v) (sn_ask v) = Inr mid"
    and h: "market_compute_hash sha (v\<lparr>sn_mid := mid, sn_spread_bps := fst (spread_exact (sn_bid v) (sn_ask v))\<rparr>) = Inr h"
    and m: "market_snapshot_post_init sha prec
       (v\<lparr>sn_mid := mid, sn_spread_bps := fst (spread_exact (sn_bid v) (sn_ask v)), sn_snapshot_hash := h\<rparr>) = Inr m"
    unfolding finalize_market_snapshot_def bindO_eq_Inr Let_def by auto
  then have "m = v\<lparr>sn_mid := mid, sn_spread_bps := fst (spread_exact (sn_bid v) (sn_ask v)), sn_snapshot_hash := h\<rparr>"
    unfolding post_init_ok by simp
  then show thesis using that mid h m by simp
qed

text \<open>The checks of a snapshot that later arguments use.\<close>

lemma validated:
  assumes "validate_market_snapshot_fields prec v = Inr ()"
  shows "dec_positive (sn_bid v)" "dec_positive (sn_ask v)" "dec_value (sn_bid v) \<le> dec_value (sn_ask v)"
    "SPREAD_TOO_WIDE \<in> set (sn_reasons v) \<longleftrightarrow> snd (spread_exact (sn_bid v) (sn_ask v))"
    "sn_spread_bps v = fst (spread_exact (sn_bid v) (sn_ask v))"
    "\<exists>mid. mid_exact prec (sn_bid v) (sn_ask v) = Inr mid \<and> dec_value (sn_mid v) = dec_value mid"
    "\<exists>p. sn_last v = Some p \<and> dec_value p = dec_value (sn_mid v)"
    "sn_observed_at v \<le> sn_received_at v" "sn_received_at v \<le> sn_known_at v" "sn_known_at v \<le> sn_as_of v"
    "open_at (sn_sessions v) (sn_as_of v)" "open_at (sn_sessions v) (sn_observed_at v)"
    "sn_freshness v = (if sn_as_of v - sn_observed_at v \<le> 5 * SECOND then FRESH else STALE)"
    "distinct (sn_bar_dates v)" "list_all (open_on (sn_sessions v)) (sn_bar_dates v)"
    "distinct (map ms_trading_date (sn_sessions v))"
proof -
  note v = assms [unfolded validate_market_snapshot_fields_def bindO_eq_Inr Let_def eachO.simps eachO_eq_Inr require_eq_Inr case_prod_unfold
      validate_nyse_sessions_def QUOTE_MAX_AGE_SECONDS_def]
  show "dec_positive (sn_bid v)" "dec_positive (sn_ask v)" "dec_value (sn_bid v) \<le> dec_value (sn_ask v)"
    "SPREAD_TOO_WIDE \<in> set (sn_reasons v) \<longleftrightarrow> snd (spread_exact (sn_bid v) (sn_ask v))"
    "sn_spread_bps v = fst (spread_exact (sn_bid v) (sn_ask v))"
    using v by auto
  show "\<exists>mid. mid_exact prec (sn_bid v) (sn_ask v) = Inr mid \<and> dec_value (sn_mid v) = dec_value mid"
    "\<exists>p. sn_last v = Some p \<and> dec_value p = dec_value (sn_mid v)"
    using v by (auto split: option.splits)
  show "sn_observed_at v \<le> sn_received_at v" "sn_received_at v \<le> sn_known_at v" "sn_known_at v \<le> sn_as_of v"
    "open_at (sn_sessions v) (sn_as_of v)" "open_at (sn_sessions v) (sn_observed_at v)"
    "sn_freshness v = (if sn_as_of v - sn_observed_at v \<le> 5 * SECOND then FRESH else STALE)"
    "list_all (open_on (sn_sessions v)) (sn_bar_dates v)" "distinct (map ms_trading_date (sn_sessions v))"
    using v by auto
  have "sn_bar_dates v = sort_key toordinal (remdups (sn_bar_dates v))" using v by auto
  then show "distinct (sn_bar_dates v)" by (metis distinct_remdups distinct_sort)
qed

text \<open>The assembler hands the quote to the snapshot unchanged.\<close>

lemma assembled:
  assumes "assemble_market_snapshot sha prec sid symbol as_of known_at quote bars sessions splits last_price sv = Inr m"
  obtains v where "finalize_market_snapshot sha prec v = Inr m"
    "sn_bid v = qi_bid quote" "sn_ask v = qi_ask quote" "sn_as_of v = as_of" "sn_known_at v = known_at"
    "sn_observed_at v = qi_observed_at quote" "sn_received_at v = qi_received_at quote" "sn_sessions v = sessions"
    "sn_security_id v = sid" "sn_symbol v = symbol"
    "compute_adv20 prec bars sessions splits (Some as_of) (Some known_at) (Some sid) = Inr (sn_adv20_usd v)"
  using assms unfolding assemble_market_snapshot_def bindO_eq_Inr Let_def case_prod_unfold
  by (elim exE conjE) (rule that, assumption, simp_all)

lemma finalized_reads_back:
  assumes "finalize_market_snapshot sha prec v = Inr m"
  shows "reconstruct_market_snapshot sha prec m = Inr m"
proof -
  from assms obtain mid h where mid: "mid_exact prec (sn_bid v) (sn_ask v) = Inr mid"
    and m: "m = v\<lparr>sn_mid := mid, sn_spread_bps := fst (spread_exact (sn_bid v) (sn_ask v)), sn_snapshot_hash := h\<rparr>"
    and h: "market_compute_hash sha m = Inr h" and init: "market_snapshot_post_init sha prec m = Inr m"
    by (rule finalize_ok)
  have same: "m\<lparr>sn_mid := mid, sn_spread_bps := fst (spread_exact (sn_bid m) (sn_ask m))\<rparr> = m" "m\<lparr>sn_snapshot_hash := h\<rparr> = m"
    unfolding m by simp_all
  have mid': "mid_exact prec (sn_bid m) (sn_ask m) = Inr mid" and mv: "sn_mid m = mid" "sn_spread_bps m = fst (spread_exact (sn_bid m) (sn_ask m))"
    using mid unfolding m by simp_all
  have ok: "validate_market_snapshot_fields prec m = Inr ()" "fullmatch HASH_TEXT (sn_snapshot_hash m)"
    using init unfolding post_init_ok by simp_all
  note v = validated(1-3) [OF ok(1)]
  have "finalize_market_snapshot sha prec m = Inr m"
    unfolding finalize_market_snapshot_def mid' bindO_simps Let_def same using v ok(1) h init same(2)
    by (simp add: not_less)
  then show ?thesis
    unfolding reconstruct_market_snapshot_def mid' bindO_simps using v ok(2) mv by (simp add: not_less)
qed

lemma quote_priced:
  assumes "quote_input_from_record sha r = Inr quote"
  shows "priced (qi_bid quote)" "priced (qi_ask quote)"
proof -
  from assms obtain x y where "source_decimal x = Inr (qi_bid quote)" "source_decimal y = Inr (qi_ask quote)"
    unfolding quote_input_from_record_def quote_input_post_init_def
    by (cases "payload_get (nr_payload r) ''symbol''"; cases "payload_get (nr_payload r) ''timestamp''") (auto simp: bindO_eq_Inr Let_def)
  then show "priced (qi_bid quote)" "priced (qi_ask quote)" by (simp_all add: source_decimal_priced)
qed

lemma spread_exact_mid:
  assumes "mid = (dec_value bid + dec_value ask) / 2"
  shows "fst (spread_exact bid ask) = \<lfloor>10000 * (dec_value ask - dec_value bid) / mid\<rfloor>"
    "snd (spread_exact bid ask) \<longleftrightarrow> 10000 * (dec_value ask - dec_value bid) > 30 * mid"
proof -
  have "(dec_value ask - dec_value bid) * 20000 / (dec_value bid + dec_value ask) = 10000 * (dec_value ask - dec_value bid) / mid"
    by (simp add: assms)
  then show "fst (spread_exact bid ask) = \<lfloor>10000 * (dec_value ask - dec_value bid) / mid\<rfloor>"
    by (simp only: spread_exact_def Let_def fst_conv)
  show "snd (spread_exact bid ask) \<longleftrightarrow> 10000 * (dec_value ask - dec_value bid) > 30 * mid"
    unfolding spread_exact_def Let_def snd_conv MAX_SPREAD_BPS_def assms by (auto simp: field_simps)
qed

end
