(* ===== verification/Adv_Facts.thy ===== *)
theory Adv_Facts
  imports Market_Facts
begin

text \<open>
  What the average dollar volume is computed from: the bars of the twenty latest open sessions
  before the cutoff, every one of them, adjusted by the splits known at the time and in force at
  the cutoff, and by nothing else.
\<close>

section \<open>The bars\<close>

lemma index_bars_ok:
  assumes "index_bars cutoff known_at by_date bars = Inr d"
  shows "d = by_date @ map (\<lambda>b. (bar_trading_date b, b)) bars"
    "\<forall>b\<in>set bars. (case cutoff of None \<Rightarrow> True | Some c \<Rightarrow> date_less (bar_trading_date b) (utc_date c))
       \<and> (case known_at of None \<Rightarrow> True | Some k \<Rightarrow> bar_available_at b \<le> k)"
  using assms
proof (induction cutoff known_at by_date bars rule: index_bars.induct)
  case (2 cutoff known_at by_date b bs)
  {
    case 1
    then have "bar_trading_date b \<notin> fst ` set by_date" by (auto simp: map_of_eq_None_iff split: if_splits)
    then show ?case using 1 2(1) by (auto simp: dict_set_new split: if_splits)
  next
    case 2
    then show ?case using "2.IH"(2) by (auto simp: not_less split: if_splits option.splits)
  }
qed simp_all

text \<open>The sessions the average is taken over.\<close>

definition adv_window :: "market_session list \<Rightarrow> utc \<Rightarrow> pydate list" where
  "adv_window sessions cutoff = take 20 (latest_first (qualifying_dates sessions (Some (utc_date cutoff))))"

lemma qualifying_iff:
  "d \<in> set (qualifying_dates sessions (Some c)) \<longleftrightarrow>
     date_less d c \<and> (\<exists>s\<in>set sessions. ms_trading_date s = d \<and> ms_day_kind s \<noteq> DAY_CLOSED)"
proof -
  have "k = DAY_REGULAR \<or> k = DAY_HALF \<longleftrightarrow> k \<noteq> DAY_CLOSED" for k by (cases k) auto
  then show ?thesis unfolding qualifying_dates_def by auto
qed

lemma adv_window_latest:
  assumes "d \<in> set (qualifying_dates sessions (Some (utc_date cutoff)))" "d \<notin> set (adv_window sessions cutoff)" "w \<in> set (adv_window sessions cutoff)"
  shows "toordinal d \<le> toordinal w"
proof -
  let ?ds = "latest_first (qualifying_dates sessions (Some (utc_date cutoff)))"
  have "sorted_wrt (\<lambda>x y. toordinal y \<le> toordinal x) ?ds"
    unfolding latest_first_def sorted_wrt_rev using sorted_sort_key [of toordinal] by (simp add: sorted_map)
  then have "sorted_wrt (\<lambda>x y. toordinal y \<le> toordinal x) (take 20 ?ds @ drop 20 ?ds)" by simp
  moreover have "d \<in> set (take 20 ?ds) \<union> set (drop 20 ?ds)"
    using assms(1) unfolding set_append [symmetric] append_take_drop_id by (simp add: latest_first_def)
  then have "d \<in> set (drop 20 ?ds)" using assms(2) unfolding adv_window_def by blast
  ultimately show ?thesis using assms(3) unfolding adv_window_def sorted_wrt_append by blast
qed

lemma adv_bars_cutoff:
  assumes "adv_bars sessions (Some c) d = Inr (Some bs)"
  shows "length (adv_window sessions c) = 20" "list_all2 (\<lambda>w b. map_of d w = Some b) (adv_window sessions c) bs"
proof -
  have w: "take ADV_REQUIRED_SESSIONS (latest_first (qualifying_dates sessions (adv_cutoff_date sessions (Some c)))) = adv_window sessions c"
    by (simp add: adv_window_def ADV_REQUIRED_SESSIONS_def adv_cutoff_date_def)
  have not_short: "\<not> (length (adv_window sessions c) < 20 \<or> list_ex (\<lambda>x. map_of d x = None) (adv_window sessions c))"
    and bs: "bs = map (the \<circ> map_of d) (adv_window sessions c)"
    using assms unfolding adv_bars_def Let_def option.case w by (auto simp: bindO_eq_Inr ADV_REQUIRED_SESSIONS_def split: if_splits)
  have "length (adv_window sessions c) \<le> 20" by (simp add: adv_window_def)
  then show "length (adv_window sessions c) = 20" using not_short by simp
  show "list_all2 (\<lambda>w b. map_of d w = Some b) (adv_window sessions c) bs"
    using not_short unfolding bs by (auto simp: list_ex_iff list_all2_conv_all_nth)
qed

section \<open>The splits\<close>

definition split_in_force :: "utc \<Rightarrow> utc \<Rightarrow> split_adjustment \<Rightarrow> bool" where
  "split_in_force cutoff known_at a \<longleftrightarrow> sa_available_at a \<le> known_at \<and> \<not> date_less (utc_date cutoff) (sa_ex_date a)"

lemma adjust_bar_filter:
  "adjust_bar prec (Some c) (Some k) b (filter (split_in_force c k) splits) close volume = adjust_bar prec (Some c) (Some k) b splits close volume"
proof (induction splits arbitrary: close volume)
  case (Cons a splits)
  have "split_applies (Some c) (Some k) b a \<Longrightarrow> split_in_force c k a" by (auto simp: split_applies_def split_in_force_def)
  then show ?case by (auto simp: Cons intro!: arg_cong2 [where f = bindO] ext)
qed simp

lemma dollar_volume_filter:
  "dollar_volume prec (Some c) (Some k) (filter (split_in_force c k) splits) bars t = dollar_volume prec (Some c) (Some k) splits bars t"
  by (induction bars arbitrary: t) (auto simp: adjust_bar_filter intro!: arg_cong2 [where f = bindO] ext)

section \<open>The average\<close>

lemma compute_adv20_cutoff:
  assumes "compute_adv20 prec bars sessions splits (Some c) (Some k) sid = Inr (Some v)"
  obtains used total where "map bar_trading_date used = adv_window sessions c" "length used = 20" "set used \<subseteq> set bars"
    "\<forall>b\<in>set used. bar_available_at b \<le> k \<and> date_less (bar_trading_date b) (utc_date c)"
    "dollar_volume prec (Some c) (Some k) (filter (split_in_force c k) splits) used (Dec 0 0) = Inr total"
    "dec_div prec total (Dec 20 0) = Inr v"
proof -
  from assms obtain d used total where d: "index_bars (Some c) (Some k) [] bars = Inr d" and used: "adv_bars sessions (Some c) d = Inr (Some used)"
    and total: "dollar_volume prec (Some c) (Some k) splits used (Dec 0 0) = Inr total" "dec_div prec total (Dec 20 0) = Inr v"
    unfolding compute_adv20_def Let_def option.case by (auto simp: bindO_eq_Inr split: option.splits)
  note bars = index_bars_ok [OF d, simplified]
  note window = adv_bars_cutoff [OF used]
  have each: "b \<in> set bars \<and> bar_trading_date b = w" if "map_of d w = Some b" for w b
    using map_of_SomeD [OF that] unfolding bars(1) by auto
  have used_bars: "map bar_trading_date used = adv_window sessions c \<and> set used \<subseteq> set bars"
    using window(2) by (induction rule: list_all2_induct) (auto dest: each)
  moreover have "length used = 20" using window list_all2_lengthD by metis
  moreover have "\<forall>b\<in>set used. bar_available_at b \<le> k \<and> date_less (bar_trading_date b) (utc_date c)"
    using used_bars bars(2) by blast
  ultimately show thesis using that [of used total] total by (simp add: dollar_volume_filter)
qed

text \<open>Without splits and for moderate amounts no step rounds.\<close>

definition bar_amount :: "daily_bar \<Rightarrow> rat" where
  "bar_amount b = dec_value (bar_close b) * of_int (bar_volume b)"

lemma dollar_volume_exact:
  assumes "27 \<le> prec" "prec \<le> 900000" "\<forall>b\<in>set bars. places (bar_close b) \<and> 0 \<le> bar_volume b"
    and "places t" "dec_value t + (\<Sum>b\<leftarrow>bars. bar_amount b) < 10 ^ 18"
  shows "\<exists>d. dollar_volume prec cutoff known_at [] bars t = Inr d \<and> places d \<and> dec_value d = dec_value t + (\<Sum>b\<leftarrow>bars. bar_amount b)"
  using assms(3-5)
proof (induction bars arbitrary: t)
  case (Cons b bars)
  have nonneg: "0 \<le> bar_amount x" if "x \<in> set (b # bars)" for x
    using Cons.prems(1) that places_value by (auto simp: bar_amount_def)
  have rest: "0 \<le> (\<Sum>b\<leftarrow>bars. bar_amount b)" by (rule sum_list_nonneg) (use nonneg in auto)
  have "dec_value (bar_close b) * of_int (bar_volume b) < 10 ^ 18"
    using Cons.prems(3) places_value [OF Cons.prems(2)] rest unfolding bar_amount_def by simp
  then obtain amount where amount: "dec_mul prec (bar_close b) (Dec (bar_volume b) 0) = Inr amount" "places amount" "dec_value amount = bar_amount b"
    using places_mul [OF _ _ _ assms(1,2)] Cons.prems(1) unfolding bar_amount_def by (metis list.set_intros(1))
  have "dec_value t + dec_value amount < 10 ^ 18" using Cons.prems(3) rest amount(3) by simp
  then obtain t' where t': "dec_add prec t amount = Inr t'" "places t'" "dec_value t' = dec_value t + bar_amount b"
    using places_add [OF Cons.prems(2) amount(2) _ assms(1,2)] amount(3) by auto
  then show ?case using Cons.IH [OF _ t'(2)] Cons.prems amount(1) t'(1) by (auto simp: add.assoc)
qed (use assms in auto)

lemma average_exact:
  assumes "27 \<le> prec" "prec \<le> 900000" "\<forall>b\<in>set used. places (bar_close b) \<and> 0 \<le> bar_volume b" "(\<Sum>b\<leftarrow>used. bar_amount b) < 10 ^ 18"
    and "dollar_volume prec cutoff known_at [] used (Dec 0 0) = Inr amount" "dec_div prec amount (Dec 20 0) = Inr v"
  shows "dec_value v = (\<Sum>b\<leftarrow>used. bar_amount b) / 20"
proof -
  have zero: "places (Dec 0 0)" "dec_value (Dec 0 0) = 0" by (simp_all add: places_def)
  have amount: "places amount" "dec_value amount = (\<Sum>b\<leftarrow>used. bar_amount b)"
    using dollar_volume_exact [OF assms(1-3) zero(1), of cutoff known_at] assms(4,5) zero(2) by auto
  show ?thesis using places_twentieth [OF amount(1) _ assms(1,2)] amount(2) assms(4,6) by auto
qed

end
