(* ===== verification/Security_Master.thy ===== *)
theory Security_Master
  imports Quarantine Source_Records
begin

text \<open>
  \<open>securities/in_memory.py\<close>: the append-only store of identities, split events and decisions.
  Dictionaries are association lists in insertion order. Every operation changes the store
  after its last check, so a raise leaves it as it was.
\<close>

section \<open>State\<close>

record security_master =
  sm_identity_by_hash :: "(string \<times> identity_record) list"
  sm_identity_order :: "string list"
  sm_identity_heads :: "(interval_key \<times> string) list"
  sm_event_by_hash :: "(string \<times> corporate_action) list"
  sm_event_previous :: "(string \<times> string option) list"
  sm_event_order :: "string list"
  sm_event_heads :: "(string \<times> string) list"
  sm_decision_by_hash :: "(string \<times> quarantine_decision) list"
  sm_decision_order :: "string list"

definition empty_master :: security_master where
  "empty_master =
     \<lparr>sm_identity_by_hash = [], sm_identity_order = [], sm_identity_heads = [], sm_event_by_hash = [], sm_event_previous = [],
      sm_event_order = [], sm_event_heads = [], sm_decision_by_hash = [], sm_decision_order = []\<rparr>"

type_synonym 'a master_op = "security_master \<Rightarrow> ('a \<times> security_master) outcome"

text \<open>\<open>d[k]\<close>, and \<open>_require_same_wire\<close>.\<close>

definition lookup :: "('k \<times> 'v) list \<Rightarrow> 'k \<Rightarrow> 'v outcome" where
  "lookup d k = (case map_of d k of None \<Rightarrow> Inl KeyError | Some v \<Rightarrow> Inr v)"

definition require_same_wire :: "json \<Rightarrow> json \<Rightarrow> unit outcome" where
  "require_same_wire first second = demand InMemorySecurityMasterError (first = second)"

section \<open>Identities\<close>

definition check_overlap :: "security_master \<Rightarrow> identity_record \<Rightarrow> string \<Rightarrow> unit outcome" where
  "check_overlap s record head_hash =
     bindO (lookup (sm_identity_by_hash s) head_hash) (\<lambda>head.
       demand InMemorySecurityMasterError
         (\<not> (ir_security_id head = ir_security_id record \<and> interval_key head \<noteq> interval_key record
             \<and> intervals_overlap (interval_of head) (interval_of record))))"

definition append_identity :: "digest \<Rightarrow> identity_record \<Rightarrow> append_outcome master_op" where
  "append_identity sha256 record s =
     bindO (identity_verify_integrity sha256 record) (\<lambda>_.
       case map_of (sm_identity_by_hash s) (ir_identity_hash record) of
         Some existing \<Rightarrow>
           bindO (require_same_wire (identity_wire existing) (identity_wire record)) (\<lambda>_. Inr (IDEMPOTENT_DUPLICATE, s))
       | None \<Rightarrow>
           let key = interval_key record;
               stored = (s\<lparr>sm_identity_by_hash := dict_set (ir_identity_hash record) record (sm_identity_by_hash s),
                           sm_identity_order := sm_identity_order s @ [ir_identity_hash record]\<rparr>) in
           bindO (eachO (check_overlap s record) (map snd (sm_identity_heads s))) (\<lambda>_.
           (case map_of (sm_identity_heads s) key of
              None \<Rightarrow> Inr (APPENDED, stored\<lparr>sm_identity_heads := dict_set key (ir_identity_hash record) (sm_identity_heads s)\<rparr>)
            | Some current_hash \<Rightarrow>
                bindO (lookup (sm_identity_by_hash s) current_hash) (\<lambda>current.
                bindO (demand InMemorySecurityMasterError
                         (\<not> (ir_available_at record = ir_available_at current
                             \<and> ir_identity_hash current \<noteq> ir_identity_hash record))) (\<lambda>_.
                Inr (APPENDED,
                     if ir_available_at record > ir_available_at current
                     then stored\<lparr>sm_identity_heads := dict_set key (ir_identity_hash record) (sm_identity_heads s)\<rparr>
                     else stored))))))"

definition identity_records :: "digest \<Rightarrow> string option \<Rightarrow> string option \<Rightarrow> security_master \<Rightarrow> identity_record list outcome" where
  "identity_records sha256 security_id symbol s =
     bindO (require (\<not> (security_id = None \<and> symbol = None))) (\<lambda>_.
     bindO (mapO (lookup (sm_identity_by_hash s)) (sm_identity_order s)) (\<lambda>records.
     let selected = filter (\<lambda>r. (security_id = None \<or> Some (ir_security_id r) = security_id)
                              \<and> (symbol = None \<or> Some (ir_symbol r) = symbol)) records in
     bindO (eachO (\<lambda>r. demand InMemorySecurityMasterError (identity_verify_integrity sha256 r = Inr ())) selected) (\<lambda>_.
     Inr selected)))"

section \<open>Events\<close>

definition validate_hash_or_none :: "string option \<Rightarrow> unit outcome" where
  "validate_hash_or_none v = require (optional_matches HASH_TEXT v)"

definition check_predecessor :: "digest \<Rightarrow> corporate_action \<Rightarrow> string option \<Rightarrow> security_master \<Rightarrow> unit outcome" where
  "check_predecessor sha256 record previous_hash s =
     (if ca_state record = CA_DETECTED then
        bindO (demand InMemorySecurityMasterError (previous_hash = None)) (\<lambda>_.
        demand InMemorySecurityMasterError (map_of (sm_event_heads s) (ca_event_id record) = None))
      else case previous_hash of
        None \<Rightarrow> Inl InMemorySecurityMasterError
      | Some h \<Rightarrow>
          (case map_of (sm_event_heads s) (ca_event_id record) of
             None \<Rightarrow> Inl InMemorySecurityMasterError
           | Some current_hash \<Rightarrow>
               bindO (demand InMemoryConcurrentTransitionError (current_hash = h)) (\<lambda>_.
               case map_of (sm_event_by_hash s) h of
                 None \<Rightarrow> Inl InMemorySecurityMasterError
               | Some previous \<Rightarrow> validate_transition sha256 previous record)))"

definition append_event :: "digest \<Rightarrow> corporate_action \<Rightarrow> string option \<Rightarrow> append_outcome master_op" where
  "append_event sha256 record previous_hash s =
     bindO (action_verify_integrity sha256 record) (\<lambda>_.
     bindO (validate_hash_or_none previous_hash) (\<lambda>_.
     bindO (demand InMemorySecurityMasterError
              (case map_of (sm_identity_by_hash s) (ca_security_identity_hash record) of
                 None \<Rightarrow> False | Some identity \<Rightarrow> ir_security_id identity = ca_security_id record)) (\<lambda>_.
       case map_of (sm_event_by_hash s) (ca_record_hash record) of
         Some existing \<Rightarrow>
           bindO (require_same_wire (action_wire existing) (action_wire record)) (\<lambda>_.
           bindO (lookup (sm_event_previous s) (ca_record_hash record)) (\<lambda>stored_previous.
           bindO (demand InMemorySecurityMasterError (stored_previous = previous_hash)) (\<lambda>_.
           Inr (IDEMPOTENT_DUPLICATE, s))))
       | None \<Rightarrow>
           bindO (check_predecessor sha256 record previous_hash s) (\<lambda>_.
           Inr (APPENDED,
                s\<lparr>sm_event_by_hash := dict_set (ca_record_hash record) record (sm_event_by_hash s),
                  sm_event_previous := dict_set (ca_record_hash record) previous_hash (sm_event_previous s),
                  sm_event_order := sm_event_order s @ [ca_record_hash record],
                  sm_event_heads := dict_set (ca_event_id record) (ca_record_hash record) (sm_event_heads s)\<rparr>)))))"

text \<open>
  The walk along the predecessor links: it stops with an error at a row it has seen, so it
  takes no more steps than there are rows.
\<close>

function walk_chain ::
  "digest \<Rightarrow> (string \<times> corporate_action) list \<Rightarrow> (string option \<times> string) list \<Rightarrow> string option \<Rightarrow>
   string list \<Rightarrow> corporate_action list \<Rightarrow> (string list \<times> corporate_action list) outcome" where
  "walk_chain sha256 by_hash by_previous None seen chain = Inr (seen, chain)"
| "walk_chain sha256 by_hash by_previous (Some current) seen chain =
     (if current \<in> set seen then Inl InMemorySecurityMasterError
      else case map_of by_hash current of
        None \<Rightarrow> Inl InMemorySecurityMasterError
      | Some record \<Rightarrow>
          if action_verify_integrity sha256 record \<noteq> Inr () then Inl InMemorySecurityMasterError
          else walk_chain sha256 by_hash by_previous (map_of by_previous (Some current)) (current # seen) (chain @ [record]))"
  by pat_completeness auto
termination
proof (relation "measure (\<lambda>(sha, by_hash, _, _, seen, _). card (fst ` set by_hash - set seen))")
  show "((sha, by_hash, prevs, map_of prevs (Some current), current # seen, chain @ [r]),
      (sha, by_hash, prevs, Some current, seen, chain))
      \<in> measure (\<lambda>(sha, by_hash, _, _, seen, _). card (fst ` set by_hash - set seen))"
    if "current \<notin> set seen" "map_of by_hash current = Some r"
    for sha :: digest and by_hash prevs current seen chain r
  proof -
    have "current \<in> fst ` set by_hash - set seen"
      using that by (metis DiffI imageI fst_conv map_of_SomeD)
    then have "fst ` set by_hash - set (current # seen) \<subset> fst ` set by_hash - set seen" by auto
    then show ?thesis by (auto intro: psubset_card_mono)
  qed
qed simp

definition event_lineage :: "digest \<Rightarrow> string \<Rightarrow> security_master \<Rightarrow> corporate_action list outcome" where
  "event_lineage sha256 event_id s =
     bindO (require (fullmatch EVENT_ID event_id)) (\<lambda>_.
     bindO (mapO (\<lambda>h. bindO (lookup (sm_event_by_hash s) h) (\<lambda>r. Inr (h, r))) (sm_event_order s)) (\<lambda>rows.
     let hashes = map fst (filter (\<lambda>(_, r). ca_event_id r = event_id) rows) in
     if hashes = [] then Inr []
     else
       bindO (mapO (\<lambda>h. bindO (lookup (sm_event_previous s) h) (\<lambda>p. Inr (p, h))) hashes) (\<lambda>links.
       let by_previous = foldl (\<lambda>d (p, h). dict_set p h d) [] links;
           root = map snd (filter (\<lambda>(p, _). p = None) links) in
       bindO (demand InMemorySecurityMasterError (length root = 1)) (\<lambda>_.
       bindO (walk_chain sha256 (sm_event_by_hash s) by_previous (Some (hd root)) [] []) (\<lambda>(seen, chain).
       bindO (demand InMemorySecurityMasterError (length seen = length hashes)) (\<lambda>_.
       bindO (validate_lineage sha256 chain) (\<lambda>_. Inr chain)))))))"

definition security_event_ids :: "string \<Rightarrow> security_master \<Rightarrow> string list" where
  "security_event_ids security_id s =
     sort (remdups (map ca_event_id (filter (\<lambda>r. ca_security_id r = security_id) (map snd (sm_event_by_hash s)))))"

section \<open>Decisions\<close>

definition record_decision :: "digest \<Rightarrow> quarantine_decision \<Rightarrow> append_outcome master_op" where
  "record_decision sha256 decision s =
     bindO (decision_verify_integrity sha256 decision) (\<lambda>_.
       case map_of (sm_decision_by_hash s) (qd_decision_hash decision) of
         Some existing \<Rightarrow>
           bindO (require_same_wire (decision_wire existing) (decision_wire decision)) (\<lambda>_. Inr (IDEMPOTENT_DUPLICATE, s))
       | None \<Rightarrow>
           Inr (APPENDED,
                s\<lparr>sm_decision_by_hash := dict_set (qd_decision_hash decision) decision (sm_decision_by_hash s),
                  sm_decision_order := sm_decision_order s @ [qd_decision_hash decision]\<rparr>))"

text \<open>\<open>max(decisions, key=..., default=None)\<close>: the first of the greatest.\<close>

fun max_decision :: "quarantine_decision \<Rightarrow> quarantine_decision list \<Rightarrow> quarantine_decision" where
  "max_decision best [] = best"
| "max_decision best (d # ds) =
     max_decision (if (qd_decision_at best, qd_decision_hash best) < (qd_decision_at d, qd_decision_hash d) then d else best) ds"

definition latest_decision :: "digest \<Rightarrow> string \<Rightarrow> security_master \<Rightarrow> quarantine_decision option outcome" where
  "latest_decision sha256 security_id s =
     bindO (mapO (lookup (sm_decision_by_hash s)) (sm_decision_order s)) (\<lambda>all.
     let decisions = filter (\<lambda>d. qd_security_id d = security_id) all in
     bindO (eachO (decision_verify_integrity sha256) decisions) (\<lambda>_.
     Inr (case decisions of [] \<Rightarrow> None | d # ds \<Rightarrow> Some (max_decision d ds))))"

section \<open>Transactions\<close>

text \<open>A body that raises leaves the snapshot taken at its start.\<close>

definition in_transaction :: "'a master_op \<Rightarrow> (security_master, 'a) comp" where
  "in_transaction body s = (case body s of Inl e \<Rightarrow> (Inl e, s) | Inr (a, s') \<Rightarrow> (Inr a, s'))"

end
