(* ===== verification/Security_Invariants.thy ===== *)
theory Security_Invariants
  imports Security_Master
begin

text \<open>
  The invariant of the security master and that every append keeps it: the tables are content
  addressed, no two validity intervals of a security overlap, the head of an interval is its
  strictly latest row, and the rows of an event are a legal lineage linked by their hashes.
\<close>

section \<open>Dictionaries\<close>

text \<open>Looking up every key of a dictionary gives its values.\<close>

lemma lookup_all:
  assumes "distinct (map fst d)"
  shows "mapO (lookup d) (map fst d) = Inr (map snd d)"
proof -
  have "mapO (lookup d) ks = Inr (map (\<lambda>k. the (map_of d k)) ks)" if "set ks \<subseteq> fst ` set d" for ks
  proof (rule mapO_map)
    show "list_all (\<lambda>k. lookup d k = Inr (the (map_of d k))) ks"
      using that by (auto simp: list_all_iff lookup_def map_of_eq_None_iff split: option.split dest!: subsetD)
  qed
  from this [of "map fst d"] show ?thesis using assms by (auto simp: map_of_is_SomeI intro!: map_cong)
qed

section \<open>Identities\<close>

abbreviation identities :: "security_master \<Rightarrow> identity_record list" where
  "identities s \<equiv> map snd (sm_identity_by_hash s)"

definition identity_stored :: "digest \<Rightarrow> string \<times> identity_record \<Rightarrow> bool" where
  "identity_stored sha e \<longleftrightarrow> ir_identity_hash (snd e) = fst e \<and> identity_post_init sha (snd e) = Inr (snd e)"

definition head_of :: "security_master \<Rightarrow> interval_key \<times> string \<Rightarrow> bool" where
  "head_of s e \<longleftrightarrow> (\<exists>r. map_of (sm_identity_by_hash s) (snd e) = Some r \<and> interval_key r = fst e
     \<and> latest_in {x \<in> set (identities s). interval_key x = fst e} r)"

definition disjoint_intervals :: "identity_record set \<Rightarrow> bool" where
  "disjoint_intervals R \<longleftrightarrow> (\<forall>a\<in>R. \<forall>b\<in>R. ir_security_id a = ir_security_id b \<and> interval_key a \<noteq> interval_key b \<longrightarrow>
     \<not> intervals_overlap (interval_of a) (interval_of b))"

lemma disjoint_insert:
  assumes "disjoint_intervals R"
    and "\<And>x. x \<in> R \<Longrightarrow> ir_security_id x = ir_security_id r \<Longrightarrow> interval_key x \<noteq> interval_key r \<Longrightarrow>
      \<not> intervals_overlap (interval_of x) (interval_of r)"
    and "\<And>x. x \<in> R \<Longrightarrow> ir_security_id x = ir_security_id r \<Longrightarrow> interval_key x \<noteq> interval_key r \<Longrightarrow>
      \<not> intervals_overlap (interval_of r) (interval_of x)"
  shows "disjoint_intervals (insert r R)"
  unfolding disjoint_intervals_def
proof (intro ballI impI)
  fix a b
  assume "a \<in> insert r R" "b \<in> insert r R" "ir_security_id a = ir_security_id b \<and> interval_key a \<noteq> interval_key b"
  then show "\<not> intervals_overlap (interval_of a) (interval_of b)"
    using assms(1) assms(2) [of a] assms(3) [of b] by (auto simp: disjoint_intervals_def)
qed

definition identities_ok :: "digest \<Rightarrow> security_master \<Rightarrow> bool" where
  "identities_ok sha s \<longleftrightarrow>
     sm_identity_order s = map fst (sm_identity_by_hash s)
     \<and> distinct (map fst (sm_identity_by_hash s))
     \<and> list_all (identity_stored sha) (sm_identity_by_hash s)
     \<and> distinct (map fst (sm_identity_heads s))
     \<and> list_all (head_of s) (sm_identity_heads s)
     \<and> fst ` set (sm_identity_heads s) = interval_key ` set (identities s)
     \<and> disjoint_intervals (set (identities s))"

lemma stored_interval_ok: "identity_post_init sha r = Inr x \<Longrightarrow> interval_ok (interval_of r)"
  by (auto simp: identity_post_init_def bindO_eq_Inr intro: identity_fields_interval)

text \<open>Keys separate intervals: the text of a timestamp determines it.\<close>

lemma interval_key_iff:
  assumes "identity_post_init sha r = Inr x" "identity_post_init sha r' = Inr x'"
  shows "interval_key r = interval_key r' \<longleftrightarrow> ir_security_id r = ir_security_id r' \<and> interval_of r = interval_of r'"
proof -
  have "utc_ok (ir_valid_from y) \<and> (case ir_valid_to y of None \<Rightarrow> True | Some t \<Rightarrow> utc_ok t)"
    if "identity_post_init sha y = Inr z" for y z
    using that by (auto simp: identity_post_init_def validate_identity_fields_def bindO_eq_Inr)
  from this [OF assms(1)] this [OF assms(2)] show ?thesis
    by (auto simp: interval_key_def interval_of_def utc_str_inject split: option.splits)
qed

lemma identities_stored:
  assumes "identities_ok sha s" "r \<in> set (identities s)"
  shows "identity_post_init sha r = Inr r" "map_of (sm_identity_by_hash s) (ir_identity_hash r) = Some r"
proof -
  obtain h where h: "(h, r) \<in> set (sm_identity_by_hash s)" using assms(2) by auto
  then have "identity_stored sha (h, r)" using assms(1) by (auto simp: identities_ok_def list_all_iff)
  moreover from assms(1) have "distinct (map fst (sm_identity_by_hash s))" by (simp add: identities_ok_def)
  ultimately show "identity_post_init sha r = Inr r" "map_of (sm_identity_by_hash s) (ir_identity_hash r) = Some r"
    using h by (auto simp: identity_stored_def map_of_is_SomeI)
qed

lemma identities_inj: "identities_ok sha s \<Longrightarrow> inj_on ir_identity_hash (set (identities s))"
  by (rule inj_onI) (metis identities_stored(2) option.inject)

text \<open>What a new row leaves behind.\<close>

lemma append_identity_Inr:
  assumes "append_identity sha r s = Inr (out, s')"
  obtains (duplicate) existing where "out = IDEMPOTENT_DUPLICATE" "s' = s" "map_of (sm_identity_by_hash s) (ir_identity_hash r) = Some existing"
      "identity_wire existing = identity_wire r"
  | (new) heads where "out = APPENDED" "ir_identity_hash r \<notin> fst ` set (sm_identity_by_hash s)"
      "s' = s\<lparr>sm_identity_by_hash := sm_identity_by_hash s @ [(ir_identity_hash r, r)],
              sm_identity_order := sm_identity_order s @ [ir_identity_hash r], sm_identity_heads := heads\<rparr>"
      "list_all (\<lambda>h. check_overlap s r h = Inr ()) (map snd (sm_identity_heads s))"
      "(case map_of (sm_identity_heads s) (interval_key r) of
          None \<Rightarrow> heads = dict_set (interval_key r) (ir_identity_hash r) (sm_identity_heads s)
        | Some h \<Rightarrow> (\<exists>current. map_of (sm_identity_by_hash s) h = Some current
            \<and> (ir_available_at r = ir_available_at current \<longrightarrow> ir_identity_hash current = ir_identity_hash r)
            \<and> heads = (if ir_available_at r > ir_available_at current
                then dict_set (interval_key r) (ir_identity_hash r) (sm_identity_heads s) else sm_identity_heads s)))"
proof (cases "map_of (sm_identity_by_hash s) (ir_identity_hash r)")
  case (Some existing)
  then show ?thesis
    using assms duplicate by (auto simp: append_identity_def bindO_eq_Inr require_same_wire_def)
next
  case None
  then have fresh: "ir_identity_hash r \<notin> fst ` set (sm_identity_by_hash s)" by (simp add: map_of_fresh)
  show ?thesis
  proof (cases "map_of (sm_identity_heads s) (interval_key r)")
    case first: None
    then show ?thesis
      using assms None fresh new
      by (simp add: append_identity_def bindO_eq_Inr eachO_eq_Inr Let_def dict_set_new)
  next
    case (Some h)
    then show ?thesis
      using assms None fresh new
      by (auto simp: append_identity_def bindO_eq_Inr eachO_eq_Inr Let_def dict_set_new lookup_def split: option.splits)
  qed
qed

lemma no_overlap_with_heads:
  assumes "identities_ok sha s" "list_all (\<lambda>h. check_overlap s r h = Inr ()) (map snd (sm_identity_heads s))"
    and "x \<in> set (identities s)" "ir_security_id x = ir_security_id r" "interval_key x \<noteq> interval_key r"
  shows "\<not> intervals_overlap (interval_of x) (interval_of r)"
proof -
  have "interval_key x \<in> fst ` set (sm_identity_heads s)" using assms(1,3) by (simp add: identities_ok_def)
  then obtain h where h: "(interval_key x, h) \<in> set (sm_identity_heads s)" by auto
  then obtain y where y: "map_of (sm_identity_by_hash s) h = Some y" "interval_key y = interval_key x"
    using assms(1) by (fastforce simp: identities_ok_def list_all_iff head_of_def)
  have "y \<in> set (identities s)" using map_of_SomeD [OF y(1)] by force
  then have same: "ir_security_id y = ir_security_id x" "interval_of y = interval_of x"
    using interval_key_iff identities_stored(1) assms(1,3) y(2) by blast+
  have "check_overlap s r h = Inr ()" using assms(2) h by (auto simp: list_all_iff)
  then show ?thesis using y same assms(4,5) by (auto simp: check_overlap_def lookup_def)
qed

lemma append_identity_keeps_ok:
  assumes ok: "identities_ok sha s" and r: "identity_post_init sha r = Inr r" and app: "append_identity sha r s = Inr (out, s')"
  shows "identities_ok sha s'"
  using app
proof (cases rule: append_identity_Inr)
  case (new heads)
  let ?k = "interval_key r" and ?h = "ir_identity_hash r"
  have ids: "identities s' = identities s @ [r]" by (simp add: new(3))
  have by_hash: "map_of (sm_identity_by_hash s') h = (if h = ?h then Some r else map_of (sm_identity_by_hash s) h)" for h
    using new(2) by (auto simp: new(3) map_add_def map_of_fresh [symmetric] split: option.splits)
  have others: "head_of s' e" if "head_of s e" "fst e \<noteq> ?k" for e
  proof -
    have "{x \<in> set (identities s'). interval_key x = fst e} = {x \<in> set (identities s). interval_key x = fst e}"
      using that(2) unfolding ids by auto
    moreover have "map_of (sm_identity_by_hash s') (snd e) = map_of (sm_identity_by_hash s) (snd e)"
      if "map_of (sm_identity_by_hash s) (snd e) = Some y" for y
      using that new(2) by (auto simp: by_hash map_of_fresh [symmetric])
    ultimately show ?thesis using that(1) unfolding head_of_def by auto
  qed
  have keys: "fst ` set (sm_identity_heads s) = interval_key ` set (identities s)" using ok by (simp add: identities_ok_def)
  have head: "head_of s e" if "e \<in> set (sm_identity_heads s)" for e using ok that by (auto simp: identities_ok_def list_all_iff)
  have "list_all (head_of s') heads \<and> distinct (map fst heads) \<and> fst ` set heads = insert ?k (fst ` set (sm_identity_heads s))"
  proof (cases "map_of (sm_identity_heads s) ?k")
    case None
    then have fresh: "?k \<notin> fst ` set (sm_identity_heads s)" by (simp add: map_of_fresh)
    then have heads: "heads = sm_identity_heads s @ [(?k, ?h)]" using new(5) None by (simp add: dict_set_new)
    have "interval_key x \<noteq> ?k" if "x \<in> set (identities s)" for x using fresh keys that by (metis imageI)
    then have "{x \<in> set (identities s'). interval_key x = ?k} = {r}" unfolding ids by auto
    then have "head_of s' (?k, ?h)" by (simp add: head_of_def by_hash latest_in_def)
    moreover have "head_of s' e" if "e \<in> set (sm_identity_heads s)" for e
      by (rule others [OF head [OF that]]) (use that fresh in \<open>metis imageI\<close>)
    ultimately show ?thesis using fresh ok by (auto simp: heads list_all_iff identities_ok_def)
  next
    case (Some h)
    then have mem: "(?k, h) \<in> set (sm_identity_heads s)" by (rule map_of_SomeD)
    obtain c where c: "map_of (sm_identity_by_hash s) h = Some c"
        "ir_available_at r = ir_available_at c \<longrightarrow> ir_identity_hash c = ?h"
        "heads = (if ir_available_at r > ir_available_at c then dict_set ?k ?h (sm_identity_heads s) else sm_identity_heads s)"
      using new(5) Some by auto
    have latest: "interval_key c = ?k" "latest_in {x \<in> set (identities s). interval_key x = ?k} c"
      using head [OF mem] c(1) by (auto simp: head_of_def)
    have "ir_identity_hash c = h"
      using map_of_SomeD [OF c(1)] ok by (auto simp: identities_ok_def list_all_iff identity_stored_def)
    moreover have "h \<noteq> ?h" using c(1) new(2) by (auto simp: map_of_fresh [symmetric])
    ultimately have neq: "ir_available_at r \<noteq> ir_available_at c" using c(2) by auto
    have new_head: "head_of s' (?k, if ir_available_at r > ir_available_at c then ?h else h)"
      using latest neq c(1) \<open>h \<noteq> ?h\<close> by (fastforce simp: head_of_def by_hash ids latest_in_def)
    have unique: "e = (?k, h)" if "e \<in> set (sm_identity_heads s)" "fst e = ?k" for e
    proof -
      have "distinct (map fst (sm_identity_heads s))" using ok by (simp add: identities_ok_def)
      moreover have "(?k, snd e) \<in> set (sm_identity_heads s)" using that by (metis prod.collapse)
      ultimately have "snd e = h" using eq_key_imp_eq_value mem by metis
      then show ?thesis using that(2) by (metis prod.collapse)
    qed
    have "e = (?k, if ir_available_at r > ir_available_at c then ?h else h) \<or> e \<in> set (sm_identity_heads s) \<and> fst e \<noteq> ?k"
      if "e \<in> set heads" for e
    proof -
      have "distinct (map fst (sm_identity_heads s))" using ok by (simp add: identities_ok_def)
      note set_eq = dict_set_set [OF this, of ?k ?h]
      show ?thesis
      proof (cases "ir_available_at r > ir_available_at c")
        case True
        then show ?thesis using that unfolding c(3) by (simp only: if_True set_eq) blast
      next
        case False
        then show ?thesis using that unique [of e] unfolding c(3) by (simp only: if_False) blast
      qed
    qed
    then have "head_of s' e" if "e \<in> set heads" for e using that new_head others [OF head] by metis
    then have "list_all (head_of s') heads" unfolding list_all_iff by blast
    moreover have "distinct (map fst heads)" using c(3) ok by (simp add: identities_ok_def dict_set_distinct)
    moreover have "?k \<in> fst ` set (sm_identity_heads s)" using mem by (metis fst_conv imageI)
    then have "fst ` set heads = insert ?k (fst ` set (sm_identity_heads s))" using c(3) by (simp add: dict_set_keys insert_absorb)
    ultimately show ?thesis by simp
  qed
  moreover have "disjoint_intervals (set (identities s'))"
  proof -
    have "\<not> intervals_overlap (interval_of x) (interval_of r)" "\<not> intervals_overlap (interval_of r) (interval_of x)"
      if "x \<in> set (identities s)" "ir_security_id x = ir_security_id r" "interval_key x \<noteq> ?k" for x
      using no_overlap_with_heads [OF ok new(4) that] overlap_sym [OF stored_interval_ok [OF r] stored_interval_ok [OF identities_stored(1) [OF ok that(1)]]]
      by simp_all
    moreover have "disjoint_intervals (set (identities s))" using ok by (simp add: identities_ok_def)
    ultimately have "disjoint_intervals (insert r (set (identities s)))" by (intro disjoint_insert)
    then show ?thesis unfolding ids by simp
  qed
  moreover have "identity_stored sha (?h, r)" using r by (simp add: identity_stored_def)
  ultimately show ?thesis using ok new(2) keys by (auto simp: identities_ok_def new(3))
qed (use ok in simp)

section \<open>Events\<close>

abbreviation events :: "security_master \<Rightarrow> corporate_action list" where
  "events s \<equiv> map snd (sm_event_by_hash s)"

definition lineage_rows :: "security_master \<Rightarrow> string \<Rightarrow> corporate_action list" where
  "lineage_rows s e = filter (\<lambda>r. ca_event_id r = e) (events s)"

definition event_stored :: "digest \<Rightarrow> security_master \<Rightarrow> string \<times> corporate_action \<Rightarrow> bool" where
  "event_stored sha s e \<longleftrightarrow> ca_record_hash (snd e) = fst e \<and> action_post_init sha (snd e) = Inr (snd e)
     \<and> (\<exists>i. map_of (sm_identity_by_hash s) (ca_security_identity_hash (snd e)) = Some i
          \<and> ir_security_id i = ca_security_id (snd e))"

text \<open>The rows of one event, in the order they were appended.\<close>

definition lineage_ok :: "digest \<Rightarrow> security_master \<Rightarrow> string \<Rightarrow> corporate_action list \<Rightarrow> bool" where
  "lineage_ok sha s e L \<longleftrightarrow>
     (if L = [] then map_of (sm_event_heads s) e = None
      else ca_state (hd L) = CA_DETECTED
        \<and> successively (\<lambda>p c. validate_transition sha p c = Inr ()) L
        \<and> map_of (sm_event_heads s) e = Some (ca_record_hash (last L))
        \<and> map (\<lambda>r. map_of (sm_event_previous s) (ca_record_hash r)) L = map Some (None # map (Some \<circ> ca_record_hash) (butlast L)))"

definition events_ok :: "digest \<Rightarrow> security_master \<Rightarrow> bool" where
  "events_ok sha s \<longleftrightarrow>
     sm_event_order s = map fst (sm_event_by_hash s)
     \<and> map fst (sm_event_previous s) = map fst (sm_event_by_hash s)
     \<and> distinct (map fst (sm_event_by_hash s))
     \<and> list_all (event_stored sha s) (sm_event_by_hash s)
     \<and> (\<forall>e. lineage_ok sha s e (lineage_rows s e))"

lemma events_stored:
  assumes "events_ok sha s" "r \<in> set (events s)"
  shows "action_post_init sha r = Inr r" "map_of (sm_event_by_hash s) (ca_record_hash r) = Some r"
proof -
  obtain h where h: "(h, r) \<in> set (sm_event_by_hash s)" using assms(2) by auto
  then have "event_stored sha s (h, r)" using assms(1) by (auto simp: events_ok_def list_all_iff)
  moreover from assms(1) have "distinct (map fst (sm_event_by_hash s))" by (simp add: events_ok_def)
  ultimately show "action_post_init sha r = Inr r" "map_of (sm_event_by_hash s) (ca_record_hash r) = Some r"
    using h by (auto simp: event_stored_def map_of_is_SomeI)
qed

lemma append_event_Inr:
  assumes "append_event sha r prev s = Inr (out, s')"
  obtains (duplicate) existing where "out = IDEMPOTENT_DUPLICATE" "s' = s" "map_of (sm_event_by_hash s) (ca_record_hash r) = Some existing"
      "action_wire existing = action_wire r" "map_of (sm_event_previous s) (ca_record_hash r) = Some prev"
  | (new) i where "out = APPENDED" "ca_record_hash r \<notin> fst ` set (sm_event_by_hash s)" "check_predecessor sha r prev s = Inr ()"
      "map_of (sm_identity_by_hash s) (ca_security_identity_hash r) = Some i" "ir_security_id i = ca_security_id r"
      "s' = s\<lparr>sm_event_by_hash := sm_event_by_hash s @ [(ca_record_hash r, r)],
              sm_event_previous := dict_set (ca_record_hash r) prev (sm_event_previous s),
              sm_event_order := sm_event_order s @ [ca_record_hash r],
              sm_event_heads := dict_set (ca_event_id r) (ca_record_hash r) (sm_event_heads s)\<rparr>"
proof (cases "map_of (sm_event_by_hash s) (ca_record_hash r)")
  case (Some existing)
  then show ?thesis
    using assms duplicate
    by (auto simp: append_event_def bindO_eq_Inr require_same_wire_def lookup_def split: option.splits)
next
  case None
  then have fresh: "ca_record_hash r \<notin> fst ` set (sm_event_by_hash s)" by (simp add: map_of_fresh)
  then show ?thesis
    using assms None new by (auto simp: append_event_def bindO_eq_Inr dict_set_new split: option.splits)
qed

text \<open>A new row either starts its event or extends the row its predecessor hash names.\<close>

lemma check_predecessor_Inr:
  assumes "check_predecessor sha r prev s = Inr ()" "events_ok sha s"
  shows "if lineage_rows s (ca_event_id r) = [] then ca_state r = CA_DETECTED \<and> prev = None
    else prev = Some (ca_record_hash (last (lineage_rows s (ca_event_id r))))
      \<and> validate_transition sha (last (lineage_rows s (ca_event_id r))) r = Inr ()"
proof -
  let ?L = "lineage_rows s (ca_event_id r)"
  have L: "lineage_ok sha s (ca_event_id r) ?L" using assms(2) by (simp add: events_ok_def)
  show ?thesis
  proof (cases "?L = []")
    case True
    then show ?thesis using L assms(1) by (auto simp: lineage_ok_def check_predecessor_def bindO_eq_Inr split: if_splits option.splits)
  next
    case False
    then have "last ?L \<in> set (events s)" using last_in_set [OF False] by (auto simp: lineage_rows_def)
    from events_stored(2) [OF assms(2) this] False show ?thesis
      using L assms(1) by (auto simp: lineage_ok_def check_predecessor_def bindO_eq_Inr split: if_splits option.splits)
  qed
qed

lemma append_event_keeps_ok:
  assumes ok: "events_ok sha s" and r: "action_post_init sha r = Inr r" and app: "append_event sha r prev s = Inr (out, s')"
  shows "events_ok sha s'"
  using app
proof (cases rule: append_event_Inr)
  case (new i)
  have fresh: "ca_record_hash r \<notin> fst ` set (sm_event_previous s)" using ok new(2) by (metis events_ok_def list.set_map)
  have prev: "map_of (sm_event_previous s') h = (if h = ca_record_hash r then Some prev else map_of (sm_event_previous s) h)" for h
    by (simp add: new(6))
  have rows: "lineage_rows s' e = lineage_rows s e @ (if e = ca_event_id r then [r] else [])" for e
    by (simp add: lineage_rows_def new(6))
  have old_hash: "ca_record_hash x \<noteq> ca_record_hash r" if "x \<in> set (lineage_rows s e)" for x e
    using that new(2) events_stored(2) [OF ok, of x] by (auto simp: lineage_rows_def map_of_fresh [symmetric])
  have links: "map (\<lambda>x. map_of (sm_event_previous s') (ca_record_hash x)) (lineage_rows s e)
      = map (\<lambda>x. map_of (sm_event_previous s) (ca_record_hash x)) (lineage_rows s e)" for e
    using old_hash by (auto simp: prev)
  have "lineage_ok sha s' e (lineage_rows s' e)" for e
  proof (cases "e = ca_event_id r")
    case False
    have L: "lineage_ok sha s e (lineage_rows s e)" using ok by (simp add: events_ok_def)
    have "map_of (sm_event_heads s') e = map_of (sm_event_heads s) e" using False by (simp add: new(6))
    then show ?thesis using L unfolding lineage_ok_def rows if_not_P [OF False] append_Nil2 links by simp
  next
    case True
    let ?L = "lineage_rows s e"
    have L: "lineage_ok sha s e ?L" using ok by (simp add: events_ok_def)
    note pred = check_predecessor_Inr [OF new(3) ok, folded True]
    have head: "map_of (sm_event_heads s') e = Some (ca_record_hash r)" using True by (simp add: new(6))
    show ?thesis
    proof (cases "?L = []")
      case True
      then show ?thesis using pred head \<open>e = ca_event_id r\<close> by (simp add: rows lineage_ok_def prev)
    next
      case False
      have split: "map (Some \<circ> ca_record_hash) (butlast ?L) @ [Some (ca_record_hash (last ?L))] = map (Some \<circ> ca_record_hash) ?L"
        using arg_cong [OF append_butlast_last_id [OF False], of "map (Some \<circ> ca_record_hash)"] by simp
      have old: "map (\<lambda>x. map_of (sm_event_previous s') (ca_record_hash x)) ?L = map Some (None # map (Some \<circ> ca_record_hash) (butlast ?L))"
        using L False unfolding links by (simp add: lineage_ok_def)
      have "map (\<lambda>x. map_of (sm_event_previous s') (ca_record_hash x)) (?L @ [r])
          = map Some (None # (map (Some \<circ> ca_record_hash) (butlast ?L) @ [Some (ca_record_hash (last ?L))]))"
        unfolding map_append old using pred False by (simp add: prev)
      then have "map (\<lambda>x. map_of (sm_event_previous s') (ca_record_hash x)) (?L @ [r]) = map Some (None # map (Some \<circ> ca_record_hash) ?L)"
        unfolding split .
      moreover have "successively (\<lambda>p c. validate_transition sha p c = Inr ()) (?L @ [r])" "ca_state (hd (?L @ [r])) = CA_DETECTED"
        using L pred False by (simp_all add: lineage_ok_def successively_append_iff)
      ultimately show ?thesis using head \<open>e = ca_event_id r\<close> unfolding lineage_ok_def rows by simp
    qed
  qed
  moreover have "event_stored sha s' (ca_record_hash r, r)" using r new(4,5) by (simp add: event_stored_def new(6))
  moreover have "event_stored sha s' x" if "event_stored sha s x" for x using that by (simp add: event_stored_def new(6))
  ultimately show ?thesis
    using ok new(2) fresh by (auto simp: events_ok_def new(6) dict_set_new list_all_iff)
qed (use ok in simp)

end
