(* ===== verification/Event_Lineages.thy ===== *)
theory Event_Lineages
  imports Security_Invariants
begin

text \<open>
  Reading an event back from the store: on every store that satisfies the invariant the walk
  along the links returns exactly the rows of the event, in the order they were appended.
\<close>

section \<open>Length of a lineage\<close>

fun state_rank :: "corporate_action_state \<Rightarrow> nat" where
  "state_rank CA_DETECTED = 0"
| "state_rank CA_ENTRY_BLOCKED = 1"
| "state_rank CA_CONFIRMED = 2"
| "state_rank CA_REVIEW_REQUIRED = 3"
| "state_rank CA_EFFECTIVE_PENDING_RECONCILIATION = 3"

lemma legal_transition_rank: "is_legal_transition a b \<Longrightarrow> state_rank a < state_rank b"
  by (auto simp: is_legal_transition_def ALLOWED_TRANSITIONS_def)

lemma lineage_length:
  assumes "successively (\<lambda>p c. validate_transition sha p c = Inr ()) L"
  shows "length L \<le> 4"
proof -
  let ?R = "\<lambda>p c. state_rank (ca_state p) < state_rank (ca_state c)"
  have "successively ?R L" using assms by (rule successively_mono) (auto simp: transition_ok_iff legal_transition_rank)
  then have "sorted_wrt ?R L" by (subst (asm) successively_conv_sorted_wrt) (auto simp: transp_def)
  then have "sorted_wrt (<) (map (state_rank \<circ> ca_state) L)" by (simp add: sorted_wrt_map)
  then have "distinct (map (state_rank \<circ> ca_state) L)" by (simp add: strict_sorted_iff)
  moreover have "state_rank x < 4" for x by (cases x) simp_all
  then have "set (map (state_rank \<circ> ca_state) L) \<subseteq> {..<4}" by auto
  ultimately show ?thesis
    using card_mono [of "{..<4::nat}" "set (map (state_rank \<circ> ca_state) L)"] by (simp add: distinct_card del: set_map)
qed

lemma stored_lineage_valid:
  assumes "events_ok sha s" "lineage_rows s e \<noteq> []"
  shows "validate_lineage sha (lineage_rows s e) = Inr (last (lineage_rows s e))"
proof -
  let ?L = "lineage_rows s e"
  have L: "ca_state (hd ?L) = CA_DETECTED" "successively (\<lambda>p c. validate_transition sha p c = Inr ()) ?L"
    using assms by (auto simp: events_ok_def lineage_ok_def split: if_splits)
  have "action_verify_integrity sha r = Inr ()" if "r \<in> set ?L" for r
    using events_stored(1) [OF assms(1), of r] that by (auto simp: lineage_rows_def action_post_init_def bindO_eq_Inr)
  then show ?thesis using L assms(2) lineage_length [OF L(2)] by (simp add: lineage_ok_iff list_all_iff MAX_LINEAGE_RECORDS_def)
qed

section \<open>The walk\<close>

fun links_from :: "string option \<Rightarrow> corporate_action list \<Rightarrow> (string option \<times> string) list" where
  "links_from p [] = []"
| "links_from p (x # xs) = (p, ca_record_hash x) # links_from (Some (ca_record_hash x)) xs"

lemma links_from_keys: "map fst (links_from p L) = (if L = [] then [] else p # map (Some \<circ> ca_record_hash) (butlast L))"
  by (induction L arbitrary: p) auto

lemma links_from_distinct:
  assumes "distinct (map ca_record_hash L)" "p \<notin> Some ` ca_record_hash ` set L"
  shows "distinct (map fst (links_from p L))"
proof -
  have "distinct (map (Some \<circ> ca_record_hash) L)" using assms(1) by (simp add: distinct_map inj_on_def)
  then have "distinct (map (Some \<circ> ca_record_hash) (butlast L))" by (metis distinct_butlast map_butlast)
  then show ?thesis using assms(2) by (auto simp: links_from_keys dest: in_set_butlastD)
qed

lemma links_from_next:
  assumes "distinct (map ca_record_hash (A @ x # B))" "p \<notin> Some ` ca_record_hash ` set (A @ x # B)"
  shows "map_of (links_from p (A @ x # B)) (Some (ca_record_hash x)) = (case B of [] \<Rightarrow> None | y # _ \<Rightarrow> Some (ca_record_hash y))"
  using assms
proof (induction A arbitrary: p)
  case Nil
  then show ?case by (cases B) auto
next
  case (Cons a A)
  then show ?case by (auto simp: image_iff)
qed

lemma links_from_root: "filter (\<lambda>(p, _). p = None) (links_from None (x # xs)) = [(None, ca_record_hash x)]"
proof -
  have "filter (\<lambda>(p, _). p = None) (links_from (Some h) xs) = []" for h by (induction xs arbitrary: h) auto
  then show ?thesis by simp
qed

lemma links_from_lookup:
  assumes "map (\<lambda>r. map_of d (ca_record_hash r)) L = map Some (p # map (Some \<circ> ca_record_hash) (butlast L))" "L \<noteq> []"
  shows "mapO (\<lambda>h. bindO (lookup d h) (\<lambda>p. Inr (p, h))) (map ca_record_hash L) = Inr (links_from p L)"
  using assms
proof (induction L arbitrary: p)
  case (Cons x L)
  show ?case
  proof (cases L)
    case (Cons y L')
    with Cons.prems Cons.IH [of "Some (ca_record_hash x)"] show ?thesis by (simp add: lookup_def)
  qed (use Cons.prems in \<open>simp add: lookup_def\<close>)
qed simp

lemma dict_of_links: "distinct (map fst (d @ ps)) \<Longrightarrow> foldl (\<lambda>d (p, h). dict_set p h d) d ps = d @ ps"
proof (induction ps arbitrary: d)
  case (Cons e ps)
  then have "dict_set (fst e) (snd e) d = d @ [e]" by (subst dict_set_new) auto
  then show ?case using Cons by (cases e) simp
qed simp

lemma walk_follows_links:
  assumes "distinct (map ca_record_hash (A @ x # B))"
    and "\<And>y. y \<in> set (x # B) \<Longrightarrow> map_of by_hash (ca_record_hash y) = Some y \<and> action_verify_integrity sha y = Inr ()"
  shows "walk_chain sha by_hash (links_from None (A @ x # B)) (Some (ca_record_hash x)) (rev (map ca_record_hash A)) A
    = Inr (rev (map ca_record_hash (A @ x # B)), A @ x # B)"
  using assms
proof (induction B arbitrary: A x)
  case Nil
  then show ?case using links_from_next [of A x "[]" None] by simp
next
  case (Cons y B)
  then show ?case using links_from_next [of A x "y # B" None] Cons.IH [of "A @ [x]" y] by simp
qed

text \<open>The reader returns the stored rows of the event, in the order of their transitions.\<close>

lemma lookup_entries:
  assumes "distinct (map fst d)"
  shows "mapO (\<lambda>k. bindO (lookup d k) (\<lambda>v. Inr (k, v))) (map fst d) = Inr d"
proof -
  have "mapO (\<lambda>k. bindO (lookup d k) (\<lambda>v. Inr (k, v))) (map fst d) = Inr (map (\<lambda>k. (k, the (map_of d k))) (map fst d))"
    by (rule mapO_map) (use assms in \<open>auto simp: list_all_iff lookup_def map_of_is_SomeI\<close>)
  moreover have "map (\<lambda>k. (k, the (map_of d k))) (map fst d) = d"
    using assms by (auto simp: map_of_is_SomeI intro!: map_idI)
  ultimately show ?thesis by simp
qed

lemma event_hashes:
  assumes "events_ok sha s"
  shows "map fst (filter (\<lambda>(_, r). ca_event_id r = e) (sm_event_by_hash s)) = map ca_record_hash (lineage_rows s e)"
proof -
  have "fst x = ca_record_hash (snd x)" if "x \<in> set (sm_event_by_hash s)" for x
    using assms that by (auto simp: events_ok_def list_all_iff event_stored_def)
  then show ?thesis by (auto simp: lineage_rows_def filter_map o_def case_prod_unfold intro!: map_cong)
qed

lemma lineage_hashes_distinct:
  assumes "events_ok sha s"
  shows "distinct (map ca_record_hash (lineage_rows s e))"
proof -
  have "distinct (map fst (sm_event_by_hash s))" using assms by (simp add: events_ok_def)
  then show ?thesis unfolding event_hashes [OF assms, symmetric] by (rule distinct_map_filter)
qed

lemma event_lineage_rows:
  assumes ok: "events_ok sha s" and e: "fullmatch EVENT_ID e"
  shows "event_lineage sha e s = Inr (lineage_rows s e)"
proof -
  let ?L = "lineage_rows s e"
  have rows: "mapO (\<lambda>h. bindO (lookup (sm_event_by_hash s) h) (\<lambda>r. Inr (h, r))) (sm_event_order s) = Inr (sm_event_by_hash s)"
    using ok by (simp add: events_ok_def lookup_entries)
  show ?thesis
  proof (cases ?L)
    case Nil
    then have "filter (\<lambda>(_, r). ca_event_id r = e) (sm_event_by_hash s) = []" using event_hashes [OF ok, of e] by simp
    then show ?thesis using e Nil unfolding event_lineage_def rows by simp
  next
    case (Cons x B)
    note dist = lineage_hashes_distinct [OF ok, of e, unfolded Cons]
    have stored: "map_of (sm_event_by_hash s) (ca_record_hash y) = Some y \<and> action_verify_integrity sha y = Inr ()" if "y \<in> set (x # B)" for y
      using events_stored [OF ok, of y] that unfolding Cons [symmetric]
      by (auto simp: lineage_rows_def action_post_init_def bindO_eq_Inr)
    have "lineage_ok sha s e (x # B)" using ok Cons by (metis events_ok_def)
    then have prev: "mapO (\<lambda>h. bindO (lookup (sm_event_previous s) h) (\<lambda>p. Inr (p, h))) (map ca_record_hash (x # B)) = Inr (links_from None (x # B))"
      by (intro links_from_lookup) (simp_all add: lineage_ok_def)
    have dict: "foldl (\<lambda>d (p, h). dict_set p h d) [] (links_from None (x # B)) = links_from None (x # B)"
      using dict_of_links [of "[]" "links_from None (x # B)"] links_from_distinct [OF dist, of None] by (simp del: links_from.simps)
    have walk: "walk_chain sha (sm_event_by_hash s) (links_from None (x # B)) (Some (ca_record_hash x)) [] []
        = Inr (rev (map ca_record_hash (x # B)), x # B)"
      using walk_follows_links [of "[]" x B, OF _ stored] dist by (simp del: walk_chain.simps links_from.simps)
    have hashes: "map fst (filter (\<lambda>(_, r). ca_event_id r = e) (sm_event_by_hash s)) = map ca_record_hash (x # B)"
      using event_hashes [OF ok, of e] Cons by simp
    have ne: "map ca_record_hash (x # B) \<noteq> []" by simp
    have valid: "validate_lineage sha (x # B) = Inr (last (x # B))" using stored_lineage_valid [OF ok, of e] Cons by simp
    show ?thesis
      unfolding event_lineage_def
      by (simp only: e rows hashes ne prev dict links_from_root Let_def if_False bindO_simps Cons require_def if_True)
         (simp add: walk valid demand_def del: walk_chain.simps links_from.simps)
  qed
qed

end
