(* ===== verification/Security_Service.thy ===== *)
theory Security_Service
  imports Security_Master
begin

text \<open>
  \<open>securities/service.py\<close>: registering identities, discovering and confirming splits, and
  the entry decision. The repository is the in-memory store of \<open>Security_Master\<close>; source
  records are read through a \<open>source_reader\<close>. \<open>lock_record\<close> of the in-memory log only checks the
  type of its argument, and the reports to telemetry come after the transaction and cannot
  raise, so \<open>lock_refs\<close> and \<open>_emit\<close> are left out.
\<close>

section \<open>Reading source records\<close>

definition read_source :: "digest \<Rightarrow> source_reader \<Rightarrow> source_ref \<Rightarrow> source_record outcome" where
  "read_source sha256 reader ref =
     (case rd_get_version reader (sr_record_id ref) (sr_record_hash ref) of
        None \<Rightarrow> Inl SourceLineageError
      | Some record \<Rightarrow>
          bindO (demand SourceLineageError (source_record_verify_integrity sha256 record = Inr ())) (\<lambda>_.
          bindO (demand SourceLineageError (nr_record_id record = sr_record_id ref \<and> nr_family record = sr_family ref)) (\<lambda>_.
          bindO (demand SourceLineageError (nr_record_hash record = sr_record_hash ref)) (\<lambda>_. Inr record))))"

definition source_available_at :: "digest \<Rightarrow> source_reader \<Rightarrow> source_ref \<Rightarrow> utc outcome" where
  "source_available_at sha256 reader ref = bindO (read_source sha256 reader ref) (\<lambda>record. Inr (availability record))"

definition is_current :: "digest \<Rightarrow> source_reader \<Rightarrow> source_ref \<Rightarrow> bool outcome" where
  "is_current sha256 reader ref =
     (case rd_get reader (sr_record_id ref) of
        None \<Rightarrow> Inl SourceLineageError
      | Some current \<Rightarrow>
          bindO (demand SourceLineageError (source_record_verify_integrity sha256 current = Inr ())) (\<lambda>_.
          Inr (nr_record_hash current = sr_record_hash ref \<and> nr_family current = sr_family ref)))"

definition is_current_at :: "digest \<Rightarrow> source_reader \<Rightarrow> source_ref \<Rightarrow> utc \<Rightarrow> bool outcome" where
  "is_current_at sha256 reader ref known_at =
     bindO (read_source sha256 reader ref) (\<lambda>target.
     let visible = filter (\<lambda>v. availability v \<le> known_at) (rd_versions reader (sr_record_id ref)) in
     if visible = [] then Inr False
     else
       let latest_available = Max (availability ` set visible);
           contenders = filter (\<lambda>v. availability v = latest_available) visible in
       if length contenders \<noteq> 1 then Inr False
       else Inr (nr_record_hash (hd contenders) = nr_record_hash target \<and> nr_family (hd contenders) = nr_family target))"

fun validate_refs_from ::
  "digest \<Rightarrow> source_reader \<Rightarrow> utc option \<Rightarrow> string list \<Rightarrow> source_ref list \<Rightarrow> source_record list outcome" where
  "validate_refs_from sha256 reader available_by seen [] = Inr []"
| "validate_refs_from sha256 reader available_by seen (ref # refs) =
     bindO (demand SourceLineageError (sr_record_id ref \<notin> set seen)) (\<lambda>_.
     bindO (read_source sha256 reader ref) (\<lambda>record.
     bindO (case available_by of
              None \<Rightarrow> Inr ()
            | Some cutoff \<Rightarrow>
                bindO (source_available_at sha256 reader ref) (\<lambda>t. demand SourceLineageError (\<not> t > cutoff))) (\<lambda>_.
     bindO (validate_refs_from sha256 reader available_by (sr_record_id ref # seen) refs) (\<lambda>records.
     Inr (record # records)))))"

definition validate_refs :: "digest \<Rightarrow> source_reader \<Rightarrow> utc option \<Rightarrow> source_ref list \<Rightarrow> source_record list outcome" where
  "validate_refs sha256 reader available_by refs = validate_refs_from sha256 reader available_by [] refs"

section \<open>Helpers\<close>

definition event_with_state ::
  "digest \<Rightarrow> corporate_action \<Rightarrow> corporate_action_state \<Rightarrow> utc \<Rightarrow> source_ref list option \<Rightarrow> corporate_action outcome" where
  "event_with_state sha256 event state available_at source_refs =
     build_corporate_action_record sha256
       (event\<lparr>ca_available_at := available_at, ca_state := state,
              ca_source_refs := (case source_refs of None \<Rightarrow> ca_source_refs event | Some refs \<Rightarrow> refs)\<rparr>)"

definition require_head :: "corporate_action list \<Rightarrow> corporate_action outcome" where
  "require_head lineage = (if lineage = [] then Inl SecurityMasterServiceError else Inr (last lineage))"

definition later :: "utc \<Rightarrow> utc \<Rightarrow> utc" where
  "later first second = (if first \<ge> second then first else second)"

definition merge_refs :: "source_ref list list \<Rightarrow> source_ref list outcome" where
  "merge_refs groups =
     (case merge_seen [] (concat groups) of
        None \<Rightarrow> Inl SourceLineageError
      | Some by_id \<Rightarrow> Inr (sort_key ref_key (map snd by_id)))"

fun dedupe_into :: "(string \<times> identity_record) list \<Rightarrow> identity_record list \<Rightarrow> (string \<times> identity_record) list outcome" where
  "dedupe_into by_hash [] = Inr by_hash"
| "dedupe_into by_hash (r # rs) =
     bindO (case map_of by_hash (ir_identity_hash r) of
              None \<Rightarrow> Inr ()
            | Some existing \<Rightarrow> demand IdentityClosureError (identity_wire existing = identity_wire r)) (\<lambda>_.
     dedupe_into (dict_set (ir_identity_hash r) r by_hash) rs)"

definition dedupe_identities :: "identity_record list \<Rightarrow> identity_record list outcome" where
  "dedupe_identities records =
     bindO (dedupe_into [] records) (\<lambda>by_hash. Inr (sort_key ir_identity_hash (map snd by_hash)))"

definition require_purpose :: "quarantine_query \<Rightarrow> quarantine_purpose \<Rightarrow> unit outcome" where
  "require_purpose q purpose = require (qq_purpose q = purpose)"

definition identity_resolution_for_event ::
  "digest \<Rightarrow> corporate_action \<Rightarrow> utc \<Rightarrow> security_master \<Rightarrow> identity_resolution outcome" where
  "identity_resolution_for_event sha256 event known_at s =
     bindO (identity_records sha256 (Some (ca_security_id event)) None s) (\<lambda>records.
     bindO (identity_query_post_init \<lparr>iq_as_of = midnight (ca_ex_date event), iq_known_at = known_at,
              iq_security_id = Some (ca_security_id event), iq_symbol = None\<rparr>) (\<lambda>q.
     resolve_identity sha256 records q))"

definition require_pinned_identity :: "digest \<Rightarrow> corporate_action \<Rightarrow> utc \<Rightarrow> security_master \<Rightarrow> unit outcome" where
  "require_pinned_identity sha256 event known_at s =
     bindO (identity_resolution_for_event sha256 event known_at s) (\<lambda>resolution.
       case res_record resolution of
         None \<Rightarrow> Inl IdentityClosureError
       | Some record \<Rightarrow>
           bindO (demand IdentityClosureError (res_status resolution = ID_RESOLVED)) (\<lambda>_.
           demand IdentityClosureError (ir_identity_hash record = ca_security_identity_hash event)))"

definition revalidate_observation :: "digest \<Rightarrow> source_reader \<Rightarrow> source_observation \<Rightarrow> source_observation outcome" where
  "revalidate_observation sha256 reader observation =
     bindO (source_available_at sha256 reader (so_source_ref observation)) (\<lambda>actual_available_at.
     bindO (demand SourceLineageError (actual_available_at = so_available_at observation)) (\<lambda>_.
     bindO (if so_withdrawn observation then Inr True
            else bindO (is_current sha256 reader (so_source_ref observation)) (\<lambda>current. Inr (\<not> current))) (\<lambda>withdrawn.
     Inr (observation\<lparr>so_withdrawn := withdrawn\<rparr>))))"

definition observation_from_stored_ref ::
  "digest \<Rightarrow> source_reader \<Rightarrow> corporate_action \<Rightarrow> utc \<Rightarrow> source_ref \<Rightarrow> source_observation outcome" where
  "observation_from_stored_ref sha256 reader head known_at ref =
     bindO (source_available_at sha256 reader ref) (\<lambda>available_at.
     bindO (is_current_at sha256 reader ref known_at) (\<lambda>current.
     let auditable = (ca_state head = CA_CONFIRMED \<and> current);
         replay_claims = (auditable \<and> sr_family ref \<in> set [SEC_EDGAR, ISSUER_IR, EXCHANGE_OFFICIAL]) in
     Inr \<lparr>so_source_ref = ref, so_available_at = available_at, so_withdrawn = (\<not> current), so_auditable = auditable,
          so_claimed_type = (if replay_claims then Some (ca_action_type head) else None),
          so_claimed_ratio = (if replay_claims then Some (ca_ratio head) else None),
          so_claimed_ex_date = (if replay_claims then Some (ca_ex_date head) else None),
          so_claimed_effective_date = (if replay_claims then Some (ca_effective_date head) else None)\<rparr>))"

section \<open>Identities\<close>

definition register_identity :: "digest \<Rightarrow> source_reader \<Rightarrow> identity_record \<Rightarrow> (security_master, append_outcome) comp" where
  "register_identity sha256 reader record =
     bindM (liftM (identity_verify_integrity sha256 record)) (\<lambda>_.
     bindM (liftM (validate_refs sha256 reader (Some (ir_available_at record)) (ir_source_refs record))) (\<lambda>_.
     in_transaction (\<lambda>s.
       bindO (append_identity sha256 record s) (\<lambda>(outcome, s).
       bindO (identity_records sha256 (Some (ir_security_id record)) None s) (\<lambda>readback.
       bindO (demand SecurityMasterServiceError
                (list_ex (\<lambda>c. ir_identity_hash c = ir_identity_hash record \<and> identity_wire c = identity_wire record) readback)) (\<lambda>_.
       Inr (outcome, s)))))))"

section \<open>Splits\<close>

definition discover_split :: "digest \<Rightarrow> source_reader \<Rightarrow> corporate_action \<Rightarrow> (security_master, corporate_action) comp" where
  "discover_split sha256 reader event =
     bindM (liftM (require (ca_state event = CA_DETECTED))) (\<lambda>_.
     bindM (liftM (action_verify_integrity sha256 event)) (\<lambda>_.
     bindM (liftM (validate_refs sha256 reader (Some (ca_available_at event)) (ca_source_refs event))) (\<lambda>_.
     bindM (\<lambda>s. (require_pinned_identity sha256 event (ca_available_at event) s, s)) (\<lambda>_.
     in_transaction (\<lambda>s.
       bindO (append_event sha256 event None s) (\<lambda>(_, s).
       bindO (event_with_state sha256 event CA_ENTRY_BLOCKED (ca_available_at event) None) (\<lambda>blocked.
       bindO (append_event sha256 blocked (Some (ca_record_hash event)) s) (\<lambda>(_, s).
       bindO (event_lineage sha256 (ca_event_id event) s) (\<lambda>lineage.
       bindO (require_head lineage) (\<lambda>head.
       Inr (head, s)))))))))))"

definition append_next ::
  "digest \<Rightarrow> corporate_action \<Rightarrow> corporate_action_state \<Rightarrow> source_observation list \<Rightarrow> utc \<Rightarrow> corporate_action master_op" where
  "append_next sha256 head state observations decision_at s =
     bindO (merge_refs [ca_source_refs head, map so_source_ref observations]) (\<lambda>refs.
     bindO (event_with_state sha256 head state (later (ca_available_at head) decision_at) (Some refs)) (\<lambda>candidate.
     bindO (append_event sha256 candidate (Some (ca_record_hash head)) s) (\<lambda>(_, s).
     Inr (candidate, s))))"

definition append_review_if_possible ::
  "digest \<Rightarrow> corporate_action \<Rightarrow> source_observation list \<Rightarrow> utc \<Rightarrow> corporate_action master_op" where
  "append_review_if_possible sha256 head observations decision_at s =
     (if ca_state head \<in> set [CA_REVIEW_REQUIRED, CA_EFFECTIVE_PENDING_RECONCILIATION] then Inr (head, s)
      else append_next sha256 head CA_REVIEW_REQUIRED observations decision_at s)"

definition apply_confirmation_evaluation ::
  "digest \<Rightarrow> corporate_action \<Rightarrow> confirmation_evaluation \<Rightarrow> source_observation list \<Rightarrow> utc \<Rightarrow> corporate_action master_op" where
  "apply_confirmation_evaluation sha256 head evaluation observations decision_at s =
     (case ce_outcome evaluation of
        CONFIRM_ENTRY_BLOCKED \<Rightarrow> Inr (head, s)
      | CONFIRM_REVIEW_REQUIRED \<Rightarrow> append_review_if_possible sha256 head observations decision_at s
      | CONFIRM_CONFIRMED \<Rightarrow>
          if ca_state head = CA_CONFIRMED then Inr (head, s)
          else bindO (demand IdentityClosureError (ca_state head = CA_ENTRY_BLOCKED)) (\<lambda>_.
            append_next sha256 head CA_CONFIRMED observations decision_at s))"

text \<open>The first lines of the transaction: a detected event is blocked before it is judged.\<close>

definition block_if_detected ::
  "digest \<Rightarrow> string \<Rightarrow> corporate_action \<Rightarrow> utc \<Rightarrow> corporate_action master_op" where
  "block_if_detected sha256 event_id head decision_at s =
     (if ca_state head = CA_DETECTED then
        bindO (event_with_state sha256 head CA_ENTRY_BLOCKED (later (ca_available_at head) decision_at) None) (\<lambda>blocked.
        bindO (append_event sha256 blocked (Some (ca_record_hash head)) s) (\<lambda>(_, s).
        bindO (event_lineage sha256 event_id s) (\<lambda>lineage.
        bindO (require_head lineage) (\<lambda>head. Inr (head, s)))))
      else Inr (head, s))"

definition judge_split ::
  "digest \<Rightarrow> corporate_action \<Rightarrow> corporate_action \<Rightarrow> source_observation list \<Rightarrow> utc \<Rightarrow> corporate_action master_op" where
  "judge_split sha256 root head observations decision_at s =
     bindO (identity_resolution_for_event sha256 root decision_at s) (\<lambda>resolution.
     if res_status resolution \<noteq> ID_RESOLVED then append_review_if_possible sha256 head observations decision_at s
     else case res_record resolution of
       None \<Rightarrow> Inl IdentityClosureError
     | Some identity \<Rightarrow>
         if ir_identity_hash identity \<noteq> ca_security_identity_hash root
         then append_review_if_possible sha256 head observations decision_at s
         else bindO (evaluate_confirmation sha256 root identity observations decision_at) (\<lambda>evaluation.
           apply_confirmation_evaluation sha256 head evaluation observations decision_at s))"

definition confirm_split ::
  "digest \<Rightarrow> source_reader \<Rightarrow> string \<Rightarrow> source_observation list \<Rightarrow> utc \<Rightarrow> (security_master, corporate_action) comp" where
  "confirm_split sha256 reader event_id observations decision_at =
     bindM (liftM (require (fullmatch EVENT_ID event_id))) (\<lambda>_.
     bindM (liftM (validate_refs sha256 reader None (map so_source_ref observations))) (\<lambda>_.
     in_transaction (\<lambda>s.
       bindO (mapO (revalidate_observation sha256 reader) observations) (\<lambda>validated.
       bindO (event_lineage sha256 event_id s) (\<lambda>lineage.
       bindO (require_head lineage) (\<lambda>head.
       bindO (block_if_detected sha256 event_id head decision_at s) (\<lambda>(head, s).
       bindO (judge_split sha256 (hd lineage) head validated decision_at s) (\<lambda>(_, s).
       bindO (event_lineage sha256 event_id s) (\<lambda>lineage.
       bindO (require_head lineage) (\<lambda>result.
       Inr (result, s))))))))))) "

section \<open>Quarantine\<close>

definition gather_evidence ::
  "digest \<Rightarrow> source_reader \<Rightarrow> utc \<Rightarrow> security_master \<Rightarrow> string \<Rightarrow> event_evidence list outcome" where
  "gather_evidence sha256 reader decision_at s event_id =
     bindO (event_lineage sha256 event_id s) (\<lambda>lineage.
     let visible = filter (\<lambda>row. action_known_at row decision_at) lineage in
     if visible = [] then Inr []
     else
       bindO (merge_refs (map ca_source_refs visible)) (\<lambda>refs.
       bindO (mapO (observation_from_stored_ref sha256 reader (last visible) decision_at) refs) (\<lambda>observations.
       bindO (EventEvidence sha256 visible observations) (\<lambda>evidence. Inr [evidence]))))"

definition quarantine_evaluation ::
  "digest \<Rightarrow> source_reader \<Rightarrow> quarantine_query \<Rightarrow> security_master \<Rightarrow> quarantine_decision outcome" where
  "quarantine_evaluation sha256 reader q s =
     bindO (identity_records sha256 (Some (qq_security_id q)) None s) (\<lambda>by_id.
     bindO (identity_records sha256 None (Some (qq_symbol_as_of q)) s) (\<lambda>by_symbol.
     bindO (dedupe_identities (by_id @ by_symbol)) (\<lambda>records.
     bindO (eachO (\<lambda>r. bindO (validate_refs sha256 reader None (ir_source_refs r)) (\<lambda>_. Inr ())) records) (\<lambda>_.
     bindO (mapO (gather_evidence sha256 reader (qq_decision_at q) s) (security_event_ids (qq_security_id q) s)) (\<lambda>evidence.
     evaluate_quarantine sha256 q records (concat evidence))))))"

definition quarantine :: "digest \<Rightarrow> source_reader \<Rightarrow> quarantine_query \<Rightarrow> (security_master, quarantine_decision) comp" where
  "quarantine sha256 reader q =
     bindM (\<lambda>s. (quarantine_evaluation sha256 reader q s, s)) (\<lambda>decision.
     in_transaction (\<lambda>s.
       bindO (record_decision sha256 decision s) (\<lambda>(_, s).
       bindO (latest_decision sha256 (qd_security_id decision) s) (\<lambda>readback.
         case readback of
           None \<Rightarrow> Inl SecurityMasterServiceError
         | Some d \<Rightarrow>
             bindO (demand SecurityMasterServiceError (decision_wire d = decision_wire decision)) (\<lambda>_. Inr (d, s))))))"

definition candidate_creation_check ::
  "digest \<Rightarrow> source_reader \<Rightarrow> quarantine_query \<Rightarrow> (security_master, quarantine_decision) comp" where
  "candidate_creation_check sha256 reader q =
     bindM (liftM (require_purpose q CANDIDATE_CREATION)) (\<lambda>_. quarantine sha256 reader q)"

definition risk_approval_check ::
  "digest \<Rightarrow> source_reader \<Rightarrow> quarantine_query \<Rightarrow> (security_master, quarantine_decision) comp" where
  "risk_approval_check sha256 reader q =
     bindM (liftM (require_purpose q RISK_APPROVAL)) (\<lambda>_. quarantine sha256 reader q)"

definition submit_recheck ::
  "digest \<Rightarrow> source_reader \<Rightarrow> quarantine_query \<Rightarrow> (security_master, quarantine_decision) comp" where
  "submit_recheck sha256 reader q =
     bindM (liftM (require_purpose q SUBMIT_RECHECK)) (\<lambda>_. quarantine sha256 reader q)"

end
