(* ===== verification/Security_Histories.thy ===== *)
theory Security_Histories
  imports Event_Lineages Security_Service "HOL-Library.Sublist"
begin

text \<open>
  Histories of the source log and the security master: every operation of the service keeps
  the invariant of the store and only appends to its tables.
\<close>

section \<open>The invariant\<close>

definition decision_stored :: "digest \<Rightarrow> string \<times> quarantine_decision \<Rightarrow> bool" where
  "decision_stored sha e \<longleftrightarrow> qd_decision_hash (snd e) = fst e \<and> decision_post_init sha (snd e) = Inr (snd e)"

definition decisions_ok :: "digest \<Rightarrow> security_master \<Rightarrow> bool" where
  "decisions_ok sha s \<longleftrightarrow>
     sm_decision_order s = map fst (sm_decision_by_hash s)
     \<and> distinct (map fst (sm_decision_by_hash s))
     \<and> list_all (decision_stored sha) (sm_decision_by_hash s)"

definition master_ok :: "digest \<Rightarrow> security_master \<Rightarrow> bool" where
  "master_ok sha s \<longleftrightarrow> identities_ok sha s \<and> events_ok sha s \<and> decisions_ok sha s"

lemma empty_master_ok: "master_ok sha empty_master"
  by (simp add: master_ok_def empty_master_def identities_ok_def events_ok_def decisions_ok_def disjoint_intervals_def
      lineage_ok_def lineage_rows_def)

definition grows :: "security_master \<Rightarrow> security_master \<Rightarrow> bool" where
  "grows s s' \<longleftrightarrow> prefix (sm_identity_by_hash s) (sm_identity_by_hash s')
     \<and> prefix (sm_event_by_hash s) (sm_event_by_hash s') \<and> prefix (sm_decision_by_hash s) (sm_decision_by_hash s')"

definition sound :: "digest \<Rightarrow> security_master \<Rightarrow> security_master \<Rightarrow> bool" where
  "sound sha s s' \<longleftrightarrow> (master_ok sha s \<longrightarrow> master_ok sha s' \<and> grows s s')"

lemma sound_refl [simp]: "sound sha s s"
  by (simp add: sound_def grows_def)

lemma sound_trans: "sound sha s t \<Longrightarrow> sound sha t u \<Longrightarrow> sound sha s u"
  unfolding sound_def grows_def by (meson prefix_order.order_trans)

section \<open>Appends\<close>

lemma append_identity_sound:
  assumes r: "identity_post_init sha r = Inr r" and app: "append_identity sha r s = Inr (out, s')"
  shows "sound sha s s'"
  unfolding sound_def
proof
  assume ok: "master_ok sha s"
  then have "identities_ok sha s'" using append_identity_keeps_ok [OF _ r app] by (simp add: master_ok_def)
  from app show "master_ok sha s' \<and> grows s s'"
  proof (cases rule: append_identity_Inr)
    case (new heads)
    have "map_of (sm_identity_by_hash s') h = Some x" if "map_of (sm_identity_by_hash s) h = Some x" for h x
      using that new(2) by (auto simp: new(3) map_add_Some_iff map_of_fresh [symmetric])
    then have "event_stored sha s' e" if "event_stored sha s e" for e using that unfolding event_stored_def by blast
    moreover have "lineage_rows s' e = lineage_rows s e" "lineage_ok sha s' e L = lineage_ok sha s e L" for e L
      by (simp_all add: lineage_rows_def lineage_ok_def new(3))
    ultimately show ?thesis
      using ok \<open>identities_ok sha s'\<close>
      by (auto simp: master_ok_def events_ok_def decisions_ok_def grows_def new(3) list_all_iff)
  qed (use ok in \<open>simp add: grows_def\<close>)
qed

lemma append_event_sound:
  assumes r: "action_post_init sha r = Inr r" and app: "append_event sha r prev s = Inr (out, s')"
  shows "sound sha s s'"
  unfolding sound_def
proof
  assume ok: "master_ok sha s"
  then have "events_ok sha s'" using append_event_keeps_ok [OF _ r app] by (simp add: master_ok_def)
  from app show "master_ok sha s' \<and> grows s s'"
  proof (cases rule: append_event_Inr)
    case (new i)
    have "head_of s' = head_of s" by (intro ext) (simp add: head_of_def new(6))
    then have "identities_ok sha s' = identities_ok sha s" by (simp add: identities_ok_def new(6))
    then show ?thesis
      using ok \<open>events_ok sha s'\<close> by (simp add: master_ok_def decisions_ok_def grows_def new(6))
  qed (use ok in \<open>simp add: grows_def\<close>)
qed

lemma record_decision_Inr:
  assumes "record_decision sha d s = Inr (out, s')"
  obtains (duplicate) existing where "s' = s" "map_of (sm_decision_by_hash s) (qd_decision_hash d) = Some existing"
      "decision_wire existing = decision_wire d"
  | (new) "qd_decision_hash d \<notin> fst ` set (sm_decision_by_hash s)"
      "s' = s\<lparr>sm_decision_by_hash := sm_decision_by_hash s @ [(qd_decision_hash d, d)],
              sm_decision_order := sm_decision_order s @ [qd_decision_hash d]\<rparr>"
proof (cases "map_of (sm_decision_by_hash s) (qd_decision_hash d)")
  case (Some existing)
  then show ?thesis using assms duplicate by (auto simp: record_decision_def bindO_eq_Inr require_same_wire_def)
next
  case None
  then have "qd_decision_hash d \<notin> fst ` set (sm_decision_by_hash s)" by (simp add: map_of_fresh)
  then show ?thesis using assms None new by (auto simp: record_decision_def bindO_eq_Inr dict_set_new)
qed

lemma record_decision_sound:
  assumes d: "decision_post_init sha d = Inr d" and app: "record_decision sha d s = Inr (out, s')"
  shows "sound sha s s'"
  unfolding sound_def
proof
  assume ok: "master_ok sha s"
  from app show "master_ok sha s' \<and> grows s s'"
  proof (cases rule: record_decision_Inr)
    case new
    have "head_of s' = head_of s" by (intro ext) (simp add: head_of_def new(2))
    then have "identities_ok sha s' = identities_ok sha s" by (simp add: identities_ok_def new(2))
    moreover have "event_stored sha s' = event_stored sha s" by (intro ext) (simp add: event_stored_def new(2))
    then have "events_ok sha s' = events_ok sha s" by (simp add: events_ok_def lineage_ok_def lineage_rows_def new(2))
    ultimately show ?thesis
      using ok d new(1) by (simp add: master_ok_def decisions_ok_def decision_stored_def grows_def new(2))
  qed (use ok in \<open>simp add: grows_def\<close>)
qed

section \<open>Operations of the service\<close>

lemma event_with_state_Inr:
  assumes "event_with_state sha r st t refs = Inr r'"
  shows "action_post_init sha r' = Inr r'" "ca_state r' = st" "ca_available_at r' = t" "ca_event_id r' = ca_event_id r"
    "ca_security_id r' = ca_security_id r" "same_event_facts r r'"
    "ca_source_refs r' = (case refs of None \<Rightarrow> ca_source_refs r | Some x \<Rightarrow> x)"
  using assms
  by (auto simp: event_with_state_def build_corporate_action_record_def action_post_init_def bindO_eq_Inr same_event_facts_def)

lemma in_transaction_keeps:
  assumes "\<And>s a s'. body s = Inr (a, s') \<Longrightarrow> R s s'" and "\<And>s. R s s"
  shows "keeps R (in_transaction body)"
  using assms by (auto simp: keeps_def in_transaction_def split: sum.splits prod.splits)

lemma append_next_sound: "append_next sha head st obs t s = Inr (c, s') \<Longrightarrow> sound sha s s'"
  by (auto simp: append_next_def bindO_eq_Inr intro: append_event_sound event_with_state_Inr)

lemma append_review_sound: "append_review_if_possible sha head obs t s = Inr (c, s') \<Longrightarrow> sound sha s s'"
  by (auto simp: append_review_if_possible_def intro: append_next_sound split: if_splits)

lemma apply_evaluation_sound: "apply_confirmation_evaluation sha head ev obs t s = Inr (c, s') \<Longrightarrow> sound sha s s'"
  by (auto simp: apply_confirmation_evaluation_def bindO_eq_Inr intro: append_next_sound append_review_sound
      split: confirmation_outcome.splits if_splits)

lemma judge_split_sound: "judge_split sha root head obs t s = Inr (c, s') \<Longrightarrow> sound sha s s'"
  by (auto simp: judge_split_def bindO_eq_Inr intro: apply_evaluation_sound append_review_sound
      split: option.splits if_splits)

lemma block_if_detected_sound: "block_if_detected sha e head t s = Inr (c, s') \<Longrightarrow> sound sha s s'"
  by (auto simp: block_if_detected_def bindO_eq_Inr intro: append_event_sound event_with_state_Inr split: if_splits)

lemma evaluated_decision:
  assumes "evaluate_quarantine sha q records lineages = Inr d"
  shows "decision_post_init sha d = Inr d" "qd_security_id d = qq_security_id q" "qd_decision_at d = qq_decision_at q"
  using assms by (auto simp: evaluate_quarantine_def build_decision_def decision_post_init_def bindO_eq_Inr)

text \<open>Every operation of the service is sound, whether it returns or raises.\<close>

interpretation master_frame: effect_frame "sound sha" for sha
  by unfold_locales (auto intro: sound_trans)

lemma keeps_read: "keeps (sound sha) (\<lambda>s. (f s, s))"
  by (simp add: keeps_def)

lemma register_identity_sound:
  assumes "identity_post_init sha r = Inr r"
  shows "keeps (sound sha) (register_identity sha rd r)"
  unfolding register_identity_def
  by (intro master_frame.keeps_bind master_frame.keeps_lift in_transaction_keeps sound_refl)
     (auto simp: bindO_eq_Inr intro: append_identity_sound [OF assms])

lemma discover_split_sound:
  assumes "action_post_init sha e = Inr e"
  shows "keeps (sound sha) (discover_split sha rd e)"
  unfolding discover_split_def
  by (intro master_frame.keeps_bind master_frame.keeps_lift keeps_read in_transaction_keeps sound_refl)
     (auto simp: bindO_eq_Inr intro: sound_trans [OF append_event_sound [OF assms] append_event_sound] event_with_state_Inr)

lemma confirm_split_sound: "keeps (sound sha) (confirm_split sha rd e obs t)"
  unfolding confirm_split_def
  by (intro master_frame.keeps_bind master_frame.keeps_lift in_transaction_keeps sound_refl)
     (auto simp: bindO_eq_Inr intro: sound_trans block_if_detected_sound judge_split_sound)

lemma evaluation_decision:
  assumes "quarantine_evaluation sha rd q s = Inr d"
  shows "decision_post_init sha d = Inr d" "qd_security_id d = qq_security_id q" "qd_decision_at d = qq_decision_at q"
  using assms by (auto simp: quarantine_evaluation_def bindO_eq_Inr dest: evaluated_decision)

lemma quarantine_cases:
  assumes "quarantine sha rd q s = (r, s')"
  obtains (raised) e where "r = Inl e" "s' = s"
  | (decided) d decision out where "r = Inr d" "quarantine_evaluation sha rd q s = Inr decision"
      "record_decision sha decision s = Inr (out, s')" "latest_decision sha (qd_security_id decision) s' = Inr (Some d)"
      "decision_wire d = decision_wire decision"
proof (cases "quarantine_evaluation sha rd q s")
  case (Inl e)
  then show ?thesis using assms raised [of e] by (simp add: quarantine_def bindM_apply)
next
  case (Inr decision)
  then show ?thesis
    using assms raised decided
    by (auto simp: quarantine_def bindM_apply in_transaction_def bindO_eq_Inr split: sum.splits prod.splits option.splits)
qed

lemma quarantine_sound: "keeps (sound sha) (quarantine sha rd q)"
  unfolding keeps_def
proof
  fix s
  obtain r s' where run: "quarantine sha rd q s = (r, s')" by fastforce
  then have "sound sha s s'"
    by (cases rule: quarantine_cases) (auto intro: record_decision_sound evaluation_decision)
  then show "sound sha s (snd (quarantine sha rd q s))" by (simp add: run)
qed

section \<open>Histories\<close>

text \<open>
  The source log grows by records of any source; the service works on what the log holds at
  the time. An operation is a step whether it returns or raises.
\<close>

inductive security_step :: "digest \<Rightarrow> record_log \<times> security_master \<Rightarrow> record_log \<times> security_master \<Rightarrow> bool" for sha where
  log_step: "log_append sha r log = Inr (out, log') \<Longrightarrow> security_step sha (log, s) (log', s)"
| register_step: "identity_post_init sha r = Inr r \<Longrightarrow> register_identity sha (log_reader log) r s = (res, s') \<Longrightarrow>
    security_step sha (log, s) (log, s')"
| discover_step: "action_post_init sha e = Inr e \<Longrightarrow> discover_split sha (log_reader log) e s = (res', s') \<Longrightarrow>
    security_step sha (log, s) (log, s')"
| confirm_step: "confirm_split sha (log_reader log) eid obs t s = (res', s') \<Longrightarrow> security_step sha (log, s) (log, s')"
| quarantine_step: "quarantine sha (log_reader log) q s = (res'', s') \<Longrightarrow> security_step sha (log, s) (log, s')"

inductive_cases security_stepE: "security_step sha (log, s) (log', s')"

abbreviation security_history :: "digest \<Rightarrow> record_log \<times> security_master \<Rightarrow> record_log \<times> security_master \<Rightarrow> bool" where
  "security_history sha \<equiv> (security_step sha)\<^sup>*\<^sup>*"

lemma step_sound: "security_step sha x y \<Longrightarrow> sound sha (snd x) (snd y)"
proof (induction rule: security_step.induct)
  case (register_step r log s res s')
  from keepsD [OF register_identity_sound [OF this(1)] this(2)] show ?case by simp
next
  case (discover_step e log s res s')
  from keepsD [OF discover_split_sound [OF this(1)] this(2)] show ?case by simp
next
  case (confirm_step log eid obs t s res s')
  from keepsD [OF confirm_split_sound this] show ?case by simp
next
  case (quarantine_step log q s res s')
  from keepsD [OF quarantine_sound this] show ?case by simp
qed simp

lemma history_sound: "security_history sha x y \<Longrightarrow> sound sha (snd x) (snd y)"
  by (induction rule: rtranclp_induct) (auto intro: sound_trans step_sound)

lemma reachable_ok: "security_history sha (empty_log, empty_master) (log, s) \<Longrightarrow> master_ok sha s"
  using history_sound [of sha "(empty_log, empty_master)" "(log, s)"] empty_master_ok by (simp add: sound_def)

end
