(* ===== verification/Entry_Decisions.thy ===== *)
theory Entry_Decisions
  imports Security_Histories
begin

text \<open>
  What an entry decision and a confirmation say about the store: an eligible security has one
  current identity under the symbol asked for and no split known at the time, and a split is
  confirmed only on an official source that states its facts.
\<close>

section \<open>Tallying events\<close>

definition concerns :: "quarantine_query \<Rightarrow> event_evidence \<Rightarrow> bool" where
  "concerns q e \<longleftrightarrow> (let visible = filter (\<lambda>row. action_known_at row (qq_decision_at q)) (ev_lineage e) in
     visible \<noteq> [] \<and> ca_security_id (last visible) = qq_security_id q)"

lemma event_never_eligible:
  assumes "event_quarantine sha head root res ev t = Inr (out, rs)"
  shows "0 < outcome_rank out"
proof (cases res)
  case (Some identity)
  then obtain a where "evaluate_confirmation sha root identity (ev_observations ev) t = Inr a"
    using assms by (auto simp: event_quarantine_def bindO_eq_Inr)
  then show ?thesis using Some assms by (cases "ce_outcome a") (auto simp: event_quarantine_def split: if_splits)
qed (use assms in \<open>auto simp: event_quarantine_def\<close>)

lemma tally_event_rank:
  assumes "tally_event sha q res t e = Inr t'"
  shows "outcome_rank (et_outcome t) \<le> outcome_rank (et_outcome t')" "concerns q e \<Longrightarrow> 0 < outcome_rank (et_outcome t')"
    "\<not> concerns q e \<Longrightarrow> t' = t"
  using assms event_never_eligible
  by (fastforce simp: tally_event_def concerns_def Let_def bindO_eq_Inr split: if_splits)+

lemma tally_events_rank:
  assumes "tally_events sha q res t es = Inr t'"
  shows "outcome_rank (et_outcome t) \<le> outcome_rank (et_outcome t')" "e \<in> set es \<Longrightarrow> concerns q e \<Longrightarrow> 0 < outcome_rank (et_outcome t')"
    "\<forall>e\<in>set es. \<not> concerns q e \<Longrightarrow> t' = t"
proof -
  have "outcome_rank (et_outcome t) \<le> outcome_rank (et_outcome t') \<and> ((\<exists>e\<in>set es. concerns q e) \<longrightarrow> 0 < outcome_rank (et_outcome t'))
    \<and> ((\<forall>e\<in>set es. \<not> concerns q e) \<longrightarrow> t' = t)"
    using assms
  proof (induction es arbitrary: t)
    case (Cons x es)
    then obtain u where u: "tally_event sha q res t x = Inr u" "tally_events sha q res u es = Inr t'"
      by (auto simp: bindO_eq_Inr)
    from Cons.IH [OF u(2)] tally_event_rank [OF u(1)] show ?case by force
  qed simp
  then show "outcome_rank (et_outcome t) \<le> outcome_rank (et_outcome t')"
    "e \<in> set es \<Longrightarrow> concerns q e \<Longrightarrow> 0 < outcome_rank (et_outcome t')" "\<forall>e\<in>set es. \<not> concerns q e \<Longrightarrow> t' = t"
    by blast+
qed

lemma build_decision_fields:
  "build_decision sha d = Inr d' \<Longrightarrow> d' = d\<lparr>qd_decision_hash := decision_compute_hash sha d\<rparr>"
  by (auto simp: build_decision_def decision_post_init_def bindO_eq_Inr)

abbreviation decision_identity_query :: "quarantine_query \<Rightarrow> identity_query" where
  "decision_identity_query q \<equiv> \<lparr>iq_as_of = qq_decision_at q, iq_known_at = qq_decision_at q,
     iq_security_id = Some (qq_security_id q), iq_symbol = Some (qq_symbol_as_of q)\<rparr>"

lemma eligible_evaluation:
  assumes "evaluate_quarantine sha q records ls = Inr d" "qd_outcome d = ENTRY_ELIGIBLE"
  obtains r where "resolve_identity sha records (decision_identity_query q) = Inr \<lparr>res_status = ID_RESOLVED, res_record = Some r\<rparr>"
    "ir_symbol r = qq_symbol_as_of q" "qq_master_version q = master_version_for r"
    "\<not> symbol_claims_are_ambiguous records q" "\<forall>e\<in>set ls. \<not> concerns q e" "qd_reasons d = []" "qd_event_ids d = []"
proof -
  obtain resolution resolved findings t refs where
    res: "resolve_identity sha records (decision_identity_query q) = Inr resolution"
    and find: "identity_findings records q resolution = Inr (resolved, findings)"
    and tally: "tally_events sha q resolved no_events ls = Inr t"
    and d: "qd_outcome d = (if findings \<noteq> {} then ENTRY_REVIEW_REQUIRED else et_outcome t)"
      "qd_reasons d = sorted_reasons (findings \<union> et_reasons t)" "qd_event_ids d = sort (remdups (et_event_ids t))"
    using assms(1)
    by (auto simp: evaluate_quarantine_def bindO_eq_Inr identity_query_post_init_def split: prod.splits dest!: build_decision_fields)
  have none: "findings = {}" "et_outcome t = ENTRY_ELIGIBLE" using d(1) assms(2) by (auto split: if_splits)
  then have quiet: "\<forall>e\<in>set ls. \<not> concerns q e" using tally_events_rank(2) [OF tally] by force
  then have "t = no_events" using tally_events_rank(3) [OF tally] by simp
  then have "qd_reasons d = []" "qd_event_ids d = []" using d none by (simp_all add: no_events_def sorted_reasons_def)
  moreover obtain r where "resolution = \<lparr>res_status = ID_RESOLVED, res_record = Some r\<rparr>" "ir_symbol r = qq_symbol_as_of q"
      "qq_master_version q = master_version_for r" "\<not> symbol_claims_are_ambiguous records q"
    using find none(1)
    by (cases resolution) (auto simp: identity_findings_def Let_def bindO_eq_Inr split: if_splits option.splits)
  ultimately show ?thesis using that res quiet by blast
qed

section \<open>What the service reads\<close>

lemma identity_records_of:
  assumes "identities_ok sha s" "\<not> (sid = None \<and> tick = None)"
  shows "identity_records sha sid tick s =
    Inr (filter (\<lambda>r. (sid = None \<or> Some (ir_security_id r) = sid) \<and> (tick = None \<or> Some (ir_symbol r) = tick)) (identities s))"
proof -
  have "mapO (lookup (sm_identity_by_hash s)) (sm_identity_order s) = Inr (identities s)"
    using assms(1) lookup_all by (metis identities_ok_def)
  moreover have "identity_verify_integrity sha r = Inr ()" if "r \<in> set (identities s)" for r
    using identities_stored(1) [OF assms(1) that] by (auto simp: identity_post_init_def bindO_eq_Inr)
  ultimately show ?thesis
    unfolding identity_records_def using assms(2) by (auto simp: bindO_eq_Inr eachO_eq_Inr list_all_iff Let_def)
qed

lemma dedupe_unique: "dedupe_into d rs = Inr d' \<Longrightarrow> d' = foldl (\<lambda>d r. dict_set (ir_identity_hash r) r d) d rs"
  by (induction rs arbitrary: d) (auto simp: bindO_eq_Inr)

lemma dedupe_identities_set:
  assumes "dedupe_identities rs = Inr rs'" "inj_on ir_identity_hash (set rs)"
  shows "set rs' = set rs"
  using assms(1) unique_by_hash [OF assms(2)]
  by (auto simp: dedupe_identities_def bindO_eq_Inr unique_by_hash_def dest!: dedupe_unique)

lemma resolved_rows:
  assumes "resolve_identity sha records q = Inr \<lparr>res_status = ID_RESOLVED, res_record = Some r\<rparr>"
    and "inj_on ir_identity_hash (set records)" "\<forall>r\<in>set records. interval_ok (interval_of r)"
  shows "r \<in> current_rows (known_rows (set records) q)" "identity_valid_at r (iq_as_of q)"
proof -
  have "length records \<le> MAX_RESOLUTION_RECORDS" "list_all (\<lambda>r. identity_verify_integrity sha r = Inr ()) records"
    using assms(1) by (auto simp: resolve_identity_def bindO_eq_Inr eachO_eq_Inr)
  from resolve_identity_spec [OF this assms(2,3)] assms(1)
  have spec: "resolution_spec (set records) q = \<lparr>res_status = ID_RESOLVED, res_record = Some r\<rparr>" by simp
  define A where "A = {r \<in> current_rows (known_rows (set records) q). identity_valid_at r (iq_as_of q)}"
  have "finite A" by (rule finite_subset [of _ "set records"]) (auto simp: A_def current_rows_def known_rows_def latest_in_def)
  moreover have "A \<noteq> {}" "\<not> card A > 1" "r = the_elem A"
    using spec by (auto simp: resolution_spec_def Let_def A_def [symmetric] unresolved_def split: if_splits)
  ultimately have "A = {r}" by (metis card_0_eq card_1_singletonE less_one linorder_neqE_nat the_elem_eq)
  then show "r \<in> current_rows (known_rows (set records) q)" "identity_valid_at r (iq_as_of q)" by (auto simp: A_def)
qed

lemma gathered:
  assumes "events_ok sha s" "fullmatch EVENT_ID e" "gather_evidence sha rd t s e = Inr es"
    and "filter (\<lambda>row. action_known_at row t) (lineage_rows s e) \<noteq> []"
  obtains ev where "es = [ev]" "ev_lineage ev = filter (\<lambda>row. action_known_at row t) (lineage_rows s e)"
  using assms(3,4) by (auto simp: gather_evidence_def event_lineage_rows [OF assms(1,2)] Let_def bindO_eq_Inr EventEvidence_def)

lemma lineage_same_security:
  assumes "events_ok sha s" "a \<in> set (lineage_rows s e)" "b \<in> set (lineage_rows s e)"
  shows "ca_security_id a = ca_security_id b"
proof -
  let ?L = "lineage_rows s e"
  have "lineage_ok sha s e ?L" using assms(1) by (simp add: events_ok_def)
  then have L: "successively (\<lambda>p c. validate_transition sha p c = Inr ()) ?L" using assms(2) by (auto simp: lineage_ok_def split: if_splits)
  have "ca_security_id (?L ! i) = ca_security_id (?L ! 0)" if "i < length ?L" for i
    using lineage_facts(2) [OF L refl refl, of 0 i] that by (simp add: same_event_facts_def)
  then show ?thesis using assms(2,3) by (metis in_set_conv_nth)
qed

text \<open>Every known event of the security is among the evidence.\<close>

lemma known_event_gathered:
  assumes "events_ok sha s" "mapO (gather_evidence sha rd (qq_decision_at q) s) (security_event_ids (qq_security_id q) s) = Inr evidence"
    and "x \<in> set (events s)" "ca_security_id x = qq_security_id q" "ca_available_at x \<le> qq_decision_at q"
  shows "\<exists>ev\<in>set (concat evidence). concerns q ev"
proof -
  let ?e = "ca_event_id x" and ?t = "qq_decision_at q"
  let ?vis = "filter (\<lambda>row. action_known_at row ?t) (lineage_rows s ?e)"
  have x: "x \<in> set ?vis" using assms(3,5) by (auto simp: lineage_rows_def action_known_at_def)
  have "?e \<in> set (security_event_ids (qq_security_id q) s)" using assms(3,4) by (auto simp: security_event_ids_def)
  then obtain es where es: "es \<in> set evidence" "gather_evidence sha rd ?t s ?e = Inr es"
    using mapO_member [OF assms(2)] by auto
  have id: "fullmatch EVENT_ID ?e"
    using events_stored(1) [OF assms(1,3)] by (auto simp: action_post_init_def validate_action_fields_def bindO_eq_Inr)
  obtain ev where ev: "es = [ev]" "ev_lineage ev = ?vis" using gathered [OF assms(1) id es(2)] x by (metis empty_iff empty_set)
  have "last ?vis \<in> set ?vis" using x by (metis last_in_set empty_iff empty_set)
  then have "ca_security_id (last ?vis) = ca_security_id x" using lineage_same_security [OF assms(1), of "last ?vis" ?e x] x by auto
  moreover have "filter (\<lambda>row. action_known_at row ?t) ?vis = ?vis" by simp
  ultimately have "concerns q ev" using x assms(4) unfolding concerns_def ev(2) Let_def by (metis empty_iff empty_set)
  then show ?thesis using es(1) ev(1) by force
qed

text \<open>What an eligible security looks like in the store.\<close>

definition clear_to_enter :: "security_master \<Rightarrow> quarantine_query \<Rightarrow> bool" where
  "clear_to_enter s q \<longleftrightarrow>
     (\<exists>r\<in>current_rows {x \<in> set (identities s). ir_security_id x = qq_security_id q \<and> identity_known_at x (qq_decision_at q)}.
        identity_valid_at r (qq_decision_at q) \<and> ir_symbol r = qq_symbol_as_of q \<and> qq_master_version q = master_version_for r)
     \<and> (\<forall>x\<in>set (identities s). ir_symbol x = qq_symbol_as_of q \<and> answers_as_of x (qq_decision_at q) (qq_decision_at q) \<longrightarrow>
          ir_security_id x = qq_security_id q)
     \<and> (\<forall>x\<in>set (events s). ca_security_id x = qq_security_id q \<longrightarrow> qq_decision_at q < ca_available_at x)"

lemma two_in_remdups: "\<not> length (remdups xs) > 1 \<Longrightarrow> a \<in> set xs \<Longrightarrow> b \<in> set xs \<Longrightarrow> a = b"
proof -
  assume "\<not> length (remdups xs) > 1" "a \<in> set xs" "b \<in> set xs"
  then have "card {a, b} \<le> 1" using card_mono [of "set xs" "{a, b}"] by (simp add: length_remdups_card_conv)
  then show "a = b" by (cases "a = b") simp_all
qed

lemma eligible_is_clear:
  assumes ok: "master_ok sha s" and run: "quarantine_evaluation sha rd q s = Inr d" and out: "qd_outcome d = ENTRY_ELIGIBLE"
  shows "clear_to_enter s q" "qd_reasons d = []"
proof -
  let ?t = "qq_decision_at q" and ?sid = "qq_security_id q" and ?tick = "qq_symbol_as_of q"
  have ids: "identities_ok sha s" and evs: "events_ok sha s" using ok by (simp_all add: master_ok_def)
  let ?rows = "filter (\<lambda>r. ir_security_id r = ?sid) (identities s) @ filter (\<lambda>r. ir_symbol r = ?tick) (identities s)"
  obtain records evidence where records: "dedupe_identities ?rows = Inr records"
    and evidence: "mapO (gather_evidence sha rd ?t s) (security_event_ids ?sid s) = Inr evidence"
    and eval: "evaluate_quarantine sha q records (concat evidence) = Inr d"
    using run by (auto simp: quarantine_evaluation_def bindO_eq_Inr identity_records_of [OF ids])
  have "inj_on ir_identity_hash (set ?rows)" using identities_inj [OF ids] by (rule inj_on_subset) auto
  then have set_records: "set records = set ?rows" using dedupe_identities_set [OF records] by simp
  have inj: "inj_on ir_identity_hash (set records)"
    unfolding set_records using identities_inj [OF ids] by (rule inj_on_subset) auto
  have iv: "\<forall>r\<in>set records. interval_ok (interval_of r)"
    unfolding set_records using identities_stored(1) [OF ids] by (auto intro: stored_interval_ok)
  obtain r where r: "resolve_identity sha records (decision_identity_query q) = Inr \<lparr>res_status = ID_RESOLVED, res_record = Some r\<rparr>"
      "ir_symbol r = ?tick" "qq_master_version q = master_version_for r"
    and clear: "\<not> symbol_claims_are_ambiguous records q" "\<forall>e\<in>set (concat evidence). \<not> concerns q e" "qd_reasons d = []"
    using eligible_evaluation [OF eval out] by metis
  have known: "known_rows (set records) (decision_identity_query q)
      = {x \<in> set (identities s). ir_security_id x = ?sid \<and> identity_known_at x ?t}"
    unfolding set_records by (auto simp: known_rows_def matches_key_def)
  note cur = resolved_rows [OF r(1) inj iv, unfolded known, simplified identity_query.select_convs]
  have r_in: "r \<in> set records" "ir_security_id r = ?sid" "answers_as_of r ?t ?t"
    using cur unfolding set_records by (auto simp: current_rows_def latest_in_def answers_as_of_def)
  have "ir_security_id x = ?sid" if "x \<in> set (identities s)" "ir_symbol x = ?tick" "answers_as_of x ?t ?t" for x
  proof -
    have "x \<in> set records" using that unfolding set_records by simp
    then have "ir_security_id x = ir_security_id r"
      using that r_in(1,3) r(2) by (intro two_in_remdups [OF clear(1) [unfolded symbol_claims_are_ambiguous_def]]) simp_all
    then show ?thesis using r_in(2) by simp
  qed
  moreover have "?t < ca_available_at x" if "x \<in> set (events s)" "ca_security_id x = ?sid" for x
    using known_event_gathered [OF evs evidence that] clear(2) by force
  ultimately show "clear_to_enter s q" "qd_reasons d = []"
    using cur r(2,3) clear(3) unfolding clear_to_enter_def by blast+
qed

lemma decision_wire_outcome:
  assumes "decision_wire d = decision_wire d'"
  shows "qd_outcome d = qd_outcome d'"
  using assms by (cases "qd_outcome d"; cases "qd_outcome d'") (simp_all add: decision_wire_def)

section \<open>Transitions of a split\<close>

text \<open>A row appended after the last row of its event becomes its last row.\<close>

lemma previous_link:
  assumes "events_ok sha s" "i < length (lineage_rows s e)"
  shows "map_of (sm_event_previous s) (ca_record_hash (lineage_rows s e ! i))
    = Some (if i = 0 then None else Some (ca_record_hash (lineage_rows s e ! (i - 1))))"
proof -
  let ?L = "lineage_rows s e"
  have "lineage_ok sha s e ?L" using assms(1) by (simp add: events_ok_def)
  then have "map (\<lambda>r. map_of (sm_event_previous s) (ca_record_hash r)) ?L = map Some (None # map (Some \<circ> ca_record_hash) (butlast ?L))"
    using assms(2) by (auto simp: lineage_ok_def split: if_splits)
  then have "map (\<lambda>r. map_of (sm_event_previous s) (ca_record_hash r)) ?L ! i = map Some (None # map (Some \<circ> ca_record_hash) (butlast ?L)) ! i"
    by (rule arg_cong)
  then show ?thesis using assms(2) by (cases i) (simp_all add: nth_butlast)
qed

lemma action_wire_fields:
  assumes "action_wire a = action_wire b"
  shows "ca_event_id a = ca_event_id b" "ca_security_id a = ca_security_id b"
    "utc_ok (ca_available_at a) \<Longrightarrow> utc_ok (ca_available_at b) \<Longrightarrow> ca_available_at a = ca_available_at b"
  using assms by (auto simp: action_wire_def intro: utc_str_inject)

lemma append_event_extends:
  assumes ok: "events_ok sha s" and L: "lineage_rows s (ca_event_id c) = L" "L \<noteq> []"
    and app: "append_event sha c (Some (ca_record_hash (last L))) s = Inr (out, s')"
  shows "lineage_rows s' (ca_event_id c) = L @ [c]"
  using app
proof (cases rule: append_event_Inr)
  case (duplicate existing)
  have "existing \<in> set (events s)" "ca_record_hash existing = ca_record_hash c"
    using map_of_SomeD [OF duplicate(3)] ok by (auto simp: events_ok_def list_all_iff event_stored_def rev_image_eqI)
  then have "existing \<in> set L"
    using action_wire_fields(1) [OF duplicate(4)] unfolding L(1) [symmetric] lineage_rows_def set_filter by blast
  then obtain i where i: "i < length L" "L ! i = existing" by (metis in_set_conv_nth)
  have "0 < i" "ca_record_hash (L ! (i - 1)) = ca_record_hash (last L)"
    using previous_link [OF ok, of i "ca_event_id c", unfolded L(1), OF i(1)] i(2) duplicate(5)
      \<open>ca_record_hash existing = ca_record_hash c\<close> by (auto split: if_splits)
  then have "map ca_record_hash L ! (i - 1) = map ca_record_hash L ! (length L - 1)" using i(1) L(2) by (simp add: last_conv_nth)
  then have "i - 1 = length L - 1"
    using lineage_hashes_distinct [OF ok, of "ca_event_id c", unfolded L(1)] i(1) L(2) by (subst (asm) nth_eq_iff_index_eq) auto
  then show ?thesis using i(1) \<open>0 < i\<close> by simp
next
  case (new i)
  then show ?thesis using L(1) by (simp add: lineage_rows_def)
qed

lemma append_next_extends:
  assumes "events_ok sha s" "lineage_rows s e = L" "L \<noteq> []" "append_next sha (last L) st obs t s = Inr (c, s')"
  shows "lineage_rows s' e = L @ [c]" "ca_state c = st"
proof -
  have "last L \<in> set L" using assms(3) by simp
  then have e: "ca_event_id (last L) = e" using assms(2) by (auto simp: lineage_rows_def)
  then show "lineage_rows s' e = L @ [c]" "ca_state c = st"
    using assms append_event_extends [of sha s c L] event_with_state_Inr(2,4) by (auto simp: append_next_def bindO_eq_Inr)
qed

lemma block_if_detected_head:
  assumes ok: "events_ok sha s" and id: "fullmatch EVENT_ID e" and L: "lineage_rows s e = L" "L \<noteq> []"
    and run: "block_if_detected sha e (last L) t s = Inr (h, s1)" and s1: "events_ok sha s1"
  shows "lineage_rows s1 e \<noteq> []" "h = last (lineage_rows s1 e)" "ca_state h \<noteq> CA_CONFIRMED \<or> s1 = s \<and> h = last L"
proof -
  have "last L \<in> set L" using L(2) by simp
  then have e: "ca_event_id (last L) = e" using L(1) by (auto simp: lineage_rows_def)
  show "lineage_rows s1 e \<noteq> []" "h = last (lineage_rows s1 e)" "ca_state h \<noteq> CA_CONFIRMED \<or> s1 = s \<and> h = last L"
  proof (atomize (full), cases "ca_state (last L) = CA_DETECTED")
    case True
    then obtain b out where b: "event_with_state sha (last L) CA_ENTRY_BLOCKED (later (ca_available_at (last L)) t) None = Inr b"
        "append_event sha b (Some (ca_record_hash (last L))) s = Inr (out, s1)" "require_head (lineage_rows s1 e) = Inr h"
      using run by (auto simp: block_if_detected_def bindO_eq_Inr event_lineage_rows [OF s1 id])
    note f = event_with_state_Inr(2,4) [OF b(1)]
    have "lineage_rows s1 e = L @ [b]" using append_event_extends [OF ok, of b L] L b(2) f(2) e by simp
    then show "lineage_rows s1 e \<noteq> [] \<and> h = last (lineage_rows s1 e) \<and> (ca_state h \<noteq> CA_CONFIRMED \<or> s1 = s \<and> h = last L)"
      using b(3) f(1) by (auto simp: require_head_def)
  qed (use run L in \<open>auto simp: block_if_detected_def\<close>)
qed

section \<open>Confirmation\<close>

definition agrees :: "'a option \<Rightarrow> 'a \<Rightarrow> bool" where
  "agrees claimed stated \<longleftrightarrow> claimed = None \<or> claimed = Some stated"

text \<open>
  The evidence that confirms a split: every observation is the current version of its record,
  audited, available by then and in no conflict with the event; one is official and states
  every fact; and the ex-date is still ahead.
\<close>

definition official_evidence ::
  "digest \<Rightarrow> source_reader \<Rightarrow> corporate_action \<Rightarrow> source_observation list \<Rightarrow> utc \<Rightarrow> bool" where
  "official_evidence sha rd root obs t \<longleftrightarrow>
     date_less (utc_date t) (ca_ex_date root)
     \<and> (\<forall>o'\<in>set obs. is_current sha rd (so_source_ref o') = Inr True
          \<and> source_available_at sha rd (so_source_ref o') = Inr (so_available_at o') \<and> so_available_at o' \<le> t \<and> so_auditable o'
          \<and> agrees (so_claimed_type o') (ca_action_type root) \<and> agrees (so_claimed_ratio o') (ca_ratio root)
          \<and> agrees (so_claimed_ex_date o') (ca_ex_date root) \<and> agrees (so_claimed_effective_date o') (ca_effective_date root))
     \<and> (\<exists>o'\<in>set obs. sr_family (so_source_ref o') \<in> {SEC_EDGAR, ISSUER_IR, EXCHANGE_OFFICIAL}
          \<and> so_claimed_type o' = Some (ca_action_type root) \<and> so_claimed_ratio o' = Some (ca_ratio root)
          \<and> so_claimed_ex_date o' = Some (ca_ex_date root) \<and> so_claimed_effective_date o' = Some (ca_effective_date root))"

lemma revalidated_clean:
  "mapO (revalidate_observation sha rd) obs = Inr obs' \<Longrightarrow> list_all (\<lambda>o'. \<not> so_withdrawn o') obs' \<Longrightarrow>
    obs' = obs \<and> (\<forall>o'\<in>set obs. is_current sha rd (so_source_ref o') = Inr True
      \<and> source_available_at sha rd (so_source_ref o') = Inr (so_available_at o'))"
proof (induction obs arbitrary: obs')
  case (Cons x obs)
  then obtain y ys where y: "revalidate_observation sha rd x = Inr y" "mapO (revalidate_observation sha rd) obs = Inr ys" "obs' = y # ys"
    by (auto simp: bindO_eq_Inr)
  moreover have "y = x \<and> is_current sha rd (so_source_ref x) = Inr True \<and> source_available_at sha rd (so_source_ref x) = Inr (so_available_at x)"
    using y Cons.prems(2) by (cases x) (auto simp: revalidate_observation_def bindO_eq_Inr split: if_splits)
  ultimately show ?case using Cons.IH [of ys] Cons.prems(2) by simp
qed simp

lemma claims_agree:
  "\<not> claims_conflict (claims f obs) v \<Longrightarrow> o' \<in> set obs \<Longrightarrow> agrees (f o') v"
  by (cases "f o'") (auto simp: claims_conflict_def claims_def agrees_def list_ex_iff List.map_filter_def split: option.splits)

lemma confirmed_evaluation:
  assumes "evaluate_confirmation sha root identity obs t = Inr ev" "ce_outcome ev = CONFIRM_CONFIRMED"
  shows "date_less (utc_date t) (ca_ex_date root)" "list_all (\<lambda>o'. \<not> so_withdrawn o') obs" "list_all so_auditable obs"
    "list_all (\<lambda>o'. so_available_at o' \<le> t) obs" "list_ex (\<lambda>o'. qualifying_official o' t) obs" "fact_conflicts root obs = {}"
  using assms
  by (auto simp: evaluate_confirmation_def confirmation_findings_def bindO_eq_Inr Let_def list_ex_iff list_all_iff not_less split: if_splits)

lemma confirmed_is_official:
  assumes "mapO (revalidate_observation sha rd) obs = Inr obs'"
    and "evaluate_confirmation sha root identity obs' t = Inr ev" "ce_outcome ev = CONFIRM_CONFIRMED"
  shows "official_evidence sha rd root obs t"
proof -
  note ev = confirmed_evaluation [OF assms(2,3)]
  have obs: "obs' = obs" and cur: "\<forall>o'\<in>set obs. is_current sha rd (so_source_ref o') = Inr True
      \<and> source_available_at sha rd (so_source_ref o') = Inr (so_available_at o')"
    using revalidated_clean [OF assms(1) ev(2)] by simp_all
  have facts: "agrees (so_claimed_type o') (ca_action_type root) \<and> agrees (so_claimed_ratio o') (ca_ratio root)
      \<and> agrees (so_claimed_ex_date o') (ca_ex_date root) \<and> agrees (so_claimed_effective_date o') (ca_effective_date root)"
    if "o' \<in> set obs" for o'
    using ev(6) unfolding obs fact_conflicts_def by (intro conjI claims_agree [OF _ that]) (simp_all split: if_splits)
  obtain o' where o': "o' \<in> set obs" "qualifying_official o' t" using ev(5) obs by (auto simp: list_ex_iff)
  then have "sr_family (so_source_ref o') \<in> {SEC_EDGAR, ISSUER_IR, EXCHANGE_OFFICIAL}
      \<and> so_claimed_type o' = Some (ca_action_type root) \<and> so_claimed_ratio o' = Some (ca_ratio root)
      \<and> so_claimed_ex_date o' = Some (ca_ex_date root) \<and> so_claimed_effective_date o' = Some (ca_effective_date root)"
    using facts [OF o'(1)] by (auto simp: qualifying_official_def OFFICIAL_ANNOUNCEMENT_FAMILIES_def agrees_def)
  then show ?thesis
    using ev(1,3,4) cur facts o'(1) unfolding obs official_evidence_def list_all_iff by blast
qed

lemma confirm_split_confirms:
  assumes ok: "master_ok sha s" and run: "confirm_split sha rd e obs t s = (Inr r, s')"
    and now: "ca_state r = CA_CONFIRMED" and before: "ca_state (last (lineage_rows s e)) \<noteq> CA_CONFIRMED"
  shows "official_evidence sha rd (hd (lineage_rows s e)) obs t"
    and "\<exists>L. lineage_rows s' e = L @ [r] \<and> L \<noteq> [] \<and> ca_state (last L) = CA_ENTRY_BLOCKED"
proof -
  have id: "fullmatch EVENT_ID e" using run by (auto simp: confirm_split_def bindM_apply liftM_apply require_def split: if_splits sum.splits)
  have ok': "events_ok sha s" using ok by (simp add: master_ok_def)
  let ?L = "lineage_rows s e"
  obtain obs' h s1 c where obs: "mapO (revalidate_observation sha rd) obs = Inr obs'" and ne: "?L \<noteq> []"
    and block: "block_if_detected sha e (last ?L) t s = Inr (h, s1)"
    and judge: "judge_split sha (hd ?L) h obs' t s1 = Inr (c, s')"
    and result: "bindO (event_lineage sha e s') require_head = Inr r"
    using run
    by (auto simp: confirm_split_def bindM_apply liftM_apply in_transaction_def bindO_eq_Inr event_lineage_rows [OF ok' id]
        require_head_def split: sum.splits prod.splits if_splits)
  have s1: "master_ok sha s1" using block_if_detected_sound [OF block] ok by (simp add: sound_def)
  have s': "master_ok sha s'" using judge_split_sound [OF judge] s1 by (simp add: sound_def)
  have s1': "events_ok sha s1" using s1 by (simp add: master_ok_def)
  have s'': "events_ok sha s'" using s' by (simp add: master_ok_def)
  note head = block_if_detected_head [OF ok' id refl ne block s1']
  have h: "ca_state h \<noteq> CA_CONFIRMED" using head(3) before by auto
  have r: "r = last (lineage_rows s' e)" using result by (auto simp: event_lineage_rows [OF s'' id] require_head_def split: if_splits)
  have stay: False if "s' = s1" using that r head(2) h now by simp
  have appended: "lineage_rows s' e = lineage_rows s1 e @ [r] \<and> st = CA_CONFIRMED" if "append_next sha h st obs' t s1 = Inr (c, s')" for st
    using append_next_extends [OF s1' refl head(1), of st obs' t c s'] that r now unfolding head(2) [symmetric] by auto
  have review: False if "append_review_if_possible sha h obs' t s1 = Inr (c, s')"
    using that appended stay by (auto simp: append_review_if_possible_def split: if_splits)
  obtain identity ev where ev: "evaluate_confirmation sha (hd ?L) identity obs' t = Inr ev"
    and app: "apply_confirmation_evaluation sha h ev obs' t s1 = Inr (c, s')"
    using judge review by (auto simp: judge_split_def bindO_eq_Inr split: if_splits option.splits)
  have "ce_outcome ev = CONFIRM_CONFIRMED \<and> ca_state h = CA_ENTRY_BLOCKED \<and> append_next sha h CA_CONFIRMED obs' t s1 = Inr (c, s')"
    using app review stay h
    by (cases "ce_outcome ev") (auto simp: apply_confirmation_evaluation_def bindO_eq_Inr)
  then show "official_evidence sha rd (hd ?L) obs t"
    and "\<exists>L. lineage_rows s' e = L @ [r] \<and> L \<noteq> [] \<and> ca_state (last L) = CA_ENTRY_BLOCKED"
    using confirmed_is_official [OF obs ev] appended head(1,2) by auto
qed

section \<open>Discovery\<close>

lemma appended_row_stored:
  assumes "append_event sha e prev s = Inr (out, s')" "action_post_init sha e = Inr e" "events_ok sha s'"
  shows "\<exists>x\<in>set (events s'). ca_security_id x = ca_security_id e \<and> ca_available_at x = ca_available_at e"
  using assms(1)
proof (cases rule: append_event_Inr)
  case (duplicate existing)
  have "existing \<in> set (events s')" using map_of_SomeD [OF duplicate(3)] duplicate(2) by force
  moreover have "utc_ok (ca_available_at r)" if "action_post_init sha r = Inr r" for r
    using that by (auto simp: action_post_init_def validate_action_fields_def bindO_eq_Inr)
  ultimately show ?thesis
    using action_wire_fields [OF duplicate(4)] events_stored(1) [OF assms(3)] assms(2) by blast
next
  case (new i)
  then show ?thesis by (auto intro!: bexI [of _ e])
qed

text \<open>Once a discovery returned, the store holds the facts of the event.\<close>

lemma discovered_row_stored:
  assumes ok: "master_ok sha s1" and e: "action_post_init sha e = Inr e" and run: "discover_split sha rd e s = (Inr r, s1)"
  shows "\<exists>x\<in>set (events s1). ca_security_id x = ca_security_id e \<and> ca_available_at x = ca_available_at e"
proof -
  obtain out b blocked out' where first: "append_event sha e None s = Inr (out, b)"
    and second: "event_with_state sha e CA_ENTRY_BLOCKED (ca_available_at e) None = Inr blocked"
      "append_event sha blocked (Some (ca_record_hash e)) b = Inr (out', s1)"
    using run(1)
    by (auto simp: discover_split_def bindM_apply liftM_apply in_transaction_def bindO_eq_Inr split: sum.splits prod.splits)
  note f = event_with_state_Inr [OF second(1)]
  show ?thesis using appended_row_stored [OF second(2) f(1)] ok f(3,5) by (simp add: master_ok_def)
qed

end
