(* ===== verification/Security_Demo.thy ===== *)
theory Security_Demo
  imports Entry_Decisions
begin

text \<open>
  A concrete history for the witnesses: one official source record, an identity registered on
  it, and a split of the security. The digest tells texts apart by their length modulo three,
  which separates the states of an event.
\<close>

section \<open>A digest\<close>

definition demo_sha :: digest where
  "demo_sha x = replicate 63 (CHR ''a'') @ [digit_char (length x mod 3)]"

lemma demo_sha_hash [simp]: "fullmatch HASH_TEXT (demo_sha x)"
proof -
  have "is_hex (digit_char (length x mod 3))" by (simp add: is_hex_def)
  then show ?thesis unfolding fullmatch_iff HASH_TEXT_def lang_Rep_Cls demo_sha_def by (simp add: list_all_iff is_hex_def)
qed

lemma demo_sha_eq: "demo_sha x = demo_sha y \<longleftrightarrow> length x mod 3 = length y mod 3"
proof -
  have "length z mod 3 < 10" for z :: string using mod_less_divisor [of 3 "length z"] by linarith
  then have "digit_char (length x mod 3) = digit_char (length y mod 3) \<longleftrightarrow> length x mod 3 = length y mod 3"
    by (metis digit_value_digit_char)
  then show ?thesis by (simp add: demo_sha_def)
qed

lemma length_join: "length (join sep xs) = sum_list (map length xs) + length sep * (length xs - 1)"
  by (induction sep xs rule: join.induct) simp_all

lemma length_dumps_obj:
  "length (dumps (JObj kvs)) = 1 + length kvs + (if kvs = [] then 1 else 0)
    + sum_list (map (\<lambda>(k, v). length (json_text k) + 1 + length (dumps v)) kvs)"
proof -
  let ?f = "\<lambda>(k, v). (k, dumps v)" and ?g = "\<lambda>(k, t). length (json_text k) + 1 + length (t :: string)"
  have "sum_list (map ?g (sort_key fst (map ?f kvs))) = sum_list (map ?g (map ?f kvs))"
  proof -
    have "mset (map ?g (sort_key fst (map ?f kvs))) = mset (map ?g (map ?f kvs))" by (simp only: mset_map mset_sort)
    then show ?thesis by (metis sum_mset_sum_list)
  qed
  then show ?thesis by (cases kvs) (auto simp: length_join o_def case_prod_unfold)
qed

lemma state_length: "length (json_text (action_state_value st)) = 2 + length (action_state_value st)"
  by (cases st) (simp_all add: json_text_def escape_char_def Let_def)

lemma mod_three:
  fixes c x y :: nat
  assumes "(c + x) mod 3 = (c + y) mod 3" "x + lb = y + la"
  shows "la mod 3 = lb mod 3"
proof -
  have "int (c + x) mod 3 = int (c + y) mod 3" using assms(1) by (metis of_nat_mod of_nat_numeral)
  then have "3 dvd int (c + x) - int (c + y)" by (simp only: mod_eq_dvd_iff)
  moreover have "int (c + x) - int (c + y) = int la - int lb" using assms(2) by linarith
  ultimately have "int la mod 3 = int lb mod 3" by (simp only: mod_eq_dvd_iff)
  then show ?thesis by (metis of_nat_mod of_nat_numeral of_nat_eq_iff)
qed

text \<open>Rows that differ in their state have hashes that do.\<close>

lemma member_length:
  "length (dumps (JObj (A @ (k, u) # B))) + length (dumps v) = length (dumps (JObj (A @ (k, v) # B))) + length (dumps u)"
  unfolding length_dumps_obj by (simp del: dumps.simps)

lemma action_wire_state:
  "action_wire (r\<lparr>ca_state := st\<rparr>) =
     JObj ([(''event_id'', JStr (ca_event_id r)), (''security_id'', JStr (ca_security_id r)),
            (''security_identity_hash'', JStr (ca_security_identity_hash r)),
            (''action_type'', JStr (action_type_value (ca_action_type r))), (''ratio'', ratio_wire (ca_ratio r)),
            (''declared_at'', JStr (utc_str (ca_declared_at r))), (''ex_date'', JStr (isoformat (ca_ex_date r))),
            (''effective_date'', JStr (isoformat (ca_effective_date r))), (''available_at'', JStr (utc_str (ca_available_at r)))]
       @ (''state'', JStr (action_state_value st)) #
           [(''source_refs'', JList (map source_ref_wire (ca_source_refs r))), (''schema_version'', JStr (ca_schema_version r)),
            (''producer_version'', JStr ACTIONS_PRODUCER_VERSION)])"
  unfolding action_wire_def by simp

lemma action_length:
  "length (dumps (action_wire (r\<lparr>ca_state := a\<rparr>))) + length (action_state_value b)
    = length (dumps (action_wire (r\<lparr>ca_state := b\<rparr>))) + length (action_state_value a)"
proof -
  have "length (dumps (action_wire (r\<lparr>ca_state := a\<rparr>))) + length (dumps (JStr (action_state_value b)))
      = length (dumps (action_wire (r\<lparr>ca_state := b\<rparr>))) + length (dumps (JStr (action_state_value a)))"
    unfolding action_wire_state by (rule member_length)
  then show ?thesis unfolding dumps.simps(4) state_length by linarith
qed

lemma action_hash_neq:
  assumes "length (action_state_value a) mod 3 \<noteq> length (action_state_value b) mod 3"
  shows "action_compute_hash demo_sha (r\<lparr>ca_state := a\<rparr>) \<noteq> action_compute_hash demo_sha (r\<lparr>ca_state := b\<rparr>)"
proof
  assume "action_compute_hash demo_sha (r\<lparr>ca_state := a\<rparr>) = action_compute_hash demo_sha (r\<lparr>ca_state := b\<rparr>)"
  then have "length (action_state_value a) mod 3 = length (action_state_value b) mod 3"
    unfolding action_compute_hash_def demo_sha_eq length_append by (rule mod_three [OF _ action_length])
  with assms show False ..
qed

section \<open>Records\<close>

definition demo_source :: source_record where
  "demo_source =
     (let r = \<lparr>nr_record_id = ''s1'', nr_family = SEC_EDGAR, nr_endpoint_id = ''e'', nr_schema_version = ''1.0.0'',
               nr_content_hash = ''c'', nr_record_hash = [], nr_retrieved_at = 0, nr_payload = [], nr_material_claim = False,
               nr_observation_at = None, nr_published_at = None, nr_available_at = None, nr_effective_at = None,
               nr_vintage = None, nr_supersedes_content_hash = None, nr_coverage_warning = None\<rparr>
      in r\<lparr>nr_record_hash := source_record_compute_hash demo_sha r\<rparr>)"

definition demo_log :: record_log where
  "demo_log = \<lparr>ml_records = [(''s1'', demo_source)], ml_versions = [((''s1'', nr_record_hash demo_source), demo_source)], ml_order = [''s1'']\<rparr>"

definition demo_ref :: source_ref where
  "demo_ref = \<lparr>sr_record_id = ''s1'', sr_family = SEC_EDGAR, sr_record_hash = nr_record_hash demo_source\<rparr>"

lemma demo_source_fields [simp]:
  "nr_record_id demo_source = ''s1''" "nr_family demo_source = SEC_EDGAR" "nr_supersedes_content_hash demo_source = None"
  "availability demo_source = 0"
  by (simp_all add: demo_source_def Let_def availability_def)

lemma demo_ref_fields [simp]:
  "sr_record_id demo_ref = ''s1''" "sr_family demo_ref = SEC_EDGAR" "sr_record_hash demo_ref = nr_record_hash demo_source"
  by (simp_all add: demo_ref_def)

lemma demo_source_integrity [simp]: "source_record_verify_integrity demo_sha demo_source = Inr ()"
  by (simp add: source_record_verify_integrity_def demo_source_def Let_def source_record_compute_hash_def source_record_wire_def
      cong: option.case_cong)

lemma demo_log_step: "security_step demo_sha (empty_log, s) (demo_log, s)"
  by (rule security_step.log_step [of _ demo_source _ APPENDED]) (simp add: log_append_def empty_log_def demo_log_def)

lemma demo_ref_ok: "source_ref_ok demo_ref"
proof -
  have "nr_record_hash demo_source = demo_sha x" if "x = SOURCE_HASH_DOMAIN @ dumps (source_record_wire demo_source)" for x
    using demo_source_integrity that by (simp add: source_record_verify_integrity_def source_record_compute_hash_def)
  then show ?thesis
    by (simp add: source_ref_ok_def) (simp add: fullmatch_iff RECORD_ID_def lang_head_tail is_lower_def is_digit_def)
qed

lemma demo_read [simp]:
  "read_source demo_sha (log_reader demo_log) demo_ref = Inr demo_source"
  "is_current demo_sha (log_reader demo_log) demo_ref = Inr True"
  "is_current_at demo_sha (log_reader demo_log) demo_ref 0 = Inr True"
  "source_available_at demo_sha (log_reader demo_log) demo_ref = Inr 0"
  by (simp_all add: read_source_def is_current_def is_current_at_def source_available_at_def log_reader_def log_get_def
      log_get_version_def log_versions_def demo_log_def demand_def)

lemma demo_refs [simp]: "validate_refs demo_sha (log_reader demo_log) (Some 0) [demo_ref] = Inr [demo_source]"
  "validate_refs demo_sha (log_reader demo_log) None [demo_ref] = Inr [demo_source]"
  by (simp_all add: validate_refs_def demand_def)

section \<open>The identity\<close>

definition demo_identity :: identity_record where
  "demo_identity =
     (let r = \<lparr>ir_security_id = ''aaaaaaaa'', ir_symbol = ''ABC'', ir_exchange = NASDAQ, ir_valid_from = 0, ir_available_at = 0,
               ir_status = SECURITY_ACTIVE, ir_source_refs = [demo_ref], ir_schema_version = ''1.0.0'', ir_identity_hash = [],
               ir_cik = None, ir_cusip = None, ir_isin = None, ir_valid_to = None\<rparr>
      in r\<lparr>ir_identity_hash := identity_compute_hash demo_sha r\<rparr>)"

lemma demo_identity_fields [simp]:
  "ir_security_id demo_identity = ''aaaaaaaa''" "ir_symbol demo_identity = ''ABC''" "ir_valid_from demo_identity = 0"
  "ir_available_at demo_identity = 0" "ir_source_refs demo_identity = [demo_ref]" "ir_valid_to demo_identity = None"
  by (simp_all add: demo_identity_def Let_def)

lemma demo_patterns:
  "fullmatch SECURITY_ID ''aaaaaaaa''" "fullmatch SECURITY_SYMBOL ''ABC''" "fullmatch SCHEMA_VERSION_PATTERN ''1.0.0''" "fullmatch EVENT_ID ''e1''"
  by code_simp+

lemma utc_zero [simp]: "utc_ok 0"
  by (simp add: utc_ok_def MAX_ORDINAL_def DAY_MICROSECONDS_def)

lemma demo_identity_integrity [simp]: "identity_verify_integrity demo_sha demo_identity = Inr ()"
  unfolding demo_identity_def Let_def by (rule identity_seal.sealed_verifies [OF refl])

lemma demo_identity_ok [simp]: "identity_post_init demo_sha demo_identity = Inr demo_identity"
proof -
  have "ir_identity_hash demo_identity = identity_compute_hash demo_sha demo_identity"
    using demo_identity_integrity by (simp add: identity_verify_integrity_def)
  then have "fullmatch HASH_TEXT (ir_identity_hash demo_identity)" by (simp add: identity_compute_hash_def)
  moreover have "ir_cik demo_identity = None" "ir_cusip demo_identity = None" "ir_isin demo_identity = None"
      "ir_schema_version demo_identity = ''1.0.0''" by (simp_all add: demo_identity_def Let_def)
  ultimately show ?thesis
    by (simp add: identity_post_init_def validate_identity_fields_def SecurityId_def SecuritySymbol_def SchemaVersion_def demo_patterns
        optional_matches_def source_refs_ok_def demo_ref_ok MAX_SOURCE_REFS_def)
qed

abbreviation demo_hash :: string where
  "demo_hash \<equiv> ir_identity_hash demo_identity"

definition demo_master1 :: security_master where
  "demo_master1 = empty_master\<lparr>sm_identity_by_hash := [(demo_hash, demo_identity)], sm_identity_order := [demo_hash],
     sm_identity_heads := [(interval_key demo_identity, demo_hash)]\<rparr>"

lemma demo_register: "register_identity demo_sha (log_reader demo_log) demo_identity empty_master = (Inr APPENDED, demo_master1)"
  by (simp add: register_identity_def bindM_apply liftM_apply in_transaction_def append_identity_def empty_master_def demo_master1_def
      identity_records_def lookup_def demand_def)

lemma demo_history1: "security_history demo_sha (empty_log, empty_master) (demo_log, demo_master1)"
proof -
  have "security_step demo_sha (demo_log, empty_master) (demo_log, demo_master1)"
    using security_step.register_step [OF demo_identity_ok demo_register] .
  then show ?thesis using demo_log_step [of empty_master] by (metis rtranclp.simps)
qed

section \<open>The split\<close>

definition demo_event :: "corporate_action_state \<Rightarrow> corporate_action" where
  "demo_event st =
     (let r = \<lparr>ca_event_id = ''e1'', ca_security_id = ''aaaaaaaa'', ca_security_identity_hash = demo_hash, ca_action_type = FORWARD_SPLIT,
               ca_ratio = \<lparr>ratio_numerator = 2, ratio_denominator = 1\<rparr>, ca_declared_at = 0,
               ca_ex_date = \<lparr>year = 1, month = 1, day = 5\<rparr>, ca_effective_date = \<lparr>year = 1, month = 1, day = 5\<rparr>,
               ca_available_at = 0, ca_state = st, ca_source_refs = [demo_ref], ca_schema_version = ''1.0.0'', ca_record_hash = []\<rparr>
      in r\<lparr>ca_record_hash := action_compute_hash demo_sha r\<rparr>)"

lemma demo_event_fields [simp]:
  "ca_event_id (demo_event st) = ''e1''" "ca_security_id (demo_event st) = ''aaaaaaaa''" "ca_security_identity_hash (demo_event st) = demo_hash"
  "ca_action_type (demo_event st) = FORWARD_SPLIT" "ca_ratio (demo_event st) = \<lparr>ratio_numerator = 2, ratio_denominator = 1\<rparr>"
  "ca_declared_at (demo_event st) = 0" "ca_ex_date (demo_event st) = \<lparr>year = 1, month = 1, day = 5\<rparr>"
  "ca_effective_date (demo_event st) = \<lparr>year = 1, month = 1, day = 5\<rparr>" "ca_available_at (demo_event st) = 0"
  "ca_state (demo_event st) = st" "ca_source_refs (demo_event st) = [demo_ref]" "ca_schema_version (demo_event st) = ''1.0.0''"
  by (simp_all add: demo_event_def Let_def)

lemma demo_event_integrity [simp]: "action_verify_integrity demo_sha (demo_event st) = Inr ()"
  unfolding demo_event_def Let_def by (rule action_seal.sealed_verifies [OF refl])

lemma first_day: "utc_date 0 = \<lparr>year = 1, month = 1, day = 1\<rparr>"
  by code_simp

lemma demo_identity_hash: "fullmatch HASH_TEXT demo_hash"
  using demo_identity_ok by (auto simp: identity_post_init_def bindO_eq_Inr)

lemma demo_event_valid [simp]: "validate_action_fields (demo_event st) = Inr ()"
  by (simp add: validate_action_fields_def demo_patterns SecurityId_def SchemaVersion_def demo_identity_hash SplitRatio_def
      valid_date_def days_in_month_def date_less_def first_day source_refs_ok_def demo_ref_ok MAX_SOURCE_REFS_def)

lemma demo_event_ok [simp]: "action_post_init demo_sha (demo_event st) = Inr (demo_event st)"
proof -
  have "ca_record_hash (demo_event st) = action_compute_hash demo_sha (demo_event st)"
    using demo_event_integrity by (simp add: action_verify_integrity_def)
  then have "fullmatch HASH_TEXT (ca_record_hash (demo_event st))" by (simp add: action_compute_hash_def)
  then show ?thesis by (simp add: action_post_init_def)
qed

lemma demo_event_hash_neq:
  assumes "length (action_state_value a) mod 3 \<noteq> length (action_state_value b) mod 3"
  shows "ca_record_hash (demo_event a) \<noteq> ca_record_hash (demo_event b)"
proof -
  have "demo_event a = (demo_event b)\<lparr>ca_state := a, ca_record_hash := ca_record_hash (demo_event a)\<rparr>" by (simp add: demo_event_def Let_def)
  moreover have "ca_record_hash (demo_event st) = action_compute_hash demo_sha (demo_event st)" for st
    using demo_event_integrity [of st] by (simp add: action_verify_integrity_def)
  moreover have "action_compute_hash demo_sha (r\<lparr>ca_record_hash := h\<rparr>) = action_compute_hash demo_sha r" for r h
    by (simp add: action_compute_hash_def action_wire_def)
  ultimately have "ca_record_hash (demo_event a) = action_compute_hash demo_sha ((demo_event b)\<lparr>ca_state := a\<rparr>)" by metis
  moreover have "ca_record_hash (demo_event b) = action_compute_hash demo_sha ((demo_event b)\<lparr>ca_state := b\<rparr>)"
    using demo_event_integrity [of b] by (simp add: action_verify_integrity_def) (simp add: demo_event_def Let_def)
  ultimately show ?thesis using action_hash_neq [OF assms, of "demo_event b"] by simp
qed

lemma demo_event_hashes [simp]:
  "ca_record_hash (demo_event CA_DETECTED) \<noteq> ca_record_hash (demo_event CA_ENTRY_BLOCKED)"
  "ca_record_hash (demo_event CA_ENTRY_BLOCKED) \<noteq> ca_record_hash (demo_event CA_DETECTED)"
  "ca_record_hash (demo_event CA_DETECTED) \<noteq> ca_record_hash (demo_event CA_CONFIRMED)"
  "ca_record_hash (demo_event CA_CONFIRMED) \<noteq> ca_record_hash (demo_event CA_DETECTED)"
  "ca_record_hash (demo_event CA_ENTRY_BLOCKED) \<noteq> ca_record_hash (demo_event CA_CONFIRMED)"
  "ca_record_hash (demo_event CA_CONFIRMED) \<noteq> ca_record_hash (demo_event CA_ENTRY_BLOCKED)"
  by (rule demo_event_hash_neq; simp)+

lemma demo_with_state [simp]:
  "event_with_state demo_sha (demo_event a) b 0 None = Inr (demo_event b)"
  "event_with_state demo_sha (demo_event a) b 0 (Some [demo_ref]) = Inr (demo_event b)"
proof -
  let ?r = "(demo_event a)\<lparr>ca_available_at := 0, ca_state := b, ca_source_refs := [demo_ref]\<rparr>"
  have "validate_action_fields (r\<lparr>ca_record_hash := h\<rparr>) = validate_action_fields r" for r h by (simp add: validate_action_fields_def)
  moreover have "?r = (demo_event b)\<lparr>ca_record_hash := ca_record_hash (demo_event a)\<rparr>" by (simp add: demo_event_def Let_def)
  ultimately have valid: "validate_action_fields ?r = Inr ()" by (metis demo_event_valid)
  have "action_compute_hash demo_sha ?r = action_compute_hash demo_sha (demo_event b)" by (simp add: action_compute_hash_def action_wire_def)
  also have "\<dots> = ca_record_hash (demo_event b)" using demo_event_integrity [of b] by (simp add: action_verify_integrity_def)
  finally have "?r\<lparr>ca_record_hash := action_compute_hash demo_sha ?r\<rparr> = demo_event b" by (simp add: demo_event_def Let_def)
  then show "event_with_state demo_sha (demo_event a) b 0 None = Inr (demo_event b)"
    "event_with_state demo_sha (demo_event a) b 0 (Some [demo_ref]) = Inr (demo_event b)"
    by (simp_all add: event_with_state_def build_corporate_action_record_def valid)
qed

section \<open>Discovery\<close>

lemma demo_resolve [simp]:
  assumes "0 \<le> iq_as_of q" "0 \<le> iq_known_at q" "iq_security_id q = Some ''aaaaaaaa''"
  shows "resolve_identity demo_sha [demo_identity] q = Inr \<lparr>res_status = ID_RESOLVED, res_record = Some demo_identity\<rparr>"
  using assms
  by (simp add: resolve_identity_def MAX_RESOLUTION_RECORDS_def matches_key_def identity_known_at_def supersession_heads_def
      group_by_def group_head_def unique_by_hash_def any_interval_conflict_def identity_valid_at_def interval_contains_def
      interval_of_def)

abbreviation demo_row :: "corporate_action_state \<Rightarrow> string \<times> corporate_action" where
  "demo_row st \<equiv> (ca_record_hash (demo_event st), demo_event st)"

definition demo_events :: "corporate_action_state list \<Rightarrow> security_master" where
  "demo_events sts = demo_master1\<lparr>sm_event_by_hash := map demo_row sts,
     sm_event_previous := zip (map (ca_record_hash \<circ> demo_event) sts) (None # map (Some \<circ> ca_record_hash \<circ> demo_event) sts),
     sm_event_order := map (ca_record_hash \<circ> demo_event) sts,
     sm_event_heads := (if sts = [] then [] else [(''e1'', ca_record_hash (demo_event (last sts)))])\<rparr>"

lemma demo_events_none: "demo_events [] = demo_master1"
  by (simp add: demo_events_def demo_master1_def empty_master_def)

lemma demo_identity_stored [simp]: "sm_identity_by_hash (demo_events sts) = [(demo_hash, demo_identity)]"
  by (simp add: demo_events_def demo_master1_def)

lemma demo_append1: "append_event demo_sha (demo_event CA_DETECTED) None demo_master1 = Inr (APPENDED, demo_events [CA_DETECTED])"
  by (simp add: append_event_def validate_hash_or_none_def optional_matches_def demand_def check_predecessor_def demo_events_def
      demo_master1_def empty_master_def)

lemma demo_event_hash_text: "fullmatch HASH_TEXT (ca_record_hash (demo_event st))"
  using demo_event_ok [of st] by (auto simp: action_post_init_def bindO_eq_Inr)

lemma demo_transition: "is_legal_transition a b \<Longrightarrow> validate_transition demo_sha (demo_event a) (demo_event b) = Inr ()"
  by (simp add: transition_ok_iff same_event_facts_def)

lemma demo_append2:
  "append_event demo_sha (demo_event CA_ENTRY_BLOCKED) (Some (ca_record_hash (demo_event CA_DETECTED))) (demo_events [CA_DETECTED])
    = Inr (APPENDED, demo_events [CA_DETECTED, CA_ENTRY_BLOCKED])"
  by (simp add: append_event_def validate_hash_or_none_def optional_matches_def demo_event_hash_text demand_def check_predecessor_def
      demo_events_def demo_master1_def empty_master_def demo_transition is_legal_transition_def ALLOWED_TRANSITIONS_def)

lemma demo_append3:
  "append_event demo_sha (demo_event CA_CONFIRMED) (Some (ca_record_hash (demo_event CA_ENTRY_BLOCKED))) (demo_events [CA_DETECTED, CA_ENTRY_BLOCKED])
    = Inr (APPENDED, demo_events [CA_DETECTED, CA_ENTRY_BLOCKED, CA_CONFIRMED])"
  by (simp add: append_event_def validate_hash_or_none_def optional_matches_def demo_event_hash_text demand_def check_predecessor_def
      demo_events_def demo_master1_def empty_master_def demo_transition is_legal_transition_def ALLOWED_TRANSITIONS_def)

lemma demo_rows: "lineage_rows (demo_events sts) ''e1'' = map demo_event sts"
  by (simp add: lineage_rows_def demo_events_def demo_master1_def empty_master_def comp_def)

lemma demo_master_ok1: "master_ok demo_sha demo_master1"
  using reachable_ok [OF demo_history1] .

lemma demo_master_ok2: "master_ok demo_sha (demo_events [CA_DETECTED, CA_ENTRY_BLOCKED])"
  using demo_master_ok1 append_event_sound [OF demo_event_ok demo_append1] append_event_sound [OF demo_event_ok demo_append2]
  by (simp add: sound_def)

lemma demo_master_ok3: "master_ok demo_sha (demo_events [CA_DETECTED, CA_ENTRY_BLOCKED, CA_CONFIRMED])"
  using demo_master_ok2 append_event_sound [OF demo_event_ok demo_append3] by (simp add: sound_def)

lemma demo_lineage2: "event_lineage demo_sha ''e1'' (demo_events [CA_DETECTED, CA_ENTRY_BLOCKED]) = Inr [demo_event CA_DETECTED, demo_event CA_ENTRY_BLOCKED]"
  using event_lineage_rows [of demo_sha "demo_events [CA_DETECTED, CA_ENTRY_BLOCKED]" "''e1''"] demo_master_ok2
  by (simp add: master_ok_def demo_patterns demo_rows)

lemma demo_lineage3: "event_lineage demo_sha ''e1'' (demo_events [CA_DETECTED, CA_ENTRY_BLOCKED, CA_CONFIRMED])
    = Inr [demo_event CA_DETECTED, demo_event CA_ENTRY_BLOCKED, demo_event CA_CONFIRMED]"
  using event_lineage_rows [of demo_sha "demo_events [CA_DETECTED, CA_ENTRY_BLOCKED, CA_CONFIRMED]" "''e1''"] demo_master_ok3
  by (simp add: master_ok_def demo_patterns demo_rows)

lemma demo_identity_records [simp]:
  "identity_records demo_sha (Some ''aaaaaaaa'') None (demo_events sts) = Inr [demo_identity]"
  "identity_records demo_sha None (Some ''ABC'') (demo_events sts) = Inr [demo_identity]"
  by (simp_all add: identity_records_def demo_events_def demo_master1_def lookup_def demand_def)

lemma demo_ex_date: "0 \<le> midnight \<lparr>year = 1, month = 1, day = 5\<rparr>"
  by code_simp

lemma demo_resolution:
  "identity_resolution_for_event demo_sha (demo_event st) 0 (demo_events sts) = Inr \<lparr>res_status = ID_RESOLVED, res_record = Some demo_identity\<rparr>"
  using demo_ex_date
  by (simp add: identity_resolution_for_event_def identity_query_post_init_def optional_matches_def demo_patterns)

lemma demo_discover:
  "discover_split demo_sha (log_reader demo_log) (demo_event CA_DETECTED) demo_master1
    = (Inr (demo_event CA_ENTRY_BLOCKED), demo_events [CA_DETECTED, CA_ENTRY_BLOCKED])"
  using demo_resolution [of CA_DETECTED "[]"]
  by (simp add: discover_split_def bindM_apply liftM_apply require_pinned_identity_def demo_events_none in_transaction_def demo_append1
      demo_append2 demo_lineage2 require_head_def demand_def)

lemma demo_history2: "security_history demo_sha (empty_log, empty_master) (demo_log, demo_events [CA_DETECTED, CA_ENTRY_BLOCKED])"
proof -
  have "security_step demo_sha (demo_log, demo_master1) (demo_log, demo_events [CA_DETECTED, CA_ENTRY_BLOCKED])"
    using security_step.discover_step [OF demo_event_ok demo_discover] .
  with demo_history1 show ?thesis by (rule rtranclp.rtrancl_into_rtrancl)
qed

section \<open>Confirmation\<close>

definition demo_observation :: source_observation where
  "demo_observation = \<lparr>so_source_ref = demo_ref, so_available_at = 0, so_withdrawn = False, so_auditable = True,
     so_claimed_type = Some FORWARD_SPLIT, so_claimed_ratio = Some \<lparr>ratio_numerator = 2, ratio_denominator = 1\<rparr>,
     so_claimed_ex_date = Some \<lparr>year = 1, month = 1, day = 5\<rparr>, so_claimed_effective_date = Some \<lparr>year = 1, month = 1, day = 5\<rparr>\<rparr>"

lemma demo_evaluation:
  "evaluate_confirmation demo_sha (demo_event CA_DETECTED) demo_identity [demo_observation] 0
    = Inr \<lparr>ce_outcome = CONFIRM_CONFIRMED, ce_reasons = []\<rparr>"
  by (simp add: evaluate_confirmation_def PRE_CONFIRMATION_STATES_def validate_observations_def MAX_OBSERVATIONS_def demo_observation_def
      confirmation_findings_def date_less_def first_day fact_conflicts_def claims_conflict_def claims_def List.map_filter_def
      qualifying_official_def OFFICIAL_ANNOUNCEMENT_FAMILIES_def Let_def)

lemma demo_confirm:
  "confirm_split demo_sha (log_reader demo_log) ''e1'' [demo_observation] 0 (demo_events [CA_DETECTED, CA_ENTRY_BLOCKED])
    = (Inr (demo_event CA_CONFIRMED), demo_events [CA_DETECTED, CA_ENTRY_BLOCKED, CA_CONFIRMED])"
proof -
  have obs: "revalidate_observation demo_sha (log_reader demo_log) demo_observation = Inr demo_observation" "so_source_ref demo_observation = demo_ref"
    by (simp_all add: revalidate_observation_def demo_observation_def demand_def)
  have merge: "merge_refs [[demo_ref], [demo_ref]] = Inr [demo_ref]" by (simp add: merge_refs_def)
  show ?thesis
    by (simp add: confirm_split_def bindM_apply liftM_apply demo_patterns obs in_transaction_def demo_lineage2 require_head_def
        block_if_detected_def judge_split_def demo_resolution demo_evaluation apply_confirmation_evaluation_def append_next_def merge
        later_def demo_append3 demo_lineage3 demand_def)
qed

section \<open>Entry decisions\<close>

definition demo_query :: "utc \<Rightarrow> quarantine_query" where
  "demo_query t = \<lparr>qq_purpose = CANDIDATE_CREATION, qq_security_id = ''aaaaaaaa'', qq_symbol_as_of = ''ABC'', qq_decision_at = t,
     qq_master_version = master_version_for demo_identity\<rparr>"

definition demo_decision :: "utc \<Rightarrow> quarantine_outcome \<Rightarrow> quarantine_reason list \<Rightarrow> string list \<Rightarrow> quarantine_decision" where
  "demo_decision t out rs eids =
     (let d = \<lparr>qd_security_id = ''aaaaaaaa'', qd_symbol_as_of = ''ABC'', qd_master_version = master_version_for demo_identity,
               qd_decision_at = t, qd_outcome = out, qd_reasons = rs, qd_event_ids = eids, qd_source_refs = [demo_ref],
               qd_decision_hash = []\<rparr>
      in d\<lparr>qd_decision_hash := decision_compute_hash demo_sha d\<rparr>)"

lemma demo_decision_integrity [simp]: "decision_verify_integrity demo_sha (demo_decision t out rs eids) = Inr ()"
  unfolding demo_decision_def Let_def by (rule decision_seal.sealed_verifies [OF refl])

lemma demo_master_version: "length (master_version_for demo_identity) = 82"
proof -
  have "length demo_hash = 64" using demo_identity_hash unfolding fullmatch_iff HASH_TEXT_def lang_Rep_Cls by simp
  then show ?thesis by (simp add: master_version_for_def SECURITIES_PRODUCER_VERSION_def)
qed

lemma demo_decision_fields [simp]:
  "qd_security_id (demo_decision t out rs eids) = ''aaaaaaaa''" "qd_outcome (demo_decision t out rs eids) = out" "qd_reasons (demo_decision t out rs eids) = rs"
  "qd_decision_at (demo_decision t out rs eids) = t"
  by (simp_all add: demo_decision_def Let_def)

lemma demo_decision_built:
  assumes "utc_ok t" "rs = sorted_reasons (set rs)" "distinct rs" "list_all (fullmatch EVENT_ID) eids" "distinct eids" "sorted eids"
  shows "build_decision demo_sha
      \<lparr>qd_security_id = ''aaaaaaaa'', qd_symbol_as_of = ''ABC'', qd_master_version = master_version_for demo_identity,
       qd_decision_at = t, qd_outcome = out, qd_reasons = rs, qd_event_ids = eids, qd_source_refs = [demo_ref], qd_decision_hash = []\<rparr>
    = Inr (demo_decision t out rs eids)"
proof -
  have "master_version_for demo_identity \<noteq> []" "length (master_version_for demo_identity) \<le> MAX_MASTER_VERSION_LENGTH"
    using demo_master_version by (auto simp: MAX_MASTER_VERSION_LENGTH_def)
  moreover have "fullmatch HASH_TEXT (decision_compute_hash demo_sha d)" for d by (simp add: decision_compute_hash_def)
  ultimately show ?thesis
    unfolding build_decision_def decision_post_init_def decision_seal.sealed_verifies [OF refl]
    using assms
    by (simp add: demo_patterns SecurityId_def SecuritySymbol_def MAX_DECISION_SOURCE_REFS_def demo_ref_ok demo_decision_def Let_def)
qed

lemma demo_recorded:
  assumes "sm_decision_by_hash s = []" "sm_decision_order s = []" "quarantine_evaluation demo_sha rd (demo_query t) s = Inr (demo_decision t out rs eids)"
  shows "\<exists>s'. quarantine demo_sha rd (demo_query t) s = (Inr (demo_decision t out rs eids), s')
    \<and> (\<exists>h. (h, demo_decision t out rs eids) \<in> set (sm_decision_by_hash s'))"
  using assms
  by (simp add: quarantine_def bindM_apply in_transaction_def record_decision_def latest_decision_def lookup_def demand_def)

lemma demo_records: "dedupe_identities [demo_identity, demo_identity] = Inr [demo_identity]"
  by (simp add: dedupe_identities_def demand_def)

lemma demo_not_ambiguous: "\<not> symbol_claims_are_ambiguous [demo_identity] (demo_query t)"
  by (simp add: symbol_claims_are_ambiguous_def)

lemma demo_findings: "identity_findings [demo_identity] (demo_query t) \<lparr>res_status = ID_RESOLVED, res_record = Some demo_identity\<rparr> = Inr (Some demo_identity, {})"
  using demo_not_ambiguous by (simp add: identity_findings_def) (simp add: demo_query_def)

lemma demo_query_identity:
  assumes "0 \<le> t"
  shows
  "identity_query_post_init (decision_identity_query (demo_query t)) = Inr (decision_identity_query (demo_query t))"
  "resolve_identity demo_sha [demo_identity] (decision_identity_query (demo_query t)) = Inr \<lparr>res_status = ID_RESOLVED, res_record = Some demo_identity\<rparr>"
  using assms by (simp_all add: demo_query_def identity_query_post_init_def optional_matches_def demo_patterns)

lemma demo_eligible:
  assumes "0 \<le> t" "utc_ok t"
  shows "quarantine_evaluation demo_sha (log_reader demo_log) (demo_query t) demo_master1 = Inr (demo_decision t ENTRY_ELIGIBLE [] [])"
proof -
  have "security_event_ids ''aaaaaaaa'' demo_master1 = []" by (simp add: security_event_ids_def demo_master1_def empty_master_def)
  moreover have "evaluate_quarantine demo_sha (demo_query t) [demo_identity] [] = Inr (demo_decision t ENTRY_ELIGIBLE [] [])"
    by (simp add: evaluate_quarantine_def demo_query_identity [OF assms(1)] demo_findings no_events_def collect_source_refs_def MAX_DECISION_SOURCE_REFS_def)
       (simp add: demo_query_def sorted_reasons_def demo_decision_built [OF assms(2)])
  moreover have "qq_security_id (demo_query t) = ''aaaaaaaa''" "qq_symbol_as_of (demo_query t) = ''ABC''" by (simp_all add: demo_query_def)
  ultimately show ?thesis
    using demo_identity_records [of "[]"]
    by (simp add: quarantine_evaluation_def demo_events_none demo_records)
qed

lemma utc_one: "utc_ok 1"
  by (simp add: utc_ok_def MAX_ORDINAL_def DAY_MICROSECONDS_def)

lemma demo_eligible_run:
  assumes "0 \<le> t" "utc_ok t"
  shows "\<exists>s'. quarantine demo_sha (log_reader demo_log) (demo_query t) demo_master1 = (Inr (demo_decision t ENTRY_ELIGIBLE [] []), s')
    \<and> (\<exists>h. (h, demo_decision t ENTRY_ELIGIBLE [] []) \<in> set (sm_decision_by_hash s'))"
  by (rule demo_recorded [OF _ _ demo_eligible [OF assms]]) (simp_all add: demo_master1_def empty_master_def)

definition demo_stored_observation :: source_observation where
  "demo_stored_observation = \<lparr>so_source_ref = demo_ref, so_available_at = 0, so_withdrawn = False, so_auditable = False,
     so_claimed_type = None, so_claimed_ratio = None, so_claimed_ex_date = None, so_claimed_effective_date = None\<rparr>"

definition demo_evidence :: event_evidence where
  "demo_evidence = \<lparr>ev_lineage = [demo_event CA_DETECTED, demo_event CA_ENTRY_BLOCKED], ev_observations = [demo_stored_observation]\<rparr>"

lemma demo_gathered:
  "gather_evidence demo_sha (log_reader demo_log) 0 (demo_events [CA_DETECTED, CA_ENTRY_BLOCKED]) ''e1'' = Inr [demo_evidence]"
proof -
  have "observation_from_stored_ref demo_sha (log_reader demo_log) (demo_event CA_ENTRY_BLOCKED) 0 demo_ref = Inr demo_stored_observation"
    by (simp add: observation_from_stored_ref_def demo_stored_observation_def)
  moreover have "validate_lineage demo_sha [demo_event CA_DETECTED, demo_event CA_ENTRY_BLOCKED] = Inr (demo_event CA_ENTRY_BLOCKED)"
    by (simp add: lineage_ok_iff MAX_LINEAGE_RECORDS_def demo_transition is_legal_transition_def ALLOWED_TRANSITIONS_def)
  moreover have "merge_refs [[demo_ref], [demo_ref]] = Inr [demo_ref]" by (simp add: merge_refs_def)
  ultimately show ?thesis
    by (simp add: gather_evidence_def demo_lineage2 action_known_at_def EventEvidence_def validate_observations_def MAX_OBSERVATIONS_def
        demo_evidence_def) (simp add: demo_stored_observation_def)
qed

lemma demo_tally:
  "tally_event demo_sha (demo_query 0) (Some demo_identity) no_events demo_evidence =
    Inr \<lparr>et_outcome = ENTRY_BLOCKED, et_reasons = {SPLIT_DETECTED, FORMAL_CONFIRMATION_MISSING}, et_event_ids = [''e1''],
         et_refs = [demo_ref, demo_ref]\<rparr>"
proof -
  have "evaluate_confirmation demo_sha (demo_event CA_DETECTED) demo_identity [demo_stored_observation] 0
      = Inr \<lparr>ce_outcome = CONFIRM_ENTRY_BLOCKED, ce_reasons = [SPLIT_DETECTED, FORMAL_CONFIRMATION_MISSING]\<rparr>"
    by (simp add: evaluate_confirmation_def PRE_CONFIRMATION_STATES_def validate_observations_def MAX_OBSERVATIONS_def demo_stored_observation_def
        confirmation_findings_def date_less_def first_day fact_conflicts_def claims_conflict_def claims_def List.map_filter_def
        qualifying_official_def Let_def)
  then have "event_quarantine demo_sha (demo_event CA_ENTRY_BLOCKED) (demo_event CA_DETECTED) (Some demo_identity) demo_evidence 0
      = Inr (ENTRY_BLOCKED, [SPLIT_DETECTED, FORMAL_CONFIRMATION_MISSING])"
    by (simp add: event_quarantine_def demo_evidence_def PRE_CONFIRMATION_STATES_def)
  then show ?thesis
    by (simp add: tally_event_def demo_evidence_def demo_query_def action_known_at_def no_events_def)
       (simp add: demo_stored_observation_def)
qed

lemma demo_blocked:
  "quarantine_evaluation demo_sha (log_reader demo_log) (demo_query 0) (demo_events [CA_DETECTED, CA_ENTRY_BLOCKED])
    = Inr (demo_decision 0 ENTRY_BLOCKED [SPLIT_DETECTED, FORMAL_CONFIRMATION_MISSING] [''e1''])"
proof -
  have "security_event_ids ''aaaaaaaa'' (demo_events [CA_DETECTED, CA_ENTRY_BLOCKED]) = [''e1'']" by (simp add: security_event_ids_def demo_events_def)
  moreover have "evaluate_quarantine demo_sha (demo_query 0) [demo_identity] [demo_evidence]
      = Inr (demo_decision 0 ENTRY_BLOCKED [SPLIT_DETECTED, FORMAL_CONFIRMATION_MISSING] [''e1''])"
  proof -
    have "sorted_reasons {SPLIT_DETECTED, FORMAL_CONFIRMATION_MISSING} = [SPLIT_DETECTED, FORMAL_CONFIRMATION_MISSING]"
      by (simp add: sorted_reasons_def REASON_ORDER_def)
    then show ?thesis
      by (simp add: evaluate_quarantine_def demo_query_identity [of 0] demo_findings demo_tally collect_source_refs_def MAX_DECISION_SOURCE_REFS_def
          MAX_EVENT_LINEAGES_def)
         (simp add: demo_query_def demo_decision_built [OF utc_zero] demo_patterns)
  qed
  moreover have "qq_security_id (demo_query 0) = ''aaaaaaaa''" "qq_symbol_as_of (demo_query 0) = ''ABC''" "qq_decision_at (demo_query 0) = 0"
    by (simp_all add: demo_query_def)
  ultimately show ?thesis
    by (simp add: quarantine_evaluation_def demo_records demo_gathered)
qed

lemma demo_blocked_run:
  "\<exists>s'. quarantine demo_sha (log_reader demo_log) (demo_query 0) (demo_events [CA_DETECTED, CA_ENTRY_BLOCKED])
     = (Inr (demo_decision 0 ENTRY_BLOCKED [SPLIT_DETECTED, FORMAL_CONFIRMATION_MISSING] [''e1'']), s')"
  using demo_recorded [OF _ _ demo_blocked] by (auto simp: demo_events_def demo_master1_def empty_master_def)

end
