(* ===== verification/Market_Demo.thy ===== *)
theory Market_Demo
  imports Adv_Facts Security_Demo
begin

text \<open>
  A concrete market for the witnesses: a year of weekday sessions, a bar on each of them, a
  holiday, and a quote on the first open session of the second year, assembled into a snapshot.
\<close>

section \<open>The calendar\<close>

lemma ordinal_day: "1 \<le> n \<Longrightarrow> toordinal (fromordinal n) = n"
  using fromordinal_sound by blast

lemma ordinal_inj: "inj_on fromordinal {1..}"
  by (rule inj_on_inverseI [of _ toordinal]) (simp add: ordinal_day)

definition demo_session :: "nat \<Rightarrow> market_session" where
  "demo_session n =
     (if n = 366 then \<lparr>ms_trading_date = fromordinal n, ms_day_kind = DAY_CLOSED, ms_regular_session = None\<rparr>
      else \<lparr>ms_trading_date = fromordinal n, ms_day_kind = DAY_REGULAR,
            ms_regular_session = Some \<lparr>sw_opens_at = (int n - 1) * DAY_MICROSECONDS + 52200 * SECOND,
              sw_closes_at = (int n - 1) * DAY_MICROSECONDS + 75600 * SECOND\<rparr>\<rparr>)"

definition weekdays :: "nat \<Rightarrow> nat list" where
  "weekdays n = filter (\<lambda>k. weekday k < 5) [1..<n]"

definition demo_sessions :: "market_session list" where
  "demo_sessions = map demo_session (weekdays 368)"

definition demo_dates :: "pydate list" where
  "demo_dates = map fromordinal (weekdays 366)"

lemma demo_session_date [simp]: "ms_trading_date (demo_session n) = fromordinal n"
  by (simp add: demo_session_def)

lemma weekdays_iff [simp]: "n \<in> set (weekdays m) \<longleftrightarrow> 1 \<le> n \<and> n < m \<and> weekday n < 5"
  by (auto simp: weekdays_def)

lemma weekdays_sorted: "sorted (weekdays m)" "distinct (weekdays m)"
  by (simp_all add: weekdays_def sorted_wrt_filter)

lemma weekdays_ordinals: "map toordinal (map fromordinal (weekdays m)) = weekdays m"
  unfolding map_map by (rule map_idI) (simp add: ordinal_day)

lemma weekdays_dates:
  "sort_key toordinal (map fromordinal (weekdays m)) = map fromordinal (weekdays m)" "distinct (map fromordinal (weekdays m))"
proof -
  show "sort_key toordinal (map fromordinal (weekdays m)) = map fromordinal (weekdays m)"
    by (rule sort_key_id_if_sorted) (simp only: weekdays_ordinals weekdays_sorted)
  show "distinct (map fromordinal (weekdays m))"
    using weekdays_sorted(2) by (simp add: distinct_map inj_on_subset [OF ordinal_inj] subset_iff)
qed

lemma session_dates: "map ms_trading_date demo_sessions = map fromordinal (weekdays 368)"
  by (simp add: demo_sessions_def)

lemma demo_by_date:
  "session_by_date demo_sessions (fromordinal n) = (if n \<in> set (weekdays 368) then Some (demo_session n) else None)" if "1 \<le> n"
proof -
  have "session_by_date demo_sessions (fromordinal n) = Some s \<longleftrightarrow> s \<in> set demo_sessions \<and> ms_trading_date s = fromordinal n" for s
    using weekdays_dates(2) [of 368] by (intro session_by_date_distinct) (simp only: session_dates)
  moreover have "s \<in> set demo_sessions \<and> ms_trading_date s = fromordinal n \<longleftrightarrow> n \<in> set (weekdays 368) \<and> s = demo_session n" for s
    unfolding demo_sessions_def using that inj_onD [OF ordinal_inj] by fastforce
  ultimately show ?thesis by (cases "session_by_date demo_sessions (fromordinal n)") auto
qed

lemma weekdays_weeks: "length (weekdays (1 + 7 * j)) = 5 * j"
proof (induction j)
  case (Suc j)
  have days: "weekday (i + (1 + 7 * j)) = i mod 7" for i
  proof -
    have "i + (1 + 7 * j) + 6 = i + 7 * Suc j" by simp
    then show ?thesis unfolding weekday_def by (simp only: mod_mult_self2)
  qed
  have "filter (\<lambda>k. weekday k < 5) [1 + 7 * j..<1 + 7 * Suc j] = map (\<lambda>i. i + (1 + 7 * j)) [0, 1, 2, 3, 4]"
  proof -
    have "[1 + 7 * j..<1 + 7 * Suc j] = map (\<lambda>i. i + (1 + 7 * j)) [0..<7]" 
      using map_add_upt [of "1 + 7 * j" 7] by (simp add: add.commute)
    also have "[0..<7] = [0, 1, 2, 3, 4, 5, 6 :: nat]" by code_simp
    finally show ?thesis by (simp only: filter.simps list.map days) simp
  qed
  moreover have "weekdays (1 + 7 * Suc j) = weekdays (1 + 7 * j) @ filter (\<lambda>k. weekday k < 5) [1 + 7 * j..<1 + 7 * Suc j]"
  proof -
    have "[1..<1 + 7 * Suc j] = [1..<1 + 7 * j] @ [1 + 7 * j..<1 + 7 * Suc j]" using upt_add_eq_append [of 1 "1 + 7 * j" 7] by simp
    then show ?thesis by (simp only: weekdays_def filter_append)
  qed
  ultimately show ?case using Suc by simp
qed (simp add: weekdays_def)

lemma demo_days: "length (weekdays 366) = 261" "length (weekdays 368) = 263" "weekday 366 = 1" "weekday 367 = 2"
proof -
  have "weekdays (Suc n) = weekdays n @ (if weekday n < 5 then [n] else [])" if "1 \<le> n" for n
    using that by (simp add: weekdays_def)
  from this [of 365] this [of 366] this [of 367]
  show "length (weekdays 366) = 261" "length (weekdays 368) = 263"
    using weekdays_weeks [of 52] by (simp_all add: weekday_def)
qed (simp_all add: weekday_def)

lemma demo_calendar: "validate_nyse_sessions demo_sessions = Inr ()"
proof -
  have "validate_nyse_session_window (demo_session n) = Inr ()" if "1 \<le> n" for n
  proof -
    have "((int n - 1) * DAY_MICROSECONDS + 52200 * SECOND) mod DAY_MICROSECONDS = 52200 * SECOND"
      unfolding mod_mult_self3 by (simp add: DAY_MICROSECONDS_def SECOND_def)
    then show ?thesis by (auto simp: validate_nyse_session_window_def demo_session_def SECOND_def Let_def)
  qed
  then have "list_all (\<lambda>s. validate_nyse_session_window s = Inr ()) demo_sessions" by (simp add: demo_sessions_def list_all_iff)
  moreover have "\<not> list_ex (\<lambda>s. weekday (toordinal (ms_trading_date s)) \<ge> 5 \<and> ms_day_kind s \<noteq> DAY_CLOSED) demo_sessions"
    by (auto simp: demo_sessions_def list_ex_iff ordinal_day)
  moreover have "length demo_sessions \<le> MAX_MARKET_SNAPSHOT_ITEMS" by (simp add: demo_sessions_def demo_days MAX_MARKET_SNAPSHOT_ITEMS_def)
  ultimately show ?thesis
    unfolding validate_nyse_sessions_def Let_def session_dates weekdays_dates(1) using weekdays_dates(2) by (simp add: eachO_eq_Inr)
qed

lemma demo_complete: "require_complete_weekday_window demo_sessions (fromordinal n) (fromordinal 367) = Inr ()" if "1 \<le> n"
proof -
  have "map (toordinal \<circ> ms_trading_date) demo_sessions = weekdays 368"
    using weekdays_ordinals [of 368] by (simp add: demo_sessions_def comp_def)
  then show ?thesis using that by (auto simp: require_complete_weekday_window_def eachO_eq_Inr list_all_iff ordinal_day Let_def)
qed

section \<open>The quote\<close>

definition demo_quote_record :: source_record where
  "demo_quote_record =
     (let r = \<lparr>nr_record_id = ''q1'', nr_family = ALPACA_IEX_QUOTES, nr_endpoint_id = ''latest_quote'', nr_schema_version = ''1.0.0'',
               nr_content_hash = ''c'', nr_record_hash = [], nr_retrieved_at = 31676401000000,
               nr_payload = [(''symbol'', JStr ''ABC''), (''bid_price'', JStr ''100.00''), (''ask_price'', JStr ''100.02''),
                 (''timestamp'', JStr ''0002-01-02T15:00:00Z''), (''feed'', JStr ''iex'')],
               nr_material_claim = False, nr_observation_at = Some 31676400000000, nr_published_at = None,
               nr_available_at = Some 31676401000000, nr_effective_at = None,
               nr_vintage = None, nr_supersedes_content_hash = None, nr_coverage_warning = Some QUOTE_WARNING\<rparr>
      in r\<lparr>nr_record_hash := source_record_compute_hash demo_sha r\<rparr>)"

lemma demo_quote_record_integrity: "source_record_verify_integrity demo_sha demo_quote_record = Inr ()"
  unfolding demo_quote_record_def Let_def by (rule source_seal.sealed_verifies [OF refl])

definition demo_quote_ref :: source_ref where
  "demo_quote_ref = \<lparr>sr_record_id = ''q1'', sr_family = ALPACA_IEX_QUOTES, sr_record_hash = nr_record_hash demo_quote_record\<rparr>"

definition demo_quote :: quote_input where
  "demo_quote = \<lparr>qi_source_ref = demo_quote_ref, qi_symbol = ''ABC'', qi_feed = FEED_IEX, qi_entitlement = ENTITLED_IEX,
     qi_bid = Dec 10000 (-2), qi_ask = Dec 10002 (-2), qi_observed_at = 31676400000000, qi_received_at = 31676401000000,
     qi_authority = \<lparr>qa_source_ref = demo_quote_ref, qa_symbol = ''ABC'', qa_feed = FEED_IEX, qa_entitlement = ENTITLED_IEX,
       qa_bid = Dec 10000 (-2), qa_ask = Dec 10002 (-2), qa_observed_at = 31676400000000, qa_received_at = 31676401000000\<rparr>\<rparr>"

lemma demo_stamp: "parse_provider_timestamp ''0002-01-02T15:00:00Z'' = Inr 31676400000000"
proof -
  have rx: "\<not> fullmatch STAMP_FRACTION ''0002-01-02T15:00:00Z''" "fullmatch STAMP_SECONDS ''0002-01-02T15:00:00Z''" by code_simp+
  have date: "isoformat \<lparr>year = 2, month = 1, day = 2\<rparr> = ''0002-01-02''" "valid_date \<lparr>year = 2, month = 1, day = 2\<rparr>"
    "toordinal \<lparr>year = 2, month = 1, day = 2\<rparr> = 367" by code_simp+
  have d: "fullmatch TRADING_DATE_PATTERN ''0002-01-02''" "trading_date_from_isoformat ''0002-01-02'' = Inr \<lparr>year = 2, month = 1, day = 2\<rparr>"
    using valid_date_isoformat_pattern [OF date(2)] trading_date_prints [of "\<lparr>year = 2, month = 1, day = 2\<rparr>"] date(1,2) by simp_all
  have "utc_from_isoformat (''0002-01-02'' @ ''T'' @ ''15'' @ '':'' @ ''00'' @ '':'' @ ''00'' @ ''.'' @ ''000000'' @ ''Z'') = Inr 31676400000000"
    by (subst utc_from_parts) (use d in \<open>simp_all add: is_digit_def read_nat_def digit_value_def midnight_def date(3) [simplified] DAY_MICROSECONDS_def\<close>)
  then show ?thesis using rx by (simp add: parse_provider_timestamp_def)
qed

lemma demo_prices: "Decimal ''100.00'' = Inr (Dec 10000 (-2))" "Decimal ''100.02'' = Inr (Dec 10002 (-2))"
  "fullmatch SOURCE_DECIMAL_TEXT ''100.00''" "fullmatch SOURCE_DECIMAL_TEXT ''100.02''"
proof -
  have digits: "list_all is_digit ''100''" "list_all is_digit ''00''" "list_all is_digit ''02''" by (simp_all add: is_digit_def)
  show "Decimal ''100.00'' = Inr (Dec 10000 (-2))" "Decimal ''100.02'' = Inr (Dec 10002 (-2))"
    using read_source_text [OF _ digits(1,2), of "''.00''"] read_source_text [OF _ digits(1,3), of "''.02''"]
    by (simp_all add: read_nat_def digit_value_def)
  show "fullmatch SOURCE_DECIMAL_TEXT ''100.00''" "fullmatch SOURCE_DECIMAL_TEXT ''100.02''" by code_simp+
qed

lemma record_hash_ok: "source_record_verify_integrity demo_sha r = Inr () \<Longrightarrow> fullmatch HASH_TEXT (nr_record_hash r)"
  by (simp add: source_record_verify_integrity_def source_record_compute_hash_def)

lemma demo_quote_run: "quote_input_from_record demo_sha demo_quote_record = Inr demo_quote"
proof -
  have f: "nr_record_id demo_quote_record = ''q1''" "nr_family demo_quote_record = ALPACA_IEX_QUOTES" "nr_endpoint_id demo_quote_record = ''latest_quote''"
    "nr_coverage_warning demo_quote_record = Some QUOTE_WARNING" "nr_observation_at demo_quote_record = Some 31676400000000"
    "availability demo_quote_record = 31676401000000"
    "nr_payload demo_quote_record = [(''symbol'', JStr ''ABC''), (''bid_price'', JStr ''100.00''), (''ask_price'', JStr ''100.02''),
       (''timestamp'', JStr ''0002-01-02T15:00:00Z''), (''feed'', JStr ''iex'')]"
    by (simp_all add: demo_quote_record_def Let_def availability_def)
  have "fullmatch RECORD_ID ''q1''" by code_simp
  then have ref: "SourceRef ''q1'' ALPACA_IEX_QUOTES (nr_record_hash demo_quote_record) = Inr demo_quote_ref"
    using record_hash_ok [OF demo_quote_record_integrity] by (simp add: SourceRef_def source_ref_ok_def demo_quote_ref_def)
  have p: "source_decimal (JStr ''100.00'') = Inr (Dec 10000 (-2))" "source_decimal (JStr ''100.02'') = Inr (Dec 10002 (-2))"
    by (simp_all add: source_decimal_def demo_prices dec_positive_def)
  show ?thesis
    unfolding quote_input_from_record_def source_record_ref_def demo_quote_record_integrity bindO_simps f Let_def
    by (simp add: ref payload_get_def SecuritySymbol_def demo_patterns p demo_stamp quote_input_post_init_def
        quote_verify_source_binding_def dec_positive_def demo_quote_def)
qed

section \<open>The bars\<close>

definition demo_bar :: "nat \<Rightarrow> daily_bar" where
  "demo_bar n =
     (let ref = \<lparr>sr_record_id = ''b1'', sr_family = ALPACA_HISTORICAL_BARS, sr_record_hash = replicate 64 (CHR ''a'')\<rparr> in
      \<lparr>bar_trading_date = fromordinal n, bar_close = Dec 10000 (-2), bar_volume = 1000000, bar_source_ref = ref, bar_feed = FEED_SIP_DELAYED,
       bar_available_at = 31622400000000, bar_security_id = ''aaaaaaaa'',
       bar_authority = \<lparr>ba_fingerprint = (fromordinal n, 100, 1000000, ref, FEED_SIP_DELAYED, 31622400000000, ''aaaaaaaa''),
         ba_source_record_hash = replicate 64 (CHR ''a''), ba_identity_hash = demo_hash\<rparr>\<rparr>)"

definition demo_bars :: "daily_bar list" where
  "demo_bars = map demo_bar (weekdays 366)"

lemma demo_bar_fields [simp]:
  "bar_trading_date (demo_bar n) = fromordinal n" "bar_close (demo_bar n) = Dec 10000 (-2)" "bar_volume (demo_bar n) = 1000000"
  "bar_feed (demo_bar n) = FEED_SIP_DELAYED" "bar_available_at (demo_bar n) = 31622400000000" "bar_security_id (demo_bar n) = ''aaaaaaaa''"
  "bar_source_ref (demo_bar n) = \<lparr>sr_record_id = ''b1'', sr_family = ALPACA_HISTORICAL_BARS, sr_record_hash = replicate 64 (CHR ''a'')\<rparr>"
  "bar_bound (demo_bar n)"
  by (simp_all add: demo_bar_def Let_def bar_bound_def daily_bar_fingerprint_def)

lemma demo_open: "open_on demo_sessions (fromordinal n)" if "n \<in> set (weekdays 366)"
  using that by (simp add: open_on_def demo_by_date) (simp add: demo_session_def)

lemma demo_now: "utc_date 31676402000000 = fromordinal 367" "utc_date 31676400000000 = fromordinal 367"
  by (simp_all add: utc_date_def DAY_MICROSECONDS_def)

lemma demo_earlier: "date_less (fromordinal n) (fromordinal 367) \<longleftrightarrow> n < 367" if "1 \<le> n" "n \<le> MAX_ORDINAL"
proof -
  have valid: "valid_date (fromordinal k)" if "1 \<le> k" "k \<le> MAX_ORDINAL" for k
  proof -
    define j where "j = k - 1"
    have j: "k = Suc j" using that(1) by (simp add: j_def)
    then have "utc_ok (int j * DAY_MICROSECONDS)" using that(2) by (auto simp: utc_ok_def DAY_MICROSECONDS_def MAX_ORDINAL_def)
    from valid_utc_date [OF this] show ?thesis by (simp add: j utc_date_def DAY_MICROSECONDS_def)
  qed
  have "toordinal (fromordinal n) < toordinal (fromordinal 367) \<longleftrightarrow> date_less (fromordinal n) (fromordinal 367)"
    unfolding date_less_def by (rule toordinal_pydate_less) (use valid that in \<open>simp_all add: MAX_ORDINAL_def\<close>)
  then show ?thesis using that by (simp add: ordinal_day)
qed

lemma demo_index: "index_bars (Some 31676402000000) (Some 31676402000000) by_date (map demo_bar ns) = Inr (by_date @ map (\<lambda>n. (fromordinal n, demo_bar n)) ns)"
  if "distinct (map fst by_date @ map fromordinal ns)" "set ns \<subseteq> {1..<367}"
  using that
proof (induction ns arbitrary: by_date)
  case (Cons n ns)
  then have "map_of by_date (fromordinal n) = None" by (auto simp: map_of_eq_None_iff)
  moreover have "date_less (fromordinal n) (fromordinal 367)" using Cons.prems(2) demo_earlier [of n] by (simp add: MAX_ORDINAL_def)
  moreover have "fromordinal n \<notin> fst ` set by_date" using Cons.prems(1) by auto
  ultimately show ?case using Cons.IH [of "by_date @ [(fromordinal n, demo_bar n)]"] Cons.prems by (auto simp: demo_now dict_set_new)
qed simp

section \<open>The average\<close>

lemma demo_window: "qualifying_dates demo_sessions (Some (fromordinal 367)) = demo_dates"
proof -
  let ?ok = "\<lambda>s. (ms_day_kind s = DAY_REGULAR \<or> ms_day_kind s = DAY_HALF) \<and> date_less (ms_trading_date s) (fromordinal 367)"
  have ok: "?ok (demo_session n) \<longleftrightarrow> n < 366" if "n \<in> set (weekdays 368)" for n
    using that demo_earlier [of n] by (auto simp: demo_session_def MAX_ORDINAL_def)
  have "filter ?ok demo_sessions = map demo_session (filter (\<lambda>n. n < 366) (weekdays 368))"
    unfolding demo_sessions_def filter_map comp_def by (intro arg_cong [where f = "map demo_session"] filter_cong refl ok)
  also have "filter (\<lambda>n. n < 366) (weekdays 368) = weekdays 366"
    using weekdays_sorted by (intro sorted_distinct_set_unique) (auto intro: sorted_filter [where f = "\<lambda>x. x", simplified])
  finally show ?thesis
    using weekdays_dates(2) [of 366] by (simp add: qualifying_dates_def demo_dates_def comp_def distinct_remdups_id)
qed

lemma demo_dollars:
  "0 \<le> t \<Longrightarrow> t + int (length ns) * 10000000000 < 10 ^ 28 \<Longrightarrow>
   dollar_volume 28 c k [] (map demo_bar ns) (Dec t (-2)) = Inr (Dec (t + int (length ns) * 10000000000) (-2))"
proof (induction ns arbitrary: t)
  case (Cons n ns)
  have mul: "dec_mul 28 (Dec 10000 (-2)) (Dec 1000000 0) = Inr (Dec 10000000000 (-2))"
    using dec_fix_exact [of 10000000000 28 "-2"] by (simp add: dec_mul_def EMIN_def EMAX_def)
  have add: "dec_add 28 (Dec t (-2)) (Dec 10000000000 (-2)) = Inr (Dec (t + 10000000000) (-2))"
    using dec_fix_exact [of "t + 10000000000" 28 "-2"] Cons.prems by (simp add: dec_add_def EMIN_def EMAX_def)
  show ?case using Cons.IH [of "t + 10000000000"] Cons.prems by (simp add: mul add algebra_simps)
qed simp

lemma demo_average: "dec_div 28 (Dec 200000000000 (-2)) (Dec 20 0) = Inr (Dec 10000000000 (-2))"
proof -
  have "digits 200000000000 = 12" by (simp add: digits_def show_nat.simps)
  then have "dec_div 28 (Dec 200000000000 (-2)) (Dec 20 0)
      = (case strip_zeros (10000000000 * 10 ^ 19) (-21) (-2) of (c, e') \<Rightarrow> dec_fix 28 c e')"
    by (simp add: dec_div_def digits_small Let_def)
  moreover have "strip_zeros (10000000000 * 10 ^ 19) (-21) (-2) = (10000000000, -2)"
    by (simp add: strip_zeros.simps)
  ultimately show ?thesis using dec_fix_exact [of 10000000000 28 "-2"] by (simp add: EMIN_def EMAX_def)
qed

lemma demo_adv:
  "compute_adv20 28 demo_bars demo_sessions [] (Some 31676402000000) (Some 31676402000000) (Some ''aaaaaaaa'') = Inr (Some (Dec 10000000000 (-2)))"
proof -
  let ?now = "31676402000000 :: int" and ?ns = "rev (drop 241 (weekdays 366))"
  let ?d = "map (\<lambda>n. (fromordinal n, demo_bar n)) (weekdays 366)"
  have valid: "validate_adv_inputs demo_bars demo_sessions [] (Some ?now) (Some ?now) (Some ''aaaaaaaa'') = Inr ()"
  proof -
    have "map bar_trading_date demo_bars = map fromordinal (weekdays 366)" by (simp add: demo_bars_def)
    moreover have "length demo_bars \<le> MAX_MARKET_SNAPSHOT_ITEMS" by (simp add: demo_bars_def demo_days MAX_MARKET_SNAPSHOT_ITEMS_def)
    moreover have "list_all bar_bound demo_bars" "list_all (\<lambda>b. bar_security_id b = ''aaaaaaaa'') demo_bars"
      "list_all (\<lambda>b. bar_feed b = FEED_SIP_DELAYED) demo_bars" "list_all (\<lambda>b. open_on demo_sessions (bar_trading_date b)) demo_bars"
      using demo_open by (auto simp: demo_bars_def list_all_iff)
    ultimately show ?thesis
      unfolding validate_adv_inputs_def demo_calendar bindO_simps Let_def by (simp add: weekdays_dates)
  qed
  have index: "index_bars (Some ?now) (Some ?now) [] demo_bars = Inr ?d"
  proof -
    have "set (weekdays 366) \<subseteq> {1..<367}" unfolding subset_iff weekdays_iff by auto
    then show ?thesis unfolding demo_bars_def using weekdays_dates(2) [of 366] demo_index [of "[]" "weekdays 366"] by simp
  qed
  have window: "take ADV_REQUIRED_SESSIONS (latest_first (qualifying_dates demo_sessions (Some (fromordinal 367)))) = map fromordinal ?ns"
    unfolding demo_window latest_first_def demo_dates_def weekdays_dates(1) take_rev
    by (simp add: ADV_REQUIRED_SESSIONS_def demo_days rev_map drop_map)
  have ns: "length ?ns = 20" "set ?ns \<subseteq> set (weekdays 366)" by (simp_all add: demo_days set_drop_subset)
  have lookup: "map_of ?d (fromordinal n) = Some (demo_bar n)" if "n \<in> set ?ns" for n
    using that ns(2) weekdays_dates(2) [of 366] by (intro map_of_is_SomeI) (auto simp: comp_def)
  have bars: "adv_bars demo_sessions (Some ?now) ?d = Inr (Some (map demo_bar ?ns))"
  proof -
    have "\<not> list_ex (\<lambda>d. map_of ?d d = None) (map fromordinal ?ns)" using lookup by (auto simp: list_ex_iff)
    moreover have "map (the \<circ> map_of ?d) (map fromordinal ?ns) = map demo_bar ?ns" using lookup by simp
    moreover have "last (map fromordinal ?ns) = fromordinal (last ?ns)" using ns(1) by (intro last_map) (metis list.size(3) zero_neq_numeral)
    moreover have "last ?ns \<in> set ?ns" using ns(1) by (intro last_in_set) (metis list.size(3) zero_neq_numeral)
    then have "1 \<le> last ?ns" using ns(2) by auto
    ultimately show ?thesis
      unfolding adv_bars_def Let_def adv_cutoff_date_def option.case demo_now window
      using ns(1) demo_complete [of "last ?ns"] by (simp add: ADV_REQUIRED_SESSIONS_def)
  qed
  have total: "dollar_volume 28 (Some ?now) (Some ?now) [] (map demo_bar ?ns) (Dec 0 0) = Inr (Dec 200000000000 (-2))"
  proof -
    obtain n ns' where n: "?ns = n # ns'" "length ns' = 19" using ns(1) by (cases ?ns) auto
    have mul: "dec_mul 28 (Dec 10000 (-2)) (Dec 1000000 0) = Inr (Dec 10000000000 (-2))"
      using dec_fix_exact [of 10000000000 28 "-2"] by (simp add: dec_mul_def EMIN_def EMAX_def)
    have "dec_add 28 (Dec 0 0) (Dec 10000000000 (-2)) = Inr (Dec 10000000000 (-2))"
      using dec_fix_exact [of 10000000000 28 "-2"] by (simp add: dec_add_def EMIN_def EMAX_def)
    then show ?thesis using demo_dollars [of 10000000000 ns'] unfolding n(1) by (simp add: mul n(2))
  qed
  show ?thesis
    unfolding compute_adv20_def Let_def option.case valid index bars total demo_average bindO_simps ..
qed

section \<open>Sizes of texts\<close>

lemma escape_length: "length (escape_char c) \<le> 6"
  by (simp add: escape_char_def Let_def)

lemma json_text_length: "length (json_text s) \<le> 6 * length s + 2"
proof -
  have "length (concat (map escape_char s)) \<le> 6 * length s"
    by (induction s) (use escape_length in \<open>auto intro: add_mono\<close>)
  then show ?thesis by (simp add: json_text_def)
qed

lemma dumps_text: "6 * length s + 2 \<le> n \<Longrightarrow> length (dumps (JStr s)) \<le> n"
  using json_text_length [of s] by simp

lemma dumps_list:
  assumes "\<forall>x\<in>set xs. length (dumps x) \<le> n" "length xs \<le> k"
  shows "length (dumps (JList xs)) \<le> k * (n + 1) + 2"
proof -
  have "sum_list (map (length \<circ> dumps) xs) \<le> length xs * n" using assms(1) by (induction xs) auto
  then have "length (dumps (JList xs)) \<le> length xs * (n + 1) + 2" by (simp add: length_join comp_def algebra_simps)
  also have "\<dots> \<le> k * (n + 1) + 2" using assms(2) by (intro add_right_mono mult_right_mono) simp_all
  finally show ?thesis .
qed

lemma dumps_members:
  "length (dumps (JObj kvs)) \<le> 2 + sum_list (map (\<lambda>(k, v). 6 * length k + 4 + length (dumps v)) kvs)"
proof -
  have "sum_list (map (\<lambda>(k, v). length (json_text k) + 1 + length (dumps v)) kvs) + length kvs
      \<le> sum_list (map (\<lambda>(k, v). 6 * length k + 4 + length (dumps v)) kvs)"
  proof (induction kvs)
    case (Cons kv kvs)
    then show ?case using json_text_length [of "fst kv"] by (simp add: case_prod_unfold del: dumps.simps)
  qed simp
  then show ?thesis unfolding length_dumps_obj by (auto simp del: dumps.simps)
qed

lemma dumps_object:
  assumes "\<forall>(k, v)\<in>set kvs. length k \<le> a \<and> length (dumps v) \<le> n" "length kvs \<le> m"
  shows "length (dumps (JObj kvs)) \<le> 2 + m * (6 * a + 4 + n)"
proof -
  have "sum_list (map (\<lambda>(k, v). 6 * length k + 4 + length (dumps v)) kvs) \<le> length kvs * (6 * a + 4 + n)"
    using assms(1)
  proof (induction kvs)
    case (Cons kv kvs)
    then show ?case by (cases kv) (auto simp del: dumps.simps)
  qed simp
  also have "\<dots> \<le> m * (6 * a + 4 + n)" using assms(2) by (rule mult_right_mono) simp
  finally show ?thesis using dumps_members [of kvs] by linarith
qed

lemma utc_str_length: "utc_ok t \<Longrightarrow> length (utc_str t) = 27"
  using isoformat_length [OF valid_utc_date, of t] zfill_show_length [of "hour_of t" 2] zfill_show_length [of "minute_of t" 2]
    zfill_show_length [of "second_of t" 2] zfill_show_length [of "microsecond_of t" 6] time_ranges [of t]
  by (simp add: utc_str_def)

lemma hash_length: "fullmatch HASH_TEXT h \<Longrightarrow> length h = 64"
  unfolding fullmatch_iff HASH_TEXT_def lang_Rep_Cls by simp

lemma ref_wire_length:
  assumes "fullmatch HASH_TEXT (sr_record_hash r)" "length (sr_record_id r) \<le> 64"
  shows "length (dumps (source_ref_wire r)) \<le> 1500"
proof -
  have "length (family_value (sr_family r)) \<le> 64" by (cases "sr_family r") simp_all
  then have "length (dumps (source_ref_wire r)) \<le> 2 + 3 * (6 * 11 + 4 + (6 * 64 + 2))"
    unfolding source_ref_wire_def using assms(2) hash_length [OF assms(1)] by (intro dumps_object) (auto intro!: dumps_text simp del: dumps.simps)
  then show ?thesis by simp
qed

section \<open>The snapshot\<close>

definition demo_body :: market_snapshot where
  "demo_body =
     \<lparr>sn_security_id = ''aaaaaaaa'', sn_symbol = ''ABC'', sn_as_of = 31676402000000, sn_known_at = 31676402000000,
      sn_observed_at = 31676400000000, sn_received_at = 31676401000000, sn_feed = FEED_IEX, sn_entitlement = ENTITLED_IEX,
      sn_bid = Dec 10000 (-2), sn_ask = Dec 10002 (-2), sn_mid = Dec 10001 (-2), sn_spread_bps = 1, sn_quote_source_ref = demo_quote_ref,
      sn_coverage = COVERAGE_LIMITED, sn_freshness = FRESH, sn_producer_version = MARKET_PRODUCER_VERSION, sn_schema_version = ''1.0.0'',
      sn_sessions = demo_sessions, sn_last = Some (Dec 10001 (-2)), sn_adv20_usd = Some (Dec 10000000000 (-2)),
      sn_bar_feed = Some FEED_SIP_DELAYED,
      sn_bar_refs = [\<lparr>sr_record_id = ''b1'', sr_family = ALPACA_HISTORICAL_BARS, sr_record_hash = replicate 64 (CHR ''a'')\<rparr>],
      sn_bar_dates = demo_dates, sn_split_adjustment_refs = [], sn_split_adjustments = [],
      sn_coverage_warning = Some COVERAGE_WARNING, sn_reasons = [], sn_snapshot_hash = []\<rparr>"

definition demo_snapshot :: market_snapshot where
  "demo_snapshot = demo_body\<lparr>sn_snapshot_hash := demo_sha (MARKET_HASH_DOMAIN @ dumps (market_wire_body demo_body))\<rparr>"

lemma demo_times: "utc_ok 31676402000000" "utc_ok 31676401000000" "utc_ok 31676400000000"
  by (simp_all add: utc_ok_def MAX_ORDINAL_def DAY_MICROSECONDS_def)

lemma demo_session_size: "1 \<le> n \<Longrightarrow> n < 368 \<Longrightarrow> length (dumps (session_wire (demo_session n))) \<le> 1000"
proof -
  assume n: "1 \<le> n" "n < 368"
  have times: "utc_ok ((int n - 1) * DAY_MICROSECONDS + 52200 * SECOND)" "utc_ok ((int n - 1) * DAY_MICROSECONDS + 75600 * SECOND)"
    using n by (simp_all add: utc_ok_def MAX_ORDINAL_def DAY_MICROSECONDS_def SECOND_def)
  have "utc_ok ((int n - 1) * DAY_MICROSECONDS)" "utc_date ((int n - 1) * DAY_MICROSECONDS) = fromordinal n"
    using n by (simp_all add: utc_ok_def MAX_ORDINAL_def DAY_MICROSECONDS_def utc_date_def nat_diff_distrib')
  then have "length (isoformat (fromordinal n)) = 10" using isoformat_length [OF valid_utc_date] by metis
  then have "length (dumps (session_wire (demo_session n))) \<le> 2 + 4 * (6 * 12 + 4 + 164)"
    unfolding session_wire_def demo_session_def using utc_str_length [OF times(1)] utc_str_length [OF times(2)]
    by (intro dumps_object) (auto intro!: dumps_text simp: optional_text_def simp del: dumps.simps(4,6,7))
  then show ?thesis by simp
qed

lemma demo_dates_size: "length (dumps (JList (map (JStr \<circ> isoformat) demo_dates))) \<le> 261 * 63 + 2"
proof -
  have "length (isoformat (fromordinal n)) = 10" if "1 \<le> n" "n < 366" for n
  proof -
    have "utc_ok ((int n - 1) * DAY_MICROSECONDS)" "utc_date ((int n - 1) * DAY_MICROSECONDS) = fromordinal n"
      using that by (simp_all add: utc_ok_def MAX_ORDINAL_def DAY_MICROSECONDS_def utc_date_def nat_diff_distrib')
    then show ?thesis using isoformat_length [OF valid_utc_date] by metis
  qed
  then have "\<forall>x\<in>set (map (JStr \<circ> isoformat) demo_dates). length (dumps x) \<le> 62"
    unfolding demo_dates_def by (auto intro!: dumps_text simp del: dumps.simps)
  from dumps_list [OF this, of 261] show ?thesis by (simp add: demo_dates_def demo_days del: dumps.simps)
qed

lemma demo_decimal_texts: "dec_str (Dec 10000 (-2)) = ''100.00''" "dec_str (Dec 10002 (-2)) = ''100.02''" "dec_str (Dec 10001 (-2)) = ''100.01''"
  "length (dec_str (Dec 10000000000 (-2))) = 12"
proof -
  have "digit_char 0 = CHR ''0''" "digit_char 1 = CHR ''1''" "digit_char (Suc 0) = CHR ''1''" "digit_char 2 = CHR ''2''" by code_simp+
  then show "dec_str (Dec 10000 (-2)) = ''100.00''" "dec_str (Dec 10002 (-2)) = ''100.02''" "dec_str (Dec 10001 (-2)) = ''100.01''"
    by (simp_all add: dec_body_def show_nat.simps Let_def)
qed (simp add: dec_body_def show_nat.simps Let_def)

lemma demo_wire_size: "length (dumps (market_wire_body demo_body)) \<le> 1000000"
proof -
  have sessions: "length (dumps (JList (map session_wire demo_sessions))) \<le> 263 * 1001 + 2"
    using dumps_list [of "map session_wire demo_sessions" 1000 263] demo_session_size
    by (simp add: demo_sessions_def demo_days del: dumps.simps)
  have "fullmatch HASH_TEXT (replicate 64 (CHR ''a''))" by code_simp
  then have refs: "length (dumps (JList [source_ref_wire \<lparr>sr_record_id = ''b1'', sr_family = ALPACA_HISTORICAL_BARS, sr_record_hash = replicate 64 (CHR ''a'')\<rparr>])) \<le> 1 * (1500 + 1) + 2"
    by (intro dumps_list) (auto intro!: ref_wire_length simp del: dumps.simps)
  have quote: "length (dumps (source_ref_wire demo_quote_ref)) \<le> 1500"
    using record_hash_ok [OF demo_quote_record_integrity] by (intro ref_wire_length) (simp_all add: demo_quote_ref_def)
  have utc: "length (dumps (JStr (utc_str t))) \<le> 164" if "utc_ok t" for t using utc_str_length [OF that] by (intro dumps_text) simp
  have short: "length (dumps (JStr s)) \<le> 300" if "length s \<le> 49" for s using that by (intro dumps_text) simp
  note times = utc [OF demo_times(1)] utc [OF demo_times(2)] utc [OF demo_times(3)]
  have small: "length (dumps (JInt 1)) \<le> 300" "length (dumps (JList [])) \<le> 300" by (simp_all add: show_int_def show_nat.simps)
  have obj: "market_wire_body demo_body = JObj (case market_wire_body demo_body of JObj kvs \<Rightarrow> kvs)" by (simp add: market_wire_body_def)
  show ?thesis
  proof (subst obj, rule order_trans [OF dumps_members])
    show "2 + sum_list (map (\<lambda>(k, v). 6 * length k + 4 + length (dumps v)) (case market_wire_body demo_body of JObj kvs \<Rightarrow> kvs)) \<le> 1000000"
      using sessions refs quote times demo_dates_size small
        short [of "''aaaaaaaa''"] short [of "''ABC''"] short [of "''100.00''"] short [of "''100.01''"] short [of "''100.02''"]
        short [of "dec_str (Dec 10000000000 (-2))"] short [of "''1.0.0''"] short [of "feed_value FEED_IEX"]
        short [of "feed_value FEED_SIP_DELAYED"] short [of "coverage_value COVERAGE_LIMITED"] short [of "freshness_value FRESH"]
        short [of COVERAGE_WARNING] short [of MARKET_PRODUCER_VERSION]
      by (simp add: market_wire_body_def demo_body_def optional_text_def demo_decimal_texts COVERAGE_WARNING_def
          MARKET_PRODUCER_VERSION_def del: dumps.simps dec_str.simps)
  qed
qed


lemma demo_mid: "mid_exact 28 (Dec 10000 (-2)) (Dec 10002 (-2)) = Inr (Dec 10001 (-2))"
proof -
  have digits: "digits 10000 = 5" "digits 10002 = 5" "digits 20002 = 5" by (simp_all add: digits_def show_nat.simps)
  have add: "dec_add 28 (Dec 10000 (-2)) (Dec 10002 (-2)) = Inr (Dec 20002 (-2))"
    using dec_fix_exact [of 20002 28 "-2"] by (simp add: dec_add_def EMIN_def EMAX_def)
  have "dec_div 28 (Dec 20002 (-2)) (Dec 2 0) = (case strip_zeros (10001 * 10 ^ 25) (-27) (-2) of (c, e') \<Rightarrow> dec_fix 28 c e')"
    by (simp add: dec_div_def digits digits_small Let_def)
  moreover have "strip_zeros (10001 * 10 ^ 25) (-27) (-2) = (10001, -2)" by (simp add: strip_zeros.simps)
  ultimately have "dec_div 28 (Dec 20002 (-2)) (Dec 2 0) = Inr (Dec 10001 (-2))"
    using dec_fix_exact [of 10001 28 "-2"] by (simp add: EMIN_def EMAX_def)
  then show ?thesis by (simp add: mid_exact_def digits add Let_def)
qed

lemma demo_spread: "spread_exact (Dec 10000 (-2)) (Dec 10002 (-2)) = (1, False)"
  by (simp add: spread_exact_def MAX_SPREAD_BPS_def Let_def floor_eq_iff)


lemma demo_open_at: "open_at demo_sessions 31676402000000" "open_at demo_sessions 31676400000000"
  by (simp_all add: open_at_def demo_now demo_by_date demo_days) 
    (simp_all add: demo_session_def window_contains_def DAY_MICROSECONDS_def SECOND_def)

lemma demo_dates_sorted: "sort_key toordinal demo_dates = demo_dates" "remdups demo_dates = demo_dates" "length demo_dates = 261" "demo_dates \<noteq> []"
  and demo_dates_hd: "\<exists>n\<ge>1. hd demo_dates = fromordinal n"
proof -
  show "sort_key toordinal demo_dates = demo_dates" "remdups demo_dates = demo_dates" "length demo_dates = 261"
    using weekdays_dates [of 366] unfolding demo_dates_def by (simp_all add: demo_days distinct_remdups_id)
  then show ne: "demo_dates \<noteq> []" by auto
  then have "weekdays 366 \<noteq> []" by (simp add: demo_dates_def)
  then have "hd (weekdays 366) \<in> set (weekdays 366)" "hd demo_dates = fromordinal (hd (weekdays 366))" by (simp_all add: demo_dates_def hd_map del: weekdays_iff)
  then show "\<exists>n\<ge>1. hd demo_dates = fromordinal n" by auto
qed

lemma demo_valid: "validate_market_snapshot_fields 28 (demo_body\<lparr>sn_snapshot_hash := h\<rparr>) = Inr ()"
proof -
  have open_dates: "list_all (open_on demo_sessions) demo_dates"
    using demo_open by (auto simp: demo_dates_def list_all_iff)
  obtain n where n: "1 \<le> n" "hd demo_dates = fromordinal n" using demo_dates_hd by blast
  show ?thesis
    unfolding validate_market_snapshot_fields_def demo_body_def
    by (simp add: demo_mid demo_spread demo_calendar demo_open_at open_dates demo_dates_sorted n(2) demo_now demo_complete [OF n(1)]
        dec_positive_def MAX_MARKET_SNAPSHOT_ITEMS_def canonical_reasons_def sorted_refs_def COVERAGE_WARNING_def MARKET_PRODUCER_VERSION_def
        QUOTE_MAX_AGE_SECONDS_def SECOND_def demo_quote_ref_def)
qed

lemma demo_wire_hash: "market_compute_hash demo_sha (demo_body\<lparr>sn_snapshot_hash := h\<rparr>) = Inr (sn_snapshot_hash demo_snapshot)"
proof -
  have "market_compute_hash demo_sha demo_body = Inr (sn_snapshot_hash demo_snapshot)"
    using demo_wire_size
    by (simp add: market_compute_hash_def market_wire_def canonical_market_wire_bytes_def demo_snapshot_def MAX_MARKET_SNAPSHOT_BYTES_def Let_def
       del: dumps.simps) (simp add: demo_body_def)
  then show ?thesis by simp
qed

lemma demo_finalized: "finalize_market_snapshot demo_sha 28 demo_body = Inr demo_snapshot"
proof -
  let ?m = "demo_body\<lparr>sn_snapshot_hash := sn_snapshot_hash demo_snapshot\<rparr>"
  have m: "demo_snapshot = ?m" by (simp add: demo_snapshot_def)
  have b: "sn_bid demo_body = Dec 10000 (-2)" "sn_ask demo_body = Dec 10002 (-2)"
    "demo_body\<lparr>sn_mid := Dec 10001 (-2), sn_spread_bps := 1\<rparr> = demo_body" by (simp_all add: demo_body_def)
  have "market_compute_hash demo_sha demo_body = Inr (sn_snapshot_hash demo_snapshot)" "validate_market_snapshot_fields 28 demo_body = Inr ()"
    using demo_wire_hash [of "[]"] demo_valid [of "[]"] by (simp_all add: demo_body_def)
  moreover have "fullmatch HASH_TEXT (sn_snapshot_hash demo_snapshot)" by (simp add: demo_snapshot_def)
  then have "market_snapshot_post_init demo_sha 28 ?m = Inr ?m"
    unfolding market_snapshot_post_init_def market_verify_integrity_def demo_wire_hash demo_valid by simp
  ultimately show ?thesis
    unfolding finalize_market_snapshot_def b demo_mid demo_spread bindO_simps Let_def fst_conv
    using m by (simp add: dec_positive_def)
qed

lemma find_key: "distinct (map f xs) \<Longrightarrow> x \<in> set xs \<Longrightarrow> find (\<lambda>y. f y = f x) xs = Some x"
  by (induction xs) (auto simp: image_iff)

lemma remdups_constant: "xs \<noteq> [] \<Longrightarrow> remdups (map (\<lambda>_. c) xs) = [c]"
proof (induction xs)
  case (Cons x xs)
  then show ?case by (cases xs) auto
qed simp

lemma demo_assembled:
  "assemble_market_snapshot demo_sha 28 ''aaaaaaaa'' ''ABC'' 31676402000000 31676402000000 demo_quote demo_bars demo_sessions [] None ''1.0.0''
     = Inr demo_snapshot"
proof -
  have q: "qi_bid demo_quote = Dec 10000 (-2)" "qi_ask demo_quote = Dec 10002 (-2)" "qi_observed_at demo_quote = 31676400000000"
    "qi_received_at demo_quote = 31676401000000" "qi_symbol demo_quote = ''ABC''" "qi_feed demo_quote = FEED_IEX"
    "qi_entitlement demo_quote = ENTITLED_IEX" "quote_verify_source_binding demo_quote = Inr ()" "qi_source_ref demo_quote = demo_quote_ref"
    by (simp_all add: demo_quote_def quote_verify_source_binding_def)
  have bars: "length demo_bars = 261" "list_all bar_bound demo_bars" "list_all (\<lambda>b. bar_security_id b = ''aaaaaaaa'') demo_bars"
    by (simp_all add: demo_bars_def demo_days list_all_iff)
  have ne: "demo_bars \<noteq> []" "bar_feed (hd demo_bars) = FEED_SIP_DELAYED"
    using bars(1) by (cases "weekdays 366"; auto simp: demo_bars_def)+
  have fresh: "derive_freshness demo_quote 31676402000000 demo_sessions QUOTE_MAX_AGE_SECONDS = Inr (FRESH, [])"
  proof -
    have "demo_session 367 \<in> set demo_sessions" unfolding demo_sessions_def set_map by (rule imageI) (simp add: demo_days)
    moreover have "distinct (map ms_trading_date demo_sessions)" using weekdays_dates(2) [of 368] by (simp only: session_dates)
    ultimately have "find (\<lambda>s. ms_trading_date s = fromordinal 367) demo_sessions = Some (demo_session 367)"
      using find_key [of ms_trading_date demo_sessions "demo_session 367"] by simp
    then show ?thesis
      unfolding derive_freshness_def q demo_now
      by (simp add: demo_session_def window_contains_def DAY_MICROSECONDS_def SECOND_def QUOTE_MAX_AGE_SECONDS_def)
  qed
  have refs: "remdups (map bar_source_ref demo_bars)
      = [\<lparr>sr_record_id = ''b1'', sr_family = ALPACA_HISTORICAL_BARS, sr_record_hash = replicate 64 (CHR ''a'')\<rparr>]"
    using ne(1) remdups_constant [of "weekdays 366"] by (simp add: demo_bars_def comp_def)
  have dates: "map bar_trading_date demo_bars = demo_dates" by (simp add: demo_bars_def demo_dates_def)
  have feeds: "card (set (map bar_feed demo_bars)) = 1" using ne(1) by (simp add: demo_bars_def image_constant_conv)
  show ?thesis
    using demo_finalized
    unfolding assemble_market_snapshot_def q demo_calendar bindO_simps demo_mid fresh demo_adv demo_spread dates prod.case refs demo_body_def
    by (simp add: bars ne demo_dates_sorted feeds [simplified] MAX_MARKET_SNAPSHOT_ITEMS_def sorted_refs_def canonical_reasons_def refs)
qed

end
