(* ===== verification/Market_Properties.thy ===== *)
theory Market_Properties
  imports Market_Demo
begin

text \<open>
  The properties of the market data: what an assembled snapshot says of the quote it was
  assembled from, and what the average dollar volume was computed from.
\<close>

section \<open>Snapshots\<close>

text \<open>
  C8. A snapshot assembled from a quote of a source record says exactly what the quote says: its
  midpoint and its last price are half the sum of bid and ask with no rounding, its spread is the
  floor of the exact ratio in basis points, and it is marked as too wide exactly above 30 basis
  points of the unrounded ratio. The quote was observed, received and known in that order and not
  after the decision, on open sessions, and is fresh exactly up to five seconds of age. The
  snapshot reads back from its stored values as itself. The decimal context is one of 21 to
  900000 digits, as the default of 28 is.
\<close>

theorem market_snapshot_is_exact:
  assumes "quote_input_from_record sha r = Inr quote" "21 \<le> prec" "prec \<le> 900000"
    and "assemble_market_snapshot sha prec sid symbol as_of known_at quote bars sessions splits last_price sv = Inr m"
  shows "let mid = (dec_value (qi_bid quote) + dec_value (qi_ask quote)) / 2; spread = dec_value (qi_ask quote) - dec_value (qi_bid quote) in
    dec_value (sn_mid m) = mid \<and> (\<exists>p. sn_last m = Some p \<and> dec_value p = mid)
    \<and> sn_spread_bps m = \<lfloor>10000 * spread / mid\<rfloor> \<and> (SPREAD_TOO_WIDE \<in> set (sn_reasons m) \<longleftrightarrow> 10000 * spread > 30 * mid)
    \<and> qi_observed_at quote \<le> qi_received_at quote \<and> qi_received_at quote \<le> known_at \<and> known_at \<le> as_of
    \<and> open_at sessions as_of \<and> open_at sessions (qi_observed_at quote)
    \<and> sn_freshness m = (if as_of - qi_observed_at quote \<le> 5 * SECOND then FRESH else STALE)
    \<and> reconstruct_market_snapshot sha prec m = Inr m"
proof -
  from assms(4) obtain v where fin: "finalize_market_snapshot sha prec v = Inr m" and bid: "sn_bid v = qi_bid quote" "sn_ask v = qi_ask quote"
    and times: "sn_as_of v = as_of" "sn_known_at v = known_at" "sn_observed_at v = qi_observed_at quote" "sn_received_at v = qi_received_at quote"
      "sn_sessions v = sessions" by (rule assembled)
  from fin obtain mid h where m: "m = v\<lparr>sn_mid := mid, sn_spread_bps := fst (spread_exact (sn_bid v) (sn_ask v)), sn_snapshot_hash := h\<rparr>"
    and init: "market_snapshot_post_init sha prec m = Inr m" by (rule finalize_ok)
  have same: "sn_bid m = qi_bid quote" "sn_ask m = qi_ask quote" "sn_as_of m = as_of" "sn_known_at m = known_at"
    "sn_observed_at m = qi_observed_at quote" "sn_received_at m = qi_received_at quote" "sn_sessions m = sessions"
    using bid times unfolding m by simp_all
  have "validate_market_snapshot_fields prec m = Inr ()" using init unfolding post_init_ok by simp
  note ok = validated [OF this, unfolded same]
  obtain d where "mid_exact prec (qi_bid quote) (qi_ask quote) = Inr d" "dec_value d = (dec_value (qi_bid quote) + dec_value (qi_ask quote)) / 2"
    using mid_exact_priced [OF quote_priced [OF assms(1)] assms(2,3)] by blast
  then have "dec_value (sn_mid m) = (dec_value (qi_bid quote) + dec_value (qi_ask quote)) / 2" using ok(6) by auto
  then show ?thesis
    unfolding Let_def spread_exact_mid [OF refl, symmetric] using ok(4,5,7-13) finalized_reads_back [OF fin] by auto
qed

theorem market_snapshot_is_exact_witness:
  "assemble_market_snapshot demo_sha 28 ''aaaaaaaa'' ''ABC'' 31676402000000 31676402000000 demo_quote demo_bars demo_sessions [] None ''1.0.0''
     = Inr demo_snapshot
   \<and> dec_value (sn_mid demo_snapshot) = 10001 / 100 \<and> sn_spread_bps demo_snapshot = 1
   \<and> reconstruct_market_snapshot demo_sha 28 demo_snapshot = Inr demo_snapshot"
proof -
  have q: "dec_value (qi_bid demo_quote) = 100" "dec_value (qi_ask demo_quote) = 10002 / 100" by (simp_all add: demo_quote_def)
  show ?thesis
    using market_snapshot_is_exact [OF demo_quote_run _ _ demo_assembled] unfolding q Let_def
    by (simp add: demo_assembled floor_eq_iff)
qed

section \<open>Average dollar volume\<close>

text \<open>
  C9. The average dollar volume looks at nothing later than the decision. It is computed from
  exactly one bar for each of the twenty latest open sessions strictly before the day of the
  decision, all of them known at the time, with the splits that were known and in force then and
  no others. In moderate amounts without such a split it is the exact mean of close times volume.
\<close>

theorem adv20_has_no_lookahead:
  assumes "compute_adv20 prec bars sessions splits (Some cutoff) (Some known_at) sid = Inr (Some v)"
  shows "\<exists>used total. map bar_trading_date used = adv_window sessions cutoff \<and> length used = 20 \<and> set used \<subseteq> set bars
    \<and> (\<forall>b\<in>set used. bar_available_at b \<le> known_at \<and> date_less (bar_trading_date b) (utc_date cutoff)
         \<and> (\<exists>s\<in>set sessions. ms_trading_date s = bar_trading_date b \<and> ms_day_kind s \<noteq> DAY_CLOSED))
    \<and> (\<forall>s\<in>set sessions. \<forall>b\<in>set used. ms_day_kind s \<noteq> DAY_CLOSED \<and> date_less (ms_trading_date s) (utc_date cutoff)
         \<and> ms_trading_date s \<notin> bar_trading_date ` set used \<longrightarrow> toordinal (ms_trading_date s) \<le> toordinal (bar_trading_date b))
    \<and> dollar_volume prec (Some cutoff) (Some known_at) (filter (split_in_force cutoff known_at) splits) used (Dec 0 0) = Inr total
    \<and> dec_div prec total (Dec 20 0) = Inr v
    \<and> (27 \<le> prec \<and> prec \<le> 900000 \<and> (\<forall>b\<in>set used. places (bar_close b) \<and> 0 \<le> bar_volume b) \<and> (\<Sum>b\<leftarrow>used. bar_amount b) < 10 ^ 18
         \<and> (\<forall>a\<in>set splits. \<not> split_in_force cutoff known_at a) \<longrightarrow> dec_value v = (\<Sum>b\<leftarrow>used. bar_amount b) / 20)"
proof -
  obtain used total where u: "map bar_trading_date used = adv_window sessions cutoff" "length used = 20" "set used \<subseteq> set bars"
    "\<forall>b\<in>set used. bar_available_at b \<le> known_at \<and> date_less (bar_trading_date b) (utc_date cutoff)"
    "dollar_volume prec (Some cutoff) (Some known_at) (filter (split_in_force cutoff known_at) splits) used (Dec 0 0) = Inr total"
    "dec_div prec total (Dec 20 0) = Inr v"
    using assms by (rule compute_adv20_cutoff)
  let ?q = "qualifying_dates sessions (Some (utc_date cutoff))"
  have w: "set (adv_window sessions cutoff) = bar_trading_date ` set used" unfolding u(1) [symmetric] by simp
  have sub: "set (adv_window sessions cutoff) \<subseteq> set ?q"
    unfolding adv_window_def latest_first_def by (rule order_trans [OF set_take_subset]) simp
  show ?thesis
  proof (intro exI conjI)
    show "\<forall>b\<in>set used. bar_available_at b \<le> known_at \<and> date_less (bar_trading_date b) (utc_date cutoff)
        \<and> (\<exists>s\<in>set sessions. ms_trading_date s = bar_trading_date b \<and> ms_day_kind s \<noteq> DAY_CLOSED)"
    proof
      fix b assume b: "b \<in> set used"
      then have "bar_trading_date b \<in> set ?q" using sub w by blast
      then show "bar_available_at b \<le> known_at \<and> date_less (bar_trading_date b) (utc_date cutoff)
          \<and> (\<exists>s\<in>set sessions. ms_trading_date s = bar_trading_date b \<and> ms_day_kind s \<noteq> DAY_CLOSED)"
        using u(4) b by (simp add: qualifying_iff)
    qed
    show "\<forall>s\<in>set sessions. \<forall>b\<in>set used. ms_day_kind s \<noteq> DAY_CLOSED \<and> date_less (ms_trading_date s) (utc_date cutoff)
        \<and> ms_trading_date s \<notin> bar_trading_date ` set used \<longrightarrow> toordinal (ms_trading_date s) \<le> toordinal (bar_trading_date b)"
    proof (intro ballI impI, elim conjE)
      fix s b
      assume s: "s \<in> set sessions" "ms_day_kind s \<noteq> DAY_CLOSED" "date_less (ms_trading_date s) (utc_date cutoff)"
        "ms_trading_date s \<notin> bar_trading_date ` set used" and b: "b \<in> set used"
      have "ms_trading_date s \<in> set ?q" using s(1-3) by (auto simp: qualifying_iff)
      then show "toordinal (ms_trading_date s) \<le> toordinal (bar_trading_date b)"
        using adv_window_latest [of "ms_trading_date s" sessions cutoff "bar_trading_date b", unfolded w] s(4) b by simp
    qed
    show "27 \<le> prec \<and> prec \<le> 900000 \<and> (\<forall>b\<in>set used. places (bar_close b) \<and> 0 \<le> bar_volume b) \<and> (\<Sum>b\<leftarrow>used. bar_amount b) < 10 ^ 18
        \<and> (\<forall>a\<in>set splits. \<not> split_in_force cutoff known_at a) \<longrightarrow> dec_value v = (\<Sum>b\<leftarrow>used. bar_amount b) / 20"
    proof (intro impI, elim conjE)
      assume *: "27 \<le> prec" "prec \<le> 900000" "\<forall>b\<in>set used. places (bar_close b) \<and> 0 \<le> bar_volume b" "(\<Sum>b\<leftarrow>used. bar_amount b) < 10 ^ 18"
        and "\<forall>a\<in>set splits. \<not> split_in_force cutoff known_at a"
      then have "filter (split_in_force cutoff known_at) splits = []" by (simp add: filter_empty_conv)
      then show "dec_value v = (\<Sum>b\<leftarrow>used. bar_amount b) / 20" using average_exact [OF * _ u(6)] u(5) by simp
    qed
  qed (fact u)+
qed

theorem adv20_has_no_lookahead_witness:
  "compute_adv20 28 demo_bars demo_sessions [] (Some 31676402000000) (Some 31676402000000) (Some ''aaaaaaaa'') = Inr (Some (Dec 10000000000 (-2)))
   \<and> length (adv_window demo_sessions 31676402000000) = 20 \<and> dec_value (Dec 10000000000 (-2)) = 100000000"
proof -
  have "\<exists>used :: daily_bar list. map bar_trading_date used = adv_window demo_sessions 31676402000000 \<and> length used = 20"
    using adv20_has_no_lookahead [OF demo_adv] by blast
  then have "length (adv_window demo_sessions 31676402000000) = 20" by (metis length_map)
  then show ?thesis using demo_adv by simp
qed

end
