(* ===== verification/Market_Events.thy ===== *)
theory Market_Events
  imports Python_Decimal Value_Objects Calendar
begin

text \<open>
  \<open>market_data/events.py\<close>: the verification of an emergency event, which wants either an official
  primary source or two independent families, and for prices three fresh, ordered samples of each
  family that agree with each other. The set of families is iterated in the order of its first
  observations; the verdicts below do not depend on it.
\<close>

datatype source_family = FROM_SEC | FROM_ISSUER | FROM_EXCHANGE | MARKET_VENDOR | NEWS_PUBLISHER | PUBLIC_WEB | SEARCH
datatype source_kind = FILING | ISSUER_RELEASE | EXCHANGE_NOTICE | ARTICLE | MARKET_DATA | SEARCH_RESULT
datatype event_kind = PRICE_VOLUME | NEWS
datatype event_reason =
    EVENT_VERIFIED | INSUFFICIENT_SAMPLES | SOURCE_FAMILY_COLLISION | EVENT_STALE | EVENT_FUTURE | OUT_OF_ORDER
  | DATA_CONFLICT | PRIMARY_OFFICIAL | UNVERIFIED

definition EVENT_SYMBOL :: rx where
  "EVENT_SYMBOL = head_tail is_upper (\<lambda>c. is_upper c \<or> is_digit c \<or> c = CHR ''.'' \<or> c = CHR ''-'') 9"

record market_observation =
  mo_observation_id :: string
  mo_symbol :: string
  mo_source_family :: source_family
  mo_observed_at :: utc
  mo_price :: decimal
  mo_volume :: int
  mo_fresh_until :: utc

definition market_observation_post_init :: "market_observation \<Rightarrow> market_observation outcome" where
  "market_observation_post_init x =
     bindO (eachO require
       [mo_observation_id x \<noteq> [] \<and> length (mo_observation_id x) \<le> 96, fullmatch EVENT_SYMBOL (mo_symbol x),
        dec_positive (mo_price x), \<not> mo_volume x < 0, \<not> mo_fresh_until x < mo_observed_at x]) (\<lambda>_. Inr x)"

record event_candidate =
  ec_event_id :: string
  ec_kind :: event_kind
  ec_symbol :: string
  ec_as_of :: utc
  ec_observations :: "market_observation list"
  ec_news_source_families :: "source_family list"
  ec_news_source_kind :: "source_kind option"
  ec_news_primary :: bool
  ec_news_conflict :: bool

definition event_candidate_post_init :: "event_candidate \<Rightarrow> event_candidate outcome" where
  "event_candidate_post_init c =
     bindO (eachO require
       [ec_event_id c \<noteq> [] \<and> length (ec_event_id c) \<le> 96, fullmatch EVENT_SYMBOL (ec_symbol c),
        length (ec_observations c) \<le> 32, distinct (ec_news_source_families c)]) (\<lambda>_. Inr c)"

record event_verification_result =
  vr_event_id :: string
  vr_verified :: bool
  vr_reason :: event_reason
  vr_affected_symbols :: "string list"
  vr_deadline_seconds :: int

definition event_result :: "event_candidate \<Rightarrow> bool \<Rightarrow> event_reason \<Rightarrow> event_verification_result" where
  "event_result c verified reason =
     \<lparr>vr_event_id = ec_event_id c, vr_verified = verified, vr_reason = reason, vr_affected_symbols = [ec_symbol c], vr_deadline_seconds = 180\<rparr>"

fun official_family :: "source_kind \<Rightarrow> source_family option" where
  "official_family FILING = Some FROM_SEC"
| "official_family ISSUER_RELEASE = Some FROM_ISSUER"
| "official_family EXCHANGE_NOTICE = Some FROM_EXCHANGE"
| "official_family _ = None"

text \<open>\<open>max\<close> and \<open>min\<close> keep the first of equal values.\<close>

definition dec_max :: "decimal list \<Rightarrow> decimal" where
  "dec_max ds = fold (\<lambda>x b. if dec_value x > dec_value b then x else b) (tl ds) (hd ds)"

definition dec_min :: "decimal list \<Rightarrow> decimal" where
  "dec_min ds = fold (\<lambda>x b. if dec_value x < dec_value b then x else b) (tl ds) (hd ds)"

definition samples_of :: "event_candidate \<Rightarrow> source_family \<Rightarrow> market_observation list" where
  "samples_of c f = filter (\<lambda>x. mo_source_family x = f) (ec_observations c)"

definition verify_event :: "nat \<Rightarrow> event_candidate \<Rightarrow> event_verification_result outcome" where
  "verify_event prec c =
     (if ec_news_conflict c then Inr (event_result c False DATA_CONFLICT)
      else if ec_kind c = NEWS then
        (let official = (case ec_news_source_kind c of None \<Rightarrow> None | Some k \<Rightarrow> official_family k) in
         if ec_news_primary c \<and> official \<noteq> None \<and> ec_news_source_families c = [the official]
         then Inr (event_result c True PRIMARY_OFFICIAL)
         else if length (ec_news_source_families c) \<ge> 2 then Inr (event_result c True EVENT_VERIFIED)
         else Inr (event_result c False UNVERIFIED))
      else if list_ex (\<lambda>x. mo_symbol x \<noteq> ec_symbol c) (ec_observations c) then Inr (event_result c False DATA_CONFLICT)
      else if list_ex (\<lambda>x. mo_observed_at x > ec_as_of c) (ec_observations c) then Inr (event_result c False EVENT_FUTURE)
      else if list_ex (\<lambda>x. mo_fresh_until x < ec_as_of c) (ec_observations c) then Inr (event_result c False EVENT_STALE)
      else
        (let families = remdups (map mo_source_family (ec_observations c)); grouped = map (samples_of c) families in
         if length families < 2 then Inr (event_result c False SOURCE_FAMILY_COLLISION)
         else if list_ex (\<lambda>samples. length samples < 3) grouped then Inr (event_result c False INSUFFICIENT_SAMPLES)
         else if list_ex (\<lambda>samples. list_ex (\<lambda>(previous, current). current \<le> previous) (pairs (map mo_observed_at samples))) grouped
         then Inr (event_result c False OUT_OF_ORDER)
         else
           (let latest_prices = map (mo_price \<circ> last) grouped in
            bindO (dec_div prec (dec_max latest_prices) (dec_min latest_prices)) (\<lambda>ratio.
            if dec_value ratio > dec_value (Dec 105 (-2)) then Inr (event_result c False DATA_CONFLICT)
            else Inr (event_result c True EVENT_VERIFIED)))))"

section \<open>What a verified event rests on\<close>

lemma dec_max_in: "ds \<noteq> [] \<Longrightarrow> dec_max ds \<in> set ds \<and> (\<forall>d\<in>set ds. dec_value d \<le> dec_value (dec_max ds))"
proof -
  let ?m = "fold (\<lambda>x b. if dec_value x > dec_value b then x else b)"
  have "?m xs b \<in> insert b (set xs) \<and> (\<forall>d\<in>insert b (set xs). dec_value d \<le> dec_value (?m xs b))" for xs b
    by (induction xs arbitrary: b) (fastforce simp: not_less)+
  from this [of "tl ds" "hd ds"] show "ds \<noteq> [] \<Longrightarrow> ?thesis" by (cases ds) (simp_all add: dec_max_def)
qed

lemma dec_min_in: "ds \<noteq> [] \<Longrightarrow> dec_min ds \<in> set ds \<and> (\<forall>d\<in>set ds. dec_value (dec_min ds) \<le> dec_value d)"
proof -
  let ?m = "fold (\<lambda>x b. if dec_value x < dec_value b then x else b)"
  have "?m xs b \<in> insert b (set xs) \<and> (\<forall>d\<in>insert b (set xs). dec_value (?m xs b) \<le> dec_value d)" for xs b
    by (induction xs arbitrary: b) (fastforce simp: not_less)+
  from this [of "tl ds" "hd ds"] show "ds \<noteq> [] \<Longrightarrow> ?thesis" by (cases ds) (simp_all add: dec_min_def)
qed

lemma strictly_ordered: "\<not> list_ex (\<lambda>(previous, current). current \<le> previous) (pairs ts) \<longleftrightarrow> sorted_wrt (<) (ts :: int list)"
proof -
  have "\<not> list_ex (\<lambda>(previous, current). current \<le> previous) (pairs ts) \<longleftrightarrow> list_all (\<lambda>p. fst p < snd p) (pairs ts)"
    by (auto simp: list_ex_iff list_all_iff not_le)
  then show ?thesis by (simp add: pairs_successively successively_conv_sorted_wrt [OF transp_on_less])
qed

lemma verified_price_event:
  assumes "verify_event prec c = Inr r" "vr_verified r" "ec_kind c = PRICE_VOLUME"
  shows "\<forall>x\<in>set (ec_observations c). mo_symbol x = ec_symbol c \<and> mo_observed_at x \<le> ec_as_of c \<and> ec_as_of c \<le> mo_fresh_until x"
    "2 \<le> card (mo_source_family ` set (ec_observations c))"
    "\<forall>f\<in>mo_source_family ` set (ec_observations c). 3 \<le> length (samples_of c f) \<and> sorted_wrt (<) (map mo_observed_at (samples_of c f))"
    "\<not> ec_news_conflict c"
    "\<exists>hi lo ratio. (\<forall>f\<in>mo_source_family ` set (ec_observations c). dec_value lo \<le> dec_value (mo_price (last (samples_of c f)))
         \<and> dec_value (mo_price (last (samples_of c f))) \<le> dec_value hi)
       \<and> dec_div prec hi lo = Inr ratio \<and> dec_value ratio \<le> 105 / 100"
proof -
  let ?fs = "remdups (map mo_source_family (ec_observations c))"
  let ?ps = "map (mo_price \<circ> last) (map (samples_of c) ?fs)"
  have ok: "\<not> ec_news_conflict c" "\<not> list_ex (\<lambda>x. mo_symbol x \<noteq> ec_symbol c) (ec_observations c)"
    "\<not> list_ex (\<lambda>x. mo_observed_at x > ec_as_of c) (ec_observations c)" "\<not> list_ex (\<lambda>x. mo_fresh_until x < ec_as_of c) (ec_observations c)"
    "\<not> length ?fs < 2" "\<not> list_ex (\<lambda>samples. length samples < 3) (map (samples_of c) ?fs)"
    "\<not> list_ex (\<lambda>samples. list_ex (\<lambda>(previous, current). current \<le> previous) (pairs (map mo_observed_at samples))) (map (samples_of c) ?fs)"
    using assms unfolding verify_event_def Let_def by (auto simp: event_result_def split: if_splits)
  show "\<not> ec_news_conflict c" by (fact ok(1))
  obtain ratio where "dec_div prec (dec_max ?ps) (dec_min ?ps) = Inr ratio" "\<not> dec_value ratio > dec_value (Dec 105 (-2))"
    using assms ok unfolding verify_event_def Let_def by (auto simp: event_result_def bindO_eq_Inr split: if_splits)
  moreover have "?fs \<noteq> []" using ok(5) by auto
  then have "?ps \<noteq> []" by simp
  note dec_max_in [OF this] dec_min_in [OF this]
  ultimately show "\<exists>hi lo ratio. (\<forall>f\<in>mo_source_family ` set (ec_observations c). dec_value lo \<le> dec_value (mo_price (last (samples_of c f)))
         \<and> dec_value (mo_price (last (samples_of c f))) \<le> dec_value hi)
       \<and> dec_div prec hi lo = Inr ratio \<and> dec_value ratio \<le> 105 / 100"
    by (intro exI [of _ "dec_max ?ps"] exI [of _ "dec_min ?ps"] exI [of _ ratio]) (simp add: not_less)
  show "\<forall>x\<in>set (ec_observations c). mo_symbol x = ec_symbol c \<and> mo_observed_at x \<le> ec_as_of c \<and> ec_as_of c \<le> mo_fresh_until x"
    using ok(2-4) by (auto simp: list_ex_iff not_less)
  show "2 \<le> card (mo_source_family ` set (ec_observations c))" using ok(5) by (simp add: length_remdups_card_conv)
  have "3 \<le> length (samples_of c f)" "sorted_wrt (<) (map mo_observed_at (samples_of c f))" if "f \<in> mo_source_family ` set (ec_observations c)" for f
    using ok(6,7) that unfolding list_ex_iff strictly_ordered [symmetric] by (auto simp: not_less)
  then show "\<forall>f\<in>mo_source_family ` set (ec_observations c). 3 \<le> length (samples_of c f) \<and> sorted_wrt (<) (map mo_observed_at (samples_of c f))"
    by blast
qed

lemma verified_news_event:
  assumes "ec_kind c = NEWS" "event_candidate_post_init c = Inr c"
  shows "\<exists>r. verify_event prec c = Inr r \<and> (vr_verified r \<longleftrightarrow> \<not> ec_news_conflict c \<and>
    (2 \<le> card (set (ec_news_source_families c))
     \<or> ec_news_primary c \<and> (\<exists>k f. ec_news_source_kind c = Some k \<and> official_family k = Some f \<and> ec_news_source_families c = [f])))"
proof -
  have "card (set (ec_news_source_families c)) = length (ec_news_source_families c)"
    using assms(2) by (auto simp: event_candidate_post_init_def bindO_eq_Inr distinct_card)
  then show ?thesis using assms(1) by (auto simp: verify_event_def event_result_def Let_def split: option.splits)
qed

end
