(* ===== verification/Universe_Contracts.thy ===== *)
theory Universe_Contracts
  imports Market_Assembly
begin

text \<open>
  \<open>universe/contracts.py\<close>: the entry of one security with its decision and its references, and
  the hashed snapshot of all entries in the order of the security ids. The private tokens that
  mark a trusted builder or readback are not represented.
\<close>

definition MAX_UNIVERSE_SNAPSHOT_ITEMS :: nat where "MAX_UNIVERSE_SNAPSHOT_ITEMS = 10000"
definition MAX_UNIVERSE_SNAPSHOT_BYTES :: nat where "MAX_UNIVERSE_SNAPSHOT_BYTES = 16777216"
definition UNIVERSE_PRODUCER_VERSION :: string where "UNIVERSE_PRODUCER_VERSION = ''p4c.universe.v1''"

definition MASTER_VERSION :: rx where
  "MASTER_VERSION = Seq (Lit ''p4b.securities.v1:'') HASH_TEXT"

datatype whole_share_feasibility = FEASIBLE | NOT_FEASIBLE | NOT_EVALUATED

fun feasibility_value :: "whole_share_feasibility \<Rightarrow> string" where
  "feasibility_value FEASIBLE = ''FEASIBLE''"
| "feasibility_value NOT_FEASIBLE = ''NOT_FEASIBLE''"
| "feasibility_value NOT_EVALUATED = ''NOT_EVALUATED''"

section \<open>Entries\<close>

record universe_entry =
  ue_security_id :: string
  ue_symbol :: string
  ue_eligible :: bool
  ue_reason :: "closed_reason option"
  ue_identity_hash :: "string option"
  ue_master_version :: "string option"
  ue_market_snapshot_hash :: "string option"
  ue_whole_share_feasibility :: whole_share_feasibility
  ue_quarantine_decision_hash :: "string option"
  ue_quarantine_event_ids :: "string list"

definition bounded_master_version :: "string \<Rightarrow> bool" where
  "bounded_master_version v \<longleftrightarrow> length v \<le> MAX_MASTER_VERSION_LENGTH \<and> fullmatch MASTER_VERSION v"

definition universe_entry_post_init :: "universe_entry \<Rightarrow> universe_entry outcome" where
  "universe_entry_post_init e =
     bindO (eachO require
       [\<not> (ue_eligible e \<and> ue_reason e \<noteq> None), \<not> (\<not> ue_eligible e \<and> ue_reason e = None),
        \<not> (ue_eligible e \<and> (ue_identity_hash e = None \<or> ue_master_version e = None \<or> ue_market_snapshot_hash e = None)),
        optional_matches HASH_TEXT (ue_identity_hash e),
        (case ue_master_version e of None \<Rightarrow> True | Some v \<Rightarrow> bounded_master_version v),
        optional_matches HASH_TEXT (ue_market_snapshot_hash e),
        optional_matches HASH_TEXT (ue_quarantine_decision_hash e),
        list_all (\<lambda>i. i \<noteq> []) (ue_quarantine_event_ids e),
        ue_quarantine_event_ids e = sort (remdups (ue_quarantine_event_ids e)),
        \<not> (ue_quarantine_decision_hash e = None \<and> ue_quarantine_event_ids e \<noteq> []),
        \<not> (ue_eligible e \<and> ue_quarantine_decision_hash e = None),
        ue_whole_share_feasibility e = NOT_EVALUATED,
        length (ue_quarantine_event_ids e) \<le> MAX_EVENT_LINEAGES,
        list_all (fullmatch EVENT_ID) (ue_quarantine_event_ids e)]) (\<lambda>_. Inr e)"

section \<open>Snapshots\<close>

record universe_snapshot =
  us_as_of :: pydate
  us_known_at :: utc
  us_security_master_version :: string
  us_market_snapshot_refs :: "string list"
  us_entries :: "universe_entry list"
  us_policy_hash :: string
  us_schema_version :: string
  us_producer_version :: string
  us_universe_hash :: string

text \<open>The day of \<open>known_at\<close> lies in the month of \<open>as_of\<close> and not before it.\<close>

definition known_in_month :: "pydate \<Rightarrow> utc \<Rightarrow> bool" where
  "known_in_month as_of known_at \<longleftrightarrow>
     (let known_date = utc_date known_at in
      \<not> (year known_date \<noteq> year as_of \<or> month known_date \<noteq> month as_of \<or> date_less known_date as_of))"

definition entry_wire :: "universe_entry \<Rightarrow> json" where
  "entry_wire e =
     JObj [(''security_id'', JStr (ue_security_id e)),
           (''symbol'', JStr (ue_symbol e)),
           (''eligible'', JBool (ue_eligible e)),
           (''reason'', optional_text (map_option closed_reason_value (ue_reason e))),
           (''identity_hash'', optional_text (ue_identity_hash e)),
           (''master_version'', optional_text (ue_master_version e)),
           (''market_snapshot_hash'', optional_text (ue_market_snapshot_hash e)),
           (''whole_share_feasibility'', JStr (feasibility_value (ue_whole_share_feasibility e))),
           (''quarantine_decision_hash'', optional_text (ue_quarantine_decision_hash e)),
           (''quarantine_event_ids'', JList (map JStr (ue_quarantine_event_ids e)))]"

definition canonical_universe_wire_bytes :: "json \<Rightarrow> string outcome" where
  "canonical_universe_wire_bytes wire =
     (let canonical = dumps wire in bindO (require (\<not> length canonical > MAX_UNIVERSE_SNAPSHOT_BYTES)) (\<lambda>_. Inr canonical))"

definition universe_wire_body :: "universe_snapshot \<Rightarrow> json" where
  "universe_wire_body v =
     JObj [(''as_of'', JStr (isoformat (us_as_of v))),
           (''known_at'', JStr (utc_str (us_known_at v))),
           (''security_master_version'', JStr (us_security_master_version v)),
           (''market_snapshot_refs'', JList (map JStr (us_market_snapshot_refs v))),
           (''entries'', JList (map entry_wire (us_entries v))),
           (''policy_hash'', JStr (us_policy_hash v)),
           (''schema_version'', JStr (us_schema_version v)),
           (''producer_version'', JStr (us_producer_version v))]"

definition universe_wire :: "universe_snapshot \<Rightarrow> json outcome" where
  "universe_wire v = bindO (canonical_universe_wire_bytes (universe_wire_body v)) (\<lambda>_. Inr (universe_wire_body v))"

definition UNIVERSE_HASH_DOMAIN :: string where
  "UNIVERSE_HASH_DOMAIN = ''seven-lens.p4c.universe-snapshot.v1'' @ [CHR 0x00]"

definition universe_compute_hash :: "digest \<Rightarrow> universe_snapshot \<Rightarrow> string outcome" where
  "universe_compute_hash sha256 v =
     bindO (universe_wire v) (\<lambda>wire.
     bindO (canonical_universe_wire_bytes wire) (\<lambda>canonical. Inr (sha256 (UNIVERSE_HASH_DOMAIN @ canonical))))"

definition universe_verify_integrity :: "digest \<Rightarrow> universe_snapshot \<Rightarrow> unit outcome" where
  "universe_verify_integrity sha256 v = bindO (universe_compute_hash sha256 v) (\<lambda>h. require (us_universe_hash v = h))"

definition universe_snapshot_post_init :: "digest \<Rightarrow> universe_snapshot \<Rightarrow> universe_snapshot outcome" where
  "universe_snapshot_post_init sha256 v =
     bindO (eachO require
       [known_in_month (us_as_of v) (us_known_at v),
        bounded_master_version (us_security_master_version v),
        length (us_market_snapshot_refs v) \<le> MAX_UNIVERSE_SNAPSHOT_ITEMS,
        list_all (fullmatch HASH_TEXT) (us_market_snapshot_refs v),
        us_market_snapshot_refs v = sort (remdups (us_market_snapshot_refs v)),
        length (us_entries v) \<le> MAX_UNIVERSE_SNAPSHOT_ITEMS,
        us_entries v = sort_key ue_security_id (us_entries v),
        distinct (map ue_security_id (us_entries v)),
        fullmatch HASH_TEXT (us_policy_hash v),
        us_producer_version v = UNIVERSE_PRODUCER_VERSION,
        fullmatch HASH_TEXT (us_universe_hash v)]) (\<lambda>_.
     bindO (universe_verify_integrity sha256 v) (\<lambda>_. Inr v))"

definition eligible_entries :: "universe_snapshot \<Rightarrow> universe_entry list" where
  "eligible_entries v = filter ue_eligible (us_entries v)"

definition ineligible_entries :: "universe_snapshot \<Rightarrow> universe_entry list" where
  "ineligible_entries v = filter (\<lambda>e. \<not> ue_eligible e) (us_entries v)"

text \<open>\<open>_derive_universe_hash\<close> hashes the values before the record is constructed.\<close>

definition derive_universe_hash :: "digest \<Rightarrow> universe_snapshot \<Rightarrow> string outcome" where
  "derive_universe_hash sha256 v = universe_compute_hash sha256 (v\<lparr>us_universe_hash := []\<rparr>)"

definition build_universe_snapshot :: "digest \<Rightarrow> universe_snapshot \<Rightarrow> universe_snapshot outcome" where
  "build_universe_snapshot sha256 v =
     bindO (derive_universe_hash sha256 v) (\<lambda>h. universe_snapshot_post_init sha256 (v\<lparr>us_universe_hash := h\<rparr>))"

definition reconstruct_universe_snapshot :: "digest \<Rightarrow> universe_snapshot \<Rightarrow> universe_snapshot outcome" where
  "reconstruct_universe_snapshot sha256 v =
     bindO (require (fullmatch HASH_TEXT (us_universe_hash v))) (\<lambda>_. universe_snapshot_post_init sha256 v)"

section \<open>Lemmas\<close>

text \<open>The hash is not part of the wire.\<close>

interpretation universe_seal: hash_bound "universe_compute_hash sha" us_universe_hash "\<lambda>h r. r\<lparr>us_universe_hash := h\<rparr>"
  "universe_verify_integrity sha" for sha
  by unfold_locales (simp_all add: universe_verify_integrity_def universe_compute_hash_def universe_wire_def universe_wire_body_def)

lemmas universe_hash_hash [simp] = universe_seal.hash_ignores_hash

lemma built_universe:
  assumes "build_universe_snapshot sha v = Inr u"
  shows "\<exists>h. u = v\<lparr>us_universe_hash := h\<rparr> \<and> universe_compute_hash sha u = Inr h"
  using assms by (auto simp: build_universe_snapshot_def derive_universe_hash_def universe_snapshot_post_init_def bindO_eq_Inr)

text \<open>A snapshot that was built reads back as itself.\<close>

lemma universe_post_init_same: "universe_snapshot_post_init sha v = Inr u \<Longrightarrow> u = v"
  by (auto simp: universe_snapshot_post_init_def bindO_eq_Inr)

lemma universe_post_init_hash: "universe_snapshot_post_init sha v = Inr u \<Longrightarrow> fullmatch HASH_TEXT (us_universe_hash u)"
  by (auto simp: universe_snapshot_post_init_def bindO_eq_Inr)

lemma universe_reads_back:
  assumes "build_universe_snapshot sha v = Inr u"
  shows "reconstruct_universe_snapshot sha u = Inr u"
proof -
  from assms obtain h where h: "universe_snapshot_post_init sha (v\<lparr>us_universe_hash := h\<rparr>) = Inr u"
    by (auto simp: build_universe_snapshot_def bindO_eq_Inr)
  then show ?thesis
    using universe_post_init_same [OF h] universe_post_init_hash [OF h] by (simp add: reconstruct_universe_snapshot_def bindO_eq_Inr)
qed

end
