(* ===== verification/Universe_Builder.thy ===== *)
theory Universe_Builder
  imports Universe_Contracts
begin

text \<open>
  \<open>universe/builder.py\<close>: the asset observation joined from two source records, the identity view,
  the chain of hard filters for one security, and the builder of the monthly universe.

  A quarantine view is its decision and a market view its snapshot: the constructors of the
  views check the hash and add nothing. Two comparisons of a value with itself, of the master
  version and of the security of a market view, are left out.
\<close>

section \<open>Asset observations\<close>

datatype asset_kind =
    ORDINARY_COMMON_STOCK | ETF | PREFERRED | WARRANT | UNIT | CLOSED_END_FUND | ETN | LEVERAGED_INVERSE_ETF | OTC | OTHER

fun asset_kind_value :: "asset_kind \<Rightarrow> string" where
  "asset_kind_value ORDINARY_COMMON_STOCK = ''ordinary_common_stock''"
| "asset_kind_value ETF = ''etf''"
| "asset_kind_value PREFERRED = ''preferred''"
| "asset_kind_value WARRANT = ''warrant''"
| "asset_kind_value UNIT = ''unit''"
| "asset_kind_value CLOSED_END_FUND = ''closed_end_fund''"
| "asset_kind_value ETN = ''etn''"
| "asset_kind_value LEVERAGED_INVERSE_ETF = ''leveraged_inverse_etf''"
| "asset_kind_value OTC = ''otc''"
| "asset_kind_value OTHER = ''other''"

text \<open>\<open>AssetKind(text)\<close> and \<open>ListingExchange(text)\<close>.\<close>

definition parse_member :: "('a \<Rightarrow> string) \<Rightarrow> 'a list \<Rightarrow> string \<Rightarrow> 'a outcome" where
  "parse_member value members text = (case find (\<lambda>m. value m = text) members of None \<Rightarrow> Inl ValueError | Some m \<Rightarrow> Inr m)"

definition AssetKind :: "string \<Rightarrow> asset_kind outcome" where
  "AssetKind = parse_member asset_kind_value
     [ORDINARY_COMMON_STOCK, ETF, PREFERRED, WARRANT, UNIT, CLOSED_END_FUND, ETN, LEVERAGED_INVERSE_ETF, OTC, OTHER]"

definition ListingExchange :: "string \<Rightarrow> listing_exchange outcome" where
  "ListingExchange = parse_member listing_exchange_value [AMEX, ARCA, BATS, NASDAQ, NYSE]"

type_synonym asset_fingerprint = "string \<times> string \<times> asset_kind \<times> bool \<times> bool \<times> listing_exchange \<times> utc \<times> bool option"

record asset_authority =
  aa_fingerprint :: asset_fingerprint
  aa_asset_record_hash :: string
  aa_exchange_record_hash :: string
  aa_identity_hash :: string

record asset_observation =
  ao_security_id :: string
  ao_symbol :: string
  ao_kind :: asset_kind
  ao_active :: bool
  ao_tradable :: bool
  ao_exchange :: listing_exchange
  ao_observed_at :: utc
  ao_halted :: "bool option"
  ao_authority :: asset_authority

definition asset_observation_fingerprint :: "asset_observation \<Rightarrow> asset_fingerprint" where
  "asset_observation_fingerprint a =
     (ao_security_id a, ao_symbol a, ao_kind a, ao_active a, ao_tradable a, ao_exchange a, ao_observed_at a, ao_halted a)"

definition asset_verify_source_binding :: "asset_observation \<Rightarrow> unit outcome" where
  "asset_verify_source_binding a = require (aa_fingerprint (ao_authority a) = asset_observation_fingerprint a)"

definition asset_observation_post_init :: "asset_observation \<Rightarrow> asset_observation outcome" where
  "asset_observation_post_init a = bindO (asset_verify_source_binding a) (\<lambda>_. Inr a)"

text \<open>A decoded list or object cannot be looked up in a set.\<close>

definition hashable :: "json \<Rightarrow> bool" where
  "hashable v \<longleftrightarrow> (case v of JList _ \<Rightarrow> False | JObj _ \<Rightarrow> False | _ \<Rightarrow> True)"

definition asset_observation_from_records ::
  "digest \<Rightarrow> source_record \<Rightarrow> source_record \<Rightarrow> identity_record \<Rightarrow> utc \<Rightarrow> asset_observation outcome" where
  "asset_observation_from_records sha256 asset_record exchange_record identity known_at =
     bindO (source_record_verify_integrity sha256 asset_record) (\<lambda>_.
     bindO (source_record_verify_integrity sha256 exchange_record) (\<lambda>_.
     bindO (identity_verify_integrity sha256 identity) (\<lambda>_.
     bindO (require (nr_family asset_record = ALPACA_ASSETS \<and> nr_endpoint_id asset_record \<in> {''assets_list'', ''asset_detail''})) (\<lambda>_.
     bindO (require (nr_family exchange_record = EXCHANGE_OFFICIAL \<and> nr_endpoint_id exchange_record = ''exchange_notice'')) (\<lambda>_.
     (case (nr_available_at asset_record, nr_available_at exchange_record, nr_observation_at asset_record, nr_observation_at exchange_record) of
        (Some asset_available, Some exchange_available, Some asset_observed, Some exchange_observed) \<Rightarrow>
          bindO (require (\<not> (asset_available > known_at \<or> exchange_available > known_at))) (\<lambda>_.
          let asset_payload = nr_payload asset_record; exchange_payload = nr_payload exchange_record in
          bindO (require (set (map fst asset_payload) = {''id'', ''symbol'', ''exchange'', ''asset_class'', ''status'', ''tradable''})) (\<lambda>_.
          bindO (require (set (map fst exchange_payload)
                   = {''exchange'', ''title'', ''url'', ''symbol'', ''instrument_kind'', ''halted'', ''observed_at''})) (\<lambda>_.
          bindO (SecurityId (py_str (payload_get asset_payload ''id''))) (\<lambda>security_id.
          bindO (SecuritySymbol (py_str (payload_get asset_payload ''symbol''))) (\<lambda>symbol.
          bindO (ListingExchange (py_str (payload_get asset_payload ''exchange''))) (\<lambda>listing_exchange.
          bindO (AssetKind (py_str (payload_get exchange_payload ''instrument_kind''))) (\<lambda>kind.
          bindO (require (payload_get asset_payload ''asset_class'' = JStr ''us_equity'')) (\<lambda>_.
          let status = payload_get asset_payload ''status'' in
          bindO (demand TypeError (hashable status)) (\<lambda>_.
          bindO (require (status \<in> {JStr ''active'', JStr ''inactive''})) (\<lambda>_.
          (case (payload_get asset_payload ''tradable'', payload_get exchange_payload ''halted'') of
             (JBool tradable, JBool halted) \<Rightarrow>
               bindO (require (payload_get exchange_payload ''symbol'' = JStr symbol
                        \<and> payload_get exchange_payload ''exchange'' = JStr (listing_exchange_value listing_exchange))) (\<lambda>_.
               bindO (require (ir_security_id identity = security_id \<and> ir_symbol identity = symbol
                        \<and> ir_exchange identity = listing_exchange)) (\<lambda>_.
               bindO (SourceRef (nr_record_id asset_record) (nr_family asset_record) (nr_record_hash asset_record)) (\<lambda>asset_ref.
               bindO (require (asset_ref \<in> set (ir_source_refs identity))) (\<lambda>_.
               bindO (require (answers_as_of identity asset_observed known_at \<and> answers_as_of identity exchange_observed known_at)) (\<lambda>_.
               let active = (status = JStr ''active''); observed_at = min asset_observed exchange_observed in
               asset_observation_post_init
                 \<lparr>ao_security_id = security_id, ao_symbol = symbol, ao_kind = kind, ao_active = active, ao_tradable = tradable,
                  ao_exchange = listing_exchange, ao_observed_at = observed_at, ao_halted = Some halted,
                  ao_authority =
                    \<lparr>aa_fingerprint = (security_id, symbol, kind, active, tradable, listing_exchange, observed_at, Some halted),
                     aa_asset_record_hash = nr_record_hash asset_record, aa_exchange_record_hash = nr_record_hash exchange_record,
                     aa_identity_hash = ir_identity_hash identity\<rparr>\<rparr>)))))
           | _ \<Rightarrow> Inl ValueError)))))))))))
      | _ \<Rightarrow> Inl ValueError))))))"

section \<open>Views\<close>

definition QuarantineView :: "digest \<Rightarrow> quarantine_decision \<Rightarrow> quarantine_decision outcome" where
  "QuarantineView sha256 d = bindO (decision_verify_integrity sha256 d) (\<lambda>_. Inr d)"

definition MarketView :: "digest \<Rightarrow> market_snapshot \<Rightarrow> market_snapshot outcome" where
  "MarketView sha256 m = bindO (market_verify_integrity sha256 m) (\<lambda>_. Inr m)"

definition trading_history_sessions :: "market_snapshot \<Rightarrow> nat" where
  "trading_history_sessions m = length (sn_bar_dates m)"

definition freshness_ok :: "market_snapshot \<Rightarrow> bool" where
  "freshness_ok m \<longleftrightarrow> sn_freshness m = FRESH"

definition spread_ok :: "market_snapshot \<Rightarrow> bool" where
  "spread_ok m \<longleftrightarrow> SPREAD_TOO_WIDE \<notin> set (sn_reasons m)"

record identity_view =
  iv_record :: identity_record
  iv_identity_hash :: string
  iv_as_of :: utc
  iv_known_at :: utc

definition identity_view_post_init :: "digest \<Rightarrow> identity_view \<Rightarrow> identity_view outcome" where
  "identity_view_post_init sha256 v =
     bindO (identity_verify_integrity sha256 (iv_record v)) (\<lambda>_.
     bindO (require (iv_identity_hash v = ir_identity_hash (iv_record v))) (\<lambda>_. Inr v))"

abbreviation iv_security_id :: "identity_view \<Rightarrow> string" where "iv_security_id v \<equiv> ir_security_id (iv_record v)"
abbreviation iv_symbol :: "identity_view \<Rightarrow> string" where "iv_symbol v \<equiv> ir_symbol (iv_record v)"
abbreviation iv_master_version :: "identity_view \<Rightarrow> string" where "iv_master_version v \<equiv> master_version_for (iv_record v)"

definition iv_resolved :: "identity_view \<Rightarrow> bool" where
  "iv_resolved v \<longleftrightarrow> ir_status (iv_record v) = SECURITY_ACTIVE"

definition identity_view_from_records ::
  "digest \<Rightarrow> identity_record list \<Rightarrow> string \<Rightarrow> utc \<Rightarrow> utc \<Rightarrow> identity_view outcome" where
  "identity_view_from_records sha256 records security_id as_of known_at =
     bindO (identity_query_post_init \<lparr>iq_as_of = as_of, iq_known_at = known_at, iq_security_id = Some security_id, iq_symbol = None\<rparr>) (\<lambda>query.
     bindO (resolve_identity sha256 records query) (\<lambda>resolution.
     (case res_record resolution of
        None \<Rightarrow> Inl ValueError
      | Some r \<Rightarrow>
          bindO (require (res_status resolution = ID_RESOLVED)) (\<lambda>_.
          identity_view_post_init sha256
            \<lparr>iv_record = r, iv_identity_hash = ir_identity_hash r, iv_as_of = as_of, iv_known_at = known_at\<rparr>))))"

section \<open>One security\<close>

definition MAX_AUTHORITY_STALENESS :: int where "MAX_AUTHORITY_STALENESS = 7 * DAY_MICROSECONDS"

fun kind_reason :: "asset_kind \<Rightarrow> closed_reason option" where
  "kind_reason ORDINARY_COMMON_STOCK = None"
| "kind_reason OTC = Some OTC_OR_EXCLUDED_INSTRUMENT"
| "kind_reason ETF = Some UNSUPPORTED_ASSET_CLASS"
| "kind_reason _ = Some UNSUPPORTED_ASSET_CLASS"

definition entry_of ::
  "asset_observation \<Rightarrow> bool \<Rightarrow> closed_reason option \<Rightarrow> identity_view option \<Rightarrow> quarantine_decision option \<Rightarrow> market_snapshot option \<Rightarrow>
   universe_entry outcome" where
  "entry_of asset eligible reason identity quarantine market =
     (let bound_identity = (case identity of None \<Rightarrow> None
            | Some i \<Rightarrow> if iv_security_id i = ao_security_id asset \<and> iv_symbol i = ao_symbol asset then Some i else None);
          bound_market = (case market of None \<Rightarrow> None
            | Some m \<Rightarrow> if sn_security_id m = ao_security_id asset \<and> sn_symbol m = ao_symbol asset then Some m else None);
          bound_quarantine = (case (bound_identity, quarantine) of
              (Some i, Some q) \<Rightarrow>
                if qd_security_id q = ao_security_id asset \<and> qd_symbol_as_of q = ao_symbol asset
                   \<and> qd_master_version q = iv_master_version i then Some q else None
            | _ \<Rightarrow> None)
      in universe_entry_post_init
           \<lparr>ue_security_id = ao_security_id asset, ue_symbol = ao_symbol asset, ue_eligible = eligible, ue_reason = reason,
            ue_identity_hash = map_option (ir_identity_hash \<circ> iv_record) bound_identity,
            ue_master_version = map_option (\<lambda>i. iv_master_version i) bound_identity,
            ue_market_snapshot_hash = map_option sn_snapshot_hash bound_market,
            ue_whole_share_feasibility = NOT_EVALUATED,
            ue_quarantine_decision_hash = map_option qd_decision_hash bound_quarantine,
            ue_quarantine_event_ids = (case bound_quarantine of None \<Rightarrow> [] | Some q \<Rightarrow> qd_event_ids q)\<rparr>)"

text \<open>\<open>known_at - timedelta(days=7)\<close> raises before the eighth day of year 1.\<close>

definition staleness_limit :: "utc \<Rightarrow> utc outcome" where
  "staleness_limit known_at =
     bindO (demand OverflowError (MAX_AUTHORITY_STALENESS \<le> known_at)) (\<lambda>_. Inr (known_at - MAX_AUTHORITY_STALENESS))"

definition evaluate_entry ::
  "asset_observation \<Rightarrow> identity_view option \<Rightarrow> quarantine_decision option \<Rightarrow> market_snapshot option \<Rightarrow> utc \<Rightarrow> universe_entry outcome" where
  "evaluate_entry asset identity quarantine market known_at =
     (let exclude = (\<lambda>reason. entry_of asset False (Some reason) identity quarantine market) in
      case kind_reason (ao_kind asset) of
        Some reason \<Rightarrow> exclude reason
      | None \<Rightarrow>
          if \<not> ao_active asset \<or> \<not> ao_tradable asset then exclude NOT_ACTIVE_OR_TRADABLE
          else if ao_halted asset \<noteq> Some False then exclude NOT_ACTIVE_OR_TRADABLE
          else bindO (staleness_limit known_at) (\<lambda>oldest.
            if ao_observed_at asset < oldest then exclude NOT_ACTIVE_OR_TRADABLE
            else if (case identity of None \<Rightarrow> True
                     | Some i \<Rightarrow> \<not> iv_resolved i \<or> iv_symbol i \<noteq> ao_symbol asset \<or> ir_exchange (iv_record i) \<noteq> ao_exchange asset
                         \<or> aa_identity_hash (ao_authority asset) \<noteq> ir_identity_hash (iv_record i))
            then exclude IDENTITY_NOT_CLOSED
            else if (case (quarantine, identity) of
                       (Some q, Some i) \<Rightarrow> qd_security_id q \<noteq> ao_security_id asset \<or> qd_symbol_as_of q \<noteq> ao_symbol asset
                         \<or> qd_master_version q \<noteq> iv_master_version i \<or> qd_outcome q \<noteq> ENTRY_ELIGIBLE \<or> qd_decision_at q < oldest
                     | _ \<Rightarrow> True)
            then exclude CORPORATE_ACTION_QUARANTINE
            else case market of
              None \<Rightarrow> exclude QUOTE_MISSING_OR_STALE
            | Some m \<Rightarrow>
                if sn_symbol m \<noteq> ao_symbol asset then exclude MARKET_DATA_CONFLICT
                else if MARKET_DATA_CONFLICT \<in> set (sn_reasons m) then exclude MARKET_DATA_CONFLICT
                else if (case sn_last m of None \<Rightarrow> True | Some d \<Rightarrow> dec_value d < dec_value MIN_PRICE) then exclude PRICE_BELOW_MINIMUM
                else if (case sn_adv20_usd m of None \<Rightarrow> True | Some d \<Rightarrow> dec_value d < dec_value MIN_ADV20_USD) then exclude ADV_BELOW_MINIMUM
                else if trading_history_sessions m < MIN_TRADING_HISTORY_SESSIONS then exclude INSUFFICIENT_TRADING_HISTORY
                else if \<not> freshness_ok m then exclude QUOTE_MISSING_OR_STALE
                else if \<not> spread_ok m then exclude SPREAD_TOO_WIDE
                else entry_of asset True None identity quarantine market))"

section \<open>The builder\<close>

text \<open>The days of the month up to \<open>as_of\<close>: each has a record, and the earlier ones are closed.\<close>

definition require_first_open_session :: "pydate \<Rightarrow> market_session list \<Rightarrow> unit outcome" where
  "require_first_open_session as_of sessions =
     bindO (eachO (\<lambda>current.
       case session_by_date sessions (fromordinal current) of
         None \<Rightarrow> Inl ValueError
       | Some s \<Rightarrow> require (\<not> (current < toordinal as_of \<and> ms_day_kind s \<noteq> DAY_CLOSED)))
       [toordinal (as_of\<lparr>day := 1\<rparr>)..<Suc (toordinal as_of)]) (\<lambda>_.
     bindO (demand OverflowError (toordinal as_of < MAX_ORDINAL)) (\<lambda>_.
     (case session_by_date sessions as_of of
        None \<Rightarrow> Inl KeyError
      | Some s \<Rightarrow> require (ms_day_kind s = DAY_REGULAR \<or> ms_day_kind s = DAY_HALF))))"

definition check_identity_view :: "digest \<Rightarrow> pydate \<Rightarrow> utc \<Rightarrow> identity_view \<Rightarrow> unit outcome" where
  "check_identity_view sha256 as_of known_at i =
     bindO (identity_verify_integrity sha256 (iv_record i)) (\<lambda>_.
     bindO (require (iv_as_of i = midnight as_of \<and> iv_known_at i = known_at)) (\<lambda>_.
     require (\<not> (ir_status (iv_record i) = SECURITY_ACTIVE \<and> \<not> answers_as_of (iv_record i) (midnight as_of) known_at))))"

definition by_security :: "('a \<Rightarrow> string) \<Rightarrow> 'a list \<Rightarrow> string \<Rightarrow> 'a option" where
  "by_security key xs = map_of (map (\<lambda>x. (key x, x)) xs)"

definition check_quarantine :: "digest \<Rightarrow> utc \<Rightarrow> identity_view list \<Rightarrow> quarantine_decision \<Rightarrow> unit outcome" where
  "check_quarantine sha256 known_at identities q =
     bindO (decision_verify_integrity sha256 q) (\<lambda>_.
     bindO (require (\<not> qd_decision_at q > known_at)) (\<lambda>_.
     require (case by_security (\<lambda>i. iv_security_id i) identities (qd_security_id q) of
       None \<Rightarrow> True | Some i \<Rightarrow> qd_master_version q = iv_master_version i)))"

definition check_market :: "digest \<Rightarrow> pydate \<Rightarrow> utc \<Rightarrow> market_snapshot \<Rightarrow> unit outcome" where
  "check_market sha256 as_of known_at m =
     bindO (market_verify_integrity sha256 m) (\<lambda>_.
     bindO (require (utc_date (sn_as_of m) = as_of)) (\<lambda>_. require (\<not> sn_known_at m > known_at)))"

definition build_universe ::
  "digest \<Rightarrow> pydate \<Rightarrow> utc \<Rightarrow> string \<Rightarrow> asset_observation list \<Rightarrow> identity_view list \<Rightarrow> quarantine_decision list \<Rightarrow> market_snapshot list \<Rightarrow>
   market_session list \<Rightarrow> string \<Rightarrow> string \<Rightarrow> universe_snapshot outcome" where
  "build_universe sha256 as_of known_at master_version assets identities quarantines markets sessions policy_hash schema_version =
     bindO (require (distinct (map ms_trading_date sessions))) (\<lambda>_.
     bindO (require_first_open_session as_of sessions) (\<lambda>_.
     bindO (eachO require
       [known_in_month as_of known_at, master_version \<noteq> [], length policy_hash = 64, fullmatch HASH_TEXT policy_hash]) (\<lambda>_.
     bindO (eachO asset_verify_source_binding assets) (\<lambda>_.
     bindO (eachO require
       [list_all (\<lambda>a. \<not> ao_observed_at a > known_at) assets,
        distinct (map ao_security_id assets), distinct (map (\<lambda>i. iv_security_id i) identities),
        distinct (map qd_security_id quarantines), distinct (map sn_security_id markets),
        list_all (\<lambda>i. iv_security_id i \<in> ao_security_id ` set assets) identities,
        list_all (\<lambda>q. qd_security_id q \<in> ao_security_id ` set assets) quarantines,
        list_all (\<lambda>m. sn_security_id m \<in> ao_security_id ` set assets) markets]) (\<lambda>_.
     bindO (eachO (check_identity_view sha256 as_of known_at) identities) (\<lambda>_.
     bindO (eachO (check_quarantine sha256 known_at identities) quarantines) (\<lambda>_.
     bindO (eachO (check_market sha256 as_of known_at) markets) (\<lambda>_.
     bindO (mapO (\<lambda>asset. evaluate_entry asset
              (by_security (\<lambda>i. iv_security_id i) identities (ao_security_id asset))
              (by_security qd_security_id quarantines (ao_security_id asset))
              (by_security sn_security_id markets (ao_security_id asset)) known_at) assets) (\<lambda>entries.
     build_universe_snapshot sha256
       \<lparr>us_as_of = as_of, us_known_at = known_at, us_security_master_version = master_version,
        us_market_snapshot_refs = sort (remdups (map sn_snapshot_hash markets)),
        us_entries = sort_key ue_security_id entries, us_policy_hash = policy_hash, us_schema_version = schema_version,
        us_producer_version = UNIVERSE_PRODUCER_VERSION, us_universe_hash = []\<rparr>)))))))))"

end
