(* ===== verification/Universe_Gates.thy ===== *)
theory Universe_Gates
  imports Universe_Builder
begin

text \<open>
  What the builder of the universe guarantees: one entry per asset in the order of the security
  ids, admitted exactly when every hard filter is passed, whatever the order of the inputs.
\<close>

section \<open>One entry\<close>

lemma entry_of_fields:
  assumes "entry_of a el r i q m = Inr e"
  shows "ue_security_id e = ao_security_id a" "ue_symbol e = ao_symbol a" "ue_eligible e = el" "ue_reason e = r"
    "universe_entry_post_init e = Inr e"
proof -
  have "universe_entry_post_init x = Inr e \<Longrightarrow> x = e" for x by (auto simp: universe_entry_post_init_def bindO_eq_Inr)
  then show "ue_security_id e = ao_security_id a" "ue_symbol e = ao_symbol a" "ue_eligible e = el" "ue_reason e = r"
    "universe_entry_post_init e = Inr e"
    using assms unfolding entry_of_def Let_def by fastforce+
qed

text \<open>The hard filters as one statement over the four authorities of a security.\<close>

definition cleared :: "asset_observation \<Rightarrow> identity_view \<Rightarrow> quarantine_decision \<Rightarrow> market_snapshot \<Rightarrow> utc \<Rightarrow> bool" where
  "cleared a i q m known_at \<longleftrightarrow>
     ao_kind a = ORDINARY_COMMON_STOCK \<and> ao_active a \<and> ao_tradable a \<and> ao_halted a = Some False
     \<and> known_at - 7 * DAY_MICROSECONDS \<le> ao_observed_at a
     \<and> ir_status (iv_record i) = SECURITY_ACTIVE \<and> iv_symbol i = ao_symbol a \<and> ir_exchange (iv_record i) = ao_exchange a
     \<and> ir_identity_hash (iv_record i) = aa_identity_hash (ao_authority a)
     \<and> qd_security_id q = ao_security_id a \<and> qd_symbol_as_of q = ao_symbol a \<and> qd_master_version q = iv_master_version i
     \<and> qd_outcome q = ENTRY_ELIGIBLE \<and> known_at - 7 * DAY_MICROSECONDS \<le> qd_decision_at q
     \<and> sn_symbol m = ao_symbol a \<and> MARKET_DATA_CONFLICT \<notin> set (sn_reasons m) \<and> SPREAD_TOO_WIDE \<notin> set (sn_reasons m)
     \<and> sn_freshness m = FRESH \<and> 252 \<le> length (sn_bar_dates m)
     \<and> (\<exists>p. sn_last m = Some p \<and> 5 \<le> dec_value p) \<and> (\<exists>v. sn_adv20_usd m = Some v \<and> 20000000 \<le> dec_value v)"

lemma gate_values: "dec_value MIN_PRICE = 5" "dec_value MIN_ADV20_USD = 20000000" "MIN_TRADING_HISTORY_SESSIONS = 252"
  by (simp_all add: MIN_PRICE_def MIN_ADV20_USD_def MIN_TRADING_HISTORY_SESSIONS_def)

lemma kind_reason_None: "kind_reason k = None \<longleftrightarrow> k = ORDINARY_COMMON_STOCK"
  by (cases k) auto

lemma staleness_limit_iff: "staleness_limit k = Inr t \<longleftrightarrow> 7 * DAY_MICROSECONDS \<le> k \<and> t = k - 7 * DAY_MICROSECONDS"
  by (auto simp: staleness_limit_def MAX_AUTHORITY_STALENESS_def bindO_eq_Inr)

lemmas gate_simps = gate_values kind_reason_None staleness_limit_iff bindO_eq_Inr freshness_ok_def spread_ok_def
  trading_history_sessions_def iv_resolved_def not_less not_le

lemma evaluate_entry_eligible:
  assumes "evaluate_entry a i q m k = Inr e"
  shows "ue_eligible e \<longleftrightarrow> (\<exists>i' q' m'. i = Some i' \<and> q = Some q' \<and> m = Some m' \<and> cleared a i' q' m' k)"
proof (cases "i = None \<or> q = None \<or> m = None")
  case True
  with assms show ?thesis
    by (auto simp: evaluate_entry_def Let_def gate_simps dest: entry_of_fields(3) split: option.splits if_splits)
next
  case False
  then obtain i' q' m' where imq: "i = Some i'" "q = Some q'" "m = Some m'" by auto
  have "ue_eligible e \<longleftrightarrow> cleared a i' q' m' k"
  proof
    assume "ue_eligible e"
    with assms show "cleared a i' q' m' k"
      unfolding imq evaluate_entry_def Let_def cleared_def
      by (auto simp: gate_simps dest: entry_of_fields(3) split: option.splits if_splits)
  next
    assume "cleared a i' q' m' k"
    then show "ue_eligible e" using assms
      unfolding imq evaluate_entry_def Let_def cleared_def
      by (auto simp: gate_simps dest: entry_of_fields(3) split: option.splits if_splits)
  qed
  then show ?thesis using imq by auto
qed

lemma evaluate_entry_fields:
  assumes "evaluate_entry a i q m k = Inr e"
  shows "ue_security_id e = ao_security_id a" "ue_symbol e = ao_symbol a" "ue_eligible e \<longleftrightarrow> ue_reason e = None"
    "universe_entry_post_init e = Inr e"
proof -
  have "\<exists>el r. entry_of a el r i q m = Inr e"
    using assms unfolding evaluate_entry_def Let_def by (auto simp: bindO_eq_Inr split: option.splits if_splits)
  then obtain el r where e: "entry_of a el r i q m = Inr e" by blast
  show "ue_security_id e = ao_security_id a" "ue_symbol e = ao_symbol a" "universe_entry_post_init e = Inr e"
    using entry_of_fields [OF e] by simp_all
  then show "ue_eligible e \<longleftrightarrow> ue_reason e = None" by (auto simp: universe_entry_post_init_def bindO_eq_Inr)
qed

section \<open>The whole universe\<close>

abbreviation entry_for ::
  "identity_view list \<Rightarrow> quarantine_decision list \<Rightarrow> market_snapshot list \<Rightarrow> utc \<Rightarrow> asset_observation \<Rightarrow> universe_entry outcome" where
  "entry_for identities quarantines markets known_at asset \<equiv>
     evaluate_entry asset (by_security (\<lambda>i. iv_security_id i) identities (ao_security_id asset))
       (by_security qd_security_id quarantines (ao_security_id asset))
       (by_security sn_security_id markets (ao_security_id asset)) known_at"

text \<open>The checks of the inputs that do not depend on the digest, as one statement.\<close>

definition inputs_agree ::
  "pydate \<Rightarrow> utc \<Rightarrow> string \<Rightarrow> asset_observation list \<Rightarrow> identity_view list \<Rightarrow> quarantine_decision list \<Rightarrow> market_snapshot list \<Rightarrow> string \<Rightarrow> bool" where
  "inputs_agree as_of known_at master_version assets identities quarantines markets policy_hash \<longleftrightarrow>
     known_in_month as_of known_at \<and> master_version \<noteq> [] \<and> length policy_hash = 64 \<and> fullmatch HASH_TEXT policy_hash
     \<and> (\<forall>a\<in>set assets. ao_observed_at a \<le> known_at)
     \<and> distinct (map ao_security_id assets) \<and> distinct (map (\<lambda>i. iv_security_id i) identities)
     \<and> distinct (map qd_security_id quarantines) \<and> distinct (map sn_security_id markets)
     \<and> (\<lambda>i. iv_security_id i) ` set identities \<subseteq> ao_security_id ` set assets
     \<and> qd_security_id ` set quarantines \<subseteq> ao_security_id ` set assets
     \<and> sn_security_id ` set markets \<subseteq> ao_security_id ` set assets"

definition snapshot_of :: "pydate \<Rightarrow> utc \<Rightarrow> string \<Rightarrow> market_snapshot list \<Rightarrow> universe_entry list \<Rightarrow> string \<Rightarrow> string \<Rightarrow> universe_snapshot" where
  "snapshot_of as_of known_at master_version markets entries policy_hash schema_version =
     \<lparr>us_as_of = as_of, us_known_at = known_at, us_security_master_version = master_version,
      us_market_snapshot_refs = sort (remdups (map sn_snapshot_hash markets)),
      us_entries = sort_key ue_security_id entries, us_policy_hash = policy_hash, us_schema_version = schema_version,
      us_producer_version = UNIVERSE_PRODUCER_VERSION, us_universe_hash = []\<rparr>"

lemma build_universe_iff:
  "build_universe sha as_of k mv assets identities quarantines markets sessions ph sv = Inr u \<longleftrightarrow>
     distinct (map ms_trading_date sessions) \<and> require_first_open_session as_of sessions = Inr ()
     \<and> inputs_agree as_of k mv assets identities quarantines markets ph
     \<and> (\<forall>a\<in>set assets. asset_verify_source_binding a = Inr ())
     \<and> (\<forall>i\<in>set identities. check_identity_view sha as_of k i = Inr ())
     \<and> (\<forall>q\<in>set quarantines. check_quarantine sha k identities q = Inr ())
     \<and> (\<forall>m\<in>set markets. check_market sha as_of k m = Inr ())
     \<and> (\<exists>entries. mapO (entry_for identities quarantines markets k) assets = Inr entries
          \<and> build_universe_snapshot sha (snapshot_of as_of k mv markets entries ph sv) = Inr u)"
  unfolding build_universe_def inputs_agree_def snapshot_of_def bindO_eq_Inr eachO_eq_Inr list_all_iff
  by (auto simp: not_less)

lemma sort_key_map: "map f (sort_key f xs) = sort (map f xs)"
  by (metis mset_map mset_sort properties_for_sort sorted_sort_key)

lemma by_security_iff:
  assumes "distinct (map key xs)"
  shows "by_security key xs sid = Some x \<longleftrightarrow> x \<in> set xs \<and> key x = sid"
proof -
  have "distinct (map fst (map (\<lambda>x. (key x, x)) xs))" using assms by (simp add: comp_def)
  then show ?thesis unfolding by_security_def by (subst map_of_eq_Some_iff) auto
qed

lemma by_security_mset:
  assumes "mset xs = mset ys" "distinct (map key xs)"
  shows "by_security key xs = by_security key ys"
proof
  fix sid
  have "distinct (map key ys)" using assms by (metis mset_map mset_eq_imp_distinct_iff)
  moreover have "set xs = set ys" using assms(1) by (rule mset_eq_setD)
  ultimately show "by_security key xs sid = by_security key ys sid"
    using by_security_iff assms(2) by (metis (no_types, lifting) option.exhaust)
qed

text \<open>An asset is admitted when authorities of its security clear it.\<close>

definition admitted ::
  "identity_view list \<Rightarrow> quarantine_decision list \<Rightarrow> market_snapshot list \<Rightarrow> utc \<Rightarrow> asset_observation \<Rightarrow> bool" where
  "admitted identities quarantines markets known_at a \<longleftrightarrow>
     (\<exists>i\<in>set identities. \<exists>q\<in>set quarantines. \<exists>m\<in>set markets.
        iv_security_id i = ao_security_id a \<and> sn_security_id m = ao_security_id a \<and> cleared a i q m known_at)"

lemma entry_for_admitted:
  assumes "inputs_agree as_of k mv assets identities quarantines markets ph" "entry_for identities quarantines markets k a = Inr e"
  shows "ue_eligible e \<longleftrightarrow> admitted identities quarantines markets k a"
proof -
  have "distinct (map (\<lambda>i. iv_security_id i) identities)" "distinct (map qd_security_id quarantines)" "distinct (map sn_security_id markets)"
    using assms(1) by (auto simp: inputs_agree_def)
  then show ?thesis
    unfolding evaluate_entry_eligible [OF assms(2)] by (auto simp: by_security_iff admitted_def cleared_def)
qed

lemma built_entries:
  assumes "build_universe sha as_of k mv assets identities quarantines markets sessions ph sv = Inr u"
  obtains entries where "list_all2 (\<lambda>a e. entry_for identities quarantines markets k a = Inr e) assets entries"
    "us_entries u = sort_key ue_security_id entries" "inputs_agree as_of k mv assets identities quarantines markets ph"
proof -
  obtain entries where m: "mapO (entry_for identities quarantines markets k) assets = Inr entries"
    and b: "build_universe_snapshot sha (snapshot_of as_of k mv markets entries ph sv) = Inr u"
    and "inputs_agree as_of k mv assets identities quarantines markets ph"
    using assms unfolding build_universe_iff by blast
  moreover have "us_entries u = sort_key ue_security_id entries" using built_universe [OF b] by (auto simp: snapshot_of_def)
  ultimately show thesis using that by (simp add: mapO_iff)
qed

lemma entries_ids: "mapO (entry_for identities quarantines markets k) assets = Inr entries \<Longrightarrow> map ue_security_id entries = map ao_security_id assets"
  unfolding mapO_iff by (induction rule: list_all2_induct) (auto dest: evaluate_entry_fields(1))

lemma built_order:
  assumes "build_universe sha as_of k mv assets identities quarantines markets sessions ph sv = Inr u"
  shows "map ue_security_id (us_entries u) = sort (map ao_security_id assets)"
proof -
  from assms obtain entries where e: "list_all2 (\<lambda>a e. entry_for identities quarantines markets k a = Inr e) assets entries"
    "us_entries u = sort_key ue_security_id entries" by (rule built_entries)
  have "map ue_security_id entries = map ao_security_id assets"
    using e(1) by (intro entries_ids) (simp add: mapO_iff)
  then show ?thesis using e(2) by (simp add: sort_key_map)
qed

lemma built_entry:
  assumes "build_universe sha as_of k mv assets identities quarantines markets sessions ph sv = Inr u" "e \<in> set (us_entries u)"
  obtains a where "a \<in> set assets" "entry_for identities quarantines markets k a = Inr e"
    "inputs_agree as_of k mv assets identities quarantines markets ph"
proof -
  from assms(1) obtain entries where e: "list_all2 (\<lambda>a e. entry_for identities quarantines markets k a = Inr e) assets entries"
    "us_entries u = sort_key ue_security_id entries" "inputs_agree as_of k mv assets identities quarantines markets ph" by (rule built_entries)
  then have "e \<in> set entries" using assms(2) by simp
  then obtain n where "n < length entries" "e = entries ! n" by (auto simp: in_set_conv_nth)
  then show thesis using that [of "assets ! n"] e by (auto simp: list_all2_conv_all_nth)
qed

section \<open>Order of the inputs\<close>

lemma sort_key_mset_unique:
  assumes "mset xs = mset ys" "distinct (map f xs)"
  shows "sort_key f xs = sort_key f ys"
  using assms by (intro sort_key_inj_key_eq) (simp_all add: distinct_map)

lemma mapO_projr: "mapO f xs = Inr ys \<longleftrightarrow> (\<forall>x\<in>set xs. \<exists>y. f x = Inr y) \<and> ys = map (projr \<circ> f) xs"
  by (induction xs arbitrary: ys) (auto simp: bindO_eq_Inr)

lemma inputs_agree_mset:
  assumes "mset assets = mset assets'" "mset identities = mset identities'" "mset quarantines = mset quarantines'"
    "mset markets = mset markets'" "inputs_agree as_of k mv assets identities quarantines markets ph"
  shows "inputs_agree as_of k mv assets' identities' quarantines' markets' ph"
proof -
  have sets: "set assets' = set assets" "set identities' = set identities" "set quarantines' = set quarantines" "set markets' = set markets"
    using assms(1-4) by (metis mset_eq_setD)+
  have dist: "distinct (map f ys) = distinct (map f xs)" if "mset xs = mset ys" for f :: "'x \<Rightarrow> string" and xs ys
    using that by (metis mset_map mset_eq_imp_distinct_iff)
  show ?thesis
    using assms(5) unfolding inputs_agree_def sets
    using dist [OF assms(1), of ao_security_id] dist [OF assms(2), of "\<lambda>i. iv_security_id i"] dist [OF assms(3), of qd_security_id]
      dist [OF assms(4), of sn_security_id] by simp
qed

lemma build_universe_mset:
  assumes "mset assets = mset assets'" "mset identities = mset identities'" "mset quarantines = mset quarantines'"
    "mset markets = mset markets'" "mset sessions = mset sessions'"
    and "build_universe sha as_of k mv assets identities quarantines markets sessions ph sv = Inr u"
  shows "build_universe sha as_of k mv assets' identities' quarantines' markets' sessions' ph sv = Inr u"
proof -
  from assms(6) obtain entries where m: "mapO (entry_for identities quarantines markets k) assets = Inr entries"
    and b: "build_universe_snapshot sha (snapshot_of as_of k mv markets entries ph sv) = Inr u"
    and agree: "inputs_agree as_of k mv assets identities quarantines markets ph"
    and rest: "distinct (map ms_trading_date sessions)" "require_first_open_session as_of sessions = Inr ()"
      "\<forall>a\<in>set assets. asset_verify_source_binding a = Inr ()" "\<forall>i\<in>set identities. check_identity_view sha as_of k i = Inr ()"
      "\<forall>q\<in>set quarantines. check_quarantine sha k identities q = Inr ()" "\<forall>m\<in>set markets. check_market sha as_of k m = Inr ()"
    unfolding build_universe_iff by blast
  have sets: "set assets' = set assets" "set identities' = set identities" "set quarantines' = set quarantines" "set markets' = set markets"
    using assms(1-4) by (metis mset_eq_setD)+
  have dist: "distinct (map ao_security_id assets)" "distinct (map (\<lambda>i. iv_security_id i) identities)"
    "distinct (map qd_security_id quarantines)" "distinct (map sn_security_id markets)"
    using agree by (simp_all add: inputs_agree_def)
  have ids: "by_security (\<lambda>i. iv_security_id i) identities' = by_security (\<lambda>i. iv_security_id i) identities"
    and qs: "by_security qd_security_id quarantines' = by_security qd_security_id quarantines"
    and ms: "by_security sn_security_id markets' = by_security sn_security_id markets"
    by (rule by_security_mset [symmetric], use assms(2-4) dist in simp_all)+
  let ?entries = "map (projr \<circ> entry_for identities quarantines markets k) assets'"
  have new: "mapO (entry_for identities' quarantines' markets' k) assets' = Inr ?entries"
    using m unfolding ids qs ms mapO_projr sets by blast
  have "distinct (map ue_security_id entries)"
    using entries_ids [OF m] dist(1) by simp
  moreover have "mset entries = mset ?entries" using m assms(1) unfolding mapO_projr by simp
  ultimately have "sort_key ue_security_id ?entries = sort_key ue_security_id entries" by (intro sort_key_mset_unique [symmetric])
  moreover have "sort (remdups (map sn_snapshot_hash markets')) = sort (remdups (map sn_snapshot_hash markets))"
    using sets(4) by (intro sorted_distinct_set_unique) auto
  ultimately have "snapshot_of as_of k mv markets' ?entries ph sv = snapshot_of as_of k mv markets entries ph sv"
    by (simp add: snapshot_of_def)
  moreover have "session_by_date sessions' = session_by_date sessions" using session_by_date_mset assms(5) rest(1) by metis
  then have "require_first_open_session as_of sessions' = Inr ()" using rest(2) by (simp add: require_first_open_session_def)
  moreover have "distinct (map ms_trading_date sessions')" using rest(1) assms(5) by (metis mset_map mset_eq_imp_distinct_iff)
  moreover have "\<forall>q\<in>set quarantines'. check_quarantine sha k identities' q = Inr ()" using rest(5) by (simp add: check_quarantine_def ids sets)
  ultimately show ?thesis
    unfolding build_universe_iff
    by (intro conjI exI [of _ ?entries]) (use new b inputs_agree_mset [OF assms(1-4) agree] rest(3,4,6) sets in simp_all)
qed

end
