(* ===== verification/Universe_Demo.thy ===== *)
theory Universe_Demo
  imports Universe_Gates Market_Demo
begin

text \<open>
  The concrete universe of the witnesses: the security of the concrete market and the concrete
  security master, with every authority in place, on the first open session of its month.
\<close>

abbreviation demo_time :: utc where "demo_time \<equiv> 31676402000000"

definition demo_day :: pydate where
  "demo_day = \<lparr>year = 2, month = 1, day = 2\<rparr>"

definition demo_asset :: asset_observation where
  "demo_asset =
     \<lparr>ao_security_id = ''aaaaaaaa'', ao_symbol = ''ABC'', ao_kind = ORDINARY_COMMON_STOCK, ao_active = True, ao_tradable = True,
      ao_exchange = NASDAQ, ao_observed_at = demo_time, ao_halted = Some False,
      ao_authority = \<lparr>aa_fingerprint = (''aaaaaaaa'', ''ABC'', ORDINARY_COMMON_STOCK, True, True, NASDAQ, demo_time, Some False),
        aa_asset_record_hash = replicate 64 (CHR ''a''), aa_exchange_record_hash = replicate 64 (CHR ''b''), aa_identity_hash = demo_hash\<rparr>\<rparr>"

definition demo_view :: identity_view where
  "demo_view = \<lparr>iv_record = demo_identity, iv_identity_hash = demo_hash, iv_as_of = midnight demo_day, iv_known_at = demo_time\<rparr>"

abbreviation demo_cleared :: quarantine_decision where
  "demo_cleared \<equiv> demo_decision demo_time ENTRY_ELIGIBLE [] []"

definition demo_entry :: universe_entry where
  "demo_entry =
     \<lparr>ue_security_id = ''aaaaaaaa'', ue_symbol = ''ABC'', ue_eligible = True, ue_reason = None,
      ue_identity_hash = Some demo_hash, ue_master_version = Some (master_version_for demo_identity),
      ue_market_snapshot_hash = Some (sn_snapshot_hash demo_snapshot), ue_whole_share_feasibility = NOT_EVALUATED,
      ue_quarantine_decision_hash = Some (qd_decision_hash demo_cleared), ue_quarantine_event_ids = []\<rparr>"

abbreviation demo_policy :: string where "demo_policy \<equiv> replicate 64 (CHR ''a'')"

definition demo_universe_body :: universe_snapshot where
  "demo_universe_body = snapshot_of demo_day demo_time (master_version_for demo_identity) [demo_snapshot] [demo_entry] demo_policy ''1.0.0''"

definition demo_universe :: universe_snapshot where
  "demo_universe = demo_universe_body\<lparr>us_universe_hash := demo_sha (UNIVERSE_HASH_DOMAIN @ dumps (universe_wire_body demo_universe_body))\<rparr>"

section \<open>The day\<close>

lemma demo_day_date: "fromordinal 367 = demo_day" "toordinal demo_day = 367" "toordinal (demo_day\<lparr>day := 1\<rparr>) = 366" "utc_date demo_time = demo_day"
proof -
  show d: "fromordinal 367 = demo_day" unfolding demo_day_def by code_simp
  show "toordinal demo_day = 367" "toordinal (demo_day\<lparr>day := 1\<rparr>) = 366" unfolding demo_day_def by code_simp+
  show "utc_date demo_time = demo_day" using demo_now(1) d by simp
qed

lemma demo_first_open: "require_first_open_session demo_day demo_sessions = Inr ()"
proof -
  have days: "[366..<Suc 367] = [366, 367]" by (simp add: upt_rec)
  have "session_by_date demo_sessions (fromordinal 366) = Some (demo_session 366)" "session_by_date demo_sessions demo_day = Some (demo_session 367)"
    using demo_by_date [of 366] demo_by_date [of 367] demo_days by (simp_all add: demo_day_date)
  then show ?thesis
    unfolding require_first_open_session_def demo_day_date days by (simp add: demo_day_date demo_session_def MAX_ORDINAL_def demand_def)
qed

section \<open>The entry\<close>

lemma demo_hashes:
  "fullmatch HASH_TEXT (sn_snapshot_hash demo_snapshot)" "fullmatch HASH_TEXT (qd_decision_hash demo_cleared)" "fullmatch HASH_TEXT demo_policy"
  "fullmatch HASH_TEXT (us_universe_hash demo_universe)"
proof -
  show "fullmatch HASH_TEXT demo_policy" by code_simp
qed (simp_all add: demo_snapshot_def demo_decision_def decision_compute_hash_def demo_universe_def Let_def)

lemma demo_bounded_version: "bounded_master_version (master_version_for demo_identity)"
proof -
  have "master_version_for demo_identity = ''p4b.securities.v1:'' @ demo_hash"
    by (simp add: master_version_for_def SECURITIES_PRODUCER_VERSION_def)
  then have "fullmatch MASTER_VERSION (master_version_for demo_identity)"
    using demo_identity_hash unfolding fullmatch_iff MASTER_VERSION_def lang.simps by auto
  then show ?thesis using demo_master_version by (simp add: bounded_master_version_def MAX_MASTER_VERSION_LENGTH_def)
qed

lemma demo_entry_ok: "universe_entry_post_init demo_entry = Inr demo_entry"
  using demo_hashes demo_identity_hash demo_bounded_version
  by (simp add: universe_entry_post_init_def demo_entry_def optional_matches_def)

lemma demo_evaluated: "evaluate_entry demo_asset (Some demo_view) (Some demo_cleared) (Some demo_snapshot) demo_time = Inr demo_entry"
proof -
  have i: "ir_status demo_identity = SECURITY_ACTIVE" "ir_exchange demo_identity = NASDAQ" by (simp_all add: demo_identity_def Let_def)
  have q: "qd_symbol_as_of demo_cleared = ''ABC''" "qd_master_version demo_cleared = master_version_for demo_identity" "qd_event_ids demo_cleared = []"
    by (simp_all add: demo_decision_def Let_def)
  have m: "sn_security_id demo_snapshot = ''aaaaaaaa''" "sn_symbol demo_snapshot = ''ABC''" "sn_reasons demo_snapshot = []" "sn_freshness demo_snapshot = FRESH"
    "sn_last demo_snapshot = Some (Dec 10001 (-2))" "sn_adv20_usd demo_snapshot = Some (Dec 10000000000 (-2))" "length (sn_bar_dates demo_snapshot) = 261"
    by (simp_all add: demo_snapshot_def demo_body_def demo_dates_sorted)
  have limit: "staleness_limit demo_time = Inr (demo_time - 7 * DAY_MICROSECONDS)" by (simp add: staleness_limit_iff DAY_MICROSECONDS_def)
  have "entry_of demo_asset True None (Some demo_view) (Some demo_cleared) (Some demo_snapshot) = universe_entry_post_init demo_entry"
    by (simp add: entry_of_def demo_asset_def demo_view_def q m demo_entry_def)
  then show ?thesis
    unfolding evaluate_entry_def limit using demo_entry_ok
    by (simp add: demo_asset_def demo_view_def i q m gate_values freshness_ok_def spread_ok_def trading_history_sessions_def iv_resolved_def
        DAY_MICROSECONDS_def)
qed

section \<open>The universe\<close>

lemma demo_universe_size: "length (dumps (universe_wire_body demo_universe_body)) \<le> 16777216"
proof -
  have utc: "length (dumps (JStr (utc_str demo_time))) \<le> 600" using utc_str_length [OF demo_times(1)] by (intro dumps_text) simp
  have date: "length (isoformat demo_day) = 10" using isoformat_length [of demo_day] by (simp add: demo_day_def valid_date_def days_in_month_def)
  have short: "length (dumps (JStr s)) \<le> 600" if "length s \<le> 90" for s using that by (intro dumps_text) simp
  note hash = demo_hashes [THEN hash_length] demo_identity_hash [THEN hash_length] demo_master_version
  have empty: "length (dumps (JList [])) \<le> 600" by simp
  have entry: "length (dumps (entry_wire demo_entry)) \<le> 2 + 10 * (6 * 24 + 4 + 600)"
    unfolding entry_wire_def demo_entry_def
    by (rule dumps_object) (use hash empty in \<open>auto intro!: short simp: optional_text_def simp del: dumps.simps(4,6,7)\<close>)
  then have entries: "length (dumps (JList [entry_wire demo_entry])) \<le> 1 * (7482 + 1) + 2" by (intro dumps_list) simp_all
  have refs: "length (dumps (JList [JStr (sn_snapshot_hash demo_snapshot)])) \<le> 1 * (600 + 1) + 2"
    using hash by (intro dumps_list) (auto intro!: short simp del: dumps.simps)
  have "length (dumps (universe_wire_body demo_universe_body)) \<le> 2 + 8 * (6 * 24 + 4 + 8000)"
    unfolding universe_wire_body_def demo_universe_body_def snapshot_of_def
    by (rule dumps_object)
      (use hash date utc entries refs short [of "isoformat demo_day"] short [of "master_version_for demo_identity"] short [of demo_policy]
         short [of "''1.0.0''"] short [of UNIVERSE_PRODUCER_VERSION]
       in \<open>auto simp: UNIVERSE_PRODUCER_VERSION_def simp del: dumps.simps intro: order_trans\<close>)
  then show ?thesis by simp
qed

lemma demo_universe_built: "build_universe_snapshot demo_sha demo_universe_body = Inr demo_universe"
proof -
  have hash: "universe_compute_hash demo_sha demo_universe_body = Inr (us_universe_hash demo_universe)"
    using demo_universe_size
    by (simp add: universe_compute_hash_def universe_wire_def canonical_universe_wire_bytes_def demo_universe_def MAX_UNIVERSE_SNAPSHOT_BYTES_def Let_def
        del: dumps.simps)
  have u: "demo_universe_body\<lparr>us_universe_hash := us_universe_hash demo_universe\<rparr> = demo_universe" by (simp add: demo_universe_def)
  have "known_in_month demo_day demo_time" unfolding known_in_month_def demo_day_date by (simp add: date_less_def)
  moreover have "universe_verify_integrity demo_sha demo_universe = Inr ()"
    using universe_seal.sealed_verifies [OF hash] unfolding u .
  ultimately have "universe_snapshot_post_init demo_sha demo_universe = Inr demo_universe"
    unfolding universe_snapshot_post_init_def using demo_hashes demo_bounded_version
    by (simp add: demo_universe_def demo_universe_body_def snapshot_of_def MAX_UNIVERSE_SNAPSHOT_ITEMS_def)
  then show ?thesis
    unfolding build_universe_snapshot_def derive_universe_hash_def by (simp add: hash u)
qed

lemma demo_universe_run:
  "build_universe demo_sha demo_day demo_time (master_version_for demo_identity) [demo_asset] [demo_view] [demo_cleared] [demo_snapshot]
     demo_sessions demo_policy ''1.0.0'' = Inr demo_universe"
proof -
  have sessions: "distinct (map ms_trading_date demo_sessions)" using weekdays_dates(2) [of 368] by (simp only: session_dates)
  have agree: "inputs_agree demo_day demo_time (master_version_for demo_identity) [demo_asset] [demo_view] [demo_cleared] [demo_snapshot] demo_policy"
    using demo_master_version demo_hashes(3)
    by (auto simp: inputs_agree_def known_in_month_def demo_day_date date_less_def demo_asset_def demo_view_def demo_snapshot_def demo_body_def)
  have view: "check_identity_view demo_sha demo_day demo_time demo_view = Inr ()"
  proof -
    have "0 \<le> midnight demo_day" unfolding midnight_def demo_day_date by (simp add: DAY_MICROSECONDS_def)
    then show ?thesis
      by (simp add: check_identity_view_def demo_view_def answers_as_of_def identity_known_at_def identity_valid_at_def interval_contains_def interval_of_def)
  qed
  have quarantine: "check_quarantine demo_sha demo_time [demo_view] demo_cleared = Inr ()"
    by (simp add: check_quarantine_def by_security_def demo_view_def) (simp add: demo_decision_def Let_def)
  have market: "check_market demo_sha demo_day demo_time demo_snapshot = Inr ()"
  proof -
    have "market_verify_integrity demo_sha demo_snapshot = Inr ()"
      using market_seal.sealed_verifies [OF demo_wire_hash [of "[]"]] by (simp add: demo_snapshot_def)
    then show ?thesis by (simp add: check_market_def) (simp add: demo_snapshot_def demo_body_def demo_day_date)
  qed
  have "entry_for [demo_view] [demo_cleared] [demo_snapshot] demo_time demo_asset = Inr demo_entry"
    using demo_evaluated by (simp add: by_security_def demo_asset_def demo_view_def demo_snapshot_def demo_body_def)
  then have "mapO (entry_for [demo_view] [demo_cleared] [demo_snapshot] demo_time) [demo_asset] = Inr [demo_entry]" by simp
  moreover have "asset_verify_source_binding demo_asset = Inr ()"
    by (simp add: asset_verify_source_binding_def demo_asset_def asset_observation_fingerprint_def)
  ultimately show ?thesis
    unfolding build_universe_iff
    using sessions demo_first_open agree view quarantine market demo_universe_built [unfolded demo_universe_body_def]
    by (intro conjI exI [of _ "[demo_entry]"]) simp_all
qed

end
