(* ===== verification/Security_Properties.thy ===== *)
theory Security_Properties
  imports Security_Demo
begin

text \<open>
  What the security master and its service guarantee over every history of source records
  and operations.
\<close>

section \<open>The store\<close>

text \<open>
  C35. Whatever operations were run, every stored identity, split row and decision is a value
  its constructor accepts, filed under the hash of its own content; every split row names a
  stored identity of its security; and two validity intervals of one security either are the
  same or share no instant.
\<close>

theorem security_master_is_well_typed:
  assumes "security_history sha (empty_log, empty_master) (log, s)"
  shows "list_all (\<lambda>(h, r). h = identity_compute_hash sha r \<and> identity_post_init sha r = Inr r) (sm_identity_by_hash s)
    \<and> list_all (\<lambda>(h, e). h = action_compute_hash sha e \<and> action_post_init sha e = Inr e
        \<and> (\<exists>r. map_of (sm_identity_by_hash s) (ca_security_identity_hash e) = Some r \<and> ir_security_id r = ca_security_id e)) (sm_event_by_hash s)
    \<and> list_all (\<lambda>(h, d). h = decision_compute_hash sha d \<and> decision_post_init sha d = Inr d) (sm_decision_by_hash s)
    \<and> (\<forall>(_, a)\<in>set (sm_identity_by_hash s). \<forall>(_, b)\<in>set (sm_identity_by_hash s). ir_security_id a = ir_security_id b \<longrightarrow>
        interval_of a = interval_of b \<or> (\<nexists>t. identity_valid_at a t \<and> identity_valid_at b t))"
proof -
  have ok: "identities_ok sha s" "events_ok sha s" "decisions_ok sha s" using reachable_ok [OF assms] by (simp_all add: master_ok_def)
  have disj: "interval_of a = interval_of b \<or> (\<nexists>t. identity_valid_at a t \<and> identity_valid_at b t)"
    if "a \<in> set (identities s)" "b \<in> set (identities s)" "ir_security_id a = ir_security_id b" for a b
  proof (cases "interval_key a = interval_key b")
    case True
    then show ?thesis using interval_key_iff identities_stored(1) [OF ok(1)] that by blast
  next
    case False
    then have "\<not> intervals_overlap (interval_of a) (interval_of b)"
      using ok(1) that by (auto simp: identities_ok_def disjoint_intervals_def)
    then show ?thesis
      using overlap_iff stored_interval_ok identities_stored(1) [OF ok(1)] that unfolding identity_valid_at_def by blast
  qed
  have intervals: "\<forall>(_, a)\<in>set (sm_identity_by_hash s). \<forall>(_, b)\<in>set (sm_identity_by_hash s). ir_security_id a = ir_security_id b \<longrightarrow>
      interval_of a = interval_of b \<or> (\<nexists>t. identity_valid_at a t \<and> identity_valid_at b t)"
    unfolding case_prod_unfold by (intro ballI impI disj) simp_all
  have ids: "h = identity_compute_hash sha r \<and> identity_post_init sha r = Inr r" if "(h, r) \<in> set (sm_identity_by_hash s)" for h r
  proof -
    have "identity_stored sha (h, r)" using ok(1) that by (auto simp: identities_ok_def list_all_iff)
    then show ?thesis by (auto simp: identity_stored_def identity_post_init_def identity_verify_integrity_def bindO_eq_Inr)
  qed
  have evs: "h = action_compute_hash sha e \<and> action_post_init sha e = Inr e
      \<and> (\<exists>r. map_of (sm_identity_by_hash s) (ca_security_identity_hash e) = Some r \<and> ir_security_id r = ca_security_id e)"
    if "(h, e) \<in> set (sm_event_by_hash s)" for h e
  proof -
    have "event_stored sha s (h, e)" using ok(2) that by (auto simp: events_ok_def list_all_iff)
    then show ?thesis by (auto simp: event_stored_def action_post_init_def action_verify_integrity_def bindO_eq_Inr)
  qed
  have "h = decision_compute_hash sha d \<and> decision_post_init sha d = Inr d" if "(h, d) \<in> set (sm_decision_by_hash s)" for h d
  proof -
    have "decision_stored sha (h, d)" using ok(3) that by (auto simp: decisions_ok_def list_all_iff)
    then show ?thesis by (auto simp: decision_stored_def decision_post_init_def decision_verify_integrity_def bindO_eq_Inr)
  qed
  with ids evs intervals show ?thesis unfolding list_all_iff by (intro conjI) blast+
qed

theorem security_master_is_well_typed_witness:
  "security_history demo_sha (empty_log, empty_master) (demo_log, demo_events [CA_DETECTED, CA_ENTRY_BLOCKED])
   \<and> action_post_init demo_sha (demo_event CA_ENTRY_BLOCKED) = Inr (demo_event CA_ENTRY_BLOCKED)
   \<and> ca_record_hash (demo_event CA_ENTRY_BLOCKED) = action_compute_hash demo_sha (demo_event CA_ENTRY_BLOCKED)"
  using security_master_is_well_typed [OF demo_history2] demo_history2 by (simp add: demo_events_def)

text \<open>
  C36. The walk that reads an event back ends and never fails on a store the service built: it
  returns exactly the rows of the event, each once, from the detected row along legal
  transitions to the current one, and there are never more than four.
\<close>

theorem event_lineage_returns:
  assumes "security_history sha (empty_log, empty_master) (log, s)" "fullmatch EVENT_ID e"
  shows "\<exists>L. event_lineage sha e s = Inr L \<and> set L = {r \<in> snd ` set (sm_event_by_hash s). ca_event_id r = e}
    \<and> distinct L \<and> length L \<le> 4
    \<and> (L \<noteq> [] \<longrightarrow> ca_state (hd L) = CA_DETECTED \<and> map_of (sm_event_heads s) e = Some (ca_record_hash (last L)))
    \<and> (\<forall>i. Suc i < length L \<longrightarrow> validate_transition sha (L ! i) (L ! Suc i) = Inr ())"
proof -
  let ?L = "lineage_rows s e"
  have ok: "events_ok sha s" using reachable_ok [OF assms(1)] by (simp add: master_ok_def)
  then have L: "lineage_ok sha s e ?L" by (simp add: events_ok_def)
  then have succ: "successively (\<lambda>p c. validate_transition sha p c = Inr ()) ?L" by (auto simp: lineage_ok_def split: if_splits)
  have "distinct ?L" using lineage_hashes_distinct [OF ok, of e] by (simp add: distinct_map)
  moreover have "set ?L = {r \<in> snd ` set (sm_event_by_hash s). ca_event_id r = e}" by (auto simp: lineage_rows_def)
  moreover have "?L \<noteq> [] \<longrightarrow> ca_state (hd ?L) = CA_DETECTED \<and> map_of (sm_event_heads s) e = Some (ca_record_hash (last ?L))"
    using L by (auto simp: lineage_ok_def)
  ultimately show ?thesis
    using event_lineage_rows [OF ok assms(2)] lineage_length [OF succ] succ by (auto simp: successively_conv_nth)
qed

theorem event_lineage_returns_witness:
  "\<exists>L. event_lineage demo_sha ''e1'' (demo_events [CA_DETECTED, CA_ENTRY_BLOCKED]) = Inr L \<and> L \<noteq> [] \<and> length L \<le> 4"
proof -
  obtain L where "event_lineage demo_sha ''e1'' (demo_events [CA_DETECTED, CA_ENTRY_BLOCKED]) = Inr L" "length L \<le> 4"
    using event_lineage_returns [OF demo_history2 demo_patterns(4)] by blast
  then show ?thesis by (auto simp: demo_lineage2)
qed

text \<open>
  C18. On identities of a store the service built, resolution computes its specification, which
  depends on the set of records and not on their order or repetition: the answer is the one
  record that is strictly latest for its interval among those known, and valid at the instant
  asked for; a missing head or overlapping heads are a conflict.
\<close>

theorem identity_resolution_meets_spec:
  assumes "security_history sha (empty_log, empty_master) (log, s)"
    and "set records \<subseteq> snd ` set (sm_identity_by_hash s)" "length records \<le> MAX_RESOLUTION_RECORDS"
  shows "resolve_identity sha records q = Inr (resolution_spec (set records) q)"
proof -
  have ok: "identities_ok sha s" using reachable_ok [OF assms(1)] by (simp add: master_ok_def)
  have stored: "r \<in> set records \<Longrightarrow> identity_post_init sha r = Inr r" for r
    by (rule identities_stored(1) [OF ok]) (use assms(2) in force)
  have "inj_on ir_identity_hash (set records)" using identities_inj [OF ok] by (rule inj_on_subset) (use assms(2) in auto)
  then show ?thesis
    using stored stored_interval_ok [OF stored]
    by (intro resolve_identity_spec [OF assms(3)]) (auto simp: list_all_iff identity_post_init_def bindO_eq_Inr)
qed

theorem identity_resolution_meets_spec_witness:
  "resolution_spec {demo_identity} \<lparr>iq_as_of = 0, iq_known_at = 0, iq_security_id = Some ''aaaaaaaa'', iq_symbol = None\<rparr>
     = \<lparr>res_status = ID_RESOLVED, res_record = Some demo_identity\<rparr>"
  using identity_resolution_meets_spec [OF demo_history1, of "[demo_identity, demo_identity]"
      "\<lparr>iq_as_of = 0, iq_known_at = 0, iq_security_id = Some ''aaaaaaaa'', iq_symbol = None\<rparr>"]
    identity_resolution_meets_spec [OF demo_history1, of "[demo_identity]"
      "\<lparr>iq_as_of = 0, iq_known_at = 0, iq_security_id = Some ''aaaaaaaa'', iq_symbol = None\<rparr>"]
  by (simp add: demo_master1_def MAX_RESOLUTION_RECORDS_def)

section \<open>Entry decisions\<close>

text \<open>
  C11. A security is declared eligible only when the store clears it at the instant of the
  decision: its strictly latest known identity is valid then, carries the symbol asked for and
  is the version the caller decided on; no other security answers to that symbol; and no row of
  any split of the security was known. The decision then carries no reason.
\<close>

theorem eligible_only_when_clear:
  assumes "security_history sha (empty_log, empty_master) (log, s)"
    and "quarantine sha (log_reader log') q s = (Inr d, s')" "qd_outcome d = ENTRY_ELIGIBLE"
  shows "clear_to_enter s q"
proof -
  obtain decision where "quarantine_evaluation sha (log_reader log') q s = Inr decision" "decision_wire d = decision_wire decision"
    using assms(2) by (cases rule: quarantine_cases) auto
  then show ?thesis using eligible_is_clear(1) [OF reachable_ok [OF assms(1)]] decision_wire_outcome assms(3) by metis
qed

theorem eligible_only_when_clear_witness:
  "\<exists>s'. quarantine demo_sha (log_reader demo_log) (demo_query 0) demo_master1 = (Inr (demo_decision 0 ENTRY_ELIGIBLE [] []), s')
   \<and> clear_to_enter demo_master1 (demo_query 0)"
  using demo_eligible_run [OF order_refl utc_zero] eligible_only_when_clear [OF demo_history1] by (metis demo_decision_fields(2))

text \<open>
  C12. A discovered split blocks for good: after \<open>discover_split\<close> returned, no later decision of
  any caller at or after the instant the event became available declares the security
  eligible, whatever was registered, confirmed or corrected in between.
\<close>

theorem discovered_split_blocks_entry:
  assumes "security_history sha (empty_log, empty_master) (log, s)" "action_post_init sha e = Inr e"
    and "discover_split sha (log_reader log) e s = (Inr r, s1)" "security_history sha (log, s1) (log2, s2)"
    and "quarantine sha (log_reader log2) q s2 = (Inr d, s3)"
    and "qq_security_id q = ca_security_id e" "ca_available_at e \<le> qq_decision_at q"
  shows "qd_outcome d \<noteq> ENTRY_ELIGIBLE"
proof
  assume "qd_outcome d = ENTRY_ELIGIBLE"
  moreover obtain decision where "quarantine_evaluation sha (log_reader log2) q s2 = Inr decision" "decision_wire d = decision_wire decision"
    using assms(5) by (cases rule: quarantine_cases) auto
  moreover have s1: "master_ok sha s1"
    using reachable_ok [OF assms(1)] keepsD [OF discover_split_sound [OF assms(2)] assms(3)] by (simp add: sound_def)
  then have s2: "master_ok sha s2" "grows s1 s2" using history_sound [OF assms(4)] by (simp_all add: sound_def)
  ultimately have clear: "clear_to_enter s2 q" using eligible_is_clear(1) decision_wire_outcome by metis
  obtain x where x: "x \<in> set (events s1)" "ca_security_id x = ca_security_id e" "ca_available_at x = ca_available_at e"
    using discovered_row_stored [OF s1 assms(2,3)] by blast
  then have "x \<in> set (events s2)" using s2(2) by (auto simp: grows_def prefix_def)
  then show False using clear x assms(6,7) by (auto simp: clear_to_enter_def)
qed

theorem discovered_split_blocks_entry_witness:
  "\<exists>d s3. quarantine demo_sha (log_reader demo_log) (demo_query 0) (demo_events [CA_DETECTED, CA_ENTRY_BLOCKED]) = (Inr d, s3)
     \<and> qd_outcome d \<noteq> ENTRY_ELIGIBLE"
proof -
  obtain s3 where "quarantine demo_sha (log_reader demo_log) (demo_query 0) (demo_events [CA_DETECTED, CA_ENTRY_BLOCKED])
      = (Inr (demo_decision 0 ENTRY_BLOCKED [SPLIT_DETECTED, FORMAL_CONFIRMATION_MISSING] [''e1'']), s3)"
    using demo_blocked_run by blast
  moreover from discovered_split_blocks_entry [OF demo_history1 demo_event_ok demo_discover rtranclp.rtrancl_refl this]
  have "qd_outcome (demo_decision 0 ENTRY_BLOCKED [SPLIT_DETECTED, FORMAL_CONFIRMATION_MISSING] [''e1'']) \<noteq> ENTRY_ELIGIBLE"
    by (simp add: demo_query_def)
  ultimately show ?thesis by blast
qed

section \<open>Confirmation\<close>

text \<open>
  C37. A split becomes confirmed only over its durable entry block and on official evidence: the
  row before the confirmed one is the entry block, every observation is the current version of
  its source record, audited and available by the decision, none disagrees with the detected
  facts, an SEC, issuer or exchange source states all of them, and the ex-date is still ahead.
\<close>

theorem confirmation_needs_official_evidence:
  assumes "security_history sha (empty_log, empty_master) (log, s)"
    and "confirm_split sha (log_reader log) e obs t s = (Inr r, s')"
    and "ca_state r = CA_CONFIRMED" "ca_state (last (lineage_rows s e)) \<noteq> CA_CONFIRMED"
  shows "official_evidence sha (log_reader log) (hd (lineage_rows s e)) obs t
    \<and> (\<exists>L. lineage_rows s' e = L @ [r] \<and> L \<noteq> [] \<and> ca_state (last L) = CA_ENTRY_BLOCKED)"
  using confirm_split_confirms [OF reachable_ok [OF assms(1)] assms(2-4)] by blast

theorem confirmation_needs_official_evidence_witness:
  "official_evidence demo_sha (log_reader demo_log) (demo_event CA_DETECTED) [demo_observation] 0
   \<and> lineage_rows (demo_events [CA_DETECTED, CA_ENTRY_BLOCKED, CA_CONFIRMED]) ''e1'' \<noteq> []"
  using confirmation_needs_official_evidence [OF demo_history2 demo_confirm] by (simp add: demo_rows)

section \<open>Decisions out of order\<close>

lemma max_decision_in: "max_decision b ds \<in> set (b # ds)"
proof (induction ds arbitrary: b)
  case (Cons d ds)
  from Cons [of d] Cons [of b] show ?case by auto
qed simp

lemma max_decision_ge: "x \<in> set (b # ds) \<Longrightarrow> qd_decision_at x \<le> qd_decision_at (max_decision b ds)"
proof (induction ds arbitrary: b x)
  case (Cons d ds)
  let ?best = "if (qd_decision_at b, qd_decision_hash b) < (qd_decision_at d, qd_decision_hash d) then d else b"
  have "\<exists>y\<in>set (?best # ds). qd_decision_at x \<le> qd_decision_at y" using Cons.prems by (auto simp: less_prod_def less_eq_prod_def)
  then show ?case using Cons.IH [of _ ?best] by (auto intro: order_trans)
qed simp

lemma latest_decision_is_latest:
  assumes "decisions_ok sha s" "latest_decision sha sid s = Inr (Some m)"
    and "(h, d) \<in> set (sm_decision_by_hash s)" "qd_security_id d = sid"
  shows "qd_decision_at d \<le> qd_decision_at m" "decision_post_init sha m = Inr m"
proof -
  let ?ds = "filter (\<lambda>d. qd_security_id d = sid) (map snd (sm_decision_by_hash s))"
  have "mapO (lookup (sm_decision_by_hash s)) (sm_decision_order s) = Inr (map snd (sm_decision_by_hash s))"
    using assms(1) lookup_all by (metis decisions_ok_def)
  then obtain b ds where ds: "?ds = b # ds" "m = max_decision b ds"
    using assms(2) by (auto simp: latest_decision_def bindO_eq_Inr Let_def split: list.splits)
  have "d \<in> set ?ds" using assms(3,4) by force
  then show "qd_decision_at d \<le> qd_decision_at m" using max_decision_ge [of d b ds] unfolding ds by blast
  have "m \<in> set ?ds" using max_decision_in [of b ds] unfolding ds by blast
  then show "decision_post_init sha m = Inr m" using assms(1) by (auto simp: decisions_ok_def list_all_iff decision_stored_def)
qed

lemma decision_wire_time:
  assumes "decision_wire d = decision_wire d'" "decision_post_init sha d = Inr d" "decision_post_init sha d' = Inr d'"
  shows "qd_decision_at d = qd_decision_at d'"
proof -
  have "utc_ok (qd_decision_at x)" if "decision_post_init sha x = Inr x" for x
    using that by (auto simp: decision_post_init_def bindO_eq_Inr)
  then show ?thesis using assms utc_str_inject by (simp add: decision_wire_def)
qed

text \<open>
  C38. A decision for an instant before the latest recorded one is refused: when the store holds
  a later decision for the security, \<open>quarantine\<close> does not return, whatever it would decide,
  and leaves the store as it was, although the evaluation itself replays past instants.
\<close>

theorem earlier_decisions_are_refused:
  assumes "security_history sha (empty_log, empty_master) (log, s)"
    and "(h, d) \<in> set (sm_decision_by_hash s)" "qd_security_id d = qq_security_id q" "qq_decision_at q < qd_decision_at d"
  shows "\<exists>err. quarantine sha (log_reader log') q s = (Inl err, s)"
proof -
  obtain r s' where run: "quarantine sha (log_reader log') q s = (r, s')" by fastforce
  have s': "decisions_ok sha s'" "(h, d) \<in> set (sm_decision_by_hash s')"
    using reachable_ok [OF assms(1)] keepsD [OF quarantine_sound run] assms(2) by (auto simp: sound_def master_ok_def grows_def prefix_def)
  from run show ?thesis
  proof (cases rule: quarantine_cases)
    case (decided m decision out)
    note ev = evaluation_decision [OF decided(2)]
    note m = latest_decision_is_latest [OF s'(1) decided(4) s'(2)]
    have "qd_decision_at m = qq_decision_at q" using decision_wire_time [OF decided(5) m(2) ev(1)] assms(3) ev(2,3) by simp
    then show ?thesis using m(1) assms(3,4) ev(2) by simp
  qed (use run in simp)
qed

theorem earlier_decisions_are_refused_witness:
  "\<exists>s h d err. (h, d) \<in> set (sm_decision_by_hash s) \<and> qd_decision_at d = 1
     \<and> quarantine demo_sha (log_reader demo_log) (demo_query 0) s = (Inl err, s)"
proof -
  obtain s where s: "quarantine demo_sha (log_reader demo_log) (demo_query 1) demo_master1 = (Inr (demo_decision 1 ENTRY_ELIGIBLE [] []), s)"
      "\<exists>h. (h, demo_decision 1 ENTRY_ELIGIBLE [] []) \<in> set (sm_decision_by_hash s)"
    using demo_eligible_run [of 1] utc_one by auto
  have "security_history demo_sha (empty_log, empty_master) (demo_log, s)"
    using demo_history1 security_step.quarantine_step [OF s(1)] by (rule rtranclp.rtrancl_into_rtrancl)
  from s(2) earlier_decisions_are_refused [OF this, of _ "demo_decision 1 ENTRY_ELIGIBLE [] []" "demo_query 0" demo_log]
  show ?thesis by (fastforce simp: demo_query_def)
qed

end
