(* ===== verification/Universe_Properties.thy ===== *)
theory Universe_Properties
  imports Universe_Demo Security_Properties
begin

text \<open>
  The properties of the universe: who is admitted, that the order of the inputs does not matter,
  and, with the security master, that an admitted security had no known split.
\<close>

section \<open>Who is admitted\<close>

lemma first_open_session:
  assumes "require_first_open_session as_of sessions = Inr ()"
  shows "\<forall>n\<in>{toordinal (as_of\<lparr>day := 1\<rparr>)..<toordinal as_of}. \<exists>s\<in>set sessions. ms_trading_date s = fromordinal n \<and> ms_day_kind s = DAY_CLOSED"
    "\<exists>s\<in>set sessions. ms_trading_date s = as_of \<and> ms_day_kind s \<noteq> DAY_CLOSED"
proof -
  show "\<forall>n\<in>{toordinal (as_of\<lparr>day := 1\<rparr>)..<toordinal as_of}. \<exists>s\<in>set sessions. ms_trading_date s = fromordinal n \<and> ms_day_kind s = DAY_CLOSED"
  proof
    fix n assume n: "n \<in> {toordinal (as_of\<lparr>day := 1\<rparr>)..<toordinal as_of}"
    then obtain s where "session_by_date sessions (fromordinal n) = Some s" "ms_day_kind s = DAY_CLOSED"
      using assms unfolding require_first_open_session_def bindO_eq_Inr eachO_eq_Inr list_all_iff by (fastforce split: option.splits)
    then show "\<exists>s\<in>set sessions. ms_trading_date s = fromordinal n \<and> ms_day_kind s = DAY_CLOSED" using session_by_date_Some by blast
  qed
  obtain s where "session_by_date sessions as_of = Some s" "ms_day_kind s = DAY_REGULAR \<or> ms_day_kind s = DAY_HALF"
    using assms unfolding require_first_open_session_def bindO_eq_Inr by (auto split: option.splits)
  then show "\<exists>s\<in>set sessions. ms_trading_date s = as_of \<and> ms_day_kind s \<noteq> DAY_CLOSED" using session_by_date_Some by fastforce
qed

text \<open>
  C4. A universe that was built has one entry per asset, in the order of the security ids, and
  admits exactly the securities that pass every hard filter over authorities of their own: an
  ordinary common stock that is active, tradable and not halted and was observed within a week, its
  current identity, an eligible quarantine decision of the same version at most a week old, and a
  conflict-free, fresh snapshot with a tight spread, at least 252 sessions, a price of at least 5 and
  an average dollar volume of at least 20 million. Every other entry carries a reason. The day is
  the first open session of its month, and the universe reads back as itself.
\<close>

theorem universe_admits_exactly_the_cleared:
  assumes "build_universe sha as_of known_at version assets views quarantines markets sessions policy schema = Inr u"
  shows "map ue_security_id (us_entries u) = sort (map ao_security_id assets)
    \<and> (\<forall>e\<in>set (us_entries u). \<exists>a\<in>set assets. ue_security_id e = ao_security_id a \<and> ue_symbol e = ao_symbol a
         \<and> (ue_eligible e \<longleftrightarrow> admitted views quarantines markets known_at a) \<and> (ue_eligible e \<longleftrightarrow> ue_reason e = None))
    \<and> (\<forall>n\<in>{toordinal (as_of\<lparr>day := 1\<rparr>)..<toordinal as_of}. \<exists>s\<in>set sessions. ms_trading_date s = fromordinal n \<and> ms_day_kind s = DAY_CLOSED)
    \<and> (\<exists>s\<in>set sessions. ms_trading_date s = as_of \<and> ms_day_kind s \<noteq> DAY_CLOSED)
    \<and> reconstruct_universe_snapshot sha u = Inr u"
proof (intro conjI ballI)
  have first: "require_first_open_session as_of sessions = Inr ()" using assms unfolding build_universe_iff by blast
  show "map ue_security_id (us_entries u) = sort (map ao_security_id assets)" using assms by (rule built_order)
  show "\<exists>a\<in>set assets. ue_security_id e = ao_security_id a \<and> ue_symbol e = ao_symbol a
      \<and> (ue_eligible e \<longleftrightarrow> admitted views quarantines markets known_at a) \<and> (ue_eligible e \<longleftrightarrow> ue_reason e = None)"
    if "e \<in> set (us_entries u)" for e
  proof -
    obtain a where a: "a \<in> set assets" "entry_for views quarantines markets known_at a = Inr e"
      "inputs_agree as_of known_at version assets views quarantines markets policy" using assms \<open>e \<in> set (us_entries u)\<close> by (rule built_entry)
    then show ?thesis using evaluate_entry_fields(1-3) [OF a(2)] entry_for_admitted [OF a(3,2)] by auto
  qed
  show "\<exists>s\<in>set sessions. ms_trading_date s = fromordinal n \<and> ms_day_kind s = DAY_CLOSED"
    if "n \<in> {toordinal (as_of\<lparr>day := 1\<rparr>)..<toordinal as_of}" for n using first_open_session(1) [OF first] that by blast
  show "\<exists>s\<in>set sessions. ms_trading_date s = as_of \<and> ms_day_kind s \<noteq> DAY_CLOSED" by (rule first_open_session(2) [OF first])
  show "reconstruct_universe_snapshot sha u = Inr u" using assms universe_reads_back unfolding build_universe_iff by blast
qed

theorem universe_admits_exactly_the_cleared_witness:
  "build_universe demo_sha demo_day demo_time (master_version_for demo_identity) [demo_asset] [demo_view] [demo_cleared] [demo_snapshot]
     demo_sessions demo_policy ''1.0.0'' = Inr demo_universe
   \<and> map ue_security_id (us_entries demo_universe) = [''aaaaaaaa''] \<and> admitted [demo_view] [demo_cleared] [demo_snapshot] demo_time demo_asset
   \<and> reconstruct_universe_snapshot demo_sha demo_universe = Inr demo_universe"
proof -
  have "us_entries demo_universe = [demo_entry]" "ue_eligible demo_entry" "ao_security_id demo_asset = ''aaaaaaaa''"
    by (simp_all add: demo_universe_def demo_universe_body_def snapshot_of_def demo_entry_def demo_asset_def)
  then show ?thesis using universe_admits_exactly_the_cleared [OF demo_universe_run] demo_universe_run by auto
qed

section \<open>Order of the inputs\<close>

text \<open>
  C39. The universe depends on which assets, identities, decisions, snapshots and sessions are given
  and not on the order they are given in: a permutation of each builds the same universe with the
  same hash.
\<close>

theorem universe_ignores_input_order:
  assumes "mset assets = mset assets'" "mset views = mset views'" "mset quarantines = mset quarantines'"
    "mset markets = mset markets'" "mset sessions = mset sessions'"
  shows "build_universe sha as_of known_at version assets views quarantines markets sessions policy schema = Inr u
    \<longleftrightarrow> build_universe sha as_of known_at version assets' views' quarantines' markets' sessions' policy schema = Inr u"
  using build_universe_mset [OF assms] build_universe_mset [OF assms [symmetric]] by blast

theorem universe_ignores_input_order_witness:
  "build_universe demo_sha demo_day demo_time (master_version_for demo_identity) [demo_asset] [demo_view] [demo_cleared] [demo_snapshot]
     (rev demo_sessions) demo_policy ''1.0.0'' = Inr demo_universe"
  using universe_ignores_input_order [of "[demo_asset]" "[demo_asset]" "[demo_view]" "[demo_view]" "[demo_cleared]" "[demo_cleared]"
      "[demo_snapshot]" "[demo_snapshot]" demo_sessions "rev demo_sessions"] demo_universe_run by simp

section \<open>The universe and the security master\<close>

lemma latest_decision_stored:
  assumes "decisions_ok sha s" "latest_decision sha sid s = Inr (Some m)"
  shows "decision_post_init sha m = Inr m"
proof -
  let ?ds = "filter (\<lambda>d. qd_security_id d = sid) (map snd (sm_decision_by_hash s))"
  have "mapO (lookup (sm_decision_by_hash s)) (sm_decision_order s) = Inr (map snd (sm_decision_by_hash s))"
    using assms(1) lookup_all by (metis decisions_ok_def)
  then obtain b ds where ds: "?ds = b # ds" "m = max_decision b ds"
    using assms(2) by (auto simp: latest_decision_def bindO_eq_Inr Let_def split: list.splits)
  have "m \<in> set ?ds" using max_decision_in [of b ds] unfolding ds by blast
  then show ?thesis using assms(1) by (auto simp: decisions_ok_def list_all_iff decision_stored_def)
qed

lemma served_decision:
  assumes "security_history sha (empty_log, empty_master) (sources, s)" "quarantine sha (log_reader sources') qq s = (Inr q, s')"
  shows "qd_security_id q = qq_security_id qq" "qd_decision_at q = qq_decision_at qq" "qd_outcome q = ENTRY_ELIGIBLE \<Longrightarrow> clear_to_enter s qq"
proof -
  obtain decision where run: "quarantine_evaluation sha (log_reader sources') qq s = Inr decision" "decision_wire q = decision_wire decision"
    and latest: "latest_decision sha (qd_security_id decision) s' = Inr (Some q)"
    using assms(2) by (rule quarantine_cases) (simp, metis sum.inject(2))
  have "decisions_ok sha s'"
    using reachable_ok [OF assms(1)] keepsD [OF quarantine_sound assms(2)] by (auto simp: sound_def master_ok_def)
  note stored = latest_decision_stored [OF this latest]
  note ev = evaluation_decision [OF run(1)]
  show "qd_security_id q = qq_security_id qq" using run(2) ev(2) by (simp add: decision_wire_def)
  show "qd_decision_at q = qq_decision_at qq" using decision_wire_time [OF run(2) stored ev(1)] ev(3) by simp
  show "clear_to_enter s qq" if "qd_outcome q = ENTRY_ELIGIBLE"
    using eligible_is_clear(1) [OF reachable_ok [OF assms(1)] run(1)] decision_wire_outcome [OF run(2)] that by simp
qed

text \<open>
  C10. A security is admitted only on a decision of the security master that stands. When every
  quarantine decision handed to the builder came from a run of the service over a reachable store,
  an admitted security has such a run within the last week before the universe was known, and in
  the store of that run its current identity was valid under the symbol asked for and no row of any
  split of it was known.
\<close>

theorem admitted_securities_have_no_known_split:
  assumes "build_universe sha as_of known_at version assets views quarantines markets sessions policy schema = Inr u"
    and "e \<in> set (us_entries u)" "ue_eligible e"
    and "\<forall>q\<in>set quarantines. \<exists>sources s sources' qq s'. security_history sha (empty_log, empty_master) (sources, s)
           \<and> quarantine sha (log_reader sources') qq s = (Inr q, s')"
  shows "\<exists>q\<in>set quarantines. \<exists>sources s sources' qq s'. security_history sha (empty_log, empty_master) (sources, s)
    \<and> quarantine sha (log_reader sources') qq s = (Inr q, s') \<and> qq_security_id qq = ue_security_id e
    \<and> known_at - 7 * DAY_MICROSECONDS \<le> qq_decision_at qq \<and> qq_decision_at qq \<le> known_at \<and> clear_to_enter s qq
    \<and> (\<forall>x\<in>set (events s). ca_security_id x = ue_security_id e \<longrightarrow> qq_decision_at qq < ca_available_at x)"
proof -
  obtain a where a: "a \<in> set assets" "entry_for views quarantines markets known_at a = Inr e"
    "inputs_agree as_of known_at version assets views quarantines markets policy" using assms(1,2) by (rule built_entry)
  have "admitted views quarantines markets known_at a" using entry_for_admitted [OF a(3,2)] assms(3) by simp
  then obtain i q m where q: "q \<in> set quarantines" "cleared a i q m known_at" by (auto simp: admitted_def)
  have "check_quarantine sha known_at views q = Inr ()" using assms(1) q(1) unfolding build_universe_iff by blast
  then have "qd_decision_at q \<le> known_at" by (auto simp: check_quarantine_def bindO_eq_Inr)
  moreover obtain sources s sources' qq s' where run: "security_history sha (empty_log, empty_master) (sources, s)"
    "quarantine sha (log_reader sources') qq s = (Inr q, s')" using assms(4) q(1) by blast
  moreover note served_decision [OF run]
  ultimately show ?thesis
    using q evaluate_entry_fields(1) [OF a(2)] unfolding cleared_def clear_to_enter_def by (intro bexI [of _ q] exI conjI) auto
qed

theorem admitted_securities_have_no_known_split_witness:
  "demo_entry \<in> set (us_entries demo_universe)
   \<and> (\<exists>sources s sources' qq s'. security_history demo_sha (empty_log, empty_master) (sources, s)
        \<and> quarantine demo_sha (log_reader sources') qq s = (Inr demo_cleared, s') \<and> qq_security_id qq = ''aaaaaaaa'' \<and> clear_to_enter s qq)"
proof -
  have e: "demo_entry \<in> set (us_entries demo_universe)" "ue_eligible demo_entry" "ue_security_id demo_entry = ''aaaaaaaa''"
    by (simp_all add: demo_universe_def demo_universe_body_def snapshot_of_def demo_entry_def)
  obtain s' where "quarantine demo_sha (log_reader demo_log) (demo_query demo_time) demo_master1 = (Inr demo_cleared, s')"
    using demo_eligible_run [of demo_time] demo_times(1) by auto
  then have "\<forall>q\<in>set [demo_cleared]. \<exists>sources s sources' qq s'. security_history demo_sha (empty_log, empty_master) (sources, s)
      \<and> quarantine demo_sha (log_reader sources') qq s = (Inr q, s')" using demo_history1 by (simp, blast)
  from admitted_securities_have_no_known_split [OF demo_universe_run e(1,2) this] show ?thesis using e(1,3) by (simp, blast)
qed

end
