(* ===== verification/Spec2Isabelle.thy ===== *)
theory Spec2Isabelle
  imports System_Properties Job_Properties Market_Properties Market_Events Universe_Properties
begin

text \<open>
  \<^bold>\<open>Verification of the execution core, the security master and the universe of seven-lens paper trading.\<close>

  Paths below are relative to \<open>src/src/seven_lens/\<close>.

  \<^bold>\<open>The program.\<close> A paper-trading system submits orders to a Paper broker and must never lose
  track of one: the row of an order is committed before the order is sent, an outcome the
  broker did not state is kept as UNKNOWN and resolved by a query and not by a second
  submission, and new entries stop while the durable control state says so. Its parts are

  \<^item> the execution engine (\<open>application/execution_service.py\<close>), which claims, submits, queries,
    cancels and expires orders;
  \<^item> the trade-update consumer (\<open>execution/trade_updates.py\<close>), which applies the events the
    broker streams;
  \<^item> the reconciler (\<open>application/reconciliation_service.py\<close>), which compares the broker's
    account with the ledger and pauses on a mismatch;
  \<^item> the control plane (\<open>application/control_service.py\<close>): pause, resume, cancel, flatten;
  \<^item> the PostgreSQL store behind one unit of work (\<open>infrastructure/postgres.py\<close> and the
    migrations), the only state these four share;
  \<^item> the broker port (\<open>application/ports/broker.py\<close>) and its deterministic implementation
    (\<open>execution/fake_broker.py\<close>);
  \<^item> the scheduled jobs with their leases (\<open>domain/jobs.py\<close>, \<open>application/job_service.py\<close>);
  \<^item> the security master (\<open>securities/\<close>): identities, split events and the entry decisions
    taken over them, fed by the source log (\<open>sources/adapters/\<close>);
  \<^item> the market snapshots (\<open>market_data/snapshots.py\<close>): quotes, bars and splits read from source
    records and assembled into a hashed record of one security at one instant;
  \<^item> the universe (\<open>universe/\<close>): the securities that pass every hard filter on the first open
    session of a month, over the identities, entry decisions and snapshots of the parts above.

  \<^bold>\<open>Which theory models what.\<close>

  \<^item> \<open>Prelude\<close>: the exceptions, the state-and-exception monad, its two calculi (the relation
    \<open>keeps\<close> for frames and the triples with an exceptional postcondition), dictionaries as
    association lists in insertion order. \<open>Text_Patterns\<close>: the regular expressions and text
    helpers.
  \<^item> \<open>Value_Objects\<close>, \<open>Calendar\<close>: \<open>domain/value_objects.py\<close> and the date arithmetic of the
    standard library it uses.
  \<^item> \<open>Order_Status\<close>, \<open>Orders\<close>: \<open>execution/orders.py\<close>; \<open>Ledger\<close>: \<open>execution/ledger.py\<close>;
    \<open>Contracts\<close>: \<open>execution/control.py\<close> and \<open>execution/reconciliation.py\<close>.
  \<^item> \<open>Database\<close>, \<open>Unit_Of_Work\<close>: the tables, constraints and triggers of the migrations and the
    repositories over them. A unit of work holds the committed database, its own view and the
    connection state; \<open>commit\<close> publishes the view.
  \<^item> \<open>Broker_Port\<close>, \<open>Fake_Broker\<close>, \<open>Broker_Conversation\<close> (what a broker answered from one state
    to another); \<open>Engine\<close> with \<open>Engine_Safety\<close> (what is committed whenever the
    broker is called), \<open>Engine_Runs\<close> (histories of operations), \<open>Engine_Outcome\<close> (what an
    operation leaves behind) and \<open>Engine_Properties\<close>.
  \<^item> \<open>Trade_Updates\<close>, \<open>Reconciler\<close>, \<open>Control_Plane\<close> with their \<open>..._Properties\<close>; \<open>Flatten\<close> (what
    has been read and heard before the first exit); \<open>System\<close> and \<open>System_Properties\<close>: all of
    them, the baselines and the jobs interleaved over one database.
  \<^item> \<open>Jobs\<close>, \<open>Job_Store\<close>, \<open>Job_Leases\<close>, \<open>Job_Service\<close>, \<open>Job_Properties\<close>: the job identity, the
    lease functions of migration 0002 under the guard trigger of migration 0001, the service.
  \<^item> \<open>Canonical_Json\<close> (the text that is hashed), \<open>Security_Contracts\<close>, \<open>Corporate_Actions\<close>,
    \<open>Identity_Resolution\<close>, \<open>Quarantine\<close>, \<open>Source_Records\<close>, \<open>Security_Master\<close>
    (\<open>securities/in_memory.py\<close>), \<open>Security_Service\<close>; over them \<open>Security_Invariants\<close>,
    \<open>Event_Lineages\<close>, \<open>Security_Histories\<close>, \<open>Entry_Decisions\<close> and \<open>Security_Properties\<close>.
  \<^item> \<open>Python_Decimal\<close>: the decimal arithmetic of the standard library with its rounding to the
    precision of the context. \<open>Market_Clock\<close>: \<open>clock/market_clock.py\<close> and
    \<open>screening/reasons.py\<close>. \<open>Market_Inputs\<close>, \<open>Market_Snapshot\<close>, \<open>Market_Assembly\<close>:
    \<open>market_data/snapshots.py\<close>; over them \<open>Market_Facts\<close>, \<open>Adv_Facts\<close> and \<open>Market_Properties\<close>.
    \<open>Market_Events\<close>: \<open>market_data/events.py\<close>, the verification of emergency events.
  \<^item> \<open>Universe_Contracts\<close>, \<open>Universe_Builder\<close>: \<open>universe/contracts.py\<close> and \<open>universe/builder.py\<close>;
    over them \<open>Universe_Gates\<close> and \<open>Universe_Properties\<close>.
  \<^item> \<open>Demo\<close>, \<open>Security_Demo\<close>, \<open>Market_Demo\<close>, \<open>Universe_Demo\<close>: concrete brokers, databases,
    histories, a year of sessions with its bars and a quote, and a universe of one security,
    evaluated by the simplifier, on which the witnesses run.

  \<^bold>\<open>How state and operations correspond.\<close> A frozen dataclass is a record or a one-constructor
  datatype, and its \<open>__post_init__\<close> a check that raises the source's exception. A method with
  effects is a definition in the monad of \<open>Prelude\<close> in the order of the source's statements: it
  returns \<open>Inl\<close> of the exception or \<open>Inr\<close> of the value, and in both cases the state left behind,
  so nothing of an operation that raised half-way is lost. Enumerations are datatypes with the
  source's members, dictionaries are association lists or maps, prices and amounts are whole
  cents, the only values the validators admit, and times are instants in microseconds. The
  decimals of the market data, which do round, are a coefficient and an exponent, and every
  operation on them takes the precision of the context; its rounding mode and its exponent
  limits are those of the default context.

  What the code does not decide is a parameter. Every round trip to the database consults a
  fault oracle: it may fail, the process may lose the connection, and a commit may fail before
  or after it took effect. Between two statements another process may commit a pause, and the
  row lock on the control state keeps it out. A read sees the own writes over what is committed
  by then (READ COMMITTED); only the reconciler reads one snapshot (REPEATABLE READ). Between
  two operations of a history other processes may do more (\<open>elsewhere\<close> in \<open>System\<close>): they change
  the database in any way in which no durable row is lost and statuses, quantities, watermarks
  and the flatten generation move forward, resuming entries included. Within an operation they
  do not resume entries or write rows; a resume in the middle of a flatten is possible in a
  deployment, and the claim on flatten is stated so that it does not depend on it. The range of
  INTEGER columns and the table lock that \<open>set_baseline\<close> takes on the fills have no counterpart.
  The broker is a function of its own state, restricted only where a
  claim says so by the documented contract \<open>paper_port\<close>; the digest (SHA-256), the price
  provider and the identifier generator are arbitrary functions. Telemetry and log lines are
  left out: no branch of the modelled code reads them.

  \<^bold>\<open>Interfaces.\<close> \<open>effect_frame\<close> states what every operation keeps of a relation between states
  and derives it for sequences; \<open>db_frame\<close>, \<open>engine_frame\<close>, \<open>engine_steps\<close> and \<open>control_frame\<close>
  build on it for the statements of the repositories, the operations of the engine and those
  of the control plane (its reading part is \<open>control_steps\<close>), and the security service interprets it for the append-only tables.
  \<open>hash_bound\<close> is a record that carries the hash of its content, interpreted for identities, split
  events, decisions, source records, market snapshots and universes. \<open>status_machine\<close> is a closed lifecycle map, interpreted for order intents and
  broker orders. \<open>paper_port\<close> is the broker's documented contract, interpreted on the fake
  broker; \<open>paper_engine\<close> is the engine over any broker that keeps it.

  \<^bold>\<open>What the lemmas show.\<close>

  \<^item> The engine: a submission happens only for an order whose SUBMITTING row is committed and
    whose gates were open, the broker never sees an order twice, an ambiguous outcome leaves a
    committed pause, a returned row is the committed row, cancellation and expiry reach only
    open orders; the statuses of a row follow the lifecycle maps.
  \<^item> The ledger projection conserves shares and cash and never closes more than was opened.
  \<^item> Trade updates are applied once and in agreement with the order's row; reconciliation
    reports a clean account only when the answers it received agree with the ledger, pauses
    otherwise, and adds nothing but its run and the audit of that pause.
  \<^item> The control plane resumes only after a clean reconciliation, no other operation clears a
    pause, and a flatten creates no exit unless the broker confirmed the ledger's positions.
  \<^item> Jobs: at most one live lease, a stale grant changes nothing, a status change and its audit
    record are atomic.
  \<^item> The security master: every history keeps the tables well-formed and append-only, the
    recursion along an event's links returns, point-in-time resolution equals its reference
    definition, an eligible answer means one identity and no split, a split is confirmed only by
    an official source, and decisions older than the latest are refused.
  \<^item> Market snapshots: midpoint and spread are exact for every quote a source record can carry,
    freshness and the wide-spread mark follow the limits to the letter, the average dollar volume
    uses nothing dated or learned after the decision, and what was assembled reads back.
  \<^item> The universe: one entry per asset, admitted exactly when every filter passes, the same for
    every order of the inputs, and, together with the security master, never a security with a
    split known when it was cleared.
  \<^item> Texts: timestamps and trading dates round-trip through their text forms, and a client order
    id determines the order it was composed for.

  \<^bold>\<open>Termination.\<close> No definition uses fuel. Loops over collections are structural recursions.
  The walk along the previous-hash links of an event (\<open>walk_chain\<close>) ends because every step
  visits a row not seen before, and the source's own guard against cycles is what makes it so; a
  lineage holds at most four rows.

  \<^bold>\<open>Not modelled.\<close> The analysis pipelines, model invocation, prompts, memory and the evaluation
  harness exchange free text with remote language models: what they decide lies outside the
  code. The transports, the keychain, the content store and the command line are I/O. The other
  repositories store the values of those parts, and the role grants and the migration runner are
  deployment scripts. The screening funnel (factors, evidence gates, correlation
  clusters) ranks the universe for those pipelines; only its closed reasons are modelled. Of the sources, the records, their log and the timestamp
  parser are modelled, the endpoint policies and payload adapters are not. The private tokens by
  which the code tells a trusted constructor from a caller have no counterpart: the model uses the
  constructors only where the code does. Configuration is environment parsing.
\<close>

end
